(* ===== verification/Prelude.thy ===== *)
theory Prelude
  imports Main "HOL-Library.Word" "HOL-Library.Multiset" "HOL-Library.Sublist"
begin

text \<open>
  Shared vocabulary of the development: machine integers and byte strings, results with errors as
  values, Rust slices (\<open>get\<close>, ranges), checked \<open>usize\<close> arithmetic, big-endian conversions, the
  Rust \<open>Ordering\<close>, the crate's error types (\<open>src/src/error.rs\<close>) and the generic lemmas and
  named collections that the component theories share. \<open>usize\<close> is the 64-bit one of host targets.
\<close>

unbundle bit_operations_syntax

section \<open>Types\<close>

type_synonym u8 = "8 word"
type_synonym u16 = "16 word"
type_synonym u32 = "32 word"
type_synonym u64 = "64 word"
type_synonym usize = nat
type_synonym bytes = "u8 list"

abbreviation Ok :: "'a \<Rightarrow> 'e + 'a" where "Ok x \<equiv> Inr x"
abbreviation Err :: "'e \<Rightarrow> 'e + 'a" where "Err e \<equiv> Inl e"

text \<open>The crate's decoding errors. Static message texts are kept as strings.\<close>

datatype CborError =
    UnexpectedEof
  | UnexpectedMajorType u8 u8
  | UnexpectedArrayLength usize usize
  | UnexpectedTag u64 u64
  | UnsupportedAdditionalInfo u8
  | TrailingBytes
  | IntegerOverflow
  | NonCanonicalEncoding
  | NonCanonicalMapOrder
  | DuplicateMapKey
  | LimitExceeded string

datatype Error =
    Cbor CborError
  | InvalidLength string usize usize
  | UnknownHashAlgorithm u16
  | Crypto string
  | OutOfRange string
  | UnexpectedValue string
  | InvalidTrustBase string

section \<open>Results\<close>

text \<open>\<open>rbind\<close> is the \<open>?\<close> operator; \<open>map_err\<close> and \<open>ok_or\<close> are the methods of the same name;
  \<open>rmap\<close> is a loop that pushes the results of a fallible function.\<close>

primrec rbind :: "'e + 'a \<Rightarrow> ('a \<Rightarrow> 'e + 'b) \<Rightarrow> 'e + 'b" where
  "rbind (Inl e) f = Inl e"
| "rbind (Inr x) f = f x"

primrec map_err :: "('e \<Rightarrow> 'f) \<Rightarrow> 'e + 'a \<Rightarrow> 'f + 'a" where
  "map_err g (Inl e) = Inl (g e)"
| "map_err g (Inr x) = Inr x"

primrec ok_or :: "'e \<Rightarrow> 'a option \<Rightarrow> 'e + 'a" where
  "ok_or e None = Inl e"
| "ok_or e (Some x) = Inr x"

primrec is_some_and :: "'a option \<Rightarrow> ('a \<Rightarrow> bool) \<Rightarrow> bool" where
  "is_some_and None P = False"
| "is_some_and (Some x) P = P x"

primrec rmap :: "('a \<Rightarrow> 'e + 'b) \<Rightarrow> 'a list \<Rightarrow> 'e + 'b list" where
  "rmap f [] = Inr []"
| "rmap f (x # xs) = rbind (f x) (\<lambda>y. rbind (rmap f xs) (\<lambda>ys. Inr (y # ys)))"

primrec is_ok :: "'e + 'a \<Rightarrow> bool" where
  "is_ok (Inl e) = False"
| "is_ok (Inr x) = True"

section \<open>Slices and checked arithmetic\<close>

definition get_from :: "'a list \<Rightarrow> usize \<Rightarrow> 'a list option" where
  "get_from xs i = (if i \<le> length xs then Some (drop i xs) else None)"

definition get_range :: "'a list \<Rightarrow> usize \<Rightarrow> usize \<Rightarrow> 'a list option" where
  "get_range xs i j = (if i \<le> j \<and> j \<le> length xs then Some (take (j - i) (drop i xs)) else None)"

definition get_at :: "'a list \<Rightarrow> usize \<Rightarrow> 'a option" where
  "get_at xs i = (if i < length xs then Some (xs ! i) else None)"

definition checked_add :: "usize \<Rightarrow> usize \<Rightarrow> usize option" where
  "checked_add a b = (if a + b < 2 ^ 64 then Some (a + b) else None)"

definition checked_mul :: "usize \<Rightarrow> usize \<Rightarrow> usize option" where
  "checked_mul a b = (if a * b < 2 ^ 64 then Some (a * b) else None)"

section \<open>Big-endian conversions\<close>

primrec be_bytes :: "nat \<Rightarrow> nat \<Rightarrow> bytes" where
  "be_bytes 0 v = []"
| "be_bytes (Suc n) v = be_bytes n (v div 256) @ [word_of_nat v]"

definition nat_of_be :: "bytes \<Rightarrow> nat" where
  "nat_of_be bs = foldl (\<lambda>a b. a * 256 + unat b) 0 bs"

definition to_be_bytes :: "'a::len word \<Rightarrow> bytes" where
  "to_be_bytes w = be_bytes (LENGTH('a) div 8) (unat w)"

definition from_be_bytes :: "bytes \<Rightarrow> 'a::len word" where
  "from_be_bytes bs = word_of_nat (nat_of_be bs)"

section \<open>Orderings\<close>

text \<open>\<open>core::cmp::Ordering\<close> with its derived order, and the comparison of byte slices
  (lexicographic, as \<open>Ord\<close> for \<open>[u8]\<close>).\<close>

datatype ordering = Less | Equal | Greater

instantiation ordering :: linorder
begin
primrec ord_rank :: "ordering \<Rightarrow> nat" where
  "ord_rank Less = 0"
| "ord_rank Equal = 1"
| "ord_rank Greater = 2"
definition less_eq_ordering :: "ordering \<Rightarrow> ordering \<Rightarrow> bool" where
  "less_eq_ordering a b \<longleftrightarrow> ord_rank a \<le> ord_rank b"
definition less_ordering :: "ordering \<Rightarrow> ordering \<Rightarrow> bool" where
  "less_ordering a b \<longleftrightarrow> ord_rank a < ord_rank b"
instance
proof
  fix a b :: ordering
  show "a \<le> b \<Longrightarrow> b \<le> a \<Longrightarrow> a = b"
    by (cases a; cases b) (auto simp: less_eq_ordering_def)
qed (auto simp: less_eq_ordering_def less_ordering_def)
end

definition cmp_nat :: "nat \<Rightarrow> nat \<Rightarrow> ordering" where
  "cmp_nat a b = (if a < b then Less else if a = b then Equal else Greater)"

definition cmp_u8 :: "u8 \<Rightarrow> u8 \<Rightarrow> ordering" where
  "cmp_u8 a b = (if a < b then Less else if a = b then Equal else Greater)"

fun cmp_bytes :: "bytes \<Rightarrow> bytes \<Rightarrow> ordering" where
  "cmp_bytes [] [] = Equal"
| "cmp_bytes [] (_ # _) = Less"
| "cmp_bytes (_ # _) [] = Greater"
| "cmp_bytes (a # as) (b # bs) =
     (case cmp_u8 a b of Equal \<Rightarrow> cmp_bytes as bs | c \<Rightarrow> c)"

text \<open>The slice \<open>sort_by\<close> of the standard library is a stable sort.\<close>

primrec insert_by :: "('a \<Rightarrow> 'a \<Rightarrow> ordering) \<Rightarrow> 'a \<Rightarrow> 'a list \<Rightarrow> 'a list" where
  "insert_by c x [] = [x]"
| "insert_by c x (y # ys) = (if c x y = Greater then y # insert_by c x ys else x # y # ys)"

primrec sort_by :: "('a \<Rightarrow> 'a \<Rightarrow> ordering) \<Rightarrow> 'a list \<Rightarrow> 'a list" where
  "sort_by c [] = []"
| "sort_by c (x # xs) = insert_by c x (sort_by c xs)"

section \<open>Lemmas on results\<close>

named_theorems result_simps "rewriting of results that are known to be Ok"

lemma rbind_cong [fundef_cong]:
  "m = m' \<Longrightarrow> (\<And>x. m' = Inr x \<Longrightarrow> f x = f' x) \<Longrightarrow> rbind m f = rbind m' f'"
  by (cases m') auto

lemma rbind_Inr_iff [result_simps]:
  "rbind m f = Inr y \<longleftrightarrow> (\<exists>x. m = Inr x \<and> f x = Inr y)"
  by (cases m) auto

lemma map_err_Inr_iff [result_simps]: "map_err g m = Inr y \<longleftrightarrow> m = Inr y"
  by (cases m) auto

lemma is_some_and_iff: "is_some_and m P \<longleftrightarrow> (\<exists>x. m = Some x \<and> P x)"
  by (cases m) simp_all

lemma ok_or_Inr_iff [result_simps]: "ok_or e m = Inr y \<longleftrightarrow> m = Some y"
  by (cases m) auto

lemma if_err_Inr_iff [result_simps]:
  "(if b then Inl e else m) = Inr y \<longleftrightarrow> \<not> b \<and> m = Inr y"
  by auto

text \<open>Results that are known to be errors.\<close>

lemma rbind_Inl_iff: "rbind m f = Inl e \<longleftrightarrow> m = Inl e \<or> (\<exists>x. m = Inr x \<and> f x = Inl e)"
  by (cases m) auto

lemma map_err_Inl_iff: "map_err g m = Inl e \<longleftrightarrow> (\<exists>e'. m = Inl e' \<and> e = g e')"
  by (cases m) auto

lemma ok_or_Inl_iff: "ok_or e' m = Inl e \<longleftrightarrow> m = None \<and> e = e'"
  by (cases m) auto

lemmas error_simps = rbind_Inl_iff map_err_Inl_iff ok_or_Inl_iff

lemma is_ok_iff: "is_ok m \<longleftrightarrow> (\<exists>x. m = Inr x)"
  by (cases m) auto

lemma rmap_Inr_iff [result_simps]:
  "rmap f xs = Inr ys \<longleftrightarrow> list_all2 (\<lambda>x y. f x = Inr y) xs ys"
proof (induction xs arbitrary: ys)
  case Nil
  then show ?case by auto
next
  case (Cons x xs)
  then show ?case by (cases ys) (auto simp: rbind_Inr_iff)
qed

lemma rmap_map_Inr: "(\<And>x. x \<in> set xs \<Longrightarrow> f (g x) = Inr (h x)) \<Longrightarrow> rmap f (map g xs) = Inr (map h xs)"
  by (induction xs) auto

lemma rmap_cong [fundef_cong]:
  "xs = ys \<Longrightarrow> (\<And>x. x \<in> set ys \<Longrightarrow> f x = g x) \<Longrightarrow> rmap f xs = rmap g ys"
  by (induction ys arbitrary: xs) auto

section \<open>Lemmas on slices\<close>

lemma get_from_Some_iff [result_simps]:
  "get_from xs i = Some ys \<longleftrightarrow> i \<le> length xs \<and> ys = drop i xs"
  by (auto simp: get_from_def)

lemma get_range_Some_iff [result_simps]:
  "get_range xs i j = Some ys \<longleftrightarrow> i \<le> j \<and> j \<le> length xs \<and> ys = take (j - i) (drop i xs)"
  by (auto simp: get_range_def)

lemma get_at_Some_iff [result_simps]:
  "get_at xs i = Some y \<longleftrightarrow> i < length xs \<and> y = xs ! i"
  by (auto simp: get_at_def)

lemma checked_add_Some_iff [result_simps]:
  "checked_add a b = Some c \<longleftrightarrow> a + b < 2 ^ 64 \<and> c = a + b"
  by (auto simp: checked_add_def)

lemma checked_mul_Some_iff [result_simps]:
  "checked_mul a b = Some c \<longleftrightarrow> a * b < 2 ^ 64 \<and> c = a * b"
  by (auto simp: checked_mul_def)

lemma drop_take_split: "drop p b = take k (drop p b) @ drop (p + k) b"
  by (metis add.commute append_take_drop_id drop_drop)

section \<open>Lemmas on big-endian conversions\<close>

lemma length_be_bytes [simp]: "length (be_bytes n v) = n"
  by (induction n arbitrary: v) auto

lemma nat_of_be_Nil [simp]: "nat_of_be [] = 0"
  by (simp add: nat_of_be_def)

lemma nat_of_be_snoc [simp]: "nat_of_be (bs @ [b]) = nat_of_be bs * 256 + unat b"
  by (simp add: nat_of_be_def)

lemma unat_byte_less [simp]: "unat (b :: u8) < 256"
proof -
  have "unat b < 2 ^ LENGTH(8)" by (rule unsigned_less)
  then show ?thesis by simp
qed

lemma nat_of_be_less: "nat_of_be bs < 256 ^ length bs"
proof (induction bs rule: rev_induct)
  case Nil
  then show ?case by simp
next
  case (snoc b bs)
  have "nat_of_be bs * 256 + unat b < (nat_of_be bs + 1) * 256"
    using unat_byte_less [of b] by simp
  also have "\<dots> \<le> 256 ^ length bs * 256"
    using snoc by simp
  finally show ?case by (simp add: mult.commute)
qed

lemma nat_of_be_bytes: "nat_of_be (be_bytes n v) = v mod 256 ^ n"
proof (induction n arbitrary: v)
  case 0
  then show ?case by simp
next
  case (Suc n)
  have "unat (word_of_nat v :: u8) = v mod 256"
    by (simp add: unat_of_nat)
  then show ?case
    using Suc mod_mult2_eq [of v 256 "256 ^ n"] by (simp add: mult.commute)
qed

lemma be_bytes_nat_of_be: "be_bytes (length bs) (nat_of_be bs) = bs"
proof (induction bs rule: rev_induct)
  case Nil
  then show ?case by simp
next
  case (snoc b bs)
  have "word_of_nat (nat_of_be bs * 256 + unat b) = b"
  proof (rule word_unat_eq_iff [THEN iffD2])
    show "unat (word_of_nat (nat_of_be bs * 256 + unat b) :: u8) = unat b"
      by (simp only: unat_of_nat) simp
  qed
  with snoc show ?case by simp
qed

lemma be_bytes_inj: "length bs = length cs \<Longrightarrow> nat_of_be bs = nat_of_be cs \<Longrightarrow> bs = cs"
  by (metis be_bytes_nat_of_be)

lemma length_to_be_bytes [simp]: "length (to_be_bytes (w :: 'a::len word)) = LENGTH('a) div 8"
  by (simp add: to_be_bytes_def)

lemma from_to_be_bytes:
  assumes "8 dvd LENGTH('a)"
  shows "from_be_bytes (to_be_bytes (w :: 'a::len word)) = w"
proof -
  from assms obtain k where k: "LENGTH('a) = 8 * k" by (elim dvdE)
  then have "(256 :: nat) ^ (LENGTH('a) div 8) = 2 ^ LENGTH('a)"
    by (simp add: power_mult)
  then have "nat_of_be (to_be_bytes w) = unat w"
    using unsigned_less [of w] by (simp add: to_be_bytes_def nat_of_be_bytes)
  then show ?thesis by (simp add: from_be_bytes_def)
qed

lemma to_from_be_bytes:
  assumes "LENGTH('a::len) = 8 * length bs"
  shows "to_be_bytes (from_be_bytes bs :: 'a word) = bs"
proof -
  have "nat_of_be bs < 2 ^ LENGTH('a)"
    using nat_of_be_less [of bs] assms by (simp add: power_mult)
  then have "unat (from_be_bytes bs :: 'a word) = nat_of_be bs"
    by (simp add: from_be_bytes_def unat_of_nat)
  then show ?thesis
    using assms by (simp add: to_be_bytes_def be_bytes_nat_of_be)
qed

lemma to_be_bytes_inj:
  assumes "8 dvd LENGTH('a)" and "to_be_bytes (v :: 'a::len word) = to_be_bytes w"
  shows "v = w"
  using assms from_to_be_bytes by metis

end
