(* ===== verification/Orders.thy ===== *)
theory Orders
  imports Prelude
begin

text \<open>
  The contract of the crate's comparison closures, as a locale: a three-way comparison that is a
  total order. Clients of the contract are the stable \<open>sort_by\<close>, the adjacent-pair tests for
  duplicates and the binary search of sorted slices. The provider shown here is the comparison of
  byte strings; other theories interpret the locale on their own comparisons.
\<close>

section \<open>Binary search\<close>

text \<open>\<open>slice::binary_search_by\<close>: the standard library documents that on a slice sorted by the
  comparison it returns an index whose element compares \<open>Equal\<close> and otherwise reports failure.
  The model halves the interval \<open>[lo, hi)\<close>.\<close>

function bsearch_by :: "('a \<Rightarrow> ordering) \<Rightarrow> 'a list \<Rightarrow> nat \<Rightarrow> nat \<Rightarrow> nat option" where
  "bsearch_by c xs lo hi =
     (if hi \<le> lo then None
      else let mid = lo + (hi - lo) div 2
           in case c (xs ! mid) of
                Equal \<Rightarrow> Some mid
              | Less \<Rightarrow> bsearch_by c xs (Suc mid) hi
              | Greater \<Rightarrow> bsearch_by c xs lo mid)"
  by pat_completeness auto
termination
  by (relation "measure (\<lambda>(c, xs, lo, hi). hi - lo)") auto

declare bsearch_by.simps [simp del]

definition binary_search_by :: "('a \<Rightarrow> ordering) \<Rightarrow> 'a list \<Rightarrow> nat option" where
  "binary_search_by c xs = bsearch_by c xs 0 (length xs)"

lemma bsearch_by_Some:
  "bsearch_by c xs lo hi = Some i \<Longrightarrow> lo \<le> i \<and> i < hi \<and> c (xs ! i) = Equal"
proof (induction c xs lo hi rule: bsearch_by.induct)
  case (1 c xs lo hi)
  show ?case
  proof (cases "hi \<le> lo")
    case True
    then show ?thesis using "1.prems" by (simp add: bsearch_by.simps [of c xs lo hi])
  next
    case False
    define mid where "mid = lo + (hi - lo) div 2"
    have mid: "lo \<le> mid" "mid < hi" using False by (auto simp: mid_def)
    show ?thesis
      using "1.prems" "1.IH" [OF False mid_def] mid False
      by (fastforce simp: bsearch_by.simps [of c xs lo hi] mid_def [symmetric] Let_def
          split: ordering.splits)
  qed
qed

text \<open>On a slice in which the comparison is monotone, the search finds an element that exists.\<close>

lemma bsearch_by_complete:
  assumes mono: "\<And>i j. i < j \<Longrightarrow> j < length xs \<Longrightarrow> c (xs ! i) \<le> c (xs ! j)"
  shows "lo \<le> k \<Longrightarrow> k < hi \<Longrightarrow> hi \<le> length xs \<Longrightarrow> c (xs ! k) = Equal \<Longrightarrow>
    \<exists>i. bsearch_by c xs lo hi = Some i"
proof (induction "hi - lo" arbitrary: lo hi rule: less_induct)
  case less
  define mid where "mid = lo + (hi - lo) div 2"
  have mid: "lo \<le> mid" "mid < hi" using less.prems by (auto simp: mid_def)
  have unfold: "bsearch_by c xs lo hi =
      (case c (xs ! mid) of Equal \<Rightarrow> Some mid | Less \<Rightarrow> bsearch_by c xs (Suc mid) hi
       | Greater \<Rightarrow> bsearch_by c xs lo mid)"
    using less.prems by (subst bsearch_by.simps) (simp add: mid_def [symmetric] Let_def)
  show ?case
  proof (cases "c (xs ! mid)")
    case Less
    have "mid < k"
    proof (rule ccontr)
      assume "\<not> mid < k"
      then consider "k = mid" | "k < mid" by linarith
      then show False
      proof cases
        case 1 with Less less.prems show False by simp
      next
        case 2
        with mono [of k mid] mid less.prems Less show False
          by (simp add: less_eq_ordering_def)
      qed
    qed
    then show ?thesis
      using less.hyps [of hi "Suc mid"] less.prems mid Less unfold by simp
  next
    case Equal
    then show ?thesis using unfold by simp
  next
    case Greater
    have "k < mid"
    proof (rule ccontr)
      assume "\<not> k < mid"
      then consider "k = mid" | "mid < k" by linarith
      then show False
      proof cases
        case 1 with Greater less.prems show False by simp
      next
        case 2
        with mono [of mid k] mid less.prems Greater show False
          by (simp add: less_eq_ordering_def)
      qed
    qed
    then show ?thesis
      using less.hyps [of mid lo] less.prems mid Greater unfold by simp
  qed
qed

lemma binary_search_by_Some:
  "binary_search_by c xs = Some i \<Longrightarrow> i < length xs \<and> c (xs ! i) = Equal"
  unfolding binary_search_by_def by (auto dest: bsearch_by_Some)

lemma binary_search_by_complete:
  assumes "\<And>i j. i < j \<Longrightarrow> j < length xs \<Longrightarrow> c (xs ! i) \<le> c (xs ! j)"
    and "k < length xs" and "c (xs ! k) = Equal"
  shows "\<exists>i. binary_search_by c xs = Some i"
  using bsearch_by_complete [of xs c 0 k "length xs", OF assms(1)] assms(2,3)
  by (simp add: binary_search_by_def)

section \<open>Total three-way comparisons\<close>

locale total_cmp =
  fixes cmp :: "'k \<Rightarrow> 'k \<Rightarrow> ordering"
  assumes cmp_Equal: "cmp a b = Equal \<longleftrightarrow> a = b"
    and cmp_flip: "cmp a b = Less \<longleftrightarrow> cmp b a = Greater"
    and cmp_trans: "cmp a b = Less \<Longrightarrow> cmp b c = Less \<Longrightarrow> cmp a c = Less"
begin

lemma not_Greater_iff: "cmp a b \<noteq> Greater \<longleftrightarrow> cmp a b = Less \<or> a = b"
  by (cases "cmp a b") (use cmp_Equal [of a b] in auto)

lemma le_trans: "cmp a b \<noteq> Greater \<Longrightarrow> cmp b c \<noteq> Greater \<Longrightarrow> cmp a c \<noteq> Greater"
  using not_Greater_iff cmp_trans by metis

lemma Less_irrefl: "cmp a a \<noteq> Less"
  using cmp_Equal [of a a] by simp

lemma Less_neq: "cmp a b = Less \<Longrightarrow> a \<noteq> b"
  using Less_irrefl by auto

lemma set_insert_by: "set (insert_by c x xs) = insert x (set xs)"
  by (induction xs) auto

lemma set_sort_by [simp]: "set (sort_by c xs) = set xs"
  by (induction xs) (auto simp: set_insert_by)

lemma mset_insert_by: "mset (insert_by c x xs) = add_mset x (mset xs)"
  by (induction xs) auto

lemma mset_sort_by: "mset (sort_by c xs) = mset xs"
  by (induction xs) (auto simp: mset_insert_by)

lemma length_sort_by [simp]: "length (sort_by c xs) = length xs"
  using mset_sort_by by (metis size_mset)

text \<open>Sorting by a key leaves the keys in non-decreasing order.\<close>

lemma sorted_insert_by:
  "sorted_wrt (\<lambda>x y. cmp (key x) (key y) \<noteq> Greater) xs \<Longrightarrow>
   sorted_wrt (\<lambda>x y. cmp (key x) (key y) \<noteq> Greater)
     (insert_by (\<lambda>x y. cmp (key x) (key y)) x xs)"
proof (induction xs)
  case Nil
  then show ?case by simp
next
  case (Cons y ys)
  show ?case
  proof (cases "cmp (key x) (key y) = Greater")
    case True
    then have "cmp (key y) (key x) \<noteq> Greater" using cmp_flip by (metis ordering.distinct(3))
    with Cons True show ?thesis by (auto simp: set_insert_by)
  next
    case False
    then have "cmp (key x) (key z) \<noteq> Greater" if "z \<in> set ys" for z
      using that Cons.prems le_trans [of "key x" "key y" "key z"] by simp
    with False Cons.prems show ?thesis by simp
  qed
qed

lemma sorted_sort_by:
  "sorted_wrt (\<lambda>x y. cmp (key x) (key y) \<noteq> Greater) (sort_by (\<lambda>x y. cmp (key x) (key y)) xs)"
  by (induction xs) (auto intro: sorted_insert_by)

text \<open>Already ordered input is left alone.\<close>

lemma sort_by_sorted:
  "sorted_wrt (\<lambda>x y. cmp (key x) (key y) \<noteq> Greater) xs \<Longrightarrow>
   sort_by (\<lambda>x y. cmp (key x) (key y)) xs = xs"
proof (induction xs)
  case Nil
  then show ?case by simp
next
  case (Cons x xs)
  then show ?case by (cases xs) auto
qed

text \<open>Neighbours that all compare \<open>Less\<close> make the whole list strictly increasing and distinct.\<close>

lemma adjacent_Less_sorted:
  "(\<And>i. Suc i < length xs \<Longrightarrow> cmp (key (xs ! i)) (key (xs ! Suc i)) = Less) \<Longrightarrow>
   sorted_wrt (\<lambda>x y. cmp (key x) (key y) = Less) xs"
proof (rule sorted_wrt_iff_nth_Suc_transp [THEN iffD2])
  show "transp (\<lambda>x y. cmp (key x) (key y) = Less)"
    by (rule transpI) (rule cmp_trans)
qed auto

lemma sorted_Less_distinct:
  "sorted_wrt (\<lambda>x y. cmp (key x) (key y) = Less) xs \<Longrightarrow> distinct (map key xs)"
  by (induction xs) (auto dest: Less_neq)

lemma sorted_le_distinct_Less:
  "sorted_wrt (\<lambda>x y. cmp (key x) (key y) \<noteq> Greater) xs \<Longrightarrow> distinct (map key xs) \<Longrightarrow>
   sorted_wrt (\<lambda>x y. cmp (key x) (key y) = Less) xs"
proof (induction xs)
  case (Cons x xs)
  then have "cmp (key x) (key y) = Less" if "y \<in> set xs" for y
    using that not_Greater_iff by fastforce
  with Cons show ?case by auto
qed simp

text \<open>A strictly increasing list is determined by its set of elements.\<close>

lemma sorted_Less_unique:
  "sorted_wrt (\<lambda>x y. cmp (key x) (key y) = Less) xs \<Longrightarrow>
   sorted_wrt (\<lambda>x y. cmp (key x) (key y) = Less) ys \<Longrightarrow> set xs = set ys \<Longrightarrow> xs = ys"
proof (induction xs arbitrary: ys)
  case Nil
  then show ?case by simp
next
  case (Cons x xs)
  then obtain y zs where ys: "ys = y # zs" by (cases ys) auto
  have notin: "x \<notin> set xs" "y \<notin> set zs"
    using Cons.prems(1,2) ys Less_irrefl by auto
  have "x = y"
  proof (rule ccontr)
    assume "x \<noteq> y"
    then have "x \<in> set zs" "y \<in> set xs" using Cons.prems(3) ys by auto
    then have "cmp (key y) (key x) = Less" "cmp (key x) (key y) = Less"
      using Cons.prems(1,2) ys by auto
    then show False using cmp_trans Less_irrefl by blast
  qed
  then have "set xs = set zs" using Cons.prems(3) ys notin by auto
  with Cons ys \<open>x = y\<close> show ?case by auto
qed

text \<open>Binary search by key finds exactly the keys of a strictly increasing slice.\<close>

lemma mono_of_sorted:
  assumes "sorted_wrt (\<lambda>x y. cmp (key x) (key y) = Less) xs" "i < j" "j < length xs"
  shows "cmp (key (xs ! i)) k \<le> cmp (key (xs ! j)) k"
proof -
  have ij: "cmp (key (xs ! i)) (key (xs ! j)) = Less"
    using assms by (simp add: sorted_wrt_iff_nth_less)
  show ?thesis
  proof (cases "cmp (key (xs ! j)) k")
    case Less
    then have "cmp (key (xs ! i)) k = Less" using ij cmp_trans by blast
    then show ?thesis by (simp add: less_eq_ordering_def)
  next
    case Equal
    then have "cmp (key (xs ! i)) k = Less" using ij cmp_Equal by metis
    then show ?thesis by (simp add: less_eq_ordering_def)
  next
    case Greater
    then show ?thesis
      by (cases "cmp (key (xs ! i)) k") (simp_all add: less_eq_ordering_def)
  qed
qed

lemma binary_search_by_key:
  assumes sorted: "sorted_wrt (\<lambda>x y. cmp (key x) (key y) = Less) xs"
  shows "binary_search_by (\<lambda>x. cmp (key x) k) xs = Some i \<longleftrightarrow> i < length xs \<and> key (xs ! i) = k"
proof
  assume "binary_search_by (\<lambda>x. cmp (key x) k) xs = Some i"
  then show "i < length xs \<and> key (xs ! i) = k"
    using binary_search_by_Some cmp_Equal by metis
next
  assume i: "i < length xs \<and> key (xs ! i) = k"
  then have "\<exists>j. binary_search_by (\<lambda>x. cmp (key x) k) xs = Some j"
    by (intro binary_search_by_complete [where k = i])
       (use i cmp_Equal mono_of_sorted [OF sorted] in auto)
  then obtain j where j: "binary_search_by (\<lambda>x. cmp (key x) k) xs = Some j" by blast
  then have "j < length xs" "key (xs ! j) = k"
    using binary_search_by_Some cmp_Equal by metis+
  moreover have "distinct (map key xs)" by (rule sorted_Less_distinct [OF sorted])
  ultimately have "j = i"
    using i by (metis length_map nth_eq_iff_index_eq nth_map)
  with j show "binary_search_by (\<lambda>x. cmp (key x) k) xs = Some i" by simp
qed

end

section \<open>Comparison of byte strings\<close>

lemma cmp_u8_Equal [simp]: "cmp_u8 a b = Equal \<longleftrightarrow> a = b"
  by (simp add: cmp_u8_def)

lemma cmp_u8_refl [simp]: "cmp_u8 a a = Equal"
  by simp

lemma cmp_u8_Less [simp]: "cmp_u8 a b = Less \<longleftrightarrow> a < b"
  by (simp add: cmp_u8_def)

lemma cmp_u8_Greater [simp]: "cmp_u8 a b = Greater \<longleftrightarrow> b < a"
  by (auto simp: cmp_u8_def)

lemma cmp_bytes_Equal [simp]: "cmp_bytes a b = Equal \<longleftrightarrow> a = b"
  by (induction a b rule: cmp_bytes.induct) (auto split: ordering.splits)

lemma cmp_bytes_refl [simp]: "cmp_bytes a a = Equal"
  by simp

lemma cmp_bytes_Cons_Less:
  "cmp_bytes (a # as) (b # bs) = Less \<longleftrightarrow> a < b \<or> a = b \<and> cmp_bytes as bs = Less"
  by (auto split: ordering.splits)

lemma cmp_bytes_Cons_Greater:
  "cmp_bytes (a # as) (b # bs) = Greater \<longleftrightarrow> b < a \<or> a = b \<and> cmp_bytes as bs = Greater"
  by (auto split: ordering.splits)

lemma cmp_bytes_flip: "cmp_bytes a b = Less \<longleftrightarrow> cmp_bytes b a = Greater"
proof (induction a b rule: cmp_bytes.induct)
  case (4 a as b bs)
  then show ?case by (auto simp: cmp_bytes_Cons_Less cmp_bytes_Cons_Greater simp del: cmp_bytes.simps)
qed auto

lemma cmp_bytes_trans:
  "cmp_bytes a b = Less \<Longrightarrow> cmp_bytes b c = Less \<Longrightarrow> cmp_bytes a c = Less"
proof (induction a c arbitrary: b rule: cmp_bytes.induct)
  case 1
  then show ?case by (cases b) auto
next
  case (3 x xs)
  then show ?case by (cases b) auto
next
  case (4 x xs z zs)
  then obtain y ys where "b = y # ys" by (cases b) auto
  with 4 show ?case
    by (auto simp: cmp_bytes_Cons_Less simp del: cmp_bytes.simps intro: less_trans)
qed auto

text \<open>The order of byte strings is the lexicographic one of the library.\<close>

lemma cmp_bytes_lexord: "cmp_bytes a b = Less \<longleftrightarrow> ord_class.lexordp a b"
  by (induction a b rule: cmp_bytes.induct) (auto simp: cmp_u8_def split: if_splits)

interpretation byte_order: total_cmp cmp_bytes
  by unfold_locales (simp, rule cmp_bytes_flip, rule cmp_bytes_trans)

text \<open>The comparison closures of the crate compare the common prefix first and the lengths second;
  that is the same order.\<close>

lemma cmp_take_then_length:
  "(case cmp_bytes (take (min (length a) (length b)) a) (take (min (length a) (length b)) b) of
      Equal \<Rightarrow> cmp_nat (length a) (length b) | other \<Rightarrow> other) = cmp_bytes a b"
proof (induction a b rule: cmp_bytes.induct)
  case (4 a as b bs)
  then show ?case
    by (auto simp: cmp_nat_def split: ordering.splits)
qed (auto simp: cmp_nat_def)

end
