(* ===== verification/Cbor_Encode.thy ===== *)
theory Cbor_Encode
  imports Orders
begin

text \<open>
  The canonical CBOR encoders (\<open>src/src/cbor/mod.rs\<close>, \<open>src/src/cbor/encode.rs\<close>): heads of minimal
  width, byte and text strings, arrays, tags, simple values and maps with sorted, de-duplicated keys.
\<close>

section \<open>Major types and simple values\<close>

definition major_UINT :: u8 where "major_UINT = 0x00"
definition major_NEGINT :: u8 where "major_NEGINT = 0x20"
definition major_BYTES :: u8 where "major_BYTES = 0x40"
definition major_TEXT :: u8 where "major_TEXT = 0x60"
definition major_ARRAY :: u8 where "major_ARRAY = 0x80"
definition major_MAP :: u8 where "major_MAP = 0xa0"
definition major_TAG :: u8 where "major_TAG = 0xc0"
definition major_SIMPLE :: u8 where "major_SIMPLE = 0xe0"

definition simple_FALSE :: u8 where "simple_FALSE = 0xf4"
definition simple_TRUE :: u8 where "simple_TRUE = 0xf5"
definition simple_NULL :: u8 where "simple_NULL = 0xf6"

lemmas major_defs = major_UINT_def major_NEGINT_def major_BYTES_def major_TEXT_def
  major_ARRAY_def major_MAP_def major_TAG_def major_SIMPLE_def

section \<open>Encoders\<close>

definition push_head :: "bytes \<Rightarrow> u8 \<Rightarrow> u64 \<Rightarrow> bytes" where
  "push_head out major value =
     (if value < 24 then out @ [major OR ucast value]
      else if value \<le> 0xff then out @ [major OR 24] @ [ucast value]
      else if value \<le> 0xffff then out @ [major OR 25] @ to_be_bytes (ucast value :: u16)
      else if value \<le> 0xffffffff then out @ [major OR 26] @ to_be_bytes (ucast value :: u32)
      else out @ [major OR 27] @ to_be_bytes value)"

definition head :: "u8 \<Rightarrow> u64 \<Rightarrow> bytes" where
  "head major value = push_head [] major value"

definition encode_uint :: "u64 \<Rightarrow> bytes" where
  "encode_uint value = head major_UINT value"

definition encode_byte_string :: "bytes \<Rightarrow> bytes" where
  "encode_byte_string data = push_head [] major_BYTES (word_of_nat (length data)) @ data"

definition encode_text_string :: "bytes \<Rightarrow> bytes" where
  "encode_text_string text = push_head [] major_TEXT (word_of_nat (length text)) @ text"

definition encode_array :: "bytes list \<Rightarrow> bytes" where
  "encode_array items = push_head [] major_ARRAY (word_of_nat (length items)) @ concat items"

definition encode_tag :: "u64 \<Rightarrow> bytes \<Rightarrow> bytes" where
  "encode_tag tag content = push_head [] major_TAG tag @ content"

definition encode_null :: bytes where
  "encode_null = [simple_NULL]"

definition encode_bool :: "bool \<Rightarrow> bytes" where
  "encode_bool value = [if value then simple_TRUE else simple_FALSE]"

definition encode_nullable :: "'a option \<Rightarrow> ('a \<Rightarrow> bytes) \<Rightarrow> bytes" where
  "encode_nullable value encoder =
     (case value of Some v \<Rightarrow> encoder v | None \<Rightarrow> encode_null)"

text \<open>The comparison closure of the map encoder and the entries it emits: an entry is skipped when
  its successor in the sorted order has the same key.\<close>

definition map_entry_cmp :: "bytes \<times> bytes \<Rightarrow> bytes \<times> bytes \<Rightarrow> ordering" where
  "map_entry_cmp a b =
     (let n = min (length (fst a)) (length (fst b))
      in case cmp_bytes (take n (fst a)) (take n (fst b)) of
           Equal \<Rightarrow> cmp_nat (length (fst a)) (length (fst b))
         | other \<Rightarrow> other)"

fun unique_entries :: "(bytes \<times> bytes) list \<Rightarrow> (bytes \<times> bytes) list" where
  "unique_entries [] = []"
| "unique_entries [e] = [e]"
| "unique_entries (e # f # rest) =
     (if fst f = fst e then unique_entries (f # rest) else e # unique_entries (f # rest))"

definition encode_map :: "(bytes \<times> bytes) list \<Rightarrow> bytes" where
  "encode_map entries =
     (let sorted = sort_by map_entry_cmp entries;
          unique = unique_entries sorted
      in push_head [] major_MAP (word_of_nat (length unique)) @ concat (map (\<lambda>(k, v). k @ v) unique))"

section \<open>Lemmas\<close>

lemma push_head_append: "push_head out m v = out @ head m v"
  by (simp add: push_head_def head_def)

lemma push_head_Nil: "push_head [] m v = head m v"
  by (simp add: head_def)

lemma head_nonempty [simp]: "head m v \<noteq> []"
  by (simp add: head_def push_head_def)

lemma length_head_le: "length (head m v) \<le> 9"
  by (simp add: head_def push_head_def)

lemma length_head_pos: "0 < length (head m v)"
  using head_nonempty [of m v] by simp

lemma map_entry_cmp_eq: "map_entry_cmp a b = cmp_bytes (fst a) (fst b)"
  by (simp only: map_entry_cmp_def Let_def cmp_take_then_length)

end
