(* ===== verification/Cbor_Decode.thy ===== *)
theory Cbor_Decode
  imports Cbor_Encode
begin

text \<open>
  The canonical CBOR decoder (\<open>src/src/cbor/decode.rs\<close>): heads, resource limits, the length of one
  item under an item budget, and the typed accessors of \<open>Decoder\<close>. A text string is its UTF-8 bytes;
  \<open>utf8_valid\<close> is the validity test of \<open>core::str::from_utf8\<close>. Allocation failure
  (\<open>try_reserve\<close>) is not modelled.
\<close>

section \<open>Limits, decoders and heads\<close>

record DecodeLimits =
  max_input_bytes :: usize
  max_nesting_depth :: usize
  max_collection_items :: usize
  max_total_items :: usize

definition DEFAULT_limits :: DecodeLimits where
  "DEFAULT_limits = \<lparr>max_input_bytes = 16 * 1024 * 1024, max_nesting_depth = 64,
     max_collection_items = 4096, max_total_items = 1000000\<rparr>"

record Decoder =
  dec_bytes :: bytes
  dec_limits :: DecodeLimits

definition with_limits :: "bytes \<Rightarrow> DecodeLimits \<Rightarrow> Decoder" where
  "with_limits bytes limits = \<lparr>dec_bytes = bytes, dec_limits = limits\<rparr>"

definition decoder_new :: "bytes \<Rightarrow> Decoder" where
  "decoder_new bytes = with_limits bytes DEFAULT_limits"

record Head =
  h_major :: u8
  h_arg :: u64
  h_len :: usize

definition head_minimum :: "u8 \<Rightarrow> u64 option" where
  "head_minimum info =
     (if info = 24 then Some 24 else if info = 25 then Some (push_bit 8 1)
      else if info = 26 then Some (push_bit 16 1) else if info = 27 then Some (push_bit 32 1)
      else None)"

definition head_argument :: "bytes \<Rightarrow> u8 \<Rightarrow> CborError + (u64 \<times> usize)" where
  "head_argument bytes info =
     (if info \<le> 23 then Ok (ucast info, 1)
      else if info = 24 then
        rbind (ok_or UnexpectedEof (get_at bytes 1)) (\<lambda>b. Ok (ucast b, 2))
      else if info = 25 then
        rbind (ok_or UnexpectedEof (get_range bytes 1 3))
          (\<lambda>b. Ok (ucast (from_be_bytes b :: u16), 3))
      else if info = 26 then
        rbind (ok_or UnexpectedEof (get_range bytes 1 5))
          (\<lambda>b. Ok (ucast (from_be_bytes b :: u32), 5))
      else if info = 27 then
        rbind (ok_or UnexpectedEof (get_range bytes 1 9)) (\<lambda>b. Ok (from_be_bytes b, 9))
      else Err (UnsupportedAdditionalInfo info))"

definition read_head :: "bytes \<Rightarrow> CborError + Head" where
  "read_head bytes =
     (case bytes of [] \<Rightarrow> Err UnexpectedEof
      | first # _ \<Rightarrow>
        let major = first AND 0xe0; info = first AND 0x1f
        in rbind (head_argument bytes info) (\<lambda>(arg, len).
             if (case head_minimum info of Some minimum \<Rightarrow> arg < minimum | None \<Rightarrow> False)
             then Err NonCanonicalEncoding
             else Ok \<lparr>h_major = major, h_arg = arg, h_len = len\<rparr>))"

definition canonical_key_cmp :: "bytes \<Rightarrow> bytes \<Rightarrow> ordering" where
  "canonical_key_cmp a b =
     (let common = min (length a) (length b)
      in case cmp_bytes (take common a) (take common b) of
           Equal \<Rightarrow> cmp_nat (length a) (length b)
         | other \<Rightarrow> other)"

definition checked_usize :: "u64 \<Rightarrow> CborError + usize" where
  "checked_usize value = (if unat value < 2 ^ 64 then Ok (unat value) else Err IntegerOverflow)"

definition collection_count :: "u64 \<Rightarrow> DecodeLimits \<Rightarrow> CborError + usize" where
  "collection_count value limits =
     rbind (checked_usize value) (\<lambda>count.
       if count > max_collection_items limits then Err (LimitExceeded ''CBOR collection items'')
       else Ok count)"

section \<open>The length of one item\<close>

text \<open>\<open>item_len_with_budget\<close> returns the length of the first item together with what is left of the
  item budget; \<open>items_len\<close> is its loop over the children of an array or a map. The recursion is
  bounded by the nesting limit.\<close>

function item_len_with_budget ::
    "bytes \<Rightarrow> DecodeLimits \<Rightarrow> usize \<Rightarrow> usize \<Rightarrow> CborError + (usize \<times> usize)"
  and items_len ::
    "bytes \<Rightarrow> DecodeLimits \<Rightarrow> usize \<Rightarrow> usize \<Rightarrow> usize \<Rightarrow> usize \<Rightarrow> CborError + (usize \<times> usize)"
where
  "item_len_with_budget bytes limits depth remaining_items =
     (if remaining_items = 0 then Err (LimitExceeded ''total CBOR items'')
      else if length bytes > max_input_bytes limits then Err (LimitExceeded ''CBOR input bytes'')
      else if depth > max_nesting_depth limits then Err (LimitExceeded ''CBOR nesting depth'')
      else rbind (read_head bytes) (\<lambda>hd.
        if h_major hd = major_UINT \<or> h_major hd = major_NEGINT \<or> h_major hd = major_SIMPLE
        then Ok (h_len hd, remaining_items - 1)
        else if h_major hd = major_BYTES \<or> h_major hd = major_TEXT then
          rbind (checked_usize (h_arg hd)) (\<lambda>value_len.
          rbind (ok_or IntegerOverflow (checked_add (h_len hd) value_len)) (\<lambda>total.
            if total > length bytes then Err UnexpectedEof else Ok (total, remaining_items - 1)))
        else if h_major hd = major_ARRAY then
          rbind (collection_count (h_arg hd) limits) (\<lambda>count.
            if count > length bytes - h_len hd then Err UnexpectedEof
            else items_len bytes limits (Suc depth) (remaining_items - 1) count (h_len hd))
        else if h_major hd = major_MAP then
          rbind (collection_count (h_arg hd) limits) (\<lambda>count.
          rbind (ok_or IntegerOverflow (checked_mul count 2)) (\<lambda>item_count.
            if item_count > length bytes - h_len hd then Err UnexpectedEof
            else items_len bytes limits (Suc depth) (remaining_items - 1) item_count (h_len hd)))
        else if h_major hd = major_TAG then
          rbind (ok_or UnexpectedEof (get_from bytes (h_len hd))) (\<lambda>rest.
          rbind (item_len_with_budget rest limits (Suc depth) (remaining_items - 1)) (\<lambda>(len, rem).
          rbind (ok_or IntegerOverflow (checked_add (h_len hd) len)) (\<lambda>total. Ok (total, rem))))
        else Err (UnsupportedAdditionalInfo 0)))"
| "items_len bytes limits depth remaining_items cnt pos =
     (case cnt of 0 \<Rightarrow> Ok (pos, remaining_items)
      | Suc n \<Rightarrow>
        rbind (ok_or UnexpectedEof (get_from bytes pos)) (\<lambda>rest.
        rbind (item_len_with_budget rest limits depth remaining_items) (\<lambda>(len, rem).
        rbind (ok_or IntegerOverflow (checked_add pos len)) (\<lambda>pos'.
          items_len bytes limits depth rem n pos'))))"
  by pat_completeness auto
termination
  by (relation "measures
        [case_sum (\<lambda>(b, l, d, r). Suc (max_nesting_depth l) - d)
                  (\<lambda>(b, l, d, r, c, p). Suc (max_nesting_depth l) - d),
         case_sum (\<lambda>(b, l, d, r). 0) (\<lambda>(b, l, d, r, c, p). Suc c)]") auto

declare item_len_with_budget.simps [simp del] items_len.simps [simp del]

definition item_len :: "bytes \<Rightarrow> DecodeLimits \<Rightarrow> usize \<Rightarrow> CborError + usize" where
  "item_len bytes limits depth =
     rbind (item_len_with_budget bytes limits depth (max_total_items limits)) (\<lambda>(len, _). Ok len)"

section \<open>Accessors\<close>

definition finish :: "Decoder \<Rightarrow> CborError + unit" where
  "finish d =
     rbind (item_len (dec_bytes d) (dec_limits d) 0) (\<lambda>n.
       if n \<noteq> length (dec_bytes d) then Err TrailingBytes else Ok ())"

definition expect_head :: "Decoder \<Rightarrow> u8 \<Rightarrow> CborError + Head" where
  "expect_head d want =
     (if length (dec_bytes d) > max_input_bytes (dec_limits d)
      then Err (LimitExceeded ''CBOR input bytes'')
      else rbind (read_head (dec_bytes d)) (\<lambda>hd.
        if h_major hd \<noteq> want
        then Err (UnexpectedMajorType (drop_bit 5 want) (drop_bit 5 (h_major hd)))
        else Ok hd))"

definition uint_value :: "Decoder \<Rightarrow> CborError + u64" where
  "uint_value d =
     rbind (expect_head d major_UINT) (\<lambda>hd.
       if h_len hd \<noteq> length (dec_bytes d) then Err TrailingBytes else Ok (h_arg hd))"

definition string_value :: "Decoder \<Rightarrow> u8 \<Rightarrow> CborError + bytes" where
  "string_value d want =
     rbind (expect_head d want) (\<lambda>hd.
     rbind (checked_usize (h_arg hd)) (\<lambda>value_len.
     rbind (ok_or IntegerOverflow (checked_add (h_len hd) value_len)) (\<lambda>end.
     rbind (ok_or UnexpectedEof (get_range (dec_bytes d) (h_len hd) end)) (\<lambda>value.
       if end \<noteq> length (dec_bytes d) then Err TrailingBytes else Ok value))))"

definition bytes_value :: "Decoder \<Rightarrow> CborError + bytes" where
  "bytes_value d = string_value d major_BYTES"

text \<open>Well-formed UTF-8 (RFC 3629): no overlong forms, no surrogates, at most \<open>U+10FFFF\<close>.\<close>

fun utf8_valid :: "bytes \<Rightarrow> bool" where
  "utf8_valid [] = True"
| "utf8_valid (a # rest) =
     (if a < 0x80 then utf8_valid rest
      else if 0xc2 \<le> a \<and> a \<le> 0xdf then
        (case rest of b # rest' \<Rightarrow> 0x80 \<le> b \<and> b \<le> 0xbf \<and> utf8_valid rest' | [] \<Rightarrow> False)
      else if 0xe0 \<le> a \<and> a \<le> 0xef then
        (case rest of b # c # rest' \<Rightarrow>
           (if a = 0xe0 then 0xa0 else 0x80) \<le> b \<and> b \<le> (if a = 0xed then 0x9f else 0xbf) \<and>
           0x80 \<le> c \<and> c \<le> 0xbf \<and> utf8_valid rest' | _ \<Rightarrow> False)
      else if 0xf0 \<le> a \<and> a \<le> 0xf4 then
        (case rest of b # c # e # rest' \<Rightarrow>
           (if a = 0xf0 then 0x90 else 0x80) \<le> b \<and> b \<le> (if a = 0xf4 then 0x8f else 0xbf) \<and>
           0x80 \<le> c \<and> c \<le> 0xbf \<and> 0x80 \<le> e \<and> e \<le> 0xbf \<and> utf8_valid rest' | _ \<Rightarrow> False)
      else False)"

definition text_value :: "Decoder \<Rightarrow> CborError + bytes" where
  "text_value d =
     rbind (string_value d major_TEXT) (\<lambda>raw. if utf8_valid raw then Ok raw else Err IntegerOverflow)"

definition bool_value :: "Decoder \<Rightarrow> CborError + bool" where
  "bool_value d =
     (if length (dec_bytes d) \<noteq> 1 then Err TrailingBytes
      else case dec_bytes d of
             [] \<Rightarrow> Err UnexpectedEof
           | b # _ \<Rightarrow> if b = simple_TRUE then Ok True
                      else if b = simple_FALSE then Ok False
                      else Err (UnexpectedMajorType 7 (drop_bit 5 b)))"

definition is_null :: "Decoder \<Rightarrow> bool" where
  "is_null d = (case dec_bytes d of b # _ \<Rightarrow> b = simple_NULL | [] \<Rightarrow> False)"

definition nullable :: "Decoder \<Rightarrow> (Decoder \<Rightarrow> Error + 'a) \<Rightarrow> Error + 'a option" where
  "nullable d f =
     (if is_null d then rbind (map_err Cbor (finish d)) (\<lambda>_. Ok None)
      else rbind (f d) (\<lambda>v. Ok (Some v)))"

text \<open>The loops of \<open>array\<close> and \<open>map\<close>; \<open>pos\<close> is the reading position.\<close>

fun array_items :: "Decoder \<Rightarrow> nat \<Rightarrow> usize \<Rightarrow> CborError + (Decoder list \<times> usize)" where
  "array_items d 0 pos = Ok ([], pos)"
| "array_items d (Suc n) pos =
     rbind (ok_or UnexpectedEof (get_from (dec_bytes d) pos)) (\<lambda>rest.
     rbind (item_len rest (dec_limits d) 1) (\<lambda>len.
     rbind (ok_or UnexpectedEof (get_range rest 0 len)) (\<lambda>item.
     rbind (ok_or IntegerOverflow (checked_add pos len)) (\<lambda>pos'.
     rbind (array_items d n pos') (\<lambda>(out, end).
       Ok (with_limits item (dec_limits d) # out, end))))))"

definition array :: "Decoder \<Rightarrow> usize option \<Rightarrow> CborError + Decoder list" where
  "array d expected =
     rbind (finish d) (\<lambda>_.
     rbind (expect_head d major_ARRAY) (\<lambda>hd.
     rbind (collection_count (h_arg hd) (dec_limits d)) (\<lambda>count.
       if (case expected of Some n \<Rightarrow> n \<noteq> count | None \<Rightarrow> False)
       then Err (UnexpectedArrayLength (the expected) count)
       else if count > length (dec_bytes d) - h_len hd then Err UnexpectedEof
       else rbind (array_items d count (h_len hd)) (\<lambda>(out, pos).
         if pos \<noteq> length (dec_bytes d) then Err TrailingBytes else Ok out))))"

definition tag_value :: "Decoder \<Rightarrow> CborError + (u64 \<times> Decoder)" where
  "tag_value d =
     rbind (finish d) (\<lambda>_.
     rbind (expect_head d major_TAG) (\<lambda>hd.
     rbind (ok_or UnexpectedEof (get_from (dec_bytes d) (h_len hd))) (\<lambda>rest.
     rbind (item_len rest (dec_limits d) 1) (\<lambda>len.
     rbind (ok_or IntegerOverflow (checked_add (h_len hd) len)) (\<lambda>end.
       if end \<noteq> length (dec_bytes d) then Err TrailingBytes
       else Ok (h_arg hd, with_limits (take len rest) (dec_limits d)))))))"

definition expect_tag :: "Decoder \<Rightarrow> u64 \<Rightarrow> CborError + Decoder" where
  "expect_tag d expected =
     rbind (tag_value d) (\<lambda>(tag, inner).
       if tag \<noteq> expected then Err (UnexpectedTag expected tag) else Ok inner)"

fun map_items ::
  "Decoder \<Rightarrow> nat \<Rightarrow> usize \<Rightarrow> bytes option \<Rightarrow> CborError + ((Decoder \<times> Decoder) list \<times> usize)"
where
  "map_items d 0 pos previous_key = Ok ([], pos)"
| "map_items d (Suc n) pos previous_key =
     rbind (ok_or UnexpectedEof (get_from (dec_bytes d) pos)) (\<lambda>krest.
     rbind (item_len krest (dec_limits d) 1) (\<lambda>klen.
     rbind (ok_or UnexpectedEof (get_range krest 0 klen)) (\<lambda>key.
     rbind (case previous_key of None \<Rightarrow> Ok ()
            | Some previous \<Rightarrow> (case canonical_key_cmp previous key of
                Less \<Rightarrow> Ok () | Equal \<Rightarrow> Err DuplicateMapKey
              | Greater \<Rightarrow> Err NonCanonicalMapOrder)) (\<lambda>_.
     rbind (ok_or IntegerOverflow (checked_add pos klen)) (\<lambda>vpos.
     rbind (ok_or UnexpectedEof (get_from (dec_bytes d) vpos)) (\<lambda>vrest.
     rbind (item_len vrest (dec_limits d) 1) (\<lambda>vlen.
     rbind (ok_or UnexpectedEof (get_range vrest 0 vlen)) (\<lambda>value.
     rbind (ok_or IntegerOverflow (checked_add vpos vlen)) (\<lambda>pos'.
     rbind (map_items d n pos' (Some key)) (\<lambda>(out, end).
       Ok ((with_limits key (dec_limits d), with_limits value (dec_limits d)) # out, end)))))))))))"

definition map_value :: "Decoder \<Rightarrow> CborError + (Decoder \<times> Decoder) list" where
  "map_value d =
     rbind (finish d) (\<lambda>_.
     rbind (expect_head d major_MAP) (\<lambda>hd.
     rbind (collection_count (h_arg hd) (dec_limits d)) (\<lambda>count.
     rbind (ok_or IntegerOverflow (checked_mul count 2)) (\<lambda>item_count.
       if item_count > length (dec_bytes d) - h_len hd then Err UnexpectedEof
       else rbind (map_items d count (h_len hd) None) (\<lambda>(out, pos).
         if pos \<noteq> length (dec_bytes d) then Err TrailingBytes else Ok out)))))"

section \<open>Heads are canonical\<close>

lemma dec_bytes_with_limits [simp]: "dec_bytes (with_limits b l) = b"
  by (simp add: with_limits_def)

lemma dec_limits_with_limits [simp]: "dec_limits (with_limits b l) = l"
  by (simp add: with_limits_def)

lemma with_limits_eta [simp]: "with_limits (dec_bytes d) (dec_limits d) = d"
  by (simp add: with_limits_def)

lemma with_limits_inject [simp]: "with_limits b l = with_limits c m \<longleftrightarrow> b = c \<and> l = m"
  by (simp add: with_limits_def)

lemma canonical_key_cmp_eq: "canonical_key_cmp a b = cmp_bytes a b"
  by (simp only: canonical_key_cmp_def Let_def cmp_take_then_length)

lemma checked_usize_Ok [simp]: "checked_usize v = Ok (unat v)"
  using unsigned_less [of v] by (simp add: checked_usize_def)


text \<open>The major types are the bytes with a zero low half; the two halves of an initial byte.\<close>

definition is_major :: "u8 \<Rightarrow> bool" where
  "is_major m \<longleftrightarrow> m AND 0x1f = 0"

lemma is_major_consts [simp]:
  "is_major major_UINT" "is_major major_NEGINT" "is_major major_BYTES" "is_major major_TEXT"
  "is_major major_ARRAY" "is_major major_MAP" "is_major major_TAG" "is_major major_SIMPLE"
  by (simp_all add: is_major_def major_defs)

lemma initial_byte_split: "(x AND 0xe0) OR (x AND 0x1f) = (x :: u8)"
proof -
  have "(0xe0 :: u8) OR 0x1f = - 1" by simp
  then show ?thesis by (metis and.right_neutral bit.conj_disj_distrib)
qed

lemma is_major_high: "is_major (x AND 0xe0)"
  by (simp add: is_major_def and.assoc)

lemma major_and_high: "is_major m \<Longrightarrow> m AND 0xe0 = m"
  using initial_byte_split [of m] by (simp add: is_major_def)

lemma take_bit_word_id: "unat (a :: 'a::len word) < 2 ^ n \<Longrightarrow> take_bit n a = a"
  by (simp only: word_unat_eq_iff unsigned_take_bit_eq take_bit_nat_eq_self)

lemma low_byte_halves:
  assumes "v < (32 :: u8)"
  shows "v AND 0x1f = v" and "v AND 0xe0 = 0"
proof -
  have "take_bit 5 v = v"
    using assms by (intro take_bit_word_id) (simp add: word_less_nat_alt)
  then have "v AND mask 5 = v"
    by (simp add: take_bit_eq_mask [symmetric])
  then show low: "v AND 0x1f = v" by (simp add: mask_eq_exp_minus_1)
  have "v AND 0xe0 = v AND (0x1f AND 0xe0)" by (metis low and.assoc)
  then show "v AND 0xe0 = 0" by simp
qed

lemma initial_byte_halves:
  assumes "is_major m" and "v < (32 :: u8)"
  shows "(m OR v) AND 0xe0 = m" and "(m OR v) AND 0x1f = v"
  using assms major_and_high [of m] low_byte_halves [of v]
  by (simp_all add: bit.conj_disj_distrib2 is_major_def)

lemma unat_ucast_le:
  assumes "unat (a :: 'a::len word) < 2 ^ LENGTH('b::len)"
  shows "unat (ucast a :: 'b word) = unat a"
  using assms by (simp add: unsigned_ucast_eq take_bit_nat_eq_self)

lemma ucast_ucast_le:
  assumes "unat (a :: 'a::len word) < 2 ^ LENGTH('b::len)"
  shows "ucast (ucast a :: 'b word) = a"
proof (rule word_unat_eq_iff [THEN iffD2])
  have "unat (ucast (ucast a :: 'b word) :: 'a word) = take_bit LENGTH('a) (unat (ucast a :: 'b word))"
    by (rule unsigned_ucast_eq)
  also have "\<dots> = take_bit LENGTH('a) (unat a)"
    using assms by (simp only: unat_ucast_le)
  also have "\<dots> = unat a"
    by (rule take_bit_nat_eq_self) (rule unsigned_less)
  finally show "unat (ucast (ucast a :: 'b word) :: 'a word) = unat a" .
qed

lemma ucast_zext_eq:
  assumes "LENGTH('a::len) \<le> LENGTH('b::len)"
  shows "ucast (ucast (a :: 'a word) :: 'b word) = a"
proof (rule ucast_ucast_le)
  have "unat a < 2 ^ LENGTH('a)" by (rule unsigned_less)
  also have "(2 :: nat) ^ LENGTH('a) \<le> 2 ^ LENGTH('b)" using assms by simp
  finally show "unat a < 2 ^ LENGTH('b)" .
qed

lemma unat_zext:
  assumes "LENGTH('a::len) \<le> LENGTH('b::len)"
  shows "unat (ucast (a :: 'a word) :: 'b word) = unat a"
proof (rule unat_ucast_le)
  have "unat a < 2 ^ LENGTH('a)" by (rule unsigned_less)
  also have "(2 :: nat) ^ LENGTH('a) \<le> 2 ^ LENGTH('b)" using assms by simp
  finally show "unat a < 2 ^ LENGTH('b)" .
qed

text \<open>The five widths of a head, selected by the same bounds that the decoder enforces.\<close>

lemma head_direct: "a < 24 \<Longrightarrow> head m a = [m OR ucast a]"
  by (simp add: head_def push_head_def)

lemma head_one: "\<not> a < 24 \<Longrightarrow> a \<le> 0xff \<Longrightarrow> head m a = [m OR 24, ucast a]"
  by (simp only: head_def push_head_def if_False if_True append_Nil append_Cons)

lemma head_two:
  assumes "\<not> a < push_bit 8 1" "a \<le> 0xffff"
  shows "head m a = (m OR 25) # to_be_bytes (ucast a :: u16)"
proof -
  have "\<not> a < 24" "\<not> a \<le> 0xff"
    using assms(1) by (simp_all add: word_less_nat_alt word_le_nat_alt)
  with assms(2) show ?thesis
    by (simp only: head_def push_head_def if_False if_True append_Nil append_Cons)
qed

lemma head_four:
  assumes "\<not> a < push_bit 16 1" "a \<le> 0xffffffff"
  shows "head m a = (m OR 26) # to_be_bytes (ucast a :: u32)"
proof -
  have "\<not> a < 24" "\<not> a \<le> 0xff" "\<not> a \<le> 0xffff"
    using assms(1) by (simp_all add: word_less_nat_alt word_le_nat_alt)
  with assms(2) show ?thesis
    by (simp only: head_def push_head_def if_False if_True append_Nil append_Cons)
qed

lemma head_eight:
  assumes "\<not> a < push_bit 32 1"
  shows "head m a = (m OR 27) # to_be_bytes a"
proof -
  have "\<not> a < 24" "\<not> a \<le> 0xff" "\<not> a \<le> 0xffff" "\<not> a \<le> 0xffffffff"
    using assms by (simp_all add: word_less_nat_alt word_le_nat_alt)
  then show ?thesis
    by (simp only: head_def push_head_def if_False if_True append_Nil append_Cons)
qed

lemma head_width_cases:
  fixes a :: u64
  obtains (direct) "a < 24" | (one) "\<not> a < 24" "a \<le> 0xff"
    | (two) "\<not> a < push_bit 8 1" "a \<le> 0xffff"
    | (four) "\<not> a < push_bit 16 1" "a \<le> 0xffffffff"
    | (eight) "\<not> a < push_bit 32 1"
proof -
  have "\<not> a \<le> 0xff \<Longrightarrow> \<not> a < push_bit 8 1" "\<not> a \<le> 0xffff \<Longrightarrow> \<not> a < push_bit 16 1"
    "\<not> a \<le> 0xffffffff \<Longrightarrow> \<not> a < push_bit 32 1"
    by (simp_all add: word_less_nat_alt word_le_nat_alt)
  then show thesis using that by blast
qed

lemmas head_read_defs = read_head_def initial_byte_halves head_argument_def head_minimum_def

lemma read_head_head:
  assumes m: "is_major m"
  shows "read_head (head m a @ rest) = Ok \<lparr>h_major = m, h_arg = a, h_len = length (head m a)\<rparr>"
proof (cases a rule: head_width_cases)
  case direct
  then have u: "unat a < 24" by (simp add: word_less_nat_alt)
  then have c: "ucast (ucast a :: u8) = a" "unat (ucast a :: u8) = unat a"
    by (simp_all add: ucast_ucast_le unat_ucast_le)
  then have "(ucast a :: u8) < 32" "(ucast a :: u8) \<le> 23"
    using u by (simp_all add: word_less_nat_alt word_le_nat_alt)
  moreover from this have "head_minimum (ucast a) = None"
    by (auto simp: head_minimum_def)
  ultimately show ?thesis
    using c m by (simp add: head_direct [OF direct] read_head_def initial_byte_halves
        head_argument_def)
next
  case one
  then have "ucast (ucast a :: u8) = a"
    by (intro ucast_ucast_le) (simp add: word_le_nat_alt)
  with one m show ?thesis by (simp add: head_one head_read_defs get_at_def leD)
next
  case two
  then have "ucast (ucast a :: u16) = a"
    by (intro ucast_ucast_le) (simp add: word_le_nat_alt)
  with two(1) m show ?thesis
    by (simp add: head_two [OF two] head_read_defs get_range_def from_to_be_bytes leD)
next
  case four
  then have "ucast (ucast a :: u32) = a"
    by (intro ucast_ucast_le) (simp add: word_le_nat_alt)
  with four(1) m show ?thesis
    by (simp add: head_four [OF four] head_read_defs get_range_def from_to_be_bytes leD)
next
  case eight
  with m show ?thesis
    by (simp add: head_eight [OF eight] head_read_defs get_range_def from_to_be_bytes leD)
qed

lemma unat_from_be: "unat (from_be_bytes bs :: 'a::len word) < 2 ^ LENGTH('a)"
  by (rule unsigned_less)

lemma head_argument_canonical:
  assumes arg: "head_argument ((m OR info) # tail) info = Ok (arg, len)"
    and min: "\<not> (case head_minimum info of Some minimum \<Rightarrow> arg < minimum | None \<Rightarrow> False)"
  shows "(m OR info) # tail = head m arg @ drop len ((m OR info) # tail) \<and> len = length (head m arg)"
proof -
  consider (direct) "info \<le> 23" | (one) "info = 24" | (two) "info = 25" | (four) "info = 26"
    | (eight) "info = 27"
    using arg unfolding head_argument_def by (auto split: if_splits)
  then show ?thesis
  proof cases
    case direct
    then have a: "arg = ucast info" "len = 1" using arg by (auto simp: head_argument_def)
    have "unat arg \<le> 23" using direct by (simp add: a unat_zext word_le_nat_alt)
    then have "arg < 24" by (simp add: word_less_nat_alt)
    then show ?thesis by (simp add: head_direct a ucast_zext_eq)
  next
    case one
    then obtain x rest where tail: "tail = x # rest" and a: "arg = ucast x" "len = 2"
      using arg by (cases tail) (auto simp: head_argument_def result_simps)
    have "unat arg < 256" by (simp add: a unat_zext)
    then have "arg \<le> 0xff" by (simp add: word_le_nat_alt)
    moreover have "\<not> arg < 24" using min one by (simp add: head_minimum_def)
    ultimately show ?thesis using one by (simp add: head_one tail a ucast_zext_eq)
  next
    case two
    then have a: "2 \<le> length tail" "arg = ucast (from_be_bytes (take 2 tail) :: u16)" "len = 3"
      using arg by (auto simp: head_argument_def result_simps)
    have "arg \<le> 0xffff"
      using unat_from_be [of "take 2 tail", where ?'a = 16] by (simp add: a(2) unat_zext word_le_nat_alt)
    moreover have "\<not> arg < push_bit 8 1" using min two by (simp add: head_minimum_def)
    ultimately show ?thesis
      using two a(1) by (simp add: head_two a ucast_zext_eq to_from_be_bytes numeral_3_eq_3 numeral_2_eq_2)
  next
    case four
    then have a: "4 \<le> length tail" "arg = ucast (from_be_bytes (take 4 tail) :: u32)" "len = 5"
      using arg by (auto simp: head_argument_def result_simps)
    have "arg \<le> 0xffffffff"
      using unat_from_be [of "take 4 tail", where ?'a = 32] by (simp add: a(2) unat_zext word_le_nat_alt)
    moreover have "\<not> arg < push_bit 16 1" using min four by (simp add: head_minimum_def)
    ultimately show ?thesis using four a(1) by (simp add: head_four a ucast_zext_eq to_from_be_bytes)
  next
    case eight
    then have a: "8 \<le> length tail" "arg = from_be_bytes (take 8 tail)" "len = 9"
      using arg by (auto simp: head_argument_def result_simps)
    moreover have "\<not> arg < push_bit 32 1" using min eight by (simp add: head_minimum_def)
    ultimately show ?thesis using eight by (simp add: head_eight to_from_be_bytes)
  qed
qed

lemma read_head_canonical:
  assumes "read_head b = Ok h"
  shows "is_major (h_major h)" and "b = head (h_major h) (h_arg h) @ drop (h_len h) b"
    and "h_len h = length (head (h_major h) (h_arg h))"
proof -
  obtain first tail where b: "b = first # tail" using assms by (cases b) (auto simp: read_head_def)
  define major where "major = first AND 0xe0"
  define info where "info = first AND 0x1f"
  have first: "first = major OR info"
    using initial_byte_split [of first] by (simp add: major_def info_def)
  obtain arg len where arg: "head_argument b info = Ok (arg, len)"
    and min: "\<not> (case head_minimum info of Some minimum \<Rightarrow> arg < minimum | None \<Rightarrow> False)"
    and h: "h = \<lparr>h_major = major, h_arg = arg, h_len = len\<rparr>"
    using assms unfolding read_head_def b major_def info_def
    by (auto simp: Let_def result_simps split: if_splits)
  have "b = head major arg @ drop len b \<and> len = length (head major arg)"
    using head_argument_canonical [of major info tail arg len, OF _ min] arg
    unfolding b first by blast
  then have canon: "b = head major arg @ drop len b" "len = length (head major arg)" by blast+
  show "is_major (h_major h)" by (simp add: h major_def is_major_high)
  show "b = head (h_major h) (h_arg h) @ drop (h_len h) b"
    unfolding h by (simp only: Head.select_convs) (rule canon(1))
  show "h_len h = length (head (h_major h) (h_arg h))"
    by (simp add: h canon(2))
qed

end
