(* ===== verification/Cbor_Spec.thy ===== *)
theory Cbor_Spec
  imports Cbor_Decode
begin

text \<open>
  What the CBOR codec promises, stated over an abstract syntax of data items: the decoder accepts
  exactly the shortest-form, definite-length encodings that stay within its limits, every accessor succeeds on exactly the
  encoding of the value it returns, and an encoded value is read back. The contract of a wire
  structure's \<open>to_cbor\<close> and \<open>from_cbor\<close> is the locale \<open>codec\<close> (and \<open>canonical_codec\<close> for the
  structures that have one encoding only); the wire structures of the crate interpret it.
\<close>

section \<open>Abstract items\<close>

text \<open>An item and its encoding. The children of a map are its keys and values in turn; their order is not
  restricted here, since the decoder looks at it only when the map is read (\<open>map_value_iff\<close>).\<close>

datatype cbor =
    Atom u8 u64
  | Str u8 bytes
  | Arr "cbor list"
  | CMap "cbor list"
  | Tagged u64 cbor

primrec enc :: "cbor \<Rightarrow> bytes" where
  "enc (Atom m a) = head m a"
| "enc (Str m s) = head m (word_of_nat (length s)) @ s"
| "enc (Arr xs) = head major_ARRAY (word_of_nat (length xs)) @ concat (map enc xs)"
| "enc (CMap xs) = head major_MAP (word_of_nat (length xs div 2)) @ concat (map enc xs)"
| "enc (Tagged t x) = head major_TAG t @ enc x"

primrec cbor_wf :: "cbor \<Rightarrow> bool" where
  "cbor_wf (Atom m a) \<longleftrightarrow> m = major_UINT \<or> m = major_NEGINT \<or> m = major_SIMPLE"
| "cbor_wf (Str m s) \<longleftrightarrow> (m = major_BYTES \<or> m = major_TEXT) \<and> length s < 2 ^ 64"
| "cbor_wf (Arr xs) \<longleftrightarrow> length xs < 2 ^ 64 \<and> list_all cbor_wf xs"
| "cbor_wf (CMap xs) \<longleftrightarrow> length xs < 2 ^ 64 \<and> even (length xs) \<and> list_all cbor_wf xs"
| "cbor_wf (Tagged t x) \<longleftrightarrow> cbor_wf x"

text \<open>The limits on nesting and on the members of a collection, for an item at depth \<open>d\<close>.\<close>

primrec fits :: "DecodeLimits \<Rightarrow> cbor \<Rightarrow> nat \<Rightarrow> bool" where
  "fits l (Atom m a) = (\<lambda>d. d \<le> max_nesting_depth l)"
| "fits l (Str m s) = (\<lambda>d. d \<le> max_nesting_depth l)"
| "fits l (Arr xs) = (\<lambda>d. d \<le> max_nesting_depth l \<and> length xs \<le> max_collection_items l \<and>
     list_all (\<lambda>f. f (Suc d)) (map (fits l) xs))"
| "fits l (CMap xs) = (\<lambda>d. d \<le> max_nesting_depth l \<and> length xs div 2 \<le> max_collection_items l \<and>
     list_all (\<lambda>f. f (Suc d)) (map (fits l) xs))"
| "fits l (Tagged t x) = (\<lambda>d. d \<le> max_nesting_depth l \<and> fits l x (Suc d))"

primrec nodes :: "cbor \<Rightarrow> nat" where
  "nodes (Atom m a) = 1"
| "nodes (Str m s) = 1"
| "nodes (Arr xs) = Suc (sum_list (map nodes xs))"
| "nodes (CMap xs) = Suc (sum_list (map nodes xs))"
| "nodes (Tagged t x) = Suc (nodes x)"

lemma enc_nonempty [simp]: "enc v \<noteq> []"
  by (cases v) auto

lemma length_enc_pos: "0 < length (enc v)"
  by simp

lemma length_concat_enc: "length xs \<le> length (concat (map enc xs))"
proof (induction xs)
  case (Cons x xs)
  have "length (x # xs) \<le> length (enc x) + length (concat (map enc xs))"
    using Cons length_enc_pos [of x] by (simp only: list.size)
  then show ?case by simp
qed simp

lemma unat_word_of_nat: "n < 2 ^ 64 \<Longrightarrow> unat (word_of_nat n :: u64) = n"
  by (simp add: unat_of_nat take_bit_nat_eq_self)

section \<open>The decoder accepts only shortest-form encodings\<close>

definition item_ok :: "bytes \<Rightarrow> DecodeLimits \<Rightarrow> nat \<Rightarrow> nat \<Rightarrow> nat \<Rightarrow> nat \<Rightarrow> cbor \<Rightarrow> bool" where
  "item_ok b l d r n r' v \<longleftrightarrow> cbor_wf v \<and> fits l v d \<and> b = enc v @ drop n b \<and> n = length (enc v) \<and>
     r = nodes v + r'"

definition items_ok ::
  "bytes \<Rightarrow> DecodeLimits \<Rightarrow> nat \<Rightarrow> nat \<Rightarrow> nat \<Rightarrow> nat \<Rightarrow> nat \<Rightarrow> cbor list \<Rightarrow> bool" where
  "items_ok b l d r p e r' vs \<longleftrightarrow> (\<forall>v\<in>set vs. cbor_wf v \<and> fits l v d) \<and>
     drop p b = concat (map enc vs) @ drop e b \<and> e = p + length (concat (map enc vs)) \<and>
     r = sum_list (map nodes vs) + r'"

lemma items_ok_length:
  assumes "items_ok b l d r p e r' vs" "p \<le> length b" "length b < 2 ^ 64"
  shows "length vs < 2 ^ 64"
proof -
  have "length vs \<le> length (drop p b)"
    using assms length_concat_enc [of vs] by (simp add: items_ok_def)
  then show ?thesis using assms by simp
qed

text \<open>One step of the recursion, given what the recursive calls return.\<close>

lemma items_ok_Cons:
  assumes "item_ok (drop p b) l d r n r1 v" "items_ok b l d r1 (p + n) e r' vs"
  shows "items_ok b l d r p e r' (v # vs)"
proof -
  have "drop p b = enc v @ drop (p + n) b"
    using assms(1) by (simp add: item_ok_def add.commute)
  then show ?thesis using assms by (auto simp: items_ok_def item_ok_def)
qed

lemma item_ok_Str:
  assumes "b = head m a @ drop h b" "h = length (head m a)" "m = major_BYTES \<or> m = major_TEXT"
    "h + unat a \<le> length b" "d \<le> max_nesting_depth l"
  shows "item_ok b l d (Suc r) (h + unat a) r (Str m (take (unat a) (drop h b)))"
proof -
  have "drop h b = take (unat a) (drop h b) @ drop (h + unat a) b"
    by (rule drop_take_split)
  then have "b = head m a @ take (unat a) (drop h b) @ drop (h + unat a) b"
    using assms(1) by metis
  moreover have "length (take (unat a) (drop h b)) = unat a" using assms(4) by simp
  moreover have "unat a < 2 ^ 64" using unsigned_less [of a] by simp
  ultimately show ?thesis
    using assms by (simp add: item_ok_def)
qed

lemma item_ok_Tagged:
  assumes "b = head major_TAG a @ drop h b" "h = length (head major_TAG a)"
    "item_ok (drop h b) l (Suc d) r n r' v" "d \<le> max_nesting_depth l"
  shows "item_ok b l d (Suc r) (h + n) r' (Tagged a v)"
proof -
  have "drop h b = enc v @ drop (h + n) b"
    using assms(3) by (simp add: item_ok_def add.commute)
  then have "b = head major_TAG a @ enc v @ drop (h + n) b" using assms(1) by metis
  then show ?thesis using assms by (simp add: item_ok_def)
qed

lemma item_ok_Arr:
  assumes "b = head major_ARRAY a @ drop h b" "h = length (head major_ARRAY a)"
    "items_ok b l (Suc d) r h e r' vs" "length vs = unat a" "length vs \<le> max_collection_items l"
    "d \<le> max_nesting_depth l"
  shows "item_ok b l d (Suc r) e r' (Arr vs)"
proof -
  have "word_of_nat (length vs) = a" using assms(4) by simp
  moreover have "length vs < 2 ^ 64" using unsigned_less [of a] assms(4) by simp
  ultimately show ?thesis
    using assms by (auto simp: item_ok_def items_ok_def list_all_iff)
qed

lemma item_ok_CMap:
  assumes "b = head major_MAP a @ drop h b" "h = length (head major_MAP a)"
    "items_ok b l (Suc d) r h e r' vs" "length vs = unat a * 2" "unat a * 2 < 2 ^ 64"
    "unat a \<le> max_collection_items l" "d \<le> max_nesting_depth l"
  shows "item_ok b l d (Suc r) e r' (CMap vs)"
proof -
  have "word_of_nat (length vs div 2) = a" using assms(4) by simp
  then show ?thesis
    using assms by (auto simp: item_ok_def items_ok_def list_all_iff)
qed

lemma item_len_sound:
  "item_len_with_budget b l d r = Ok (n, r') \<Longrightarrow> \<exists>v. item_ok b l d r n r' v"
  "items_len b l d r c p = Ok (e, r') \<Longrightarrow> \<exists>vs. length vs = c \<and> items_ok b l d r p e r' vs"
proof (induction b l d r and b l d r c p arbitrary: n r' and e r'
    rule: item_len_with_budget_items_len.induct)
  case (1 b l d r)
  from "1.prems" obtain h where guard: "r \<noteq> 0" "\<not> length b > max_input_bytes l"
      "\<not> d > max_nesting_depth l" and h: "read_head b = Ok h"
    by (subst (asm) item_len_with_budget.simps) (auto simp: result_simps)
  note canon = read_head_canonical [OF h]
  from guard obtain s where s: "r = Suc s" by (cases r) auto
  consider (atom) "h_major h = major_UINT \<or> h_major h = major_NEGINT \<or> h_major h = major_SIMPLE"
    | (str) "h_major h = major_BYTES \<or> h_major h = major_TEXT"
    | (arr) "h_major h = major_ARRAY" | (map) "h_major h = major_MAP" | (tag) "h_major h = major_TAG"
    using "1.prems" guard h by (subst (asm) item_len_with_budget.simps) (auto split: if_splits)
  then show ?case
  proof cases
    case atom
    then have "n = h_len h" "r = Suc r'" 
      using "1.prems" guard h s by (auto simp: item_len_with_budget.simps)
    then show ?thesis using canon atom guard
      by (intro exI [of _ "Atom (h_major h) (h_arg h)"]) (simp add: item_ok_def)
  next
    case str
    then have "n = h_len h + unat (h_arg h)" "n \<le> length b" "s = r'"
      using "1.prems" guard h s by (auto simp: item_len_with_budget.simps result_simps major_defs)
    then show ?thesis using item_ok_Str [OF canon(2,3), of d l s] str guard s by auto
  next
    case arr
    let ?c = "unat (h_arg h)"
    have c: "collection_count (h_arg h) l = Ok ?c" "\<not> ?c > length b - h_len h"
      and t: "items_len b l (Suc d) (r - 1) ?c (h_len h) = Ok (n, r')"
      using "1.prems" guard h arr
      by (auto simp: item_len_with_budget.simps collection_count_def result_simps major_defs
          split: if_splits)
    obtain vs where "length vs = ?c" "items_ok b l (Suc d) (r - 1) (h_len h) n r' vs"
      using "1.IH"(1) [OF guard h _ _ arr c t] arr by (auto simp: major_defs)
    then show ?thesis
      using item_ok_Arr [of b "h_arg h" "h_len h" l d s n r' vs] canon arr guard c s
      by (auto simp: collection_count_def split: if_splits)
  next
    case map
    let ?c = "unat (h_arg h)"
    have c: "collection_count (h_arg h) l = Ok ?c" "checked_mul ?c 2 = Some (?c * 2)"
        "\<not> ?c * 2 > length b - h_len h"
      and t: "items_len b l (Suc d) (r - 1) (?c * 2) (h_len h) = Ok (n, r')"
      using "1.prems" guard h map
      by (auto simp: item_len_with_budget.simps collection_count_def result_simps major_defs
          split: if_splits)
    obtain vs where "length vs = ?c * 2" "items_ok b l (Suc d) (r - 1) (h_len h) n r' vs"
      using "1.IH"(2) [OF guard h _ _ _ map c(1) _ c(3) t] map c(2) by (auto simp: major_defs)
    then show ?thesis
      using item_ok_CMap [of b "h_arg h" "h_len h" l d s n r' vs] canon map guard c s
      by (auto simp: collection_count_def result_simps split: if_splits)
  next
    case tag
    obtain len where g: "h_len h \<le> length b" and t: "item_len_with_budget (drop (h_len h) b) l
        (Suc d) (r - 1) = Ok (len, r')" and n: "n = h_len h + len"
      using "1.prems" guard h tag
      by (auto simp: item_len_with_budget.simps [of b] result_simps major_defs)
    obtain v where "item_ok (drop (h_len h) b) l (Suc d) (r - 1) len r' v"
      using "1.IH"(3) [OF guard h _ _ _ _ tag _ t] g tag by (auto simp: major_defs result_simps)
    then show ?thesis
      using item_ok_Tagged [of b "h_arg h" "h_len h" l d s len r' v] canon tag guard n s by auto
  qed
next
  case (2 b l d r c p)
  show ?case
  proof (cases c)
    case 0
    then show ?thesis using "2.prems" by (auto simp: items_len.simps items_ok_def)
  next
    case (Suc m)
    then obtain len rem where g: "p \<le> length b"
      and i: "item_len_with_budget (drop p b) l d r = Ok (len, rem)" "p + len < 2 ^ 64"
      and t: "items_len b l d rem m (p + len) = Ok (e, r')"
      using "2.prems" by (subst (asm) items_len.simps) (auto simp: result_simps)
    obtain v where v: "item_ok (drop p b) l d r len rem v"
      using "2.IH"(1) [OF Suc _ i(1)] g by (auto simp: result_simps)
    obtain vs where "length vs = m" "items_ok b l d rem (p + len) e r' vs"
      using "2.IH"(2) [OF Suc _ i(1) _ _ t] g i by (auto simp: result_simps)
    then show ?thesis using items_ok_Cons [OF v] Suc by (metis length_Cons)
  qed
qed

section \<open>The decoder accepts every canonical encoding within its limits\<close>

lemma items_len_complete:
  assumes item: "\<And>v rest s. v \<in> set vs \<Longrightarrow> nodes v \<le> s \<Longrightarrow> length (enc v @ rest) \<le> m \<Longrightarrow>
      item_len_with_budget (enc v @ rest) l d s = Ok (length (enc v), s - nodes v)"
    and "sum_list (map nodes vs) \<le> r" "length pre + length (concat (map enc vs) @ rest) \<le> m"
    "m < 2 ^ 64"
  shows "items_len (pre @ concat (map enc vs) @ rest) l d r (length vs) (length pre) =
    Ok (length pre + length (concat (map enc vs)), r - sum_list (map nodes vs))"
  using assms
proof (induction vs arbitrary: pre r)
  case Nil
  then show ?case by (simp add: items_len.simps)
next
  case (Cons v vs)
  have "item_len_with_budget (enc v @ concat (map enc vs) @ rest) l d r =
      Ok (length (enc v), r - nodes v)"
    by (rule Cons.prems(1)) (use Cons.prems in auto)
  moreover have "items_len ((pre @ enc v) @ concat (map enc vs) @ rest) l d (r - nodes v) (length vs)
      (length (pre @ enc v)) = Ok (length (pre @ enc v) + length (concat (map enc vs)),
        r - nodes v - sum_list (map nodes vs))"
    by (rule Cons.IH) (use Cons.prems in auto)
  ultimately show ?case
    using Cons.prems(2-) by (subst items_len.simps) (simp add: get_from_def checked_add_def add.assoc)
qed

lemma item_len_complete:
  assumes "cbor_wf v" "fits l v d" "nodes v \<le> r" "length (enc v @ rest) \<le> max_input_bytes l"
    "max_input_bytes l < 2 ^ 64"
  shows "item_len_with_budget (enc v @ rest) l d r = Ok (length (enc v), r - nodes v)"
  using assms
proof (induction v arbitrary: d r rest)
  case (Atom m a)
  then show ?case by (auto simp: item_len_with_budget.simps read_head_head)
next
  case (Str m s)
  then show ?case
    by (auto simp: item_len_with_budget.simps read_head_head checked_add_def unat_word_of_nat)
      (simp_all add: major_defs)
next
  case (Arr xs)
  have "items_len (head major_ARRAY (word_of_nat (length xs)) @ concat (map enc xs) @ rest) l (Suc d)
     (r - 1) (length xs) (length (head major_ARRAY (word_of_nat (length xs)))) =
     Ok (length (enc (Arr xs)), r - 1 - sum_list (map nodes xs))"
    using items_len_complete [of xs "max_input_bytes l" l "Suc d" "r - 1"
        "head major_ARRAY (word_of_nat (length xs))" rest] Arr
    by (auto simp: list_all_iff)
  moreover have "length xs \<le> length (concat (map enc xs))" by (rule length_concat_enc)
  ultimately show ?case
    using Arr.prems by (simp add: item_len_with_budget.simps read_head_head collection_count_def
      unat_word_of_nat) (simp add: major_defs)
next
  case (CMap xs)
  then obtain k where k: "length xs = 2 * k" by (auto elim: evenE)
  have "items_len (head major_MAP (word_of_nat k) @ concat (map enc xs) @ rest) l (Suc d)
     (r - 1) (k * 2) (length (head major_MAP (word_of_nat k))) =
     Ok (length (enc (CMap xs)), r - 1 - sum_list (map nodes xs))"
    using items_len_complete [of xs "max_input_bytes l" l "Suc d" "r - 1"
        "head major_MAP (word_of_nat k)" rest] CMap k
    by (auto simp: list_all_iff mult.commute)
  moreover have "length xs \<le> length (concat (map enc xs))" by (rule length_concat_enc)
  ultimately show ?case
    using CMap.prems k by (simp add: item_len_with_budget.simps read_head_head collection_count_def
      unat_word_of_nat checked_mul_def) (simp add: major_defs)
next
  case (Tagged t v)
  have "item_len_with_budget (enc v @ rest) l (Suc d) (r - 1) = Ok (length (enc v), r - 1 - nodes v)"
    using Tagged by (intro Tagged.IH) auto
  then show ?case
    using Tagged.prems by (simp add: item_len_with_budget.simps [of "head _ _ @ _"] read_head_head
      get_from_def checked_add_def) (simp add: major_defs)
qed

section \<open>Encodings are prefix-free\<close>

lemma head_prefix:
  assumes "is_major m" "is_major m'" "head m a @ r = head m' a' @ s"
  shows "m = m' \<and> a = a' \<and> r = s"
proof -
  have "m = m' \<and> a = a'"
    using read_head_head [OF assms(1), of a r] read_head_head [OF assms(2), of a' s] assms(3) by simp
  with assms(3) show ?thesis by simp
qed

primrec major_of :: "cbor \<Rightarrow> u8" where
  "major_of (Atom m a) = m"
| "major_of (Str m s) = m"
| "major_of (Arr xs) = major_ARRAY"
| "major_of (CMap xs) = major_MAP"
| "major_of (Tagged t x) = major_TAG"

primrec arg_of :: "cbor \<Rightarrow> u64" where
  "arg_of (Atom m a) = a"
| "arg_of (Str m s) = word_of_nat (length s)"
| "arg_of (Arr xs) = word_of_nat (length xs)"
| "arg_of (CMap xs) = word_of_nat (length xs div 2)"
| "arg_of (Tagged t x) = t"

primrec body_of :: "cbor \<Rightarrow> bytes" where
  "body_of (Atom m a) = []"
| "body_of (Str m s) = s"
| "body_of (Arr xs) = concat (map enc xs)"
| "body_of (CMap xs) = concat (map enc xs)"
| "body_of (Tagged t x) = enc x"

lemma enc_parts: "enc v = head (major_of v) (arg_of v) @ body_of v"
  by (cases v) auto

lemma is_major_of: "cbor_wf v \<Longrightarrow> is_major (major_of v)"
  by (cases v) auto

lemma enc_prefix_parts:
  assumes "cbor_wf v" "cbor_wf w" "enc v @ r = enc w @ s"
  shows "major_of v = major_of w" "arg_of v = arg_of w" "body_of v @ r = body_of w @ s"
proof -
  have "head (major_of v) (arg_of v) @ body_of v @ r = head (major_of w) (arg_of w) @ body_of w @ s"
    using assms(3) by (simp only: enc_parts append_assoc)
  from head_prefix [OF is_major_of [OF assms(1)] is_major_of [OF assms(2)] this]
  show "major_of v = major_of w" "arg_of v = arg_of w" "body_of v @ r = body_of w @ s" by auto
qed

lemma concat_enc_prefix:
  assumes "\<And>v w r s. v \<in> set xs \<Longrightarrow> cbor_wf w \<Longrightarrow> enc v @ r = enc w @ s \<Longrightarrow> v = w \<and> r = s"
    and "list_all cbor_wf ys" "length xs = length ys"
    and "concat (map enc xs) @ r = concat (map enc ys) @ s"
  shows "xs = ys \<and> r = s"
  using assms
proof (induction xs arbitrary: ys)
  case (Cons x xs)
  then obtain y zs where ys: "ys = y # zs" by (cases ys) auto
  have "x = y \<and> concat (map enc xs) @ r = concat (map enc zs) @ s"
    by (rule Cons.prems(1)) (use Cons.prems ys in auto)
  moreover from this have "xs = zs \<and> r = s"
    by (intro Cons.IH) (use Cons.prems ys in auto)
  ultimately show ?case using ys by simp
qed auto

lemma word_of_nat_eq_iff:
  "m < 2 ^ 64 \<Longrightarrow> n < 2 ^ 64 \<Longrightarrow> (word_of_nat m :: u64) = word_of_nat n \<longleftrightarrow> m = n"
  by (metis unat_word_of_nat)

lemma enc_prefix:
  assumes "cbor_wf v" "cbor_wf w" "enc v @ r = enc w @ s"
  shows "v = w \<and> r = s"
  using assms
proof (induction v arbitrary: w r s)
  case (Atom m a)
  from enc_prefix_parts [OF Atom] Atom(1,2) show ?case
    by (cases w) (auto simp: major_defs)
next
  case (Str m t)
  from enc_prefix_parts [OF Str] Str(1,2) show ?case
    by (cases w) (auto simp: major_defs word_of_nat_eq_iff)
next
  case (Arr xs)
  note parts = enc_prefix_parts [OF Arr.prems]
  obtain ys where w: "w = Arr ys" using parts(1) Arr.prems(2) by (cases w) (auto simp: major_defs)
  have len: "length xs = length ys"
    using parts(2) Arr.prems(1,2) w by (auto simp: word_of_nat_eq_iff)
  show ?case
    using concat_enc_prefix [of xs ys r s] Arr.IH Arr.prems(1,2) parts(3) len w
    by (auto simp: list_all_iff)
next
  case (CMap xs)
  note parts = enc_prefix_parts [OF CMap.prems]
  obtain ys where w: "w = CMap ys" using parts(1) CMap.prems(2) by (cases w) (auto simp: major_defs)
  have "length xs div 2 = length ys div 2"
    using parts(2) CMap.prems(1,2) w word_of_nat_eq_iff [of "length xs div 2" "length ys div 2"] by auto
  then have len: "length xs = length ys"
    using CMap.prems(1,2) w by (auto elim!: evenE)
  show ?case
    using concat_enc_prefix [of xs ys r s] CMap.IH CMap.prems(1,2) parts(3) len w
    by (auto simp: list_all_iff)
next
  case (Tagged t x)
  note parts = enc_prefix_parts [OF Tagged.prems]
  obtain t' y where w: "w = Tagged t' y"
    using parts(1) Tagged.prems(2) by (cases w) (auto simp: major_defs)
  then show ?case using Tagged.IH [of y r s] Tagged.prems(1,2) parts by auto
qed

lemma enc_inj: "cbor_wf v \<Longrightarrow> cbor_wf w \<Longrightarrow> enc v = enc w \<Longrightarrow> v = w"
  using enc_prefix [of v w "[]" "[]"] by simp

section \<open>Acceptance\<close>

text \<open>\<open>finish\<close> accepts exactly the encodings of the items that fit the limits.\<close>

definition item_fits :: "DecodeLimits \<Rightarrow> cbor \<Rightarrow> bool" where
  "item_fits l v \<longleftrightarrow> cbor_wf v \<and> fits l v 0 \<and> nodes v \<le> max_total_items l \<and>
     length (enc v) \<le> max_input_bytes l"

lemma item_len_input: "item_len_with_budget b l d r = Ok x \<Longrightarrow> length b \<le> max_input_bytes l"
  by (simp add: item_len_with_budget.simps split: if_splits)

lemma finish_sound:
  assumes "finish d = Ok ()"
  shows "\<exists>v. dec_bytes d = enc v \<and> item_fits (dec_limits d) v"
proof -
  obtain r where r: "item_len_with_budget (dec_bytes d) (dec_limits d) 0
      (max_total_items (dec_limits d)) = Ok (length (dec_bytes d), r)"
    using assms by (auto simp: finish_def item_len_def result_simps)
  from item_len_sound(1) [OF r] item_len_input [OF r] show ?thesis
    by (auto simp: item_ok_def item_fits_def)
qed

lemma finish_complete:
  assumes "item_fits l v" "max_input_bytes l < 2 ^ 64"
  shows "finish (with_limits (enc v) l) = Ok ()"
  using item_len_complete [of v l 0 "max_total_items l" "[]"] assms
  by (simp add: item_fits_def finish_def item_len_def)

definition accepts :: "DecodeLimits \<Rightarrow> bytes \<Rightarrow> bool" where
  "accepts l b \<longleftrightarrow> max_input_bytes l < 2 ^ 64 \<and> finish (with_limits b l) = Ok ()"

definition item :: "bytes \<Rightarrow> bool" where
  "item b \<longleftrightarrow> (length b < 2 ^ 64 \<longrightarrow> (\<exists>v. cbor_wf v \<and> b = enc v))"

lemma accepts_enc: "cbor_wf v \<Longrightarrow> accepts l (enc v) \<longleftrightarrow> max_input_bytes l < 2 ^ 64 \<and> item_fits l v"
  using finish_sound [of "with_limits (enc v) l"] finish_complete [of l v] enc_inj
  by (auto simp: accepts_def item_fits_def)

lemma accepts_iff: "accepts l b \<longleftrightarrow> max_input_bytes l < 2 ^ 64 \<and> (\<exists>v. b = enc v \<and> item_fits l v)"
  using finish_sound [of "with_limits b l"] finish_complete
  by (auto simp: accepts_def)

lemma accepts_length: "accepts l b \<Longrightarrow> length b < 2 ^ 64 \<and> length b \<le> max_input_bytes l"
  by (auto simp: accepts_iff item_fits_def)

lemma accepts_item: "accepts l b \<Longrightarrow> item b"
  by (auto simp: accepts_iff item_fits_def item_def)

lemma finish_ok_length: "finish d = Ok () \<Longrightarrow> length (dec_bytes d) \<le> max_input_bytes (dec_limits d)"
  by (auto dest!: finish_sound simp: item_fits_def)

end
