(* ===== verification/Cbor_Access.thy ===== *)
theory Cbor_Access
  imports Cbor_Spec
begin

text \<open>
  The accessors of the decoder against the encoders: an accessor succeeds only on the encoding of what
  it returns, and on every encoding that the decoder accepts. The locale \<open>codec\<close> is the contract of a
  wire structure's \<open>to_cbor\<close> and \<open>from_cbor\<close>.
\<close>

section \<open>Encoders build items\<close>

lemma item_enc: "cbor_wf v \<Longrightarrow> item (enc v)"
  by (auto simp: item_def)

lemma item_encode_uint [simp, intro]: "item (encode_uint n)"
  using item_enc [of "Atom major_UINT n"] by (simp add: encode_uint_def)

lemma item_encode_byte_string [simp, intro]: "item (encode_byte_string s)"
  unfolding item_def encode_byte_string_def push_head_Nil
  by (intro impI exI [of _ "Str major_BYTES s"]) simp

lemma item_encode_text_string [simp, intro]: "item (encode_text_string s)"
  unfolding item_def encode_text_string_def push_head_Nil
  by (intro impI exI [of _ "Str major_TEXT s"]) simp

lemma simple_heads:
  "encode_null = head major_SIMPLE 22" "encode_bool b = head major_SIMPLE (if b then 21 else 20)"
  by (simp_all add: encode_null_def encode_bool_def simple_NULL_def simple_TRUE_def simple_FALSE_def
      head_def push_head_def major_SIMPLE_def)

lemma item_encode_null [simp, intro]: "item encode_null"
  using item_enc [of "Atom major_SIMPLE 22"] by (simp add: simple_heads)

lemma item_encode_bool [simp, intro]: "item (encode_bool b)"
  using item_enc [of "Atom major_SIMPLE (if b then 21 else 20)"] by (simp add: simple_heads)

lemma items_enc:
  assumes "\<And>b. b \<in> set bs \<Longrightarrow> item b" "length (concat bs) < 2 ^ 64"
  shows "\<exists>vs. list_all cbor_wf vs \<and> bs = map enc vs"
  using assms
proof (induction bs)
  case (Cons b bs)
  then have "item b" "length b < 2 ^ 64" by simp_all
  then obtain v where "cbor_wf v" "b = enc v" unfolding item_def by blast
  moreover obtain vs where "list_all cbor_wf vs" "bs = map enc vs"
    using Cons.IH Cons.prems by auto
  ultimately show ?case by (intro exI [of _ "v # vs"]) simp
qed simp

lemma encode_array_enc: "encode_array (map enc vs) = enc (Arr vs)"
  by (simp add: encode_array_def push_head_Nil)

lemma encode_tag_enc: "encode_tag t (enc v) = enc (Tagged t v)"
  by (simp add: encode_tag_def push_head_Nil)

lemma encode_array_items:
  assumes "\<And>b. b \<in> set bs \<Longrightarrow> item b" "length (encode_array bs) < 2 ^ 64"
  shows "\<exists>vs. cbor_wf (Arr vs) \<and> bs = map enc vs"
proof -
  have small: "length (concat bs) < 2 ^ 64" using assms(2) by (simp add: encode_array_def)
  from items_enc [OF assms(1) small] obtain vs where vs: "list_all cbor_wf vs" "bs = map enc vs"
    by blast
  then have "length vs < 2 ^ 64" using small length_concat_enc [of vs] by simp
  with vs show ?thesis by auto
qed

lemma item_encode_array [intro]: "(\<And>b. b \<in> set bs \<Longrightarrow> item b) \<Longrightarrow> item (encode_array bs)"
  unfolding item_def [of "encode_array bs"] using encode_array_items [of bs] encode_array_enc by metis

lemma item_encode_tag [simp, intro]: "item b \<Longrightarrow> item (encode_tag t b)"
proof (unfold item_def [of "encode_tag t b"], intro impI)
  assume b: "item b" and "length (encode_tag t b) < 2 ^ 64"
  then have "length b < 2 ^ 64" by (simp add: encode_tag_def)
  with b obtain v where "cbor_wf v" "b = enc v" by (auto simp: item_def)
  then show "\<exists>v. cbor_wf v \<and> encode_tag t b = enc v"
    by (intro exI [of _ "Tagged t v"]) (simp add: encode_tag_enc)
qed

section \<open>Atoms and strings\<close>

lemma expect_head_Ok_iff:
  assumes "is_major m"
  shows "expect_head d m = Ok h \<longleftrightarrow> length (dec_bytes d) \<le> max_input_bytes (dec_limits d) \<and>
    (\<exists>a rest. dec_bytes d = head m a @ rest \<and> h = \<lparr>h_major = m, h_arg = a, h_len = length (head m a)\<rparr>)"
    (is "?l \<longleftrightarrow> ?r")
proof
  assume l: ?l
  then have h: "read_head (dec_bytes d) = Ok h" "h_major h = m"
    by (auto simp: expect_head_def result_simps)
  show ?r using read_head_canonical [OF h(1)] h(2) l
    by (cases h) (auto simp: expect_head_def result_simps)
next
  assume ?r
  then show ?l using assms by (auto simp: expect_head_def read_head_head)
qed

lemma uint_value_Ok_iff:
  "uint_value d = Ok n \<longleftrightarrow> dec_bytes d = encode_uint n \<and>
     length (dec_bytes d) \<le> max_input_bytes (dec_limits d)" (is "?l \<longleftrightarrow> ?r")
proof
  assume ?l
  then show ?r
    by (auto simp: uint_value_def expect_head_Ok_iff result_simps encode_uint_def)
next
  assume ?r
  then have "expect_head d major_UINT =
      Ok \<lparr>h_major = major_UINT, h_arg = n, h_len = length (encode_uint n)\<rparr>"
    by (subst expect_head_Ok_iff) (auto simp: encode_uint_def)
  with \<open>?r\<close> show ?l by (simp add: uint_value_def)
qed

lemma string_value_Ok_iff:
  assumes "is_major m"
  shows "string_value d m = Ok s \<longleftrightarrow> dec_bytes d = head m (word_of_nat (length s)) @ s \<and>
    length (dec_bytes d) < 2 ^ 64 \<and> length (dec_bytes d) \<le> max_input_bytes (dec_limits d)"
    (is "?l \<longleftrightarrow> ?r")
proof
  assume ?l
  then obtain a where a: "dec_bytes d = head m a @ s" "unat a = length s"
    "length (dec_bytes d) < 2 ^ 64" "length (dec_bytes d) \<le> max_input_bytes (dec_limits d)"
    by (auto simp: string_value_def expect_head_Ok_iff [OF assms] result_simps)
  have "word_of_nat (length s) = a" by (simp add: a(2) [symmetric])
  with a show ?r by simp
next
  assume r: ?r
  then have "length s < 2 ^ 64" by auto
  then have "unat (word_of_nat (length s) :: u64) = length s" by (simp add: unat_word_of_nat)
  moreover have "expect_head d m = Ok \<lparr>h_major = m, h_arg = word_of_nat (length s),
      h_len = length (head m (word_of_nat (length s)))\<rparr>"
    using r by (subst expect_head_Ok_iff [OF assms]) auto
  ultimately show ?l
    using r by (auto simp: string_value_def get_range_def checked_add_def)
qed

lemma bytes_value_Ok_iff:
  "bytes_value d = Ok s \<longleftrightarrow> dec_bytes d = encode_byte_string s \<and>
    length (dec_bytes d) < 2 ^ 64 \<and> length (dec_bytes d) \<le> max_input_bytes (dec_limits d)"
  by (simp add: bytes_value_def string_value_Ok_iff encode_byte_string_def push_head_Nil)

lemma text_value_Ok_iff:
  "text_value d = Ok s \<longleftrightarrow> dec_bytes d = encode_text_string s \<and> utf8_valid s \<and>
    length (dec_bytes d) < 2 ^ 64 \<and> length (dec_bytes d) \<le> max_input_bytes (dec_limits d)"
  by (auto simp: text_value_def string_value_Ok_iff encode_text_string_def push_head_Nil result_simps)

lemma bool_value_Ok_iff: "bool_value d = Ok b \<longleftrightarrow> dec_bytes d = encode_bool b"
  by (cases "dec_bytes d") (auto simp: bool_value_def encode_bool_def simple_TRUE_def simple_FALSE_def
      split: if_splits)

lemma is_null_iff: "is_null d \<longleftrightarrow> (\<exists>rest. dec_bytes d = simple_NULL # rest)"
  by (auto simp: is_null_def split: list.splits)

section \<open>Arrays and tags\<close>

lemma array_items_sound:
  "array_items d n p = Ok (ds, e) \<Longrightarrow> length ds = n \<and> (\<forall>x\<in>set ds. dec_limits x = dec_limits d) \<and>
     drop p (dec_bytes d) = concat (map dec_bytes ds) @ drop e (dec_bytes d) \<and> p \<le> e"
proof (induction n arbitrary: p ds)
  case (Suc n)
  then obtain len ds' where
      ds: "ds = with_limits (take len (drop p (dec_bytes d))) (dec_limits d) # ds'"
    and rest: "array_items d n (p + len) = Ok (ds', e)"
    by (auto simp: result_simps)
  have "drop p (dec_bytes d) = take len (drop p (dec_bytes d)) @ drop (p + len) (dec_bytes d)"
    by (rule drop_take_split)
  then show ?case using Suc.IH [OF rest] ds by simp
qed auto

lemma array_items_complete:
  assumes "\<And>v rest. v \<in> set vs \<Longrightarrow> length (enc v @ rest) \<le> m \<Longrightarrow> item_len (enc v @ rest) l 1 = Ok (length (enc v))"
    and "length pre + length (concat (map enc vs)) \<le> m" "m < 2 ^ 64"
  shows "array_items (with_limits (pre @ concat (map enc vs)) l) (length vs) (length pre) =
    Ok (map (\<lambda>v. with_limits (enc v) l) vs, length pre + length (concat (map enc vs)))"
  using assms
proof (induction vs arbitrary: pre)
  case (Cons v vs)
  have "item_len (enc v @ concat (map enc vs)) l (Suc 0) = Ok (length (enc v))"
    using Cons.prems(1) [of v "concat (map enc vs)"] Cons.prems(2) by simp
  moreover have "array_items (with_limits ((pre @ enc v) @ concat (map enc vs)) l) (length vs)
      (length (pre @ enc v)) = Ok (map (\<lambda>v. with_limits (enc v) l) vs,
        length (pre @ enc v) + length (concat (map enc vs)))"
    by (rule Cons.IH) (use Cons.prems in auto)
  ultimately show ?case
    using Cons.prems(2-) by (simp add: get_from_def get_range_def checked_add_def add.assoc)
qed auto

lemma fits_mono: "fits l v d \<Longrightarrow> d' \<le> d \<Longrightarrow> fits l v d'"
  by (induction v arbitrary: d d') (auto simp: list_all_iff)

lemma item_fits_child:
  assumes "cbor_wf v" "fits l v (Suc 0)" "nodes v \<le> max_total_items l" "length (enc v) \<le> max_input_bytes l"
  shows "item_fits l v"
  using assms fits_mono by (auto simp: item_fits_def)

lemma length_concat_mem: "x \<in> set xs \<Longrightarrow> length (f x) \<le> length (concat (map f xs))"
  by (induction xs) auto

lemma item_fits_ArrD:
  assumes "item_fits l (Arr vs)" "v \<in> set vs"
  shows "item_fits l v"
proof (rule item_fits_child)
  show "cbor_wf v" "fits l v (Suc 0)" using assms by (auto simp: item_fits_def list_all_iff)
  show "nodes v \<le> max_total_items l"
    using assms member_le_sum_list [of "nodes v" "map nodes vs"] by (auto simp: item_fits_def)
  show "length (enc v) \<le> max_input_bytes l"
    using assms length_concat_mem [of v vs enc] by (auto simp: item_fits_def)
qed

lemma item_len_child:
  assumes "item_fits l v" "fits l v (Suc 0)" "length (enc v @ rest) \<le> max_input_bytes l"
    "max_input_bytes l < 2 ^ 64"
  shows "item_len (enc v @ rest) l 1 = Ok (length (enc v))"
  using item_len_complete [of v l 1 "max_total_items l" rest] assms
  by (simp add: item_len_def item_fits_def)

theorem array_sound:
  assumes "array d e = Ok ds"
  shows "dec_bytes d = encode_array (map dec_bytes ds)" "\<And>x. x \<in> set ds \<Longrightarrow> dec_limits x = dec_limits d"
    "e = Some n \<Longrightarrow> length ds = n"
proof -
  obtain a rest where a: "dec_bytes d = head major_ARRAY a @ rest"
    and items: "array_items d (unat a) (length (head major_ARRAY a)) = Ok (ds, length (dec_bytes d))"
    and e: "\<And>n. e = Some n \<Longrightarrow> n = unat a"
    using assms by (auto simp: array_def expect_head_Ok_iff result_simps collection_count_def
        split: option.splits if_splits)
  from array_items_sound [OF items] show "\<And>x. x \<in> set ds \<Longrightarrow> dec_limits x = dec_limits d"
    "e = Some n \<Longrightarrow> length ds = n" using e by auto
  have "rest = concat (map dec_bytes ds)" "length ds = unat a"
    using array_items_sound [OF items] a by auto
  then show "dec_bytes d = encode_array (map dec_bytes ds)"
    using a by (simp add: encode_array_def push_head_Nil)
qed

text \<open>Every element of a decoded array is one well-formed item.\<close>

lemma item_len_item:
  assumes "item_len b l d = Ok n"
  shows "\<exists>v. cbor_wf v \<and> take n b = enc v"
proof -
  obtain r where "item_len_with_budget b l d (max_total_items l) = Ok (n, r)"
    using assms by (auto simp: item_len_def result_simps)
  then obtain v where "cbor_wf v" "b = enc v @ drop n b" "n = length (enc v)"
    using item_len_sound(1) by (fastforce simp: item_ok_def)
  then show ?thesis by (metis append_eq_conv_conj)
qed

lemma array_items_elements:
  "array_items d n p = Ok (ds, e) \<Longrightarrow> x \<in> set ds \<Longrightarrow> \<exists>v. cbor_wf v \<and> dec_bytes x = enc v"
proof (induction n arbitrary: p ds)
  case (Suc n)
  then obtain len ds' where
      ds: "ds = with_limits (take len (drop p (dec_bytes d))) (dec_limits d) # ds'"
    and len: "item_len (drop p (dec_bytes d)) (dec_limits d) 1 = Ok len"
    and rest: "array_items d n (p + len) = Ok (ds', e)"
    by (auto simp: result_simps)
  show ?case using Suc.IH [OF rest] Suc.prems(2) ds item_len_item [OF len] by auto
qed auto

lemma array_elements: "array d e = Ok ds \<Longrightarrow> x \<in> set ds \<Longrightarrow> \<exists>v. cbor_wf v \<and> dec_bytes x = enc v"
  by (auto simp: array_def result_simps dest: array_items_elements)

lemma array_enc:
  assumes "item_fits l (Arr vs)" "max_input_bytes l < 2 ^ 64" "e = None \<or> e = Some (length vs)"
  shows "array (with_limits (enc (Arr vs)) l) e = Ok (map (\<lambda>v. with_limits (enc v) l) vs)"
proof -
  let ?h = "head major_ARRAY (word_of_nat (length vs))"
  have "array_items (with_limits (?h @ concat (map enc vs)) l) (length vs) (length ?h) =
    Ok (map (\<lambda>v. with_limits (enc v) l) vs, length ?h + length (concat (map enc vs)))"
    by (rule array_items_complete [where m = "max_input_bytes l"])
      (use assms item_fits_ArrD [OF assms(1)] in \<open>auto simp: item_fits_def list_all_iff intro!: item_len_child [unfolded One_nat_def]\<close>)
  moreover have "expect_head (with_limits (enc (Arr vs)) l) major_ARRAY =
      Ok \<lparr>h_major = major_ARRAY, h_arg = word_of_nat (length vs), h_len = length ?h\<rparr>"
    using assms by (subst expect_head_Ok_iff) (auto simp: item_fits_def)
  ultimately show ?thesis
    using finish_complete [OF assms(1,2)] assms length_concat_enc [of vs]
    by (auto simp: array_def collection_count_def item_fits_def unat_word_of_nat)
qed

lemma array_fits:
  assumes acc: "accepts l (encode_array bs)" and items: "\<And>b. b \<in> set bs \<Longrightarrow> item b"
  obtains vs where "bs = map enc vs" "item_fits l (Arr vs)" "max_input_bytes l < 2 ^ 64"
proof -
  obtain vs where vs: "cbor_wf (Arr vs)" "bs = map enc vs"
    using encode_array_items [OF items] accepts_length [OF acc] by blast
  then show thesis
    using acc accepts_enc [OF vs(1), of l] that by (simp only: encode_array_enc)
qed

theorem array_complete:
  assumes acc: "accepts l (encode_array bs)" and items: "\<And>b. b \<in> set bs \<Longrightarrow> item b"
    and e: "e = None \<or> e = Some (length bs)"
  shows "array (with_limits (encode_array bs) l) e = Ok (map (\<lambda>b. with_limits b l) bs)"
proof -
  obtain vs where vs: "bs = map enc vs" "item_fits l (Arr vs)" "max_input_bytes l < 2 ^ 64"
    using acc items by (rule array_fits)
  show ?thesis
    using array_enc [OF vs(2,3), of e] e vs(1) by (simp add: encode_array_enc comp_def del: enc.simps)
qed

theorem array_accepts:
  assumes acc: "accepts l (encode_array bs)" and items: "\<And>b. b \<in> set bs \<Longrightarrow> item b"
    and b: "b \<in> set bs"
  shows "accepts l b"
proof -
  obtain vs where vs: "bs = map enc vs" "item_fits l (Arr vs)" "max_input_bytes l < 2 ^ 64"
    using acc items by (rule array_fits)
  then show ?thesis using item_fits_ArrD [OF vs(2)] b by (auto simp: accepts_iff)
qed

lemma item_fits_TaggedD: "item_fits l (Tagged t v) \<Longrightarrow> item_fits l v"
  by (rule item_fits_child) (auto simp: item_fits_def)

theorem tag_value_sound:
  assumes "tag_value d = Ok (t, i)"
  shows "dec_bytes d = encode_tag t (dec_bytes i)" "dec_limits i = dec_limits d"
  using assms by (auto simp: tag_value_def expect_head_Ok_iff result_simps encode_tag_def push_head_Nil)

lemma tag_value_enc:
  assumes fit: "item_fits l (Tagged t v)" and "max_input_bytes l < 2 ^ 64"
  shows "tag_value (with_limits (enc (Tagged t v)) l) = Ok (t, with_limits (enc v) l)"
proof -
  have "item_len (enc v @ []) l 1 = Ok (length (enc v))"
    by (rule item_len_child) (use assms item_fits_TaggedD [OF fit] in \<open>auto simp: item_fits_def\<close>)
  moreover have "expect_head (with_limits (enc (Tagged t v)) l) major_TAG =
      Ok \<lparr>h_major = major_TAG, h_arg = t, h_len = length (head major_TAG t)\<rparr>"
    using assms by (subst expect_head_Ok_iff) (auto simp: item_fits_def)
  ultimately show ?thesis
    using finish_complete [OF assms] assms
    by (auto simp: tag_value_def get_from_def checked_add_def item_fits_def)
qed

theorem tag_value_complete:
  assumes acc: "accepts l (encode_tag t b)" and item: "item b"
  shows "tag_value (with_limits (encode_tag t b) l) = Ok (t, with_limits b l)" "accepts l b"
proof -
  have "length b < 2 ^ 64" using accepts_length [OF acc] by (simp add: encode_tag_def)
  then obtain v where v: "cbor_wf v" "b = enc v" using item by (auto simp: item_def)
  have fit: "item_fits l (Tagged t v)" "max_input_bytes l < 2 ^ 64"
    using acc v accepts_enc [of "Tagged t v" l] by (simp_all only: encode_tag_enc cbor_wf.simps)
  show "tag_value (with_limits (encode_tag t b) l) = Ok (t, with_limits b l)"
    using tag_value_enc [OF fit] v(2) by (simp add: encode_tag_enc del: enc.simps)
  show "accepts l b"
    using item_fits_TaggedD [OF fit(1)] fit(2) v(2) by (auto simp: accepts_iff)
qed

lemma expect_tag_Ok_iff: "expect_tag d t = Ok i \<longleftrightarrow> tag_value d = Ok (t, i)"
  by (auto simp: expect_tag_def result_simps)

lemma nullable_Ok_iff:
  "nullable d f = Ok x \<longleftrightarrow>
     (is_null d \<and> finish d = Ok () \<and> x = None \<or> \<not> is_null d \<and> (\<exists>v. f d = Ok v \<and> x = Some v))"
  by (auto simp: nullable_def result_simps)

lemma null_item: "cbor_wf v \<Longrightarrow> enc v = simple_NULL # rest \<Longrightarrow> rest = []"
  using enc_prefix [of v "Atom major_SIMPLE 22" "[]" rest] simple_heads(1)
  by (simp add: encode_null_def)

lemma is_null_finish: "is_null d \<Longrightarrow> finish d = Ok () \<Longrightarrow> dec_bytes d = encode_null"
  using null_item by (fastforce dest!: finish_sound simp: is_null_iff item_fits_def encode_null_def)

section \<open>Maps\<close>

text \<open>The entries that the map encoder emits: increasing keys, the last of equal keys.\<close>

abbreviation increasing :: "(bytes \<times> bytes) list \<Rightarrow> bool" where
  "increasing \<equiv> sorted_wrt (\<lambda>x y. cmp_bytes (fst x) (fst y) = Less)"

definition canonical_entries :: "(bytes \<times> bytes) list \<Rightarrow> (bytes \<times> bytes) list" where
  "canonical_entries es = unique_entries (sort_by map_entry_cmp es)"

lemma map_entry_cmp_fun: "map_entry_cmp = (\<lambda>x y. cmp_bytes (fst x) (fst y))"
  by (intro ext) (rule map_entry_cmp_eq)

lemma set_unique_entries: "set (unique_entries es) \<subseteq> set es"
  by (induction es rule: unique_entries.induct) auto

lemma hd_unique_entries: "fst ` set (unique_entries es) = fst ` set es"
  by (induction es rule: unique_entries.induct) auto

lemma increasing_unique_entries:
  "sorted_wrt (\<lambda>x y. cmp_bytes (fst x) (fst y) \<noteq> Greater) es \<Longrightarrow> increasing (unique_entries es)"
proof (induction es rule: unique_entries.induct)
  case (3 e f rest)
  have "cmp_bytes (fst e) (fst y) = Less" if "fst f \<noteq> fst e" "y \<in> set (unique_entries (f # rest))" for y
  proof -
    have "cmp_bytes (fst e) (fst f) = Less"
      using 3(3) that(1) byte_order.not_Greater_iff [of "fst e" "fst f"] by auto
    moreover have "y \<in> set (f # rest)" using that(2) set_unique_entries by blast
    then have "cmp_bytes (fst f) (fst y) = Less \<or> fst y = fst f"
      using 3(3) byte_order.not_Greater_iff [of "fst f" "fst y"] by auto
    ultimately show ?thesis using cmp_bytes_trans by metis
  qed
  with 3 show ?case by auto
qed auto

lemma unique_entries_increasing: "increasing es \<Longrightarrow> unique_entries es = es"
proof (induction es rule: unique_entries.induct)
  case (3 e f rest)
  then show ?case by auto
qed auto

lemma increasing_canonical_entries: "increasing (canonical_entries es)"
  unfolding canonical_entries_def map_entry_cmp_fun
  by (rule increasing_unique_entries) (rule byte_order.sorted_sort_by)

lemma canonical_entries_id: "increasing es \<Longrightarrow> canonical_entries es = es"
  unfolding canonical_entries_def map_entry_cmp_fun
  by (subst byte_order.sort_by_sorted) (auto simp: unique_entries_increasing elim: sorted_wrt_mono_rel [rotated])

text \<open>Sorting is stable, so looking a key up in the canonical entries finds its last value.\<close>

lemma filter_insert_by:
  "filter (\<lambda>e. fst e = k) (insert_by map_entry_cmp x es) = filter (\<lambda>e. fst e = k) (x # es)"
proof (induction es)
  case (Cons y es)
  have "fst x \<noteq> k \<or> fst y \<noteq> k" if "map_entry_cmp x y = Greater"
    using that by (auto simp: map_entry_cmp_eq)
  then show ?case using Cons by auto
qed simp

lemma filter_sort_entries: "filter (\<lambda>e. fst e = k) (sort_by map_entry_cmp es) = filter (\<lambda>e. fst e = k) es"
  by (induction es) (simp_all add: filter_insert_by)

lemma map_of_last: "map_of (rev es) k = (let f = filter (\<lambda>e. fst e = k) es in if f = [] then None else Some (snd (last f)))"
  by (induction es) (auto simp: map_add_def Let_def split: option.splits)

lemma map_of_unique_entries:
  "sorted_wrt (\<lambda>x y. cmp_bytes (fst x) (fst y) \<noteq> Greater) es \<Longrightarrow> map_of (unique_entries es) = map_of (rev es)"
proof (induction es rule: unique_entries.induct)
  case (3 e f rest)
  have ih: "map_of (unique_entries (f # rest)) = map_of (rev (f # rest))" by (cases "fst f = fst e") (use 3 in auto)
  have "map_of (unique_entries (f # rest)) (fst e) = None" if "fst f \<noteq> fst e"
  proof -
    have less: "cmp_bytes (fst e) (fst f) = Less" using 3(3) that byte_order.not_Greater_iff [of "fst e" "fst f"] by auto
    have "fst y \<noteq> fst e" if "y \<in> set rest" for y
    proof -
      have "cmp_bytes (fst f) (fst y) = Less \<or> fst f = fst y"
        using 3(3) that byte_order.not_Greater_iff [of "fst f" "fst y"] by auto
      then have "cmp_bytes (fst e) (fst y) = Less" using less cmp_bytes_trans by metis
      then show ?thesis using byte_order.Less_neq by metis
    qed
    then have "\<forall>y\<in>set rest. fst y \<noteq> fst e" by blast
    then have "fst e \<notin> fst ` set (f # rest)" using that by auto
    then show ?thesis using hd_unique_entries [of "f # rest"] by (simp add: map_of_eq_None_iff)
  qed
  then show ?case using ih by (auto simp: map_add_def fun_eq_iff split: option.splits)
qed auto

lemma map_of_canonical_entries: "map_of (canonical_entries es) = map_of (rev es)"
proof -
  have "sorted_wrt (\<lambda>x y. cmp_bytes (fst x) (fst y) \<noteq> Greater) (sort_by map_entry_cmp es)"
    unfolding map_entry_cmp_fun by (rule byte_order.sorted_sort_by)
  then have "map_of (canonical_entries es) = map_of (rev (sort_by map_entry_cmp es))"
    unfolding canonical_entries_def by (rule map_of_unique_entries)
  then show ?thesis by (simp add: fun_eq_iff map_of_last filter_sort_entries)
qed

lemma increasing_lexord: "increasing es \<longleftrightarrow> sorted_wrt ord_class.lexordp (map fst es)"
  by (simp add: sorted_wrt_map cmp_bytes_lexord)

lemma encode_map_canonical:
  "encode_map es = head major_MAP (word_of_nat (length (canonical_entries es))) @
     concat (map (\<lambda>(k, v). k @ v) (canonical_entries es))"
  by (simp add: encode_map_def canonical_entries_def push_head_Nil Let_def)

abbreviation entry_bytes :: "Decoder \<times> Decoder \<Rightarrow> bytes \<times> bytes" where
  "entry_bytes \<equiv> map_prod dec_bytes dec_bytes"

lemma key_order_Ok_iff:
  "(case prev of None \<Rightarrow> Ok () | Some q \<Rightarrow> (case canonical_key_cmp q key of
      Less \<Rightarrow> Ok () | Equal \<Rightarrow> Err DuplicateMapKey | Greater \<Rightarrow> Err NonCanonicalMapOrder)) = Ok u \<longleftrightarrow>
   (\<forall>q. prev = Some q \<longrightarrow> cmp_bytes q key = Less)"
  by (auto simp: canonical_key_cmp_eq split: option.splits ordering.splits)

lemma map_items_Suc_Ok:
  assumes "map_items d (Suc n) p prev = Ok (kvs, e)"
  obtains key val kvs' where
    "kvs = (with_limits key (dec_limits d), with_limits val (dec_limits d)) # kvs'"
    "drop p (dec_bytes d) = key @ val @ drop (p + length key + length val) (dec_bytes d)"
    "map_items d n (p + length key + length val) (Some key) = Ok (kvs', e)"
    "\<forall>q. prev = Some q \<longrightarrow> cmp_bytes q key = Less"
proof -
  obtain klen vlen kvs' where
      kvs: "kvs = (with_limits (take klen (drop p (dec_bytes d))) (dec_limits d),
        with_limits (take vlen (drop (p + klen) (dec_bytes d))) (dec_limits d)) # kvs'"
    and len: "p + klen + vlen \<le> length (dec_bytes d)"
    and rest: "map_items d n (p + klen + vlen) (Some (take klen (drop p (dec_bytes d)))) = Ok (kvs', e)"
    and prev: "\<forall>q. prev = Some q \<longrightarrow> cmp_bytes q (take klen (drop p (dec_bytes d))) = Less"
    using assms by (clarsimp simp: result_simps key_order_Ok_iff)
  define key val where "key = take klen (drop p (dec_bytes d))"
    and "val = take vlen (drop (p + klen) (dec_bytes d))"
  have lens: "length key = klen" "length val = vlen" using len by (simp_all add: key_def val_def)
  have "drop p (dec_bytes d) = key @ val @ drop (p + klen + vlen) (dec_bytes d)"
    unfolding key_def val_def using drop_take_split [of p _ klen] drop_take_split [of "p + klen" _ vlen]
    by metis
  with lens have "drop p (dec_bytes d) = key @ val @ drop (p + length key + length val) (dec_bytes d)"
    by simp
  moreover have "map_items d n (p + length key + length val) (Some key) = Ok (kvs', e)"
    using rest lens by (simp add: key_def)
  ultimately show thesis
    by (rule that [rotated]) (use kvs prev in \<open>simp_all add: key_def val_def\<close>)
qed

lemma map_items_sound:
  "map_items d n p prev = Ok (kvs, e) \<Longrightarrow> length kvs = n \<and> p \<le> e \<and>
     (\<forall>(k, v)\<in>set kvs. dec_limits k = dec_limits d \<and> dec_limits v = dec_limits d) \<and>
     drop p (dec_bytes d) = concat (map (\<lambda>(k, v). k @ v) (map entry_bytes kvs)) @ drop e (dec_bytes d) \<and>
     increasing (map entry_bytes kvs) \<and>
     (\<forall>q. prev = Some q \<longrightarrow> (\<forall>(k, v)\<in>set kvs. cmp_bytes q (dec_bytes k) = Less))"
proof (induction n arbitrary: p prev kvs)
  case (Suc n)
  from Suc.prems obtain key val kvs' where
      kvs: "kvs = (with_limits key (dec_limits d), with_limits val (dec_limits d)) # kvs'"
    and split: "drop p (dec_bytes d) = key @ val @ drop (p + length key + length val) (dec_bytes d)"
    and rest: "map_items d n (p + length key + length val) (Some key) = Ok (kvs', e)"
    and prev: "\<forall>q. prev = Some q \<longrightarrow> cmp_bytes q key = Less"
    by (rule map_items_Suc_Ok)
  note ih = Suc.IH [OF rest]
  have less: "cmp_bytes key (dec_bytes k) = Less" if "(k, v) \<in> set kvs'" for k v
    using ih that by auto
  have "cmp_bytes q (dec_bytes k) = Less" if "prev = Some q" "(k, v) \<in> set kvs'" for q k v
    using less [OF that(2)] prev that(1) cmp_bytes_trans by blast
  then show ?case using ih kvs split less prev by auto
qed auto

theorem map_value_sound:
  assumes "map_value d = Ok kvs"
  shows "dec_bytes d = encode_map (map entry_bytes kvs)" "increasing (map entry_bytes kvs)"
    "\<And>k v. (k, v) \<in> set kvs \<Longrightarrow> dec_limits k = dec_limits d \<and> dec_limits v = dec_limits d"
proof -
  obtain a rest where a: "dec_bytes d = head major_MAP a @ rest"
    and items: "map_items d (unat a) (length (head major_MAP a)) None = Ok (kvs, length (dec_bytes d))"
    using assms by (auto simp: map_value_def expect_head_Ok_iff result_simps collection_count_def
        split: if_splits)
  note sound = map_items_sound [OF items]
  show inc: "increasing (map entry_bytes kvs)" using sound by blast
  show "\<And>k v. (k, v) \<in> set kvs \<Longrightarrow> dec_limits k = dec_limits d \<and> dec_limits v = dec_limits d"
    using sound by auto
  have "rest = concat (map (\<lambda>(k, v). k @ v) (map entry_bytes kvs))" "length kvs = unat a"
    using sound a by auto
  then show "dec_bytes d = encode_map (map entry_bytes kvs)"
    using a by (simp add: encode_map_canonical canonical_entries_id [OF inc])
qed

text \<open>The flat children of a map of entries.\<close>

definition entry_items :: "(cbor \<times> cbor) list \<Rightarrow> cbor list" where
  "entry_items vs = concat (map (\<lambda>(k, v). [k, v]) vs)"

abbreviation enc_entry :: "cbor \<times> cbor \<Rightarrow> bytes \<times> bytes" where
  "enc_entry \<equiv> map_prod enc enc"

lemma length_entry_items [simp]: "length (entry_items vs) = 2 * length vs"
  by (induction vs) (auto simp: entry_items_def)

lemma concat_entry_items:
  "concat (map enc (entry_items vs)) = concat (map (\<lambda>(k, v). k @ v) (map enc_entry vs))"
  by (induction vs) (auto simp: entry_items_def)

lemma set_entry_items: "set (entry_items vs) = fst ` set vs \<union> snd ` set vs"
  by (induction vs) (auto simp: entry_items_def)

lemma item_fits_CMapD:
  assumes "item_fits l (CMap vs)" "v \<in> set vs"
  shows "item_fits l v" "fits l v (Suc 0)"
proof -
  show "item_fits l v"
  proof (rule item_fits_child)
    show "cbor_wf v" "fits l v (Suc 0)" using assms by (auto simp: item_fits_def list_all_iff)
    show "nodes v \<le> max_total_items l"
      using assms member_le_sum_list [of "nodes v" "map nodes vs"] by (auto simp: item_fits_def)
    show "length (enc v) \<le> max_input_bytes l"
      using assms length_concat_mem [of v vs enc] by (auto simp: item_fits_def)
  qed
  show "fits l v (Suc 0)" using assms by (auto simp: item_fits_def list_all_iff)
qed

lemma map_items_complete:
  assumes "\<And>v rest. v \<in> set (entry_items vs) \<Longrightarrow> length (enc v @ rest) \<le> m \<Longrightarrow>
      item_len (enc v @ rest) l 1 = Ok (length (enc v))"
    and "length pre + length (concat (map enc (entry_items vs))) \<le> m" "m < 2 ^ 64"
    and "increasing (map enc_entry vs)" "\<forall>q. prev = Some q \<longrightarrow> (\<forall>(k, v)\<in>set vs. cmp_bytes q (enc k) = Less)"
  shows "map_items (with_limits (pre @ concat (map enc (entry_items vs))) l) (length vs) (length pre) prev =
    Ok (map (\<lambda>(k, v). (with_limits (enc k) l, with_limits (enc v) l)) vs,
        length pre + length (concat (map enc (entry_items vs))))"
  using assms
proof (induction vs arbitrary: pre prev)
  case Nil
  then show ?case by (simp add: entry_items_def)
next
  case (Cons kv vs)
  obtain k v where kv: "kv = (k, v)" by (cases kv)
  have flat: "entry_items (kv # vs) = k # v # entry_items vs" by (simp add: entry_items_def kv)
  let ?c = "concat (map enc (entry_items vs))"
  have kl: "item_len (enc k @ enc v @ ?c) l (Suc 0) = Ok (length (enc k))"
    using Cons.prems(1) [of k "enc v @ ?c"] Cons.prems(2) flat by simp
  have vl: "item_len (enc v @ ?c) l (Suc 0) = Ok (length (enc v))"
    using Cons.prems(1) [of v ?c] Cons.prems(2) flat by simp
  have rest: "map_items (with_limits ((pre @ enc k @ enc v) @ ?c) l) (length vs)
      (length (pre @ enc k @ enc v)) (Some (enc k)) =
      Ok (map (\<lambda>(k, v). (with_limits (enc k) l, with_limits (enc v) l)) vs,
        length (pre @ enc k @ enc v) + length ?c)"
    by (rule Cons.IH) (use Cons.prems kv flat in auto)
  have ord: "(case prev of None \<Rightarrow> Ok () | Some q \<Rightarrow> (case canonical_key_cmp q (enc k) of
      Less \<Rightarrow> Ok () | Equal \<Rightarrow> Err DuplicateMapKey | Greater \<Rightarrow> Err NonCanonicalMapOrder)) = Ok ()"
    using Cons.prems(5) kv by (subst key_order_Ok_iff) auto
  show ?case
    using kl vl rest ord Cons.prems(2,3) flat kv
    by (simp add: get_from_def get_range_def checked_add_def add.assoc)
qed

lemma map_value_enc:
  assumes fit: "item_fits l (CMap (entry_items vs))" and "max_input_bytes l < 2 ^ 64"
    and inc: "increasing (map enc_entry vs)"
  shows "map_value (with_limits (enc (CMap (entry_items vs))) l) =
    Ok (map (\<lambda>(k, v). (with_limits (enc k) l, with_limits (enc v) l)) vs)"
proof -
  let ?h = "head major_MAP (word_of_nat (length vs))"
  have "map_items (with_limits (?h @ concat (map enc (entry_items vs))) l) (length vs) (length ?h) None =
    Ok (map (\<lambda>(k, v). (with_limits (enc k) l, with_limits (enc v) l)) vs,
      length ?h + length (concat (map enc (entry_items vs))))"
    by (rule map_items_complete [where m = "max_input_bytes l"])
      (use assms item_fits_CMapD [OF fit] in
        \<open>auto simp: item_fits_def intro!: item_len_child [unfolded One_nat_def]\<close>)
  moreover have "expect_head (with_limits (enc (CMap (entry_items vs))) l) major_MAP =
      Ok \<lparr>h_major = major_MAP, h_arg = word_of_nat (length vs), h_len = length ?h\<rparr>"
    using assms by (subst expect_head_Ok_iff) (auto simp: item_fits_def)
  moreover have "2 * length vs < 2 ^ 64" "length vs \<le> max_collection_items l"
    using fit by (simp_all add: item_fits_def)
  ultimately show ?thesis
    using finish_complete [OF assms(1,2)] assms length_concat_enc [of "entry_items vs"]
    by (auto simp: map_value_def collection_count_def checked_mul_def unat_word_of_nat)
qed

lemma entries_enc:
  assumes "\<And>k v. (k, v) \<in> set es \<Longrightarrow> item k \<and> item v" "length (concat (map (\<lambda>(k, v). k @ v) es)) < 2 ^ 64"
  shows "\<exists>vs. list_all cbor_wf (entry_items vs) \<and> es = map enc_entry vs"
  using assms
proof (induction es)
  case Nil
  then show ?case by (intro exI [of _ "[]"]) (simp add: entry_items_def)
next
  case (Cons e es)
  obtain k v where e: "e = (k, v)" by (cases e)
  with Cons.prems have "item k" "item v" "length k < 2 ^ 64" "length v < 2 ^ 64" by auto
  then obtain x y where "cbor_wf x" "k = enc x" "cbor_wf y" "v = enc y" unfolding item_def by blast
  moreover obtain vs where "list_all cbor_wf (entry_items vs)" "es = map enc_entry vs"
    using Cons e by auto
  ultimately show ?case using e by (intro exI [of _ "(x, y) # vs"]) (simp add: entry_items_def)
qed

lemma set_canonical_entries: "set (canonical_entries es) \<subseteq> set es"
  using set_unique_entries byte_order.set_sort_by by (fastforce simp: canonical_entries_def)

lemma encode_map_items:
  assumes "\<And>k v. (k, v) \<in> set es \<Longrightarrow> item k \<and> item v" "length (encode_map es) < 2 ^ 64"
  obtains vs where "cbor_wf (CMap (entry_items vs))" "canonical_entries es = map enc_entry vs"
    "encode_map es = enc (CMap (entry_items vs))"
proof -
  let ?es = "canonical_entries es"
  have "length (concat (map (\<lambda>(k, v). k @ v) ?es)) < 2 ^ 64"
    using assms(2) by (simp add: encode_map_canonical)
  moreover have "\<And>k v. (k, v) \<in> set ?es \<Longrightarrow> item k \<and> item v"
    using assms(1) set_canonical_entries by blast
  ultimately obtain vs where vs: "list_all cbor_wf (entry_items vs)" "?es = map enc_entry vs"
    using entries_enc [of ?es] by blast
  have concat: "concat (map enc (entry_items vs)) = concat (map (\<lambda>(k, v). k @ v) ?es)"
    by (simp only: concat_entry_items vs(2))
  then have "length (entry_items vs) < 2 ^ 64"
    using assms(2) length_concat_enc [of "entry_items vs"] by (simp add: encode_map_canonical)
  moreover have "encode_map es = enc (CMap (entry_items vs))"
    unfolding encode_map_canonical by (simp add: concat) (simp add: vs(2))
  ultimately show thesis using vs that by simp
qed

lemma item_encode_map [intro]:
  "(\<And>k v. (k, v) \<in> set es \<Longrightarrow> item k \<and> item v) \<Longrightarrow> item (encode_map es)"
  unfolding item_def [of "encode_map es"] by (metis encode_map_items)

text \<open>Reading a map succeeds exactly on the encodings of items whose encoded keys increase.\<close>

lemma map_items_item:
  assumes "map_items d n p prev = Ok (kvs, e)" "(k, v) \<in> set kvs"
  shows "item (dec_bytes k) \<and> item (dec_bytes v)"
  using assms
proof (induction n arbitrary: p prev kvs)
  case (Suc n)
  have item: "item (take len b)" if ok: "item_len b l d = Ok len" for b l d len
  proof -
    obtain r where "item_len_with_budget b l d (max_total_items l) = Ok (len, r)"
      using ok by (auto simp: item_len_def rbind_Inr_iff split: prod.splits)
    from item_len_sound(1) [OF this] obtain v where v: "cbor_wf v" "b = enc v @ drop len b" "len = length (enc v)"
      by (auto simp: item_ok_def)
    then have "take len b = enc v" by (metis append_eq_conv_conj)
    then show ?thesis using v(1) unfolding item_def by blast
  qed
  from Suc.prems(1) show ?case
    using Suc.IH Suc.prems(2)
    by (auto simp: result_simps get_range_def split: if_splits dest!: item)
qed simp

theorem map_value_iff:
  assumes "max_input_bytes l < 2 ^ 64"
  shows "map_value (with_limits b l) = Ok kvs \<longleftrightarrow>
    (\<exists>vs. b = enc (CMap (entry_items vs)) \<and> item_fits l (CMap (entry_items vs)) \<and> increasing (map enc_entry vs) \<and>
      kvs = map (\<lambda>(k, v). (with_limits (enc k) l, with_limits (enc v) l)) vs)"
proof
  assume ok: "map_value (with_limits b l) = Ok kvs"
  note s = map_value_sound [OF ok, simplified]
  have fin: "accepts l b" using ok assms by (auto simp: map_value_def result_simps accepts_def)
  obtain n p e where "map_items (with_limits b l) n p None = Ok (kvs, e)"
    using ok by (auto simp: map_value_def result_simps split: if_splits)
  note it = map_items_item [OF this]
  have "length (encode_map (map entry_bytes kvs)) < 2 ^ 64" using accepts_length [OF fin] s(1) by simp
  then obtain vs where vs: "cbor_wf (CMap (entry_items vs))" "canonical_entries (map entry_bytes kvs) = map enc_entry vs"
    "encode_map (map entry_bytes kvs) = enc (CMap (entry_items vs))"
    by (rule encode_map_items [rotated]) (use it in auto)
  have e: "map entry_bytes kvs = map enc_entry vs" using vs(2) canonical_entries_id [OF s(2)] by simp
  have "kvs = map (\<lambda>(k, v). (with_limits (enc k) l, with_limits (enc v) l)) vs"
  proof (rule nth_equalityI)
    show len: "length kvs = length (map (\<lambda>(k, v). (with_limits (enc k) l, with_limits (enc v) l)) vs)"
      using arg_cong [OF e, of length] by simp
    fix i assume i: "i < length kvs"
    then have "entry_bytes (kvs ! i) = enc_entry (vs ! i)" using arg_cong [OF e, of "\<lambda>xs. xs ! i"] len by simp
    moreover obtain k v where kv: "kvs ! i = (k, v)" by fastforce
    moreover have "dec_limits k = l \<and> dec_limits v = l" using s(3) [of k v] kv i by (metis nth_mem)
    ultimately show "kvs ! i = map (\<lambda>(k, v). (with_limits (enc k) l, with_limits (enc v) l)) vs ! i"
      using i len by (cases "vs ! i") (simp add: with_limits_def)
  qed
  moreover have "b = enc (CMap (entry_items vs))" using s(1) vs(3) by simp
  moreover have "item_fits l (CMap (entry_items vs))" using fin accepts_enc [OF vs(1)] calculation(2) by simp
  ultimately show "\<exists>vs. b = enc (CMap (entry_items vs)) \<and> item_fits l (CMap (entry_items vs)) \<and> increasing (map enc_entry vs) \<and>
      kvs = map (\<lambda>(k, v). (with_limits (enc k) l, with_limits (enc v) l)) vs"
    using s(2) [unfolded e] by blast
next
  assume "\<exists>vs. b = enc (CMap (entry_items vs)) \<and> item_fits l (CMap (entry_items vs)) \<and> increasing (map enc_entry vs) \<and>
      kvs = map (\<lambda>(k, v). (with_limits (enc k) l, with_limits (enc v) l)) vs"
  then show "map_value (with_limits b l) = Ok kvs" using map_value_enc assms by blast
qed

theorem map_value_complete:
  assumes acc: "accepts l (encode_map es)" and items: "\<And>k v. (k, v) \<in> set es \<Longrightarrow> item k \<and> item v"
  shows "map_value (with_limits (encode_map es) l) =
      Ok (map (\<lambda>(k, v). (with_limits k l, with_limits v l)) (canonical_entries es))"
    "(k, v) \<in> set (canonical_entries es) \<Longrightarrow> accepts l k \<and> accepts l v"
proof -
  obtain vs where vs: "cbor_wf (CMap (entry_items vs))" "canonical_entries es = map enc_entry vs"
    "encode_map es = enc (CMap (entry_items vs))"
    using encode_map_items [OF items] accepts_length [OF acc] by blast
  have fit: "item_fits l (CMap (entry_items vs))" "max_input_bytes l < 2 ^ 64"
    using acc accepts_enc [OF vs(1), of l] by (simp_all only: vs(3))
  have inc: "increasing (map enc_entry vs)" using increasing_canonical_entries [of es] vs(2) by simp
  show "map_value (with_limits (encode_map es) l) =
      Ok (map (\<lambda>(k, v). (with_limits k l, with_limits v l)) (canonical_entries es))"
    unfolding vs(3) map_value_enc [OF fit inc] vs(2) by auto
  show "(k, v) \<in> set (canonical_entries es) \<Longrightarrow> accepts l k \<and> accepts l v"
    using item_fits_CMapD(1) [OF fit(1)] fit(2) vs(2) by (force simp: accepts_iff set_entry_items)
qed

section \<open>Injectivity\<close>

lemma nodes_pos: "0 < nodes v"
  by (cases v) auto

lemma length_le_nodes: "length xs \<le> sum_list (map nodes xs)"
proof (induction xs)
  case (Cons x xs)
  then show ?case using nodes_pos [of x] by simp
qed simp

lemma nodes_child: "x \<in> set xs \<Longrightarrow> nodes x \<le> sum_list (map nodes xs)"
  by (rule member_le_sum_list) auto

lemma fits_large: "d + nodes v \<le> max_nesting_depth l \<Longrightarrow> nodes v \<le> max_collection_items l \<Longrightarrow> fits l v d"
proof (induction v arbitrary: d)
  case (Arr xs)
  then have "fits l x (Suc d)" if "x \<in> set xs" for x
    using that nodes_child [OF that] by (intro Arr.IH) auto
  then show ?case using Arr.prems length_le_nodes [of xs] by (auto simp: list_all_iff)
next
  case (CMap xs)
  then have "fits l x (Suc d)" if "x \<in> set xs" for x
    using that nodes_child [OF that] by (intro CMap.IH) auto
  then show ?case using CMap.prems length_le_nodes [of xs] by (auto simp: list_all_iff)
qed auto

lemma item_accepted: 
  assumes "item b" "length b < 2 ^ 64"
  shows "\<exists>l. accepts l b"
proof -
  obtain v where v: "cbor_wf v" "b = enc v" using assms by (auto simp: item_def)
  let ?l = "\<lparr>max_input_bytes = length b, max_nesting_depth = nodes v, max_collection_items = nodes v,
    max_total_items = nodes v\<rparr>"
  have "item_fits ?l v" using v by (simp add: item_fits_def fits_large)
  then have "accepts ?l b" using v assms by (auto simp: accepts_iff)
  then show ?thesis by blast
qed

theorem encode_array_inj:
  assumes "\<And>b. b \<in> set as \<Longrightarrow> item b" "\<And>b. b \<in> set bs \<Longrightarrow> item b"
    "encode_array as = encode_array bs" "length (encode_array as) < 2 ^ 64"
  shows "as = bs"
proof -
  obtain vs ws where "cbor_wf (Arr vs)" "as = map enc vs" "cbor_wf (Arr ws)" "bs = map enc ws"
    using encode_array_items [OF assms(1)] encode_array_items [OF assms(2)] assms(3,4) by metis
  then show ?thesis
    using enc_inj [of "Arr vs" "Arr ws"] assms(3) by (auto simp: encode_array_enc simp del: enc.simps)
qed

theorem encode_tag_inj: "encode_tag t b = encode_tag u c \<Longrightarrow> t = u \<and> b = c"
  using head_prefix [of major_TAG major_TAG t b u c] by (simp add: encode_tag_def push_head_Nil)

theorem encode_uint_inj: "encode_uint m = encode_uint n \<Longrightarrow> m = n"
  using head_prefix [of major_UINT major_UINT m "[]" n "[]"] by (simp add: encode_uint_def)

theorem encode_byte_string_inj: "encode_byte_string s = encode_byte_string t \<Longrightarrow> s = t"
  using head_prefix [of major_BYTES major_BYTES _ s _ t]
  by (simp add: encode_byte_string_def push_head_Nil)

section \<open>The contract of a wire structure\<close>

locale codec =
  fixes to_cbor :: "'a \<Rightarrow> bytes" and from_cbor :: "Decoder \<Rightarrow> Error + 'a" and valid :: "'a \<Rightarrow> bool"
  assumes encodes_item: "valid x \<Longrightarrow> item (to_cbor x)"
    and decode_valid: "from_cbor d = Ok x \<Longrightarrow> valid x"
    and decode_encode: "valid x \<Longrightarrow> accepts l (to_cbor x) \<Longrightarrow> from_cbor (with_limits (to_cbor x) l) = Ok x"
begin

lemma to_cbor_inj:
  assumes "valid x" "valid y" "to_cbor x = to_cbor y" "length (to_cbor x) < 2 ^ 64"
  shows "x = y"
proof -
  obtain l where l: "accepts l (to_cbor x)"
    using item_accepted [OF encodes_item [OF assms(1)] assms(4)] by blast
  then have "accepts l (to_cbor y)" by (simp only: assms(3))
  from decode_encode [OF assms(2) this] decode_encode [OF assms(1) l] show ?thesis
    unfolding assms(3) by simp
qed

lemma list_decode_encode:
  assumes "list_all valid xs" "accepts l (encode_array (map to_cbor xs))"
  shows "rbind (map_err Cbor (array (with_limits (encode_array (map to_cbor xs)) l) None)) (rmap from_cbor) = Ok xs"
proof -
  have items: "\<And>b. b \<in> set (map to_cbor xs) \<Longrightarrow> item b"
    using assms(1) encodes_item by (auto simp: list_all_iff)
  have "rmap from_cbor (map (\<lambda>x. with_limits (to_cbor x) l) xs) = Ok (map (\<lambda>x. x) xs)"
  proof (rule rmap_map_Inr)
    fix x assume x: "x \<in> set xs"
    then have "accepts l (to_cbor x)" by (intro array_accepts [OF assms(2) items]) auto
    then show "from_cbor (with_limits (to_cbor x) l) = Ok x"
      using x assms(1) decode_encode by (auto simp: list_all_iff)
  qed
  then show ?thesis using array_complete [OF assms(2) items, of None] by (simp add: comp_def)
qed

lemma list_item: "list_all valid xs \<Longrightarrow> item (encode_array (map to_cbor xs))"
  by (rule item_encode_array) (use encodes_item in \<open>auto simp: list_all_iff\<close>)

end

locale canonical_codec = codec +
  assumes encode_decode: "from_cbor d = Ok x \<Longrightarrow> to_cbor x = dec_bytes d"
begin

lemma list_encode_decode:
  assumes "array d e = Ok ds" "rmap from_cbor ds = Ok xs"
  shows "encode_array (map to_cbor xs) = dec_bytes d"
proof -
  have "map to_cbor xs = map dec_bytes ds"
    using assms(2) encode_decode
    by (auto simp: rmap_Inr_iff list_all2_conv_all_nth intro: nth_equalityI)
  then show ?thesis using array_sound(1) [OF assms(1)] by simp
qed

lemma decode_same: "from_cbor d = Ok x \<Longrightarrow> from_cbor d' = Ok x \<Longrightarrow> dec_bytes d = dec_bytes d'"
  using encode_decode by metis

end

end
