(* ===== verification/Hash.thy ===== *)
theory Hash
  imports Cbor_Access
begin

text \<open>
  Hash algorithms, digests and imprints (\<open>src/src/crypto/hash.rs\<close>). The SHA-2 family itself is the
  crate \<open>sha2\<close>: a parameter \<open>sha2\<close> that maps an algorithm and the whole input to the digest. The
  streaming hasher keeps the input fed so far. What the code relies on is the digest length,
  \<open>sha2_lengths\<close>. Collision resistance is never assumed: where it matters, the theorems exhibit the
  collision, \<open>collides\<close>.
\<close>

section \<open>Definitions\<close>

datatype HashAlgorithm = Sha256 | Sha224 | Sha384 | Sha512 | Ripemd160

primrec alg_id :: "HashAlgorithm \<Rightarrow> u16" where
  "alg_id Sha256 = 0"
| "alg_id Sha224 = 1"
| "alg_id Sha384 = 2"
| "alg_id Sha512 = 3"
| "alg_id Ripemd160 = 4"

primrec alg_length :: "HashAlgorithm \<Rightarrow> usize" where
  "alg_length Sha256 = 32"
| "alg_length Sha224 = 28"
| "alg_length Sha384 = 48"
| "alg_length Sha512 = 64"
| "alg_length Ripemd160 = 20"

definition from_id :: "u16 \<Rightarrow> Error + HashAlgorithm" where
  "from_id i =
     (if i = 0 then Ok Sha256 else if i = 1 then Ok Sha224 else if i = 2 then Ok Sha384
      else if i = 3 then Ok Sha512 else if i = 4 then Ok Ripemd160
      else Err (UnknownHashAlgorithm i))"

record DataHash =
  dh_algorithm :: HashAlgorithm
  dh_data :: bytes

definition DataHash_new :: "HashAlgorithm \<Rightarrow> bytes \<Rightarrow> Error + DataHash" where
  "DataHash_new algorithm data =
     (if length data \<noteq> alg_length algorithm
      then Err (InvalidLength ''DataHash digest'' (alg_length algorithm) (length data))
      else Ok \<lparr>dh_algorithm = algorithm, dh_data = data\<rparr>)"

definition from_imprint :: "bytes \<Rightarrow> Error + DataHash" where
  "from_imprint imprint =
     (if length imprint < 3 then Err (InvalidLength ''DataHash imprint'' 3 (length imprint))
      else rbind (from_id (from_be_bytes (take 2 imprint)))
        (\<lambda>algorithm. DataHash_new algorithm (drop 2 imprint)))"

definition imprint :: "DataHash \<Rightarrow> bytes" where
  "imprint h = to_be_bytes (alg_id (dh_algorithm h)) @ dh_data h"

type_synonym sha2 = "HashAlgorithm \<Rightarrow> bytes \<Rightarrow> bytes"

record DataHasher =
  hr_algorithm :: HashAlgorithm
  hr_input :: bytes

definition DataHasher_new :: "HashAlgorithm \<Rightarrow> Error + DataHasher" where
  "DataHasher_new algorithm =
     (if algorithm = Ripemd160 then Err (Crypto ''RIPEMD-160 not supported'')
      else Ok \<lparr>hr_algorithm = algorithm, hr_input = []\<rparr>)"

definition update :: "bytes \<Rightarrow> DataHasher \<Rightarrow> DataHasher" where
  "update data h = h\<lparr>hr_input := hr_input h @ data\<rparr>"

definition finalize :: "sha2 \<Rightarrow> DataHasher \<Rightarrow> DataHash" where
  "finalize sha2 h = \<lparr>dh_algorithm = hr_algorithm h, dh_data = sha2 (hr_algorithm h) (hr_input h)\<rparr>"

text \<open>\<open>DataHasher::new(HashAlgorithm::Sha256).expect(..)\<close>, which cannot fail.\<close>

definition sha256_hasher :: DataHasher where
  "sha256_hasher = (case DataHasher_new Sha256 of Inr h \<Rightarrow> h
     | Inl _ \<Rightarrow> \<lparr>hr_algorithm = Sha256, hr_input = []\<rparr>)"

definition sha256 :: "sha2 \<Rightarrow> bytes \<Rightarrow> DataHash" where
  "sha256 sha2 data = \<lparr>dh_algorithm = Sha256, dh_data = sha2 Sha256 data\<rparr>"

section \<open>What the code relies on\<close>

definition sha2_lengths :: "sha2 \<Rightarrow> bool" where
  "sha2_lengths sha2 \<longleftrightarrow> (\<forall>a x. length (sha2 a x) = alg_length a)"

text \<open>A collision of the digest function between two sets of inputs.\<close>

definition collides :: "sha2 \<Rightarrow> bytes set \<Rightarrow> bytes set \<Rightarrow> bool" where
  "collides sha2 A B \<longleftrightarrow> (\<exists>x\<in>A. \<exists>y\<in>B. x \<noteq> y \<and> sha2 Sha256 x = sha2 Sha256 y)"

section \<open>Lemmas\<close>

lemma hr_update [simp]:
  "hr_input (update d h) = hr_input h @ d" "hr_algorithm (update d h) = hr_algorithm h"
  by (simp_all add: update_def)

lemma hr_sha256_hasher [simp]:
  "hr_input sha256_hasher = []" "hr_algorithm sha256_hasher = Sha256"
  by (simp_all add: sha256_hasher_def DataHasher_new_def)

lemma finalize_sha256:
  "hr_algorithm h = Sha256 \<Longrightarrow> finalize sha2 h = sha256 sha2 (hr_input h)"
  by (simp add: finalize_def sha256_def)

lemma dh_sha256 [simp]: "dh_data (sha256 sha2 x) = sha2 Sha256 x" "dh_algorithm (sha256 sha2 x) = Sha256"
  by (simp_all add: sha256_def)

lemma sha256_eq_iff [simp]: "sha256 sha2 x = sha256 sha2 y \<longleftrightarrow> sha2 Sha256 x = sha2 Sha256 y"
  by (simp add: sha256_def)

lemma collidesI: "x \<in> A \<Longrightarrow> y \<in> B \<Longrightarrow> sha2 Sha256 x = sha2 Sha256 y \<Longrightarrow> x \<noteq> y \<Longrightarrow> collides sha2 A B"
  by (auto simp: collides_def)

lemma collides_mono: "collides sha2 A B \<Longrightarrow> A \<subseteq> A' \<Longrightarrow> B \<subseteq> B' \<Longrightarrow> collides sha2 A' B'"
  by (auto simp: collides_def)

lemma from_id_iff: "from_id i = Ok a \<longleftrightarrow> i = alg_id a"
  by (cases a) (auto simp: from_id_def)

text \<open>A digest of the right length is determined by its imprint and read back from it.\<close>

definition DataHash_wf :: "DataHash \<Rightarrow> bool" where
  "DataHash_wf h \<longleftrightarrow> length (dh_data h) = alg_length (dh_algorithm h)"

lemma DataHash_new_Ok_iff [result_simps]:
  "DataHash_new a b = Ok h \<longleftrightarrow> h = \<lparr>dh_algorithm = a, dh_data = b\<rparr> \<and> DataHash_wf h"
  by (auto simp: DataHash_new_def DataHash_wf_def)

lemma imprint_take_drop:
  "take 2 (imprint h) = to_be_bytes (alg_id (dh_algorithm h))" "drop 2 (imprint h) = dh_data h"
  by (simp_all add: imprint_def)

lemma from_imprint_imprint:
  assumes "DataHash_wf h"
  shows "from_imprint (imprint h) = Ok h"
proof -
  have "length (imprint h) \<ge> 3"
    using assms by (cases "dh_algorithm h") (auto simp: imprint_def DataHash_wf_def)
  moreover have "from_id (from_be_bytes (to_be_bytes (alg_id (dh_algorithm h)))) = Ok (dh_algorithm h)"
    by (simp add: from_to_be_bytes from_id_iff)
  ultimately show ?thesis
    using assms by (simp add: from_imprint_def imprint_take_drop DataHash_new_Ok_iff)
qed

lemma imprint_from_imprint:
  assumes "from_imprint b = Ok h"
  shows "imprint h = b" "DataHash_wf h"
proof -
  have len: "3 \<le> length b" and a: "from_be_bytes (take 2 b) = alg_id (dh_algorithm h)"
    and h: "dh_data h = drop 2 b" "DataHash_wf h"
    using assms by (auto simp: from_imprint_def result_simps from_id_iff)
  have "to_be_bytes (from_be_bytes (take 2 b) :: u16) = take 2 b"
    using len by (intro to_from_be_bytes) simp
  then show "imprint h = b" by (simp add: imprint_def a [symmetric] h)
  show "DataHash_wf h" by (rule h(2))
qed

end
