(* ===== verification/Radix.thy ===== *)
theory Radix
  imports Hash
begin

text \<open>
  Bit addressing and path folding of the radix sparse Merkle trees (\<open>src/src/radix.rs\<close>). Keys,
  bitmaps and siblings are the 32-byte arrays of the source; the bit indices used are below 256, so
  the assertions of the source hold. \<open>path_preimages\<close> lists what the fold hashes, so that the
  soundness theorems can name the collision that a forgery would give.
\<close>

section \<open>Definitions\<close>

definition KEY_BITS :: usize where "KEY_BITS = 256"
definition MAX_DEPTH :: usize where "MAX_DEPTH = KEY_BITS - 1"

definition bit_at :: "bytes \<Rightarrow> usize \<Rightarrow> bool" where
  "bit_at data index =
     (let byte_index = index div 8; bit_in_byte = index mod 8
      in (data ! byte_index) AND drop_bit bit_in_byte 0x80 \<noteq> 0)"

definition prefix_region :: "bytes \<Rightarrow> usize \<Rightarrow> bytes" where
  "prefix_region key depth =
     (let full_bytes = depth div 8; prefix_bits = depth mod 8;
          region = take full_bytes key @ drop full_bytes (replicate 32 0)
      in if prefix_bits \<noteq> 0
         then region[full_bytes := (key ! full_bytes) AND push_bit (8 - prefix_bits) 0xff]
         else region)"

definition leaf_preimage :: "bytes \<Rightarrow> bytes \<Rightarrow> bytes" where
  "leaf_preimage key val = hr_input (update val (update key (update [0x00] sha256_hasher)))"

definition node_preimage :: "usize \<Rightarrow> bytes \<Rightarrow> bytes \<Rightarrow> bytes \<Rightarrow> bytes" where
  "node_preimage depth region left right =
     hr_input (update right (update left (update region
       (update [0x01, word_of_nat depth] sha256_hasher))))"

text \<open>The loop over the depths; the state is the hash so far and the position in the siblings.\<close>

fun fold_depths ::
  "sha2 \<Rightarrow> bytes \<Rightarrow> bytes list \<Rightarrow> bytes \<Rightarrow> bytes \<Rightarrow> nat list \<Rightarrow> DataHash \<times> usize \<Rightarrow> (DataHash \<times> usize) option"
where
  "fold_depths sha2 bitmap siblings target_key terminal_key [] st = Some st"
| "fold_depths sha2 bitmap siblings target_key terminal_key (depth # ds) (hash, position) =
     (if \<not> bit_at bitmap depth
      then fold_depths sha2 bitmap siblings target_key terminal_key ds (hash, position)
      else if position = 0 \<or> bit_at target_key depth \<noteq> bit_at terminal_key depth then None
      else
        let sibling = siblings ! (position - 1);
            region = prefix_region terminal_key depth;
            node = update region (update [0x01, word_of_nat depth] sha256_hasher);
            hash' = finalize sha2 (if bit_at terminal_key depth
                      then update (dh_data hash) (update sibling node)
                      else update sibling (update (dh_data hash) node))
        in fold_depths sha2 bitmap siblings target_key terminal_key ds (hash', position - 1))"

definition fold_certificate_path ::
  "sha2 \<Rightarrow> bytes \<Rightarrow> bytes list \<Rightarrow> bytes \<Rightarrow> bytes \<Rightarrow> bytes \<Rightarrow> DataHash option"
where
  "fold_certificate_path sha2 bitmap siblings target_key terminal_key terminal_value =
     (let hash = finalize sha2 (update terminal_value (update terminal_key
                   (update [0x00] sha256_hasher)))
      in case fold_depths sha2 bitmap siblings target_key terminal_key (rev [0..<KEY_BITS])
                (hash, length siblings) of
           None \<Rightarrow> None
         | Some (hash, position) \<Rightarrow> if position = 0 then Some hash else None)"

section \<open>Bits\<close>

lemma depths_range: "rev [0..<KEY_BITS] = rev [0..<Suc MAX_DEPTH]"
  by (simp add: KEY_BITS_def MAX_DEPTH_def)

lemma bit_at_bit:
  assumes "i < 8 * length data"
  shows "bit_at data i = bit (data ! (i div 8)) (7 - i mod 8)"
proof -
  have "drop_bit (i mod 8) (0x80 :: u8) = push_bit (7 - i mod 8) 1"
  proof -
    have "i mod 8 < 8" by simp
    then consider "i mod 8 = 0" | "i mod 8 = 1" | "i mod 8 = 2" | "i mod 8 = 3" | "i mod 8 = 4"
      | "i mod 8 = 5" | "i mod 8 = 6" | "i mod 8 = 7" by linarith
    then show ?thesis by cases simp_all
  qed
  then show ?thesis by (simp add: bit_at_def bit_iff_and_push_bit_not_eq_0)
qed

lemma bit_at_ext:
  assumes "length a = n" "length b = n" "\<And>i. i < 8 * n \<Longrightarrow> bit_at a i = bit_at b i"
  shows "a = b"
proof (rule nth_equalityI)
  show "length a = length b" using assms by simp
next
  fix j assume j: "j < length a"
  show "a ! j = b ! j"
  proof (rule bit_eqI)
    fix k assume "possible_bit TYPE(8 word) k"
    then have k: "k < 8" by (simp add: possible_bit_def)
    let ?i = "8 * j + (7 - k)"
    have "?i < 8 * n" using j k assms(1) by linarith
    moreover have "7 - k < 8" by simp
    then have "?i mod 8 = 7 - k" by (simp only: mod_mult_self4 mod_less)
    then have "?i div 8 = j" "7 - ?i mod 8 = k" using k by simp_all
    ultimately show "bit (a ! j) k = bit (b ! j) k"
      using assms bit_at_bit [of ?i a] bit_at_bit [of ?i b] by metis
  qed
qed

lemma length_prefix_region [simp]: "length k = 32 \<Longrightarrow> d < 256 \<Longrightarrow> length (prefix_region k d) = 32"
  by (auto simp: prefix_region_def Let_def)

lemma bit_mask_byte:
  assumes "0 < p" "p < 8" "j < 8"
  shows "bit (push_bit (8 - p) (0xff :: u8)) (7 - j) \<longleftrightarrow> j < p"
proof -
  have "bit (0xff :: u8) n" if "n < 8" for n
  proof -
    have "(0xff :: u8) = mask 8" by (simp add: mask_eq_exp_minus_1)
    then show ?thesis using that by (simp only: bit_mask_iff) simp
  qed
  then show ?thesis using assms by (auto simp: bit_push_bit_iff)
qed

text \<open>A region keeps the bits before its depth and clears the others.\<close>

lemma bit_at_prefix_region:
  assumes "length k = 32" "d < 256" "i < 256"
  shows "bit_at (prefix_region k d) i \<longleftrightarrow> i < d \<and> bit_at k i"
proof -
  have b: "i div 8 < 32" "d div 8 < 32" "i mod 8 < 8" using assms by auto
  have bits: "bit_at k i = bit (k ! (i div 8)) (7 - i mod 8)"
    "bit_at (prefix_region k d) i = bit (prefix_region k d ! (i div 8)) (7 - i mod 8)"
    using assms by (simp_all add: bit_at_bit)
  consider (before) "i div 8 < d div 8" | (at) "i div 8 = d div 8" | (after) "d div 8 < i div 8"
    by linarith
  then show ?thesis
  proof cases
    case before
    then have "i < d" by (metis div_le_mono leD leI)
    moreover have "prefix_region k d ! (i div 8) = k ! (i div 8)"
      using before b assms by (auto simp: prefix_region_def Let_def nth_append)
    ultimately show ?thesis using bits by simp
  next
    case at
    then have lt: "i < d \<longleftrightarrow> i mod 8 < d mod 8" by (metis div_mult_mod_eq nat_add_left_cancel_less)
    show ?thesis
      using at b assms lt bits bit_mask_byte [of "d mod 8" "i mod 8"]
      by (auto simp: prefix_region_def Let_def nth_append bit_and_iff)
  next
    case after
    then have "\<not> i < d" by (metis div_le_mono leD less_or_eq_imp_le)
    moreover have "prefix_region k d ! (i div 8) = 0"
      using after b assms by (auto simp: prefix_region_def Let_def nth_append)
    ultimately show ?thesis using bits by simp
  qed
qed

lemma prefix_region_eq_iff:
  assumes "length k = 32" "length k' = 32" "d < 256"
  shows "prefix_region k d = prefix_region k' d \<longleftrightarrow> (\<forall>i<d. bit_at k i = bit_at k' i)"
proof
  assume eq: "prefix_region k d = prefix_region k' d"
  show "\<forall>i<d. bit_at k i = bit_at k' i"
  proof (intro allI impI)
    fix i assume "i < d"
    then show "bit_at k i = bit_at k' i"
      using bit_at_prefix_region [of k d i] bit_at_prefix_region [of k' d i] assms eq by auto
  qed
next
  assume "\<forall>i<d. bit_at k i = bit_at k' i"
  then show "prefix_region k d = prefix_region k' d"
    using assms by (intro bit_at_ext [where n = 32]) (auto simp: bit_at_prefix_region)
qed

section \<open>What a path hashes\<close>

definition step_preimage :: "bytes list \<Rightarrow> bytes \<Rightarrow> nat \<Rightarrow> DataHash \<times> nat \<Rightarrow> bytes" where
  "step_preimage siblings k d st =
     (let s = siblings ! (snd st - 1); h = dh_data (fst st)
      in node_preimage d (prefix_region k d) (if bit_at k d then s else h) (if bit_at k d then h else s))"

fun fold_trace ::
  "sha2 \<Rightarrow> bytes \<Rightarrow> bytes list \<Rightarrow> bytes \<Rightarrow> bytes \<Rightarrow> nat list \<Rightarrow> DataHash \<times> usize \<Rightarrow> bytes list"
where
  "fold_trace sha2 bitmap siblings t k [] st = []"
| "fold_trace sha2 bitmap siblings t k (d # ds) st =
     (if \<not> bit_at bitmap d then fold_trace sha2 bitmap siblings t k ds st
      else if snd st = 0 \<or> bit_at t d \<noteq> bit_at k d then []
      else step_preimage siblings k d st #
        fold_trace sha2 bitmap siblings t k ds (sha256 sha2 (step_preimage siblings k d st), snd st - 1))"

definition path_preimages ::
  "sha2 \<Rightarrow> bytes \<Rightarrow> bytes list \<Rightarrow> bytes \<Rightarrow> bytes \<Rightarrow> bytes \<Rightarrow> nat \<Rightarrow> bytes list" where
  "path_preimages sha2 bitmap siblings t k v d =
     leaf_preimage k v # fold_trace sha2 bitmap siblings t k (rev [d..<KEY_BITS])
       (sha256 sha2 (leaf_preimage k v), length siblings)"

text \<open>The state of the fold after the depths from \<open>d\<close> on, deepest first.\<close>

definition path_at ::
  "sha2 \<Rightarrow> bytes \<Rightarrow> bytes list \<Rightarrow> bytes \<Rightarrow> bytes \<Rightarrow> bytes \<Rightarrow> nat \<Rightarrow> (DataHash \<times> usize) option" where
  "path_at sha2 bitmap siblings t k v d =
     fold_depths sha2 bitmap siblings t k (rev [d..<KEY_BITS])
       (sha256 sha2 (leaf_preimage k v), length siblings)"

lemma leaf_preimage_eq: "leaf_preimage k v = 0x00 # k @ v"
  by (simp add: leaf_preimage_def)

lemma node_preimage_eq: "node_preimage d rg l r = 0x01 # word_of_nat d # rg @ l @ r"
  by (simp add: node_preimage_def)

lemma fold_depths_Cons:
  "fold_depths sha2 bm sibs t k (d # ds) st =
     (if \<not> bit_at bm d then fold_depths sha2 bm sibs t k ds st
      else if snd st = 0 \<or> bit_at t d \<noteq> bit_at k d then None
      else fold_depths sha2 bm sibs t k ds (sha256 sha2 (step_preimage sibs k d st), snd st - 1))"
  by (cases st) (simp add: step_preimage_def node_preimage_def Let_def finalize_sha256)

lemma fold_depths_append:
  "fold_depths sha2 bm sibs t k (xs @ ys) st =
     (case fold_depths sha2 bm sibs t k xs st of None \<Rightarrow> None
      | Some st' \<Rightarrow> fold_depths sha2 bm sibs t k ys st')"
  by (induction xs arbitrary: st) (simp_all add: fold_depths_Cons)

lemma fold_trace_append:
  "fold_trace sha2 bm sibs t k (xs @ ys) st =
     fold_trace sha2 bm sibs t k xs st @
     (case fold_depths sha2 bm sibs t k xs st of None \<Rightarrow> []
      | Some st' \<Rightarrow> fold_trace sha2 bm sibs t k ys st')"
  by (induction xs arbitrary: st) (simp_all add: fold_depths_Cons)

lemma depths_step: "d < 256 \<Longrightarrow> rev [d..<256] = rev [Suc d..<256] @ [d]"
  by (simp add: upt_conv_Cons)

lemma path_at_step:
  assumes "d < 256"
  shows "path_at sha2 bm sibs t k v d = (case path_at sha2 bm sibs t k v (Suc d) of None \<Rightarrow> None
     | Some st \<Rightarrow> if \<not> bit_at bm d then Some st
         else if snd st = 0 \<or> bit_at t d \<noteq> bit_at k d then None
         else Some (sha256 sha2 (step_preimage sibs k d st), snd st - 1))"
  unfolding path_at_def KEY_BITS_def depths_step [OF assms] fold_depths_append
  by (auto simp: fold_depths_Cons split: option.splits)

lemma path_preimages_step:
  assumes "d < 256" "path_at sha2 bm sibs t k v (Suc d) = Some st"
  shows "path_preimages sha2 bm sibs t k v d = path_preimages sha2 bm sibs t k v (Suc d) @
     (if \<not> bit_at bm d then [] else if snd st = 0 \<or> bit_at t d \<noteq> bit_at k d then []
      else [step_preimage sibs k d st])"
  using assms(2)
  unfolding path_preimages_def path_at_def KEY_BITS_def depths_step [OF assms(1)] fold_trace_append
  by (auto split: option.splits)

lemma fold_certificate_path_eq:
  "fold_certificate_path sha2 bm sibs t k v = (case path_at sha2 bm sibs t k v 0 of None \<Rightarrow> None
     | Some (h, p) \<Rightarrow> if p = 0 then Some h else None)"
  by (simp add: fold_certificate_path_def path_at_def leaf_preimage_def finalize_sha256)

section \<open>Soundness\<close>

text \<open>The well-formedness that the array types of the source give.\<close>

definition path_wf :: "bytes list \<Rightarrow> bytes \<Rightarrow> bool" where
  "path_wf sibs k \<longleftrightarrow> length k = 32 \<and> list_all (\<lambda>s. length s = 32) sibs"

text \<open>The input whose digest the fold holds at depth \<open>d\<close>: the leaf, or a node at \<open>d\<close> or below.\<close>

definition top_shape :: "bytes \<Rightarrow> bytes \<Rightarrow> nat \<Rightarrow> bytes \<Rightarrow> bool" where
  "top_shape k v d x \<longleftrightarrow>
     x = leaf_preimage k v \<or> (\<exists>e rg l r. d \<le> e \<and> e < 256 \<and> x = node_preimage e rg l r)"

lemma top_shape_Suc: "top_shape k v (Suc d) x \<Longrightarrow> top_shape k v d x"
  unfolding top_shape_def by (metis Suc_leD)

lemma top_shape_step: "d < 256 \<Longrightarrow> top_shape k v d (step_preimage sibs k d st)"
  unfolding top_shape_def step_preimage_def Let_def by blast

lemma path_at_top:
  assumes "d \<le> 256" "path_at sha2 bm sibs t k v d = Some (h, p)"
  shows "\<exists>x\<in>set (path_preimages sha2 bm sibs t k v d).
     h = sha256 sha2 x \<and> top_shape k v d x \<and> p \<le> length sibs"
  using assms
proof (induction d arbitrary: h p rule: inc_induct)
  case base
  then show ?case by (auto simp: path_at_def path_preimages_def KEY_BITS_def top_shape_def)
next
  case (step d)
  then obtain st where st: "path_at sha2 bm sibs t k v (Suc d) = Some st"
    by (auto simp: path_at_step split: option.splits)
  obtain h' p' where [simp]: "st = (h', p')" by (cases st)
  note ih = step.IH [of h' p'] and pre = path_preimages_step [OF step.hyps(2) st]
  show ?case
  proof (cases "bit_at bm d")
    case False
    then have "h = h'" "p = p'" using step.prems st step.hyps by (auto simp: path_at_step)
    then show ?thesis using ih st pre False by (auto intro: top_shape_Suc)
  next
    case True
    then have eq: "p' \<noteq> 0" "bit_at t d = bit_at k d" "h = sha256 sha2 (step_preimage sibs k d st)" "p = p' - 1"
      using step.prems st step.hyps by (auto simp: path_at_step split: if_splits)
    have "p' \<le> length sibs" using ih st by auto
    then show ?thesis using True eq pre top_shape_step [OF step.hyps(2)]
      by (intro bexI [of _ "step_preimage sibs k d st"]) auto
  qed
qed

lemma leaf_node_distinct: "leaf_preimage k v \<noteq> node_preimage d rg l r"
  by (simp add: leaf_preimage_eq node_preimage_eq)

lemma node_preimage_inject:
  assumes "node_preimage d rg l r = node_preimage e rg' l' r'" "d < 256" "e < 256"
  shows "d = e" "rg @ l @ r = rg' @ l' @ r'"
proof -
  have "unat (word_of_nat d :: u8) = d" "unat (word_of_nat e :: u8) = e"
    using assms by (simp_all add: unat_of_nat)
  then show "d = e" using assms(1) by (metis list.inject node_preimage_eq)
  show "rg @ l @ r = rg' @ l' @ r'" using assms(1) by (simp add: node_preimage_eq)
qed

lemma leaf_preimage_inject:
  "length k = length k' \<Longrightarrow> leaf_preimage k v = leaf_preimage k' v' \<Longrightarrow> k = k' \<and> v = v'"
  by (simp add: leaf_preimage_eq)

lemma top_shape_above: 
  assumes "top_shape k v (Suc d) x" "d < 256"
  shows "x \<noteq> step_preimage sibs k' d st"
  using assms node_preimage_inject(1) [of _ _ _ _ d] leaf_node_distinct
  unfolding top_shape_def step_preimage_def Let_def by (metis Suc_n_not_le_n)

lemma step_preimage_inject:
  assumes "step_preimage sibs k d (h, p) = step_preimage sibs' k' d (h', p')" "bit_at k d = bit_at k' d"
    "d < 256" "path_wf sibs k" "path_wf sibs' k'" "length (dh_data h) = 32" "length (dh_data h') = 32"
    "0 < p" "p \<le> length sibs" "0 < p'" "p' \<le> length sibs'"
  shows "dh_data h = dh_data h'"
proof -
  have "length (sibs ! (p - 1)) = 32" "length (sibs' ! (p' - 1)) = 32" "length k = 32" "length k' = 32"
    using assms by (auto simp: path_wf_def list_all_length)
  then show ?thesis
    using assms node_preimage_inject(2) [OF assms(1) [unfolded step_preimage_def Let_def]]
    by (auto split: if_splits)
qed

lemma path_at_cases:
  assumes "d < 256" "path_at sha2 bm sibs t k v (Suc d) = Some (g, q)"
    "path_at sha2 bm sibs t k v d = Some (h, p)"
  obtains (skip) "h = g"
  | (node) "0 < q" "bit_at t d = bit_at k d" "h = sha256 sha2 (step_preimage sibs k d (g, q))"
      "step_preimage sibs k d (g, q) \<in> set (path_preimages sha2 bm sibs t k v d)"
  using assms(3) path_at_step [OF assms(1)] assms(2) path_preimages_step [OF assms(1,2)]
  by (auto split: if_splits)

text \<open>Two paths for one target that agree on the digest at a depth end in the same leaf, or they
  exhibit a collision.\<close>

lemma path_at_unique:
  assumes sha: "sha2_lengths sha2" and wf: "path_wf sibs k" "path_wf sibs' k'"
    and "d \<le> 256"
    "path_at sha2 bm sibs t k v d = Some (h, p)" "path_at sha2 bm' sibs' t k' v' d = Some (h, p')"
  shows "k = k' \<and> v = v' \<or> collides sha2 (set (path_preimages sha2 bm sibs t k v d))
     (set (path_preimages sha2 bm' sibs' t k' v' d))"
  using assms(4-)
proof (induction d arbitrary: h p p' rule: inc_induct)
  case base
  then have h: "sha2 Sha256 (leaf_preimage k v) = sha2 Sha256 (leaf_preimage k' v')"
    by (auto simp: path_at_def KEY_BITS_def)
  show ?case
  proof (cases "leaf_preimage k v = leaf_preimage k' v'")
    case True
    then show ?thesis using leaf_preimage_inject [OF _ True] wf by (simp add: path_wf_def)
  next
    case False
    then show ?thesis using h by (auto intro!: collidesI simp: path_preimages_def KEY_BITS_def)
  qed
next
  case (step d)
  let ?pre = "\<lambda>d. set (path_preimages sha2 bm sibs t k v d)"
  let ?pre' = "\<lambda>d. set (path_preimages sha2 bm' sibs' t k' v' d)"
  have "Suc d \<le> 256" using step.hyps by simp
  obtain g q g' q' where st: "path_at sha2 bm sibs t k v (Suc d) = Some (g, q)"
      "path_at sha2 bm' sibs' t k' v' (Suc d) = Some (g', q')"
    using step.prems step.hyps by (auto simp: path_at_step split: option.splits)
  note pre = path_preimages_step [OF step.hyps(2) st(1)] path_preimages_step [OF step.hyps(2) st(2)]
  have sub: "?pre (Suc d) \<subseteq> ?pre d" "?pre' (Suc d) \<subseteq> ?pre' d" using pre by auto
  obtain x y where x: "x \<in> ?pre (Suc d)" "g = sha256 sha2 x" "top_shape k v (Suc d) x" "q \<le> length sibs"
    and y: "y \<in> ?pre' (Suc d)" "g' = sha256 sha2 y" "top_shape k' v' (Suc d) y" "q' \<le> length sibs'"
    using path_at_top [OF _ st(1)] path_at_top [OF _ st(2)] step.hyps(2) by (metis Suc_leI)
  have len: "length (dh_data g) = 32" "length (dh_data g') = 32"
    using sha x y by (simp_all add: sha2_lengths_def)
  let ?x = "step_preimage sibs k d (g, q)" and ?y = "step_preimage sibs' k' d (g', q')"
  have below: "k = k' \<and> v = v' \<or> collides sha2 (?pre d) (?pre' d)" if "g = g'"
    using step.IH [of g q q'] st that collides_mono [OF _ sub] by blast
  from step.hyps(2) st(1) step.prems(1) show ?case
  proof (cases rule: path_at_cases)
    case skip
    from step.hyps(2) st(2) step.prems(2) show ?thesis
    proof (cases rule: path_at_cases)
      case skip': skip
      then show ?thesis using below skip by simp
    next
      case node
      then show ?thesis using skip x sub top_shape_above [OF x(3) step.hyps(2)]
        by (intro disjI2 collidesI [of x _ ?y]) auto
    qed
  next
    case node
    from step.hyps(2) st(2) step.prems(2) show ?thesis
    proof (cases rule: path_at_cases)
      case skip
      then show ?thesis using node y sub top_shape_above [OF y(3) step.hyps(2), of sibs k "(g, q)"]
        by (intro disjI2 collidesI [of ?x _ y]) auto
    next
      case node': node
      show ?thesis
      proof (cases "?x = ?y")
        case True
        then have "dh_data g = dh_data g'"
          using step_preimage_inject [OF True] node node' step.hyps wf len x(4) y(4) by simp
        then show ?thesis using below x y by simp
      next
        case False
        then show ?thesis using node node' by (intro disjI2 collidesI [of ?x _ ?y]) auto
      qed
    qed
  qed
qed

text \<open>The two readings of the same fact at the root.\<close>

lemma fold_certificate_path_unique:
  assumes "sha2_lengths sha2" "path_wf sibs k" "path_wf sibs' k'"
    and "fold_certificate_path sha2 bm sibs t k v = Some root"
    "fold_certificate_path sha2 bm' sibs' t k' v' = Some root"
  shows "k = k' \<and> v = v' \<or> collides sha2 (set (path_preimages sha2 bm sibs t k v 0))
     (set (path_preimages sha2 bm' sibs' t k' v' 0))"
proof -
  have "path_at sha2 bm sibs t k v 0 = Some (root, 0)" "path_at sha2 bm' sibs' t k' v' 0 = Some (root, 0)"
    using assms(4,5) by (auto simp: fold_certificate_path_eq split: option.splits if_splits)
  then show ?thesis by (rule path_at_unique [OF assms(1-3), of 0, simplified])
qed

lemma fold_certificate_path_sha256:
  "fold_certificate_path sha2 bm sibs t k v = Some root \<Longrightarrow> dh_algorithm root = Sha256"
  using path_at_top [of 0 sha2 bm sibs t k v]
  by (auto simp: fold_certificate_path_eq split: option.splits if_splits)

end
