(* ===== verification/Shard_Id.thy ===== *)
theory Shard_Id
  imports Radix
begin

text \<open>
  Shard ids (\<open>src/src/api/bft/shard_id.rs\<close>): bit strings packed MSB-first, with an end marker on the
  wire. The abstract view of a shard id is its list of bits, \<open>shard_bits\<close>; every operation is shown
  to compute the corresponding operation on lists. Indexing past the end, which panics in the source,
  does not happen for a well-formed id (\<open>ShardId_wf\<close>).
\<close>

section \<open>Definitions\<close>

record ShardId =
  sh_bits :: bytes
  sh_length :: usize

definition ShardId_root :: ShardId where
  "ShardId_root = \<lparr>sh_bits = [], sh_length = 0\<rparr>"

definition div_ceil :: "nat \<Rightarrow> nat \<Rightarrow> nat" where
  "div_ceil a b = (if a mod b = 0 then a div b else a div b + 1)"

definition ShardId_prefix :: "ShardId \<Rightarrow> usize \<Rightarrow> ShardId option" where
  "ShardId_prefix s len =
     (if len > sh_length s then None
      else
        let bits = take (div_ceil len 8) (sh_bits s);
            bits' = (if len mod 8 \<noteq> 0 \<and> bits \<noteq> []
                     then bits[length bits - 1 := last bits AND push_bit (8 - len mod 8) 0xff]
                     else bits)
        in Some \<lparr>sh_bits = bits', sh_length = len\<rparr>)"

definition ShardId_split :: "ShardId \<Rightarrow> ShardId \<times> ShardId" where
  "ShardId_split s =
     (let len = sh_length s + 1;
          zero = (if sh_length s mod 8 = 0 then sh_bits s @ [0] else sh_bits s);
          one = (if zero \<noteq> [] then zero[length zero - 1 := last zero OR push_bit (7 - sh_length s mod 8) 1]
                 else zero)
      in (\<lparr>sh_bits = zero, sh_length = len\<rparr>, \<lparr>sh_bits = one, sh_length = len\<rparr>))"

definition ShardId_sibling :: "ShardId \<Rightarrow> ShardId option" where
  "ShardId_sibling s =
     (if sh_length s = 0 then None
      else
        let lst = (sh_length s - 1) div 8
        in Some \<lparr>sh_bits = (sh_bits s)[lst := (sh_bits s ! lst) XOR push_bit (7 - (sh_length s - 1) mod 8) 1],
                 sh_length = sh_length s\<rparr>)"

definition bit_value :: "bytes \<Rightarrow> nat \<Rightarrow> u8" where
  "bit_value bits i = drop_bit (7 - i mod 8) (bits ! (i div 8)) AND 1"

fun cmp_bits :: "(nat \<Rightarrow> u8) \<Rightarrow> (nat \<Rightarrow> u8) \<Rightarrow> nat list \<Rightarrow> ordering \<Rightarrow> ordering" where
  "cmp_bits a b [] final = final"
| "cmp_bits a b (i # is) final = (if a i \<noteq> b i then cmp_u8 (a i) (b i) else cmp_bits a b is final)"

definition canonical_cmp :: "ShardId \<Rightarrow> ShardId \<Rightarrow> ordering" where
  "canonical_cmp s t =
     cmp_bits (bit_value (sh_bits s)) (bit_value (sh_bits t)) [0..<min (sh_length s) (sh_length t)]
       (cmp_nat (sh_length s) (sh_length t))"

definition cmp_prefix_of_key :: "ShardId \<Rightarrow> bytes \<Rightarrow> ordering" where
  "cmp_prefix_of_key s key =
     cmp_bits (bit_value (sh_bits s)) (\<lambda>i. if i div 8 < length key then bit_value key i else 0)
       [0..<sh_length s] Equal"

definition get_bit :: "ShardId \<Rightarrow> usize \<Rightarrow> Error + u8" where
  "get_bit s index =
     (if index \<ge> sh_length s then Err (OutOfRange ''ShardId bit index out of bounds'')
      else Ok (bit_value (sh_bits s) index))"

definition is_prefix_of :: "ShardId \<Rightarrow> bytes \<Rightarrow> bool" where
  "is_prefix_of s data =
     (let full_bytes = sh_length s div 8; remaining_bits = sh_length s mod 8
      in if length data < full_bytes then False
         else if take full_bytes (sh_bits s) \<noteq> take full_bytes data then False
         else if remaining_bits > 0 then
           (case get_at data full_bytes of
              None \<Rightarrow> False
            | Some db \<Rightarrow>
                let m = push_bit (8 - remaining_bits) 0xff
                in sh_bits s ! full_bytes AND m = db AND m)
         else True)"

definition is_prefix_of_shard :: "ShardId \<Rightarrow> ShardId \<Rightarrow> bool" where
  "is_prefix_of_shard s t \<longleftrightarrow> sh_length s \<le> sh_length t \<and> is_prefix_of s (sh_bits t)"

text \<open>The scan for the end marker: \<open>i\<close> runs down from 8 while the last byte is shifted right.\<close>

fun marker_scan :: "nat list \<Rightarrow> u8 \<Rightarrow> (nat \<times> u8) option" where
  "marker_scan [] last_byte = None"
| "marker_scan (i # is) last_byte =
     (if last_byte AND 1 = 1 then Some (i, last_byte) else marker_scan is (drop_bit 1 last_byte))"

definition ShardId_decode :: "bytes \<Rightarrow> Error + ShardId" where
  "ShardId_decode data =
     (if data = [] then Err (UnexpectedValue ''empty ShardId'')
      else case marker_scan (rev [1..<9]) (last data) of
        None \<Rightarrow> Err (UnexpectedValue ''ShardId missing end marker'')
      | Some (i, last_byte) \<Rightarrow>
          if i = 1 then Ok \<lparr>sh_bits = butlast data, sh_length = (length data - 1) * 8\<rparr>
          else Ok \<lparr>sh_bits = butlast data @ [push_bit (8 - i + 1) (drop_bit 1 last_byte)],
                   sh_length = (length data - 1) * 8 + i - 1\<rparr>)"

definition ShardId_encode :: "ShardId \<Rightarrow> bytes" where
  "ShardId_encode s =
     (let byte_count = sh_length s div 8; bit_count = sh_length s mod 8
      in take byte_count (sh_bits s) @
         [if bit_count = 0 then 0x80
          else (sh_bits s ! byte_count AND NOT (drop_bit bit_count 0xff)) OR push_bit (7 - bit_count) 1])"

section \<open>The abstract view\<close>

definition bits_of :: "bytes \<Rightarrow> nat \<Rightarrow> bool list" where
  "bits_of b n = map (bit_at b) [0..<n]"

definition shard_bits :: "ShardId \<Rightarrow> bool list" where
  "shard_bits s = bits_of (sh_bits s) (sh_length s)"

definition ShardId_wf :: "ShardId \<Rightarrow> bool" where
  "ShardId_wf s \<longleftrightarrow> length (sh_bits s) = div_ceil (sh_length s) 8 \<and>
     (\<forall>i<8 * length (sh_bits s). sh_length s \<le> i \<longrightarrow> \<not> bit_at (sh_bits s) i)"

section \<open>The end marker\<close>

lemma marker_scan_Some_iff:
  "marker_scan (rev [1..<Suc k]) x = Some (i, y) \<longleftrightarrow>
     1 \<le> i \<and> i \<le> k \<and> y = drop_bit (k - i) x \<and> bit x (k - i) \<and> (\<forall>j<k - i. \<not> bit x j)"
proof (induction k arbitrary: x)
  case 0
  then show ?case by auto
next
  case (Suc k)
  have odd: "x AND 1 = 1 \<longleftrightarrow> bit x 0" by (simp add: and_one_eq odd_iff_mod_2_eq_one bit_0)
  show ?case
  proof (cases "bit x 0")
    case True
    have "i = Suc k" if "1 \<le> i" "i \<le> Suc k" "\<forall>j<Suc k - i. \<not> bit x j"
      using that True by (metis Suc_diff_le diff_is_0_eq le_antisym le_SucE not_less_eq_eq zero_less_Suc)
    then show ?thesis using True odd by auto
  next
    case False
    have shift: "Suc k - i = Suc (k - i)" if "i \<le> k" using that by (rule Suc_diff_le)
    have all: "(\<forall>j<Suc m. \<not> bit x j) \<longleftrightarrow> (\<forall>j<m. \<not> bit (drop_bit 1 x) j)" for m
      using False by (auto simp: bit_drop_bit_eq less_Suc_eq_0_disj)
    have top: "i \<noteq> Suc k" if "bit x (Suc k - i)" using that False by auto
    show ?thesis
    proof (cases "i \<le> k")
      case True
      then show ?thesis
        using False odd Suc.IH [of "drop_bit 1 x"] all [of "k - i"] shift [OF True]
        by (simp add: bit_drop_bit_eq)
    next
      case gt: False
      then show ?thesis
        using False odd Suc.IH [of "drop_bit 1 x"] top by auto
    qed
  qed
qed

declare push_bit_of_1 [simp del] push_bit_Suc [simp del] drop_bit_Suc [simp del]

lemma bit_push_one: "n < 8 \<Longrightarrow> bit (push_bit n 1 :: u8) j \<longleftrightarrow> j = n"
  by (auto simp: bit_push_bit_iff bit_1_iff)

lemma bit_ff: "bit (0xff :: u8) k \<longleftrightarrow> k < 8"
proof -
  have "(0xff :: u8) = mask 8" by (simp add: mask_eq_exp_minus_1)
  then show ?thesis by (simp only: bit_mask_iff) auto
qed

lemma marker_byte_bits:
  assumes "n < 8" "j < 8"
  shows "bit ((w AND NOT (drop_bit n 0xff)) OR push_bit (7 - n) 1 :: u8) j \<longleftrightarrow>
    j = 7 - n \<or> 7 - n < j \<and> bit w j"
proof -
  have "bit (drop_bit n (0xff :: u8)) j \<longleftrightarrow> n + j < 8" by (simp only: bit_drop_bit_eq comp_apply bit_ff)
  then show ?thesis
    using assms by (auto simp: bit_or_iff bit_and_iff bit_not_iff bit_push_one)
qed

lemma marker_byte_scan:
  assumes "n < 8"
  shows "marker_scan (rev [1..<9]) ((w AND NOT (drop_bit n 0xff)) OR push_bit (7 - n) 1) =
    Some (Suc n, drop_bit (7 - n) ((w AND NOT (drop_bit n 0xff)) OR push_bit (7 - n) 1))"
proof -
  have "marker_scan (rev [1..<Suc 8]) ((w AND NOT (drop_bit n 0xff)) OR push_bit (7 - n) 1) =
    Some (Suc n, drop_bit (7 - n) ((w AND NOT (drop_bit n 0xff)) OR push_bit (7 - n) 1))"
    using assms by (subst marker_scan_Some_iff) (auto simp: marker_byte_bits)
  then show ?thesis by simp
qed

lemma clear_below: "push_bit (Suc t) (drop_bit (Suc t) (x :: u8)) = v \<longleftrightarrow>
    (\<forall>j<8. bit v j \<longleftrightarrow> t < j \<and> bit x j)"
  by (auto simp: bit_eq_iff bit_push_bit_iff bit_drop_bit_eq possible_bit_def)

text \<open>The zero padding of a well-formed id, in terms of its last byte.\<close>

lemma div_ceil_8: "div_ceil n 8 = (if n mod 8 = 0 then n div 8 else Suc (n div 8))"
  by (simp add: div_ceil_def)

lemma ShardId_wf_last_byte:
  assumes "ShardId_wf s" "sh_length s mod 8 \<noteq> 0" "j \<le> 7 - sh_length s mod 8" 
  shows "\<not> bit (sh_bits s ! (sh_length s div 8)) j"
proof -
  let ?n = "sh_length s"
  have j: "j < 8" using assms(3) by simp
  define i where "i = 8 * (?n div 8) + (7 - j)"
  have r: "7 - j < 8" by simp
  have i: "i div 8 = ?n div 8" "i mod 8 = 7 - j" unfolding i_def using r by (simp_all only: div_mult_self4 mod_mult_self4) simp_all
  have "?n = 8 * (?n div 8) + ?n mod 8" by simp
  moreover have "?n mod 8 \<le> 7 - j" using assms(2,3) j by linarith
  ultimately have "?n \<le> i" unfolding i_def by linarith
  moreover have "length (sh_bits s) = Suc (?n div 8)"
    using assms(1,2) by (simp add: ShardId_wf_def div_ceil_8)
  then have lt: "i < 8 * length (sh_bits s)" using r by (simp add: i_def)
  ultimately have "\<not> bit_at (sh_bits s) i" using assms(1) by (simp add: ShardId_wf_def)
  then show ?thesis using bit_at_bit [OF lt] i j by simp
qed

lemma ShardId_decode_encode:
  assumes wf: "ShardId_wf s"
  shows "ShardId_decode (ShardId_encode s) = Ok s"
proof -
  let ?n = "sh_length s mod 8" and ?c = "sh_length s div 8"
  define w where "w = (if ?n = 0 then 0 else sh_bits s ! ?c)"
  define x where "x = (w AND NOT (drop_bit ?n 0xff)) OR push_bit (7 - ?n) (1 :: u8)"
  have n: "?n < 8" by simp
  have len: "length (take ?c (sh_bits s)) = ?c" using wf by (auto simp: ShardId_wf_def div_ceil_8)
  have enc: "ShardId_encode s = take ?c (sh_bits s) @ [x]"
  proof (cases "?n = 0")
    case True
    then show ?thesis by (simp add: ShardId_encode_def x_def w_def push_bit_of_1)
  next
    case False
    then show ?thesis by (simp add: ShardId_encode_def Let_def x_def w_def)
  qed
  have scan: "marker_scan (rev [1..<9]) x = Some (Suc ?n, drop_bit (7 - ?n) x)"
    unfolding x_def by (rule marker_byte_scan [OF n])
  show ?thesis
  proof (cases "?n = 0")
    case True
    then have "take ?c (sh_bits s) = sh_bits s" "?c * 8 = sh_length s"
      using wf by (auto simp: ShardId_wf_def div_ceil_8)
    then show ?thesis using True enc scan len by (simp add: ShardId_decode_def)
  next
    case False
    have "7 - ?n < j" if "bit w j" for j
      using ShardId_wf_last_byte [OF wf False, of j] that False by (simp add: w_def) (metis not_le)
    then have "push_bit (Suc (7 - ?n)) (drop_bit (Suc (7 - ?n)) x) = w"
      unfolding clear_below x_def using marker_byte_bits [OF n, of _ w] by auto
    moreover have "take ?c (sh_bits s) @ [w] = sh_bits s"
      using wf False by (auto simp: ShardId_wf_def div_ceil_8 w_def take_Suc_conv_app_nth [symmetric])
    moreover have "?c * 8 + ?n = sh_length s" by simp
    ultimately show ?thesis
      using False enc scan len by (simp add: ShardId_decode_def Suc_diff_le)
  qed
qed

lemma ShardId_wfI:
  assumes "length bs = c" "n < 8" "n = 0 \<Longrightarrow> ws = []" "n \<noteq> 0 \<Longrightarrow> ws = [w] \<and> (\<forall>j\<le>7 - n. \<not> bit w j)"
  shows "ShardId_wf \<lparr>sh_bits = bs @ ws, sh_length = c * 8 + n\<rparr>"
proof (cases "n = 0")
  case True
  then show ?thesis using assms by (auto simp: ShardId_wf_def div_ceil_8)
next
  case False
  then have ws: "ws = [w]" "\<And>j. j \<le> 7 - n \<Longrightarrow> \<not> bit w j" using assms by auto
  have "\<not> bit_at (bs @ [w]) i" if i: "i < 8 * Suc c" "c * 8 + n \<le> i" for i
  proof -
    have "i div 8 = c" using i by (intro div_nat_eqI) auto
    moreover from this have "n \<le> i mod 8" using i(2) by (metis add_le_cancel_left div_mult_mod_eq)
    ultimately show ?thesis using i ws assms(1) by (simp add: bit_at_bit nth_append)
  qed
  then show ?thesis using ws(1) assms False by (auto simp: ShardId_wf_def div_ceil_8)
qed

lemma ShardId_encode_decode:
  assumes "ShardId_decode b = Ok s"
  shows "ShardId_wf s \<and> ShardId_encode s = b"
proof -
  define x where "x = last b"
  obtain i y where ne: "b \<noteq> []" and scan: "marker_scan (rev [1..<9]) x = Some (i, y)"
    using assms by (auto simp: ShardId_decode_def x_def split: if_splits option.splits)
  define n where "n = i - 1"
  have "marker_scan (rev [1..<Suc 8]) x = Some (i, y)" using scan by simp
  then have i: "i = Suc n" "n < 8" "y = drop_bit (7 - n) x" "bit x (7 - n)" "\<forall>j<7 - n. \<not> bit x j"
    unfolding marker_scan_Some_iff n_def by auto
  define w where "w = push_bit (Suc (7 - n)) (drop_bit (Suc (7 - n)) x)"
  have w: "\<forall>j<8. bit w j \<longleftrightarrow> 7 - n < j \<and> bit x j" using clear_below w_def by blast
  have x: "(w AND NOT (drop_bit n 0xff)) OR push_bit (7 - n) 1 = x"
  proof (rule bit_eqI)
    fix j assume "possible_bit TYPE(8 word) j"
    then have "j < 8" by (simp add: possible_bit_def)
    then show "bit ((w AND NOT (drop_bit n 0xff)) OR push_bit (7 - n) 1) j = bit x j"
      using marker_byte_bits [OF i(2)] w i(4,5) by (metis linorder_neqE_nat)
  qed
  let ?c = "length b - 1"
  have s: "s = \<lparr>sh_bits = butlast b @ (if n = 0 then [] else [w]), sh_length = ?c * 8 + n\<rparr>"
    using assms ne scan i by (auto simp: ShardId_decode_def x_def w_def Suc_diff_le)
  have b: "b = butlast b @ [x]" using ne by (simp add: x_def)
  have "\<not> bit w j" if "j \<le> 7 - n" for j using w that by (cases "j < 8") (auto simp: not_less dest: bit_imp_le_length)
  then have "ShardId_wf s" unfolding s by (intro ShardId_wfI [where w = w]) (auto simp: i(2))
  moreover have "ShardId_encode s = butlast b @ [x]"
  proof (cases "n = 0")
    case True
    then have "x = 0x80" using x w by (simp add: w_def push_bit_of_1) 
    then show ?thesis using True s by (simp add: ShardId_encode_def)
  next
    case False
    then show ?thesis using s x i(2) by (simp add: ShardId_encode_def Let_def nth_append)
  qed
  ultimately show ?thesis using b by simp
qed

section \<open>Operations on the abstract view\<close>

lemma bit_value_bit_at: "i < 8 * length b \<Longrightarrow> bit_value b i = (if bit_at b i then 1 else 0)"
  by (simp add: bit_value_def bit_at_bit and_one_eq bit_iff_odd_drop_bit mod2_eq_if)

lemma ShardId_wf_len: "ShardId_wf s \<Longrightarrow> sh_length s \<le> 8 * length (sh_bits s)"
proof -
  have "n \<le> 8 * (if n mod 8 = 0 then n div 8 else Suc (n div 8))" for n :: nat by presburger
  then show "ShardId_wf s \<Longrightarrow> ?thesis" by (simp add: ShardId_wf_def div_ceil_8)
qed

lemma length_shard_bits [simp]: "length (shard_bits s) = sh_length s"
  by (simp add: shard_bits_def bits_of_def)

lemma nth_bits_of: "i < n \<Longrightarrow> bits_of b n ! i = bit_at b i"
  by (simp add: bits_of_def)

lemma shard_bits_inj:
  assumes "ShardId_wf s" "ShardId_wf t" "shard_bits s = shard_bits t"
  shows "s = t"
proof -
  have len: "sh_length s = sh_length t" using assms(3) by (metis length_shard_bits)
  have n: "length (sh_bits s) = length (sh_bits t)" using assms(1,2) len by (simp add: ShardId_wf_def)
  have "bit_at (sh_bits s) i = bit_at (sh_bits t) i" if "i < 8 * length (sh_bits t)" for i
  proof (cases "i < sh_length s")
    case True
    then have "shard_bits s ! i = shard_bits t ! i" using assms(3) by simp
    then show ?thesis using True len by (simp add: shard_bits_def nth_bits_of)
  next
    case False
    then show ?thesis using that assms(1,2) len n by (simp add: ShardId_wf_def)
  qed
  then have "sh_bits s = sh_bits t" using n by (intro bit_at_ext) auto
  with len show ?thesis by simp
qed

text \<open>\<open>is_prefix_of\<close> is the prefix relation on bits.\<close>

lemma bytes_bits_prefix:
  assumes "length a \<ge> n" "length b \<ge> n"
  shows "take n a = take n b \<longleftrightarrow> (\<forall>i<8 * n. bit_at a i = bit_at b i)"
proof -
  have eq: "bit_at (take n c) i = bit_at c i" if "i < 8 * n" for i and c :: bytes
    using that by (simp add: bit_at_def)
  show ?thesis
  proof
    assume "take n a = take n b"
    then show "\<forall>i<8 * n. bit_at a i = bit_at b i" using eq by metis
  next
    assume "\<forall>i<8 * n. bit_at a i = bit_at b i"
    then show "take n a = take n b" using assms eq by (intro bit_at_ext [where n = n]) auto
  qed
qed

lemma masked_byte_eq:
  assumes "0 < r" "r < 8"
  shows "(a AND push_bit (8 - r) 0xff = b AND push_bit (8 - r) (0xff :: u8)) \<longleftrightarrow>
    (\<forall>j<r. bit a (7 - j) = bit b (7 - j))"
proof
  assume eq: "a AND push_bit (8 - r) 0xff = b AND push_bit (8 - r) 0xff"
  show "\<forall>j<r. bit a (7 - j) = bit b (7 - j)"
  proof (intro allI impI)
    fix j assume "j < r"
    then show "bit a (7 - j) = bit b (7 - j)"
      using eq [THEN arg_cong, of "\<lambda>x. bit x (7 - j)"] bit_mask_byte [of r j] assms by (simp add: bit_and_iff)
  qed
next
  assume all: "\<forall>j<r. bit a (7 - j) = bit b (7 - j)"
  show "a AND push_bit (8 - r) 0xff = b AND push_bit (8 - r) 0xff"
  proof (rule bit_eqI)
    fix k assume "possible_bit TYPE(8 word) k"
    then have k: "k = 7 - (7 - k)" "7 - k < 8" by (simp_all add: possible_bit_def)
    then show "bit (a AND push_bit (8 - r) 0xff) k = bit (b AND push_bit (8 - r) 0xff) k"
      using all bit_mask_byte [OF assms k(2)] by (simp only: bit_and_iff) (metis k(1))
  qed
qed

lemma bits_split:
  "(\<forall>i < n. P i) \<longleftrightarrow> (\<forall>i < 8 * (n div 8). P i) \<and> (\<forall>j < n mod 8. P (8 * (n div 8) + j))" for n :: nat
proof -
  have n: "8 * (n div 8) + n mod 8 = n" by simp
  show ?thesis
  proof (intro iffI conjI allI impI)
    fix i assume "\<forall>i < n. P i" "i < 8 * (n div 8)"
    then show "P i" using n by (metis less_le_trans le_add1)
  next
    fix j assume "\<forall>i < n. P i" "j < n mod 8"
    then show "P (8 * (n div 8) + j)" using n by (metis add_less_cancel_left)
  next
    fix i assume a: "(\<forall>i < 8 * (n div 8). P i) \<and> (\<forall>j < n mod 8. P (8 * (n div 8) + j))" "i < n"
    show "P i"
    proof (cases "i < 8 * (n div 8)")
      case False
      then have "i = 8 * (n div 8) + (i - 8 * (n div 8))" "i - 8 * (n div 8) < n mod 8"
        using a(2) n by linarith+
      then show ?thesis using a(1) by metis
    qed (use a in blast)
  qed
qed

lemma bit_at_byte: "f < length b \<Longrightarrow> j < 8 \<Longrightarrow> bit_at b (8 * f + j) = bit (b ! f) (7 - j)"
  using bit_at_bit [of "8 * f + j" b] by simp

lemma is_prefix_of_iff:
  assumes "ShardId_wf s" "sh_length s \<le> 8 * length data"
  shows "is_prefix_of s data \<longleftrightarrow> (\<forall>i < sh_length s. bit_at (sh_bits s) i = bit_at data i)"
proof -
  let ?f = "sh_length s div 8" and ?r = "sh_length s mod 8"
  have r: "?r < 8" by simp
  have len: "?f \<le> length data" "?f \<le> length (sh_bits s)"
    using assms ShardId_wf_len [OF assms(1)] by linarith+
  note full = bytes_bits_prefix [OF len(2) len(1)]
  show ?thesis
  proof (cases "?r = 0")
    case True
    then show ?thesis using len full bits_split [of "sh_length s"] by (auto simp: is_prefix_of_def Let_def)
  next
    case False
    then have lt: "?f < length data" "?f < length (sh_bits s)"
      using assms ShardId_wf_len [OF assms(1)] by presburger+
    have "(sh_bits s ! ?f AND push_bit (8 - ?r) 0xff = data ! ?f AND push_bit (8 - ?r) 0xff) \<longleftrightarrow>
        (\<forall>j < ?r. bit_at (sh_bits s) (8 * ?f + j) = bit_at data (8 * ?f + j))"
      using masked_byte_eq [of ?r] False r lt by (auto simp: bit_at_byte)
    then show ?thesis
      using len lt full False bits_split [of "sh_length s"]
      by (auto simp: is_prefix_of_def Let_def get_at_def)
  qed
qed

lemma is_prefix_of_short:
  assumes "ShardId_wf s" "8 * length data < sh_length s"
  shows "\<not> is_prefix_of s data"
proof -
  have "length data < sh_length s div 8 \<or> length data = sh_length s div 8 \<and> sh_length s mod 8 > 0"
  proof (cases "length data < sh_length s div 8")
    case False
    then have "length data = sh_length s div 8" using assms(2) by linarith
    moreover from this have "sh_length s mod 8 > 0"
      using assms(2) mult_div_mod_eq [of 8 "sh_length s"] by linarith
    ultimately show ?thesis by simp
  qed simp
  then show ?thesis by (auto simp: is_prefix_of_def Let_def get_at_def)
qed

lemma is_prefix_of_bits:
  assumes "ShardId_wf s"
  shows "is_prefix_of s data \<longleftrightarrow>
    sh_length s \<le> 8 * length data \<and> (\<forall>i < sh_length s. bit_at (sh_bits s) i = bit_at data i)"
  using is_prefix_of_iff [OF assms] is_prefix_of_short [OF assms] by (meson not_le)

text \<open>The ordering of shard ids is the lexicographic one on bits, shorter first.\<close>

fun cmp_bools :: "bool list \<Rightarrow> bool list \<Rightarrow> ordering" where
  "cmp_bools [] [] = Equal"
| "cmp_bools [] (_ # _) = Less"
| "cmp_bools (_ # _) [] = Greater"
| "cmp_bools (a # as) (b # bs) = (if a = b then cmp_bools as bs else if b then Less else Greater)"

lemma cmp_bits_cmp_bools:
  assumes "\<And>i. i < length xs \<Longrightarrow> f (k + i) = (if xs ! i then 1 else 0)"
    "\<And>i. i < length ys \<Longrightarrow> g (k + i) = (if ys ! i then 1 else 0)"
  shows "cmp_bits f g [k..<k + min (length xs) (length ys)] (cmp_nat (length xs) (length ys)) = cmp_bools xs ys"
  using assms
proof (induction xs ys arbitrary: k rule: cmp_bools.induct)
  case (4 a as b bs)
  have upt: "[k..<k + min (length (a # as)) (length (b # bs))] =
      k # [Suc k..<Suc k + min (length as) (length bs)]"
    using upt_conv_Cons [of k "Suc k + min (length as) (length bs)"] by simp
  have "f k = (if a then 1 else 0)" "g k = (if b then 1 else 0)"
    using 4(2) [of 0] 4(3) [of 0] by simp_all
  moreover have "cmp_bits f g [Suc k..<Suc k + min (length as) (length bs)]
      (cmp_nat (length as) (length bs)) = cmp_bools as bs" if "a = b"
    using 4(1) [OF that, of "Suc k"] 4(2) [of "Suc _"] 4(3) [of "Suc _"] by simp
  moreover have "cmp_nat (length (a # as)) (length (b # bs)) = cmp_nat (length as) (length bs)"
    by (simp add: cmp_nat_def)
  ultimately show ?case unfolding upt by (auto simp: cmp_u8_def)
qed (auto simp: cmp_nat_def)

lemma canonical_cmp_cmp_bools:
  assumes "ShardId_wf s" "ShardId_wf t"
  shows "canonical_cmp s t = cmp_bools (shard_bits s) (shard_bits t)"
proof -
  have bits: "bit_value (sh_bits u) i = (if shard_bits u ! i then 1 else 0)"
    if "ShardId_wf u" "i < sh_length u" for u i
    using that ShardId_wf_len [OF that(1)] by (simp add: bit_value_bit_at shard_bits_def nth_bits_of)
  show ?thesis
    using cmp_bits_cmp_bools [of "shard_bits s" "bit_value (sh_bits s)" 0 "shard_bits t"
        "bit_value (sh_bits t)"] assms bits
    by (simp add: canonical_cmp_def)
qed

end
