(* ===== verification/Shard_Bits.thy ===== *)
theory Shard_Bits
  imports Shard_Id Orders "HOL-Library.Sublist"
begin

text \<open>
  The operations on shard ids as operations on their bits: children, siblings and prefixes, the prefix
  relation, and the order of shard ids as a total order.
\<close>

section \<open>Bits of derived ids\<close>

lemma nth_shard_bits: "i < sh_length s \<Longrightarrow> shard_bits s ! i = bit_at (sh_bits s) i"
  by (simp add: shard_bits_def nth_bits_of)

lemma div_ceil_bounds: "n \<le> 8 * div_ceil n 8" "8 * div_ceil n 8 < n + 8"
  unfolding div_ceil_8 by presburger+

lemma bit_at_update:
  assumes "j < length b" "i < 8 * length b"
  shows "bit_at (b[j := w]) i = (if i div 8 = j then bit w (7 - i mod 8) else bit_at b i)"
  using assms by (simp add: bit_at_bit)

text \<open>A well-formed id is given by its bits.\<close>

lemma ShardId_wf_bits:
  assumes "length b = div_ceil n 8" "\<And>i. i < 8 * length b \<Longrightarrow> bit_at b i \<longleftrightarrow> i < n \<and> P i"
  shows "ShardId_wf \<lparr>sh_bits = b, sh_length = n\<rparr>" "shard_bits \<lparr>sh_bits = b, sh_length = n\<rparr> = map P [0..<n]"
proof -
  show "ShardId_wf \<lparr>sh_bits = b, sh_length = n\<rparr>" using assms by (simp add: ShardId_wf_def)
  show "shard_bits \<lparr>sh_bits = b, sh_length = n\<rparr> = map P [0..<n]"
    using assms div_ceil_bounds [of n] by (auto simp: shard_bits_def bits_of_def)
qed

lemma ShardId_wf_bit:
  assumes "ShardId_wf s" "i < 8 * length (sh_bits s)"
  shows "bit_at (sh_bits s) i \<longleftrightarrow> i < sh_length s \<and> shard_bits s ! i"
proof (cases "i < sh_length s")
  case False
  then show ?thesis using assms by (simp add: ShardId_wf_def)
qed (simp add: nth_shard_bits)

lemma mask_bit_index: "(7 - i mod 8 = 7 - j mod 8) \<longleftrightarrow> i mod 8 = (j mod 8 :: nat)"
proof -
  have "i mod 8 < 8" "j mod 8 < 8" by simp_all
  then show ?thesis by linarith
qed

lemma same_bit_index: "i div 8 = j div 8 \<Longrightarrow> i mod 8 = j mod 8 \<longleftrightarrow> i = (j :: nat)"
  by (metis div_mult_mod_eq)

lemma ShardId_sibling_bits:
  assumes wf: "ShardId_wf s" and pos: "0 < sh_length s"
  shows "\<exists>t. ShardId_sibling s = Some t \<and> ShardId_wf t \<and>
    shard_bits t = butlast (shard_bits s) @ [\<not> last (shard_bits s)]"
proof -
  let ?n = "sh_length s - 1"
  let ?w = "(sh_bits s ! (?n div 8)) XOR push_bit (7 - ?n mod 8) 1"
  define t where "t = \<lparr>sh_bits = (sh_bits s)[?n div 8 := ?w], sh_length = sh_length s\<rparr>"
  have lst: "?n div 8 < length (sh_bits s)" using ShardId_wf_len [OF wf] pos by linarith
  have bit: "bit_at ((sh_bits s)[?n div 8 := ?w]) i \<longleftrightarrow> i < sh_length s \<and> (shard_bits s ! i \<noteq> (i = ?n))"
    if i: "i < 8 * length (sh_bits s)" for i
  proof (cases "i div 8 = ?n div 8")
    case True
    have "bit ?w (7 - i mod 8) \<longleftrightarrow> bit_at (sh_bits s) i \<noteq> (i = ?n)"
      using i True mask_bit_index [of i ?n] same_bit_index [OF True]
      by (auto simp: bit_xor_iff bit_push_one bit_at_bit)
    then show ?thesis using True i lst ShardId_wf_bit [OF wf i] pos by (auto simp: bit_at_update)
  next
    case False
    then have "i \<noteq> ?n" by auto
    then show ?thesis using False i lst ShardId_wf_bit [OF wf i] by (auto simp: bit_at_update)
  qed
  have len: "length ((sh_bits s)[?n div 8 := ?w]) = div_ceil (sh_length s) 8" using wf by (simp add: ShardId_wf_def)
  have "ShardId_wf t" "shard_bits t = map (\<lambda>i. shard_bits s ! i \<noteq> (i = ?n)) [0..<sh_length s]"
    unfolding t_def using ShardId_wf_bits [OF len, of "\<lambda>i. shard_bits s ! i \<noteq> (i = ?n)"] bit by simp_all
  moreover have "map (\<lambda>i. shard_bits s ! i \<noteq> (i = ?n)) [0..<sh_length s] = butlast (shard_bits s) @ [\<not> last (shard_bits s)]"
  proof (rule nth_equalityI)
    fix i assume "i < length (map (\<lambda>i. shard_bits s ! i \<noteq> (i = ?n)) [0..<sh_length s])"
    then have i: "i < sh_length s" by simp
    have "shard_bits s \<noteq> []" using pos length_shard_bits [of s] by fastforce
    then have "last (shard_bits s) = shard_bits s ! ?n" by (simp add: last_conv_nth)
    then show "map (\<lambda>i. shard_bits s ! i \<noteq> (i = ?n)) [0..<sh_length s] ! i =
        (butlast (shard_bits s) @ [\<not> last (shard_bits s)]) ! i"
      using i by (auto simp: nth_append nth_butlast)
  qed (use pos in simp)
  ultimately show ?thesis using pos by (simp add: ShardId_sibling_def t_def Let_def)
qed

lemma ShardId_prefix_bits:
  assumes wf: "ShardId_wf s" and n: "n \<le> sh_length s"
  shows "\<exists>t. ShardId_prefix s n = Some t \<and> ShardId_wf t \<and> shard_bits t = take n (shard_bits s)"
proof -
  let ?c = "div_ceil n 8"
  define b where "b = take ?c (sh_bits s)"
  define b' where "b' = (if n mod 8 \<noteq> 0 \<and> b \<noteq> [] then b[length b - 1 := last b AND push_bit (8 - n mod 8) 0xff] else b)"
  have len: "length b = ?c"
    using wf n div_ceil_bounds [of n] div_ceil_bounds [of "sh_length s"] by (simp add: b_def ShardId_wf_def)
  have sub: "bit_at b i = bit_at (sh_bits s) i" if "i < 8 * ?c" for i
    using that by (simp add: b_def bit_at_def)
  have cs: "8 * ?c \<le> 8 * length (sh_bits s)" using len by (simp add: b_def)
  have bit: "bit_at b' i \<longleftrightarrow> i < n \<and> shard_bits s ! i" if i: "i < 8 * ?c" for i
  proof (cases "n mod 8 \<noteq> 0 \<and> b \<noteq> []")
    case True
    have c: "?c = Suc (n div 8)" using True by (simp add: div_ceil_8)
    show ?thesis
    proof (cases "i div 8 = n div 8")
      case at: True
      have lt: "i < n \<longleftrightarrow> i mod 8 < n mod 8" using at by (metis div_mult_mod_eq nat_add_left_cancel_less)
      have "last b = b ! (n div 8)" using True len c by (simp add: last_conv_nth)
      then have "bit_at b' i \<longleftrightarrow> bit_at b i \<and> i mod 8 < n mod 8"
        using True at i len c bit_mask_byte [of "n mod 8" "i mod 8"] by (simp add: b'_def bit_at_bit bit_and_iff)
      then show ?thesis using sub [OF i] lt ShardId_wf_bit [OF wf, of i] i cs n by auto
    next
      case False
      then have "i div 8 < n div 8" using i c by linarith
      then have "i < n" by (metis div_le_mono leD leI)
      then show ?thesis
        using True False i len c sub [OF i] ShardId_wf_bit [OF wf, of i] cs n by (auto simp: b'_def bit_at_update)
    qed
  next
    case False
    then have "b' = b" by (auto simp: b'_def)
    moreover have "i < n" using False i len by (auto simp: div_ceil_8 split: if_splits)
    ultimately show ?thesis using sub [OF i] ShardId_wf_bit [OF wf, of i] i cs n by auto
  qed
  have len': "length b' = ?c" using len by (simp add: b'_def)
  have "ShardId_prefix s n = Some \<lparr>sh_bits = b', sh_length = n\<rparr>"
    using n by (auto simp: ShardId_prefix_def b'_def b_def Let_def)
  moreover have "map ((!) (shard_bits s)) [0..<n] = take n (shard_bits s)"
    using n by (intro nth_equalityI) simp_all
  ultimately show ?thesis using ShardId_wf_bits [OF len' bit] len' by simp
qed

section \<open>The prefix relation\<close>

lemma prefix_nth: "prefix xs ys \<longleftrightarrow> length xs \<le> length ys \<and> (\<forall>i<length xs. xs ! i = ys ! i)"
proof
  assume "length xs \<le> length ys \<and> (\<forall>i<length xs. xs ! i = ys ! i)"
  then have "xs = take (length xs) ys" by (intro nth_equalityI) auto
  then show "prefix xs ys" by (metis take_is_prefix)
qed (auto simp: prefix_def nth_append)

lemma is_prefix_of_shard_iff:
  assumes "ShardId_wf s" "ShardId_wf t"
  shows "is_prefix_of_shard s t \<longleftrightarrow> prefix (shard_bits s) (shard_bits t)"
proof (cases "sh_length s \<le> sh_length t")
  case True
  then have "sh_length s \<le> 8 * length (sh_bits t)" using ShardId_wf_len [OF assms(2)] by linarith
  from is_prefix_of_iff [OF assms(1) this] True show ?thesis
    by (auto simp: is_prefix_of_shard_def prefix_nth nth_shard_bits)
qed (simp add: is_prefix_of_shard_def prefix_nth)

definition key_bits :: "bytes \<Rightarrow> bool list" where
  "key_bits key = bits_of key (8 * length key)"

lemma length_key_bits [simp]: "length (key_bits key) = 8 * length key"
  by (simp add: key_bits_def bits_of_def)

lemma nth_key_bits: "i < 8 * length key \<Longrightarrow> key_bits key ! i = bit_at key i"
  by (simp add: key_bits_def nth_bits_of)

lemma is_prefix_of_key_iff:
  assumes "ShardId_wf s"
  shows "is_prefix_of s key \<longleftrightarrow> prefix (shard_bits s) (key_bits key)"
proof (cases "sh_length s \<le> 8 * length key")
  case True
  from is_prefix_of_iff [OF assms this] True show ?thesis by (auto simp: prefix_nth nth_shard_bits nth_key_bits)
next
  case False
  then show ?thesis using is_prefix_of_short [OF assms, of key] by (auto simp: prefix_nth)
qed

lemma get_bit_zero_iff:
  assumes "ShardId_wf s"
  shows "get_bit s d = Ok 0 \<longleftrightarrow> d < sh_length s \<and> \<not> shard_bits s ! d"
  using ShardId_wf_len [OF assms] by (auto simp: get_bit_def bit_value_bit_at nth_shard_bits)

section \<open>The order of bit strings\<close>

interpretation bool_order: total_cmp cmp_bools
proof (unfold_locales, goal_cases)
  case (1 a b)
  then show ?case by (induction a b rule: cmp_bools.induct) auto
next
  case (2 a b)
  then show ?case by (induction a b rule: cmp_bools.induct) auto
next
  case (3 a b c)
  then show ?case
  proof (induction a c arbitrary: b rule: cmp_bools.induct)
    case (4 x xs z zs)
    then show ?case by (cases b) (auto split: if_splits)
  next
    case 1
    then show ?case by (cases b) auto
  next
    case (3 x xs)
    then show ?case by (cases b) auto
  qed auto
qed

lemma cmp_bools_append: "cmp_bools (p @ xs) (p @ ys) = cmp_bools xs ys"
  by (induction p) auto

lemma cmp_bools_prefix: "prefix xs ys \<Longrightarrow> cmp_bools xs ys \<noteq> Greater"
  by (induction xs ys rule: cmp_bools.induct) auto

text \<open>Bit strings that are not prefixes of each other compare as their extensions do.\<close>

lemma cmp_bools_extend:
  "\<not> prefix xs ys \<Longrightarrow> \<not> prefix ys xs \<Longrightarrow> cmp_bools (xs @ as) (ys @ bs) = cmp_bools xs ys"
  by (induction xs ys rule: cmp_bools.induct) auto

text \<open>Between a string and an extension of it there are only extensions.\<close>

lemma cmp_bools_between:
  assumes "cmp_bools xs ys \<noteq> Greater" "cmp_bools ys zs \<noteq> Greater" "prefix xs zs"
  shows "prefix xs ys"
  using assms
proof (induction xs ys arbitrary: zs rule: cmp_bools.induct)
  case (4 x xs y ys)
  then show ?case by (cases zs) (auto split: if_splits)
next
  case (3 x xs)
  then show ?case by (cases zs) auto
qed auto

lemma canonical_cmp_fun:
  assumes "\<And>s. s \<in> set xs \<Longrightarrow> ShardId_wf s"
  shows "sort_by canonical_cmp xs = sort_by (\<lambda>s t. cmp_bools (shard_bits s) (shard_bits t)) xs"
proof -
  have ins: "insert_by canonical_cmp x ys = insert_by (\<lambda>s t. cmp_bools (shard_bits s) (shard_bits t)) x ys"
    if "ShardId_wf x" "\<And>y. y \<in> set ys \<Longrightarrow> ShardId_wf y" for x ys
    using that by (induction ys) (simp_all add: canonical_cmp_cmp_bools)
  show ?thesis using assms
  proof (induction xs)
    case (Cons x xs)
    have "insert_by canonical_cmp x (sort_by (\<lambda>s t. cmp_bools (shard_bits s) (shard_bits t)) xs) =
        insert_by (\<lambda>s t. cmp_bools (shard_bits s) (shard_bits t)) x (sort_by (\<lambda>s t. cmp_bools (shard_bits s) (shard_bits t)) xs)"
      by (rule ins) (use Cons.prems in auto)
    then show ?case using Cons by simp
  qed simp
qed

lemma bsearch_by_cong:
  "hi \<le> length xs \<Longrightarrow> (\<And>x. x \<in> set xs \<Longrightarrow> c x = d x) \<Longrightarrow> bsearch_by c xs lo hi = bsearch_by d xs lo hi"
proof (induction c xs lo hi rule: bsearch_by.induct)
  case (1 c xs lo hi)
  show ?case
  proof (cases "hi \<le> lo")
    case False
    define mid where "mid = lo + (hi - lo) div 2"
    have "mid < hi" using False by (auto simp: mid_def)
    then have "c (xs ! mid) = d (xs ! mid)" "mid \<le> length xs" using "1.prems" by simp_all
    then show ?thesis
      using "1.IH" [OF False mid_def] "1.prems" False
      by (simp add: bsearch_by.simps [of c] bsearch_by.simps [of d] mid_def [symmetric] Let_def split: ordering.split)
  qed (simp add: bsearch_by.simps)
qed

lemma binary_search_by_cong: "(\<And>x. x \<in> set xs \<Longrightarrow> c x = d x) \<Longrightarrow> binary_search_by c xs = binary_search_by d xs"
  unfolding binary_search_by_def by (rule bsearch_by_cong) auto

end
