(* ===== verification/Wire.thy ===== *)
theory Wire
  imports Hash
begin

text \<open>
  Lemmas that the wire structures share: the fields of an accepted encoding are accepted and read
  back, and a decoded structure was the encoding of its fields. \<open>codec_simps\<close> collects the accessors
  applied to encodings, \<open>decode_simps\<close> the accessors that are known to have succeeded.
\<close>

named_theorems codec_simps "accessors applied to accepted encodings"
named_theorems decode_simps "what a successful accessor has read"

section \<open>Reading back fields\<close>

lemma uint_value_encode [codec_simps]:
  "accepts l (encode_uint n) \<Longrightarrow> uint_value (with_limits (encode_uint n) l) = Ok n"
  using accepts_length by (simp add: uint_value_Ok_iff)

lemma bytes_value_encode [codec_simps]:
  "accepts l (encode_byte_string s) \<Longrightarrow> bytes_value (with_limits (encode_byte_string s) l) = Ok s"
  using accepts_length [of l "encode_byte_string s"] by (simp add: bytes_value_Ok_iff)

lemma text_value_encode [codec_simps]:
  "accepts l (encode_text_string s) \<Longrightarrow> utf8_valid s \<Longrightarrow>
   text_value (with_limits (encode_text_string s) l) = Ok s"
  using accepts_length [of l "encode_text_string s"] by (simp add: text_value_Ok_iff)

lemma expect_tag_encode [codec_simps]:
  "accepts l (encode_tag t b) \<Longrightarrow> item b \<Longrightarrow>
   expect_tag (with_limits (encode_tag t b) l) t = Ok (with_limits b l)"
  by (simp add: expect_tag_Ok_iff tag_value_complete)

lemma accepts_tag: "accepts l (encode_tag t b) \<Longrightarrow> item b \<Longrightarrow> accepts l b"
  by (rule tag_value_complete(2))

lemma array_encode [codec_simps]:
  "accepts l (encode_array bs) \<Longrightarrow> list_all item bs \<Longrightarrow> n = length bs \<Longrightarrow>
   array (with_limits (encode_array bs) l) (Some n) = Ok (map (\<lambda>b. with_limits b l) bs)"
  by (rule array_complete) (auto simp: list_all_iff)

lemma accepts_array: "accepts l (encode_array bs) \<Longrightarrow> list_all item bs \<Longrightarrow> list_all (accepts l) bs"
  using array_accepts by (auto simp: list_all_iff)

lemma item_array_list: "list_all item bs \<Longrightarrow> item (encode_array bs)"
  by (rule item_encode_array) (auto simp: list_all_iff)

text \<open>A tagged array of known fields: its fields are found and each of them is accepted.\<close>

lemma tagged_array:
  assumes "accepts l (encode_tag t (encode_array bs))" "list_all item bs"
  shows "expect_tag (with_limits (encode_tag t (encode_array bs)) l) t = Ok (with_limits (encode_array bs) l)"
    "accepts l (encode_array bs)"
    "list_all (accepts l) bs"
proof -
  have acc: "accepts l (encode_array bs)"
    by (rule accepts_tag [OF assms(1) item_array_list [OF assms(2)]])
  show "expect_tag (with_limits (encode_tag t (encode_array bs)) l) t = Ok (with_limits (encode_array bs) l)"
    by (rule expect_tag_encode [OF assms(1) item_array_list [OF assms(2)]])
  show "accepts l (encode_array bs)" by (rule acc)
  show "list_all (accepts l) bs" by (rule accepts_array [OF acc assms(2)])
qed

text \<open>Where a structure accepts \<open>null\<close> for a field, the field is not itself the null item.\<close>

lemma head_not_null:
  assumes "is_major m" "m \<noteq> major_SIMPLE"
  shows "\<not> is_null (with_limits (head m a @ s) l)"
proof
  assume "is_null (with_limits (head m a @ s) l)"
  then obtain rest where "head m a @ s = encode_null @ rest"
    by (auto simp: is_null_iff encode_null_def)
  then have "m = major_SIMPLE"
    using head_prefix [OF assms(1), of major_SIMPLE a s 22 rest] by (simp add: simple_heads)
  with assms(2) show False by simp
qed

lemma uint_not_null [simp]: "\<not> is_null (with_limits (encode_uint n) l)"
  using head_not_null [of major_UINT n "[]" l] by (simp add: encode_uint_def major_defs is_major_def)

lemma bytes_not_null [simp]: "\<not> is_null (with_limits (encode_byte_string s) l)"
  using head_not_null [of major_BYTES _ s l]
  by (simp add: encode_byte_string_def push_head_Nil major_defs is_major_def)

lemma array_not_null [simp]: "\<not> is_null (with_limits (encode_array bs) l)"
  using head_not_null [of major_ARRAY _ "concat bs" l]
  by (simp add: encode_array_def push_head_Nil major_defs is_major_def)

lemma tag_not_null [simp]: "\<not> is_null (with_limits (encode_tag t b) l)"
  using head_not_null [of major_TAG t b l]
  by (simp add: encode_tag_def push_head_Nil major_defs is_major_def)

lemma map_not_null [simp]: "\<not> is_null (with_limits (encode_map es) l)"
  using head_not_null [of major_MAP] by (simp add: encode_map_canonical major_defs is_major_def)

lemma null_is_null [simp]: "is_null (with_limits encode_null l)"
  by (simp add: is_null_iff encode_null_def)

lemma accepts_finish: "accepts l b \<Longrightarrow> finish (with_limits b l) = Ok ()"
  by (simp add: accepts_def)

text \<open>An optional field written with \<open>encode_nullable\<close> and read with \<open>nullable\<close>.\<close>

lemma item_encode_nullable: "(\<And>v. x = Some v \<Longrightarrow> item (f v)) \<Longrightarrow> item (encode_nullable x f)"
  by (cases x) (auto simp: encode_nullable_def)

lemma nullable_encode:
  assumes "accepts l (encode_nullable x f)"
    and "\<And>v. x = Some v \<Longrightarrow> accepts l (f v) \<Longrightarrow> \<not> is_null (with_limits (f v) l) \<and> g (with_limits (f v) l) = Ok v"
  shows "nullable (with_limits (encode_nullable x f) l) g = Ok x"
proof (cases x)
  case None
  then show ?thesis using assms(1) by (simp add: encode_nullable_def nullable_def accepts_finish)
next
  case (Some v)
  then show ?thesis using assms by (simp add: encode_nullable_def nullable_def)
qed

lemma nullable_decode:
  assumes "nullable d g = Ok x" "\<And>v. g d = Ok v \<Longrightarrow> dec_bytes d = f v"
  shows "dec_bytes d = encode_nullable x f"
  using assms is_null_finish [of d] by (auto simp: nullable_Ok_iff encode_nullable_def)

definition opt_bytes :: "Decoder \<Rightarrow> Error + bytes option" where
  "opt_bytes d = nullable d (\<lambda>x. map_err Cbor (bytes_value x))"

definition opt_uint :: "Decoder \<Rightarrow> Error + u64 option" where
  "opt_uint d = nullable d (\<lambda>x. map_err Cbor (uint_value x))"

lemma item_opt_bytes [simp]: "item (encode_nullable x encode_byte_string)"
  by (rule item_encode_nullable) auto

lemma item_opt_uint [simp]: "item (encode_nullable x encode_uint)"
  by (rule item_encode_nullable) auto

lemma opt_bytes_encode [codec_simps]:
  "accepts l (encode_nullable x encode_byte_string) \<Longrightarrow>
   opt_bytes (with_limits (encode_nullable x encode_byte_string) l) = Ok x"
  unfolding opt_bytes_def by (rule nullable_encode) (auto simp: codec_simps)

lemma opt_uint_encode [codec_simps]:
  "accepts l (encode_nullable x encode_uint) \<Longrightarrow>
   opt_uint (with_limits (encode_nullable x encode_uint) l) = Ok x"
  unfolding opt_uint_def by (rule nullable_encode) (auto simp: codec_simps)

section \<open>What has been read\<close>

lemma uint_value_read [decode_simps]: "uint_value d = Ok n \<Longrightarrow> dec_bytes d = encode_uint n"
  by (simp add: uint_value_Ok_iff)

lemma bytes_value_read [decode_simps]: "bytes_value d = Ok s \<Longrightarrow> dec_bytes d = encode_byte_string s"
  by (simp add: bytes_value_Ok_iff)

lemma text_value_read [decode_simps]:
  "text_value d = Ok s \<Longrightarrow> dec_bytes d = encode_text_string s"
  by (simp add: text_value_Ok_iff)

lemma opt_bytes_read [decode_simps]:
  "opt_bytes d = Ok x \<Longrightarrow> dec_bytes d = encode_nullable x encode_byte_string"
  unfolding opt_bytes_def by (erule nullable_decode) (auto simp: result_simps decode_simps)

lemma opt_uint_read [decode_simps]:
  "opt_uint d = Ok x \<Longrightarrow> dec_bytes d = encode_nullable x encode_uint"
  unfolding opt_uint_def by (erule nullable_decode) (auto simp: result_simps decode_simps)

lemma expect_tag_read: "expect_tag d t = Ok i \<Longrightarrow> dec_bytes d = encode_tag t (dec_bytes i)"
  by (simp add: expect_tag_Ok_iff tag_value_sound)

lemma array_read: "array d e = Ok ds \<Longrightarrow> dec_bytes d = encode_array (map dec_bytes ds)"
  by (rule array_sound)

text \<open>A list of known length is the list of its elements.\<close>

lemma map_of_length:
  "length xs = 2 \<Longrightarrow> map f xs = [f (xs ! 0), f (xs ! 1)]"
  "length xs = 3 \<Longrightarrow> map f xs = [f (xs ! 0), f (xs ! 1), f (xs ! 2)]"
  "length xs = 4 \<Longrightarrow> map f xs = [f (xs ! 0), f (xs ! 1), f (xs ! 2), f (xs ! 3)]"
  "length xs = 5 \<Longrightarrow> map f xs = [f (xs ! 0), f (xs ! 1), f (xs ! 2), f (xs ! 3), f (xs ! 4)]"
  "length xs = 6 \<Longrightarrow> map f xs = [f (xs ! 0), f (xs ! 1), f (xs ! 2), f (xs ! 3), f (xs ! 4), f (xs ! 5)]"
  "length xs = 7 \<Longrightarrow> map f xs = [f (xs ! 0), f (xs ! 1), f (xs ! 2), f (xs ! 3), f (xs ! 4), f (xs ! 5), f (xs ! 6)]"
  "length xs = 8 \<Longrightarrow> map f xs = [f (xs ! 0), f (xs ! 1), f (xs ! 2), f (xs ! 3), f (xs ! 4), f (xs ! 5), f (xs ! 6), f (xs ! 7)]"
  "length xs = 10 \<Longrightarrow> map f xs = [f (xs ! 0), f (xs ! 1), f (xs ! 2), f (xs ! 3), f (xs ! 4), f (xs ! 5), f (xs ! 6), f (xs ! 7), f (xs ! 8), f (xs ! 9)]"
  by (auto simp: numeral_eq_Suc length_Suc_conv)

lemma array_fields:
  assumes "array d (Some n) = Ok ds"
  shows "dec_bytes d = encode_array (map dec_bytes ds)" "length ds = n"
  using array_sound [OF assms] by auto

text \<open>An element of a decoded array that starts with the null byte is the null item.\<close>

lemma array_item_null:
  assumes "array d e = Ok ds" "i < length ds" "is_null (ds ! i)"
  shows "dec_bytes (ds ! i) = encode_null"
proof -
  obtain v where v: "cbor_wf v" "dec_bytes (ds ! i) = enc v"
    using array_elements [OF assms(1)] assms(2) by (metis nth_mem)
  obtain rest where "dec_bytes (ds ! i) = simple_NULL # rest" using assms(3) by (auto simp: is_null_iff)
  then show ?thesis using null_item v by (simp add: encode_null_def)
qed

lemma rmap_read:
  assumes "rmap f ds = Ok xs" "\<And>d x. f d = Ok x \<Longrightarrow> dec_bytes d = g x"
  shows "map dec_bytes ds = map g xs"
  using assms by (auto simp: rmap_Inr_iff list_all2_conv_all_nth intro: nth_equalityI)

end
