(* ===== verification/Predicates.thy ===== *)
theory Predicates
  imports Wire
begin

text \<open>
  Public keys and signatures (\<open>src/src/crypto/signature.rs\<close>, \<open>src/src/crypto/signer.rs\<close>), predicates
  (\<open>src/src/predicate/\<close>) and signature unlocks. The curve arithmetic of the crate \<open>k256\<close> is the
  parameter \<open>ec\<close>: a record of the operations the source calls, over an unspecified type of points.
  Scalars and field elements are natural numbers.
\<close>

section \<open>The operations of k256\<close>

record 'p k256 =
  k_sec1_valid :: "bytes \<Rightarrow> bool"
  k_from_slice :: "bytes \<Rightarrow> (nat \<times> nat) option"
  k_high_s :: "nat \<times> nat \<Rightarrow> bool"
  k_order :: nat
  k_decompress :: "bytes \<Rightarrow> u8 \<Rightarrow> 'p option"
  k_reduce_bytes :: "bytes \<Rightarrow> nat"
  k_invert :: "nat \<Rightarrow> nat option"
  k_mul :: "nat \<Rightarrow> nat \<Rightarrow> nat"
  k_neg :: "nat \<Rightarrow> nat"
  k_lincomb :: "'p \<Rightarrow> nat \<Rightarrow> 'p \<Rightarrow> nat \<Rightarrow> 'p"
  k_generator :: 'p
  k_is_identity :: "'p \<Rightarrow> bool"
  k_compressed :: "'p \<Rightarrow> bytes"
  k_secret_point :: "bytes \<Rightarrow> 'p option"
  k_sign :: "bytes \<Rightarrow> bytes \<Rightarrow> bytes \<times> u8"

section \<open>Public keys and signatures\<close>

record PublicKey =
  pk_bytes :: bytes

definition PublicKey_from_bytes :: "'p k256 \<Rightarrow> bytes \<Rightarrow> Error + PublicKey" where
  "PublicKey_from_bytes ec bytes =
     (if length bytes \<noteq> 33 then Err (InvalidLength ''secp256k1 public key'' 33 (length bytes))
      else if \<not> k_sec1_valid ec bytes then Err (Crypto ''invalid public key'')
      else Ok \<lparr>pk_bytes = bytes\<rparr>)"

record Signature =
  sig_bytes :: bytes
  sig_recovery :: u8

definition Signature_new :: "bytes \<Rightarrow> u8 \<Rightarrow> Error + Signature" where
  "Signature_new bytes recovery =
     (if recovery > 3 then Err (Crypto ''invalid recovery id'')
      else Ok \<lparr>sig_bytes = bytes, sig_recovery = recovery\<rparr>)"

definition Signature_decode :: "bytes \<Rightarrow> Error + Signature" where
  "Signature_decode input =
     (if length input \<noteq> 65 then Err (InvalidLength ''signature'' 65 (length input))
      else Signature_new (take 64 input) (input ! 64))"

definition Signature_from_cbor :: "Decoder \<Rightarrow> Error + Signature" where
  "Signature_from_cbor d = rbind (map_err Cbor (bytes_value d)) Signature_decode"

definition Signature_encode :: "Signature \<Rightarrow> bytes" where
  "Signature_encode s = sig_bytes s @ [sig_recovery s]"

definition Signature_to_cbor :: "Signature \<Rightarrow> bytes" where
  "Signature_to_cbor s = encode_byte_string (Signature_encode s)"

definition canonical :: "'p k256 \<Rightarrow> Signature \<Rightarrow> Error + (nat \<times> nat)" where
  "canonical ec s =
     rbind (ok_or (Crypto ''malformed signature scalars'') (k_from_slice ec (sig_bytes s))) (\<lambda>sig.
       if k_high_s ec sig then Err (Crypto ''non-canonical high-s signature'') else Ok sig)"

definition recover_point :: "'p k256 \<Rightarrow> Signature \<Rightarrow> bytes \<Rightarrow> Error + 'p" where
  "recover_point ec sg digest =
     (if length digest \<noteq> 32 then Err (Crypto ''digest must be 32 bytes'')
      else rbind (canonical ec sg) (\<lambda>(r, s).
        if sig_recovery sg > 3 then Err (Crypto ''invalid recovery id'')
        else rbind
          (if sig_recovery sg AND 2 \<noteq> 0
           then (if r + k_order ec < 2 ^ 256 then Ok (be_bytes 32 (r + k_order ec))
                 else Err (Crypto ''recovery lift overflows''))
           else Ok (be_bytes 32 r)) (\<lambda>x.
        rbind (ok_or (Crypto ''key recovery failed'') (k_decompress ec x (sig_recovery sg AND 1))) (\<lambda>big_r.
        let z = k_reduce_bytes ec digest
        in rbind (ok_or (Crypto ''key recovery failed'') (k_invert ec r)) (\<lambda>t.
             let a = k_mul ec s t; b = k_neg ec (k_mul ec z t);
                 q = k_lincomb ec big_r a (k_generator ec) b
             in if k_is_identity ec q then Err (Crypto ''key recovery failed'') else Ok q)))))"

definition sig_verify :: "'p k256 \<Rightarrow> Signature \<Rightarrow> bytes \<Rightarrow> PublicKey \<Rightarrow> bool" where
  "sig_verify ec sg digest public_key =
     (case recover_point ec sg digest of
        Inr q \<Rightarrow> k_compressed ec q = pk_bytes public_key | Inl _ \<Rightarrow> False)"

definition sig_recover :: "'p k256 \<Rightarrow> Signature \<Rightarrow> bytes \<Rightarrow> Error + PublicKey" where
  "sig_recover ec sg digest =
     rbind (recover_point ec sg digest) (\<lambda>q. PublicKey_from_bytes ec (k_compressed ec q))"

section \<open>Signers\<close>

text \<open>A signer holds its secret; \<open>public_key\<close> is its compressed point.\<close>

record Secp256k1Signer =
  sk_secret :: bytes

definition Secp256k1Signer_from_bytes :: "'p k256 \<Rightarrow> bytes \<Rightarrow> Error + Secp256k1Signer" where
  "Secp256k1Signer_from_bytes ec secret =
     (case k_secret_point ec secret of
        None \<Rightarrow> Err (Crypto ''invalid private key'') | Some _ \<Rightarrow> Ok \<lparr>sk_secret = secret\<rparr>)"

definition signer_public_key :: "'p k256 \<Rightarrow> Secp256k1Signer \<Rightarrow> PublicKey option" where
  "signer_public_key ec s =
     (case k_secret_point ec (sk_secret s) of
        None \<Rightarrow> None
      | Some q \<Rightarrow> (case PublicKey_from_bytes ec (k_compressed ec q) of
                   Inr p \<Rightarrow> Some p | Inl _ \<Rightarrow> None))"

definition signer_sign :: "'p k256 \<Rightarrow> Secp256k1Signer \<Rightarrow> DataHash \<Rightarrow> Signature option" where
  "signer_sign ec s digest =
     (case k_sign ec (sk_secret s) (dh_data digest) of
        (sig, rid) \<Rightarrow> (case Signature_new sig rid of Inr r \<Rightarrow> Some r | Inl _ \<Rightarrow> None))"

section \<open>Predicates\<close>

definition ENCODED_PREDICATE_TAG :: u64 where "ENCODED_PREDICATE_TAG = 39032"

datatype PredicateEngine = BuiltIn

primrec engine_id :: "PredicateEngine \<Rightarrow> u64" where
  "engine_id BuiltIn = 1"

definition engine_from_id :: "u64 \<Rightarrow> Error + PredicateEngine" where
  "engine_from_id i =
     (if i = 1 then Ok BuiltIn else Err (UnexpectedValue ''unknown predicate engine''))"

record EncodedPredicate =
  ep_engine :: PredicateEngine
  ep_code :: bytes
  ep_parameters :: bytes

definition EncodedPredicate_to_cbor :: "EncodedPredicate \<Rightarrow> bytes" where
  "EncodedPredicate_to_cbor p =
     encode_tag ENCODED_PREDICATE_TAG (encode_array
       [encode_uint (engine_id (ep_engine p)),
        encode_byte_string (ep_code p),
        encode_byte_string (ep_parameters p)])"

definition EncodedPredicate_from_cbor :: "Decoder \<Rightarrow> Error + EncodedPredicate" where
  "EncodedPredicate_from_cbor d =
     rbind (map_err Cbor (expect_tag d ENCODED_PREDICATE_TAG)) (\<lambda>inner.
     rbind (map_err Cbor (array inner (Some 3))) (\<lambda>items.
     rbind (map_err Cbor (uint_value (items ! 0))) (\<lambda>i.
     rbind (engine_from_id i) (\<lambda>engine.
     rbind (map_err Cbor (bytes_value (items ! 1))) (\<lambda>code.
     rbind (map_err Cbor (bytes_value (items ! 2))) (\<lambda>parameters.
       Ok \<lparr>ep_engine = engine, ep_code = code, ep_parameters = parameters\<rparr>))))))"

datatype BuiltInPredicateType = SignatureType | BurnType | UnicityIdType

primrec builtin_id :: "BuiltInPredicateType \<Rightarrow> u64" where
  "builtin_id SignatureType = 0x01"
| "builtin_id BurnType = 0x02"
| "builtin_id UnicityIdType = 0x100"

definition builtin_from_id :: "u64 \<Rightarrow> Error + BuiltInPredicateType" where
  "builtin_from_id i =
     (if i = 0x01 then Ok SignatureType else if i = 0x02 then Ok BurnType
      else if i = 0x100 then Ok UnicityIdType
      else Err (UnexpectedValue ''unknown built-in predicate type''))"

definition builtin_type :: "EncodedPredicate \<Rightarrow> Error + BuiltInPredicateType" where
  "builtin_type p =
     (if ep_engine p \<noteq> BuiltIn then Err (UnexpectedValue ''predicate engine is not built-in'')
      else let decoder = decoder_new (ep_code p)
        in rbind (map_err Cbor (finish decoder)) (\<lambda>_.
           rbind (map_err Cbor (uint_value decoder)) builtin_from_id))"

record SignaturePredicate =
  sp_public_key :: PublicKey

definition SignaturePredicate_from_encoded ::
  "'p k256 \<Rightarrow> EncodedPredicate \<Rightarrow> Error + SignaturePredicate" where
  "SignaturePredicate_from_encoded ec p =
     rbind (builtin_type p) (\<lambda>t.
       if t \<noteq> SignatureType then Err (UnexpectedValue ''not a signature predicate'')
       else rbind (PublicKey_from_bytes ec (ep_parameters p)) (\<lambda>k. Ok \<lparr>sp_public_key = k\<rparr>))"

definition SignaturePredicate_to_encoded :: "SignaturePredicate \<Rightarrow> EncodedPredicate" where
  "SignaturePredicate_to_encoded p =
     \<lparr>ep_engine = BuiltIn, ep_code = encode_uint (builtin_id SignatureType),
      ep_parameters = pk_bytes (sp_public_key p)\<rparr>"

record BurnPredicate =
  bp_reason :: bytes

definition BurnPredicate_from_encoded :: "EncodedPredicate \<Rightarrow> Error + BurnPredicate" where
  "BurnPredicate_from_encoded p =
     rbind (builtin_type p) (\<lambda>t.
       if t \<noteq> BurnType then Err (UnexpectedValue ''not a burn predicate'')
       else Ok \<lparr>bp_reason = ep_parameters p\<rparr>)"

definition BurnPredicate_to_encoded :: "BurnPredicate \<Rightarrow> EncodedPredicate" where
  "BurnPredicate_to_encoded p =
     \<lparr>ep_engine = BuiltIn, ep_code = encode_uint (builtin_id BurnType), ep_parameters = bp_reason p\<rparr>"

section \<open>Signature unlocks\<close>

definition signature_unlock_message :: "sha2 \<Rightarrow> DataHash \<Rightarrow> DataHash \<Rightarrow> DataHash" where
  "signature_unlock_message sha2 source_state_hash transaction_hash =
     sha256 sha2 (encode_array [encode_byte_string (dh_data source_state_hash),
       encode_byte_string (dh_data transaction_hash)])"

definition verify_signature_unlock ::
  "sha2 \<Rightarrow> 'p k256 \<Rightarrow> PublicKey \<Rightarrow> DataHash \<Rightarrow> DataHash \<Rightarrow> bytes \<Rightarrow> bool" where
  "verify_signature_unlock sha2 ec public_key source_state_hash transaction_hash unlock_script =
     (case Signature_decode unlock_script of
        Inl _ \<Rightarrow> False
      | Inr signature \<Rightarrow>
          sig_verify ec signature
            (dh_data (signature_unlock_message sha2 source_state_hash transaction_hash)) public_key)"

definition sign_signature_unlock ::
  "sha2 \<Rightarrow> 'p k256 \<Rightarrow> Secp256k1Signer \<Rightarrow> DataHash \<Rightarrow> DataHash \<Rightarrow> bytes option" where
  "sign_signature_unlock sha2 ec signer source_state_hash transaction_hash =
     map_option Signature_encode
       (signer_sign ec signer (signature_unlock_message sha2 source_state_hash transaction_hash))"

section \<open>Lemmas\<close>

definition Signature_wf :: "Signature \<Rightarrow> bool" where
  "Signature_wf s \<longleftrightarrow> length (sig_bytes s) = 64 \<and> sig_recovery s \<le> 3"

lemma Signature_decode_Ok_iff:
  "Signature_decode b = Ok s \<longleftrightarrow> Signature_wf s \<and> b = Signature_encode s"
proof -
  have "take 64 b @ [b ! 64] = b" if "length b = 65"
    using that take_Suc_conv_app_nth [of 64 b] by simp
  then show ?thesis
    by (cases s) (auto simp: Signature_decode_def Signature_new_def Signature_wf_def Signature_encode_def
      nth_append)
qed

lemma engine_from_id_iff: "engine_from_id i = Ok e \<longleftrightarrow> i = engine_id e"
  by (cases e) (simp add: engine_from_id_def)

lemma builtin_from_id_iff: "builtin_from_id i = Ok t \<longleftrightarrow> i = builtin_id t"
  by (cases t) (auto simp: builtin_from_id_def)

interpretation signature: canonical_codec Signature_to_cbor Signature_from_cbor Signature_wf
  by unfold_locales
    (auto simp: Signature_to_cbor_def Signature_from_cbor_def result_simps Signature_decode_Ok_iff
      codec_simps decode_simps)

interpretation predicate: canonical_codec EncodedPredicate_to_cbor EncodedPredicate_from_cbor "\<lambda>_. True"
proof (unfold_locales, goal_cases)
  case (1 x)
  then show ?case by (simp add: EncodedPredicate_to_cbor_def item_array_list)
next
  case (3 x l)
  note acc = tagged_array [OF 3(2) [unfolded EncodedPredicate_to_cbor_def]]
  then show ?case
    by (simp add: EncodedPredicate_to_cbor_def EncodedPredicate_from_cbor_def codec_simps
        engine_from_id_iff [THEN iffD2])
next
  case (4 d x)
  then obtain inner items where "expect_tag d ENCODED_PREDICATE_TAG = Ok inner"
    "array inner (Some 3) = Ok items" "uint_value (items ! 0) = Ok (engine_id (ep_engine x))"
    "bytes_value (items ! 1) = Ok (ep_code x)" "bytes_value (items ! 2) = Ok (ep_parameters x)"
    by (auto simp: EncodedPredicate_from_cbor_def result_simps engine_from_id_iff)
  then show ?case
    by (simp add: EncodedPredicate_to_cbor_def expect_tag_read array_fields map_of_length decode_simps)
qed simp

end
