(* ===== verification/Certificates.thy ===== *)
theory Certificates
  imports Predicates Radix
begin

text \<open>
  State ids, leaf values and certification data (\<open>src/src/api/state_id.rs\<close>, \<open>leaf_value.rs\<close>,
  \<open>certification.rs\<close>, \<open>network_id.rs\<close>), and the inclusion and non-inclusion certificates of the
  aggregation tree (\<open>inclusion_certificate.rs\<close>, \<open>non_inclusion_certificate.rs\<close>). A state id is its 32
  bytes.
\<close>

section \<open>Network and state ids, leaf values\<close>

record NetworkId =
  net_id :: u16

definition NetworkId_new :: "u16 \<Rightarrow> Error + NetworkId" where
  "NetworkId_new i =
     (if i = 0 then Err (OutOfRange ''network id must be >= 1'') else Ok \<lparr>net_id = i\<rparr>)"

record StateId =
  sid_bytes :: bytes

definition StateId_derive :: "sha2 \<Rightarrow> EncodedPredicate \<Rightarrow> DataHash \<Rightarrow> StateId" where
  "StateId_derive sha2 lock_script source_state_hash =
     \<lparr>sid_bytes = dh_data (sha256 sha2 (encode_array
        [EncodedPredicate_to_cbor lock_script, encode_byte_string (dh_data source_state_hash)]))\<rparr>"

definition StateId_to_cbor :: "StateId \<Rightarrow> bytes" where
  "StateId_to_cbor s = encode_byte_string (sid_bytes s)"

definition StateId_from_cbor :: "Decoder \<Rightarrow> Error + StateId" where
  "StateId_from_cbor d =
     rbind (map_err Cbor (bytes_value d)) (\<lambda>bytes.
       if length bytes \<noteq> 32 then Err (InvalidLength ''StateId'' 32 (length bytes))
       else Ok \<lparr>sid_bytes = bytes\<rparr>)"

definition calculate_leaf_value :: "sha2 \<Rightarrow> DataHash \<Rightarrow> u64 \<Rightarrow> DataHash" where
  "calculate_leaf_value sha2 transaction_hash reference_time =
     sha256 sha2 (encode_array
       [encode_byte_string (dh_data transaction_hash), encode_uint reference_time])"

section \<open>Certification data\<close>

definition CERTIFICATION_DATA_TAG :: u64 where "CERTIFICATION_DATA_TAG = 39031"
definition CERTIFICATION_DATA_VERSION :: u64 where "CERTIFICATION_DATA_VERSION = 2"

record CertificationData =
  cd_lock_script :: EncodedPredicate
  cd_source_state_hash :: DataHash
  cd_transaction_hash :: DataHash
  cd_expires_at :: "u64 option"
  cd_unlock_script :: bytes

definition CertificationData_to_cbor :: "CertificationData \<Rightarrow> bytes" where
  "CertificationData_to_cbor c =
     encode_tag CERTIFICATION_DATA_TAG (encode_array
       [encode_uint CERTIFICATION_DATA_VERSION,
        EncodedPredicate_to_cbor (cd_lock_script c),
        encode_byte_string (dh_data (cd_source_state_hash c)),
        encode_byte_string (dh_data (cd_transaction_hash c)),
        encode_nullable (cd_expires_at c) encode_uint,
        encode_byte_string (cd_unlock_script c)])"

definition sha256_field :: "Decoder \<Rightarrow> Error + DataHash" where
  "sha256_field d = rbind (map_err Cbor (bytes_value d)) (DataHash_new Sha256)"

definition CertificationData_from_cbor :: "Decoder \<Rightarrow> Error + CertificationData" where
  "CertificationData_from_cbor d =
     rbind (map_err Cbor (expect_tag d CERTIFICATION_DATA_TAG)) (\<lambda>inner.
     rbind (map_err Cbor (array inner (Some 6))) (\<lambda>items.
     rbind (map_err Cbor (uint_value (items ! 0))) (\<lambda>version.
       if version \<noteq> CERTIFICATION_DATA_VERSION
       then Err (UnexpectedValue ''unsupported CertificationData version'')
       else
         rbind (EncodedPredicate_from_cbor (items ! 1)) (\<lambda>lock_script.
         rbind (sha256_field (items ! 2)) (\<lambda>source_state_hash.
         rbind (sha256_field (items ! 3)) (\<lambda>transaction_hash.
         rbind (opt_uint (items ! 4)) (\<lambda>expires_at.
         rbind (map_err Cbor (bytes_value (items ! 5))) (\<lambda>unlock_script.
           Ok \<lparr>cd_lock_script = lock_script, cd_source_state_hash = source_state_hash,
               cd_transaction_hash = transaction_hash, cd_expires_at = expires_at,
               cd_unlock_script = unlock_script\<rparr>))))))))"

section \<open>Inclusion certificates\<close>

definition count_ones :: "u8 \<Rightarrow> nat" where
  "count_ones b = length (filter (bit b) [0..<8])"

definition popcount :: "bytes \<Rightarrow> nat" where
  "popcount bs = sum_list (map count_ones bs)"

function chunks_exact :: "nat \<Rightarrow> 'a list \<Rightarrow> 'a list list" where
  "chunks_exact n xs =
     (if n = 0 \<or> length xs < n then [] else take n xs # chunks_exact n (drop n xs))"
  by pat_completeness auto
termination
  by (relation "measure (\<lambda>(n, xs). length xs)") auto

declare chunks_exact.simps [simp del]

record InclusionCertificate =
  ic_bitmap :: bytes
  ic_siblings :: "bytes list"

definition InclusionCertificate_decode :: "bytes \<Rightarrow> Error + InclusionCertificate" where
  "InclusionCertificate_decode bytes =
     (if length bytes < 32
      then Err (InvalidLength ''InclusionCertificate bitmap'' 32 (length bytes))
      else
        let sibling_bytes = length bytes - 32
        in if sibling_bytes mod 32 \<noteq> 0 then Err (UnexpectedValue ''inclusion siblings misaligned'')
           else
             let bitmap = take 32 bytes; count = sibling_bytes div 32
             in if popcount bitmap \<noteq> count
                then Err (UnexpectedValue ''inclusion sibling count does not match bitmap'')
                else Ok \<lparr>ic_bitmap = bitmap, ic_siblings = chunks_exact 32 (drop 32 bytes)\<rparr>)"

definition InclusionCertificate_encode :: "InclusionCertificate \<Rightarrow> bytes" where
  "InclusionCertificate_encode c = ic_bitmap c @ concat (ic_siblings c)"

definition InclusionCertificate_verify ::
  "sha2 \<Rightarrow> InclusionCertificate \<Rightarrow> StateId \<Rightarrow> DataHash \<Rightarrow> DataHash \<Rightarrow> bool" where
  "InclusionCertificate_verify sha2 c leaf_key leaf_value expected_root =
     (let key = sid_bytes leaf_key
      in case fold_certificate_path sha2 (ic_bitmap c) (ic_siblings c) key key (dh_data leaf_value) of
           Some hash \<Rightarrow> hash = expected_root | None \<Rightarrow> False)"

section \<open>Non-inclusion certificates\<close>

definition AGGREGATION_TREE_VALUE_SIZE :: usize where "AGGREGATION_TREE_VALUE_SIZE = 32"

record NiBody =
  nb_bitmap :: bytes
  nb_siblings :: "bytes list"
  nb_terminal_key :: bytes
  nb_terminal_value :: bytes

record NonInclusionCertificate =
  nic_body :: "NiBody option"

datatype PathRelation = Absent | Present

definition empty_tree :: NonInclusionCertificate where
  "empty_tree = \<lparr>nic_body = None\<rparr>"

definition NonInclusionCertificate_from_parts ::
  "bytes \<Rightarrow> bytes list \<Rightarrow> bytes \<Rightarrow> bytes \<Rightarrow> Error + NonInclusionCertificate" where
  "NonInclusionCertificate_from_parts bitmap siblings terminal_key terminal_value =
     (let expected = popcount bitmap
      in if length siblings \<noteq> expected
         then Err (InvalidLength ''NonInclusionCertificate siblings'' expected (length siblings))
         else Ok \<lparr>nic_body = Some \<lparr>nb_bitmap = bitmap, nb_siblings = siblings,
                    nb_terminal_key = terminal_key, nb_terminal_value = terminal_value\<rparr>\<rparr>)"

definition NonInclusionCertificate_decode :: "bytes \<Rightarrow> Error + NonInclusionCertificate" where
  "NonInclusionCertificate_decode bytes =
     (if bytes = [] then Ok empty_tree
      else if length bytes < 32
      then Err (InvalidLength ''NonInclusionCertificate bitmap'' 32 (length bytes))
      else
        let bitmap = take 32 bytes; sibling_count = popcount bitmap
        in rbind (ok_or (OutOfRange ''NonInclusionCertificate encoded length overflow'')
             (Option.bind (checked_add 32 (sibling_count * 32)) (\<lambda>size. checked_add size 32)))
           (\<lambda>terminal_offset.
             if length bytes < terminal_offset
             then Err (InvalidLength ''NonInclusionCertificate''
                    (terminal_offset + AGGREGATION_TREE_VALUE_SIZE) (length bytes))
             else
               let terminal_value_size = length bytes - terminal_offset
               in if terminal_value_size \<noteq> AGGREGATION_TREE_VALUE_SIZE
                  then Err (InvalidLength ''Unicity aggregation-tree terminal value''
                         AGGREGATION_TREE_VALUE_SIZE terminal_value_size)
                  else
                    let siblings_end = 32 + sibling_count * 32;
                        siblings = chunks_exact 32 (take (siblings_end - 32) (drop 32 bytes));
                        terminal_key = take 32 (drop siblings_end bytes);
                        terminal_value = drop (siblings_end + 32) bytes
                    in NonInclusionCertificate_from_parts bitmap siblings terminal_key terminal_value))"

definition NonInclusionCertificate_encode :: "NonInclusionCertificate \<Rightarrow> bytes" where
  "NonInclusionCertificate_encode c =
     (case nic_body c of None \<Rightarrow> []
      | Some body \<Rightarrow> nb_bitmap body @ concat (nb_siblings body) @ nb_terminal_key body @
          nb_terminal_value body)"

definition authenticates ::
  "sha2 \<Rightarrow> NonInclusionCertificate \<Rightarrow> StateId \<Rightarrow> DataHash option \<Rightarrow> bool" where
  "authenticates sha2 c target expected_root =
     (case (nic_body c, expected_root) of
        (None, None) \<Rightarrow> True
      | (None, Some _) \<Rightarrow> False
      | (Some _, None) \<Rightarrow> False
      | (Some body, Some root) \<Rightarrow>
          (case fold_certificate_path sha2 (nb_bitmap body) (nb_siblings body) (sid_bytes target)
                  (nb_terminal_key body) (nb_terminal_value body) of
             Some calculated \<Rightarrow> calculated = root | None \<Rightarrow> False))"

definition terminal_matches :: "NonInclusionCertificate \<Rightarrow> StateId \<Rightarrow> bool" where
  "terminal_matches c target =
     (case nic_body c of Some body \<Rightarrow> nb_terminal_key body = sid_bytes target | None \<Rightarrow> False)"

definition relation_to_trusted_root ::
  "sha2 \<Rightarrow> NonInclusionCertificate \<Rightarrow> StateId \<Rightarrow> DataHash option \<Rightarrow> unit + PathRelation" where
  "relation_to_trusted_root sha2 c target trusted_root =
     (if \<not> authenticates sha2 c target trusted_root then Err ()
      else Ok (if terminal_matches c target then Present else Absent))"

section \<open>Codecs\<close>

definition StateId_wf :: "StateId \<Rightarrow> bool" where
  "StateId_wf s \<longleftrightarrow> length (sid_bytes s) = 32"

interpretation state_id: canonical_codec StateId_to_cbor StateId_from_cbor StateId_wf
  by unfold_locales
    (auto simp: StateId_to_cbor_def StateId_from_cbor_def StateId_wf_def result_simps codec_simps
      decode_simps split: if_splits)

definition sha256_wf :: "DataHash \<Rightarrow> bool" where
  "sha256_wf h \<longleftrightarrow> dh_algorithm h = Sha256 \<and> length (dh_data h) = 32"

lemma sha256_field_encode [codec_simps]:
  "accepts l (encode_byte_string (dh_data h)) \<Longrightarrow> sha256_wf h \<Longrightarrow>
   sha256_field (with_limits (encode_byte_string (dh_data h)) l) = Ok h"
  by (simp add: sha256_field_def codec_simps DataHash_new_Ok_iff DataHash_wf_def sha256_wf_def)

lemma sha256_field_read [decode_simps]:
  "sha256_field d = Ok h \<Longrightarrow> dec_bytes d = encode_byte_string (dh_data h)"
  by (auto simp: sha256_field_def result_simps decode_simps)

lemma sha256_field_wf: "sha256_field d = Ok h \<Longrightarrow> sha256_wf h"
  by (auto simp: sha256_field_def result_simps DataHash_wf_def sha256_wf_def)

lemma sha256_wf_sha256: "sha2_lengths sha2 \<Longrightarrow> sha256_wf (sha256 sha2 x)"
  by (simp add: sha256_wf_def sha2_lengths_def)

definition CertificationData_wf :: "CertificationData \<Rightarrow> bool" where
  "CertificationData_wf c \<longleftrightarrow> sha256_wf (cd_source_state_hash c) \<and> sha256_wf (cd_transaction_hash c)"

lemmas predicate_encode [codec_simps] = predicate.decode_encode [OF TrueI]

lemma predicate_read [decode_simps]:
  "EncodedPredicate_from_cbor d = Ok p \<Longrightarrow> dec_bytes d = EncodedPredicate_to_cbor p"
  by (simp add: predicate.encode_decode)

lemma item_predicate [simp]: "item (EncodedPredicate_to_cbor p)"
  by (rule predicate.encodes_item [OF TrueI])

interpretation certification:
  canonical_codec CertificationData_to_cbor CertificationData_from_cbor CertificationData_wf
proof (unfold_locales, goal_cases)
  case (1 x)
  then show ?case by (simp add: CertificationData_to_cbor_def item_array_list)
next
  case (2 d x)
  then show ?case
    by (auto simp: CertificationData_from_cbor_def CertificationData_wf_def result_simps
        dest: sha256_field_wf split: if_splits)
next
  case (3 x l)
  from tagged_array [OF 3(2) [unfolded CertificationData_to_cbor_def]] 3(1) show ?case
    by (simp add: CertificationData_to_cbor_def CertificationData_from_cbor_def CertificationData_wf_def
        codec_simps)
next
  case (4 d x)
  then obtain inner items where "expect_tag d CERTIFICATION_DATA_TAG = Ok inner"
    "array inner (Some 6) = Ok items" "uint_value (items ! 0) = Ok CERTIFICATION_DATA_VERSION"
    "EncodedPredicate_from_cbor (items ! 1) = Ok (cd_lock_script x)"
    "sha256_field (items ! 2) = Ok (cd_source_state_hash x)"
    "sha256_field (items ! 3) = Ok (cd_transaction_hash x)"
    "opt_uint (items ! 4) = Ok (cd_expires_at x)" "bytes_value (items ! 5) = Ok (cd_unlock_script x)"
    by (auto simp: CertificationData_from_cbor_def result_simps split: if_splits)
  then show ?case
    by (simp add: CertificationData_to_cbor_def expect_tag_read array_fields map_of_length decode_simps)
qed

section \<open>Certificate bytes\<close>

lemma concat_chunks_exact:
  "0 < n \<Longrightarrow> n dvd length xs \<Longrightarrow> concat (chunks_exact n xs) = xs \<and> list_all (\<lambda>c. length c = n) (chunks_exact n xs) \<and>
     length (chunks_exact n xs) = length xs div n"
proof (induction n xs rule: chunks_exact.induct)
  case (1 n xs)
  show ?case
  proof (cases "length xs < n")
    case True
    then have "xs = []" using "1.prems" by (auto dest: dvd_imp_le)
    then show ?thesis using True by (simp add: chunks_exact.simps [of n "[]"])
  next
    case False
    then have "concat (chunks_exact n (drop n xs)) = drop n xs \<and>
        list_all (\<lambda>c. length c = n) (chunks_exact n (drop n xs)) \<and>
        length (chunks_exact n (drop n xs)) = (length xs - n) div n"
      using "1.IH" "1.prems" by (auto simp: dvd_diff_nat)
    moreover have "length xs div n = Suc ((length xs - n) div n)"
      using False "1.prems" by (simp add: le_div_geq)
    ultimately show ?thesis using False "1.prems" by (simp add: chunks_exact.simps [of n xs])
  qed
qed

lemma chunks_exact_concat:
  "0 < n \<Longrightarrow> list_all (\<lambda>c. length c = n) cs \<Longrightarrow> chunks_exact n (concat cs) = cs"
  by (induction cs) (auto simp: chunks_exact.simps)

lemma length_concat_chunks: "list_all (\<lambda>c. length c = n) cs \<Longrightarrow> length (concat cs) = n * length cs"
  by (induction cs) auto

definition InclusionCertificate_wf :: "InclusionCertificate \<Rightarrow> bool" where
  "InclusionCertificate_wf c \<longleftrightarrow> length (ic_bitmap c) = 32 \<and>
     list_all (\<lambda>s. length s = 32) (ic_siblings c) \<and> popcount (ic_bitmap c) = length (ic_siblings c)"

lemma InclusionCertificate_decode_Ok_iff:
  "InclusionCertificate_decode b = Ok c \<longleftrightarrow> InclusionCertificate_wf c \<and> b = InclusionCertificate_encode c"
proof
  assume "InclusionCertificate_decode b = Ok c"
  then show "InclusionCertificate_wf c \<and> b = InclusionCertificate_encode c"
    using concat_chunks_exact [of 32 "drop 32 b"]
    by (auto simp: InclusionCertificate_decode_def InclusionCertificate_wf_def Let_def
        InclusionCertificate_encode_def mod_eq_0_iff_dvd split: if_splits)
next
  assume "InclusionCertificate_wf c \<and> b = InclusionCertificate_encode c"
  then show "InclusionCertificate_decode b = Ok c"
    using length_concat_chunks [of 32 "ic_siblings c"]
    by (simp add: InclusionCertificate_decode_def InclusionCertificate_wf_def Let_def
        InclusionCertificate_encode_def chunks_exact_concat)
qed

definition NonInclusionCertificate_wf :: "NonInclusionCertificate \<Rightarrow> bool" where
  "NonInclusionCertificate_wf c \<longleftrightarrow> (case nic_body c of None \<Rightarrow> True
     | Some body \<Rightarrow> length (nb_bitmap body) = 32 \<and> list_all (\<lambda>s. length s = 32) (nb_siblings body) \<and>
         popcount (nb_bitmap body) = length (nb_siblings body) \<and>
         length (nb_terminal_key body) = 32 \<and> length (nb_terminal_value body) = 32)"

lemma count_ones_le: "count_ones b \<le> 8"
  using length_filter_le [of "bit b" "[0..<8]"] by (simp add: count_ones_def)

lemma popcount_le: "popcount bs \<le> 8 * length bs"
proof (induction bs)
  case (Cons b bs)
  then show ?case using count_ones_le [of b] by (simp add: popcount_def)
qed (simp add: popcount_def)

lemma NonInclusionCertificate_encode_decode:
  assumes dec: "NonInclusionCertificate_decode b = Ok c"
  shows "NonInclusionCertificate_wf c \<and> b = NonInclusionCertificate_encode c"
proof (cases "b = []")
  case True
  then show ?thesis using dec
    by (auto simp: NonInclusionCertificate_decode_def empty_tree_def NonInclusionCertificate_wf_def
        NonInclusionCertificate_encode_def)
next
  case False
  define n where "n = popcount (take 32 b)"
  define m where "m = take (n * 32) (drop 32 b)"
  have len: "length b = 32 + n * 32 + 32 + 32"
    and c: "NonInclusionCertificate_from_parts (take 32 b) (chunks_exact 32 m)
      (take 32 (drop (32 + n * 32) b)) (drop (32 + n * 32 + 32) b) = Ok c"
    using dec False
    by (auto simp: NonInclusionCertificate_decode_def Let_def n_def m_def AGGREGATION_TREE_VALUE_SIZE_def
        checked_add_def bind_eq_Some_conv split: if_splits)
  have m: "length m = n * 32" using len by (simp add: m_def)
  have split: "b = take 32 b @ m @ take 32 (drop (32 + n * 32) b) @ drop (32 + n * 32 + 32) b"
    unfolding m_def using append_take_drop_id [of 32 b] drop_take_split [of 32 b "n * 32"]
      drop_take_split [of "32 + n * 32" b 32] by metis
  have "NonInclusionCertificate_encode c =
      take 32 b @ m @ take 32 (drop (32 + n * 32) b) @ drop (32 + n * 32 + 32) b"
    using concat_chunks_exact [of 32 m] m c
    by (auto simp: NonInclusionCertificate_from_parts_def NonInclusionCertificate_encode_def Let_def
        split: if_splits)
  then have "b = NonInclusionCertificate_encode c" using split by (rule trans [OF _ sym, rotated])
  moreover have "NonInclusionCertificate_wf c"
    using concat_chunks_exact [of 32 m] m c len
    by (auto simp: NonInclusionCertificate_from_parts_def NonInclusionCertificate_wf_def
        n_def [symmetric] Let_def split: if_splits)
  ultimately show ?thesis by blast
qed

lemma NonInclusionCertificate_decode_encode:
  assumes "NonInclusionCertificate_wf c"
  shows "NonInclusionCertificate_decode (NonInclusionCertificate_encode c) = Ok c"
proof (cases "nic_body c")
  case None
  then show ?thesis
    by (cases c) (simp add: NonInclusionCertificate_encode_def NonInclusionCertificate_decode_def empty_tree_def)
next
  case (Some body)
  let ?n = "length (nb_siblings body)"
  have wf: "length (nb_bitmap body) = 32" "list_all (\<lambda>s. length s = 32) (nb_siblings body)"
      "popcount (nb_bitmap body) = ?n" "length (nb_terminal_key body) = 32"
      "length (nb_terminal_value body) = 32"
    using assms Some by (simp_all add: NonInclusionCertificate_wf_def)
  have sib: "length (concat (nb_siblings body)) = ?n * 32"
    using length_concat_chunks [OF wf(2)] by simp
  have "?n \<le> 256" using popcount_le [of "nb_bitmap body"] wf by simp
  then show ?thesis
    using wf sib chunks_exact_concat [OF _ wf(2)] Some
    by (cases c) (auto simp: NonInclusionCertificate_encode_def NonInclusionCertificate_decode_def Let_def
        checked_add_def AGGREGATION_TREE_VALUE_SIZE_def NonInclusionCertificate_from_parts_def)
qed

section \<open>One root, one answer\<close>

definition ic_preimages :: "sha2 \<Rightarrow> InclusionCertificate \<Rightarrow> StateId \<Rightarrow> DataHash \<Rightarrow> bytes set" where
  "ic_preimages sha2 c key val =
     set (path_preimages sha2 (ic_bitmap c) (ic_siblings c) (sid_bytes key) (sid_bytes key) (dh_data val) 0)"

definition nic_preimages :: "sha2 \<Rightarrow> NonInclusionCertificate \<Rightarrow> StateId \<Rightarrow> bytes set" where
  "nic_preimages sha2 c key =
     (case nic_body c of None \<Rightarrow> {}
      | Some body \<Rightarrow> set (path_preimages sha2 (nb_bitmap body) (nb_siblings body) (sid_bytes key)
          (nb_terminal_key body) (nb_terminal_value body) 0))"

lemma InclusionCertificate_verify_iff:
  "InclusionCertificate_verify sha2 c key val root \<longleftrightarrow>
     fold_certificate_path sha2 (ic_bitmap c) (ic_siblings c) (sid_bytes key) (sid_bytes key) (dh_data val)
       = Some root"
  by (auto simp: InclusionCertificate_verify_def Let_def split: option.splits)

lemma inclusion_path_wf:
  "InclusionCertificate_wf c \<Longrightarrow> StateId_wf key \<Longrightarrow> path_wf (ic_siblings c) (sid_bytes key)"
  by (simp add: InclusionCertificate_wf_def StateId_wf_def path_wf_def)

lemma inclusion_unique:
  assumes "sha2_lengths sha2" "InclusionCertificate_wf c" "InclusionCertificate_wf c'" "StateId_wf key"
    and "InclusionCertificate_verify sha2 c key val root" "InclusionCertificate_verify sha2 c' key val' root"
  shows "dh_data val = dh_data val' \<or>
    collides sha2 (ic_preimages sha2 c key val) (ic_preimages sha2 c' key val')"
  using fold_certificate_path_unique [OF assms(1) inclusion_path_wf [OF assms(2,4)]
      inclusion_path_wf [OF assms(3,4)] assms(5,6) [unfolded InclusionCertificate_verify_iff]]
  by (auto simp: ic_preimages_def)

lemma authenticates_Some_iff:
  "authenticates sha2 c key (Some root) \<longleftrightarrow> (\<exists>body. nic_body c = Some body \<and>
     fold_certificate_path sha2 (nb_bitmap body) (nb_siblings body) (sid_bytes key)
       (nb_terminal_key body) (nb_terminal_value body) = Some root)"
  by (auto simp: authenticates_def split: option.splits)

lemma inclusion_excludes_absence:
  assumes "sha2_lengths sha2" "InclusionCertificate_wf c" "NonInclusionCertificate_wf n" "StateId_wf key"
    and incl: "InclusionCertificate_verify sha2 c key val root"
    and absent: "relation_to_trusted_root sha2 n key (Some root) = Ok Absent"
  shows "collides sha2 (ic_preimages sha2 c key val) (nic_preimages sha2 n key)"
proof -
  obtain body where body: "nic_body n = Some body" "nb_terminal_key body \<noteq> sid_bytes key"
    and fold: "fold_certificate_path sha2 (nb_bitmap body) (nb_siblings body) (sid_bytes key)
       (nb_terminal_key body) (nb_terminal_value body) = Some root"
    using absent by (auto simp: relation_to_trusted_root_def authenticates_Some_iff terminal_matches_def
        split: if_splits)
  have "path_wf (nb_siblings body) (nb_terminal_key body)"
    using assms(3) body(1) by (simp add: NonInclusionCertificate_wf_def path_wf_def)
  from fold_certificate_path_unique [OF assms(1) inclusion_path_wf [OF assms(2,4)] this
      incl [unfolded InclusionCertificate_verify_iff] fold] body
  show ?thesis by (auto simp: ic_preimages_def nic_preimages_def)
qed

end
