(* ===== verification/Bft.thy ===== *)
theory Bft
  imports Certificates Shard_Id
begin

text \<open>
  The BFT certificate (\<open>src/src/api/bft/\<close>): shard-tree and unicity-tree certificates, input record,
  unicity seal and unicity certificate with their wire formats and hash computations. A \<open>String\<close> is
  its UTF-8 bytes.
\<close>

section \<open>Shard tree certificate\<close>

definition SHARD_TREE_CERTIFICATE_TAG :: u64 where "SHARD_TREE_CERTIFICATE_TAG = 39003"
definition BFT_VERSION :: u64 where "BFT_VERSION = 1"

record ShardTreeCertificate =
  stc_shard :: ShardId
  stc_sibling_hash_list :: "bytes list"

definition ShardTreeCertificate_from_cbor :: "Decoder \<Rightarrow> Error + ShardTreeCertificate" where
  "ShardTreeCertificate_from_cbor d =
     rbind (map_err Cbor (expect_tag d SHARD_TREE_CERTIFICATE_TAG)) (\<lambda>inner.
     rbind (map_err Cbor (array inner (Some 3))) (\<lambda>items.
     rbind (map_err Cbor (uint_value (items ! 0))) (\<lambda>version.
       if version \<noteq> BFT_VERSION
       then Err (UnexpectedValue ''unsupported ShardTreeCertificate version'')
       else
         rbind (map_err Cbor (bytes_value (items ! 1))) (\<lambda>sb.
         rbind (ShardId_decode sb) (\<lambda>shard.
         rbind (map_err Cbor (array (items ! 2) None)) (\<lambda>sibs.
         rbind (rmap (\<lambda>s. map_err Cbor (bytes_value s)) sibs) (\<lambda>sibling_hash_list.
           Ok \<lparr>stc_shard = shard, stc_sibling_hash_list = sibling_hash_list\<rparr>)))))))"

definition ShardTreeCertificate_to_cbor :: "ShardTreeCertificate \<Rightarrow> bytes" where
  "ShardTreeCertificate_to_cbor c =
     encode_tag SHARD_TREE_CERTIFICATE_TAG (encode_array
       [encode_uint BFT_VERSION,
        encode_byte_string (ShardId_encode (stc_shard c)),
        encode_array (map encode_byte_string (stc_sibling_hash_list c))])"

section \<open>Input record\<close>

definition INPUT_RECORD_TAG :: u64 where "INPUT_RECORD_TAG = 39002"

record InputRecord =
  ir_round_number :: u64
  ir_epoch :: u64
  ir_previous_hash :: "bytes option"
  ir_hash :: "bytes option"
  ir_summary_value :: "bytes option"
  ir_timestamp :: u64
  ir_block_hash :: "bytes option"
  ir_sum_of_earned_fees :: u64
  ir_executed_transactions_hash :: "bytes option"

definition ir_root_hash :: "InputRecord \<Rightarrow> Error + bytes option" where
  "ir_root_hash ir =
     (case ir_hash ir of
        None \<Rightarrow> Ok None
      | Some bytes \<Rightarrow> if length bytes = 32 then Ok (Some bytes)
          else Err (UnexpectedValue ''input record hash must be null or 32 bytes''))"

definition InputRecord_from_cbor :: "Decoder \<Rightarrow> Error + InputRecord" where
  "InputRecord_from_cbor d =
     rbind (map_err Cbor (expect_tag d INPUT_RECORD_TAG)) (\<lambda>inner.
     rbind (map_err Cbor (array inner (Some 10))) (\<lambda>items.
     rbind (map_err Cbor (uint_value (items ! 0))) (\<lambda>version.
       if version \<noteq> BFT_VERSION then Err (UnexpectedValue ''unsupported InputRecord version'')
       else
         rbind (map_err Cbor (uint_value (items ! 1))) (\<lambda>round_number.
         rbind (map_err Cbor (uint_value (items ! 2))) (\<lambda>epoch.
         rbind (opt_bytes (items ! 3)) (\<lambda>previous_hash.
         rbind (opt_bytes (items ! 4)) (\<lambda>hash.
         rbind (opt_bytes (items ! 5)) (\<lambda>summary_value.
         rbind (map_err Cbor (uint_value (items ! 6))) (\<lambda>timestamp.
         rbind (opt_bytes (items ! 7)) (\<lambda>block_hash.
         rbind (map_err Cbor (uint_value (items ! 8))) (\<lambda>sum_of_earned_fees.
         rbind (opt_bytes (items ! 9)) (\<lambda>executed_transactions_hash.
           Ok \<lparr>ir_round_number = round_number, ir_epoch = epoch, ir_previous_hash = previous_hash,
               ir_hash = hash, ir_summary_value = summary_value, ir_timestamp = timestamp,
               ir_block_hash = block_hash, ir_sum_of_earned_fees = sum_of_earned_fees,
               ir_executed_transactions_hash = executed_transactions_hash\<rparr>))))))))))))"

definition InputRecord_to_cbor :: "InputRecord \<Rightarrow> bytes" where
  "InputRecord_to_cbor ir =
     encode_tag INPUT_RECORD_TAG (encode_array
       [encode_uint BFT_VERSION,
        encode_uint (ir_round_number ir),
        encode_uint (ir_epoch ir),
        encode_nullable (ir_previous_hash ir) encode_byte_string,
        encode_nullable (ir_hash ir) encode_byte_string,
        encode_nullable (ir_summary_value ir) encode_byte_string,
        encode_uint (ir_timestamp ir),
        encode_nullable (ir_block_hash ir) encode_byte_string,
        encode_uint (ir_sum_of_earned_fees ir),
        encode_nullable (ir_executed_transactions_hash ir) encode_byte_string])"

section \<open>Unicity tree certificate\<close>

definition UNICITY_TREE_CERTIFICATE_TAG :: u64 where "UNICITY_TREE_CERTIFICATE_TAG = 39004"

record HashStep =
  hs_key :: u32
  hs_hash :: bytes

definition u32_try_from :: "string \<Rightarrow> u64 \<Rightarrow> Error + u32" where
  "u32_try_from what v = (if v \<le> 0xffffffff then Ok (ucast v) else Err (OutOfRange what))"

definition HashStep_from_cbor :: "Decoder \<Rightarrow> Error + HashStep" where
  "HashStep_from_cbor d =
     rbind (map_err Cbor (array d (Some 2))) (\<lambda>items.
     rbind (map_err Cbor (uint_value (items ! 0))) (\<lambda>k.
     rbind (u32_try_from ''unicity tree step key exceeds 32 bits'' k) (\<lambda>key.
     rbind (map_err Cbor (bytes_value (items ! 1))) (\<lambda>hash.
       Ok \<lparr>hs_key = key, hs_hash = hash\<rparr>))))"

definition HashStep_to_cbor :: "HashStep \<Rightarrow> bytes" where
  "HashStep_to_cbor s =
     encode_array [encode_uint (ucast (hs_key s)), encode_byte_string (hs_hash s)]"

record UnicityTreeCertificate =
  utc_partition_identifier :: u32
  utc_steps :: "HashStep list"

definition UnicityTreeCertificate_from_cbor :: "Decoder \<Rightarrow> Error + UnicityTreeCertificate" where
  "UnicityTreeCertificate_from_cbor d =
     rbind (map_err Cbor (expect_tag d UNICITY_TREE_CERTIFICATE_TAG)) (\<lambda>inner.
     rbind (map_err Cbor (array inner (Some 3))) (\<lambda>items.
     rbind (map_err Cbor (uint_value (items ! 0))) (\<lambda>version.
       if version \<noteq> BFT_VERSION
       then Err (UnexpectedValue ''unsupported UnicityTreeCertificate version'')
       else
         rbind (map_err Cbor (uint_value (items ! 1))) (\<lambda>p.
         rbind (u32_try_from ''partition identifier exceeds 32 bits'' p) (\<lambda>partition_identifier.
         rbind (map_err Cbor (array (items ! 2) None)) (\<lambda>ss.
         rbind (rmap HashStep_from_cbor ss) (\<lambda>steps.
           Ok \<lparr>utc_partition_identifier = partition_identifier, utc_steps = steps\<rparr>)))))))"

fun fold_steps :: "sha2 \<Rightarrow> bytes \<Rightarrow> HashStep list \<Rightarrow> DataHash \<Rightarrow> DataHash" where
  "fold_steps sha2 key [] result = result"
| "fold_steps sha2 key (step # steps) result =
     (let step_key = to_be_bytes (hs_key step);
          h = update (encode_byte_string step_key) (update (encode_byte_string [0x00]) sha256_hasher);
          result' = finalize sha2 (if cmp_bytes key step_key = Greater
            then update (encode_byte_string (dh_data result)) (update (encode_byte_string (hs_hash step)) h)
            else update (encode_byte_string (hs_hash step)) (update (encode_byte_string (dh_data result)) h))
      in fold_steps sha2 key steps result')"

definition compute_root_hash :: "sha2 \<Rightarrow> UnicityTreeCertificate \<Rightarrow> bytes \<Rightarrow> DataHash" where
  "compute_root_hash sha2 c shard_tree_root =
     (let key = to_be_bytes (utc_partition_identifier c);
          unicity_tree_hash = sha256 sha2 (encode_byte_string shard_tree_root);
          result = finalize sha2 (update (encode_byte_string (dh_data unicity_tree_hash))
            (update (encode_byte_string key) (update (encode_byte_string [0x01]) sha256_hasher)))
      in fold_steps sha2 key (utc_steps c) result)"

definition UnicityTreeCertificate_to_cbor :: "UnicityTreeCertificate \<Rightarrow> bytes" where
  "UnicityTreeCertificate_to_cbor c =
     encode_tag UNICITY_TREE_CERTIFICATE_TAG (encode_array
       [encode_uint BFT_VERSION,
        encode_uint (ucast (utc_partition_identifier c)),
        encode_array (map HashStep_to_cbor (utc_steps c))])"

section \<open>Unicity seal\<close>

definition UNICITY_SEAL_TAG :: u64 where "UNICITY_SEAL_TAG = 39005"

record UnicitySeal =
  us_network_id :: NetworkId
  us_root_chain_round_number :: u64
  us_epoch :: u64
  us_timestamp :: u64
  us_previous_hash :: "bytes option"
  us_hash :: bytes
  us_signatures :: "(bytes \<times> bytes) list"

definition u16_try_from :: "string \<Rightarrow> u64 \<Rightarrow> Error + u16" where
  "u16_try_from what v = (if v \<le> 0xffff then Ok (ucast v) else Err (OutOfRange what))"

definition network_field :: "Decoder \<Rightarrow> Error + NetworkId" where
  "network_field d =
     rbind (map_err Cbor (uint_value d)) (\<lambda>v. rbind (u16_try_from ''network id'' v) NetworkId_new)"

definition signature_entry :: "Decoder \<times> Decoder \<Rightarrow> Error + (bytes \<times> bytes)" where
  "signature_entry kv =
     rbind (map_err Cbor (text_value (fst kv))) (\<lambda>k.
     rbind (map_err Cbor (bytes_value (snd kv))) (\<lambda>v. Ok (k, v)))"

definition UnicitySeal_from_cbor :: "Decoder \<Rightarrow> Error + UnicitySeal" where
  "UnicitySeal_from_cbor d =
     rbind (map_err Cbor (expect_tag d UNICITY_SEAL_TAG)) (\<lambda>inner.
     rbind (map_err Cbor (array inner (Some 8))) (\<lambda>items.
     rbind (map_err Cbor (uint_value (items ! 0))) (\<lambda>version.
       if version \<noteq> BFT_VERSION then Err (UnexpectedValue ''unsupported UnicitySeal version'')
       else
         rbind (network_field (items ! 1)) (\<lambda>network_id.
         rbind (opt_bytes (items ! 5)) (\<lambda>previous_hash.
         rbind (map_err Cbor (bytes_value (items ! 6))) (\<lambda>hash.
         rbind (if \<not> is_null (items ! 7)
                then rbind (map_err Cbor (map_value (items ! 7))) (rmap signature_entry)
                else Ok []) (\<lambda>signatures.
         rbind (map_err Cbor (uint_value (items ! 2))) (\<lambda>root_chain_round_number.
         rbind (map_err Cbor (uint_value (items ! 3))) (\<lambda>epoch.
         rbind (map_err Cbor (uint_value (items ! 4))) (\<lambda>timestamp.
           Ok \<lparr>us_network_id = network_id, us_root_chain_round_number = root_chain_round_number,
               us_epoch = epoch, us_timestamp = timestamp, us_previous_hash = previous_hash,
               us_hash = hash, us_signatures = signatures\<rparr>))))))))))"

definition UnicitySeal_encode :: "UnicitySeal \<Rightarrow> bool \<Rightarrow> bytes" where
  "UnicitySeal_encode s include_signatures =
     (let sig_bytes =
        (if include_signatures
         then encode_map (map (\<lambda>(k, v). (encode_text_string k, encode_byte_string v)) (us_signatures s))
         else encode_null)
      in encode_tag UNICITY_SEAL_TAG (encode_array
           [encode_uint BFT_VERSION,
            encode_uint (ucast (net_id (us_network_id s))),
            encode_uint (us_root_chain_round_number s),
            encode_uint (us_epoch s),
            encode_uint (us_timestamp s),
            encode_nullable (us_previous_hash s) encode_byte_string,
            encode_byte_string (us_hash s),
            sig_bytes]))"

definition UnicitySeal_to_cbor :: "UnicitySeal \<Rightarrow> bytes" where
  "UnicitySeal_to_cbor s = UnicitySeal_encode s True"

definition UnicitySeal_calculate_hash :: "sha2 \<Rightarrow> UnicitySeal \<Rightarrow> DataHash" where
  "UnicitySeal_calculate_hash sha2 s = sha256 sha2 (UnicitySeal_encode s False)"

section \<open>Unicity certificate\<close>

definition UNICITY_CERTIFICATE_TAG :: u64 where "UNICITY_CERTIFICATE_TAG = 39001"

record UnicityCertificate =
  uc_input_record :: InputRecord
  uc_technical_record_hash :: "bytes option"
  uc_shard_configuration_hash :: bytes
  uc_shard_tree_certificate :: ShardTreeCertificate
  uc_unicity_tree_certificate :: UnicityTreeCertificate
  uc_unicity_seal :: UnicitySeal

definition UnicityCertificate_from_cbor :: "Decoder \<Rightarrow> Error + UnicityCertificate" where
  "UnicityCertificate_from_cbor d =
     rbind (map_err Cbor (expect_tag d UNICITY_CERTIFICATE_TAG)) (\<lambda>inner.
     rbind (map_err Cbor (array inner (Some 7))) (\<lambda>items.
     rbind (map_err Cbor (uint_value (items ! 0))) (\<lambda>version.
       if version \<noteq> BFT_VERSION
       then Err (UnexpectedValue ''unsupported UnicityCertificate version'')
       else
         rbind (InputRecord_from_cbor (items ! 1)) (\<lambda>input_record.
         rbind (opt_bytes (items ! 2)) (\<lambda>technical_record_hash.
         rbind (map_err Cbor (bytes_value (items ! 3))) (\<lambda>shard_configuration_hash.
         rbind (ShardTreeCertificate_from_cbor (items ! 4)) (\<lambda>shard_tree_certificate.
         rbind (UnicityTreeCertificate_from_cbor (items ! 5)) (\<lambda>unicity_tree_certificate.
         rbind (UnicitySeal_from_cbor (items ! 6)) (\<lambda>unicity_seal.
           Ok \<lparr>uc_input_record = input_record, uc_technical_record_hash = technical_record_hash,
               uc_shard_configuration_hash = shard_configuration_hash,
               uc_shard_tree_certificate = shard_tree_certificate,
               uc_unicity_tree_certificate = unicity_tree_certificate,
               uc_unicity_seal = unicity_seal\<rparr>)))))))))"

definition UnicityCertificate_to_cbor :: "UnicityCertificate \<Rightarrow> bytes" where
  "UnicityCertificate_to_cbor uc =
     encode_tag UNICITY_CERTIFICATE_TAG (encode_array
       [encode_uint BFT_VERSION,
        InputRecord_to_cbor (uc_input_record uc),
        encode_nullable (uc_technical_record_hash uc) encode_byte_string,
        encode_byte_string (uc_shard_configuration_hash uc),
        ShardTreeCertificate_to_cbor (uc_shard_tree_certificate uc),
        UnicityTreeCertificate_to_cbor (uc_unicity_tree_certificate uc),
        UnicitySeal_to_cbor (uc_unicity_seal uc)])"

definition opt_or_empty :: "bytes option \<Rightarrow> bytes" where
  "opt_or_empty x = (case x of None \<Rightarrow> [] | Some b \<Rightarrow> b)"

definition check_body :: "UnicityCertificate \<Rightarrow> string + unit" where
  "check_body uc =
     (let ir = uc_input_record uc
      in rbind (if ir_round_number ir \<noteq> 0 then
                  (if ir_summary_value ir = None then Err ''summary value is nil''
                   else if ir_timestamp ir = 0 then Err ''timestamp is unassigned'' else Ok ())
                else Ok ()) (\<lambda>_.
         let same_state = (opt_or_empty (ir_previous_hash ir) = opt_or_empty (ir_hash ir));
             block_hash_empty = (case ir_block_hash ir of None \<Rightarrow> True | Some b \<Rightarrow> b = [])
         in if same_state \<and> \<not> block_hash_empty
            then Err ''state hash didn't change but block hash is not nil''
            else if \<not> same_state \<and> block_hash_empty
            then Err ''block hash is nil but state hash changed''
            else if map_option length (uc_technical_record_hash uc) \<noteq> Some 32
            then Err ''technical record hash must be 32 bytes''
            else Ok ()))"

text \<open>The loop over the siblings; \<open>i\<close> counts them from the leaf.\<close>

fun fold_shard_siblings ::
  "sha2 \<Rightarrow> ShardId \<Rightarrow> nat \<Rightarrow> bytes list \<Rightarrow> DataHash \<Rightarrow> Error + DataHash" where
  "fold_shard_siblings sha2 shard i [] root = Ok root"
| "fold_shard_siblings sha2 shard i (sibling # siblings) root =
     rbind (if i + 1 \<le> sh_length shard then Ok (sh_length shard - (i + 1))
            else Err (OutOfRange ''invalid shard sibling index'')) (\<lambda>bit_index.
     rbind (get_bit shard bit_index) (\<lambda>b.
       let is_right = (b = 1);
           root' = finalize sha2 (if is_right
             then update (encode_byte_string (dh_data root)) (update (encode_byte_string sibling) sha256_hasher)
             else update (encode_byte_string sibling) (update (encode_byte_string (dh_data root)) sha256_hasher))
       in fold_shard_siblings sha2 shard (Suc i) siblings root'))"

definition shard_tree_root_hash :: "sha2 \<Rightarrow> UnicityCertificate \<Rightarrow> Error + DataHash" where
  "shard_tree_root_hash sha2 uc =
     (let root = finalize sha2 (update (encode_byte_string (uc_shard_configuration_hash uc))
            (update (encode_nullable (uc_technical_record_hash uc) encode_byte_string)
            (update (InputRecord_to_cbor (uc_input_record uc)) sha256_hasher)));
          shard = stc_shard (uc_shard_tree_certificate uc);
          siblings = stc_sibling_hash_list (uc_shard_tree_certificate uc)
      in if length siblings \<noteq> sh_length shard
         then Err (UnexpectedValue ''shard sibling count differs from shard bit length'')
         else fold_shard_siblings sha2 shard 0 siblings root)"

definition computed_seal_hash :: "sha2 \<Rightarrow> UnicityCertificate \<Rightarrow> Error + DataHash" where
  "computed_seal_hash sha2 uc =
     rbind (shard_tree_root_hash sha2 uc) (\<lambda>shard_root.
       Ok (compute_root_hash sha2 (uc_unicity_tree_certificate uc) (dh_data shard_root)))"

end
