(* ===== verification/Bft_Codec.thy ===== *)
theory Bft_Codec
  imports Bft
begin

text \<open>
  The wire formats of the BFT certificate as codecs. All structures have one encoding only, except
  the unicity seal and with it the unicity certificate: the seal also accepts a null in place of its
  signatures and then encodes them as an empty map.
\<close>

section \<open>Lists of byte strings\<close>

lemma byte_list_encode [codec_simps]:
  assumes "accepts l (encode_array (map encode_byte_string xs))"
  shows "array (with_limits (encode_array (map encode_byte_string xs)) l) None =
      Ok (map (\<lambda>x. with_limits (encode_byte_string x) l) xs)"
    "rmap (\<lambda>s. map_err Cbor (bytes_value s)) (map (\<lambda>x. with_limits (encode_byte_string x) l) xs) = Ok xs"
proof -
  have items: "\<And>b. b \<in> set (map encode_byte_string xs) \<Longrightarrow> item b" by auto
  show "array (with_limits (encode_array (map encode_byte_string xs)) l) None =
      Ok (map (\<lambda>x. with_limits (encode_byte_string x) l) xs)"
    using array_complete [OF assms items, of None] by (simp add: comp_def)
  have "rmap (\<lambda>s. map_err Cbor (bytes_value s)) (map (\<lambda>x. with_limits (encode_byte_string x) l) xs) =
      Ok (map (\<lambda>x. x) xs)"
    by (rule rmap_map_Inr) (use array_accepts [OF assms items] in \<open>auto simp: codec_simps\<close>)
  then show "rmap (\<lambda>s. map_err Cbor (bytes_value s)) (map (\<lambda>x. with_limits (encode_byte_string x) l) xs) = Ok xs"
    by simp
qed

lemma item_byte_list [simp]: "item (encode_array (map encode_byte_string xs))"
  by (rule item_encode_array) auto

lemma byte_list_read:
  assumes "array d e = Ok ds" "rmap (\<lambda>s. map_err Cbor (bytes_value s)) ds = Ok xs"
  shows "dec_bytes d = encode_array (map encode_byte_string xs)"
  using array_read [OF assms(1)] rmap_read [OF assms(2), of encode_byte_string]
  by (auto simp: result_simps decode_simps)

section \<open>Shard tree certificates\<close>

definition ShardTreeCertificate_wf :: "ShardTreeCertificate \<Rightarrow> bool" where
  "ShardTreeCertificate_wf c \<longleftrightarrow> ShardId_wf (stc_shard c)"

interpretation shard_tree_cert:
  canonical_codec ShardTreeCertificate_to_cbor ShardTreeCertificate_from_cbor ShardTreeCertificate_wf
proof (unfold_locales, goal_cases)
  case (1 x)
  then show ?case by (simp add: ShardTreeCertificate_to_cbor_def item_array_list)
next
  case (2 d x)
  then show ?case
    by (auto simp: ShardTreeCertificate_from_cbor_def ShardTreeCertificate_wf_def result_simps
        dest: ShardId_encode_decode split: if_splits)
next
  case (3 x l)
  from tagged_array [OF 3(2) [unfolded ShardTreeCertificate_to_cbor_def]] 3(1) show ?case
    by (simp add: ShardTreeCertificate_to_cbor_def ShardTreeCertificate_from_cbor_def
        ShardTreeCertificate_wf_def codec_simps ShardId_decode_encode)
next
  case (4 d x)
  then obtain inner items sb sibs where "expect_tag d SHARD_TREE_CERTIFICATE_TAG = Ok inner"
    "array inner (Some 3) = Ok items" "uint_value (items ! 0) = Ok BFT_VERSION"
    "bytes_value (items ! 1) = Ok sb" "ShardId_decode sb = Ok (stc_shard x)"
    "array (items ! 2) None = Ok sibs"
    "rmap (\<lambda>s. map_err Cbor (bytes_value s)) sibs = Ok (stc_sibling_hash_list x)"
    by (auto simp: ShardTreeCertificate_from_cbor_def rbind_Inr_iff map_err_Inr_iff split: if_splits)
  moreover from this have "sb = ShardId_encode (stc_shard x)" using ShardId_encode_decode by simp
  ultimately show ?case
    by (simp add: ShardTreeCertificate_to_cbor_def expect_tag_read array_fields map_of_length
        decode_simps byte_list_read)
qed

section \<open>Input records\<close>

interpretation input_record: canonical_codec InputRecord_to_cbor InputRecord_from_cbor "\<lambda>_. True"
proof (unfold_locales, goal_cases)
  case (1 x)
  then show ?case by (simp add: InputRecord_to_cbor_def item_array_list)
next
  case (3 x l)
  from tagged_array [OF 3(2) [unfolded InputRecord_to_cbor_def]] show ?case
    by (simp add: InputRecord_to_cbor_def InputRecord_from_cbor_def codec_simps)
next
  case (4 d x)
  then obtain inner items where "expect_tag d INPUT_RECORD_TAG = Ok inner"
    "array inner (Some 10) = Ok items" "uint_value (items ! 0) = Ok BFT_VERSION"
    "uint_value (items ! 1) = Ok (ir_round_number x)" "uint_value (items ! 2) = Ok (ir_epoch x)"
    "opt_bytes (items ! 3) = Ok (ir_previous_hash x)" "opt_bytes (items ! 4) = Ok (ir_hash x)"
    "opt_bytes (items ! 5) = Ok (ir_summary_value x)" "uint_value (items ! 6) = Ok (ir_timestamp x)"
    "opt_bytes (items ! 7) = Ok (ir_block_hash x)"
    "uint_value (items ! 8) = Ok (ir_sum_of_earned_fees x)"
    "opt_bytes (items ! 9) = Ok (ir_executed_transactions_hash x)"
    by (auto simp: InputRecord_from_cbor_def result_simps split: if_splits)
  then show ?case
    by (simp add: InputRecord_to_cbor_def expect_tag_read array_fields map_of_length decode_simps)
qed simp

section \<open>Unicity tree certificates\<close>

lemma u32_try_from_ucast [simp]: "u32_try_from w (ucast (k :: u32)) = Ok k"
proof -
  have "unat (ucast k :: u64) = unat k" by (rule unat_zext) simp
  moreover have "unat k < 2 ^ LENGTH(32)" by (rule unsigned_less)
  ultimately have "(ucast k :: u64) \<le> 0xffffffff" by (simp add: word_le_nat_alt)
  then show ?thesis by (simp add: u32_try_from_def ucast_zext_eq)
qed

lemma u32_try_from_Ok: "u32_try_from w v = Ok k \<Longrightarrow> v = ucast k"
  by (auto simp: u32_try_from_def ucast_ucast_le word_le_nat_alt split: if_splits)

interpretation hash_step: canonical_codec HashStep_to_cbor HashStep_from_cbor "\<lambda>_. True"
proof (unfold_locales, goal_cases)
  case (1 x)
  then show ?case by (simp add: HashStep_to_cbor_def item_array_list)
next
  case (3 x l)
  have "list_all item [encode_uint (ucast (hs_key x)), encode_byte_string (hs_hash x)]" by simp
  from accepts_array [OF 3(2) [unfolded HashStep_to_cbor_def] this] 3(2) show ?case
    by (simp add: HashStep_to_cbor_def HashStep_from_cbor_def codec_simps)
next
  case (4 d x)
  then obtain items k where "array d (Some 2) = Ok items" "uint_value (items ! 0) = Ok k"
    "u32_try_from ''unicity tree step key exceeds 32 bits'' k = Ok (hs_key x)"
    "bytes_value (items ! 1) = Ok (hs_hash x)"
    by (auto simp: HashStep_from_cbor_def result_simps)
  then show ?case
    using u32_try_from_Ok by (simp add: HashStep_to_cbor_def array_fields map_of_length decode_simps)
qed simp

lemma item_steps [simp]: "item (encode_array (map HashStep_to_cbor ss))"
  by (rule hash_step.list_item) (simp add: list_all_iff)

interpretation unicity_tree_cert:
  canonical_codec UnicityTreeCertificate_to_cbor UnicityTreeCertificate_from_cbor "\<lambda>_. True"
proof (unfold_locales, goal_cases)
  case (1 x)
  then show ?case by (simp add: UnicityTreeCertificate_to_cbor_def item_array_list)
next
  case (3 x l)
  from tagged_array [OF 3(2) [unfolded UnicityTreeCertificate_to_cbor_def]]
    hash_step.list_decode_encode [of "utc_steps x" l] show ?case
    by (auto simp: list_all_iff UnicityTreeCertificate_to_cbor_def UnicityTreeCertificate_from_cbor_def codec_simps
        rbind_Inr_iff map_err_Inr_iff)
next
  case (4 d x)
  then obtain inner items p ss where "expect_tag d UNICITY_TREE_CERTIFICATE_TAG = Ok inner"
    "array inner (Some 3) = Ok items" "uint_value (items ! 0) = Ok BFT_VERSION"
    "uint_value (items ! 1) = Ok p"
    and p: "u32_try_from ''partition identifier exceeds 32 bits'' p = Ok (utc_partition_identifier x)"
    and ss: "array (items ! 2) None = Ok ss" "rmap HashStep_from_cbor ss = Ok (utc_steps x)"
    by (auto simp: UnicityTreeCertificate_from_cbor_def rbind_Inr_iff map_err_Inr_iff split: if_splits)
  moreover note u32_try_from_Ok [OF p] hash_step.list_encode_decode [OF ss, symmetric]
  ultimately show ?case
    by (simp add: UnicityTreeCertificate_to_cbor_def expect_tag_read array_fields map_of_length decode_simps)
qed simp

section \<open>Unicity seals\<close>

lemma u16_try_from_ucast [simp]: "u16_try_from w (ucast (k :: u16)) = Ok k"
proof -
  have "unat (ucast k :: u64) = unat k" by (rule unat_zext) simp
  moreover have "unat k < 2 ^ LENGTH(16)" by (rule unsigned_less)
  ultimately have "(ucast k :: u64) \<le> 0xffff" by (simp add: word_le_nat_alt)
  then show ?thesis by (simp add: u16_try_from_def ucast_zext_eq)
qed

lemma u16_try_from_Ok: "u16_try_from w v = Ok k \<Longrightarrow> v = ucast k"
  by (auto simp: u16_try_from_def ucast_ucast_le word_le_nat_alt split: if_splits)

definition NetworkId_wf :: "NetworkId \<Rightarrow> bool" where
  "NetworkId_wf n \<longleftrightarrow> net_id n \<noteq> 0"

lemma network_field_encode [codec_simps]:
  "accepts l (encode_uint (ucast (net_id n))) \<Longrightarrow> NetworkId_wf n \<Longrightarrow>
   network_field (with_limits (encode_uint (ucast (net_id n))) l) = Ok n"
  by (simp add: network_field_def codec_simps NetworkId_new_def NetworkId_wf_def)

lemma network_field_wf: "network_field d = Ok n \<Longrightarrow> NetworkId_wf n"
  by (auto simp: network_field_def result_simps NetworkId_new_def NetworkId_wf_def split: if_splits)

lemma network_field_read [decode_simps]:
  "network_field d = Ok n \<Longrightarrow> dec_bytes d = encode_uint (ucast (net_id n))"
  by (auto simp: network_field_def result_simps NetworkId_new_def decode_simps dest: u16_try_from_Ok
      split: if_splits)

text \<open>The signatures of a decoded seal: in the order of the encoded ids, without repetition.\<close>

definition sig_entries :: "(bytes \<times> bytes) list \<Rightarrow> (bytes \<times> bytes) list" where
  "sig_entries sigs = map (\<lambda>(k, v). (encode_text_string k, encode_byte_string v)) sigs"

definition sigs_wf :: "(bytes \<times> bytes) list \<Rightarrow> bool" where
  "sigs_wf sigs \<longleftrightarrow> increasing (sig_entries sigs) \<and> list_all (\<lambda>(k, v). utf8_valid k) sigs"

definition UnicitySeal_wf :: "UnicitySeal \<Rightarrow> bool" where
  "UnicitySeal_wf s \<longleftrightarrow> NetworkId_wf (us_network_id s) \<and> sigs_wf (us_signatures s)"

lemma signature_entry_read:
  "signature_entry kv = Ok e \<Longrightarrow>
     entry_bytes kv = (encode_text_string (fst e), encode_byte_string (snd e)) \<and> utf8_valid (fst e)"
  by (cases kv) (auto simp: signature_entry_def result_simps text_value_Ok_iff bytes_value_Ok_iff)

lemma signatures_read:
  assumes "map_value d = Ok kvs" "rmap signature_entry kvs = Ok sigs"
  shows "dec_bytes d = encode_map (sig_entries sigs)" "sigs_wf sigs"
proof -
  have all: "list_all2 (\<lambda>kv e. signature_entry kv = Ok e) kvs sigs"
    using assms(2) by (simp only: rmap_Inr_iff)
  have eq: "map entry_bytes kvs = sig_entries sigs"
    unfolding sig_entries_def using all
    by (induction rule: list_all2_induct) (auto dest: signature_entry_read)
  moreover have "list_all (\<lambda>(k, v). utf8_valid k) sigs"
    using all by (induction rule: list_all2_induct) (auto dest: signature_entry_read)
  ultimately show "dec_bytes d = encode_map (sig_entries sigs)" "sigs_wf sigs"
    using map_value_sound [OF assms(1)] by (simp_all add: sigs_wf_def)
qed

lemma item_sig_entries [simp]: "item (encode_map (sig_entries sigs))"
  by (rule item_encode_map) (auto simp: sig_entries_def)

lemma signatures_encode:
  assumes "accepts l (encode_map (sig_entries sigs))" "sigs_wf sigs"
  shows "rbind (map_err Cbor (map_value (with_limits (encode_map (sig_entries sigs)) l)))
     (rmap signature_entry) = Ok sigs"
proof -
  have items: "\<And>k v. (k, v) \<in> set (sig_entries sigs) \<Longrightarrow> item k \<and> item v" by (auto simp: sig_entries_def)
  have canon: "canonical_entries (sig_entries sigs) = sig_entries sigs"
    using assms(2) by (simp add: sigs_wf_def canonical_entries_id)
  have "rmap signature_entry (map (\<lambda>e. (with_limits (encode_text_string (fst e)) l,
      with_limits (encode_byte_string (snd e)) l)) sigs) = Ok (map (\<lambda>e. e) sigs)"
  proof (rule rmap_map_Inr)
    fix e assume e: "e \<in> set sigs"
    obtain k v where [simp]: "e = (k, v)" by (cases e)
    have "(encode_text_string k, encode_byte_string v) \<in> set (sig_entries sigs)"
      using e by (auto simp: sig_entries_def)
    then have "accepts l (encode_text_string k)" "accepts l (encode_byte_string v)"
      using map_value_complete(2) [OF assms(1) items] canon by auto
    moreover have "utf8_valid k" using assms(2) e by (auto simp: sigs_wf_def list_all_iff)
    ultimately show "signature_entry (with_limits (encode_text_string (fst e)) l,
      with_limits (encode_byte_string (snd e)) l) = Ok e"
      by (simp add: signature_entry_def codec_simps)
  qed
  moreover have "map_value (with_limits (encode_map (sig_entries sigs)) l) =
      Ok (map (\<lambda>e. (with_limits (encode_text_string (fst e)) l, with_limits (encode_byte_string (snd e)) l)) sigs)"
    using map_value_complete(1) [OF assms(1) items] unfolding canon
    by (simp add: sig_entries_def case_prod_beta comp_def)
  ultimately show ?thesis by simp
qed

lemma UnicitySeal_to_cbor_eq:
  "UnicitySeal_to_cbor s = encode_tag UNICITY_SEAL_TAG (encode_array
     [encode_uint BFT_VERSION, encode_uint (ucast (net_id (us_network_id s))),
      encode_uint (us_root_chain_round_number s), encode_uint (us_epoch s), encode_uint (us_timestamp s),
      encode_nullable (us_previous_hash s) encode_byte_string, encode_byte_string (us_hash s),
      encode_map (sig_entries (us_signatures s))])"
  by (simp add: UnicitySeal_to_cbor_def UnicitySeal_encode_def sig_entries_def)

interpretation seal: codec UnicitySeal_to_cbor UnicitySeal_from_cbor UnicitySeal_wf
proof (unfold_locales, goal_cases)
  case (1 x)
  then show ?case by (simp add: UnicitySeal_to_cbor_eq item_array_list)
next
  case (2 d x)
  have "sigs_wf []" by (simp add: sigs_wf_def sig_entries_def)
  with 2 show ?case
    by (auto simp: UnicitySeal_from_cbor_def UnicitySeal_wf_def rbind_Inr_iff map_err_Inr_iff
        dest: network_field_wf signatures_read(2) split: if_splits)
next
  case (3 x l)
  from tagged_array [OF 3(2) [unfolded UnicitySeal_to_cbor_eq]] 3(1)
    signatures_encode [of l "us_signatures x"] show ?case
    by (simp add: UnicitySeal_to_cbor_eq UnicitySeal_from_cbor_def UnicitySeal_wf_def codec_simps)
qed

text \<open>What a seal can have been decoded from.\<close>

lemma seal_read:
  assumes "UnicitySeal_from_cbor d = Ok s"
  shows "dec_bytes d = UnicitySeal_to_cbor s \<or>
    us_signatures s = [] \<and> dec_bytes d = UnicitySeal_encode s False"
proof -
  from assms obtain inner items where fields: "expect_tag d UNICITY_SEAL_TAG = Ok inner"
    "array inner (Some 8) = Ok items" "uint_value (items ! 0) = Ok BFT_VERSION"
    "network_field (items ! 1) = Ok (us_network_id s)" "opt_bytes (items ! 5) = Ok (us_previous_hash s)"
    "bytes_value (items ! 6) = Ok (us_hash s)" "uint_value (items ! 2) = Ok (us_root_chain_round_number s)"
    "uint_value (items ! 3) = Ok (us_epoch s)" "uint_value (items ! 4) = Ok (us_timestamp s)"
    and sigs: "(if \<not> is_null (items ! 7) then rbind (map_err Cbor (map_value (items ! 7)))
        (rmap signature_entry) else Ok []) = Ok (us_signatures s)"
    by (auto simp: UnicitySeal_from_cbor_def rbind_Inr_iff map_err_Inr_iff split: if_splits)
  show ?thesis
  proof (cases "is_null (items ! 7)")
    case False
    then obtain kvs where "map_value (items ! 7) = Ok kvs" "rmap signature_entry kvs = Ok (us_signatures s)"
      using sigs by (auto simp: rbind_Inr_iff map_err_Inr_iff)
    from signatures_read(1) [OF this] fields show ?thesis
      by (simp add: UnicitySeal_to_cbor_eq expect_tag_read array_fields map_of_length decode_simps)
  next
    case True
    have "dec_bytes (items ! 7) = encode_null"
      using True array_item_null [OF fields(2), of 7] array_fields(2) [OF fields(2)] by simp
    with True sigs fields show ?thesis
      by (simp add: UnicitySeal_encode_def Let_def expect_tag_read array_fields map_of_length decode_simps)
  qed
qed

section \<open>Unicity certificates\<close>

definition UnicityCertificate_wf :: "UnicityCertificate \<Rightarrow> bool" where
  "UnicityCertificate_wf uc \<longleftrightarrow>
     ShardTreeCertificate_wf (uc_shard_tree_certificate uc) \<and> UnicitySeal_wf (uc_unicity_seal uc)"

lemmas bft_items [simp] = shard_tree_cert.encodes_item seal.encodes_item
  input_record.encodes_item [OF TrueI] unicity_tree_cert.encodes_item [OF TrueI]

lemmas bft_encode [codec_simps] = shard_tree_cert.decode_encode seal.decode_encode
  input_record.decode_encode [OF TrueI] unicity_tree_cert.decode_encode [OF TrueI]

lemma bft_read [decode_simps]:
  "ShardTreeCertificate_from_cbor d = Ok c \<Longrightarrow> dec_bytes d = ShardTreeCertificate_to_cbor c"
  "InputRecord_from_cbor d = Ok ir \<Longrightarrow> dec_bytes d = InputRecord_to_cbor ir"
  "UnicityTreeCertificate_from_cbor d = Ok t \<Longrightarrow> dec_bytes d = UnicityTreeCertificate_to_cbor t"
  by (simp_all add: shard_tree_cert.encode_decode input_record.encode_decode
      unicity_tree_cert.encode_decode)

interpretation uc: codec UnicityCertificate_to_cbor UnicityCertificate_from_cbor UnicityCertificate_wf
proof (unfold_locales, goal_cases)
  case (1 x)
  then show ?case by (simp add: UnicityCertificate_to_cbor_def UnicityCertificate_wf_def item_array_list)
next
  case (2 d x)
  then show ?case
    by (auto simp: UnicityCertificate_from_cbor_def UnicityCertificate_wf_def result_simps
        dest: shard_tree_cert.decode_valid seal.decode_valid split: if_splits)
next
  case (3 x l)
  from tagged_array [OF 3(2) [unfolded UnicityCertificate_to_cbor_def]] 3(1) show ?case
    by (simp add: UnicityCertificate_to_cbor_def UnicityCertificate_from_cbor_def
        UnicityCertificate_wf_def codec_simps)
qed

lemma uc_read:
  assumes "UnicityCertificate_from_cbor d = Ok uc" "us_signatures (uc_unicity_seal uc) \<noteq> []"
  shows "dec_bytes d = UnicityCertificate_to_cbor uc"
proof -
  from assms(1) obtain inner items where fields: "expect_tag d UNICITY_CERTIFICATE_TAG = Ok inner"
    "array inner (Some 7) = Ok items" "uint_value (items ! 0) = Ok BFT_VERSION"
    "InputRecord_from_cbor (items ! 1) = Ok (uc_input_record uc)"
    "opt_bytes (items ! 2) = Ok (uc_technical_record_hash uc)"
    "bytes_value (items ! 3) = Ok (uc_shard_configuration_hash uc)"
    "ShardTreeCertificate_from_cbor (items ! 4) = Ok (uc_shard_tree_certificate uc)"
    "UnicityTreeCertificate_from_cbor (items ! 5) = Ok (uc_unicity_tree_certificate uc)"
    and sl: "UnicitySeal_from_cbor (items ! 6) = Ok (uc_unicity_seal uc)"
    by (auto simp: UnicityCertificate_from_cbor_def result_simps split: if_splits)
  have "dec_bytes (items ! 6) = UnicitySeal_to_cbor (uc_unicity_seal uc)"
    using seal_read [OF sl] assms(2) by blast
  with fields show ?thesis
    by (simp add: UnicityCertificate_to_cbor_def expect_tag_read array_fields map_of_length decode_simps)
qed

end
