(* ===== verification/Fifo_Index.thy ===== *)
theory Fifo_Index
  imports Prelude
begin

text \<open>
  The bounded FIFO set with hashed lookup (\<open>src/src/fifo_index.rs\<close>) that backs the verification memos.
  It is shown to refine a bounded queue of entries: lookups find exactly the queued entries, insertion
  drops the oldest entry when full. What memo clients rely on is the locale \<open>bounded_memo\<close>. The
  sequence counter and the probe counter are the 64-bit words of a release build (they wrap). Capacities for which
  \<open>next_power_of_two\<close> would overflow are not told apart: no allocation of that size succeeds.
\<close>

section \<open>Definitions\<close>

record 'a Slot =
  sl_seq :: u64
  sl_hash :: u64
  sl_value :: 'a

record 'a FifoIndex =
  fi_capacity :: usize
  fi_buckets :: "'a Slot list list"
  fi_order :: "(u64 \<times> usize) list"
  fi_next_seq :: u64
  fi_probes :: u64

function pow2_from :: "nat \<Rightarrow> nat \<Rightarrow> nat" where
  "pow2_from p n = (if p = 0 \<or> n \<le> p then p else pow2_from (2 * p) n)"
  by pat_completeness auto
termination
  by (relation "measure (\<lambda>(p, n). n - p)") auto

declare pow2_from.simps [simp del]

definition next_power_of_two :: "nat \<Rightarrow> nat" where
  "next_power_of_two n = pow2_from 1 n"

definition FifoIndex_new :: "usize \<Rightarrow> 'a FifoIndex" where
  "FifoIndex_new capacity =
     (let buckets = (if capacity = 0 then 0 else next_power_of_two capacity)
      in \<lparr>fi_capacity = capacity, fi_buckets = replicate buckets [], fi_order = [],
          fi_next_seq = 0, fi_probes = 0\<rparr>)"

definition bucket :: "'a FifoIndex \<Rightarrow> u64 \<Rightarrow> usize" where
  "bucket f hash = unat hash AND (length (fi_buckets f) - 1)"

text \<open>The scan of one bucket: the value found, if any, and the number of slots examined.\<close>

fun scan_slots :: "'a Slot list \<Rightarrow> u64 \<Rightarrow> ('a \<Rightarrow> bool) \<Rightarrow> 'a option \<times> u64" where
  "scan_slots [] hash eq = (None, 0)"
| "scan_slots (slot # slots) hash eq =
     (if sl_hash slot = hash \<and> eq (sl_value slot) then (Some (sl_value slot), 1)
      else case scan_slots slots hash eq of (r, n) \<Rightarrow> (r, n + 1))"

definition fi_lookup :: "'a FifoIndex \<Rightarrow> u64 \<Rightarrow> ('a \<Rightarrow> bool) \<Rightarrow> 'a option \<times> 'a FifoIndex" where
  "fi_lookup f hash eq =
     (if fi_capacity f = 0 then (None, f)
      else case scan_slots (fi_buckets f ! bucket f hash) hash eq of
             (found, probes) \<Rightarrow> (found, f\<lparr>fi_probes := fi_probes f + probes\<rparr>))"

definition fi_contains :: "'a FifoIndex \<Rightarrow> u64 \<Rightarrow> ('a \<Rightarrow> bool) \<Rightarrow> bool \<times> 'a FifoIndex" where
  "fi_contains f hash eq = (case fi_lookup f hash eq of (found, f') \<Rightarrow> (found \<noteq> None, f'))"

fun position :: "('a \<Rightarrow> bool) \<Rightarrow> 'a list \<Rightarrow> nat option \<times> u64" where
  "position p [] = (None, 0)"
| "position p (x # xs) =
     (if p x then (Some 0, 1) else case position p xs of (i, n) \<Rightarrow> (map_option Suc i, n + 1))"

definition swap_remove :: "'a list \<Rightarrow> nat \<Rightarrow> 'a list" where
  "swap_remove xs i = (butlast xs)[i := last xs]"

definition evict :: "'a FifoIndex \<Rightarrow> 'a FifoIndex" where
  "evict f =
     (case fi_order f of
        [] \<Rightarrow> f
      | (seq, b) # rest \<Rightarrow>
          (let slots = fi_buckets f ! b;
               found = position (\<lambda>s. sl_seq s = seq) slots;
               slots' = (case fst found of Some i \<Rightarrow> swap_remove slots i | None \<Rightarrow> slots)
           in f\<lparr>fi_order := rest, fi_buckets := (fi_buckets f)[b := slots'],
               fi_probes := fi_probes f + snd found\<rparr>))"

definition fi_insert :: "'a FifoIndex \<Rightarrow> u64 \<Rightarrow> 'a \<Rightarrow> 'a FifoIndex" where
  "fi_insert f0 hash val =
     (if fi_capacity f0 = 0 then f0
      else
        let f = (if length (fi_order f0) = fi_capacity f0 then evict f0 else f0);
            b = bucket f hash;
            seq = fi_next_seq f;
            slot = \<lparr>sl_seq = seq, sl_hash = hash, sl_value = val\<rparr>
        in f\<lparr>fi_next_seq := seq + 1, fi_buckets := (fi_buckets f)[b := fi_buckets f ! b @ [slot]],
            fi_order := fi_order f @ [(seq, b)]\<rparr>)"

section \<open>The contract for memo clients\<close>

text \<open>A memo remembers some of the values inserted into it; a hit is one of them.\<close>

locale bounded_memo =
  fixes vals :: "'m \<Rightarrow> 'v set" and ok :: "'m \<Rightarrow> bool"
    and contains :: "'m \<Rightarrow> u64 \<Rightarrow> ('v \<Rightarrow> bool) \<Rightarrow> bool \<times> 'm"
    and insert_value :: "'m \<Rightarrow> u64 \<Rightarrow> 'v \<Rightarrow> 'm"
  assumes contains_hit: "ok m \<Longrightarrow> fst (contains m h eq) \<Longrightarrow> \<exists>v\<in>vals m. eq v"
    and contains_vals: "vals (snd (contains m h eq)) = vals m"
    and contains_ok: "ok m \<Longrightarrow> ok (snd (contains m h eq))"
    and insert_vals: "vals (insert_value m h v) \<subseteq> insert v (vals m)"
    and insert_ok: "ok m \<Longrightarrow> ok (insert_value m h v)"
begin

text \<open>The invariant of a memo that holds successes of a check \<open>P\<close> only, and its preservation.\<close>

definition holds :: "('v \<Rightarrow> bool) \<Rightarrow> 'm \<Rightarrow> bool" where
  "holds P m \<longleftrightarrow> ok m \<and> (\<forall>v\<in>vals m. P v)"

lemma memo_hit: "holds P m \<Longrightarrow> fst (contains m h eq) \<Longrightarrow> \<exists>v. P v \<and> eq v"
  using contains_hit by (fastforce simp: holds_def)

lemma memo_probe: "holds P m \<Longrightarrow> holds P (snd (contains m h eq))"
  using contains_vals contains_ok by (simp add: holds_def)

lemma memo_insert: "holds P m \<Longrightarrow> P v \<Longrightarrow> holds P (insert_value m h v)"
  using insert_vals insert_ok by (fastforce simp: holds_def)

end

section \<open>The index provides it\<close>

definition fi_values :: "'a FifoIndex \<Rightarrow> 'a set" where
  "fi_values f = sl_value ` (\<Union>b\<in>set (fi_buckets f). set b)"

definition fi_ok :: "'a FifoIndex \<Rightarrow> bool" where
  "fi_ok f \<longleftrightarrow> (fi_capacity f \<noteq> 0 \<longrightarrow> (\<exists>k. length (fi_buckets f) = 2 ^ k))"

lemma pow2_from_power: "\<exists>k. pow2_from (2 ^ j) n = 2 ^ k"
proof (induction "n - 2 ^ j" arbitrary: j rule: less_induct)
  case less
  show ?case
  proof (cases "n \<le> 2 ^ j")
    case True
    then show ?thesis by (auto simp: pow2_from.simps)
  next
    case False
    then have "n - 2 ^ Suc j < n - 2 ^ j" by (intro diff_less_mono2) auto
    from less [OF this] False show ?thesis by (subst pow2_from.simps) simp
  qed
qed

lemma fi_ok_new: "fi_ok (FifoIndex_new c)"
  using pow2_from_power [of 0 c] by (simp add: fi_ok_def FifoIndex_new_def next_power_of_two_def)

lemma bucket_mod: "length (fi_buckets f) = 2 ^ k \<Longrightarrow> bucket f h = unat h mod 2 ^ k"
  by (simp only: bucket_def mask_eq_exp_minus_1 [symmetric] take_bit_eq_mask [symmetric] take_bit_eq_mod)

lemma bucket_less: "fi_ok f \<Longrightarrow> fi_capacity f \<noteq> 0 \<Longrightarrow> bucket f h < length (fi_buckets f)"
  by (auto simp: fi_ok_def bucket_mod)

lemma scan_slots_Some:
  "fst (scan_slots slots h eq) = Some v \<Longrightarrow> \<exists>s\<in>set slots. sl_hash s = h \<and> sl_value s = v \<and> eq v"
  by (induction slots) (auto split: if_splits prod.splits)

lemma scan_slots_iff:
  "fst (scan_slots slots h eq) \<noteq> None \<longleftrightarrow> (\<exists>s\<in>set slots. sl_hash s = h \<and> eq (sl_value s))"
  by (induction slots) (auto split: if_splits prod.splits)

lemma fi_lookup_Some:
  assumes "fi_ok f" "fst (fi_lookup f h eq) = Some v"
  shows "v \<in> fi_values f \<and> eq v"
proof -
  have c: "fi_capacity f \<noteq> 0" using assms(2) by (auto simp: fi_lookup_def split: if_splits)
  then have "fst (scan_slots (fi_buckets f ! bucket f h) h eq) = Some v"
    using assms(2) by (auto simp: fi_lookup_def split: prod.splits)
  from scan_slots_Some [OF this] nth_mem [OF bucket_less [OF assms(1) c, of h]]
  show ?thesis by (force simp: fi_values_def)
qed

lemma fi_lookup_state: "fi_buckets (snd (fi_lookup f h eq)) = fi_buckets f"
  "fi_capacity (snd (fi_lookup f h eq)) = fi_capacity f"
  by (auto simp: fi_lookup_def split: prod.splits)

lemma set_swap_remove: "set (swap_remove xs i) \<subseteq> set xs"
proof (cases xs rule: rev_cases)
  case (snoc ys y)
  then show ?thesis using set_update_subset_insert [of ys i y] by (auto simp: swap_remove_def)
qed (simp add: swap_remove_def)

lemma evict_state: "fi_capacity (evict f) = fi_capacity f" "length (fi_buckets (evict f)) = length (fi_buckets f)"
  "fi_next_seq (evict f) = fi_next_seq f"
  by (auto simp: evict_def Let_def split: list.splits)

lemma set_list_update_nth:
  assumes "x \<in> set (xs[i := y])"
  shows "x = y \<and> i < length xs \<or> x \<in> set xs"
  using assms set_update_subset_insert [of xs i y] by (cases "i < length xs") (auto simp: list_update_beyond)

lemma fi_values_evict: "fi_values (evict f) \<subseteq> fi_values f"
proof (cases "fi_order f")
  case (Cons p rest)
  obtain seq b where p: "p = (seq, b)" by (cases p)
  have "(\<Union>x\<in>set (fi_buckets (evict f)). set x) \<subseteq> (\<Union>x\<in>set (fi_buckets f). set x)"
  proof
    fix s assume "s \<in> (\<Union>x\<in>set (fi_buckets (evict f)). set x)"
    then obtain x where x: "x \<in> set (fi_buckets (evict f))" "s \<in> set x" by blast
    define y where "y = (case fst (position (\<lambda>s. sl_seq s = seq) (fi_buckets f ! b)) of
      Some i \<Rightarrow> swap_remove (fi_buckets f ! b) i | None \<Rightarrow> fi_buckets f ! b)"
    have "x \<in> set ((fi_buckets f)[b := y])" using x(1) Cons p by (simp add: evict_def Let_def y_def)
    moreover have "set y \<subseteq> set (fi_buckets f ! b)"
      using set_swap_remove [of "fi_buckets f ! b"] by (auto simp: y_def split: option.splits)
    ultimately show "s \<in> (\<Union>x\<in>set (fi_buckets f). set x)"
      using set_list_update_nth [of x "fi_buckets f" b y] x(2) nth_mem [of b "fi_buckets f"] by blast
  qed
  then show ?thesis unfolding fi_values_def by (rule image_mono)
qed (simp add: evict_def fi_values_def)

lemma fi_values_insert: "fi_values (fi_insert f h v) \<subseteq> insert v (fi_values f)"
proof (cases "fi_capacity f = 0")
  case False
  define g where "g = (if length (fi_order f) = fi_capacity f then evict f else f)"
  have sub: "fi_values g \<subseteq> fi_values f" using fi_values_evict [of f] by (simp add: g_def)
  let ?slot = "\<lparr>sl_seq = fi_next_seq g, sl_hash = h, sl_value = v\<rparr>"
  have "fi_buckets (fi_insert f h v) = (fi_buckets g)[bucket g h := fi_buckets g ! bucket g h @ [?slot]]"
    using False by (simp add: fi_insert_def Let_def g_def)
  then have "fi_values (fi_insert f h v) \<subseteq> insert v (fi_values g)"
    using nth_mem [of "bucket g h" "fi_buckets g"]
    by (fastforce simp: fi_values_def dest!: set_list_update_nth)
  then show ?thesis using sub by blast
qed (auto simp: fi_insert_def)

interpretation fifo_memo: bounded_memo fi_values fi_ok fi_contains fi_insert
proof (unfold_locales, goal_cases)
  case (1 m h eq)
  then obtain v where "fst (fi_lookup m h eq) = Some v" by (auto simp: fi_contains_def split: prod.splits)
  with fi_lookup_Some [OF 1(1)] show ?case by blast
next
  case (2 m h eq)
  then show ?case using fi_lookup_state [of m h eq]
    by (cases "fi_lookup m h eq") (simp add: fi_contains_def fi_values_def)
next
  case (3 m h eq)
  then show ?case using fi_lookup_state [of m h eq] by (auto simp: fi_contains_def fi_ok_def split: prod.splits)
next
  case (4 m h v)
  then show ?case by (rule fi_values_insert)
next
  case (5 m h v)
  then show ?case by (auto simp: fi_ok_def fi_insert_def Let_def evict_state)
qed

section \<open>Refinement of a bounded queue\<close>

text \<open>\<open>fi_rep f xs\<close>: the index \<open>f\<close> holds the entries \<open>xs\<close>, oldest first. The sequence numbers are the
  last ones issued, so that they stay distinct even when the counter wraps.\<close>

definition fi_rep :: "'a FifoIndex \<Rightarrow> 'a Slot list \<Rightarrow> bool" where
  "fi_rep f xs \<longleftrightarrow> fi_ok f \<and> 0 < fi_capacity f \<and> fi_capacity f < 2 ^ 64 \<and> length xs \<le> fi_capacity f \<and>
     fi_order f = map (\<lambda>s. (sl_seq s, bucket f (sl_hash s))) xs \<and>
     (\<forall>b<length (fi_buckets f). mset (fi_buckets f ! b) = mset (filter (\<lambda>s. bucket f (sl_hash s) = b) xs)) \<and>
     map sl_seq xs = map (\<lambda>i. fi_next_seq f - word_of_nat i) (rev [1..<Suc (length xs)])"

text \<open>The abstract insertion: drop the oldest entry of a full queue, append the new one.\<close>

definition enqueue :: "nat \<Rightarrow> 'a list \<Rightarrow> 'a \<Rightarrow> 'a list" where
  "enqueue c xs x = (if length xs = c then tl xs else xs) @ [x]"

lemma fi_rep_new: "0 < c \<Longrightarrow> c < 2 ^ 64 \<Longrightarrow> fi_rep (FifoIndex_new c) []"
  using fi_ok_new [of c] by (simp add: fi_rep_def FifoIndex_new_def)

lemma fi_rep_seq_distinct:
  assumes "fi_rep f xs"
  shows "distinct (map sl_seq xs)"
proof -
  have small: "length xs < 2 ^ 64" using assms by (simp add: fi_rep_def)
  have "inj_on (\<lambda>i. fi_next_seq f - word_of_nat i) (set (rev [1..<Suc (length xs)]))"
  proof (rule inj_onI)
    fix i j assume "i \<in> set (rev [1..<Suc (length xs)])" "j \<in> set (rev [1..<Suc (length xs)])"
    then have "i < 2 ^ 64" "j < 2 ^ 64" using small by auto
    moreover assume "fi_next_seq f - word_of_nat i = fi_next_seq f - word_of_nat j"
    then have "unat (word_of_nat i :: u64) = unat (word_of_nat j :: u64)" by simp
    ultimately show "i = j" by (simp add: unat_of_nat take_bit_nat_eq_self)
  qed
  then have "distinct (map (\<lambda>i. fi_next_seq f - word_of_nat i) (rev [1..<Suc (length xs)]))"
    by (subst distinct_map) simp
  then show ?thesis using assms by (simp add: fi_rep_def)
qed

lemma fi_rep_bucket_set:
  assumes "fi_rep f xs" "b < length (fi_buckets f)"
  shows "set (fi_buckets f ! b) = {s \<in> set xs. bucket f (sl_hash s) = b}"
proof -
  have "mset (fi_buckets f ! b) = mset (filter (\<lambda>s. bucket f (sl_hash s) = b) xs)"
    using assms by (simp add: fi_rep_def)
  then have "set (fi_buckets f ! b) = set (filter (\<lambda>s. bucket f (sl_hash s) = b) xs)"
    by (rule mset_eq_setD)
  then show ?thesis by simp
qed

lemma fi_contains_rep:
  assumes "fi_rep f xs"
  shows "fst (fi_contains f h eq) \<longleftrightarrow> (\<exists>s\<in>set xs. sl_hash s = h \<and> eq (sl_value s))"
proof -
  have f: "fi_ok f" "fi_capacity f \<noteq> 0" using assms by (simp_all add: fi_rep_def)
  have "fst (fi_contains f h eq) \<longleftrightarrow> fst (scan_slots (fi_buckets f ! bucket f h) h eq) \<noteq> None"
    using f(2) by (simp add: fi_contains_def fi_lookup_def split: prod.splits)
  also have "\<dots> \<longleftrightarrow> (\<exists>s\<in>set (fi_buckets f ! bucket f h). sl_hash s = h \<and> eq (sl_value s))"
    by (rule scan_slots_iff)
  also have "\<dots> \<longleftrightarrow> (\<exists>s\<in>set xs. sl_hash s = h \<and> eq (sl_value s))"
    unfolding fi_rep_bucket_set [OF assms bucket_less [OF f]] by auto
  finally show ?thesis .
qed

lemma mset_swap_remove:
  assumes "i < length xs"
  shows "mset (swap_remove xs i) = mset xs - {#xs ! i#}"
proof -
  obtain ys y where xs: "xs = ys @ [y]" using assms by (cases xs rule: rev_cases) auto
  show ?thesis
  proof (cases "i < length ys")
    case True
    then show ?thesis by (simp add: xs swap_remove_def nth_append mset_update)
  next
    case False
    then show ?thesis using assms by (simp add: xs swap_remove_def nth_append less_Suc_eq list_update_beyond)
  qed
qed

lemma position_unique:
  assumes "s \<in> set xs" "p s" "\<And>t. t \<in> set xs \<Longrightarrow> p t \<Longrightarrow> t = s"
  shows "\<exists>i. fst (position p xs) = Some i \<and> i < length xs \<and> xs ! i = s"
  using assms
proof (induction xs)
  case (Cons x xs)
  show ?case
  proof (cases "p x")
    case True
    then show ?thesis using Cons.prems(3) [of x] by simp
  next
    case False
    then have "s \<in> set xs" using Cons.prems(1,2) by auto
    then obtain i where "fst (position p xs) = Some i" "i < length xs" "xs ! i = s"
      using Cons.IH [OF _ Cons.prems(2)] Cons.prems(3) by (metis list.set_intros(2))
    then show ?thesis using False by (auto split: prod.splits)
  qed
qed simp

lemma bucket_cong: "length (fi_buckets f) = length (fi_buckets g) \<Longrightarrow> bucket f = bucket g"
  by (intro ext) (simp add: bucket_def)

lemma seqs_tl:
  assumes "map sl_seq (s # xs) = map (\<lambda>i. n - word_of_nat i) (rev [1..<Suc (length (s # xs))])"
  shows "map sl_seq xs = map (\<lambda>i. n - word_of_nat i) (rev [1..<Suc (length xs)])"
  using assms by simp

lemma fi_rep_evict:
  assumes rep: "fi_rep f (s # xs)"
  shows "fi_rep (evict f) xs"
proof -
  let ?b = "bucket f (sl_hash s)"
  let ?slots = "fi_buckets f ! ?b"
  have b: "?b < length (fi_buckets f)" using rep by (intro bucket_less) (auto simp: fi_rep_def)
  have "s \<in> set ?slots" using fi_rep_bucket_set [OF rep b] by simp
  moreover have "t = s" if "t \<in> set ?slots" "sl_seq t = sl_seq s" for t
    using that fi_rep_bucket_set [OF rep b] fi_rep_seq_distinct [OF rep]
    by (auto simp: image_iff)
  ultimately obtain i where i: "fst (position (\<lambda>t. sl_seq t = sl_seq s) ?slots) = Some i"
      "i < length ?slots" "?slots ! i = s"
    using position_unique [of s ?slots "\<lambda>t. sl_seq t = sl_seq s"] by blast
  have ord: "fi_order f = (sl_seq s, ?b) # map (\<lambda>s. (sl_seq s, bucket f (sl_hash s))) xs"
    using rep by (simp add: fi_rep_def)
  have ev: "fi_buckets (evict f) = (fi_buckets f)[?b := swap_remove ?slots i]"
    "fi_order (evict f) = map (\<lambda>s. (sl_seq s, bucket f (sl_hash s))) xs"
    using ord i by (simp_all add: evict_def Let_def)
  have same: "bucket (evict f) = bucket f" by (rule bucket_cong) (simp add: evict_state)
  have "mset (fi_buckets (evict f) ! c) = mset (filter (\<lambda>s. bucket f (sl_hash s) = c) xs)"
    if "c < length (fi_buckets f)" for c
    using that rep i mset_swap_remove [OF i(2)] b by (cases "c = ?b") (simp_all add: ev fi_rep_def)
  then show ?thesis
    using rep seqs_tl [of s xs] ev same by (simp add: fi_rep_def evict_state fi_ok_def)
qed

lemma fi_insert_rep:
  assumes rep: "fi_rep f xs"
  shows "fi_rep (fi_insert f h v)
    (enqueue (fi_capacity f) xs \<lparr>sl_seq = fi_next_seq f, sl_hash = h, sl_value = v\<rparr>)"
proof -
  define g where "g = (if length xs = fi_capacity f then evict f else f)"
  define ys where "ys = (if length xs = fi_capacity f then tl xs else xs)"
  define slot where "slot = \<lparr>sl_seq = fi_next_seq f, sl_hash = h, sl_value = v\<rparr>"
  have cap: "fi_capacity f \<noteq> 0" "length (fi_order f) = length xs" "length xs \<le> fi_capacity f"
    using rep by (simp_all add: fi_rep_def)
  have grep: "fi_rep g ys"
    using rep cap(1) fi_rep_evict [of f "hd xs" "tl xs"] by (cases xs) (auto simp: g_def ys_def)
  have glen: "length ys < fi_capacity g" "fi_capacity g = fi_capacity f" "fi_next_seq g = fi_next_seq f"
    using cap by (auto simp: g_def ys_def evict_state)
  let ?b = "bucket g h"
  have b: "?b < length (fi_buckets g)" using grep by (intro bucket_less) (auto simp: fi_rep_def)
  define k where "k = fi_insert f h v"
  have k: "fi_buckets k = (fi_buckets g)[?b := fi_buckets g ! ?b @ [slot]]"
      "fi_order k = fi_order g @ [(fi_next_seq f, ?b)]" "fi_next_seq k = fi_next_seq f + 1"
      "fi_capacity k = fi_capacity f"
    using cap glen by (simp_all add: k_def fi_insert_def g_def Let_def slot_def evict_state)
  have same: "bucket k = bucket g" by (rule bucket_cong) (simp add: k)
  have "map sl_seq (ys @ [slot]) =
      map (\<lambda>i. fi_next_seq k - word_of_nat i) (rev [1..<Suc (length (ys @ [slot]))])"
  proof -
    have "rev [1..<Suc (length (ys @ [slot]))] = map Suc (rev [1..<Suc (length ys)]) @ [1]"
      by (simp add: map_Suc_upt rev_map [symmetric] upt_conv_Cons del: upt_Suc)
    then show ?thesis using grep glen by (simp add: fi_rep_def k slot_def comp_def del: upt_Suc)
  qed
  moreover have "mset (fi_buckets k ! c) = mset (filter (\<lambda>s. bucket k (sl_hash s) = c) (ys @ [slot]))"
    if "c < length (fi_buckets k)" for c
    using that grep b by (cases "c = ?b") (auto simp: k same fi_rep_def slot_def)
  ultimately have "fi_rep k (ys @ [slot])"
    using grep glen by (auto simp: fi_rep_def k same fi_ok_def slot_def)
  then show ?thesis by (simp add: k_def ys_def enqueue_def slot_def)
qed

text \<open>What an index holds after a sequence of insertions: the most recent ones.\<close>

definition recent :: "nat \<Rightarrow> 'a list \<Rightarrow> 'a list" where
  "recent c xs = drop (length xs - c) xs"

lemma enqueue_recent: "0 < c \<Longrightarrow> enqueue c (recent c xs) x = recent c (xs @ [x])"
  by (cases "c \<le> length xs") (auto simp: enqueue_def recent_def tl_drop drop_Suc Suc_diff_le)

definition insert_all :: "'a FifoIndex \<Rightarrow> (u64 \<times> 'a) list \<Rightarrow> 'a FifoIndex" where
  "insert_all f es = foldl (\<lambda>f (h, v). fi_insert f h v) f es"

lemma fi_insert_capacity: "fi_capacity (fi_insert f h v) = fi_capacity f"
  by (simp add: fi_insert_def Let_def evict_state)

lemma insert_all_rep:
  assumes "0 < c" "c < 2 ^ 64"
  shows "fi_capacity (insert_all (FifoIndex_new c) es) = c \<and>
    (\<exists>xs. fi_rep (insert_all (FifoIndex_new c) es) (recent c xs) \<and> map (\<lambda>s. (sl_hash s, sl_value s)) xs = es)"
proof (induction es rule: rev_induct)
  case Nil
  then show ?case using fi_rep_new [OF assms]
    by (auto simp: insert_all_def recent_def FifoIndex_new_def intro!: exI [of _ "[]"])
next
  case (snoc e es)
  let ?f = "insert_all (FifoIndex_new c) es"
  obtain h v where e: "e = (h, v)" by (cases e)
  have step: "insert_all (FifoIndex_new c) (es @ [e]) = fi_insert ?f h v" by (simp add: insert_all_def e)
  obtain xs where xs: "fi_rep ?f (recent c xs)" "map (\<lambda>s. (sl_hash s, sl_value s)) xs = es" "fi_capacity ?f = c"
    using snoc by blast
  from fi_insert_rep [OF xs(1), of h v] have "fi_rep (fi_insert ?f h v)
      (recent c (xs @ [\<lparr>sl_seq = fi_next_seq ?f, sl_hash = h, sl_value = v\<rparr>]))"
    by (simp only: xs(3) enqueue_recent [OF assms(1)])
  then show ?case unfolding step fi_insert_capacity xs(3) using xs(2) e
    by (intro conjI exI [of _ "xs @ [\<lparr>sl_seq = fi_next_seq ?f, sl_hash = h, sl_value = v\<rparr>]"]) simp_all
qed

lemma recent_map: "map f (recent c xs) = recent c (map f xs)"
  by (simp add: recent_def drop_map)

lemma fi_contains_recent:
  assumes "0 < c" "c < 2 ^ 64"
  shows "fst (fi_contains (insert_all (FifoIndex_new c) es) h eq) \<longleftrightarrow> (\<exists>v. (h, v) \<in> set (recent c es) \<and> eq v)"
proof -
  obtain xs where xs: "fi_rep (insert_all (FifoIndex_new c) es) (recent c xs)"
    "map (\<lambda>s. (sl_hash s, sl_value s)) xs = es" using insert_all_rep [OF assms, of es] by blast
  have "set (recent c es) = (\<lambda>s. (sl_hash s, sl_value s)) ` set (recent c xs)"
    by (simp only: xs(2) [symmetric] recent_map [symmetric] set_map)
  then show ?thesis unfolding fi_contains_rep [OF xs(1)] by (simp only:) blast
qed

end
