(* ===== verification/Seal.thy ===== *)
theory Seal
  imports Bft_Codec Fifo_Index
begin

text \<open>
  The root trust base (\<open>src/src/api/bft/root_trust_base.rs\<close>, except its JSON loader), the verification
  errors (\<open>src/src/verify/error.rs\<close>) and the seal session (\<open>src/src/verify/seal.rs\<close>): quorum counting
  over the signatures of a seal, behind bounded memos of verified seals and certificate bodies.
  A session is passed and returned explicitly.
\<close>

section \<open>Errors\<close>

datatype VerificationError =
    VInvalidTrustBase Error
  | NetworkMismatch
  | InvalidMintLockScript
  | UnsupportedMintJustification
  | UnsupportedTokenData
  | MalformedTokenData
  | PaymentIssuanceRejected
  | VerificationLimitExceeded string
  | MalformedMintJustification
  | PaymentDataMissing
  | SplitNetworkMismatch
  | BurnTokenVerificationFailed VerificationError
  | SplitTokenTypeMismatch
  | SplitBurnTransferMissing
  | SplitManifestMissing
  | SplitManifestMalformed
  | SplitManifestLengthMismatch
  | SplitProofCountMismatch
  | SplitAllocationProofInvalid
  | SplitSourcePaymentDataMissing
  | SplitSourceAssetMissing
  | SplitSourceAmountMismatch
  | SplitBurnPredicateMismatch
  | CertificationDataMismatch
  | TransactionHashMismatch
  | ReferenceTimeMismatch
  | ReferenceTimeAfterRound
  | RequestExpired
  | PathInvalid
  | NonInclusionCertificateInvalid
  | NonInclusionTargetMissing
  | NonInclusionTargetMismatch
  | ShardMismatch
  | SealNetworkMismatch
  | UnsupportedAuthority
  | SealEpochMismatch
  | SealBeforeEpochStart
  | SealMalformed
  | CertificateBodyInvalid
  | PartitionMismatch
  | ShardPathInvalid
  | ConfigurationMismatch
  | SealAfterAuthorityEnd
  | SealRootMismatch
  | QuorumNotMet
  | NotAuthenticated
  | GenesisError VerificationError
  | TransferError usize VerificationError

section \<open>Trust base\<close>

definition MAX_ROOT_NODES :: usize where "MAX_ROOT_NODES = 4096"
definition MAX_NODE_ID_BYTES :: usize where "MAX_NODE_ID_BYTES = 256"

record RootTrustBaseNodeInfo =
  tn_node_id :: bytes
  tn_signing_key :: PublicKey
  tn_stake :: u64

record RootTrustBase =
  tb_version :: u64
  tb_network_id :: NetworkId
  tb_epoch :: u64
  tb_epoch_start_round :: u64
  tb_root_nodes :: "RootTrustBaseNodeInfo list"
  tb_quorum_threshold :: u64

fun validate_nodes :: "RootTrustBaseNodeInfo list \<Rightarrow> bytes list \<Rightarrow> bytes list \<Rightarrow> Error + unit" where
  "validate_nodes [] node_ids signing_keys = Ok ()"
| "validate_nodes (node # rest) node_ids signing_keys =
     (if tn_node_id node = [] \<or> length (tn_node_id node) > MAX_NODE_ID_BYTES
      then Err (InvalidTrustBase ''validator node id length is invalid'')
      else if tn_node_id node \<in> set node_ids
      then Err (InvalidTrustBase ''validator node ids must be unique'')
      else if pk_bytes (tn_signing_key node) \<in> set signing_keys
      then Err (InvalidTrustBase ''validator signing keys must be unique'')
      else if tn_stake node = 0
      then Err (InvalidTrustBase ''validator stake must be positive'')
      else validate_nodes rest (tn_node_id node # node_ids)
             (pk_bytes (tn_signing_key node) # signing_keys))"

definition validate :: "RootTrustBase \<Rightarrow> Error + unit" where
  "validate tb =
     (if \<not> (tb_version tb = 0 \<or> tb_version tb = 1)
      then Err (InvalidTrustBase ''unsupported trust base version'')
      else if tb_root_nodes tb = []
      then Err (InvalidTrustBase ''validator set must not be empty'')
      else if length (tb_root_nodes tb) > MAX_ROOT_NODES
      then Err (InvalidTrustBase ''validator count exceeds safety limit'')
      else if tb_quorum_threshold tb = 0
      then Err (InvalidTrustBase ''quorum threshold must be positive'')
      else if tb_quorum_threshold tb > word_of_nat (length (tb_root_nodes tb))
      then Err (InvalidTrustBase ''quorum threshold exceeds validator count'')
      else validate_nodes (tb_root_nodes tb) [] [])"

definition RootTrustBase_try_new ::
  "u64 \<Rightarrow> NetworkId \<Rightarrow> u64 \<Rightarrow> u64 \<Rightarrow> RootTrustBaseNodeInfo list \<Rightarrow> u64 \<Rightarrow> Error + RootTrustBase" where
  "RootTrustBase_try_new version network_id epoch epoch_start_round root_nodes quorum_threshold =
     (let tb = \<lparr>tb_version = version, tb_network_id = network_id, tb_epoch = epoch,
        tb_epoch_start_round = epoch_start_round, tb_root_nodes = root_nodes,
        tb_quorum_threshold = quorum_threshold\<rparr>
      in rbind (validate tb) (\<lambda>_. Ok tb))"

definition signing_key :: "RootTrustBase \<Rightarrow> bytes \<Rightarrow> PublicKey option" where
  "signing_key tb node_id =
     map_option tn_signing_key (find (\<lambda>n. tn_node_id n = node_id) (tb_root_nodes tb))"

section \<open>Quorum\<close>

definition GENESIS_TIME :: u64 where "GENESIS_TIME = 1681971084"

definition check_seal_shape :: "UnicitySeal \<Rightarrow> VerificationError + unit" where
  "check_seal_shape seal =
     (if us_root_chain_round_number seal < 1 \<or> us_timestamp seal < GENESIS_TIME
         \<or> us_signatures seal = []
         \<or> list_ex (\<lambda>(node, sig). node = [] \<or> sig = []) (us_signatures seal)
      then Err SealMalformed else Ok ())"

record QuorumWork =
  qw_decodes :: u64
  qw_verifications :: u64

fun quorum_loop ::
  "'p k256 \<Rightarrow> RootTrustBase \<Rightarrow> bytes \<Rightarrow> (bytes \<times> bytes) list \<Rightarrow> bytes list \<Rightarrow> PublicKey list \<Rightarrow> QuorumWork
     \<Rightarrow> (VerificationError + unit) \<times> QuorumWork"
where
  "quorum_loop ec tb seal_hash [] counted counted_keys work = (Err QuorumNotMet, work)"
| "quorum_loop ec tb seal_hash ((node_id, signature) # rest) counted counted_keys work =
     (if node_id \<in> set counted then quorum_loop ec tb seal_hash rest counted counted_keys work
      else case signing_key tb node_id of
        None \<Rightarrow> quorum_loop ec tb seal_hash rest counted counted_keys work
      | Some key \<Rightarrow>
          if key \<in> set counted_keys then quorum_loop ec tb seal_hash rest counted counted_keys work
          else
            let work = work\<lparr>qw_decodes := qw_decodes work + 1\<rparr>
            in case Signature_decode signature of
                 Inl _ \<Rightarrow> quorum_loop ec tb seal_hash rest counted counted_keys work
               | Inr sig \<Rightarrow>
                   let work = work\<lparr>qw_verifications := qw_verifications work + 1\<rparr>
                   in if sig_verify ec sig seal_hash key
                      then
                        let counted' = node_id # counted; counted_keys' = counted_keys @ [key]
                        in if tb_quorum_threshold tb \<le> word_of_nat (length counted')
                           then (Ok (), work)
                           else quorum_loop ec tb seal_hash rest counted' counted_keys' work
                      else quorum_loop ec tb seal_hash rest counted counted_keys work)"

definition quorum_met_counted ::
  "sha2 \<Rightarrow> 'p k256 \<Rightarrow> RootTrustBase \<Rightarrow> UnicitySeal \<Rightarrow> QuorumWork \<Rightarrow> (VerificationError + unit) \<times> QuorumWork"
where
  "quorum_met_counted sha2 ec tb seal work =
     (if tb_quorum_threshold tb = 0 then (Ok (), work)
      else
        let seal_hash = UnicitySeal_calculate_hash sha2 seal
        in quorum_loop ec tb (dh_data seal_hash) (us_signatures seal) [] [] work)"

definition quorum_met ::
  "sha2 \<Rightarrow> 'p k256 \<Rightarrow> RootTrustBase \<Rightarrow> UnicitySeal \<Rightarrow> VerificationError + unit" where
  "quorum_met sha2 ec tb seal =
     fst (quorum_met_counted sha2 ec tb seal \<lparr>qw_decodes = 0, qw_verifications = 0\<rparr>)"

section \<open>Seal sessions\<close>

definition DEFAULT_SEAL_MEMO_CAPACITY :: usize where "DEFAULT_SEAL_MEMO_CAPACITY = 64"

record SealStats =
  st_quorum_checks :: u64
  st_memo_hits :: u64
  st_body_checks :: u64
  st_body_hits :: u64
  st_memo_probes :: u64

record SealSession =
  ss_trust_base :: RootTrustBase
  ss_validated :: bool
  ss_memo :: "bytes FifoIndex"
  ss_bodies :: "(bytes \<times> UnicityCertificate) FifoIndex"
  ss_stats :: SealStats

definition SealSession_with_capacity :: "RootTrustBase \<Rightarrow> usize \<Rightarrow> SealSession" where
  "SealSession_with_capacity tb capacity =
     \<lparr>ss_trust_base = tb, ss_validated = False, ss_memo = FifoIndex_new capacity,
      ss_bodies = FifoIndex_new capacity,
      ss_stats = \<lparr>st_quorum_checks = 0, st_memo_hits = 0, st_body_checks = 0, st_body_hits = 0,
        st_memo_probes = 0\<rparr>\<rparr>"

definition SealSession_new :: "RootTrustBase \<Rightarrow> SealSession" where
  "SealSession_new tb = SealSession_with_capacity tb DEFAULT_SEAL_MEMO_CAPACITY"

definition SealSession_stats :: "SealSession \<Rightarrow> SealStats" where
  "SealSession_stats s = (ss_stats s)\<lparr>st_memo_probes := fi_probes (ss_memo s) + fi_probes (ss_bodies s)\<rparr>"

text \<open>The FNV-1a mixing that both fingerprints use.\<close>

definition fnv_eat :: "u64 \<Rightarrow> bytes \<Rightarrow> u64" where
  "fnv_eat h bytes = foldl (\<lambda>h b. (h XOR ucast b) * 0x100000001b3) h bytes"

definition uc_fingerprint :: "UnicityCertificate \<Rightarrow> bytes \<Rightarrow> u64" where
  "uc_fingerprint uc policy =
     foldl fnv_eat 0xcbf29ce484222325
       [take 8 policy, us_hash (uc_unicity_seal uc),
        ShardId_encode (stc_shard (uc_shard_tree_certificate uc)),
        opt_or_empty (ir_hash (uc_input_record uc)),
        to_be_bytes (ir_round_number (uc_input_record uc)),
        to_be_bytes (us_root_chain_round_number (uc_unicity_seal uc))]"

definition body_verified :: "SealSession \<Rightarrow> UnicityCertificate \<Rightarrow> bytes \<Rightarrow> bool \<times> SealSession" where
  "body_verified s uc policy =
     (case fi_contains (ss_bodies s) (uc_fingerprint uc policy) (\<lambda>(p, c). p = policy \<and> c = uc) of
        (hit, bodies) \<Rightarrow>
          let s1 = s\<lparr>ss_bodies := bodies\<rparr>
          in (hit, if hit then s1\<lparr>ss_stats := (ss_stats s1)\<lparr>st_body_hits := st_body_hits (ss_stats s1) + 1\<rparr>\<rparr>
                   else s1))"

definition note_body_check :: "SealSession \<Rightarrow> SealSession" where
  "note_body_check s = s\<lparr>ss_stats := (ss_stats s)\<lparr>st_body_checks := st_body_checks (ss_stats s) + 1\<rparr>\<rparr>"

definition remember_body :: "SealSession \<Rightarrow> UnicityCertificate \<Rightarrow> bytes \<Rightarrow> SealSession" where
  "remember_body s uc policy =
     s\<lparr>ss_bodies := fi_insert (ss_bodies s) (uc_fingerprint uc policy) (policy, uc)\<rparr>"

definition ensure_trust_base :: "SealSession \<Rightarrow> (VerificationError + unit) \<times> SealSession" where
  "ensure_trust_base s =
     (if \<not> ss_validated s then
        (case map_err VInvalidTrustBase (validate (ss_trust_base s)) of
           Inl e \<Rightarrow> (Err e, s)
         | Inr _ \<Rightarrow> (Ok (), s\<lparr>ss_validated := True\<rparr>))
      else (Ok (), s))"

definition ascii :: "string \<Rightarrow> bytes" where
  "ascii s = map (\<lambda>c. of_char c) s"

text \<open>The content identity of the session's authority.\<close>

definition authority_node :: "RootTrustBaseNodeInfo \<Rightarrow> DataHasher \<Rightarrow> DataHasher" where
  "authority_node n h =
     update (to_be_bytes (tn_stake n)) (update (pk_bytes (tn_signing_key n))
       (update (tn_node_id n) (update (to_be_bytes (word_of_nat (length (tn_node_id n)) :: u64)) h)))"

definition authority_hasher :: "RootTrustBase \<Rightarrow> DataHasher" where
  "authority_hasher tb =
     (let h = update (to_be_bytes (word_of_nat (length (tb_root_nodes tb)) :: u64))
        (update (to_be_bytes (tb_quorum_threshold tb))
        (update (to_be_bytes (tb_epoch_start_round tb))
        (update (to_be_bytes (tb_epoch tb))
        (update (to_be_bytes (net_id (tb_network_id tb)))
        (update (to_be_bytes (tb_version tb))
        (update (ascii ''unicity-token/authority/v1'') sha256_hasher))))))
      in foldl (\<lambda>h n. authority_node n h) h (tb_root_nodes tb))"

definition authority_identity :: "sha2 \<Rightarrow> SealSession \<Rightarrow> bytes" where
  "authority_identity sha2 s = dh_data (finalize sha2 (authority_hasher (ss_trust_base s)))"

definition MEMO_DOMAIN :: bytes where
  "MEMO_DOMAIN = ascii ''unicity-token/seal-memo/v1''"

definition memo_preimage :: "UnicitySeal \<Rightarrow> bytes" where
  "memo_preimage seal =
     (let encoded = UnicitySeal_to_cbor seal
      in hr_input (update encoded (update (to_be_bytes (word_of_nat (length encoded) :: u64))
           (update MEMO_DOMAIN sha256_hasher))))"

definition seal_key :: "sha2 \<Rightarrow> UnicitySeal \<Rightarrow> bytes" where
  "seal_key sha2 seal =
     (let encoded = UnicitySeal_to_cbor seal
      in dh_data (finalize sha2 (update encoded
           (update (to_be_bytes (word_of_nat (length encoded) :: u64))
           (update MEMO_DOMAIN sha256_hasher)))))"

definition from_le_bytes :: "bytes \<Rightarrow> u64" where
  "from_le_bytes bs = from_be_bytes (rev bs)"

definition verify_quorum_under ::
  "sha2 \<Rightarrow> 'p k256 \<Rightarrow> SealSession \<Rightarrow> UnicitySeal \<Rightarrow> bytes \<Rightarrow> (VerificationError + unit) \<times> SealSession" where
  "verify_quorum_under sha2 ec s0 seal policy =
     (case ensure_trust_base s0 of
        (Inl e, s) \<Rightarrow> (Err e, s)
      | (Inr _, s) \<Rightarrow>
          let key = seal_key sha2 seal; hash = from_le_bytes (take 8 key)
          in case fi_contains (ss_memo s) hash (\<lambda>k. k = key) of
               (hit, memo) \<Rightarrow>
                 let s1 = s\<lparr>ss_memo := memo\<rparr>
                 in if hit
                    then (Ok (), s1\<lparr>ss_stats := (ss_stats s1)\<lparr>st_memo_hits := st_memo_hits (ss_stats s1) + 1\<rparr>\<rparr>)
                    else
                      let s2 = s1\<lparr>ss_stats := (ss_stats s1)\<lparr>st_quorum_checks := st_quorum_checks (ss_stats s1) + 1\<rparr>\<rparr>
                      in case quorum_met sha2 ec (ss_trust_base s2) seal of
                           Inl e \<Rightarrow> (Err e, s2)
                         | Inr _ \<Rightarrow> (Ok (), s2\<lparr>ss_memo := fi_insert (ss_memo s2) hash key\<rparr>))"

text \<open>The namespace of the checks without a policy.\<close>

definition NO_POLICY :: bytes where
  "NO_POLICY = replicate 32 0"

definition verify_quorum ::
  "sha2 \<Rightarrow> 'p k256 \<Rightarrow> SealSession \<Rightarrow> UnicitySeal \<Rightarrow> (VerificationError + unit) \<times> SealSession" where
  "verify_quorum sha2 ec s seal = verify_quorum_under sha2 ec s seal NO_POLICY"

definition authenticate_seal_under ::
  "sha2 \<Rightarrow> 'p k256 \<Rightarrow> SealSession \<Rightarrow> UnicitySeal \<Rightarrow> bytes \<Rightarrow> (VerificationError + unit) \<times> SealSession" where
  "authenticate_seal_under sha2 ec s0 seal policy =
     (case ensure_trust_base s0 of
        (Inl e, s) \<Rightarrow> (Err e, s)
      | (Inr _, s) \<Rightarrow>
          let tb = ss_trust_base s
          in if list_ex (\<lambda>n. tn_stake n \<noteq> 1) (tb_root_nodes tb) then (Err UnsupportedAuthority, s)
             else case check_seal_shape seal of
               Inl e \<Rightarrow> (Err e, s)
             | Inr _ \<Rightarrow>
                 if us_network_id seal \<noteq> tb_network_id tb then (Err SealNetworkMismatch, s)
                 else if us_epoch seal \<noteq> tb_epoch tb then (Err SealEpochMismatch, s)
                 else if us_root_chain_round_number seal < tb_epoch_start_round tb
                 then (Err SealBeforeEpochStart, s)
                 else verify_quorum_under sha2 ec s seal policy)"

definition authenticate_seal ::
  "sha2 \<Rightarrow> 'p k256 \<Rightarrow> SealSession \<Rightarrow> UnicitySeal \<Rightarrow> (VerificationError + unit) \<times> SealSession" where
  "authenticate_seal sha2 ec s seal = authenticate_seal_under sha2 ec s seal NO_POLICY"

end
