(* ===== verification/Topology.thy ===== *)
theory Topology
  imports Shard_Bits Seal
begin

text \<open>
  Trusted partition topologies (\<open>src/src/consolidation/topology.rs\<close>) and the errors of consolidation
  (\<open>error.rs\<close>). A sharding scheme is admitted exactly when its ids are the leaves of a binary tree,
  that is when every key has exactly one shard. The comparison counters of the tests are left out.
\<close>

section \<open>Errors\<close>

datatype PartitionViewError =
    ViewDecode Error
  | ViewTooLarge usize usize
  | UnsupportedVersion u64
  | NotCanonical
  | Bounds string
  | InvalidTopology string
  | ViewPartitionMismatch
  | LeafSetMismatch string
  | ConfigHashMismatch
  | ConfigHashRequired
  | TreeRootMismatch
  | EnclosingCertificate string
  | SealFailure VerificationError

section \<open>Topologies\<close>

text \<open>\<open>BTreeMap::insert\<close> on the entries in key order.\<close>

fun btree_insert :: "bytes \<Rightarrow> 'v \<Rightarrow> (bytes \<times> 'v) list \<Rightarrow> (bytes \<times> 'v) list" where
  "btree_insert k v [] = [(k, v)]"
| "btree_insert k v ((k', v') # es) =
     (case cmp_bytes k k' of
        Less \<Rightarrow> (k, v) # (k', v') # es
      | Equal \<Rightarrow> (k, v) # es
      | Greater \<Rightarrow> (k', v') # btree_insert k v es)"

definition MAX_PARTITION_VIEW_LEAVES :: usize where "MAX_PARTITION_VIEW_LEAVES = 8"
definition MAX_PARTITION_VIEW_SHARD_ID_BITS :: usize where "MAX_PARTITION_VIEW_SHARD_ID_BITS = 256"

record PartitionTopology =
  pt_scheme :: "ShardId list"
  pt_conf_hashes :: "(bytes \<times> bytes) list"

definition PartitionTopology_single_shard :: PartitionTopology where
  "PartitionTopology_single_shard = \<lparr>pt_scheme = [], pt_conf_hashes = []\<rparr>"

definition PartitionTopology_new :: "ShardId list \<Rightarrow> PartitionTopology" where
  "PartitionTopology_new scheme = \<lparr>pt_scheme = scheme, pt_conf_hashes = []\<rparr>"

definition PartitionTopology_with_shard_conf_hash :: "PartitionTopology \<Rightarrow> ShardId \<Rightarrow> bytes \<Rightarrow> PartitionTopology" where
  "PartitionTopology_with_shard_conf_hash t shard hash =
     t\<lparr>pt_conf_hashes := btree_insert (ShardId_encode shard) hash (pt_conf_hashes t)\<rparr>"

definition shard_conf_hash :: "PartitionTopology \<Rightarrow> ShardId \<Rightarrow> bytes option" where
  "shard_conf_hash t shard = map_of (pt_conf_hashes t) (ShardId_encode shard)"

definition len_be :: "nat \<Rightarrow> bytes" where
  "len_be n = to_be_bytes (word_of_nat n :: u64)"

definition PartitionTopology_digest :: "sha2 \<Rightarrow> PartitionTopology \<Rightarrow> bytes" where
  "PartitionTopology_digest sha2 t =
     (let h = update (len_be (length (pt_scheme t))) (update (ascii ''unicity-token/topology/v1'') sha256_hasher);
          scheme = sort_by cmp_bytes (map ShardId_encode (pt_scheme t));
          h = fold (\<lambda>i h. update i (update (len_be (length i)) h)) scheme h;
          h = update (len_be (length (pt_conf_hashes t))) h;
          h = fold (\<lambda>(i, hash) h. update hash (update i (update (len_be (length i)) h))) (pt_conf_hashes t) h
      in dh_data (finalize sha2 h))"

text \<open>\<open>slice::partition_point\<close> on a slice that is partitioned by the predicate; the slices of \<open>covers\<close> are
  (\<open>shards_partitioned\<close>).\<close>

definition partition_point :: "('a \<Rightarrow> bool) \<Rightarrow> 'a list \<Rightarrow> nat" where
  "partition_point P xs = length (takeWhile P xs)"

lemma partition_point_le: "partition_point P xs \<le> length xs"
  by (simp add: partition_point_def length_takeWhile_le)

function covers :: "ShardId list \<Rightarrow> nat \<Rightarrow> bool" where
  "covers shards depth =
     (if length shards = 1 then sh_length (shards ! 0) = depth
      else
        let split = partition_point (\<lambda>s. get_bit s depth = Ok 0) shards
        in if split \<noteq> 0 \<and> split \<noteq> length shards
           then covers (take split shards) (depth + 1) \<and> covers (drop split shards) (depth + 1)
           else False)"
  by pat_completeness auto
termination
proof (relation "measure (\<lambda>(shards, depth). length shards)", goal_cases)
  case (2 shards depth split)
  then show ?case using partition_point_le [of "\<lambda>s. get_bit s depth = Ok 0" shards] by simp
next
  case (3 shards depth split)
  then show ?case using partition_point_le [of "\<lambda>s. get_bit s depth = Ok 0" shards] by simp linarith
qed simp

declare covers.simps [simp del]

fun adjacent_prefix :: "ShardId list \<Rightarrow> bool" where
  "adjacent_prefix (a # b # rest) \<longleftrightarrow> is_prefix_of_shard a b \<or> adjacent_prefix (b # rest)"
| "adjacent_prefix _ \<longleftrightarrow> False"

text \<open>The per-id checks, first failure first.\<close>

fun check_shard_ids :: "ShardId list \<Rightarrow> PartitionViewError + unit" where
  "check_shard_ids [] = Ok ()"
| "check_shard_ids (shard # ids) =
     (if sh_length shard = 0 then Err (InvalidTopology ''a scheme can not contain the empty shard id'')
      else if sh_length shard > MAX_PARTITION_VIEW_SHARD_ID_BITS then Err (InvalidTopology ''shard id is too long'')
      else check_shard_ids ids)"

definition canonical_order_with :: "PartitionTopology \<Rightarrow> usize \<Rightarrow> PartitionViewError + ShardId list" where
  "canonical_order_with t max_shards =
     (if length (pt_scheme t) > max_shards then Err (InvalidTopology ''too many shards'')
      else if pt_scheme t = [] then Ok [ShardId_root]
      else if length (pt_scheme t) = 1 then Err (InvalidTopology ''a scheme can not hold a single shard'')
      else rbind (check_shard_ids (pt_scheme t)) (\<lambda>_.
        let ids = sort_by canonical_cmp (pt_scheme t)
        in if adjacent_prefix ids then Err (InvalidTopology ''scheme is not prefix-free'')
           else if \<not> covers ids 0 then Err (InvalidTopology ''scheme does not cover the whole shard tree'')
           else Ok ids))"

definition canonical_order :: "PartitionTopology \<Rightarrow> PartitionViewError + ShardId list" where
  "canonical_order t = canonical_order_with t MAX_PARTITION_VIEW_LEAVES"

section \<open>Complete codes\<close>

datatype shape = Tip | Fork shape shape

primrec paths :: "bool list \<Rightarrow> shape \<Rightarrow> bool list list" where
  "paths p Tip = [p]"
| "paths p (Fork l r) = paths (p @ [False]) l @ paths (p @ [True]) r"

lemma paths_nonempty [simp]: "paths p t \<noteq> []"
  by (induction t arbitrary: p) auto

lemma paths_extend: "b \<in> set (paths p t) \<Longrightarrow> prefix p b"
proof (induction t arbitrary: p)
  case (Fork l r)
  then show ?case by (auto dest: append_prefixD)
qed simp

text \<open>Every key below \<open>p\<close> has exactly one prefix among the strings.\<close>

definition cover_from :: "bool list \<Rightarrow> bool list list \<Rightarrow> bool" where
  "cover_from p bss \<longleftrightarrow> (\<forall>key. length key = 256 \<longrightarrow> prefix p key \<longrightarrow> length (filter (\<lambda>b. prefix b key) bss) = 1)"

lemma prefix_bit: "prefix (p @ [x]) key \<Longrightarrow> key ! length p = x"
  by (auto simp: prefix_def)

lemma other_branch: "prefix (p @ [x]) b \<Longrightarrow> prefix (p @ [y]) key \<Longrightarrow> x \<noteq> y \<Longrightarrow> \<not> prefix b key"
  using prefix_bit prefix_order.trans by metis

lemma prefix_same_length: "prefix p q \<Longrightarrow> length q \<le> length p \<Longrightarrow> p = q"
  by (auto simp: prefix_def)

lemma prefix_step: "prefix p key \<Longrightarrow> length p < length key \<Longrightarrow> prefix (p @ [key ! length p]) key"
  by (auto simp: prefix_def nth_append neq_Nil_conv)

lemma paths_cover: "(\<And>b. b \<in> set (paths p t) \<Longrightarrow> length b \<le> 256) \<Longrightarrow> cover_from p (paths p t)"
proof (induction t arbitrary: p)
  case (Fork l r)
  have l: "cover_from (p @ [False]) (paths (p @ [False]) l)" and r: "cover_from (p @ [True]) (paths (p @ [True]) r)"
    by (rule Fork.IH; use Fork.prems in auto)+
  have len: "length p < 256"
    using Fork.prems [of "hd (paths (p @ [False]) l)"] paths_extend [of "hd (paths (p @ [False]) l)" "p @ [False]" l]
      prefix_length_le [of "p @ [False]" "hd (paths (p @ [False]) l)"] by simp
  have none: "filter (\<lambda>b. prefix b key) (paths (p @ [x]) t) = []" if "prefix (p @ [\<not> x]) key" for x key t
    using other_branch [OF paths_extend that] by (auto simp: filter_empty_conv)
  show ?case unfolding cover_from_def
  proof (intro allI impI)
    fix key :: "bool list" assume key: "length key = 256" "prefix p key"
    have "prefix (p @ [key ! length p]) key" using prefix_step [OF key(2)] key len by simp
    then show "length (filter (\<lambda>b. prefix b key) (paths p (Fork l r))) = 1"
      using l r key none [of False key r] none [of True key r] none [of False key l]
      by (cases "key ! length p") (auto simp: cover_from_def)
  qed
qed (simp add: cover_from_def)

text \<open>Conversely, sorted strings below \<open>p\<close> that cover every key once are the leaves of a tree.\<close>

abbreviation bools_le :: "bool list \<Rightarrow> bool list \<Rightarrow> bool" where
  "bools_le xs ys \<equiv> cmp_bools xs ys \<noteq> Greater"

lemma extend_bit: "prefix p b \<Longrightarrow> length p < length b \<Longrightarrow> prefix (p @ [x]) b \<longleftrightarrow> b ! length p = x"
  by (auto simp: prefix_def nth_append neq_Nil_conv)

lemma bit_sorted:
  assumes "prefix p a" "prefix p b" "length p < length a" "length p < length b" "bools_le a b" "a ! length p"
  shows "b ! length p"
proof -
  obtain as bs where a: "a = (p @ [a ! length p]) @ as" and b: "b = (p @ [b ! length p]) @ bs"
    using prefix_step [OF assms(1,3)] prefix_step [OF assms(2,4)] by (auto simp: prefix_def)
  have "cmp_bools (p @ (a ! length p) # as) (p @ (b ! length p) # bs) \<noteq> Greater"
    using assms(5) a b by (metis append.assoc append_Cons append_Nil)
  then show ?thesis using assms(6) by (simp add: cmp_bools_append split: if_splits)
qed

lemma sorted_split:
  assumes "sorted_wrt (\<lambda>x y. bools_le (f x) (f y)) xs" "\<And>x. x \<in> set xs \<Longrightarrow> prefix p (f x) \<and> length p < length (f x)"
  shows "xs = filter (\<lambda>x. \<not> f x ! length p) xs @ filter (\<lambda>x. f x ! length p) xs \<and>
    takeWhile (\<lambda>x. \<not> f x ! length p) xs = filter (\<lambda>x. \<not> f x ! length p) xs"
  using assms
proof (induction xs)
  case (Cons x xs)
  show ?case
  proof (cases "f x ! length p")
    case True
    have "f y ! length p" if "y \<in> set xs" for y
      using bit_sorted [of p "f x" "f y"] True Cons.prems that by auto
    then show ?thesis using True by (simp add: filter_empty_conv [THEN iffD2] filter_id_conv [THEN iffD2])
  next
    case False
    then show ?thesis using Cons by simp
  qed
qed simp

lemma cover_from_branch:
  assumes cover: "cover_from p bss" and ext: "\<And>b. b \<in> set bss \<Longrightarrow> prefix p b \<and> length p < length b"
  shows "cover_from (p @ [x]) (filter (\<lambda>b. b ! length p = x) bss)"
  unfolding cover_from_def
proof (intro allI impI)
  fix key :: "bool list" assume key: "length key = 256" "prefix (p @ [x]) key"
  have "b ! length p = x" if "b \<in> set bss" "prefix b key" for b
  proof -
    have "prefix (p @ [b ! length p]) b" using prefix_step ext [OF that(1)] by blast
    then show ?thesis using other_branch [OF _ key(2)] that(2) by blast
  qed
  then have "filter (\<lambda>b. prefix b key) (filter (\<lambda>b. b ! length p = x) bss) = filter (\<lambda>b. prefix b key) bss"
    unfolding filter_filter by (intro filter_cong) auto
  then show "length (filter (\<lambda>b. prefix b key) (filter (\<lambda>b. b ! length p = x) bss)) = 1"
    using cover key append_prefixD [OF key(2)] by (simp add: cover_from_def)
qed

lemma cover_from_nonempty:
  assumes "cover_from p bss" "length p \<le> 256"
  shows "bss \<noteq> []"
proof
  assume "bss = []"
  moreover have "length (p @ replicate (256 - length p) False) = 256" "prefix p (p @ replicate (256 - length p) False)"
    using assms(2) by simp_all
  ultimately show False using assms(1) unfolding cover_from_def by (metis filter.simps(1) list.size(3) zero_neq_one)
qed

lemma cover_from_self:
  assumes cover: "cover_from p bss" and p: "p \<in> set bss" and len: "\<And>b. b \<in> set bss \<Longrightarrow> prefix p b \<and> length b \<le> 256"
  shows "bss = [p]"
proof -
  have all: "filter (\<lambda>c. prefix c (b @ replicate (256 - length b) False)) bss = [p]" if "b \<in> set bss" for b
  proof -
    let ?key = "b @ replicate (256 - length b) False"
    have "length ?key = 256" "prefix p ?key" using len [OF that] by (auto intro: prefix_order.trans)
    then have one: "length (filter (\<lambda>c. prefix c ?key) bss) = 1" using cover by (simp add: cover_from_def)
    moreover have "p \<in> set (filter (\<lambda>c. prefix c ?key) bss)" using p \<open>prefix p ?key\<close> by simp
    ultimately show ?thesis by (cases "filter (\<lambda>c. prefix c ?key) bss") auto
  qed
  have "b = p" if "b \<in> set bss" for b
  proof -
    have "b \<in> set (filter (\<lambda>c. prefix c (b @ replicate (256 - length b) False)) bss)" using that by simp
    then show ?thesis unfolding all [OF that] by simp
  qed
  then have "filter (\<lambda>c. prefix c (p @ replicate (256 - length p) False)) bss = bss" by (auto simp: filter_id_conv)
  then show ?thesis using all [OF p] by simp
qed

lemma cover_tree:
  assumes "cover_from p bss" "sorted_wrt bools_le bss" "\<And>b. b \<in> set bss \<Longrightarrow> prefix p b \<and> length b \<le> 256" "length p \<le> 256"
  shows "\<exists>t. bss = paths p t"
  using assms
proof (induction "length bss" arbitrary: p bss rule: less_induct)
  case less
  show ?case
  proof (cases "p \<in> set bss")
    case True
    then have "bss = paths p Tip" using cover_from_self [OF less.prems(1) True] less.prems(3) by simp
    then show ?thesis by blast
  next
    case False
    have ext: "prefix p b \<and> length p < length b" if "b \<in> set bss" for b
      using less.prems(3) [OF that] False that prefix_same_length [of p b] by (metis not_le)
    have short: "length p < 256"
      using ext less.prems(3) cover_from_nonempty [OF less.prems(1,4)] by (metis hd_in_set order.strict_trans2)
    let ?L = "filter (\<lambda>b. b ! length p = False) bss" and ?R = "filter (\<lambda>b. b ! length p = True) bss"
    have split: "bss = filter (\<lambda>b. \<not> b ! length p) bss @ filter (\<lambda>b. b ! length p) bss"
      using sorted_split [of "\<lambda>b. b" bss p] less.prems(2) ext by blast
    have L: "cover_from (p @ [False]) ?L" and R: "cover_from (p @ [True]) ?R"
      by (rule cover_from_branch [OF less.prems(1) ext], assumption)+
    have ne: "?L \<noteq> []" "?R \<noteq> []"
      using cover_from_nonempty [OF L] cover_from_nonempty [OF R] short by auto
    have lens: "length ?L + length ?R = length bss" using split by (metis (no_types, lifting) length_append filter_cong)
    have sub: "sorted_wrt bools_le (filter P bss)" for P by (rule sorted_wrt_filter [OF less.prems(2)])
    have bits: "prefix (p @ [x]) b \<and> length b \<le> 256" if "b \<in> set (filter (\<lambda>b. b ! length p = x) bss)" for b x
      using that extend_bit [of p b x] ext less.prems(3) by auto
    obtain l where l: "?L = paths (p @ [False]) l"
      using less.hyps [OF _ L sub bits] ne lens short by (metis add_diff_cancel_left' diff_less length_append_singleton length_greater_0_conv less_add_same_cancel1 Suc_leI)
    obtain r where r: "?R = paths (p @ [True]) r"
      using less.hyps [OF _ R sub bits] ne lens short by (metis length_append_singleton length_greater_0_conv less_add_same_cancel2 Suc_leI)
    have "bss = paths p (Fork l r)" using split l r by simp
    then show ?thesis by blast
  qed
qed

section \<open>What is admitted\<close>

abbreviation unrelated :: "bool list \<Rightarrow> bool list \<Rightarrow> bool" where
  "unrelated a b \<equiv> \<not> prefix a b \<and> \<not> prefix b a"

abbreviation prefix_free :: "bool list list \<Rightarrow> bool" where
  "prefix_free \<equiv> sorted_wrt unrelated"

lemma paths_prefix_free: "prefix_free (paths p t)"
proof (induction t arbitrary: p)
  case (Fork l r)
  have "unrelated a b" if "a \<in> set (paths (p @ [False]) l)" "b \<in> set (paths (p @ [True]) r)" for a b
    using other_branch [OF paths_extend [OF that(1)] paths_extend [OF that(2)]]
      other_branch [OF paths_extend [OF that(2)] paths_extend [OF that(1)]] by blast
  then show ?case using Fork by (simp add: sorted_wrt_append)
qed simp

text \<open>The slices on which \<open>covers\<close> searches are partitioned by the next bit.\<close>

definition shards_below :: "bool list \<Rightarrow> ShardId list \<Rightarrow> bool" where
  "shards_below p ids \<longleftrightarrow> (\<forall>s\<in>set ids. ShardId_wf s \<and> prefix p (shard_bits s)) \<and>
     sorted_wrt bools_le (map shard_bits ids) \<and> prefix_free (map shard_bits ids)"

lemma shards_below_longer:
  assumes "shards_below p ids" "length ids \<noteq> 1" "s \<in> set ids"
  shows "length p < sh_length s"
proof (rule ccontr)
  assume "\<not> length p < sh_length s"
  moreover have pre: "prefix p (shard_bits s)" using assms by (simp add: shards_below_def)
  ultimately have "shard_bits s = p" using prefix_same_length [OF pre] by simp
  obtain i where i: "i < length ids" "ids ! i = s" using assms(3) by (auto simp: in_set_conv_nth)
  define j where "j = (if i = 0 then 1 else 0 :: nat)"
  have j: "j < length ids" "j \<noteq> i" using assms(2) i(1) by (auto simp: j_def)
  then have "prefix (shard_bits s) (shard_bits (ids ! j))" using assms(1) \<open>shard_bits s = p\<close> by (simp add: shards_below_def)
  moreover have "unrelated (map shard_bits ids ! i) (map shard_bits ids ! j)"
    using assms(1) i(1) j sorted_wrt_nth_less [of unrelated "map shard_bits ids"]
    by (cases "i < j") (auto simp: shards_below_def)
  ultimately show False using i j(1) by simp
qed

lemma shards_partitioned:
  assumes "shards_below p ids" "length ids \<noteq> 1"
  shows "takeWhile (\<lambda>s. get_bit s (length p) = Ok 0) ids = filter (\<lambda>s. \<not> shard_bits s ! length p) ids"
    "ids = filter (\<lambda>s. \<not> shard_bits s ! length p) ids @ filter (\<lambda>s. shard_bits s ! length p) ids"
proof -
  have "ids = filter (\<lambda>s. \<not> shard_bits s ! length p) ids @ filter (\<lambda>s. shard_bits s ! length p) ids \<and>
      takeWhile (\<lambda>s. \<not> shard_bits s ! length p) ids = filter (\<lambda>s. \<not> shard_bits s ! length p) ids"
    using assms shards_below_longer [OF assms] by (intro sorted_split) (auto simp: shards_below_def sorted_wrt_map)
  moreover have "takeWhile (\<lambda>s. get_bit s (length p) = Ok 0) ids = takeWhile (\<lambda>s. \<not> shard_bits s ! length p) ids"
    using assms(1) shards_below_longer [OF assms]
    by (intro takeWhile_cong) (auto simp: shards_below_def get_bit_zero_iff)
  ultimately show "takeWhile (\<lambda>s. get_bit s (length p) = Ok 0) ids = filter (\<lambda>s. \<not> shard_bits s ! length p) ids"
    "ids = filter (\<lambda>s. \<not> shard_bits s ! length p) ids @ filter (\<lambda>s. shard_bits s ! length p) ids" by simp_all
qed

lemma shards_below_filter:
  assumes "shards_below p ids" "length ids \<noteq> 1"
  shows "shards_below (p @ [x]) (filter (\<lambda>s. shard_bits s ! length p = x) ids)"
proof -
  have "prefix (p @ [x]) (shard_bits s)" if "s \<in> set ids" "shard_bits s ! length p = x" for s
    using that assms(1) shards_below_longer [OF assms that(1)] by (simp add: extend_bit shards_below_def)
  moreover have "sorted_wrt R (map shard_bits (filter P ids))" if "sorted_wrt R (map shard_bits ids)" for R P
    using that by (simp add: sorted_wrt_map sorted_wrt_filter)
  ultimately show ?thesis using assms(1) unfolding shards_below_def by auto
qed

lemma covers_iff:
  assumes "shards_below p ids"
  shows "covers ids (length p) \<longleftrightarrow> (\<exists>t. map shard_bits ids = paths p t)"
  using assms
proof (induction "length ids" arbitrary: p ids rule: less_induct)
  case less
  show ?case
  proof (cases "length ids = 1")
    case True
    then obtain s where s: "ids = [s]" by (metis One_nat_def length_0_conv length_Suc_conv)
    have pre: "prefix p (shard_bits s)" using less.prems s by (simp add: shards_below_def)
    have "covers ids (length p) \<longleftrightarrow> shard_bits s = p"
      using prefix_same_length [OF pre] s by (auto simp: covers.simps)
    moreover have "shard_bits s = p \<longleftrightarrow> (\<exists>t. [shard_bits s] = paths p t)"
    proof
      assume "\<exists>t. [shard_bits s] = paths p t"
      then obtain t where "[shard_bits s] = paths p t" by blast
      then show "shard_bits s = p" by (cases t) (auto simp: Cons_eq_append_conv)
    qed (metis paths.simps(1))
    ultimately show ?thesis using s by simp
  next
    case False
    let ?L = "filter (\<lambda>s. shard_bits s ! length p = False) ids" and ?R = "filter (\<lambda>s. shard_bits s ! length p = True) ids"
    let ?n = "partition_point (\<lambda>s. get_bit s (length p) = Ok 0) ids"
    have n: "?n = length ?L" and split: "ids = ?L @ ?R" using shards_partitioned [OF less.prems False] by (simp_all add: partition_point_def)
    have parts: "take ?n ids = ?L" "drop ?n ids = ?R" using n split by (metis append_eq_conv_conj)+
    note below = shards_below_filter [OF less.prems False]
    have cov: "covers ids (length p) \<longleftrightarrow> ?L \<noteq> [] \<and> ?R \<noteq> [] \<and>
        covers ?L (length (p @ [False])) \<and> covers ?R (length (p @ [True]))"
    proof -
      have "?n = 0 \<longleftrightarrow> ?L = []" "?n = length ids \<longleftrightarrow> ?R = []"
        using n arg_cong [OF split, of length] by (simp_all only: length_append length_0_conv) auto
      then show ?thesis using False parts by (subst covers.simps) (auto simp: Let_def)
    qed
    have IH: "covers ?L (length (p @ [False])) \<longleftrightarrow> (\<exists>t. map shard_bits ?L = paths (p @ [False]) t)"
      "covers ?R (length (p @ [True])) \<longleftrightarrow> (\<exists>t. map shard_bits ?R = paths (p @ [True]) t)"
      if "?L \<noteq> []" "?R \<noteq> []"
      using that arg_cong [OF split, of length] by (intro less.hyps below; simp)+
    have "(\<exists>t. map shard_bits ids = paths p t) \<longleftrightarrow>
        (\<exists>l r. map shard_bits ?L = paths (p @ [False]) l \<and> map shard_bits ?R = paths (p @ [True]) r)"
    proof
      assume "\<exists>t. map shard_bits ids = paths p t"
      then obtain t where t: "map shard_bits ids = paths p t" by blast
      then obtain l r where lr: "t = Fork l r" using False by (cases t) (auto simp: length_Suc_conv)
      have bit: "b ! length p = x" if "b \<in> set (paths (p @ [x]) u)" for b x u
        using prefix_bit [OF paths_extend [OF that]] .
      have parts: "map shard_bits (filter (\<lambda>s. shard_bits s ! length p = x) ids) =
          filter (\<lambda>b. b ! length p = x) (paths (p @ [False]) l @ paths (p @ [True]) r)" for x
        using t lr by (simp only: filter_map [of "\<lambda>b. b ! length p = x" shard_bits ids, unfolded comp_def, symmetric] paths.simps)
      have "map shard_bits ?L = paths (p @ [False]) l"
        unfolding parts [of False] using bit [of _ False l] bit [of _ True r]
        by (simp add: filter_empty_conv filter_id_conv)
      moreover have "map shard_bits ?R = paths (p @ [True]) r"
        unfolding parts [of True] using bit [of _ False l] bit [of _ True r]
        by (simp add: filter_empty_conv filter_id_conv)
      ultimately show "\<exists>l r. map shard_bits ?L = paths (p @ [False]) l \<and> map shard_bits ?R = paths (p @ [True]) r"
        by blast
    next
      assume "\<exists>l r. map shard_bits ?L = paths (p @ [False]) l \<and> map shard_bits ?R = paths (p @ [True]) r"
      then obtain l r where "map shard_bits (?L @ ?R) = paths p (Fork l r)" by auto
      then show "\<exists>t. map shard_bits ids = paths p t" using split by metis
    qed
    moreover have "?L \<noteq> [] \<and> ?R \<noteq> []"
      if "map shard_bits ?L = paths (p @ [False]) l" "map shard_bits ?R = paths (p @ [True]) r" for l r
      using that paths_nonempty [of "p @ [False]" l] paths_nonempty [of "p @ [True]" r] by (auto simp del: paths_nonempty)
    ultimately show ?thesis using cov IH by blast
  qed
qed

text \<open>Neighbours that are not prefixes make a sorted scheme prefix-free.\<close>

lemma adjacent_prefix_iff:
  assumes "sorted_wrt bools_le (map shard_bits ids)" "\<And>s. s \<in> set ids \<Longrightarrow> ShardId_wf s"
  shows "\<not> adjacent_prefix ids \<longleftrightarrow> prefix_free (map shard_bits ids)"
  using assms
proof (induction ids rule: adjacent_prefix.induct)
  case (1 a b rest)
  have le: "bools_le (shard_bits a) (shard_bits b)" using "1.prems"(1) by simp
  have iff: "is_prefix_of_shard a b \<longleftrightarrow> prefix (shard_bits a) (shard_bits b)"
    using "1.prems"(2) by (simp add: is_prefix_of_shard_iff)
  have "unrelated (shard_bits a) (shard_bits c)" if "c \<in> set (b # rest)" "\<not> prefix (shard_bits a) (shard_bits b)" for c
  proof -
    have bc: "bools_le (shard_bits b) (shard_bits c)"
      using that(1) "1.prems"(1) bool_order.not_Greater_iff by auto
    have ac: "bools_le (shard_bits a) (shard_bits c)" using that(1) "1.prems"(1) by auto
    have "\<not> prefix (shard_bits a) (shard_bits c)" using cmp_bools_between [OF le bc] that(2) by blast
    moreover have "\<not> prefix (shard_bits c) (shard_bits a)"
    proof
      assume "prefix (shard_bits c) (shard_bits a)"
      then have "shard_bits a = shard_bits c"
        using cmp_bools_prefix ac bool_order.not_Greater_iff bool_order.cmp_flip by metis
      then show False using calculation by simp
    qed
    ultimately show ?thesis by blast
  qed
  moreover have "\<not> adjacent_prefix (b # rest) \<longleftrightarrow> prefix_free (map shard_bits (b # rest))"
    by (rule "1.IH") (use "1.prems" in auto)
  ultimately show ?case using iff by auto
qed auto

definition unique_cover :: "bool list list \<Rightarrow> bool" where
  "unique_cover bss \<longleftrightarrow> cover_from [] bss"

lemma unique_cover_mset: "mset xs = mset ys \<Longrightarrow> unique_cover xs \<longleftrightarrow> unique_cover ys"
  unfolding unique_cover_def cover_from_def by (metis mset_filter size_mset)

lemma check_shard_ids_iff:
  "check_shard_ids ids = Ok () \<longleftrightarrow> (\<forall>s\<in>set ids. 0 < sh_length s \<and> sh_length s \<le> MAX_PARTITION_VIEW_SHARD_ID_BITS)"
  by (induction ids) auto

lemma scheme_tree_iff:
  assumes wf: "\<And>s. s \<in> set scheme \<Longrightarrow> ShardId_wf s \<and> sh_length s \<le> 256" and ne: "scheme \<noteq> []"
  defines "ids \<equiv> sort_by canonical_cmp scheme"
  shows "\<not> adjacent_prefix ids \<and> covers ids 0 \<longleftrightarrow> (\<exists>t. map shard_bits ids = paths [] t)"
    and "\<not> adjacent_prefix ids \<and> covers ids 0 \<longleftrightarrow> unique_cover (map shard_bits scheme)"
proof -
  have ids: "ids = sort_by (\<lambda>s t. cmp_bools (shard_bits s) (shard_bits t)) scheme"
    unfolding ids_def by (rule canonical_cmp_fun) (use wf in blast)
  have set: "set ids = set scheme" by (simp add: ids)
  have sorted: "sorted_wrt bools_le (map shard_bits ids)"
    using bool_order.sorted_sort_by [of shard_bits scheme] by (simp add: ids sorted_wrt_map)
  note free = adjacent_prefix_iff [OF sorted]
  have below: "shards_below [] ids" if "prefix_free (map shard_bits ids)"
    using that sorted set wf by (simp add: shards_below_def)
  have wfs: "\<And>s. s \<in> set ids \<Longrightarrow> ShardId_wf s" using set wf by blast
  show tree: "\<not> adjacent_prefix ids \<and> covers ids 0 \<longleftrightarrow> (\<exists>t. map shard_bits ids = paths [] t)"
  proof (cases "prefix_free (map shard_bits ids)")
    case True
    then show ?thesis using covers_iff [OF below [OF True]] free [OF wfs] by simp
  next
    case False
    then have "map shard_bits ids \<noteq> paths [] u" for u using paths_prefix_free [of "[]" u] by metis
    then show ?thesis using False free [OF wfs] by simp
  qed
  have lens: "\<And>b. b \<in> set (map shard_bits ids) \<Longrightarrow> prefix [] b \<and> length b \<le> 256" using set wf by auto
  have "(\<exists>t. map shard_bits ids = paths [] t) \<longleftrightarrow> unique_cover (map shard_bits ids)"
    unfolding unique_cover_def
  proof
    assume "\<exists>t. map shard_bits ids = paths [] t"
    then obtain t where t: "map shard_bits ids = paths [] t" by blast
    show "cover_from [] (map shard_bits ids)" unfolding t by (rule paths_cover) (use lens t in auto)
  next
    assume "cover_from [] (map shard_bits ids)"
    from cover_tree [OF this sorted] lens show "\<exists>t. map shard_bits ids = paths [] t" by auto
  qed
  moreover have "mset (map shard_bits ids) = mset (map shard_bits scheme)"
    by (simp add: ids bool_order.mset_sort_by)
  ultimately show "\<not> adjacent_prefix ids \<and> covers ids 0 \<longleftrightarrow> unique_cover (map shard_bits scheme)"
    using tree unique_cover_mset by blast
qed

theorem canonical_order_iff:
  assumes wf: "\<And>s. s \<in> set (pt_scheme t) \<Longrightarrow> ShardId_wf s" and ne: "pt_scheme t \<noteq> []"
  shows "canonical_order t = Ok ids \<longleftrightarrow>
    2 \<le> length (pt_scheme t) \<and> length (pt_scheme t) \<le> 8 \<and>
    (\<forall>s\<in>set (pt_scheme t). 0 < sh_length s \<and> sh_length s \<le> 256) \<and>
    unique_cover (map shard_bits (pt_scheme t)) \<and> ids = sort_by canonical_cmp (pt_scheme t)"
proof -
  have "length (pt_scheme t) = 1 \<or> 2 \<le> length (pt_scheme t)" using ne by (cases "pt_scheme t") (auto simp: Suc_le_eq)
  then show ?thesis
    using scheme_tree_iff(2) [of "pt_scheme t"] wf ne
    by (auto simp: canonical_order_def canonical_order_with_def MAX_PARTITION_VIEW_LEAVES_def result_simps
        check_shard_ids_iff MAX_PARTITION_VIEW_SHARD_ID_BITS_def Let_def)
qed

text \<open>The empty scheme is the single shard.\<close>

lemma canonical_order_empty: "pt_scheme t = [] \<Longrightarrow> canonical_order t = Ok ids \<longleftrightarrow> ids = [ShardId_root]"
  by (auto simp: canonical_order_def canonical_order_with_def)

lemma canonical_order_tree:
  assumes wf: "\<And>s. s \<in> set (pt_scheme t) \<Longrightarrow> ShardId_wf s" and ok: "canonical_order t = Ok ids"
  shows "\<exists>sh. map shard_bits ids = paths [] sh" "\<And>s. s \<in> set ids \<Longrightarrow> ShardId_wf s \<and> sh_length s \<le> 256"
    "length ids \<le> 8"
proof -
  show "\<exists>sh. map shard_bits ids = paths [] sh"
  proof (cases "pt_scheme t = []")
    case True
    then have "ids = [ShardId_root]" using ok by (simp add: canonical_order_def canonical_order_with_def)
    then have "map shard_bits ids = paths [] Tip" by (simp add: ShardId_root_def shard_bits_def bits_of_def)
    then show ?thesis by blast
  next
    case False
    have ok': "\<And>s. s \<in> set (pt_scheme t) \<Longrightarrow> ShardId_wf s \<and> sh_length s \<le> 256"
      "unique_cover (map shard_bits (pt_scheme t))" "ids = sort_by canonical_cmp (pt_scheme t)"
      using canonical_order_iff [of t ids] wf False ok by blast+
    show ?thesis using scheme_tree_iff [OF ok'(1) False] ok'(2,3) by simp
  qed
  show "ShardId_wf s \<and> sh_length s \<le> 256" if "s \<in> set ids" for s
  proof (cases "pt_scheme t = []")
    case True
    then show ?thesis using ok that by (auto simp: canonical_order_def canonical_order_with_def ShardId_root_def ShardId_wf_def div_ceil_8)
  next
    case False
    then show ?thesis using canonical_order_iff [of t ids] wf ok that by auto
  qed
  show "length ids \<le> 8"
  proof (cases "pt_scheme t = []")
    case False
    then show ?thesis using canonical_order_iff [of t ids] wf ok by auto
  qed (use ok in \<open>auto simp: canonical_order_def canonical_order_with_def\<close>)
qed

end
