(* ===== verification/Shard_Tree.thy ===== *)
theory Shard_Tree
  imports Topology
begin

text \<open>
  The shard tree of a partition (\<open>src/src/consolidation/shard_tree.rs\<close>): the arena of nodes, the one-pass
  construction from the leaves in canonical order, and the certificates read by climbing parent links. The
  construction succeeds exactly on the leaves of a complete binary tree; the arena it builds is that tree in
  post-order, every certificate folds to the root hash, and the counted work is one hash per inner node.
\<close>

section \<open>Data\<close>

definition NODE_NONE :: u32 where "NODE_NONE = 0xffffffff"

record ShardNode =
  nd_hash :: bytes
  nd_parent :: u32
  nd_children :: "u32 \<times> u32"

record ShardTreeWork =
  tw_inner_hashes :: u64
  tw_leaves :: u64
  tw_path_visits :: u64

record ShardTree =
  tree_nodes :: "ShardNode list"
  tree_leaves :: "(ShardId \<times> u32) list"
  tree_root :: u32

definition ShardTreeWork_default :: ShardTreeWork where
  "ShardTreeWork_default = \<lparr>tw_inner_hashes = 0, tw_leaves = 0, tw_path_visits = 0\<rparr>"

section \<open>Construction\<close>

definition inner_hash :: "sha2 \<Rightarrow> bytes \<Rightarrow> bytes \<Rightarrow> bytes" where
  "inner_hash sha2 left right =
     dh_data (finalize sha2 (update (encode_byte_string right) (update (encode_byte_string left) sha256_hasher)))"

text \<open>The test of the inner loop, and one merge. The pending subtrees are kept with the top of the stack
  first; \<open>expect\<close> on the shorter prefix is \<open>the\<close> (\<open>ShardId_prefix\<close> succeeds up to the length of the id).\<close>

definition siblings :: "ShardId \<Rightarrow> ShardId \<Rightarrow> bool" where
  "siblings left_id right_id \<longleftrightarrow>
     ShardId_sibling right_id = Some left_id \<and> get_bit left_id (sh_length left_id - 1) = Ok 0"

definition push_parent :: "sha2 \<Rightarrow> ShardNode list \<Rightarrow> u32 \<Rightarrow> u32 \<Rightarrow> ShardNode list" where
  "push_parent sha2 arena left right =
     (let hash = inner_hash sha2 (nd_hash (arena ! unat left)) (nd_hash (arena ! unat right));
          parent = word_of_nat (length arena);
          arena = arena @ [\<lparr>nd_hash = hash, nd_parent = NODE_NONE, nd_children = (left, right)\<rparr>];
          arena = arena[unat left := (arena ! unat left)\<lparr>nd_parent := parent\<rparr>]
      in arena[unat right := (arena ! unat right)\<lparr>nd_parent := parent\<rparr>])"

fun merge ::
  "sha2 \<Rightarrow> ShardNode list \<Rightarrow> (ShardId \<times> u32) list \<Rightarrow> ShardTreeWork \<Rightarrow> ShardNode list \<times> (ShardId \<times> u32) list \<times> ShardTreeWork" where
  "merge sha2 arena ((right_id, right) # (left_id, left) # stack) work =
     (if \<not> siblings left_id right_id then (arena, (right_id, right) # (left_id, left) # stack, work)
      else merge sha2 (push_parent sha2 arena left right)
        ((the (ShardId_prefix left_id (sh_length left_id - 1)), word_of_nat (length arena)) # stack)
        (work\<lparr>tw_inner_hashes := tw_inner_hashes work + 1\<rparr>))"
| "merge sha2 arena stack work = (arena, stack, work)"

fun build_loop ::
  "sha2 \<Rightarrow> (ShardId \<times> bytes) list \<Rightarrow> ShardNode list \<Rightarrow> (ShardId \<times> u32) list \<Rightarrow> (ShardId \<times> u32) list \<Rightarrow> ShardTreeWork \<Rightarrow>
   (PartitionViewError + ShardNode list \<times> (ShardId \<times> u32) list \<times> (ShardId \<times> u32) list) \<times> ShardTreeWork" where
  "build_loop sha2 [] arena index stack work = (Ok (arena, index, stack), work)"
| "build_loop sha2 ((shard, hash) # leaves) arena index stack work =
     (if index \<noteq> [] \<and> canonical_cmp (fst (last index)) shard \<noteq> Less
      then (Err (LeafSetMismatch ''shards are duplicated or not in canonical order''), work)
      else
        let work = work\<lparr>tw_leaves := tw_leaves work + 1\<rparr>;
            node = word_of_nat (length arena);
            (arena, stack, work) = merge sha2
              (arena @ [\<lparr>nd_hash = hash, nd_parent = NODE_NONE, nd_children = (NODE_NONE, NODE_NONE)\<rparr>])
              ((shard, node) # stack) work
        in build_loop sha2 leaves arena (index @ [(shard, node)]) stack work)"

definition build_counted ::
  "sha2 \<Rightarrow> (ShardId \<times> bytes) list \<Rightarrow> ShardTreeWork \<Rightarrow> (PartitionViewError + ShardTree) \<times> ShardTreeWork" where
  "build_counted sha2 leaves work =
     (if leaves = [] then (Err (InvalidTopology ''a shard tree needs at least one leaf''), work)
      else case build_loop sha2 leaves [] [] [] work of
        (Err e, work) \<Rightarrow> (Err e, work)
      | (Ok (arena, index, stack), work) \<Rightarrow>
          ((case stack of
              [(shard, root)] \<Rightarrow>
                if sh_length shard = 0 then Ok \<lparr>tree_nodes = arena, tree_leaves = index, tree_root = root\<rparr>
                else Err (InvalidTopology ''scheme does not cover the whole shard tree'')
            | _ \<Rightarrow> Err (InvalidTopology ''scheme does not cover the whole shard tree'')), work))"

definition ShardTree_build :: "sha2 \<Rightarrow> (ShardId \<times> bytes) list \<Rightarrow> PartitionViewError + ShardTree" where
  "ShardTree_build sha2 leaves = fst (build_counted sha2 leaves ShardTreeWork_default)"

section \<open>Reading\<close>

definition ShardTree_root_hash :: "ShardTree \<Rightarrow> bytes" where
  "ShardTree_root_hash t = nd_hash (tree_nodes t ! unat (tree_root t))"

text \<open>The climb follows the links of the arena and need not end on one with a cycle: not returning is \<open>None\<close>.\<close>

partial_function (option) climb ::
  "ShardNode list \<Rightarrow> u32 \<Rightarrow> bytes list \<Rightarrow> ShardTreeWork \<Rightarrow> (bytes list \<times> ShardTreeWork) option" where
  "climb arena node sibling_hash_list work =
     (if nd_parent (arena ! unat node) = NODE_NONE then Some (sibling_hash_list, work)
      else
        let parent = arena ! unat (nd_parent (arena ! unat node));
            sibling = (if fst (nd_children parent) = node then snd (nd_children parent) else fst (nd_children parent))
        in climb arena (nd_parent (arena ! unat node)) (sibling_hash_list @ [nd_hash (arena ! unat sibling)])
             (work\<lparr>tw_path_visits := tw_path_visits work + 1\<rparr>))"

declare climb.simps [code]

definition certificate_counted ::
  "ShardTree \<Rightarrow> ShardId \<Rightarrow> ShardTreeWork \<Rightarrow> ((PartitionViewError + ShardTreeCertificate) \<times> ShardTreeWork) option" where
  "certificate_counted t shard work =
     (case binary_search_by (\<lambda>(s, _). canonical_cmp s shard) (tree_leaves t) of
        None \<Rightarrow> Some (Err (LeafSetMismatch ''shard is not in the tree''), work)
      | Some at \<Rightarrow>
          map_option (\<lambda>(sibling_hash_list, work).
              (Ok \<lparr>stc_shard = shard, stc_sibling_hash_list = sibling_hash_list\<rparr>, work))
            (climb (tree_nodes t) (snd (tree_leaves t ! at)) [] work))"

definition ShardTree_certificate :: "ShardTree \<Rightarrow> ShardId \<Rightarrow> (PartitionViewError + ShardTreeCertificate) option" where
  "ShardTree_certificate t shard = map_option fst (certificate_counted t shard ShardTreeWork_default)"

section \<open>The tree of a complete scheme\<close>

text \<open>Reference definitions by recursion on the shape of the scheme: \<open>H\<close> gives the leaf hash of a shard by
  its bits, \<open>subtree_hash\<close> hashes the tree top down, \<open>sibling_hashes\<close> lists the hashes beside a path from
  the leaf up, and \<open>post_order\<close> is the arena of the tree when its first node gets index \<open>lo\<close>.\<close>

primrec tips :: "shape \<Rightarrow> nat" where
  "tips Tip = 1"
| "tips (Fork l r) = tips l + tips r"

primrec subtree_hash :: "sha2 \<Rightarrow> (bool list \<Rightarrow> bytes) \<Rightarrow> bool list \<Rightarrow> shape \<Rightarrow> bytes" where
  "subtree_hash sha2 H p Tip = H p"
| "subtree_hash sha2 H p (Fork l r) =
     inner_hash sha2 (subtree_hash sha2 H (p @ [False]) l) (subtree_hash sha2 H (p @ [True]) r)"

fun sibling_hashes :: "sha2 \<Rightarrow> (bool list \<Rightarrow> bytes) \<Rightarrow> bool list \<Rightarrow> shape \<Rightarrow> bool list \<Rightarrow> bytes list" where
  "sibling_hashes sha2 H p (Fork l r) (False # b) =
     sibling_hashes sha2 H (p @ [False]) l b @ [subtree_hash sha2 H (p @ [True]) r]"
| "sibling_hashes sha2 H p (Fork l r) (True # b) =
     sibling_hashes sha2 H (p @ [True]) r b @ [subtree_hash sha2 H (p @ [False]) l]"
| "sibling_hashes sha2 H p _ _ = []"

primrec tree_size :: "shape \<Rightarrow> nat" where
  "tree_size Tip = 1"
| "tree_size (Fork l r) = tree_size l + tree_size r + 1"

primrec post_order :: "sha2 \<Rightarrow> (bool list \<Rightarrow> bytes) \<Rightarrow> bool list \<Rightarrow> shape \<Rightarrow> nat \<Rightarrow> u32 \<Rightarrow> ShardNode list" where
  "post_order sha2 H p Tip lo parent =
     [\<lparr>nd_hash = H p, nd_parent = parent, nd_children = (NODE_NONE, NODE_NONE)\<rparr>]"
| "post_order sha2 H p (Fork l r) lo parent =
     (let mid = lo + tree_size l; hi = mid + tree_size r
      in post_order sha2 H (p @ [False]) l lo (word_of_nat hi) @ post_order sha2 H (p @ [True]) r mid (word_of_nat hi) @
         [\<lparr>nd_hash = subtree_hash sha2 H p (Fork l r), nd_parent = parent,
           nd_children = (word_of_nat (mid - 1), word_of_nat (hi - 1))\<rparr>])"

primrec leaf_index :: "shape \<Rightarrow> nat \<Rightarrow> u32 list" where
  "leaf_index Tip lo = [word_of_nat lo]"
| "leaf_index (Fork l r) lo = leaf_index l lo @ leaf_index r (lo + tree_size l)"

lemma tree_size_pos [simp]: "0 < tree_size t"
  by (cases t) auto

lemma tips_pos [simp]: "0 < tips t"
  by (induction t) auto

lemma tree_size_tips: "tree_size t + 1 = 2 * tips t"
  by (induction t) auto

lemma length_post_order [simp]: "length (post_order sha2 H p t lo q) = tree_size t"
  by (induction t arbitrary: p lo q) (auto simp: Let_def)

lemma length_paths [simp]: "length (paths p t) = tips t"
  by (induction t arbitrary: p) auto

lemma length_leaf_index [simp]: "length (leaf_index t lo) = tips t"
  by (induction t arbitrary: lo) auto

lemma post_order_root:
  "\<exists>init c. \<forall>q. post_order sha2 H p t lo q = init @ [\<lparr>nd_hash = subtree_hash sha2 H p t, nd_parent = q, nd_children = c\<rparr>]"
  by (cases t) (auto simp: Let_def)

text \<open>The root of a post-order is its last node, and only it knows its parent.\<close>

lemma post_order_parent:
  "(post_order sha2 H p t lo q)[tree_size t - 1 :=
      (post_order sha2 H p t lo q ! (tree_size t - 1))\<lparr>nd_parent := q'\<rparr>] = post_order sha2 H p t lo q'"
  "nd_hash (post_order sha2 H p t lo q ! (tree_size t - 1)) = subtree_hash sha2 H p t"
  "nd_parent (post_order sha2 H p t lo q ! (tree_size t - 1)) = q"
proof -
  obtain init c where e: "\<And>q. post_order sha2 H p t lo q = init @ [\<lparr>nd_hash = subtree_hash sha2 H p t, nd_parent = q, nd_children = c\<rparr>]"
    using post_order_root by blast
  have n: "tree_size t - 1 = length init" using arg_cong [OF e [of q], of length] by simp
  show "(post_order sha2 H p t lo q)[tree_size t - 1 :=
      (post_order sha2 H p t lo q ! (tree_size t - 1))\<lparr>nd_parent := q'\<rparr>] = post_order sha2 H p t lo q'"
    "nd_hash (post_order sha2 H p t lo q ! (tree_size t - 1)) = subtree_hash sha2 H p t"
    "nd_parent (post_order sha2 H p t lo q ! (tree_size t - 1)) = q"
    unfolding n e by simp_all
qed

lemma paths_sorted: "sorted_wrt (\<lambda>a b. cmp_bools a b = Less) (paths p t)"
proof (induction t arbitrary: p)
  case (Fork l r)
  have "cmp_bools a b = Less" if "prefix (p @ [False]) a" "prefix (p @ [True]) b" for a b
    using that by (auto simp: prefix_def cmp_bools_append)
  then show ?case using Fork by (auto simp: sorted_wrt_append dest!: paths_extend)
qed simp

section \<open>Merging\<close>

lemma siblings_iff:
  assumes "ShardId_wf a" "ShardId_wf b"
  shows "siblings a b \<longleftrightarrow> (\<exists>p. shard_bits a = p @ [False] \<and> shard_bits b = p @ [True])"
proof (cases "sh_length b = 0")
  case True
  then have "shard_bits b = []" using length_shard_bits [of b] by (metis length_0_conv)
  then show ?thesis using True by (simp add: siblings_def ShardId_sibling_def)
next
  case False
  then obtain c where c: "ShardId_sibling b = Some c" "ShardId_wf c"
      "shard_bits c = butlast (shard_bits b) @ [\<not> last (shard_bits b)]"
    using ShardId_sibling_bits [OF assms(2)] by blast
  obtain p x where b: "shard_bits b = p @ [x]" using False length_shard_bits [of b] by (metis list.size(3) rev_exhaust)
  have eq: "c = a \<longleftrightarrow> shard_bits a = p @ [\<not> x]" using shard_bits_inj [OF c(2) assms(1)] c(3) b by auto
  show ?thesis
  proof (cases "c = a")
    case True
    then have "sh_length a = length p + 1" using eq length_shard_bits [of a] by simp
    then show ?thesis using True eq b c get_bit_zero_iff [OF assms(1), of "length p"] by (auto simp: siblings_def)
  next
    case False
    then show ?thesis using eq b c(1) by (auto simp: siblings_def)
  qed
qed

text \<open>A zero child waits for its sibling.\<close>

lemma merge_waits:
  assumes "ShardId_wf s" "shard_bits s = p @ [False]" "\<And>x. x \<in> set stack \<Longrightarrow> ShardId_wf (fst x)"
  shows "merge sha2 arena ((s, i) # stack) work = (arena, (s, i) # stack, work)"
proof (cases stack)
  case (Cons x xs)
  have "\<not> siblings (fst x) s" using siblings_iff [of "fst x" s] assms Cons by auto
  then show ?thesis using Cons by (cases x) auto
qed simp

lemma merge_siblings:
  assumes "ShardId_wf a" "ShardId_wf b" "shard_bits a = p @ [False]" "shard_bits b = p @ [True]"
  shows "\<exists>s. ShardId_wf s \<and> shard_bits s = p \<and>
    merge sha2 arena ((b, j) # (a, i) # stack) work =
    merge sha2 (push_parent sha2 arena i j) ((s, word_of_nat (length arena)) # stack) (work\<lparr>tw_inner_hashes := tw_inner_hashes work + 1\<rparr>)"
proof -
  have n: "sh_length a = length p + 1" using assms(3) length_shard_bits [of a] by simp
  obtain s where "ShardId_prefix a (length p) = Some s" "ShardId_wf s" "shard_bits s = p"
    using ShardId_prefix_bits [OF assms(1), of "length p"] n assms(3) by auto
  moreover have "siblings a b" using assms siblings_iff by blast
  ultimately show ?thesis using n by auto
qed

lemma node_index: "n < 2 ^ 32 \<Longrightarrow> unat (word_of_nat n :: u32) = n"
  by (simp add: unat_of_nat take_bit_nat_eq_self)

lemma push_parent_post_order:
  assumes "length base + tree_size l + tree_size r < 2 ^ 32" and lo: "lo = length base"
  shows "push_parent sha2
      (base @ post_order sha2 H (p @ [False]) l lo NODE_NONE @ post_order sha2 H (p @ [True]) r (lo + tree_size l) NODE_NONE)
      (word_of_nat (lo + tree_size l - 1)) (word_of_nat (lo + tree_size l + tree_size r - 1)) =
    base @ post_order sha2 H p (Fork l r) lo NODE_NONE"
proof -
  let ?l = "\<lambda>q. post_order sha2 H (p @ [False]) l lo q" and ?r = "\<lambda>q. post_order sha2 H (p @ [True]) r (lo + tree_size l) q"
  let ?hi = "word_of_nat (lo + tree_size l + tree_size r) :: u32"
  have small: "lo + tree_size l - 1 < 2 ^ 32" "lo + tree_size l + tree_size r - 1 < 2 ^ 32" using assms by linarith+
  have un: "unat (word_of_nat (lo + tree_size l - 1) :: u32) = length base + (tree_size l - 1)"
    "unat (word_of_nat (lo + tree_size l + tree_size r - 1) :: u32) = length base + (tree_size l + (tree_size r - 1))"
    unfolding node_index [OF small(1)] node_index [OF small(2)]
    using lo tree_size_pos [of l] tree_size_pos [of r] by linarith+
  have lt: "tree_size l - 1 < tree_size l" "tree_size r - 1 < tree_size r" by simp_all
  show ?thesis
    unfolding push_parent_def Let_def un
    using lt post_order_parent(1) [of sha2 H "p @ [False]" l lo NODE_NONE ?hi]
      post_order_parent(1) [of sha2 H "p @ [True]" r "lo + tree_size l" NODE_NONE ?hi]
    by (simp add: nth_append list_update_append post_order_parent(2) [simplified] lo Let_def add.assoc)
qed

text \<open>Reading the leaves of a subtree leaves its post-order in the arena and its root on the stack.\<close>

definition built_work :: "shape \<Rightarrow> ShardTreeWork \<Rightarrow> ShardTreeWork" where
  "built_work t w = w\<lparr>tw_leaves := tw_leaves w + word_of_nat (tips t), tw_inner_hashes := tw_inner_hashes w + word_of_nat (tips t - 1)\<rparr>"

lemma built_work_fork:
  "(built_work r (built_work l w))\<lparr>tw_inner_hashes := tw_inner_hashes (built_work r (built_work l w)) + 1\<rparr> = built_work (Fork l r) w"
proof -
  have "tips (Fork l r) - 1 = (tips l - 1) + (tips r - 1) + 1"
    using tips_pos [of l] tips_pos [of r] by (simp del: tips_pos)
  then have "(word_of_nat (tips (Fork l r) - 1) :: u64) = word_of_nat (tips l - 1) + word_of_nat (tips r - 1) + 1"
    by (simp only: of_nat_add of_nat_1)
  then show ?thesis by (simp add: built_work_def)
qed

lemma merge_subtrees:
  fixes base :: "ShardNode list" and sha2 :: sha2 and H :: "bool list \<Rightarrow> bytes" and p :: "bool list" and l :: shape
  defines "left \<equiv> base @ post_order sha2 H (p @ [False]) l (length base) NODE_NONE"
  assumes ids: "ShardId_wf a" "ShardId_wf b" "shard_bits a = p @ [False]" "shard_bits b = p @ [True]"
    and small: "length base + tree_size l + tree_size r < 2 ^ 32"
  shows "\<exists>s. ShardId_wf s \<and> shard_bits s = p \<and>
    merge sha2 (left @ post_order sha2 H (p @ [True]) r (length left) NODE_NONE)
      ((b, word_of_nat (length left + tree_size r - 1)) # (a, word_of_nat (length base + tree_size l - 1)) # stack)
      (built_work r (built_work l work)) =
    merge sha2 (base @ post_order sha2 H p (Fork l r) (length base) NODE_NONE)
      ((s, word_of_nat (length base + tree_size (Fork l r) - 1)) # stack) (built_work (Fork l r) work)"
proof -
  let ?arena = "left @ post_order sha2 H (p @ [True]) r (length left) NODE_NONE"
  have "length ?arena = length base + tree_size (Fork l r) - 1" by (simp add: left_def)
  moreover have "push_parent sha2 ?arena (word_of_nat (length base + tree_size l - 1)) (word_of_nat (length left + tree_size r - 1)) =
      base @ post_order sha2 H p (Fork l r) (length base) NODE_NONE"
    using push_parent_post_order [OF small refl, of sha2 H p] by (simp only: left_def append_assoc length_append length_post_order)
  ultimately show ?thesis
    using merge_siblings [OF ids, of sha2 ?arena "word_of_nat (length left + tree_size r - 1)"
        "word_of_nat (length base + tree_size l - 1)" stack "built_work r (built_work l work)"]
    by (simp only: built_work_fork)
qed

lemma build_loop_subtree:
  assumes "map (shard_bits \<circ> fst) ls = paths p t" "\<And>x. x \<in> set ls \<Longrightarrow> ShardId_wf (fst x) \<and> snd x = H (shard_bits (fst x))"
    "sorted_wrt (\<lambda>a b. cmp_bools a b = Less) (map (shard_bits \<circ> fst) index @ paths p t)"
    "\<And>x. x \<in> set index \<union> set stack \<Longrightarrow> ShardId_wf (fst x)" "length arena + tree_size t < 2 ^ 32"
  shows "\<exists>s. ShardId_wf s \<and> shard_bits s = p \<and> build_loop sha2 (ls @ rest) arena index stack work =
    (case merge sha2 (arena @ post_order sha2 H p t (length arena) NODE_NONE)
            ((s, word_of_nat (length arena + tree_size t - 1)) # stack) (built_work t work) of
       (arena', stack', work') \<Rightarrow>
         build_loop sha2 rest arena' (index @ zip (map fst ls) (leaf_index t (length arena))) stack' work')"
  using assms
proof (induction t arbitrary: p ls arena index stack work rest)
  case Tip
  then obtain s h where ls: "ls = [(s, h)]" by (cases ls) auto
  then have s: "ShardId_wf s" "shard_bits s = p" "h = H p" using Tip.prems by auto
  have "\<not> (index \<noteq> [] \<and> canonical_cmp (fst (last index)) s \<noteq> Less)"
    using Tip.prems(3) Tip.prems(4) [of "last index"] s by (cases "index = []") (simp_all add: canonical_cmp_cmp_bools sorted_wrt_append)
  then show ?case using s ls by (intro exI [of _ s]) (simp add: built_work_def Let_def split: prod.splits if_splits del: de_Morgan_conj)
next
  case (Fork l r)
  let ?n = "length arena" and ?k = "tips l"
  define a b where "a = take ?k ls" and "b = drop ?k ls"
  have ls: "ls = a @ b" by (simp add: a_def b_def)
  have pa: "map (shard_bits \<circ> fst) a = paths (p @ [False]) l" and pb: "map (shard_bits \<circ> fst) b = paths (p @ [True]) r"
    unfolding a_def b_def take_map [symmetric] drop_map [symmetric] Fork.prems(1) by simp_all
  have len: "length a = tips l" "length b = tips r" using arg_cong [OF pa, of length] arg_cong [OF pb, of length] by simp_all
  have hash: "ShardId_wf (fst x) \<and> snd x = H (shard_bits (fst x))" if "x \<in> set a \<union> set b" for x
    using Fork.prems(2) [of x] that ls by auto
  let ?index = "index @ zip (map fst a) (leaf_index l ?n)"
  have bits: "map (shard_bits \<circ> fst) ?index = map (shard_bits \<circ> fst) index @ paths (p @ [False]) l"
    using pa len by (simp add: map_map [symmetric] del: map_map)
  have wfi: "ShardId_wf (fst x)" if "x \<in> set ?index" for x
  proof -
    have "x \<in> set index \<or> fst x \<in> fst ` set a" using that by (cases x rule: prod.exhaust) (auto dest: set_zip_leftD)
    then show ?thesis using Fork.prems(4) [of x] hash by (metis UnI1 imageE)
  qed
  obtain s where s: "ShardId_wf s" "shard_bits s = p @ [False]" and left: "build_loop sha2 (a @ b @ rest) arena index stack work =
    (case merge sha2 (arena @ post_order sha2 H (p @ [False]) l ?n NODE_NONE)
            ((s, word_of_nat (?n + tree_size l - 1)) # stack) (built_work l work) of
       (arena', stack', work') \<Rightarrow> build_loop sha2 (b @ rest) arena' ?index stack' work')"
    using Fork.IH(1) [OF pa, of index stack arena "b @ rest" work] Fork.prems hash by (auto simp: sorted_wrt_append)
  let ?arena = "arena @ post_order sha2 H (p @ [False]) l ?n NODE_NONE" and ?stack = "(s, word_of_nat (?n + tree_size l - 1)) # stack"
  have wait: "merge sha2 ?arena ?stack (built_work l work) = (?arena, ?stack, built_work l work)"
    using s Fork.prems(4) by (intro merge_waits) auto
  have "\<exists>t. ShardId_wf t \<and> shard_bits t = p @ [True] \<and> build_loop sha2 (b @ rest) ?arena ?index ?stack (built_work l work) =
    (case merge sha2 (?arena @ post_order sha2 H (p @ [True]) r (length ?arena) NODE_NONE)
            ((t, word_of_nat (length ?arena + tree_size r - 1)) # ?stack) (built_work r (built_work l work)) of
       (arena', stack', work') \<Rightarrow> build_loop sha2 rest arena' (?index @ zip (map fst b) (leaf_index r (length ?arena))) stack' work')"
  proof (rule Fork.IH(2) [OF pb])
    show "sorted_wrt (\<lambda>a b. cmp_bools a b = Less) (map (shard_bits \<circ> fst) ?index @ paths (p @ [True]) r)"
      unfolding bits using Fork.prems(3) by (simp add: comp_def)
    show "ShardId_wf (fst x)" if "x \<in> set ?index \<union> set ?stack" for x
      using that wfi [of x] Fork.prems(4) [of x] s(1) by auto
  qed (use hash Fork.prems(5) in auto)
  then obtain t where t: "ShardId_wf t" "shard_bits t = p @ [True]" and right: "build_loop sha2 (b @ rest) ?arena ?index ?stack (built_work l work) =
    (case merge sha2 (?arena @ post_order sha2 H (p @ [True]) r (length ?arena) NODE_NONE)
            ((t, word_of_nat (length ?arena + tree_size r - 1)) # ?stack) (built_work r (built_work l work)) of
       (arena', stack', work') \<Rightarrow> build_loop sha2 rest arena' (?index @ zip (map fst b) (leaf_index r (length ?arena))) stack' work')"
    by blast
  obtain u where u: "ShardId_wf u" "shard_bits u = p" and up: "merge sha2 (?arena @ post_order sha2 H (p @ [True]) r (length ?arena) NODE_NONE)
      ((t, word_of_nat (length ?arena + tree_size r - 1)) # ?stack) (built_work r (built_work l work)) =
    merge sha2 (arena @ post_order sha2 H p (Fork l r) ?n NODE_NONE)
      ((u, word_of_nat (?n + tree_size (Fork l r) - 1)) # stack) (built_work (Fork l r) work)"
    using merge_subtrees [OF s(1) t(1) s(2) t(2), of arena l r sha2 H stack work] Fork.prems(5) by auto
  have index: "index @ zip (map fst ls) (leaf_index (Fork l r) ?n) = ?index @ zip (map fst b) (leaf_index r (length ?arena))"
    using ls len by simp
  show ?case
  proof (intro exI [of _ u] conjI u)
    show "build_loop sha2 (ls @ rest) arena index stack work =
      (case merge sha2 (arena @ post_order sha2 H p (Fork l r) ?n NODE_NONE)
              ((u, word_of_nat (?n + tree_size (Fork l r) - 1)) # stack) (built_work (Fork l r) work) of
         (arena', stack', work') \<Rightarrow>
           build_loop sha2 rest arena' (index @ zip (map fst ls) (leaf_index (Fork l r) ?n)) stack' work')"
      unfolding index unfolding ls append_assoc [of a b rest] left wait prod.case right up by (rule refl)
  qed
qed

text \<open>The arena of a whole scheme.\<close>

definition tree_of :: "sha2 \<Rightarrow> (bool list \<Rightarrow> bytes) \<Rightarrow> shape \<Rightarrow> ShardId list \<Rightarrow> ShardTree" where
  "tree_of sha2 H t ids = \<lparr>tree_nodes = post_order sha2 H [] t 0 NODE_NONE,
     tree_leaves = zip ids (leaf_index t 0), tree_root = word_of_nat (tree_size t - 1)\<rparr>"

lemma build_counted_tree:
  assumes "map (shard_bits \<circ> fst) ls = paths [] t" "\<And>x. x \<in> set ls \<Longrightarrow> ShardId_wf (fst x) \<and> snd x = H (shard_bits (fst x))"
    "length ls < 2 ^ 31"
  shows "build_counted sha2 ls work = (Ok (tree_of sha2 H t (map fst ls)), built_work t work)"
proof -
  have "length ls = tips t" using arg_cong [OF assms(1), of length] by simp
  then have small: "tree_size t < 2 ^ 32" and ne: "ls \<noteq> []" using tree_size_tips [of t] assms(3) tips_pos [of t] by auto
  obtain s where s: "ShardId_wf s" "shard_bits s = []" "build_loop sha2 (ls @ []) [] [] [] work =
    (case merge sha2 ([] @ post_order sha2 H [] t 0 NODE_NONE) [(s, word_of_nat (tree_size t - 1))] (built_work t work) of
       (arena', stack', work') \<Rightarrow> build_loop sha2 [] arena' ([] @ zip (map fst ls) (leaf_index t 0)) stack' work')"
    using build_loop_subtree [OF assms(1,2), of "[]" "[]" "[]" sha2 "[]" work] small paths_sorted [of "[]" t] by auto
  have "sh_length s = 0" using s(2) length_shard_bits [of s] by simp
  then show ?thesis using s(3) ne by (simp add: build_counted_def tree_of_def)
qed

text \<open>Conversely the stack always holds subtrees whose leaves are the ones read.\<close>

definition stack_covers :: "(ShardId \<times> u32) list \<Rightarrow> bool list list \<Rightarrow> bool" where
  "stack_covers stack bss \<longleftrightarrow> (\<forall>x\<in>set stack. ShardId_wf (fst x)) \<and>
     (\<exists>ts. length ts = length stack \<and> bss = concat (rev (map2 (\<lambda>x t. paths (shard_bits (fst x)) t) stack ts)))"

lemma merge_covers: "stack_covers stack bss \<Longrightarrow> merge sha2 arena stack work = (arena', stack', work') \<Longrightarrow> stack_covers stack' bss"
proof (induction sha2 arena stack work rule: merge.induct)
  case (1 sha2 arena right_id right left_id left stack work)
  show ?case
  proof (cases "siblings left_id right_id")
    case True
    have wf: "ShardId_wf left_id" "ShardId_wf right_id" using "1.prems"(1) by (auto simp: stack_covers_def)
    then obtain p where p: "shard_bits left_id = p @ [False]" "shard_bits right_id = p @ [True]" using True siblings_iff by blast
    have "sh_length left_id - 1 = length p" using p(1) length_shard_bits [of left_id] by simp
    then obtain s where s: "ShardId_prefix left_id (sh_length left_id - 1) = Some s" "ShardId_wf s" "shard_bits s = p"
      using ShardId_prefix_bits [OF wf(1), of "length p"] p(1) length_shard_bits [of left_id] by auto
    obtain r l ts where ts: "length ts = length stack"
        "bss = concat (rev (map2 (\<lambda>x t. paths (shard_bits (fst x)) t) stack ts)) @ paths (p @ [False]) l @ paths (p @ [True]) r"
      using "1.prems"(1) p by (auto simp: stack_covers_def length_Suc_conv)
    have "stack_covers ((the (ShardId_prefix left_id (sh_length left_id - 1)), word_of_nat (length arena)) # stack) bss"
      unfolding stack_covers_def using s ts "1.prems"(1) by (auto simp: stack_covers_def intro!: exI [of _ "Fork l r # ts"])
    then show ?thesis using "1.IH" True "1.prems"(2) by simp
  next
    case False
    then show ?thesis using "1.prems" by simp
  qed
qed auto

lemma build_loop_covers:
  "stack_covers stack bss \<Longrightarrow> (\<And>x. x \<in> set ls \<Longrightarrow> ShardId_wf (fst x)) \<Longrightarrow>
   build_loop sha2 ls arena index stack work = (Ok (arena', index', stack'), work') \<Longrightarrow>
   stack_covers stack' (bss @ map (shard_bits \<circ> fst) ls)"
proof (induction sha2 ls arena index stack work arbitrary: bss rule: build_loop.induct)
  case (2 sha2 shard hash leaves arena index stack work)
  obtain a s w where m: "merge sha2 (arena @ [\<lparr>nd_hash = hash, nd_parent = NODE_NONE, nd_children = (NODE_NONE, NODE_NONE)\<rparr>])
      ((shard, word_of_nat (length arena)) # stack) (work\<lparr>tw_leaves := tw_leaves work + 1\<rparr>) = (a, s, w)"
    by (metis prod_cases3)
  have ok: "\<not> (index \<noteq> [] \<and> canonical_cmp (fst (last index)) shard \<noteq> Less)"
    "build_loop sha2 leaves a (index @ [(shard, word_of_nat (length arena))]) s w = (Ok (arena', index', stack'), work')"
    using "2.prems"(3) m by (auto simp: Let_def split: if_splits)
  have "stack_covers ((shard, word_of_nat (length arena)) # stack) (bss @ [shard_bits shard])"
  proof -
    obtain ts where "length ts = length stack" "bss = concat (rev (map2 (\<lambda>x t. paths (shard_bits (fst x)) t) stack ts))"
      using "2.prems"(1) by (auto simp: stack_covers_def)
    moreover have "ShardId_wf shard" using "2.prems"(2) [of "(shard, hash)"] by simp
    ultimately show ?thesis using "2.prems"(1) by (auto simp: stack_covers_def intro!: exI [of _ "Tip # ts"])
  qed
  from merge_covers [OF this m] have "stack_covers s (bss @ [shard_bits shard])" .
  from "2.IH" [OF ok(1) refl refl m [symmetric] refl refl this _ ok(2)] "2.prems"(2) show ?case by simp
qed simp

lemma leaf_hash_function:
  assumes "map (shard_bits \<circ> fst) ls = paths [] t"
  shows "\<exists>H. \<forall>x\<in>set ls. snd x = H (shard_bits (fst x))"
proof -
  have "distinct (map (shard_bits \<circ> fst) ls)"
    unfolding assms using bool_order.sorted_Less_distinct [of "\<lambda>x. x" "paths [] t"] paths_sorted by simp
  then have "snd x = the (map_of (map (\<lambda>x. (shard_bits (fst x), snd x)) ls) (shard_bits (fst x)))" if "x \<in> set ls" for x
    using that by (subst map_of_is_SomeI) (auto simp: comp_def)
  then show ?thesis by (intro exI [of _ "\<lambda>b. the (map_of (map (\<lambda>x. (shard_bits (fst x), snd x)) ls) b)"]) blast
qed

theorem build_counted_iff:
  assumes wf: "\<forall>x\<in>set ls. ShardId_wf (fst x)" and small: "length ls < 2 ^ 31"
  shows "(\<exists>tree. fst (build_counted sha2 ls work) = Ok tree) \<longleftrightarrow> (\<exists>t. map (shard_bits \<circ> fst) ls = paths [] t)"
proof
  assume "\<exists>tree. fst (build_counted sha2 ls work) = Ok tree"
  then obtain arena index stack work' s i where b: "build_loop sha2 ls [] [] [] work = (Ok (arena, index, stack), work')"
      "stack = [(s, i)]" "sh_length s = 0"
    by (auto simp: build_counted_def split: if_splits prod.splits sum.splits list.splits)
  have "stack_covers [] []" by (simp add: stack_covers_def)
  from build_loop_covers [OF this _ b(1)] wf have "stack_covers [(s, i)] (map (shard_bits \<circ> fst) ls)" using b(2) by simp
  moreover have "shard_bits s = []" using b(3) length_shard_bits [of s] by (metis length_0_conv)
  ultimately show "\<exists>t. map (shard_bits \<circ> fst) ls = paths [] t" by (auto simp: stack_covers_def length_Suc_conv)
next
  assume "\<exists>t. map (shard_bits \<circ> fst) ls = paths [] t"
  then obtain t where t: "map (shard_bits \<circ> fst) ls = paths [] t" by blast
  obtain H where "\<And>x. x \<in> set ls \<Longrightarrow> snd x = H (shard_bits (fst x))" using leaf_hash_function [OF t] by blast
  then show "\<exists>tree. fst (build_counted sha2 ls work) = Ok tree"
    using build_counted_tree [OF t, of H sha2 work] wf small by auto
qed

section \<open>Certificates\<close>

definition visited :: "nat \<Rightarrow> ShardTreeWork \<Rightarrow> ShardTreeWork" where
  "visited n w = w\<lparr>tw_path_visits := tw_path_visits w + word_of_nat n\<rparr>"

lemma visited_simps [simp]: "visited 0 w = w" "(visited n w)\<lparr>tw_path_visits := tw_path_visits (visited n w) + 1\<rparr> = visited (Suc n) w"
  by (simp_all add: visited_def)

lemma node_at_root:
  assumes "arena = pre @ post_order sha2 H p t (length pre) q @ post" "length arena < 2 ^ 32"
  shows "nd_hash (arena ! unat (word_of_nat (length pre + tree_size t - 1) :: u32)) = subtree_hash sha2 H p t"
    "nd_parent (arena ! unat (word_of_nat (length pre + tree_size t - 1) :: u32)) = q"
proof -
  have "tree_size t - 1 < tree_size t" "length pre + tree_size t - 1 = length pre + (tree_size t - 1)"
    using tree_size_pos [of t] by (simp_all del: tree_size_pos)
  moreover have "length pre + tree_size t - 1 < 2 ^ 32" using assms by simp
  ultimately have "arena ! unat (word_of_nat (length pre + tree_size t - 1) :: u32) = post_order sha2 H p t (length pre) q ! (tree_size t - 1)"
    using assms(1) by (simp only: node_index) (simp add: nth_append)
  then show "nd_hash (arena ! unat (word_of_nat (length pre + tree_size t - 1) :: u32)) = subtree_hash sha2 H p t"
    "nd_parent (arena ! unat (word_of_nat (length pre + tree_size t - 1) :: u32)) = q"
    by (simp_all only: post_order_parent)
qed

text \<open>One step up from either child of a fork.\<close>

lemma climb_fork:
  assumes arena: "arena = pre @ post_order sha2 H p (Fork l r) (length pre) q @ post" and small: "length arena < 2 ^ 32"
  defines "hi \<equiv> word_of_nat (length pre + tree_size (Fork l r) - 1) :: u32"
  shows "climb arena (word_of_nat (length pre + tree_size l - 1)) acc w =
      climb arena hi (acc @ [subtree_hash sha2 H (p @ [True]) r]) (w\<lparr>tw_path_visits := tw_path_visits w + 1\<rparr>)"
    "climb arena (word_of_nat (length pre + tree_size l + tree_size r - 1)) acc w =
      climb arena hi (acc @ [subtree_hash sha2 H (p @ [False]) l]) (w\<lparr>tw_path_visits := tw_path_visits w + 1\<rparr>)"
proof -
  let ?pl = "post_order sha2 H (p @ [False]) l (length pre) hi"
  let ?pr = "post_order sha2 H (p @ [True]) r (length (pre @ ?pl)) hi"
  let ?a = "word_of_nat (length pre + tree_size l - 1) :: u32" and ?b = "word_of_nat (length pre + tree_size l + tree_size r - 1) :: u32"
  obtain n where n: "arena = pre @ ?pl @ ?pr @ n # post" "nd_children n = (?a, ?b)"
    using arena by (auto simp: hi_def Let_def add.assoc)
  have l: "nd_hash (arena ! unat ?a) = subtree_hash sha2 H (p @ [False]) l" "nd_parent (arena ! unat ?a) = hi"
    using node_at_root [OF n(1) small] by simp_all
  have "arena = (pre @ ?pl) @ ?pr @ n # post" using n by simp
  from node_at_root [OF this small]
  have r: "nd_hash (arena ! unat ?b) = subtree_hash sha2 H (p @ [True]) r" "nd_parent (arena ! unat ?b) = hi"
    by (simp_all add: add.assoc)
  have len: "length arena = length pre + tree_size l + tree_size r + 1 + length post" using n by simp
  have "unat hi = length pre + tree_size (Fork l r) - 1" unfolding hi_def using len small by (intro node_index) simp
  then have un: "unat hi = length (pre @ ?pl @ ?pr)" by simp
  have "arena = (pre @ ?pl @ ?pr) @ n # post" using n by simp
  then have top: "arena ! unat hi = n" unfolding un by (simp only: nth_append_length)
  have "unat hi \<noteq> unat NODE_NONE" using un len small by (simp add: NODE_NONE_def)
  then have none: "hi \<noteq> NODE_NONE" by auto
  have "unat ?a = length pre + tree_size l - 1" "unat ?b = length pre + tree_size l + tree_size r - 1"
    using len small by (intro node_index; simp)+
  then have "unat ?a \<noteq> unat ?b" using tree_size_pos [of l] tree_size_pos [of r] by linarith
  then have "?a \<noteq> ?b" by metis
  then show "climb arena ?a acc w = climb arena hi (acc @ [subtree_hash sha2 H (p @ [True]) r]) (w\<lparr>tw_path_visits := tw_path_visits w + 1\<rparr>)"
    "climb arena ?b acc w = climb arena hi (acc @ [subtree_hash sha2 H (p @ [False]) l]) (w\<lparr>tw_path_visits := tw_path_visits w + 1\<rparr>)"
    using l r top none n(2) by (subst climb.simps, simp add: Let_def)+
qed

lemma climb_top: "nd_parent (arena ! unat node) = NODE_NONE \<Longrightarrow> climb arena node acc w = Some (acc, w)"
  by (simp add: climb.simps)

lemma climb_subtree:
  assumes "arena = pre @ post_order sha2 H p t (length pre) q @ post" "length arena < 2 ^ 32"
    "(b, i) \<in> set (zip (paths p t) (leaf_index t (length pre)))"
  shows "climb arena i acc w = climb arena (word_of_nat (length pre + tree_size t - 1))
    (acc @ sibling_hashes sha2 H p t (drop (length p) b)) (visited (length b - length p) w)"
  using assms
proof (induction t arbitrary: p pre q post acc w)
  case (Fork l r)
  let ?hi = "word_of_nat (length pre + tree_size l + tree_size r) :: u32"
  let ?pl = "post_order sha2 H (p @ [False]) l (length pre) ?hi"
  let ?pr = "post_order sha2 H (p @ [True]) r (length (pre @ ?pl)) ?hi"
  obtain n where arena: "arena = pre @ ?pl @ (?pr @ n # post)" "arena = (pre @ ?pl) @ ?pr @ (n # post)"
    using Fork.prems(1) by (auto simp: Let_def add.assoc)
  note up = climb_fork [OF Fork.prems(1,2)]
  have rel: "drop (length p) b = x # drop (length (p @ [x])) b" "length b - length p = Suc (length b - length (p @ [x]))"
    if "prefix (p @ [x]) b" for x
    using that by (auto simp: prefix_def)
  consider (left) "(b, i) \<in> set (zip (paths (p @ [False]) l) (leaf_index l (length pre)))"
    | (right) "(b, i) \<in> set (zip (paths (p @ [True]) r) (leaf_index r (length (pre @ ?pl))))"
    using Fork.prems(3) by auto
  then show ?case
  proof cases
    case left
    have "prefix (p @ [False]) b" using paths_extend set_zip_leftD [OF left] by blast
    then show ?thesis using Fork.IH(1) [OF arena(1) Fork.prems(2) left] up(1) rel [of False] by simp
  next
    case right
    have "prefix (p @ [True]) b" using paths_extend set_zip_leftD [OF right] by blast
    then show ?thesis using Fork.IH(2) [OF arena(2) Fork.prems(2) right] up(2) rel [of True] by (simp add: add.assoc)
  qed
qed simp

lemma paths_tree_leaf: "i < tips t \<Longrightarrow> (paths p t ! i, leaf_index t lo ! i) \<in> set (zip (paths p t) (leaf_index t lo))"
  by (simp add: set_zip) (metis length_leaf_index length_paths)

text \<open>Reading a certificate of a built tree always ends, and lists the hashes beside the path.\<close>

lemma certificate_of_tree:
  assumes bits: "map shard_bits ids = paths [] t" and wf: "\<And>s. s \<in> set ids \<Longrightarrow> ShardId_wf s" and small: "length ids < 2 ^ 31"
    and shard: "ShardId_wf shard"
  shows "certificate_counted (tree_of sha2 H t ids) shard w = Some
    (if shard \<in> set ids
     then (Ok \<lparr>stc_shard = shard, stc_sibling_hash_list = sibling_hashes sha2 H [] t (shard_bits shard)\<rparr>, visited (sh_length shard) w)
     else (Err (LeafSetMismatch ''shard is not in the tree''), w))"
proof -
  let ?T = "tree_of sha2 H t ids" and ?ls = "zip ids (leaf_index t 0)"
  have len: "length ids = tips t" using arg_cong [OF bits, of length] by simp
  have size: "tree_size t < 2 ^ 32" using tree_size_tips [of t] len small by simp
  have wfz: "ShardId_wf (fst x)" if "x \<in> set ?ls" for x using that wf by (cases x rule: prod.exhaust) (auto dest: set_zip_leftD)
  have sorted: "sorted_wrt (\<lambda>x y. cmp_bools (shard_bits (fst x)) (shard_bits (fst y)) = Less) ?ls"
    using paths_sorted [of "[]" t] len unfolding bits [symmetric] sorted_wrt_map
    by (simp add: sorted_wrt_iff_nth_less)
  have search: "binary_search_by (\<lambda>(s, _). canonical_cmp s shard) ?ls = binary_search_by (\<lambda>x. cmp_bools (shard_bits (fst x)) (shard_bits shard)) ?ls"
    by (rule binary_search_by_cong) (use wfz shard in \<open>auto simp: canonical_cmp_cmp_bools\<close>)
  have eq: "shard_bits (fst (?ls ! i)) = shard_bits shard \<longleftrightarrow> ids ! i = shard" if "i < length ids" for i
    using that len wf [of "ids ! i"] shard shard_bits_inj by auto
  note found = bool_order.binary_search_by_key [OF sorted, of "shard_bits shard"]
  show ?thesis
  proof (cases "shard \<in> set ids")
    case True
    then obtain i where i: "i < length ids" "ids ! i = shard" by (auto simp: in_set_conv_nth)
    then have "binary_search_by (\<lambda>(s, _). canonical_cmp s shard) ?ls = Some i" using found [of i] search len eq by simp
    moreover have "shard_bits shard = paths [] t ! i" "length (paths [] t ! i) = sh_length shard"
      using i bits by (metis nth_map length_shard_bits)+
    then have "climb (tree_nodes ?T) (leaf_index t 0 ! i) [] w =
        climb (tree_nodes ?T) (word_of_nat (tree_size t - 1)) (sibling_hashes sha2 H [] t (shard_bits shard)) (visited (sh_length shard) w)"
      using climb_subtree [of "tree_nodes ?T" "[]" sha2 H "[]" t NODE_NONE "[]" "shard_bits shard" "leaf_index t 0 ! i" "[]" w]
        paths_tree_leaf [of i t "[]" 0] i len size by (simp add: tree_of_def)
    moreover have "nd_parent (tree_nodes ?T ! unat (word_of_nat (tree_size t - 1) :: u32)) = NODE_NONE"
      using node_at_root(2) [of "tree_nodes ?T" "[]" sha2 H "[]" t NODE_NONE "[]"] size by (simp add: tree_of_def)
    ultimately show ?thesis using True i len
      by (simp add: certificate_counted_def tree_of_def climb_top)
  next
    case False
    then have "binary_search_by (\<lambda>(s, _). canonical_cmp s shard) ?ls \<noteq> Some i" for i
      using found [of i] search eq [of i] len nth_mem by fastforce
    then have "binary_search_by (\<lambda>(s, _). canonical_cmp s shard) ?ls = None" by auto
    then show ?thesis using False by (simp add: certificate_counted_def tree_of_def)
  qed
qed

text \<open>The certificate hashes up to the root the way the verifier folds it.\<close>

lemma fold_sibling_hashes:
  assumes "ShardId_wf s" "shard_bits s \<in> set (paths p t)" "dh_data root = H (shard_bits s)"
  shows "\<exists>root'. dh_data root' = subtree_hash sha2 H p t \<and>
    fold_shard_siblings sha2 s 0 (sibling_hashes sha2 H p t (drop (length p) (shard_bits s)) @ rest) root =
    fold_shard_siblings sha2 s (sh_length s - length p) rest root'"
  using assms(2)
proof (induction t arbitrary: p rest)
  case Tip
  then show ?case using assms(3) length_shard_bits [of s] by (intro exI [of _ root]) (simp del: length_shard_bits)
next
  case (Fork l r)
  have "\<exists>x. shard_bits s \<in> set (paths (p @ [x]) (if x then r else l))"
    using Fork.prems by (cases "shard_bits s \<in> set (paths (p @ [True]) r)") (auto intro: exI [of _ True] exI [of _ False])
  then obtain x where x: "shard_bits s \<in> set (paths (p @ [x]) (if x then r else l))" by blast
  then have pre: "prefix (p @ [x]) (shard_bits s)" by (rule paths_extend)
  then have rel: "drop (length p) (shard_bits s) = x # drop (length (p @ [x])) (shard_bits s)" by (auto simp: prefix_def)
  have n: "length p < sh_length s" using prefix_length_le [OF pre] by simp
  let ?sib = "subtree_hash sha2 H (p @ [\<not> x]) (if x then l else r)"
  have sibs: "sibling_hashes sha2 H p (Fork l r) (drop (length p) (shard_bits s)) =
      sibling_hashes sha2 H (p @ [x]) (if x then r else l) (drop (length (p @ [x])) (shard_bits s)) @ [?sib]"
    unfolding rel by (cases x) simp_all
  obtain root' where root': "dh_data root' = subtree_hash sha2 H (p @ [x]) (if x then r else l)"
      "fold_shard_siblings sha2 s 0 (sibling_hashes sha2 H (p @ [x]) (if x then r else l) (drop (length (p @ [x])) (shard_bits s)) @ ?sib # rest) root =
       fold_shard_siblings sha2 s (sh_length s - length (p @ [x])) (?sib # rest) root'"
    using Fork.IH(1) [of "p @ [False]" "?sib # rest"] Fork.IH(2) [of "p @ [True]" "?sib # rest"] x by (cases x) auto
  have bit: "get_bit s (length p) = Ok (if x then 1 else 0)"
    using n prefix_bit [OF pre] ShardId_wf_len [OF assms(1)] by (simp add: get_bit_def bit_value_bit_at nth_shard_bits)
  have "sh_length s - length (p @ [x]) + 1 \<le> sh_length s" "sh_length s - (sh_length s - length (p @ [x]) + 1) = length p"
    "Suc (sh_length s - length (p @ [x])) = sh_length s - length p" using n by auto
  then show ?case unfolding sibs append_assoc append_Cons append_Nil root'(2) using bit root'(1)
    by (cases x) (auto simp: inner_hash_def)
qed

text \<open>The tree of a complete scheme: one hash per inner node, and certificates that hash to the root.\<close>

lemma built_tree_certifies:
  assumes wf: "\<forall>x\<in>set ls. ShardId_wf (fst x)" and small: "length ls < 2 ^ 31"
    and built: "build_counted sha2 ls ShardTreeWork_default = (Ok tree, work)"
  shows "tw_inner_hashes work = word_of_nat (length ls - 1)" "tw_leaves work = word_of_nat (length ls)"
    "\<forall>(s, h)\<in>set ls. \<exists>c root. ShardTree_certificate tree s = Some (Ok c) \<and>
       fold_shard_siblings sha2 s 0 (stc_sibling_hash_list c) \<lparr>dh_algorithm = Sha256, dh_data = h\<rparr> = Ok root \<and>
       dh_data root = ShardTree_root_hash tree"
proof -
  obtain t H where t: "map (shard_bits \<circ> fst) ls = paths [] t" "\<And>x. x \<in> set ls \<Longrightarrow> snd x = H (shard_bits (fst x))"
    using build_counted_iff [OF wf small, of sha2 ShardTreeWork_default] built leaf_hash_function by (metis fst_conv)
  have b: "tree = tree_of sha2 H t (map fst ls)" "work = built_work t ShardTreeWork_default"
    using build_counted_tree [OF t(1), of H sha2 ShardTreeWork_default] t(2) wf small built by auto
  have len: "length ls = tips t" using arg_cong [OF t(1), of length] by simp
  show "tw_inner_hashes work = word_of_nat (length ls - 1)" "tw_leaves work = word_of_nat (length ls)"
    using b(2) len by (simp_all add: built_work_def ShardTreeWork_default_def)
  have size: "tree_size t < 2 ^ 32" using tree_size_tips [of t] len small by simp
  have root: "ShardTree_root_hash tree = subtree_hash sha2 H [] t"
    using node_at_root(1) [of "tree_nodes tree" "[]" sha2 H "[]" t NODE_NONE "[]"] size b(1)
    by (simp add: tree_of_def ShardTree_root_hash_def)
  show "\<forall>(s, h)\<in>set ls. \<exists>c root. ShardTree_certificate tree s = Some (Ok c) \<and>
       fold_shard_siblings sha2 s 0 (stc_sibling_hash_list c) \<lparr>dh_algorithm = Sha256, dh_data = h\<rparr> = Ok root \<and>
       dh_data root = ShardTree_root_hash tree"
  proof (intro ballI, clarify)
    fix s h assume sh: "(s, h) \<in> set ls"
    then have s: "ShardId_wf s" "h = H (shard_bits s)" "s \<in> set (map fst ls)" "shard_bits s \<in> set (paths [] t)"
      using wf t(2) [OF sh] unfolding t(1) [symmetric] by (force)+
    have "certificate_counted tree s ShardTreeWork_default = Some
        (Ok \<lparr>stc_shard = s, stc_sibling_hash_list = sibling_hashes sha2 H [] t (shard_bits s)\<rparr>, visited (sh_length s) ShardTreeWork_default)"
      using certificate_of_tree [of "map fst ls" t s sha2 H ShardTreeWork_default] s(1,3) t(1) wf small b(1) by auto
    then have c: "ShardTree_certificate tree s = Some (Ok \<lparr>stc_shard = s, stc_sibling_hash_list = sibling_hashes sha2 H [] t (shard_bits s)\<rparr>)"
      by (simp add: ShardTree_certificate_def)
    show "\<exists>c root. ShardTree_certificate tree s = Some (Ok c) \<and>
       fold_shard_siblings sha2 s 0 (stc_sibling_hash_list c) \<lparr>dh_algorithm = Sha256, dh_data = h\<rparr> = Ok root \<and>
       dh_data root = ShardTree_root_hash tree"
      using fold_sibling_hashes [where H = H and root = "\<lparr>dh_algorithm = Sha256, dh_data = h\<rparr>" and rest = "[]", OF s(1,4), of sha2] c s(2) root
      by auto
  qed
qed
end
