(* ===== verification/Partition_View.thy ===== *)
theory Partition_View
  imports Topology Bft_Codec
begin

text \<open>
  Partition views (\<open>src/src/consolidation/partition_view.rs\<close>): the input records, leaves and views, their
  bounds, and the strict codec. A view that satisfies the bounds is read back from its encoding under the
  decoder's limits, and decoding accepts nothing but such encodings.
\<close>

section \<open>Limits\<close>

definition PARTITION_VIEW_VERSION :: u64 where "PARTITION_VIEW_VERSION = 1"
definition MAX_PARTITION_VIEW_BYTES :: usize where "MAX_PARTITION_VIEW_BYTES = 16 * 1024"
definition MAX_PARTITION_VIEW_IR_BYTES :: usize where "MAX_PARTITION_VIEW_IR_BYTES = 1024"
definition MAX_PARTITION_VIEW_SUMMARY_VALUE_BYTES :: usize where "MAX_PARTITION_VIEW_SUMMARY_VALUE_BYTES = 256"
definition VIEW_HASH_LEN :: usize where "VIEW_HASH_LEN = 32"

definition VIEW_DECODE_LIMITS :: DecodeLimits where
  "VIEW_DECODE_LIMITS = \<lparr>max_input_bytes = MAX_PARTITION_VIEW_BYTES, max_nesting_depth = 5,
     max_collection_items = 16, max_total_items = 192\<rparr>"

section \<open>Input records\<close>

record PartitionViewInputRecord =
  pr_round_number :: u64
  pr_epoch :: u64
  pr_previous_hash :: "bytes option"
  pr_hash :: "bytes option"
  pr_summary_value :: "bytes option"
  pr_timestamp :: u64
  pr_block_hash :: "bytes option"
  pr_sum_of_earned_fees :: u64
  pr_executed_transactions_hash :: "bytes option"

definition from_input_record :: "InputRecord \<Rightarrow> PartitionViewInputRecord" where
  "from_input_record ir =
     \<lparr>pr_round_number = ir_round_number ir, pr_epoch = ir_epoch ir, pr_previous_hash = ir_previous_hash ir,
      pr_hash = ir_hash ir, pr_summary_value = ir_summary_value ir, pr_timestamp = ir_timestamp ir,
      pr_block_hash = ir_block_hash ir, pr_sum_of_earned_fees = ir_sum_of_earned_fees ir,
      pr_executed_transactions_hash = ir_executed_transactions_hash ir\<rparr>"

definition to_input_record :: "PartitionViewInputRecord \<Rightarrow> InputRecord" where
  "to_input_record r =
     \<lparr>ir_round_number = pr_round_number r, ir_epoch = pr_epoch r, ir_previous_hash = pr_previous_hash r,
      ir_hash = pr_hash r, ir_summary_value = pr_summary_value r, ir_timestamp = pr_timestamp r,
      ir_block_hash = pr_block_hash r, ir_sum_of_earned_fees = pr_sum_of_earned_fees r,
      ir_executed_transactions_hash = pr_executed_transactions_hash r\<rparr>"

abbreviation cbor_result :: "CborError + 'a \<Rightarrow> PartitionViewError + 'a" where
  "cbor_result \<equiv> map_err (\<lambda>e. ViewDecode (Cbor e))"

definition PartitionViewInputRecord_from_cbor :: "Decoder \<Rightarrow> PartitionViewError + PartitionViewInputRecord" where
  "PartitionViewInputRecord_from_cbor d =
     rbind (cbor_result (expect_tag d INPUT_RECORD_TAG)) (\<lambda>inner.
     rbind (cbor_result (array inner (Some 10))) (\<lambda>items.
     rbind (cbor_result (uint_value (items ! 0))) (\<lambda>version.
       if version \<noteq> 1 then Err (Bounds ''unsupported input record version'')
       else
         let opt = (\<lambda>d. map_err ViewDecode (opt_bytes d))
         in rbind (cbor_result (uint_value (items ! 1))) (\<lambda>round_number.
            rbind (cbor_result (uint_value (items ! 2))) (\<lambda>epoch.
            rbind (opt (items ! 3)) (\<lambda>previous_hash.
            rbind (opt (items ! 4)) (\<lambda>hash.
            rbind (opt (items ! 5)) (\<lambda>summary_value.
            rbind (cbor_result (uint_value (items ! 6))) (\<lambda>timestamp.
            rbind (opt (items ! 7)) (\<lambda>block_hash.
            rbind (cbor_result (uint_value (items ! 8))) (\<lambda>sum_of_earned_fees.
            rbind (opt (items ! 9)) (\<lambda>executed_transactions_hash.
              Ok \<lparr>pr_round_number = round_number, pr_epoch = epoch, pr_previous_hash = previous_hash,
                  pr_hash = hash, pr_summary_value = summary_value, pr_timestamp = timestamp,
                  pr_block_hash = block_hash, pr_sum_of_earned_fees = sum_of_earned_fees,
                  pr_executed_transactions_hash = executed_transactions_hash\<rparr>))))))))))))"

definition PartitionViewInputRecord_to_cbor :: "PartitionViewInputRecord \<Rightarrow> bytes" where
  "PartitionViewInputRecord_to_cbor r =
     encode_tag INPUT_RECORD_TAG (encode_array
       [encode_uint 1,
        encode_uint (pr_round_number r),
        encode_uint (pr_epoch r),
        encode_nullable (pr_previous_hash r) encode_byte_string,
        encode_nullable (pr_hash r) encode_byte_string,
        encode_nullable (pr_summary_value r) encode_byte_string,
        encode_uint (pr_timestamp r),
        encode_nullable (pr_block_hash r) encode_byte_string,
        encode_uint (pr_sum_of_earned_fees r),
        encode_nullable (pr_executed_transactions_hash r) encode_byte_string])"

definition PartitionViewInputRecord_check :: "PartitionViewInputRecord \<Rightarrow> PartitionViewError + unit" where
  "PartitionViewInputRecord_check r =
     rbind (if pr_round_number r \<noteq> 0 then
              (if pr_summary_value r = None then Err (Bounds ''input record: summary value is nil'')
               else if pr_timestamp r = 0 then Err (Bounds ''input record: timestamp is unassigned'') else Ok ())
            else Ok ()) (\<lambda>_.
       let same_state = (opt_or_empty (pr_previous_hash r) = opt_or_empty (pr_hash r));
           nil_block_hash = (case pr_block_hash r of None \<Rightarrow> True | Some b \<Rightarrow> b = [])
       in if same_state \<and> \<not> nil_block_hash
          then Err (Bounds ''input record: state hash didn't change but block hash is not nil'')
          else if \<not> same_state \<and> nil_block_hash
          then Err (Bounds ''input record: block hash is nil but state hash changed'')
          else if (case pr_summary_value r of None \<Rightarrow> 0 | Some v \<Rightarrow> length v) > MAX_PARTITION_VIEW_SUMMARY_VALUE_BYTES
          then Err (Bounds ''summary value is too long'')
          else if list_ex (\<lambda>h. is_some_and h (\<lambda>h. h \<noteq> [] \<and> length h \<noteq> VIEW_HASH_LEN))
                 [pr_hash r, pr_previous_hash r, pr_block_hash r, pr_executed_transactions_hash r]
          then Err (Bounds ''input record hash must be empty or 32 bytes'')
          else if length (PartitionViewInputRecord_to_cbor r) > MAX_PARTITION_VIEW_IR_BYTES
          then Err (Bounds ''input record is too large'')
          else Ok ())"

section \<open>Leaves\<close>

record PartitionViewLeaf =
  lf_shard_id :: ShardId
  lf_input_record :: PartitionViewInputRecord
  lf_tr_hash :: bytes
  lf_shard_conf_hash :: bytes

definition PartitionViewLeaf_check :: "PartitionViewLeaf \<Rightarrow> PartitionViewError + unit" where
  "PartitionViewLeaf_check leaf =
     (if sh_length (lf_shard_id leaf) > MAX_PARTITION_VIEW_SHARD_ID_BITS then Err (Bounds ''shard id is too long'')
      else rbind (PartitionViewInputRecord_check (lf_input_record leaf)) (\<lambda>_.
        if length (lf_tr_hash leaf) \<noteq> VIEW_HASH_LEN then Err (Bounds ''TRHash must be 32 bytes'')
        else if length (lf_shard_conf_hash leaf) \<noteq> VIEW_HASH_LEN then Err (Bounds ''ShardConfHash must be 32 bytes'')
        else Ok ()))"

definition PartitionViewLeaf_to_cbor :: "PartitionViewLeaf \<Rightarrow> bytes" where
  "PartitionViewLeaf_to_cbor leaf =
     encode_array
       [encode_byte_string (ShardId_encode (lf_shard_id leaf)),
        PartitionViewInputRecord_to_cbor (lf_input_record leaf),
        encode_byte_string (lf_tr_hash leaf),
        encode_byte_string (lf_shard_conf_hash leaf)]"

definition PartitionViewLeaf_from_cbor :: "Decoder \<Rightarrow> PartitionViewError + PartitionViewLeaf" where
  "PartitionViewLeaf_from_cbor d =
     rbind (cbor_result (array d (Some 4))) (\<lambda>items.
     rbind (cbor_result (bytes_value (items ! 0))) (\<lambda>b.
     rbind (map_err ViewDecode (ShardId_decode b)) (\<lambda>shard_id.
     rbind (PartitionViewInputRecord_from_cbor (items ! 1)) (\<lambda>input_record.
     rbind (cbor_result (bytes_value (items ! 2))) (\<lambda>tr_hash.
     rbind (cbor_result (bytes_value (items ! 3))) (\<lambda>conf_hash.
       Ok \<lparr>lf_shard_id = shard_id, lf_input_record = input_record, lf_tr_hash = tr_hash,
           lf_shard_conf_hash = conf_hash\<rparr>))))))"

definition view_leaf_hash :: "sha2 \<Rightarrow> PartitionViewLeaf \<Rightarrow> bytes" where
  "view_leaf_hash sha2 leaf =
     dh_data (finalize sha2 (update (encode_byte_string (lf_shard_conf_hash leaf))
       (update (encode_byte_string (lf_tr_hash leaf))
       (update (PartitionViewInputRecord_to_cbor (lf_input_record leaf)) sha256_hasher))))"

section \<open>Views\<close>

record PartitionView =
  pw_partition_id :: u32
  pw_leaves :: "PartitionViewLeaf list"

text \<open>\<open>try_for_each\<close>: the first failure.\<close>

primrec try_for_each :: "('a \<Rightarrow> 'e + unit) \<Rightarrow> 'a list \<Rightarrow> 'e + unit" where
  "try_for_each f [] = Ok ()"
| "try_for_each f (x # xs) = rbind (f x) (\<lambda>_. try_for_each f xs)"

definition check_bounds :: "PartitionView \<Rightarrow> PartitionViewError + unit" where
  "check_bounds v =
     (if pw_partition_id v = 0 then Err (Bounds ''partition ID is zero'')
      else let n = length (pw_leaves v)
           in if \<not> (1 \<le> n \<and> n \<le> MAX_PARTITION_VIEW_LEAVES) then Err (Bounds ''leaf count must be 1..=8'')
              else try_for_each PartitionViewLeaf_check (pw_leaves v))"

definition PartitionView_to_cbor :: "PartitionView \<Rightarrow> PartitionViewError + bytes" where
  "PartitionView_to_cbor v =
     rbind (check_bounds v) (\<lambda>_.
       let data = encode_array [encode_uint PARTITION_VIEW_VERSION, encode_uint (ucast (pw_partition_id v)),
             encode_array (map PartitionViewLeaf_to_cbor (pw_leaves v))]
       in if length data > MAX_PARTITION_VIEW_BYTES then Err (ViewTooLarge MAX_PARTITION_VIEW_BYTES (length data))
          else Ok data)"

definition PartitionView_from_cbor :: "bytes \<Rightarrow> PartitionViewError + PartitionView" where
  "PartitionView_from_cbor data =
     (if length data > MAX_PARTITION_VIEW_BYTES then Err (ViewTooLarge MAX_PARTITION_VIEW_BYTES (length data))
      else
        let top = with_limits data VIEW_DECODE_LIMITS
        in rbind (cbor_result (array top (Some 3))) (\<lambda>items.
           rbind (cbor_result (uint_value (items ! 0))) (\<lambda>version.
             if version \<noteq> PARTITION_VIEW_VERSION then Err (UnsupportedVersion version)
             else
               rbind (cbor_result (uint_value (items ! 1))) (\<lambda>p.
               rbind (if p \<le> 0xffffffff then Ok (ucast p) else Err (Bounds ''partition ID exceeds 32 bits'')) (\<lambda>partition_id.
               rbind (cbor_result (array (items ! 2) None)) (\<lambda>ds.
               rbind (rmap PartitionViewLeaf_from_cbor ds) (\<lambda>leaves.
                 let view = \<lparr>pw_partition_id = partition_id, pw_leaves = leaves\<rparr>
                 in rbind (check_bounds view) (\<lambda>_.
                    rbind (PartitionView_to_cbor view) (\<lambda>encoded.
                      if encoded \<noteq> data then Err NotCanonical else Ok view)))))))))"

section \<open>The codec\<close>

lemma PartitionViewInputRecord_to_cbor_eq:
  "PartitionViewInputRecord_to_cbor r = InputRecord_to_cbor (to_input_record r)"
  by (simp add: PartitionViewInputRecord_to_cbor_def InputRecord_to_cbor_def to_input_record_def BFT_VERSION_def)

lemma input_record_inverse [simp]:
  "from_input_record (to_input_record r) = r" "to_input_record (from_input_record ir) = ir"
  by (simp_all add: from_input_record_def to_input_record_def)

lemma item_view_input_record [simp]: "item (PartitionViewInputRecord_to_cbor r)"
  by (simp add: PartitionViewInputRecord_to_cbor_def item_array_list)

lemma view_input_record_decode:
  assumes "accepts l (PartitionViewInputRecord_to_cbor r)"
  shows "PartitionViewInputRecord_from_cbor (with_limits (PartitionViewInputRecord_to_cbor r) l) = Ok r"
  using tagged_array [OF assms [unfolded PartitionViewInputRecord_to_cbor_def]]
  by (simp add: PartitionViewInputRecord_to_cbor_def PartitionViewInputRecord_from_cbor_def codec_simps)

definition PartitionView_wf :: "PartitionView \<Rightarrow> bool" where
  "PartitionView_wf v \<longleftrightarrow> (\<forall>leaf\<in>set (pw_leaves v). ShardId_wf (lf_shard_id leaf))"

lemma item_view_leaf [simp]: "item (PartitionViewLeaf_to_cbor leaf)"
  by (simp add: PartitionViewLeaf_to_cbor_def item_array_list)

lemma view_leaf_decode:
  assumes "accepts l (PartitionViewLeaf_to_cbor leaf)" "ShardId_wf (lf_shard_id leaf)"
  shows "PartitionViewLeaf_from_cbor (with_limits (PartitionViewLeaf_to_cbor leaf) l) = Ok leaf"
  using accepts_array [OF assms(1) [unfolded PartitionViewLeaf_to_cbor_def]] assms
  by (simp add: PartitionViewLeaf_to_cbor_def PartitionViewLeaf_from_cbor_def codec_simps
      view_input_record_decode ShardId_decode_encode)

text \<open>An admitted view fits the limits of its decoder.\<close>

definition bytes_cbor :: "bytes \<Rightarrow> cbor" where "bytes_cbor b = Str major_BYTES b"
definition uint_cbor :: "u64 \<Rightarrow> cbor" where "uint_cbor n = Atom major_UINT n"
definition null_cbor :: cbor where "null_cbor = Atom major_SIMPLE 22"
definition opt_cbor :: "bytes option \<Rightarrow> cbor" where
  "opt_cbor x = (case x of None \<Rightarrow> null_cbor | Some b \<Rightarrow> bytes_cbor b)"

definition leaf_cbor :: "PartitionViewLeaf \<Rightarrow> cbor" where
  "leaf_cbor leaf = (let r = lf_input_record leaf in
     Arr [bytes_cbor (ShardId_encode (lf_shard_id leaf)),
       Tagged INPUT_RECORD_TAG (Arr [uint_cbor 1, uint_cbor (pr_round_number r), uint_cbor (pr_epoch r),
         opt_cbor (pr_previous_hash r), opt_cbor (pr_hash r), opt_cbor (pr_summary_value r), uint_cbor (pr_timestamp r),
         opt_cbor (pr_block_hash r), uint_cbor (pr_sum_of_earned_fees r), opt_cbor (pr_executed_transactions_hash r)]),
       bytes_cbor (lf_tr_hash leaf), bytes_cbor (lf_shard_conf_hash leaf)])"

lemma enc_atoms:
  "enc (bytes_cbor b) = encode_byte_string b" "enc (uint_cbor n) = encode_uint n"
  "enc (opt_cbor x) = encode_nullable x encode_byte_string"
  by (auto simp: bytes_cbor_def uint_cbor_def opt_cbor_def null_cbor_def encode_byte_string_def push_head_Nil
      encode_uint_def encode_nullable_def simple_heads split: option.split)

lemma enc_leaf_cbor: "enc (leaf_cbor leaf) = PartitionViewLeaf_to_cbor leaf"
  unfolding leaf_cbor_def PartitionViewLeaf_to_cbor_def PartitionViewInputRecord_to_cbor_def Let_def
    encode_array_enc [symmetric] encode_tag_enc [symmetric] by (simp add: enc_atoms encode_array_enc [symmetric] encode_tag_enc [symmetric] del: enc.simps)

lemma atoms_fit:
  "fits l (bytes_cbor b) = (\<lambda>d. d \<le> max_nesting_depth l)" "fits l (uint_cbor n) = (\<lambda>d. d \<le> max_nesting_depth l)"
  "fits l (opt_cbor x) = (\<lambda>d. d \<le> max_nesting_depth l)"
  "nodes (bytes_cbor b) = 1" "nodes (uint_cbor n) = 1" "nodes (opt_cbor x) = 1"
  by (auto simp: bytes_cbor_def uint_cbor_def opt_cbor_def null_cbor_def split: option.split)

lemma atoms_wf:
  "length (enc (bytes_cbor b)) < 2 ^ 64 \<Longrightarrow> cbor_wf (bytes_cbor b)" "cbor_wf (uint_cbor n)"
  "length (enc (opt_cbor x)) < 2 ^ 64 \<Longrightarrow> cbor_wf (opt_cbor x)"
  by (auto simp: bytes_cbor_def uint_cbor_def opt_cbor_def null_cbor_def split: option.split)

lemma leaf_cbor_wf: "length (enc (leaf_cbor leaf)) < 2 ^ 64 \<Longrightarrow> cbor_wf (leaf_cbor leaf)"
  unfolding leaf_cbor_def Let_def by (simp add: atoms_wf)

lemma leaf_cbor_fits: "fits VIEW_DECODE_LIMITS (leaf_cbor leaf) (Suc (Suc 0))" "nodes (leaf_cbor leaf) = 16"
  by (simp_all add: leaf_cbor_def Let_def atoms_fit VIEW_DECODE_LIMITS_def)

definition view_bytes :: "PartitionView \<Rightarrow> bytes" where
  "view_bytes v = encode_array [encode_uint PARTITION_VIEW_VERSION, encode_uint (ucast (pw_partition_id v)),
     encode_array (map PartitionViewLeaf_to_cbor (pw_leaves v))]"

lemma PartitionView_to_cbor_iff:
  "PartitionView_to_cbor v = Ok data \<longleftrightarrow> check_bounds v = Ok () \<and> length data \<le> MAX_PARTITION_VIEW_BYTES \<and> data = view_bytes v"
  by (auto simp: PartitionView_to_cbor_def view_bytes_def result_simps Let_def)

lemma check_bounds_iff:
  "check_bounds v = Ok () \<longleftrightarrow> pw_partition_id v \<noteq> 0 \<and> pw_leaves v \<noteq> [] \<and> length (pw_leaves v) \<le> 8 \<and>
     (\<forall>leaf\<in>set (pw_leaves v). PartitionViewLeaf_check leaf = Ok ())"
proof -
  have "try_for_each f xs = Ok () \<longleftrightarrow> (\<forall>x\<in>set xs. f x = Ok ())" for f :: "'b \<Rightarrow> 'e + unit" and xs
    by (induction xs) (auto simp: result_simps)
  then show ?thesis by (auto simp: check_bounds_def Let_def MAX_PARTITION_VIEW_LEAVES_def Suc_le_eq)
qed

lemma view_accepted:
  assumes "length (pw_leaves v) \<le> 8" "length (view_bytes v) \<le> MAX_PARTITION_VIEW_BYTES"
  shows "accepts VIEW_DECODE_LIMITS (view_bytes v)"
proof -
  let ?c = "Arr [uint_cbor PARTITION_VIEW_VERSION, uint_cbor (ucast (pw_partition_id v)), Arr (map leaf_cbor (pw_leaves v))]"
  have enc: "view_bytes v = enc ?c"
    unfolding view_bytes_def encode_array_enc [symmetric]
    by (simp add: enc_atoms enc_leaf_cbor comp_def encode_array_enc [symmetric] del: enc.simps)
  have "length (enc (leaf_cbor leaf)) \<le> length (view_bytes v)" if "leaf \<in> set (pw_leaves v)" for leaf
    using length_concat_mem [OF that, of "\<lambda>x. enc (leaf_cbor x)"] unfolding enc by (simp add: comp_def)
  then have "list_all cbor_wf (map leaf_cbor (pw_leaves v))"
    using assms(2) leaf_cbor_wf by (fastforce simp: list_all_iff MAX_PARTITION_VIEW_BYTES_def)
  then have "cbor_wf ?c" using assms(1) by (simp add: atoms_wf)
  moreover have "fits VIEW_DECODE_LIMITS ?c 0"
    using assms(1) leaf_cbor_fits by (simp add: atoms_fit list_all_iff) (simp add: VIEW_DECODE_LIMITS_def)
  moreover have "nodes ?c \<le> max_total_items VIEW_DECODE_LIMITS"
    using assms(1) by (simp add: atoms_fit comp_def leaf_cbor_fits sum_list_triv) (simp add: VIEW_DECODE_LIMITS_def)
  ultimately show ?thesis
    using assms(2) unfolding enc by (subst accepts_enc) (simp_all add: item_fits_def VIEW_DECODE_LIMITS_def MAX_PARTITION_VIEW_BYTES_def)
qed

lemma view_leaves_decode:
  assumes "accepts l (encode_array (map PartitionViewLeaf_to_cbor leaves))" "\<forall>leaf\<in>set leaves. ShardId_wf (lf_shard_id leaf)"
  shows "array (with_limits (encode_array (map PartitionViewLeaf_to_cbor leaves)) l) None =
      Ok (map (\<lambda>x. with_limits (PartitionViewLeaf_to_cbor x) l) leaves)"
    "rmap PartitionViewLeaf_from_cbor (map (\<lambda>x. with_limits (PartitionViewLeaf_to_cbor x) l) leaves) = Ok leaves"
proof -
  have items: "\<And>b. b \<in> set (map PartitionViewLeaf_to_cbor leaves) \<Longrightarrow> item b" by auto
  show "array (with_limits (encode_array (map PartitionViewLeaf_to_cbor leaves)) l) None =
      Ok (map (\<lambda>x. with_limits (PartitionViewLeaf_to_cbor x) l) leaves)"
    using array_complete [OF assms(1) items, of None] by (simp add: comp_def)
  have "rmap PartitionViewLeaf_from_cbor (map (\<lambda>x. with_limits (PartitionViewLeaf_to_cbor x) l) leaves) = Ok (map (\<lambda>x. x) leaves)"
    by (rule rmap_map_Inr) (use array_accepts [OF assms(1) items] assms(2) in \<open>auto intro: view_leaf_decode\<close>)
  then show "rmap PartitionViewLeaf_from_cbor (map (\<lambda>x. with_limits (PartitionViewLeaf_to_cbor x) l) leaves) = Ok leaves"
    by simp
qed

lemma PartitionViewLeaf_from_cbor_wf: "PartitionViewLeaf_from_cbor d = Ok leaf \<Longrightarrow> ShardId_wf (lf_shard_id leaf)"
  by (auto simp: PartitionViewLeaf_from_cbor_def result_simps dest: ShardId_encode_decode)

theorem PartitionView_from_cbor_iff:
  "PartitionView_from_cbor data = Ok v \<longleftrightarrow> PartitionView_wf v \<and> PartitionView_to_cbor v = Ok data"
proof
  assume ok: "PartitionView_from_cbor data = Ok v"
  then obtain ds where ds: "rmap PartitionViewLeaf_from_cbor ds = Ok (pw_leaves v)"
    by (auto simp: PartitionView_from_cbor_def rbind_Inr_iff map_err_Inr_iff Let_def split: if_splits)
  have "PartitionView_wf v"
    using ds unfolding PartitionView_wf_def rmap_Inr_iff
    by (auto simp: list_all2_conv_all_nth in_set_conv_nth dest!: PartitionViewLeaf_from_cbor_wf)
  moreover have "PartitionView_to_cbor v = Ok data"
    using ok by (auto simp: PartitionView_from_cbor_def rbind_Inr_iff Let_def split: if_splits)
  ultimately show "PartitionView_wf v \<and> PartitionView_to_cbor v = Ok data" by simp
next
  assume "PartitionView_wf v \<and> PartitionView_to_cbor v = Ok data"
  then have wf: "PartitionView_wf v" and enc: "PartitionView_to_cbor v = Ok data"
    and b: "check_bounds v = Ok ()" "length data \<le> MAX_PARTITION_VIEW_BYTES" "data = view_bytes v"
    using PartitionView_to_cbor_iff [of v data] by blast+
  let ?l = VIEW_DECODE_LIMITS
  have acc: "accepts ?l data" using b view_accepted check_bounds_iff by auto
  have items: "list_all item [encode_uint PARTITION_VIEW_VERSION, encode_uint (ucast (pw_partition_id v)),
      encode_array (map PartitionViewLeaf_to_cbor (pw_leaves v))]"
    using item_array_list [of "map PartitionViewLeaf_to_cbor (pw_leaves v)"] by (simp add: list_all_iff)
  note fields = accepts_array [OF acc [unfolded b(3) view_bytes_def] items]
  have arr: "array (with_limits data ?l) (Some 3) = Ok (map (\<lambda>x. with_limits x ?l) [encode_uint PARTITION_VIEW_VERSION,
      encode_uint (ucast (pw_partition_id v)), encode_array (map PartitionViewLeaf_to_cbor (pw_leaves v))])"
    unfolding b(3) view_bytes_def by (rule array_encode [OF acc [unfolded b(3) view_bytes_def] items]) simp
  have "u32_try_from [] (ucast (pw_partition_id v)) = Ok (pw_partition_id v)" by simp
  then have id: "(ucast (pw_partition_id v) :: u64) \<le> 0xffffffff" "ucast (ucast (pw_partition_id v) :: u64) = pw_partition_id v"
    by (auto simp: u32_try_from_def split: if_splits)
  show "PartitionView_from_cbor data = Ok v"
    using fields arr id wf enc b(1,2) view_leaves_decode [of ?l "pw_leaves v"]
    by (cases v) (simp add: PartitionView_from_cbor_def codec_simps PartitionView_wf_def Let_def)
qed

end
