(* ===== verification/Stateful.thy ===== *)
theory Stateful
  imports Prelude
begin

text \<open>
  Fallible operations on a state that is passed and returned: the sequencing of the \<open>?\<close> operator, and
  the relation between such an operation and the result it is meant to have, with an invariant of the
  state.
\<close>

type_synonym ('s, 'e, 'a) st = "('e + 'a) \<times> 's"

primrec sbind :: "('s, 'e, 'a) st \<Rightarrow> ('a \<Rightarrow> 's \<Rightarrow> ('s, 'e, 'b) st) \<Rightarrow> ('s, 'e, 'b) st" where
  "sbind (r, s) f = (case r of Inl e \<Rightarrow> (Inl e, s) | Inr x \<Rightarrow> f x s)"

lemma sbind_cong [fundef_cong]:
  "m = m' \<Longrightarrow> (\<And>x s. m' = (Inr x, s) \<Longrightarrow> f x s = f' x s) \<Longrightarrow> sbind m f = sbind m' f'"
  by (cases m') (auto split: sum.splits)

lemma rbind_assoc: "rbind (rbind a f) h = rbind a (\<lambda>x. rbind (f x) h)"
  by (cases a) simp_all

lemma sbind_Ok_iff [result_simps]:
  "fst (sbind m f) = Ok y \<longleftrightarrow> (\<exists>x. fst m = Ok x \<and> fst (f x (snd m)) = Ok y)"
  by (cases m) (auto split: sum.splits)

text \<open>\<open>yields I m r\<close>: the operation \<open>m\<close> has the result \<open>r\<close> and leaves a state with the invariant \<open>I\<close>.\<close>

definition yields :: "('s \<Rightarrow> bool) \<Rightarrow> ('s, 'e, 'a) st \<Rightarrow> 'e + 'a \<Rightarrow> bool" where
  "yields I m r \<longleftrightarrow> fst m = r \<and> I (snd m)"

lemma yields_pure: "I s \<Longrightarrow> yields I (r, s) r"
  by (simp add: yields_def)

lemma yields_bind:
  assumes "yields I m r" "\<And>x s. r = Ok x \<Longrightarrow> I s \<Longrightarrow> yields I (f x s) (g x)"
  shows "yields I (sbind m f) (rbind r g)"
  using assms by (cases m; cases r) (auto simp: yields_def)

lemma yields_map_err: "yields I m r \<Longrightarrow> yields I (map_prod (map_err f) id m) (map_err f r)"
  by (cases m) (simp add: yields_def)

lemma yields_if:
  assumes "b \<Longrightarrow> yields I m r" "\<not> b \<Longrightarrow> yields I m' r'"
  shows "yields I (if b then m else m') (if b then r else r')"
  using assms by simp

text \<open>\<open>keeps I m P\<close>: the operation \<open>m\<close> keeps the invariant, and \<open>P\<close> holds of the value of a success.\<close>

definition keeps :: "('s \<Rightarrow> bool) \<Rightarrow> ('s, 'e, 'a) st \<Rightarrow> ('a \<Rightarrow> bool) \<Rightarrow> bool" where
  "keeps I m P \<longleftrightarrow> I (snd m) \<and> (\<forall>x. fst m = Ok x \<longrightarrow> P x)"

lemma keeps_pure: "I s \<Longrightarrow> (\<And>x. r = Ok x \<Longrightarrow> P x) \<Longrightarrow> keeps I (r, s) P"
  by (simp add: keeps_def)

lemma keeps_bind:
  assumes "keeps I m P" "\<And>x s. P x \<Longrightarrow> I s \<Longrightarrow> keeps I (f x s) R"
  shows "keeps I (sbind m f) R"
  using assms by (cases m) (auto simp: keeps_def split: sum.splits)

lemma yields_keeps: "yields I m r \<Longrightarrow> keeps I m (\<lambda>x. r = Ok x)"
  by (simp add: yields_def keeps_def)

lemma keeps_map_err: "keeps I m P \<Longrightarrow> keeps I (map_prod (map_err f) id m) P"
  by (cases m) (auto simp: keeps_def map_err_Inr_iff)

lemma keeps_mono: "keeps I m P \<Longrightarrow> (\<And>x. P x \<Longrightarrow> R x) \<Longrightarrow> keeps I m R"
  by (auto simp: keeps_def)

lemma keeps_Err: "I c \<Longrightarrow> keeps I (Err e, c) P"
  by (simp add: keeps_def)

lemma keeps_conj: "keeps I m P \<Longrightarrow> keeps I m R \<Longrightarrow> keeps I m (\<lambda>x. P x \<and> R x)"
  by (simp add: keeps_def)

lemma keeps_add: "keeps I m P \<Longrightarrow> A \<Longrightarrow> keeps I m (\<lambda>x. A \<and> P x)"
  by (simp add: keeps_def)

end
