(* ===== verification/Transactions.thy ===== *)
theory Transactions
  imports Seal Stateful
begin

text \<open>
  Identifiers, mint and transfer transactions, inclusion proofs, certified transactions and tokens
  (\<open>src/src/transaction/\<close>, \<open>src/src/api/inclusion_proof.rs\<close>, \<open>src/src/api/bft/uc_interner.rs\<close>).
  Fallible code that carries a mutable interner returns its result together with the interner. The
  random constructors are not modelled.
\<close>

section \<open>Identifiers\<close>

definition MINT_SUFFIX :: bytes where
  "MINT_SUFFIX =
     [0x9e, 0x82, 0x00, 0x2c, 0x14, 0x4d, 0x7c, 0x57, 0x96, 0xc5, 0x0f, 0x6d, 0xb5, 0x0a, 0x0c, 0x7b,
      0xbd, 0x7f, 0x71, 0x7a, 0xe3, 0xaf, 0x6c, 0x6c, 0x71, 0xa3, 0xe9, 0xeb, 0xa3, 0x02, 0x27, 0x30]"

record TokenId = tid_bytes :: bytes
record TokenType = tt_bytes :: bytes
record TokenSalt = salt_bytes :: bytes
record MintTransactionState = mts_hash :: DataHash

definition bytes32_field :: "string \<Rightarrow> Decoder \<Rightarrow> Error + bytes" where
  "bytes32_field what d =
     rbind (map_err Cbor (bytes_value d)) (\<lambda>bytes.
       if length bytes \<noteq> 32 then Err (InvalidLength what 32 (length bytes)) else Ok bytes)"

definition TokenSalt_to_cbor :: "TokenSalt \<Rightarrow> bytes" where
  "TokenSalt_to_cbor s = encode_byte_string (salt_bytes s)"

definition TokenSalt_from_cbor :: "Decoder \<Rightarrow> Error + TokenSalt" where
  "TokenSalt_from_cbor d = rbind (bytes32_field ''TokenSalt'' d) (\<lambda>b. Ok \<lparr>salt_bytes = b\<rparr>)"

definition TokenId_derive :: "sha2 \<Rightarrow> NetworkId \<Rightarrow> TokenSalt \<Rightarrow> TokenId" where
  "TokenId_derive sha2 network salt =
     \<lparr>tid_bytes = dh_data (finalize sha2 (update (encode_array
        [TokenSalt_to_cbor salt, encode_uint (ucast (net_id network))]) sha256_hasher))\<rparr>"

definition TokenId_to_cbor :: "TokenId \<Rightarrow> bytes" where
  "TokenId_to_cbor t = encode_byte_string (tid_bytes t)"

definition TokenId_from_cbor :: "Decoder \<Rightarrow> Error + TokenId" where
  "TokenId_from_cbor d = rbind (bytes32_field ''TokenId'' d) (\<lambda>b. Ok \<lparr>tid_bytes = b\<rparr>)"

definition TokenType_to_cbor :: "TokenType \<Rightarrow> bytes" where
  "TokenType_to_cbor t = encode_byte_string (tt_bytes t)"

definition TokenType_from_cbor :: "Decoder \<Rightarrow> Error + TokenType" where
  "TokenType_from_cbor d = rbind (map_err Cbor (bytes_value d)) (\<lambda>b. Ok \<lparr>tt_bytes = b\<rparr>)"

definition MintTransactionState_derive :: "sha2 \<Rightarrow> TokenId \<Rightarrow> MintTransactionState" where
  "MintTransactionState_derive sha2 token_id =
     \<lparr>mts_hash = sha256 sha2 (encode_array
        [encode_byte_string (tid_bytes token_id), encode_byte_string MINT_SUFFIX])\<rparr>"

section \<open>Transactions\<close>

text \<open>The values of the methods of the trait \<open>Transaction\<close>.\<close>

record Transaction =
  tx_lock_script :: EncodedPredicate
  tx_recipient :: EncodedPredicate
  tx_source_state_hash :: DataHash
  tx_state_hash :: DataHash
  tx_expires_at :: "u64 option"
  tx_cbor :: bytes

definition calculate_transaction_hash :: "sha2 \<Rightarrow> Transaction \<Rightarrow> DataHash" where
  "calculate_transaction_hash sha2 t = sha256 sha2 (tx_cbor t)"

definition MINTER_SECRET :: bytes where
  "MINTER_SECRET = ascii ''I_AM_UNIVERSAL_MINTER_FOR_''"

definition derive_private_key :: "sha2 \<Rightarrow> TokenId \<Rightarrow> DataHash" where
  "derive_private_key sha2 token_id =
     sha256 sha2 (encode_array [encode_byte_string MINTER_SECRET, TokenId_to_cbor token_id])"

definition Minter_public_key :: "sha2 \<Rightarrow> 'p k256 \<Rightarrow> TokenId \<Rightarrow> Error + PublicKey" where
  "Minter_public_key sha2 ec token_id =
     (let secret = derive_private_key sha2 token_id
      in rbind (ok_or (Crypto ''invalid minter key'') (k_secret_point ec (dh_data secret)))
           (\<lambda>q. PublicKey_from_bytes ec (k_compressed ec q)))"

definition Minter_signer :: "sha2 \<Rightarrow> 'p k256 \<Rightarrow> TokenId \<Rightarrow> Error + Secp256k1Signer" where
  "Minter_signer sha2 ec token_id =
     Secp256k1Signer_from_bytes ec (dh_data (derive_private_key sha2 token_id))"

definition MINT_TRANSACTION_TAG :: u64 where "MINT_TRANSACTION_TAG = 39041"
definition MINT_TRANSACTION_VERSION :: u64 where "MINT_TRANSACTION_VERSION = 2"

record MintTransaction =
  mt_network_id :: NetworkId
  mt_recipient :: EncodedPredicate
  mt_expires_at :: "u64 option"
  mt_salt :: TokenSalt
  mt_token_type :: TokenType
  mt_justification :: "bytes option"
  mt_data :: "bytes option"
  mt_token_id :: TokenId
  mt_lock_script :: EncodedPredicate
  mt_source_state :: MintTransactionState

definition MintTransaction_create ::
  "sha2 \<Rightarrow> 'p k256 \<Rightarrow> NetworkId \<Rightarrow> EncodedPredicate \<Rightarrow> TokenType \<Rightarrow> TokenSalt \<Rightarrow> bytes option \<Rightarrow>
   bytes option \<Rightarrow> u64 option \<Rightarrow> Error + MintTransaction"
where
  "MintTransaction_create sha2 ec network_id recipient token_type salt data justification expires_at =
     (let token_id = TokenId_derive sha2 network_id salt
      in rbind (Minter_public_key sha2 ec token_id) (\<lambda>key.
           let lock_script = SignaturePredicate_to_encoded \<lparr>sp_public_key = key\<rparr>;
               source_state = MintTransactionState_derive sha2 token_id
           in Ok \<lparr>mt_network_id = network_id, mt_recipient = recipient, mt_expires_at = expires_at,
                 mt_salt = salt, mt_token_type = token_type, mt_justification = justification,
                 mt_data = data, mt_token_id = token_id, mt_lock_script = lock_script,
                 mt_source_state = source_state\<rparr>))"

definition MintTransaction_to_cbor :: "MintTransaction \<Rightarrow> bytes" where
  "MintTransaction_to_cbor m =
     encode_tag MINT_TRANSACTION_TAG (encode_array
       [encode_uint MINT_TRANSACTION_VERSION,
        encode_uint (ucast (net_id (mt_network_id m))),
        EncodedPredicate_to_cbor (mt_recipient m),
        TokenSalt_to_cbor (mt_salt m),
        TokenType_to_cbor (mt_token_type m),
        encode_nullable (mt_justification m) encode_byte_string,
        encode_nullable (mt_data m) encode_byte_string,
        encode_nullable (mt_expires_at m) encode_uint])"

definition mint_network_field :: "Decoder \<Rightarrow> Error + NetworkId" where
  "mint_network_field d =
     rbind (map_err Cbor (uint_value d)) (\<lambda>v.
     rbind (u16_try_from ''network id exceeds 16 bits'' v) NetworkId_new)"

definition MintTransaction_from_cbor :: "sha2 \<Rightarrow> 'p k256 \<Rightarrow> Decoder \<Rightarrow> Error + MintTransaction" where
  "MintTransaction_from_cbor sha2 ec d =
     rbind (map_err Cbor (expect_tag d MINT_TRANSACTION_TAG)) (\<lambda>inner.
     rbind (map_err Cbor (array inner (Some 8))) (\<lambda>items.
     rbind (map_err Cbor (uint_value (items ! 0))) (\<lambda>version.
       if version \<noteq> MINT_TRANSACTION_VERSION
       then Err (UnexpectedValue ''unsupported MintTransaction version'')
       else
         rbind (mint_network_field (items ! 1)) (\<lambda>network_id.
         rbind (EncodedPredicate_from_cbor (items ! 2)) (\<lambda>recipient.
         rbind (TokenSalt_from_cbor (items ! 3)) (\<lambda>salt.
         rbind (TokenType_from_cbor (items ! 4)) (\<lambda>token_type.
         rbind (opt_bytes (items ! 5)) (\<lambda>justification.
         rbind (opt_bytes (items ! 6)) (\<lambda>data.
         rbind (opt_uint (items ! 7)) (\<lambda>expires_at.
           MintTransaction_create sha2 ec network_id recipient token_type salt data justification
             expires_at))))))))))"

definition mint_state_hash :: "sha2 \<Rightarrow> MintTransaction \<Rightarrow> DataHash" where
  "mint_state_hash sha2 m =
     sha256 sha2 (encode_array
       [encode_byte_string (imprint (mts_hash (mt_source_state m))),
        encode_byte_string (tid_bytes (mt_token_id m))])"

definition mint_view :: "sha2 \<Rightarrow> MintTransaction \<Rightarrow> Transaction" where
  "mint_view sha2 m =
     \<lparr>tx_lock_script = mt_lock_script m, tx_recipient = mt_recipient m,
      tx_source_state_hash = mts_hash (mt_source_state m), tx_state_hash = mint_state_hash sha2 m,
      tx_expires_at = mt_expires_at m, tx_cbor = MintTransaction_to_cbor m\<rparr>"

definition TRANSFER_TRANSACTION_TAG :: u64 where "TRANSFER_TRANSACTION_TAG = 39045"
definition TRANSFER_TRANSACTION_VERSION :: u64 where "TRANSFER_TRANSACTION_VERSION = 2"

record TransferTransaction =
  tr_source_state_hash :: DataHash
  tr_lock_script :: EncodedPredicate
  tr_recipient :: EncodedPredicate
  tr_expires_at :: "u64 option"
  tr_state_mask :: bytes
  tr_data :: "bytes option"

definition TransferTransaction_to_cbor :: "TransferTransaction \<Rightarrow> bytes" where
  "TransferTransaction_to_cbor t =
     encode_tag TRANSFER_TRANSACTION_TAG (encode_array
       [encode_uint TRANSFER_TRANSACTION_VERSION,
        EncodedPredicate_to_cbor (tr_recipient t),
        encode_byte_string (tr_state_mask t),
        encode_nullable (tr_data t) encode_byte_string,
        encode_nullable (tr_expires_at t) encode_uint])"

definition TransferTransaction_from_cbor ::
  "Decoder \<Rightarrow> DataHash \<Rightarrow> EncodedPredicate \<Rightarrow> Error + TransferTransaction" where
  "TransferTransaction_from_cbor d source_state_hash lock_script =
     rbind (map_err Cbor (expect_tag d TRANSFER_TRANSACTION_TAG)) (\<lambda>inner.
     rbind (map_err Cbor (array inner (Some 5))) (\<lambda>items.
     rbind (map_err Cbor (uint_value (items ! 0))) (\<lambda>version.
       if version \<noteq> TRANSFER_TRANSACTION_VERSION
       then Err (UnexpectedValue ''unsupported TransferTransaction version'')
       else
         rbind (EncodedPredicate_from_cbor (items ! 1)) (\<lambda>recipient.
         rbind (map_err Cbor (bytes_value (items ! 2))) (\<lambda>state_mask.
         rbind (opt_bytes (items ! 3)) (\<lambda>data.
         rbind (opt_uint (items ! 4)) (\<lambda>expires_at.
           Ok \<lparr>tr_source_state_hash = source_state_hash, tr_lock_script = lock_script,
               tr_recipient = recipient, tr_expires_at = expires_at, tr_state_mask = state_mask,
               tr_data = data\<rparr>)))))))"

definition transfer_state_hash :: "sha2 \<Rightarrow> TransferTransaction \<Rightarrow> DataHash" where
  "transfer_state_hash sha2 t =
     sha256 sha2 (encode_array
       [encode_byte_string (imprint (tr_source_state_hash t)), encode_byte_string (tr_state_mask t)])"

definition transfer_view :: "sha2 \<Rightarrow> TransferTransaction \<Rightarrow> Transaction" where
  "transfer_view sha2 t =
     \<lparr>tx_lock_script = tr_lock_script t, tx_recipient = tr_recipient t,
      tx_source_state_hash = tr_source_state_hash t, tx_state_hash = transfer_state_hash sha2 t,
      tx_expires_at = tr_expires_at t, tx_cbor = TransferTransaction_to_cbor t\<rparr>"

definition CertificationData_from_transaction :: "sha2 \<Rightarrow> Transaction \<Rightarrow> bytes \<Rightarrow> CertificationData" where
  "CertificationData_from_transaction sha2 t unlock_script =
     \<lparr>cd_lock_script = tx_lock_script t, cd_source_state_hash = tx_source_state_hash t,
      cd_transaction_hash = calculate_transaction_hash sha2 t, cd_expires_at = tx_expires_at t,
      cd_unlock_script = unlock_script\<rparr>"

section \<open>The interner of unicity certificates\<close>

record DecodeStats =
  ds_uc_decodes :: u64
  ds_uc_hits :: u64

record UcInterner =
  ui_index :: "(bytes \<times> UnicityCertificate) FifoIndex"
  ui_stats :: DecodeStats

definition DEFAULT_UC_INTERNER_CAPACITY :: usize where "DEFAULT_UC_INTERNER_CAPACITY = 256"

definition UcInterner_with_capacity :: "usize \<Rightarrow> UcInterner" where
  "UcInterner_with_capacity capacity =
     \<lparr>ui_index = FifoIndex_new capacity, ui_stats = \<lparr>ds_uc_decodes = 0, ds_uc_hits = 0\<rparr>\<rparr>"

definition UcInterner_new :: UcInterner where
  "UcInterner_new = UcInterner_with_capacity DEFAULT_UC_INTERNER_CAPACITY"

definition fingerprint :: "bytes \<Rightarrow> u64" where
  "fingerprint bytes = fnv_eat 0xcbf29ce484222325 bytes"

definition UcInterner_decode :: "UcInterner \<Rightarrow> Decoder \<Rightarrow> (UcInterner, Error, UnicityCertificate) st" where
  "UcInterner_decode u d =
     (let bytes = dec_bytes d; hash = fingerprint bytes
      in case fi_lookup (ui_index u) hash (\<lambda>(b, uc). b = bytes) of
           (found, index) \<Rightarrow>
             let u1 = u\<lparr>ui_index := index\<rparr>
             in case found of
                  Some (_, uc) \<Rightarrow>
                    (Ok uc, u1\<lparr>ui_stats := (ui_stats u1)\<lparr>ds_uc_hits := ds_uc_hits (ui_stats u1) + 1\<rparr>\<rparr>)
                | None \<Rightarrow>
                    let u2 = u1\<lparr>ui_stats := (ui_stats u1)\<lparr>ds_uc_decodes := ds_uc_decodes (ui_stats u1) + 1\<rparr>\<rparr>
                    in case UnicityCertificate_from_cbor d of
                         Inl e \<Rightarrow> (Err e, u2)
                       | Inr uc \<Rightarrow> (Ok uc, u2\<lparr>ui_index := fi_insert (ui_index u2) hash (bytes, uc)\<rparr>))"

section \<open>Inclusion proofs\<close>

definition INCLUSION_PROOF_TAG :: u64 where "INCLUSION_PROOF_TAG = 39033"
definition INCLUSION_PROOF_VERSION :: u64 where "INCLUSION_PROOF_VERSION = 1"

record InclusionProof =
  ip_certification_data :: CertificationData
  ip_reference_time :: u64
  ip_inclusion_certificate :: InclusionCertificate
  ip_unicity_certificate :: UnicityCertificate

record DecodedParts =
  dp_certification_data :: "CertificationData option"
  dp_reference_time :: "u64 option"
  dp_inclusion_certificate :: "InclusionCertificate option"
  dp_unicity_certificate :: UnicityCertificate

text \<open>The part of the decoder before the unicity certificate, which the interner may supply.\<close>

definition DecodedParts_head ::
  "Decoder \<Rightarrow> Error + (CertificationData option \<times> u64 option \<times> InclusionCertificate option \<times> Decoder)" where
  "DecodedParts_head d =
     rbind (map_err Cbor (expect_tag d INCLUSION_PROOF_TAG)) (\<lambda>inner.
     rbind (map_err Cbor (array inner (Some 5))) (\<lambda>items.
     rbind (map_err Cbor (uint_value (items ! 0))) (\<lambda>version.
       if version \<noteq> INCLUSION_PROOF_VERSION
       then Err (UnexpectedValue ''unsupported InclusionProof version'')
       else
         rbind (nullable (items ! 1) CertificationData_from_cbor) (\<lambda>certification_data.
         rbind (opt_uint (items ! 2)) (\<lambda>reference_time.
         rbind (nullable (items ! 3) (\<lambda>x. rbind (map_err Cbor (bytes_value x)) InclusionCertificate_decode))
           (\<lambda>inclusion_certificate.
           let present = (if certification_data \<noteq> None then 1 else 0 :: nat) +
                 (if reference_time \<noteq> None then 1 else 0) + (if inclusion_certificate \<noteq> None then 1 else 0)
           in if present \<noteq> 0 \<and> present \<noteq> 3
              then Err (UnexpectedValue ''InclusionProof must carry certification data, reference time and inclusion certificate together, or none of them'')
              else Ok (certification_data, reference_time, inclusion_certificate, items ! 4)))))))"

definition DecodedParts_from_cbor ::
  "Decoder \<Rightarrow> UcInterner option \<Rightarrow> (UcInterner option, Error, DecodedParts) st" where
  "DecodedParts_from_cbor d interner =
     (case DecodedParts_head d of
        Inl e \<Rightarrow> (Err e, interner)
      | Inr (certification_data, reference_time, inclusion_certificate, uc_item) \<Rightarrow>
          sbind (case interner of
                   Some i \<Rightarrow> map_prod id Some (UcInterner_decode i uc_item)
                 | None \<Rightarrow> (UnicityCertificate_from_cbor uc_item, None)) (\<lambda>uc interner'.
            (Ok \<lparr>dp_certification_data = certification_data, dp_reference_time = reference_time,
                 dp_inclusion_certificate = inclusion_certificate, dp_unicity_certificate = uc\<rparr>,
             interner')))"

definition into_certified :: "DecodedParts \<Rightarrow> Error + InclusionProof" where
  "into_certified p =
     (case (dp_certification_data p, dp_reference_time p, dp_inclusion_certificate p) of
        (Some certification_data, Some reference_time, Some inclusion_certificate) \<Rightarrow>
          Ok \<lparr>ip_certification_data = certification_data, ip_reference_time = reference_time,
              ip_inclusion_certificate = inclusion_certificate,
              ip_unicity_certificate = dp_unicity_certificate p\<rparr>
      | _ \<Rightarrow> Err (UnexpectedValue ''expected a certified leaf, but the inclusion proof describes none''))"

definition InclusionProof_from_cbor :: "Decoder \<Rightarrow> Error + InclusionProof" where
  "InclusionProof_from_cbor d = rbind (fst (DecodedParts_from_cbor d None)) into_certified"

definition InclusionProof_from_cbor_interned ::
  "Decoder \<Rightarrow> UcInterner \<Rightarrow> (UcInterner, Error, InclusionProof) st" where
  "InclusionProof_from_cbor_interned d interner =
     (case DecodedParts_from_cbor d (Some interner) of
        (r, interner') \<Rightarrow> (rbind r into_certified, the interner'))"

definition InclusionProof_to_cbor :: "InclusionProof \<Rightarrow> bytes" where
  "InclusionProof_to_cbor p =
     encode_tag INCLUSION_PROOF_TAG (encode_array
       [encode_uint INCLUSION_PROOF_VERSION,
        CertificationData_to_cbor (ip_certification_data p),
        encode_uint (ip_reference_time p),
        encode_byte_string (InclusionCertificate_encode (ip_inclusion_certificate p)),
        UnicityCertificate_to_cbor (ip_unicity_certificate p)])"

section \<open>Certified transactions and tokens\<close>

record CertifiedMintTransaction =
  cm_transaction :: MintTransaction
  cm_inclusion_proof :: InclusionProof

record CertifiedTransferTransaction =
  ct_transaction :: TransferTransaction
  ct_inclusion_proof :: InclusionProof

definition CertifiedMintTransaction_from_cbor ::
  "sha2 \<Rightarrow> 'p k256 \<Rightarrow> Decoder \<Rightarrow> Error + CertifiedMintTransaction" where
  "CertifiedMintTransaction_from_cbor sha2 ec d =
     rbind (map_err Cbor (array d (Some 2))) (\<lambda>items.
     rbind (MintTransaction_from_cbor sha2 ec (items ! 0)) (\<lambda>transaction.
     rbind (InclusionProof_from_cbor (items ! 1)) (\<lambda>inclusion_proof.
       Ok \<lparr>cm_transaction = transaction, cm_inclusion_proof = inclusion_proof\<rparr>)))"

definition CertifiedMintTransaction_from_cbor_interned ::
  "sha2 \<Rightarrow> 'p k256 \<Rightarrow> Decoder \<Rightarrow> UcInterner \<Rightarrow> (UcInterner, Error, CertifiedMintTransaction) st" where
  "CertifiedMintTransaction_from_cbor_interned sha2 ec d u =
     sbind (map_err Cbor (array d (Some 2)), u) (\<lambda>items u.
     sbind (MintTransaction_from_cbor sha2 ec (items ! 0), u) (\<lambda>transaction u.
     sbind (InclusionProof_from_cbor_interned (items ! 1) u) (\<lambda>inclusion_proof u.
       (Ok \<lparr>cm_transaction = transaction, cm_inclusion_proof = inclusion_proof\<rparr>, u))))"

definition CertifiedMintTransaction_to_cbor :: "CertifiedMintTransaction \<Rightarrow> bytes" where
  "CertifiedMintTransaction_to_cbor c =
     encode_array [MintTransaction_to_cbor (cm_transaction c),
       InclusionProof_to_cbor (cm_inclusion_proof c)]"

definition CertifiedTransferTransaction_from_cbor ::
  "Decoder \<Rightarrow> DataHash \<Rightarrow> EncodedPredicate \<Rightarrow> Error + CertifiedTransferTransaction" where
  "CertifiedTransferTransaction_from_cbor d source_state_hash lock_script =
     rbind (map_err Cbor (array d (Some 2))) (\<lambda>items.
     rbind (TransferTransaction_from_cbor (items ! 0) source_state_hash lock_script) (\<lambda>transaction.
     rbind (InclusionProof_from_cbor (items ! 1)) (\<lambda>inclusion_proof.
       Ok \<lparr>ct_transaction = transaction, ct_inclusion_proof = inclusion_proof\<rparr>)))"

definition CertifiedTransferTransaction_from_cbor_interned ::
  "Decoder \<Rightarrow> DataHash \<Rightarrow> EncodedPredicate \<Rightarrow> UcInterner \<Rightarrow>
   (UcInterner, Error, CertifiedTransferTransaction) st" where
  "CertifiedTransferTransaction_from_cbor_interned d source_state_hash lock_script u =
     sbind (map_err Cbor (array d (Some 2)), u) (\<lambda>items u.
     sbind (TransferTransaction_from_cbor (items ! 0) source_state_hash lock_script, u) (\<lambda>transaction u.
     sbind (InclusionProof_from_cbor_interned (items ! 1) u) (\<lambda>inclusion_proof u.
       (Ok \<lparr>ct_transaction = transaction, ct_inclusion_proof = inclusion_proof\<rparr>, u))))"

definition CertifiedTransferTransaction_to_cbor :: "CertifiedTransferTransaction \<Rightarrow> bytes" where
  "CertifiedTransferTransaction_to_cbor c =
     encode_array [TransferTransaction_to_cbor (ct_transaction c),
       InclusionProof_to_cbor (ct_inclusion_proof c)]"

definition TOKEN_TAG :: u64 where "TOKEN_TAG = 39040"
definition TOKEN_VERSION :: u64 where "TOKEN_VERSION = 2"

record Token =
  tk_genesis :: CertifiedMintTransaction
  tk_transactions :: "CertifiedTransferTransaction list"

definition latest_state :: "sha2 \<Rightarrow> Token \<Rightarrow> DataHash \<times> EncodedPredicate" where
  "latest_state sha2 token =
     (if tk_transactions token \<noteq> [] then
        let t = last (tk_transactions token)
        in (transfer_state_hash sha2 (ct_transaction t), tr_recipient (ct_transaction t))
      else (mint_state_hash sha2 (cm_transaction (tk_genesis token)),
            mt_recipient (cm_transaction (tk_genesis token))))"

text \<open>The loop over the transfers, which links each to the state before it.\<close>

fun decode_transfers ::
  "sha2 \<Rightarrow> Decoder list \<Rightarrow> DataHash \<Rightarrow> EncodedPredicate \<Rightarrow> UcInterner \<Rightarrow>
   (UcInterner, Error, CertifiedTransferTransaction list) st"
where
  "decode_transfers sha2 [] prev_state_hash prev_lock_script u = (Ok [], u)"
| "decode_transfers sha2 (t # ts) prev_state_hash prev_lock_script u =
     sbind (CertifiedTransferTransaction_from_cbor_interned t prev_state_hash prev_lock_script u) (\<lambda>ct u.
     sbind (decode_transfers sha2 ts (transfer_state_hash sha2 (ct_transaction ct))
              (tr_recipient (ct_transaction ct)) u) (\<lambda>cts u.
       (Ok (ct # cts), u)))"

definition Token_from_cbor_interned ::
  "sha2 \<Rightarrow> 'p k256 \<Rightarrow> bytes \<Rightarrow> DecodeLimits \<Rightarrow> UcInterner \<Rightarrow> (UcInterner, Error, Token) st" where
  "Token_from_cbor_interned sha2 ec bytes limits u =
     (let d = with_limits bytes limits
      in sbind (map_err Cbor (finish d), u) (\<lambda>_ u.
         sbind (map_err Cbor (expect_tag d TOKEN_TAG), u) (\<lambda>inner u.
         sbind (map_err Cbor (array inner (Some 3)), u) (\<lambda>items u.
         sbind (map_err Cbor (uint_value (items ! 0)), u) (\<lambda>version u.
           if version \<noteq> TOKEN_VERSION then (Err (UnexpectedValue ''unsupported Token version''), u)
           else
             sbind (CertifiedMintTransaction_from_cbor_interned sha2 ec (items ! 1) u) (\<lambda>genesis u.
             sbind (map_err Cbor (array (items ! 2) None), u) (\<lambda>ts u.
             sbind (decode_transfers sha2 ts (mint_state_hash sha2 (cm_transaction genesis))
                      (mt_recipient (cm_transaction genesis)) u) (\<lambda>transactions u.
               (Ok \<lparr>tk_genesis = genesis, tk_transactions = transactions\<rparr>, u)))))))))"

definition Token_from_cbor_with_limits ::
  "sha2 \<Rightarrow> 'p k256 \<Rightarrow> bytes \<Rightarrow> DecodeLimits \<Rightarrow> Error + Token" where
  "Token_from_cbor_with_limits sha2 ec bytes limits =
     fst (Token_from_cbor_interned sha2 ec bytes limits UcInterner_new)"

definition Token_from_cbor :: "sha2 \<Rightarrow> 'p k256 \<Rightarrow> bytes \<Rightarrow> Error + Token" where
  "Token_from_cbor sha2 ec bytes = Token_from_cbor_with_limits sha2 ec bytes DEFAULT_limits"

definition Token_from_cbor_stats :: "sha2 \<Rightarrow> 'p k256 \<Rightarrow> bytes \<Rightarrow> Error + (Token \<times> DecodeStats)" where
  "Token_from_cbor_stats sha2 ec bytes =
     (case Token_from_cbor_interned sha2 ec bytes DEFAULT_limits UcInterner_new of
        (r, u) \<Rightarrow> rbind r (\<lambda>token. Ok (token, ui_stats u)))"

definition Token_to_cbor :: "Token \<Rightarrow> bytes" where
  "Token_to_cbor token =
     encode_tag TOKEN_TAG (encode_array
       [encode_uint TOKEN_VERSION,
        CertifiedMintTransaction_to_cbor (tk_genesis token),
        encode_array (map CertifiedTransferTransaction_to_cbor (tk_transactions token))])"

end
