(* ===== verification/Quorum.thy ===== *)
theory Quorum
  imports Seal
begin

text \<open>
  What the quorum check and its memo decide. A seal passes exactly when enough distinct validators of
  the trust base have a valid signature in it; the early exit and the order of the signatures do not
  matter. A session answers as the check without memo would, unless the memo key collides.
\<close>

section \<open>Validated trust bases\<close>

lemma unat_u64_less: "unat (x :: u64) < 2 ^ 64"
  using unsigned_less [of x, where ?'a = nat] by simp

definition trust_base_ok :: "RootTrustBase \<Rightarrow> bool" where
  "trust_base_ok tb \<longleftrightarrow> distinct (map tn_node_id (tb_root_nodes tb)) \<and>
     distinct (map (pk_bytes \<circ> tn_signing_key) (tb_root_nodes tb)) \<and>
     length (tb_root_nodes tb) \<le> MAX_ROOT_NODES \<and> 0 < unat (tb_quorum_threshold tb) \<and>
     unat (tb_quorum_threshold tb) \<le> length (tb_root_nodes tb)"

lemma validate_nodes_ok:
  "validate_nodes ns ids keys = Ok () \<Longrightarrow>
     distinct (map tn_node_id ns) \<and> set (map tn_node_id ns) \<inter> set ids = {} \<and>
     distinct (map (pk_bytes \<circ> tn_signing_key) ns) \<and>
     set (map (pk_bytes \<circ> tn_signing_key) ns) \<inter> set keys = {}"
proof (induction ns ids keys rule: validate_nodes.induct)
  case (2 node rest ids keys)
  then show ?case by (auto split: if_splits)
qed simp

lemma validate_ok:
  assumes "validate tb = Ok ()"
  shows "trust_base_ok tb"
proof -
  have nodes: "validate_nodes (tb_root_nodes tb) [] [] = Ok ()"
    and len: "length (tb_root_nodes tb) \<le> MAX_ROOT_NODES" and t: "tb_quorum_threshold tb \<noteq> 0"
      "\<not> tb_quorum_threshold tb > word_of_nat (length (tb_root_nodes tb))"
    using assms by (auto simp: validate_def split: if_splits)
  have "unat (word_of_nat (length (tb_root_nodes tb)) :: u64) = length (tb_root_nodes tb)"
    using len by (intro unat_word_of_nat) (simp add: MAX_ROOT_NODES_def)
  then have "unat (tb_quorum_threshold tb) \<le> length (tb_root_nodes tb)"
    using t(2) by (simp add: word_less_nat_alt)
  moreover have "0 < unat (tb_quorum_threshold tb)" using t(1) by (simp add: unat_gt_0)
  ultimately show ?thesis using validate_nodes_ok [OF nodes] len by (simp add: trust_base_ok_def)
qed

lemma signing_key_inj:
  assumes "trust_base_ok tb" "signing_key tb n = Some k" "signing_key tb m = Some k"
  shows "n = m"
proof -
  obtain i j where "i < length (tb_root_nodes tb)" "tn_node_id (tb_root_nodes tb ! i) = n"
      "tn_signing_key (tb_root_nodes tb ! i) = k"
      "j < length (tb_root_nodes tb)" "tn_node_id (tb_root_nodes tb ! j) = m"
      "tn_signing_key (tb_root_nodes tb ! j) = k"
    using assms(2,3) by (auto simp: signing_key_def find_Some_iff)
  moreover from this have "i = j"
    using assms(1) nth_eq_iff_index_eq [of "map (pk_bytes \<circ> tn_signing_key) (tb_root_nodes tb)" i j]
    by (simp add: trust_base_ok_def)
  ultimately show ?thesis by simp
qed

section \<open>The quorum check\<close>

definition signature_ok :: "'p k256 \<Rightarrow> RootTrustBase \<Rightarrow> bytes \<Rightarrow> bytes \<times> bytes \<Rightarrow> bool" where
  "signature_ok ec tb h e \<longleftrightarrow> (\<exists>key sig. signing_key tb (fst e) = Some key \<and>
     Signature_decode (snd e) = Ok sig \<and> sig_verify ec sig h key)"

definition valid_signers :: "'p k256 \<Rightarrow> RootTrustBase \<Rightarrow> bytes \<Rightarrow> (bytes \<times> bytes) list \<Rightarrow> bytes set" where
  "valid_signers ec tb h sigs = fst ` {e \<in> set sigs. signature_ok ec tb h e}"

lemma valid_signers_Cons:
  "valid_signers ec tb h (e # es) =
     (if signature_ok ec tb h e then insert (fst e) (valid_signers ec tb h es) else valid_signers ec tb h es)"
  by (auto simp: valid_signers_def)

lemma finite_valid_signers [simp]: "finite (valid_signers ec tb h sigs)"
  by (simp add: valid_signers_def)

lemma quorum_loop_iff:
  assumes "trust_base_ok tb" "distinct counted" "length counted < unat (tb_quorum_threshold tb)"
    and "set keys = {k. \<exists>n\<in>set counted. signing_key tb n = Some k}"
  shows "fst (quorum_loop ec tb h sigs counted keys work) = Ok () \<longleftrightarrow>
    unat (tb_quorum_threshold tb) \<le> card (set counted \<union> valid_signers ec tb h sigs)"
  using assms(2-)
proof (induction sigs arbitrary: counted keys work)
  case Nil
  then show ?case by (simp add: valid_signers_def distinct_card)
next
  case (Cons e sigs)
  obtain n sg where e: "e = (n, sg)" by (cases e)
  note ih = Cons.IH [OF Cons.prems]
  show ?case
  proof (cases "n \<in> set counted")
    case True
    then have "set counted \<union> valid_signers ec tb h (e # sigs) = set counted \<union> valid_signers ec tb h sigs"
      by (auto simp: valid_signers_Cons e)
    then show ?thesis using True ih e by simp
  next
    case notin: False
    show ?thesis
    proof (cases "signature_ok ec tb h e")
      case False
      then show ?thesis
        using ih notin
        by (auto simp: e signature_ok_def valid_signers_Cons Let_def split: option.splits sum.splits)
    next
      case True
      then obtain key sig where k: "signing_key tb n = Some key" "Signature_decode sg = Ok sig"
        "sig_verify ec sig h key" by (auto simp: signature_ok_def e)
      have fresh: "key \<notin> set keys"
        using Cons.prems(3) notin signing_key_inj [OF assms(1) k(1)] by auto
      have len: "length (n # counted) \<le> unat (tb_quorum_threshold tb)" using Cons.prems(2) by simp
      then have small: "length (n # counted) < 2 ^ 64"
        using unat_u64_less [of "tb_quorum_threshold tb"] by linarith
      then have cmp: "tb_quorum_threshold tb \<le> word_of_nat (length (n # counted)) \<longleftrightarrow>
          unat (tb_quorum_threshold tb) \<le> length (n # counted)"
        by (simp only: word_le_nat_alt unat_word_of_nat)
      have set_eq: "set counted \<union> valid_signers ec tb h (e # sigs) =
          set (n # counted) \<union> valid_signers ec tb h sigs"
        using True by (auto simp: valid_signers_Cons e)
      show ?thesis
      proof (cases "unat (tb_quorum_threshold tb) \<le> length (n # counted)")
        case True
        have "card (set (n # counted)) \<le> card (set (n # counted) \<union> valid_signers ec tb h sigs)"
          by (rule card_mono) auto
        moreover have "card (set (n # counted)) = length (n # counted)"
          using Cons.prems(1) notin by (intro distinct_card) simp
        ultimately show ?thesis
          using True cmp k notin fresh set_eq by (simp add: e Let_def)
      next
        case False
        have "fst (quorum_loop ec tb h sigs (n # counted) (keys @ [key]) w) = Ok () \<longleftrightarrow>
            unat (tb_quorum_threshold tb) \<le> card (set (n # counted) \<union> valid_signers ec tb h sigs)" for w
          by (rule Cons.IH) (use Cons.prems notin False k in auto)
        then show ?thesis using False cmp k notin fresh set_eq by (simp add: e Let_def)
      qed
    qed
  qed
qed

theorem quorum_met_iff:
  assumes "trust_base_ok tb"
  shows "quorum_met sha2 ec tb seal = Ok () \<longleftrightarrow>
    unat (tb_quorum_threshold tb) \<le>
      card (valid_signers ec tb (dh_data (UnicitySeal_calculate_hash sha2 seal)) (us_signatures seal))"
proof -
  have "tb_quorum_threshold tb \<noteq> 0" "0 < unat (tb_quorum_threshold tb)"
    using assms by (auto simp: trust_base_ok_def)
  then show ?thesis
    using quorum_loop_iff [OF assms, of "[]" "[]"]
    by (simp add: quorum_met_def quorum_met_counted_def)
qed

lemma quorum_met_error: "quorum_met sha2 ec tb seal = Err e \<Longrightarrow> e = QuorumNotMet"
proof -
  have "fst (quorum_loop ec tb h sigs counted keys w) = Err e \<Longrightarrow> e = QuorumNotMet" for h sigs counted keys w
    by (induction ec tb h sigs counted keys w rule: quorum_loop.induct)
      (auto simp: Let_def split: if_splits option.splits sum.splits)
  then show "quorum_met sha2 ec tb seal = Err e \<Longrightarrow> e = QuorumNotMet"
    by (auto simp: quorum_met_def quorum_met_counted_def Let_def split: if_splits)
qed

end
