(* ===== verification/Verify.thy ===== *)
theory Verify
  imports Transactions Quorum
begin

text \<open>
  The verification engine (\<open>src/src/verify/\<close>): unicity certificates, inclusion proofs, tokens, the
  registry of application verifiers, and non-inclusion proofs (\<open>src/src/api/non_inclusion_proof.rs\<close>).
  The seal session is passed and returned. The trust base, the policy and the registry of a
  verification context are constant, so they are arguments; the context record holds what changes.
\<close>

section \<open>Unicity certificates\<close>

definition AGGREGATION_PARTITION_ID :: u32 where "AGGREGATION_PARTITION_ID = 7"

definition verify_unicity_certificate ::
  "sha2 \<Rightarrow> 'p k256 \<Rightarrow> SealSession \<Rightarrow> UnicityCertificate \<Rightarrow> bytes \<Rightarrow> (SealSession, VerificationError, unit) st"
where
  "verify_unicity_certificate sha2 ec s uc policy =
     (if utc_partition_identifier (uc_unicity_tree_certificate uc) \<noteq> AGGREGATION_PARTITION_ID
      then (Err PartitionMismatch, s)
      else case body_verified s uc policy of
        (hit, s) \<Rightarrow>
          if hit then (Ok (), s)
          else
            let s = note_body_check s; seal = uc_unicity_seal uc
            in sbind (map_err (\<lambda>_. CertificateBodyInvalid) (check_body uc), s) (\<lambda>_ s.
               sbind (check_seal_shape seal, s) (\<lambda>_ s.
                 if us_network_id seal \<noteq> tb_network_id (ss_trust_base s)
                 then (Err SealNetworkMismatch, s)
                 else
                   sbind (map_err (\<lambda>_. SealRootMismatch) (computed_seal_hash sha2 uc), s) (\<lambda>computed s.
                     if dh_data computed \<noteq> us_hash seal then (Err SealRootMismatch, s)
                     else
                       sbind (verify_quorum_under sha2 ec s seal policy) (\<lambda>_ s.
                         (Ok (), remember_body s uc policy))))))"

section \<open>Inclusion proofs\<close>

definition verify_predicate ::
  "sha2 \<Rightarrow> 'p k256 \<Rightarrow> EncodedPredicate \<Rightarrow> u64 \<Rightarrow> DataHash \<Rightarrow> DataHash \<Rightarrow> bytes \<Rightarrow> VerificationError + unit"
where
  "verify_predicate sha2 ec lock_script reference_time source_state_hash transaction_hash unlock_script =
     rbind (map_err (\<lambda>_. NotAuthenticated) (SignaturePredicate_from_encoded ec lock_script)) (\<lambda>predicate.
       if verify_signature_unlock sha2 ec (sp_public_key predicate) source_state_hash transaction_hash
            unlock_script
       then Ok () else Err NotAuthenticated)"

text \<open>The checks of a membership proof that do not involve the certificate, in their order.\<close>

definition membership_checks ::
  "sha2 \<Rightarrow> InclusionProof \<Rightarrow> StateId \<Rightarrow> u64 \<Rightarrow> VerificationError + unit" where
  "membership_checks sha2 proof state_id reference_time =
     (let inclusion_certificate = ip_inclusion_certificate proof;
          certification_data = ip_certification_data proof;
          uc = ip_unicity_certificate proof
      in if StateId_derive sha2 (cd_lock_script certification_data) (cd_source_state_hash certification_data)
            \<noteq> state_id then Err CertificationDataMismatch
         else if (case cd_expires_at certification_data of
                    Some expires_at \<Rightarrow> reference_time \<ge> expires_at | None \<Rightarrow> False)
         then Err RequestExpired
         else
           rbind (map_err (\<lambda>_. PathInvalid) (ir_root_hash (uc_input_record uc))) (\<lambda>root_hash.
           rbind (ok_or PathInvalid root_hash) (\<lambda>root.
           rbind (map_err (\<lambda>_. PathInvalid) (DataHash_new Sha256 root)) (\<lambda>expected_root.
             if ip_reference_time proof \<noteq> reference_time then Err ReferenceTimeMismatch
             else if reference_time > ir_timestamp (uc_input_record uc) then Err ReferenceTimeAfterRound
             else
               let leaf_value = calculate_leaf_value sha2 (cd_transaction_hash certification_data) reference_time;
                   shard = stc_shard (uc_shard_tree_certificate uc)
               in if \<not> InclusionCertificate_verify sha2 inclusion_certificate state_id leaf_value expected_root
                  then Err PathInvalid
                  else if sh_length shard \<noteq> 0 \<and> \<not> is_prefix_of shard (sid_bytes state_id)
                  then Err ShardMismatch
                  else Ok ()))))"

definition verify_membership_under ::
  "sha2 \<Rightarrow> 'p k256 \<Rightarrow> SealSession \<Rightarrow> InclusionProof \<Rightarrow> StateId \<Rightarrow> u64 \<Rightarrow> bytes \<Rightarrow>
   (SealSession, VerificationError, unit) st" where
  "verify_membership_under sha2 ec s proof state_id reference_time policy =
     sbind (ensure_trust_base s) (\<lambda>_ s.
     sbind (membership_checks sha2 proof state_id reference_time, s) (\<lambda>_ s.
       verify_unicity_certificate sha2 ec s (ip_unicity_certificate proof) policy))"

definition verify_membership_in ::
  "sha2 \<Rightarrow> 'p k256 \<Rightarrow> SealSession \<Rightarrow> InclusionProof \<Rightarrow> StateId \<Rightarrow> u64 \<Rightarrow>
   (SealSession, VerificationError, unit) st" where
  "verify_membership_in sha2 ec s proof state_id reference_time =
     verify_membership_under sha2 ec s proof state_id reference_time NO_POLICY"

definition verify_inclusion_proof_in ::
  "sha2 \<Rightarrow> 'p k256 \<Rightarrow> SealSession \<Rightarrow> InclusionProof \<Rightarrow> StateId \<Rightarrow> u64 \<Rightarrow>
   (SealSession, VerificationError, unit) st" where
  "verify_inclusion_proof_in sha2 ec s proof state_id reference_time =
     sbind (verify_membership_in sha2 ec s proof state_id reference_time) (\<lambda>_ s.
       let cd = ip_certification_data proof
       in (verify_predicate sha2 ec (cd_lock_script cd) reference_time (cd_source_state_hash cd)
             (cd_transaction_hash cd) (cd_unlock_script cd), s))"

definition verify_inclusion_proof_for ::
  "sha2 \<Rightarrow> 'p k256 \<Rightarrow> RootTrustBase \<Rightarrow> InclusionProof \<Rightarrow> StateId \<Rightarrow> u64 \<Rightarrow> VerificationError + unit" where
  "verify_inclusion_proof_for sha2 ec tb proof state_id reference_time =
     fst (verify_inclusion_proof_in sha2 ec (SealSession_new tb) proof state_id reference_time)"

definition InclusionProof_verify_for ::
  "sha2 \<Rightarrow> 'p k256 \<Rightarrow> InclusionProof \<Rightarrow> StateId \<Rightarrow> u64 \<Rightarrow> RootTrustBase \<Rightarrow> VerificationError + unit" where
  "InclusionProof_verify_for sha2 ec proof state_id reference_time tb =
     verify_inclusion_proof_for sha2 ec tb proof state_id reference_time"

definition verify_inclusion_proof ::
  "sha2 \<Rightarrow> 'p k256 \<Rightarrow> SealSession \<Rightarrow> InclusionProof \<Rightarrow> Transaction \<Rightarrow> u64 \<Rightarrow>
   (SealSession, VerificationError, unit) st" where
  "verify_inclusion_proof sha2 ec s proof transaction reference_time =
     (let certification_data = ip_certification_data proof
      in if cd_lock_script certification_data \<noteq> tx_lock_script transaction
            \<or> cd_source_state_hash certification_data \<noteq> tx_source_state_hash transaction
            \<or> cd_expires_at certification_data \<noteq> tx_expires_at transaction
         then (Err CertificationDataMismatch, s)
         else if cd_transaction_hash certification_data \<noteq> calculate_transaction_hash sha2 transaction
         then (Err TransactionHashMismatch, s)
         else
           let state_id = StateId_derive sha2 (tx_lock_script transaction) (tx_source_state_hash transaction)
           in verify_inclusion_proof_in sha2 ec s proof state_id reference_time)"

section \<open>Verification context\<close>

record VerificationLimits =
  vl_decode :: DecodeLimits
  vl_max_embedded_token_depth :: usize
  vl_max_total_embedded_token_bytes :: usize
  vl_max_token_transfers :: usize

definition VerificationLimits_DEFAULT :: VerificationLimits where
  "VerificationLimits_DEFAULT =
     \<lparr>vl_decode = DEFAULT_limits, vl_max_embedded_token_depth = 32,
      vl_max_total_embedded_token_bytes = 16 * 1024 * 1024, vl_max_token_transfers = 4096\<rparr>"

record VerificationPolicy =
  vp_limits :: VerificationLimits
  vp_require_token_data_verifier :: bool

definition VerificationPolicy_default :: VerificationPolicy where
  "VerificationPolicy_default =
     \<lparr>vp_limits = VerificationLimits_DEFAULT, vp_require_token_data_verifier = False\<rparr>"

record VerificationContext =
  vc_seals :: SealSession
  vc_interner :: UcInterner
  vc_total_embedded_token_bytes :: usize

definition VerificationContext_with_memo_capacity :: "RootTrustBase \<Rightarrow> usize \<Rightarrow> VerificationContext" where
  "VerificationContext_with_memo_capacity tb capacity =
     \<lparr>vc_seals = SealSession_with_capacity tb capacity, vc_interner = UcInterner_with_capacity capacity,
      vc_total_embedded_token_bytes = 0\<rparr>"

definition VerificationContext_with_session :: "SealSession \<Rightarrow> VerificationContext" where
  "VerificationContext_with_session s =
     \<lparr>vc_seals = s, vc_interner = UcInterner_new, vc_total_embedded_token_bytes = 0\<rparr>"

text \<open>Work on the session inside a context.\<close>

definition with_seals ::
  "(SealSession \<Rightarrow> (SealSession, 'e, 'a) st) \<Rightarrow> VerificationContext \<Rightarrow> (VerificationContext, 'e, 'a) st" where
  "with_seals f c = map_prod id (\<lambda>s. c\<lparr>vc_seals := s\<rparr>) (f (vc_seals c))"

section \<open>The registry of application verifiers\<close>

text \<open>
  A verifier sees the constants of the context (trust base and policy), the context itself, and the
  method \<open>verify_embedded_token\<close> at the nesting depth at which the verifier runs.
\<close>

type_synonym context_result = "(VerificationContext, VerificationError, unit) st"
type_synonym embedded_verifier = "Token \<Rightarrow> usize \<Rightarrow> VerificationContext \<Rightarrow> context_result"
type_synonym app_verifier =
  "RootTrustBase \<Rightarrow> VerificationPolicy \<Rightarrow> embedded_verifier \<Rightarrow> CertifiedMintTransaction \<Rightarrow>
   VerificationContext \<Rightarrow> context_result"

record MintJustificationVerifier =
  mv_tag :: u64
  mv_verify :: app_verifier

record TokenDataVerifier =
  dv_token_type :: TokenType
  dv_verify :: app_verifier

record MintJustificationRegistry =
  mr_verifiers :: "u64 \<rightharpoonup> app_verifier"
  mr_data_verifiers :: "bytes \<rightharpoonup> app_verifier"

definition MintJustificationRegistry_new :: MintJustificationRegistry where
  "MintJustificationRegistry_new = \<lparr>mr_verifiers = Map.empty, mr_data_verifiers = Map.empty\<rparr>"

definition MintJustificationRegistry_register ::
  "MintJustificationRegistry \<Rightarrow> MintJustificationVerifier \<Rightarrow> Error + MintJustificationRegistry" where
  "MintJustificationRegistry_register r verifier =
     (let tag = mv_tag verifier
      in if mr_verifiers r tag \<noteq> None
         then Err (UnexpectedValue ''duplicate mint justification verifier tag'')
         else Ok (r\<lparr>mr_verifiers := (mr_verifiers r)(tag \<mapsto> mv_verify verifier)\<rparr>))"

definition MintJustificationRegistry_register_token_data ::
  "MintJustificationRegistry \<Rightarrow> TokenDataVerifier \<Rightarrow> Error + MintJustificationRegistry" where
  "MintJustificationRegistry_register_token_data r verifier =
     (let token_type = tt_bytes (dv_token_type verifier)
      in if mr_data_verifiers r token_type \<noteq> None
         then Err (UnexpectedValue ''duplicate token data verifier for token type'')
         else Ok (r\<lparr>mr_data_verifiers := (mr_data_verifiers r)(token_type \<mapsto> dv_verify verifier)\<rparr>))"

definition MintJustificationRegistry_verify_genesis ::
  "MintJustificationRegistry \<Rightarrow> RootTrustBase \<Rightarrow> VerificationPolicy \<Rightarrow> embedded_verifier \<Rightarrow>
   CertifiedMintTransaction \<Rightarrow> VerificationContext \<Rightarrow> context_result" where
  "MintJustificationRegistry_verify_genesis r tb policy embedded genesis c =
     (case mt_justification (cm_transaction genesis) of
        None \<Rightarrow> (Ok (), c)
      | Some bytes \<Rightarrow>
          sbind (map_err (\<lambda>_. UnsupportedMintJustification)
                   (tag_value (with_limits bytes (vl_decode (vp_limits policy)))), c) (\<lambda>(tag, _) c.
          sbind (ok_or UnsupportedMintJustification (mr_verifiers r tag), c) (\<lambda>verifier c.
            verifier tb policy embedded genesis c)))"

definition MintJustificationRegistry_verify_token_data ::
  "MintJustificationRegistry \<Rightarrow> RootTrustBase \<Rightarrow> VerificationPolicy \<Rightarrow> embedded_verifier \<Rightarrow>
   CertifiedMintTransaction \<Rightarrow> VerificationContext \<Rightarrow> context_result" where
  "MintJustificationRegistry_verify_token_data r tb policy embedded genesis c =
     (case mt_data (cm_transaction genesis) of
        None \<Rightarrow> (Ok (), c)
      | Some data \<Rightarrow>
          if length data > max_input_bytes (vl_decode (vp_limits policy))
          then (Err (VerificationLimitExceeded ''token data bytes''), c)
          else (case mr_data_verifiers r (tt_bytes (mt_token_type (cm_transaction genesis))) of
                  Some verifier \<Rightarrow> verifier tb policy embedded genesis c
                | None \<Rightarrow> if vp_require_token_data_verifier policy then (Err UnsupportedTokenData, c)
                    else (Ok (), c)))"

section \<open>Tokens\<close>

definition verify_genesis ::
  "sha2 \<Rightarrow> 'p k256 \<Rightarrow> RootTrustBase \<Rightarrow> MintJustificationRegistry \<Rightarrow> VerificationPolicy \<Rightarrow> embedded_verifier \<Rightarrow>
   Token \<Rightarrow> VerificationContext \<Rightarrow> context_result" where
  "verify_genesis sha2 ec tb registry policy embedded token c =
     (let genesis = tk_genesis token; mint = cm_transaction genesis
      in if mt_network_id mint \<noteq> tb_network_id tb then (Err NetworkMismatch, c)
         else
           sbind (map_err (\<lambda>_. InvalidMintLockScript) (Minter_public_key sha2 ec (mt_token_id mint)), c)
             (\<lambda>key c.
               let expected_lock = SignaturePredicate_to_encoded \<lparr>sp_public_key = key\<rparr>;
                   certified_lock = cd_lock_script (ip_certification_data (cm_inclusion_proof genesis))
               in if certified_lock \<noteq> expected_lock then (Err InvalidMintLockScript, c)
                  else
                    sbind (map_prod (map_err GenesisError) id
                      (with_seals (\<lambda>s. verify_inclusion_proof sha2 ec s (cm_inclusion_proof genesis)
                         (mint_view sha2 mint) (ip_reference_time (cm_inclusion_proof genesis))) c)) (\<lambda>_ c.
                    sbind (MintJustificationRegistry_verify_token_data registry tb policy embedded genesis c)
                      (\<lambda>_ c.
                      MintJustificationRegistry_verify_genesis registry tb policy embedded genesis c))))"

text \<open>The loop over the transfers, from index \<open>i\<close>.\<close>

fun verify_transfers ::
  "sha2 \<Rightarrow> 'p k256 \<Rightarrow> nat \<Rightarrow> CertifiedTransferTransaction list \<Rightarrow> VerificationContext \<Rightarrow> context_result" where
  "verify_transfers sha2 ec i [] c = (Ok (), c)"
| "verify_transfers sha2 ec i (transfer # transfers) c =
     sbind (map_prod (map_err (TransferError i)) id
       (with_seals (\<lambda>s. verify_inclusion_proof sha2 ec s (ct_inclusion_proof transfer)
          (transfer_view sha2 (ct_transaction transfer)) (ip_reference_time (ct_inclusion_proof transfer))) c))
       (\<lambda>_ c. verify_transfers sha2 ec (Suc i) transfers c)"

definition verify_token_body ::
  "sha2 \<Rightarrow> 'p k256 \<Rightarrow> RootTrustBase \<Rightarrow> MintJustificationRegistry \<Rightarrow> VerificationPolicy \<Rightarrow> embedded_verifier \<Rightarrow>
   Token \<Rightarrow> VerificationContext \<Rightarrow> context_result" where
  "verify_token_body sha2 ec tb registry policy embedded token c =
     (if length (tk_transactions token) > vl_max_token_transfers (vp_limits policy)
      then (Err (VerificationLimitExceeded ''token transfer count''), c)
      else
        sbind (verify_genesis sha2 ec tb registry policy embedded token c) (\<lambda>_ c.
          verify_transfers sha2 ec 0 (tk_transactions token) c))"

text \<open>
  \<open>remaining\<close> is what is left of \<open>max_embedded_token_depth\<close>: the code counts \<open>embedded_token_depth\<close>
  up by one around an embedded verification and refuses when it equals the maximum.
\<close>

primrec verify_embedded_token ::
  "nat \<Rightarrow> sha2 \<Rightarrow> 'p k256 \<Rightarrow> RootTrustBase \<Rightarrow> MintJustificationRegistry \<Rightarrow> VerificationPolicy \<Rightarrow> embedded_verifier"
where
  "verify_embedded_token 0 sha2 ec tb registry policy =
     (\<lambda>token encoded_len c. (Err (VerificationLimitExceeded ''embedded token depth''), c))"
| "verify_embedded_token (Suc remaining) sha2 ec tb registry policy =
     (\<lambda>token encoded_len c.
        sbind (ok_or (VerificationLimitExceeded ''embedded token bytes'')
                 (checked_add (vc_total_embedded_token_bytes c) encoded_len), c) (\<lambda>total c.
          if total > vl_max_total_embedded_token_bytes (vp_limits policy)
          then (Err (VerificationLimitExceeded ''embedded token bytes''), c)
          else
            verify_token_body sha2 ec tb registry policy
              (verify_embedded_token remaining sha2 ec tb registry policy) token
              (c\<lparr>vc_total_embedded_token_bytes := total\<rparr>)))"

definition verify_token_in_context ::
  "sha2 \<Rightarrow> 'p k256 \<Rightarrow> RootTrustBase \<Rightarrow> MintJustificationRegistry \<Rightarrow> VerificationPolicy \<Rightarrow>
   Token \<Rightarrow> VerificationContext \<Rightarrow> context_result" where
  "verify_token_in_context sha2 ec tb registry policy token c =
     verify_token_body sha2 ec tb registry policy
       (verify_embedded_token (vl_max_embedded_token_depth (vp_limits policy)) sha2 ec tb registry policy)
       token c"

definition verify_token_with_memo_capacity ::
  "sha2 \<Rightarrow> 'p k256 \<Rightarrow> Token \<Rightarrow> RootTrustBase \<Rightarrow> MintJustificationRegistry \<Rightarrow> VerificationPolicy \<Rightarrow> usize \<Rightarrow>
   (VerificationError + unit) \<times> SealStats" where
  "verify_token_with_memo_capacity sha2 ec token tb registry policy capacity =
     (case sbind (map_err VInvalidTrustBase (validate tb),
                  VerificationContext_with_memo_capacity tb capacity)
             (\<lambda>_ c. verify_token_in_context sha2 ec tb registry policy token c) of
        (r, c) \<Rightarrow> (r, SealSession_stats (vc_seals c)))"

definition verify_token_with_seal_stats ::
  "sha2 \<Rightarrow> 'p k256 \<Rightarrow> Token \<Rightarrow> RootTrustBase \<Rightarrow> MintJustificationRegistry \<Rightarrow> VerificationPolicy \<Rightarrow>
   (VerificationError + unit) \<times> SealStats" where
  "verify_token_with_seal_stats sha2 ec token tb registry policy =
     verify_token_with_memo_capacity sha2 ec token tb registry policy DEFAULT_SEAL_MEMO_CAPACITY"

definition verify_token_with_policy ::
  "sha2 \<Rightarrow> 'p k256 \<Rightarrow> Token \<Rightarrow> RootTrustBase \<Rightarrow> MintJustificationRegistry \<Rightarrow> VerificationPolicy \<Rightarrow>
   VerificationError + unit" where
  "verify_token_with_policy sha2 ec token tb registry policy =
     fst (verify_token_with_seal_stats sha2 ec token tb registry policy)"

definition verify_token_with ::
  "sha2 \<Rightarrow> 'p k256 \<Rightarrow> Token \<Rightarrow> RootTrustBase \<Rightarrow> MintJustificationRegistry \<Rightarrow> VerificationError + unit" where
  "verify_token_with sha2 ec token tb registry =
     verify_token_with_policy sha2 ec token tb registry VerificationPolicy_default"

definition verify_token :: "sha2 \<Rightarrow> 'p k256 \<Rightarrow> Token \<Rightarrow> RootTrustBase \<Rightarrow> VerificationError + unit" where
  "verify_token sha2 ec token tb = verify_token_with sha2 ec token tb MintJustificationRegistry_new"

definition verify_token_in_session ::
  "sha2 \<Rightarrow> 'p k256 \<Rightarrow> Token \<Rightarrow> SealSession \<Rightarrow> MintJustificationRegistry \<Rightarrow> VerificationPolicy \<Rightarrow>
   (SealSession, VerificationError, unit) st" where
  "verify_token_in_session sha2 ec token s registry policy =
     (let tb = ss_trust_base s
      in map_prod id vc_seals
           (sbind (map_err VInvalidTrustBase (validate tb), VerificationContext_with_session s)
             (\<lambda>_ c. verify_token_in_context sha2 ec tb registry policy token c)))"

definition Token_verify :: "sha2 \<Rightarrow> 'p k256 \<Rightarrow> Token \<Rightarrow> RootTrustBase \<Rightarrow> VerificationError + unit" where
  "Token_verify sha2 ec token tb = verify_token sha2 ec token tb"

definition Token_verify_with ::
  "sha2 \<Rightarrow> 'p k256 \<Rightarrow> Token \<Rightarrow> RootTrustBase \<Rightarrow> MintJustificationRegistry \<Rightarrow> VerificationError + unit" where
  "Token_verify_with sha2 ec token tb registry = verify_token_with sha2 ec token tb registry"

end
