(* ===== verification/Verify_Session.thy ===== *)
theory Verify_Session
  imports Verify
begin

text \<open>
  The seal session does not change any verdict. The reference checks below carry no memo; a session
  whose memos hold successes of those checks answers like them and keeps that invariant. The memo of
  seals is keyed by a digest, so the statement is relative to a set \<open>Q\<close> of seals on which the key is
  injective; \<open>seal_key_inj_on\<close> reduces that to the absence of a SHA-256 collision on their encodings.
\<close>

section \<open>Reference checks\<close>

definition seal_check :: "sha2 \<Rightarrow> 'p k256 \<Rightarrow> RootTrustBase \<Rightarrow> UnicitySeal \<Rightarrow> VerificationError + unit" where
  "seal_check sha2 ec tb seal =
     rbind (map_err VInvalidTrustBase (validate tb)) (\<lambda>_. quorum_met sha2 ec tb seal)"

definition cert_check :: "sha2 \<Rightarrow> 'p k256 \<Rightarrow> RootTrustBase \<Rightarrow> UnicityCertificate \<Rightarrow> VerificationError + unit" where
  "cert_check sha2 ec tb uc =
     (if utc_partition_identifier (uc_unicity_tree_certificate uc) \<noteq> AGGREGATION_PARTITION_ID
      then Err PartitionMismatch
      else
        rbind (map_err (\<lambda>_. CertificateBodyInvalid) (check_body uc)) (\<lambda>_.
        rbind (check_seal_shape (uc_unicity_seal uc)) (\<lambda>_.
          if us_network_id (uc_unicity_seal uc) \<noteq> tb_network_id tb then Err SealNetworkMismatch
          else
            rbind (map_err (\<lambda>_. SealRootMismatch) (computed_seal_hash sha2 uc)) (\<lambda>computed.
              if dh_data computed \<noteq> us_hash (uc_unicity_seal uc) then Err SealRootMismatch
              else rbind (seal_check sha2 ec tb (uc_unicity_seal uc)) (\<lambda>_. Ok ())))))"

definition membership_check ::
  "sha2 \<Rightarrow> 'p k256 \<Rightarrow> RootTrustBase \<Rightarrow> InclusionProof \<Rightarrow> StateId \<Rightarrow> u64 \<Rightarrow> VerificationError + unit" where
  "membership_check sha2 ec tb proof state_id reference_time =
     rbind (map_err VInvalidTrustBase (validate tb)) (\<lambda>_.
     rbind (membership_checks sha2 proof state_id reference_time) (\<lambda>_.
       cert_check sha2 ec tb (ip_unicity_certificate proof)))"

definition inclusion_check ::
  "sha2 \<Rightarrow> 'p k256 \<Rightarrow> RootTrustBase \<Rightarrow> InclusionProof \<Rightarrow> StateId \<Rightarrow> u64 \<Rightarrow> VerificationError + unit" where
  "inclusion_check sha2 ec tb proof state_id reference_time =
     rbind (membership_check sha2 ec tb proof state_id reference_time) (\<lambda>_.
       let cd = ip_certification_data proof
       in verify_predicate sha2 ec (cd_lock_script cd) reference_time (cd_source_state_hash cd)
            (cd_transaction_hash cd) (cd_unlock_script cd))"

definition transaction_check ::
  "sha2 \<Rightarrow> 'p k256 \<Rightarrow> RootTrustBase \<Rightarrow> InclusionProof \<Rightarrow> Transaction \<Rightarrow> u64 \<Rightarrow> VerificationError + unit" where
  "transaction_check sha2 ec tb proof tx reference_time =
     (let cd = ip_certification_data proof
      in if cd_lock_script cd \<noteq> tx_lock_script tx \<or> cd_source_state_hash cd \<noteq> tx_source_state_hash tx
            \<or> cd_expires_at cd \<noteq> tx_expires_at tx
         then Err CertificationDataMismatch
         else if cd_transaction_hash cd \<noteq> calculate_transaction_hash sha2 tx then Err TransactionHashMismatch
         else inclusion_check sha2 ec tb proof
                (StateId_derive sha2 (tx_lock_script tx) (tx_source_state_hash tx)) reference_time)"

section \<open>The invariant of a session\<close>

text \<open>\<open>B policy uc\<close> is what a remembered certificate body stands for; it includes the reference check.\<close>

definition session_ok ::
  "sha2 \<Rightarrow> 'p k256 \<Rightarrow> RootTrustBase \<Rightarrow> UnicitySeal set \<Rightarrow> (bytes \<Rightarrow> UnicityCertificate \<Rightarrow> bool) \<Rightarrow> SealSession \<Rightarrow> bool"
where
  "session_ok sha2 ec tb Q B s \<longleftrightarrow> ss_trust_base s = tb \<and>
     (ss_validated s \<longrightarrow> validate tb = Ok ()) \<and>
     fifo_memo.holds (\<lambda>k. \<exists>seal\<in>Q. k = seal_key sha2 seal \<and> seal_check sha2 ec tb seal = Ok ()) (ss_memo s) \<and>
     fifo_memo.holds (\<lambda>(p, uc). B p uc) (ss_bodies s)"

definition body_ok :: "sha2 \<Rightarrow> 'p k256 \<Rightarrow> RootTrustBase \<Rightarrow> bytes \<Rightarrow> UnicityCertificate \<Rightarrow> bool" where
  "body_ok sha2 ec tb p uc \<longleftrightarrow> cert_check sha2 ec tb uc = Ok ()"

lemma memo_new: "fifo_memo.holds P (FifoIndex_new c)"
proof -
  have "fi_values (FifoIndex_new c :: 'a FifoIndex) = {}"
    by (auto simp: fi_values_def FifoIndex_new_def)
  then show ?thesis using fi_ok_new [of c] by (simp add: fifo_memo.holds_def)
qed

lemma session_ok_new: "session_ok sha2 ec tb Q B (SealSession_with_capacity tb c)"
  by (simp add: session_ok_def SealSession_with_capacity_def memo_new)

lemma session_ok_trust_base: "session_ok sha2 ec tb Q B s \<Longrightarrow> ss_trust_base s = tb"
  by (simp add: session_ok_def)

lemma ensure_trust_base_yields:
  assumes "session_ok sha2 ec tb Q B s"
  shows "yields (session_ok sha2 ec tb Q B) (ensure_trust_base s) (map_err VInvalidTrustBase (validate tb))"
proof (cases "validate tb")
  case (Inl e)
  then show ?thesis using assms by (auto simp: yields_def ensure_trust_base_def session_ok_def)
next
  case (Inr u)
  then show ?thesis using assms by (auto simp: yields_def ensure_trust_base_def session_ok_def)
qed

lemma ensure_trust_base_state:
  "ss_memo (snd (ensure_trust_base s)) = ss_memo s" "ss_bodies (snd (ensure_trust_base s)) = ss_bodies s"
  "ss_trust_base (snd (ensure_trust_base s)) = ss_trust_base s"
  by (auto simp: ensure_trust_base_def split: sum.splits)

section \<open>Seals\<close>

lemma seal_key_eq: "seal_key sha2 seal = sha2 Sha256 (memo_preimage seal)"
  by (simp add: seal_key_def memo_preimage_def Let_def finalize_sha256)

lemma memo_preimage_inj:
  assumes "UnicitySeal_wf a" "UnicitySeal_wf b" "length (UnicitySeal_to_cbor a) < 2 ^ 64"
    and "memo_preimage a = memo_preimage b"
  shows "a = b"
proof -
  have "UnicitySeal_to_cbor a = UnicitySeal_to_cbor b"
    using assms(4) by (simp add: memo_preimage_def Let_def)
  then show ?thesis using seal.to_cbor_inj [OF assms(1,2)] assms(3) by simp
qed

lemma seal_key_inj_on:
  assumes "\<And>a. a \<in> Q \<Longrightarrow> UnicitySeal_wf a \<and> length (UnicitySeal_to_cbor a) < 2 ^ 64"
    and "\<not> collides sha2 (memo_preimage ` Q) (memo_preimage ` Q)"
  shows "inj_on (seal_key sha2) Q"
proof (rule inj_onI)
  fix a b assume ab: "a \<in> Q" "b \<in> Q" "seal_key sha2 a = seal_key sha2 b"
  then have "memo_preimage a = memo_preimage b"
    using assms(2) collidesI [of "memo_preimage a" "memo_preimage ` Q" "memo_preimage b" "memo_preimage ` Q" sha2]
    by (auto simp: seal_key_eq)
  then show "a = b" using memo_preimage_inj assms(1) ab(1,2) by blast
qed

theorem verify_quorum_under_yields:
  assumes ok: "session_ok sha2 ec tb Q B s" and seal: "seal \<in> Q" "inj_on (seal_key sha2) Q"
  shows "yields (session_ok sha2 ec tb Q B) (verify_quorum_under sha2 ec s seal policy)
    (seal_check sha2 ec tb seal)"
proof -
  obtain r s1 where ens: "ensure_trust_base s = (r, s1)" by (cases "ensure_trust_base s")
  have r: "r = map_err VInvalidTrustBase (validate tb)" and s1: "session_ok sha2 ec tb Q B s1"
    using ensure_trust_base_yields [OF ok] ens by (simp_all add: yields_def)
  show ?thesis
  proof (cases "validate tb")
    case (Inl e)
    then show ?thesis using ens r s1 by (simp add: verify_quorum_under_def seal_check_def yields_def)
  next
    case (Inr u)
    let ?P = "\<lambda>k. \<exists>seal\<in>Q. k = seal_key sha2 seal \<and> seal_check sha2 ec tb seal = Ok ()"
    let ?key = "seal_key sha2 seal"
    let ?h = "from_le_bytes (take 8 ?key)"
    have memo: "fifo_memo.holds ?P (ss_memo s1)" and tb: "ss_trust_base s1 = tb"
      using s1 by (simp_all add: session_ok_def)
    obtain hit m where probe: "fi_contains (ss_memo s1) ?h (\<lambda>k. k = ?key) = (hit, m)"
      by (cases "fi_contains (ss_memo s1) ?h (\<lambda>k. k = ?key)")
    have m: "fifo_memo.holds ?P m" using fifo_memo.memo_probe [OF memo, of ?h "\<lambda>k. k = ?key"] probe by simp
    have hit: "seal_check sha2 ec tb seal = Ok ()" if hit
    proof -
      have "\<exists>k. ?P k \<and> k = ?key"
        by (rule fifo_memo.memo_hit [OF memo, where h = ?h]) (use probe that in \<open>simp\<close>)
      then show ?thesis using seal by (auto dest: inj_onD)
    qed
    have ins: "fifo_memo.holds ?P (fi_insert m ?h ?key)" if "quorum_met sha2 ec tb seal = Ok ()"
      using fifo_memo.memo_insert [OF m] that seal(1) Inr by (auto simp: seal_check_def)
    show ?thesis
    proof (cases hit)
      case True
      then show ?thesis using ens r Inr probe hit m s1
        by (simp add: verify_quorum_under_def Let_def yields_def session_ok_def)
    next
      case False
      then show ?thesis using ens r Inr probe m s1 ins
        by (cases "quorum_met sha2 ec tb seal")
          (simp_all add: verify_quorum_under_def Let_def yields_def session_ok_def seal_check_def)
    qed
  qed
qed

section \<open>Certificates and proofs\<close>

lemma body_verified_session:
  assumes ok: "session_ok sha2 ec tb Q B s" and run: "body_verified s uc policy = (hit, s')"
  shows "session_ok sha2 ec tb Q B s' \<and> (hit \<longrightarrow> B policy uc)"
proof -
  let ?P = "\<lambda>(p, uc). B p uc"
  let ?eq = "\<lambda>(p, c). p = policy \<and> c = uc"
  let ?h = "uc_fingerprint uc policy"
  have memo: "fifo_memo.holds ?P (ss_bodies s)" using ok by (simp add: session_ok_def)
  have probe: "fifo_memo.holds ?P (snd (fi_contains (ss_bodies s) ?h ?eq))"
    by (rule fifo_memo.memo_probe [OF memo])
  have "B policy uc" if "fst (fi_contains (ss_bodies s) ?h ?eq)"
    using fifo_memo.memo_hit [OF memo that] by auto
  then show ?thesis using run probe ok
    by (cases "fi_contains (ss_bodies s) ?h ?eq") (auto simp: body_verified_def Let_def session_ok_def split: if_splits)
qed

lemma note_body_check_session: "session_ok sha2 ec tb Q B s \<Longrightarrow> session_ok sha2 ec tb Q B (note_body_check s)"
  by (simp add: session_ok_def note_body_check_def)

lemma remember_body_session:
  assumes "session_ok sha2 ec tb Q B s" "B policy uc"
  shows "session_ok sha2 ec tb Q B (remember_body s uc policy)"
  using assms fifo_memo.memo_insert [of "\<lambda>(p, uc). B p uc" "ss_bodies s" "(policy, uc)"]
  by (simp add: session_ok_def remember_body_def)

theorem verify_unicity_certificate_yields:
  assumes ok: "session_ok sha2 ec tb Q B s" and Q: "inj_on (seal_key sha2) Q" "uc_unicity_seal uc \<in> Q"
    and sound: "\<And>p. B p uc \<Longrightarrow> cert_check sha2 ec tb uc = Ok ()"
    and complete: "cert_check sha2 ec tb uc = Ok () \<Longrightarrow> B policy uc"
  shows "yields (session_ok sha2 ec tb Q B) (verify_unicity_certificate sha2 ec s uc policy)
    (cert_check sha2 ec tb uc)"
proof -
  let ?I = "session_ok sha2 ec tb Q B"
  obtain hit s1 where probe: "body_verified s uc policy = (hit, s1)" by (cases "body_verified s uc policy")
  have s1: "?I s1" and hit: "hit \<Longrightarrow> cert_check sha2 ec tb uc = Ok ()"
    using body_verified_session [OF ok probe] sound by blast+
  show ?thesis
  proof (cases "utc_partition_identifier (uc_unicity_tree_certificate uc) \<noteq> AGGREGATION_PARTITION_ID \<or> hit")
    case True
    then show ?thesis using ok s1 hit probe
      by (auto simp: verify_unicity_certificate_def yields_def cert_check_def)
  next
    case False
    let ?seal = "uc_unicity_seal uc"
    let ?tail = "rbind (seal_check sha2 ec tb ?seal) (\<lambda>_. Ok ())"
    have quorum: "yields ?I (sbind (verify_quorum_under sha2 ec s2 ?seal policy)
        (\<lambda>_ s. (Ok (), remember_body s uc policy))) ?tail"
      if "?I s2" "B policy uc \<or> ?tail \<noteq> Ok ()" for s2
      using verify_quorum_under_yields [OF that(1) Q(2,1), of policy] that(2)
      by (cases "verify_quorum_under sha2 ec s2 ?seal policy")
        (auto simp: yields_def intro: remember_body_session split: sum.splits)
    have body: "cert_check sha2 ec tb uc = rbind (map_err (\<lambda>_. CertificateBodyInvalid) (check_body uc)) (\<lambda>_.
        rbind (check_seal_shape ?seal) (\<lambda>_.
          if us_network_id ?seal \<noteq> tb_network_id tb then Err SealNetworkMismatch
          else rbind (map_err (\<lambda>_. SealRootMismatch) (computed_seal_hash sha2 uc)) (\<lambda>computed.
            if dh_data computed \<noteq> us_hash ?seal then Err SealRootMismatch else ?tail)))"
      using False by (simp add: cert_check_def)
    have done_B: "B policy uc \<or> ?tail \<noteq> Ok ()"
      if "map_err (\<lambda>_. CertificateBodyInvalid) (check_body uc) = Ok u1" "check_seal_shape ?seal = Ok u2"
        "us_network_id ?seal = tb_network_id tb"
        "map_err (\<lambda>_. SealRootMismatch) (computed_seal_hash sha2 uc) = Ok computed"
        "dh_data computed = us_hash ?seal" for u1 u2 computed
      using complete that unfolding body by (cases "?tail = Ok ()") simp_all
    have run: "verify_unicity_certificate sha2 ec s uc policy =
        sbind (map_err (\<lambda>_. CertificateBodyInvalid) (check_body uc), note_body_check s1) (\<lambda>_ s.
        sbind (check_seal_shape ?seal, s) (\<lambda>_ s.
          if us_network_id ?seal \<noteq> tb_network_id (ss_trust_base s) then (Err SealNetworkMismatch, s)
          else sbind (map_err (\<lambda>_. SealRootMismatch) (computed_seal_hash sha2 uc), s) (\<lambda>computed s.
            if dh_data computed \<noteq> us_hash ?seal then (Err SealRootMismatch, s)
            else sbind (verify_quorum_under sha2 ec s ?seal policy) (\<lambda>_ s. (Ok (), remember_body s uc policy)))))"
      using False probe by (simp add: verify_unicity_certificate_def Let_def)
    have step: "yields ?I
        (if us_network_id ?seal \<noteq> tb_network_id (ss_trust_base s2) then (Err SealNetworkMismatch, s2)
         else sbind (map_err (\<lambda>_. SealRootMismatch) (computed_seal_hash sha2 uc), s2) (\<lambda>computed s.
            if dh_data computed \<noteq> us_hash ?seal then (Err SealRootMismatch, s)
            else sbind (verify_quorum_under sha2 ec s ?seal policy) (\<lambda>_ s. (Ok (), remember_body s uc policy))))
        (if us_network_id ?seal \<noteq> tb_network_id tb then Err SealNetworkMismatch
         else rbind (map_err (\<lambda>_. SealRootMismatch) (computed_seal_hash sha2 uc)) (\<lambda>computed.
            if dh_data computed \<noteq> us_hash ?seal then Err SealRootMismatch else ?tail))"
      if "map_err (\<lambda>_. CertificateBodyInvalid) (check_body uc) = Ok u1" "check_seal_shape ?seal = Ok u2" "?I s2"
      for u1 u2 s2
      unfolding session_ok_trust_base [OF that(3)]
      by (intro yields_if yields_pure yields_bind quorum done_B [OF that(1,2)] that(3)) simp_all
    show ?thesis unfolding run unfolding body
      by (intro yields_bind yields_pure note_body_check_session s1 step)
  qed
qed

lemma verify_membership_under_yields:
  assumes "session_ok sha2 ec tb Q B s" "inj_on (seal_key sha2) Q"
    and "uc_unicity_seal (ip_unicity_certificate proof) \<in> Q"
    and "\<And>p. B p (ip_unicity_certificate proof) \<Longrightarrow> cert_check sha2 ec tb (ip_unicity_certificate proof) = Ok ()"
    and "cert_check sha2 ec tb (ip_unicity_certificate proof) = Ok () \<Longrightarrow> B policy (ip_unicity_certificate proof)"
  shows "yields (session_ok sha2 ec tb Q B) (verify_membership_under sha2 ec s proof sid t policy)
    (membership_check sha2 ec tb proof sid t)"
  unfolding verify_membership_under_def membership_check_def
  by (intro yields_bind ensure_trust_base_yields yields_pure assms(1)
      verify_unicity_certificate_yields [where B = B, OF _ assms(2,3,4,5)])

text \<open>With the plain body invariant a session answers every proof under every policy.\<close>

abbreviation plain_session :: "sha2 \<Rightarrow> 'p k256 \<Rightarrow> RootTrustBase \<Rightarrow> UnicitySeal set \<Rightarrow> SealSession \<Rightarrow> bool" where
  "plain_session sha2 ec tb Q \<equiv> session_ok sha2 ec tb Q (body_ok sha2 ec tb)"

lemma verify_inclusion_proof_in_yields:
  assumes "plain_session sha2 ec tb Q s" "inj_on (seal_key sha2) Q"
    and "uc_unicity_seal (ip_unicity_certificate proof) \<in> Q"
  shows "yields (plain_session sha2 ec tb Q) (verify_inclusion_proof_in sha2 ec s proof sid t)
    (inclusion_check sha2 ec tb proof sid t)"
  unfolding verify_inclusion_proof_in_def inclusion_check_def verify_membership_in_def Let_def
  by (intro yields_bind verify_membership_under_yields yields_pure assms) (simp_all add: body_ok_def)

theorem verify_inclusion_proof_yields:
  assumes "plain_session sha2 ec tb Q s" "inj_on (seal_key sha2) Q"
    and "uc_unicity_seal (ip_unicity_certificate proof) \<in> Q"
  shows "yields (plain_session sha2 ec tb Q) (verify_inclusion_proof sha2 ec s proof tx t)
    (transaction_check sha2 ec tb proof tx t)"
  unfolding verify_inclusion_proof_def transaction_check_def Let_def
  by (intro yields_if yields_pure verify_inclusion_proof_in_yields assms)

end
