(* ===== verification/Verify_Token.thy ===== *)
theory Verify_Token
  imports Verify_Session Token_Codec
begin

text \<open>
  What token verification establishes. With the empty registry it is the reference check
  \<open>token_check\<close>, error values included; with registered verifiers every success rests on a checked
  history (\<open>history_ok\<close>) and on the success of the verifiers, through all embedded tokens.
\<close>

section \<open>Reference check of a token\<close>

fun transfers_check ::
  "sha2 \<Rightarrow> 'p k256 \<Rightarrow> RootTrustBase \<Rightarrow> nat \<Rightarrow> CertifiedTransferTransaction list \<Rightarrow> VerificationError + unit" where
  "transfers_check sha2 ec tb i [] = Ok ()"
| "transfers_check sha2 ec tb i (t # ts) =
     rbind (map_err (TransferError i) (transaction_check sha2 ec tb (ct_inclusion_proof t)
       (transfer_view sha2 (ct_transaction t)) (ip_reference_time (ct_inclusion_proof t))))
       (\<lambda>_. transfers_check sha2 ec tb (Suc i) ts)"

definition genesis_check ::
  "sha2 \<Rightarrow> 'p k256 \<Rightarrow> RootTrustBase \<Rightarrow> CertifiedMintTransaction \<Rightarrow> VerificationError + unit" where
  "genesis_check sha2 ec tb g =
     (if mt_network_id (cm_transaction g) \<noteq> tb_network_id tb then Err NetworkMismatch
      else rbind (map_err (\<lambda>_. InvalidMintLockScript) (Minter_public_key sha2 ec (mt_token_id (cm_transaction g))))
        (\<lambda>key. if cd_lock_script (ip_certification_data (cm_inclusion_proof g)) \<noteq>
                  SignaturePredicate_to_encoded \<lparr>sp_public_key = key\<rparr> then Err InvalidMintLockScript
               else map_err GenesisError (transaction_check sha2 ec tb (cm_inclusion_proof g)
                      (mint_view sha2 (cm_transaction g)) (ip_reference_time (cm_inclusion_proof g)))))"

text \<open>The verdict of an empty registry on the application data and the justification.\<close>

definition bare_check :: "VerificationPolicy \<Rightarrow> CertifiedMintTransaction \<Rightarrow> VerificationError + unit" where
  "bare_check policy g =
     rbind (case mt_data (cm_transaction g) of None \<Rightarrow> Ok ()
            | Some data \<Rightarrow> if length data > max_input_bytes (vl_decode (vp_limits policy))
                then Err (VerificationLimitExceeded ''token data bytes'')
                else if vp_require_token_data_verifier policy then Err UnsupportedTokenData else Ok ())
       (\<lambda>_. if mt_justification (cm_transaction g) = None then Ok () else Err UnsupportedMintJustification)"

definition token_check ::
  "sha2 \<Rightarrow> 'p k256 \<Rightarrow> RootTrustBase \<Rightarrow> VerificationPolicy \<Rightarrow> Token \<Rightarrow> VerificationError + unit" where
  "token_check sha2 ec tb policy token =
     (if length (tk_transactions token) > vl_max_token_transfers (vp_limits policy)
      then Err (VerificationLimitExceeded ''token transfer count'')
      else rbind (genesis_check sha2 ec tb (tk_genesis token)) (\<lambda>_.
           rbind (bare_check policy (tk_genesis token)) (\<lambda>_.
             transfers_check sha2 ec tb 0 (tk_transactions token))))"

section \<open>Invariant of a context\<close>

definition token_proofs :: "Token \<Rightarrow> InclusionProof list" where
  "token_proofs token = cm_inclusion_proof (tk_genesis token) # map ct_inclusion_proof (tk_transactions token)"

definition token_seals :: "Token \<Rightarrow> UnicitySeal set" where
  "token_seals token = uc_unicity_seal ` ip_unicity_certificate ` set (token_proofs token)"

definition context_ok ::
  "sha2 \<Rightarrow> 'p k256 \<Rightarrow> RootTrustBase \<Rightarrow> UnicitySeal set \<Rightarrow> DecodeLimits \<Rightarrow> VerificationContext \<Rightarrow> bool" where
  "context_ok sha2 ec tb Q l c \<longleftrightarrow> plain_session sha2 ec tb Q (vc_seals c) \<and> interner_ok l (vc_interner c)"

lemma context_ok_new: "context_ok sha2 ec tb Q l (VerificationContext_with_memo_capacity tb cap)"
  by (simp add: context_ok_def VerificationContext_with_memo_capacity_def session_ok_new interner_ok_new)

lemma with_seals_yields:
  assumes "context_ok sha2 ec tb Q l c"
    and "\<And>s. plain_session sha2 ec tb Q s \<Longrightarrow> yields (plain_session sha2 ec tb Q) (f s) r"
  shows "yields (context_ok sha2 ec tb Q l) (with_seals f c) r"
  using assms(1) assms(2) [of "vc_seals c"]
  by (cases "f (vc_seals c)") (simp add: with_seals_def context_ok_def yields_def)

lemma proof_yields:
  assumes "context_ok sha2 ec tb Q l c" "inj_on (seal_key sha2) Q"
    "uc_unicity_seal (ip_unicity_certificate p) \<in> Q"
  shows "yields (context_ok sha2 ec tb Q l)
    (map_prod (map_err e) id (with_seals (\<lambda>s. verify_inclusion_proof sha2 ec s p tx t) c))
    (map_err e (transaction_check sha2 ec tb p tx t))"
  by (intro yields_map_err with_seals_yields verify_inclusion_proof_yields assms)

lemma verify_transfers_yields:
  assumes "context_ok sha2 ec tb Q l c" "inj_on (seal_key sha2) Q"
    and "\<forall>t\<in>set ts. uc_unicity_seal (ip_unicity_certificate (ct_inclusion_proof t)) \<in> Q"
  shows "yields (context_ok sha2 ec tb Q l) (verify_transfers sha2 ec i ts c) (transfers_check sha2 ec tb i ts)"
  using assms
proof (induction ts arbitrary: i c)
  case (Cons t ts)
  have rest: "yields (context_ok sha2 ec tb Q l) (verify_transfers sha2 ec (Suc i) ts c')
      (transfers_check sha2 ec tb (Suc i) ts)" if "context_ok sha2 ec tb Q l c'" for c'
    by (rule Cons.IH) (use that Cons.prems in auto)
  show ?case unfolding verify_transfers.simps transfers_check.simps
    by (intro yields_bind proof_yields rest Cons.prems) (use Cons.prems in auto)
qed (simp add: yields_def)

text \<open>The part of the genesis verification before the registry.\<close>

lemma verify_genesis_split:
  assumes c: "context_ok sha2 ec tb Q l c" and Q: "inj_on (seal_key sha2) Q" "token_seals token \<subseteq> Q"
    and reg: "\<And>c. context_ok sha2 ec tb Q l c \<Longrightarrow> yields (context_ok sha2 ec tb Q l)
      (sbind (MintJustificationRegistry_verify_token_data registry tb policy emb (tk_genesis token) c)
        (\<lambda>_ c. MintJustificationRegistry_verify_genesis registry tb policy emb (tk_genesis token) c)) r"
  shows "yields (context_ok sha2 ec tb Q l) (verify_genesis sha2 ec tb registry policy emb token c)
    (rbind (genesis_check sha2 ec tb (tk_genesis token)) (\<lambda>_. r))"
proof -
  have "uc_unicity_seal (ip_unicity_certificate (cm_inclusion_proof (tk_genesis token))) \<in> Q"
    using Q(2) by (auto simp: token_seals_def token_proofs_def)
  note pr = proof_yields [OF c Q(1) this, of GenesisError]
  show ?thesis
  proof (cases "Minter_public_key sha2 ec (mt_token_id (cm_transaction (tk_genesis token)))")
    case (Inl e)
    then show ?thesis using c by (simp add: verify_genesis_def genesis_check_def yields_def Let_def)
  next
    case (Inr key)
    show ?thesis unfolding verify_genesis_def genesis_check_def Let_def Inr
      by (cases "mt_network_id (cm_transaction (tk_genesis token)) = tb_network_id tb";
          cases "cd_lock_script (ip_certification_data (cm_inclusion_proof (tk_genesis token))) =
            SignaturePredicate_to_encoded \<lparr>sp_public_key = key\<rparr>")
        (simp_all add: yields_pure c yields_bind [OF pr reg])
  qed
qed

section \<open>The empty registry\<close>

lemma bare_registry_yields:
  assumes "context_ok sha2 ec tb Q l c"
  shows "yields (context_ok sha2 ec tb Q l)
    (sbind (MintJustificationRegistry_verify_token_data MintJustificationRegistry_new tb policy emb g c)
      (\<lambda>_ c. MintJustificationRegistry_verify_genesis MintJustificationRegistry_new tb policy emb g c))
    (bare_check policy g)"
proof -
  have gen: "MintJustificationRegistry_verify_genesis MintJustificationRegistry_new tb policy emb g c =
      (if mt_justification (cm_transaction g) = None then Ok () else Err UnsupportedMintJustification, c)" for c
    by (cases "mt_justification (cm_transaction g)")
      (auto simp: MintJustificationRegistry_verify_genesis_def MintJustificationRegistry_new_def
        map_err_def split: sum.splits)
  show ?thesis using assms unfolding gen
    by (cases "mt_data (cm_transaction g)")
      (auto simp: bare_check_def yields_def MintJustificationRegistry_verify_token_data_def
        MintJustificationRegistry_new_def)
qed

theorem verify_token_body_bare:
  assumes "context_ok sha2 ec tb Q l c" "inj_on (seal_key sha2) Q" "token_seals token \<subseteq> Q"
  shows "yields (context_ok sha2 ec tb Q l)
    (verify_token_body sha2 ec tb MintJustificationRegistry_new policy emb token c)
    (token_check sha2 ec tb policy token)"
proof -
  have seals: "\<forall>t\<in>set (tk_transactions token).
      uc_unicity_seal (ip_unicity_certificate (ct_inclusion_proof t)) \<in> Q"
    using assms(3) by (auto simp: token_seals_def token_proofs_def)
  have check: "token_check sha2 ec tb policy token =
     (if length (tk_transactions token) > vl_max_token_transfers (vp_limits policy)
      then Err (VerificationLimitExceeded ''token transfer count'')
      else rbind (rbind (genesis_check sha2 ec tb (tk_genesis token)) (\<lambda>_. bare_check policy (tk_genesis token)))
        (\<lambda>_. transfers_check sha2 ec tb 0 (tk_transactions token)))"
    by (simp add: token_check_def rbind_assoc)
  show ?thesis unfolding verify_token_body_def check
    by (intro yields_if yields_pure yields_bind verify_genesis_split bare_registry_yields
        verify_transfers_yields assms seals)
qed

theorem verify_token_with_memo_capacity_bare:
  assumes "inj_on (seal_key sha2) (token_seals token)"
  shows "fst (verify_token_with_memo_capacity sha2 ec token tb MintJustificationRegistry_new policy capacity) =
    rbind (map_err VInvalidTrustBase (validate tb)) (\<lambda>_. token_check sha2 ec tb policy token)"
proof -
  have "yields (context_ok sha2 ec tb (token_seals token) DEFAULT_limits)
      (sbind (map_err VInvalidTrustBase (validate tb), VerificationContext_with_memo_capacity tb capacity)
        (\<lambda>_ c. verify_token_in_context sha2 ec tb MintJustificationRegistry_new policy token c))
      (rbind (map_err VInvalidTrustBase (validate tb)) (\<lambda>_. token_check sha2 ec tb policy token))"
    unfolding verify_token_in_context_def
    by (intro yields_bind yields_pure context_ok_new verify_token_body_bare assms order_refl)
  then show ?thesis
    by (auto simp: verify_token_with_memo_capacity_def yields_def split: prod.splits)
qed

section \<open>What a success means\<close>

definition uc_valid :: "sha2 \<Rightarrow> 'p k256 \<Rightarrow> RootTrustBase \<Rightarrow> UnicityCertificate \<Rightarrow> bool" where
  "uc_valid sha2 ec tb uc \<longleftrightarrow>
     utc_partition_identifier (uc_unicity_tree_certificate uc) = AGGREGATION_PARTITION_ID \<and>
     check_body uc = Ok () \<and> check_seal_shape (uc_unicity_seal uc) = Ok () \<and>
     us_network_id (uc_unicity_seal uc) = tb_network_id tb \<and>
     (\<exists>h. computed_seal_hash sha2 uc = Ok h \<and> dh_data h = us_hash (uc_unicity_seal uc)) \<and>
     validate tb = Ok () \<and>
     unat (tb_quorum_threshold tb) \<le> card (valid_signers ec tb
       (dh_data (UnicitySeal_calculate_hash sha2 (uc_unicity_seal uc))) (us_signatures (uc_unicity_seal uc)))"

lemma seal_check_iff:
  "seal_check sha2 ec tb seal = Ok () \<longleftrightarrow> validate tb = Ok () \<and>
     unat (tb_quorum_threshold tb) \<le> card (valid_signers ec tb
       (dh_data (UnicitySeal_calculate_hash sha2 seal)) (us_signatures seal))"
proof (cases "validate tb = Ok ()")
  case True
  then show ?thesis using quorum_met_iff [OF validate_ok [OF True], of sha2 ec seal]
    by (simp add: seal_check_def)
qed (auto simp: seal_check_def result_simps)

lemma cert_check_iff: "cert_check sha2 ec tb uc = Ok () \<longleftrightarrow> uc_valid sha2 ec tb uc"
  using seal_check_iff [of sha2 ec tb "uc_unicity_seal uc"]
  by (auto simp: cert_check_def uc_valid_def result_simps split: if_splits)

text \<open>A proof certifies a transaction: the binding, the deadline, the tree path, the shard, the
  certificate with its quorum, and the owner's signature.\<close>

definition state_proved :: "sha2 \<Rightarrow> InclusionProof \<Rightarrow> StateId \<Rightarrow> DataHash \<Rightarrow> bool" where
  "state_proved sha2 proof sid tx_hash \<longleftrightarrow>
     (\<exists>root. ir_hash (uc_input_record (ip_unicity_certificate proof)) = Some root \<and> length root = 32 \<and>
        InclusionCertificate_verify sha2 (ip_inclusion_certificate proof) sid
          (calculate_leaf_value sha2 tx_hash (ip_reference_time proof))
          \<lparr>dh_algorithm = Sha256, dh_data = root\<rparr>)"

definition unlocked :: "sha2 \<Rightarrow> 'p k256 \<Rightarrow> Transaction \<Rightarrow> bytes \<Rightarrow> bool" where
  "unlocked sha2 ec tx unlock_script \<longleftrightarrow>
     (\<exists>key sig. SignaturePredicate_from_encoded ec (tx_lock_script tx) = Ok \<lparr>sp_public_key = key\<rparr> \<and>
        Signature_decode unlock_script = Ok sig \<and>
        sig_verify ec sig (dh_data (signature_unlock_message sha2 (tx_source_state_hash tx)
          (calculate_transaction_hash sha2 tx))) key)"

definition proof_valid :: "sha2 \<Rightarrow> 'p k256 \<Rightarrow> RootTrustBase \<Rightarrow> Transaction \<Rightarrow> InclusionProof \<Rightarrow> bool" where
  "proof_valid sha2 ec tb tx proof \<longleftrightarrow>
     (let cd = ip_certification_data proof; uc = ip_unicity_certificate proof;
          sid = StateId_derive sha2 (tx_lock_script tx) (tx_source_state_hash tx);
          shard = stc_shard (uc_shard_tree_certificate uc)
      in cd = CertificationData_from_transaction sha2 tx (cd_unlock_script cd) \<and>
         (\<forall>e. tx_expires_at tx = Some e \<longrightarrow> ip_reference_time proof < e) \<and>
         ip_reference_time proof \<le> ir_timestamp (uc_input_record uc) \<and>
         state_proved sha2 proof sid (calculate_transaction_hash sha2 tx) \<and>
         (sh_length shard = 0 \<or> is_prefix_of shard (sid_bytes sid)) \<and>
         uc_valid sha2 ec tb uc \<and> unlocked sha2 ec tx (cd_unlock_script cd))"

lemma verify_predicate_iff:
  "verify_predicate sha2 ec lock t src h unlock = Ok () \<longleftrightarrow>
     (\<exists>key sig. SignaturePredicate_from_encoded ec lock = Ok \<lparr>sp_public_key = key\<rparr> \<and>
        Signature_decode unlock = Ok sig \<and> sig_verify ec sig (dh_data (signature_unlock_message sha2 src h)) key)"
proof (cases "SignaturePredicate_from_encoded ec lock")
  case (Inr p)
  then show ?thesis
    by (cases p) (auto simp: verify_predicate_def verify_signature_unlock_def split: sum.splits)
qed (simp add: verify_predicate_def)

lemma membership_checks_iff:
  "membership_checks sha2 proof sid (ip_reference_time proof) = Ok () \<longleftrightarrow>
     StateId_derive sha2 (cd_lock_script (ip_certification_data proof))
       (cd_source_state_hash (ip_certification_data proof)) = sid \<and>
     (\<forall>e. cd_expires_at (ip_certification_data proof) = Some e \<longrightarrow> ip_reference_time proof < e) \<and>
     ip_reference_time proof \<le> ir_timestamp (uc_input_record (ip_unicity_certificate proof)) \<and>
     state_proved sha2 proof sid (cd_transaction_hash (ip_certification_data proof)) \<and>
     (sh_length (stc_shard (uc_shard_tree_certificate (ip_unicity_certificate proof))) = 0 \<or>
      is_prefix_of (stc_shard (uc_shard_tree_certificate (ip_unicity_certificate proof))) (sid_bytes sid))"
  unfolding membership_checks_def Let_def state_proved_def
  by (auto simp: result_simps ir_root_hash_def DataHash_wf_def not_le not_less split: if_splits option.splits)

theorem transaction_check_iff:
  "transaction_check sha2 ec tb proof tx (ip_reference_time proof) = Ok () \<longleftrightarrow> proof_valid sha2 ec tb tx proof"
proof -
  have cd: "ip_certification_data proof =
      CertificationData_from_transaction sha2 tx (cd_unlock_script (ip_certification_data proof)) \<longleftrightarrow>
    cd_lock_script (ip_certification_data proof) = tx_lock_script tx \<and>
    cd_source_state_hash (ip_certification_data proof) = tx_source_state_hash tx \<and>
    cd_expires_at (ip_certification_data proof) = tx_expires_at tx \<and>
    cd_transaction_hash (ip_certification_data proof) = calculate_transaction_hash sha2 tx"
    by (cases "ip_certification_data proof") (auto simp: CertificationData_from_transaction_def)
  show ?thesis
    unfolding transaction_check_def proof_valid_def Let_def cd inclusion_check_def membership_check_def
    by (auto simp: result_simps membership_checks_iff verify_predicate_iff cert_check_iff unlocked_def
        uc_valid_def)
qed

definition minted :: "sha2 \<Rightarrow> 'p k256 \<Rightarrow> RootTrustBase \<Rightarrow> CertifiedMintTransaction \<Rightarrow> bool" where
  "minted sha2 ec tb g \<longleftrightarrow> mt_network_id (cm_transaction g) = tb_network_id tb \<and>
     (\<exists>key. Minter_public_key sha2 ec (mt_token_id (cm_transaction g)) = Ok key \<and>
        cd_lock_script (ip_certification_data (cm_inclusion_proof g)) =
          SignaturePredicate_to_encoded \<lparr>sp_public_key = key\<rparr>) \<and>
     proof_valid sha2 ec tb (mint_view sha2 (cm_transaction g)) (cm_inclusion_proof g)"

definition history_ok :: "sha2 \<Rightarrow> 'p k256 \<Rightarrow> RootTrustBase \<Rightarrow> Token \<Rightarrow> bool" where
  "history_ok sha2 ec tb token \<longleftrightarrow> minted sha2 ec tb (tk_genesis token) \<and>
     (\<forall>t\<in>set (tk_transactions token).
        proof_valid sha2 ec tb (transfer_view sha2 (ct_transaction t)) (ct_inclusion_proof t))"

lemma transfers_check_iff:
  "transfers_check sha2 ec tb i ts = Ok () \<longleftrightarrow>
     (\<forall>t\<in>set ts. proof_valid sha2 ec tb (transfer_view sha2 (ct_transaction t)) (ct_inclusion_proof t))"
  by (induction ts arbitrary: i) (auto simp: result_simps transaction_check_iff)

lemma genesis_check_iff: "genesis_check sha2 ec tb g = Ok () \<longleftrightarrow> minted sha2 ec tb g"
  by (auto simp: genesis_check_def minted_def result_simps transaction_check_iff split: if_splits)

definition bare_ok :: "VerificationPolicy \<Rightarrow> CertifiedMintTransaction \<Rightarrow> bool" where
  "bare_ok policy g \<longleftrightarrow> mt_justification (cm_transaction g) = None \<and>
     (\<forall>data. mt_data (cm_transaction g) = Some data \<longrightarrow>
        length data \<le> max_input_bytes (vl_decode (vp_limits policy)) \<and> \<not> vp_require_token_data_verifier policy)"

lemma bare_check_iff: "bare_check policy g = Ok () \<longleftrightarrow> bare_ok policy g"
  by (auto simp: bare_check_def bare_ok_def result_simps not_less split: option.splits if_splits)

theorem token_check_iff:
  "token_check sha2 ec tb policy token = Ok () \<longleftrightarrow>
     length (tk_transactions token) \<le> vl_max_token_transfers (vp_limits policy) \<and>
     bare_ok policy (tk_genesis token) \<and> history_ok sha2 ec tb token"
  by (auto simp: token_check_def history_ok_def result_simps transfers_check_iff genesis_check_iff
      bare_check_iff split: if_splits)

section \<open>Registered verifiers\<close>

text \<open>
  A verifier is sound for tokens in \<open>T\<close> when it keeps the invariant and its success implies \<open>J\<close>,
  provided that the embedded verification it calls keeps the invariant and establishes \<open>K\<close>.
\<close>

definition app_sound ::
  "(VerificationContext \<Rightarrow> bool) \<Rightarrow> RootTrustBase \<Rightarrow> VerificationPolicy \<Rightarrow> Token set \<Rightarrow> (Token \<Rightarrow> bool) \<Rightarrow>
   (CertifiedMintTransaction \<Rightarrow> bool) \<Rightarrow> app_verifier \<Rightarrow> bool" where
  "app_sound I tb policy T K J v \<longleftrightarrow>
     (\<forall>emb token c. token \<in> T \<longrightarrow> I c \<longrightarrow>
        (\<forall>source\<in>T. \<forall>len c. I c \<longrightarrow> keeps I (emb source len c) (\<lambda>_. K source)) \<longrightarrow>
        keeps I (v tb policy emb (tk_genesis token) c) (\<lambda>_. J (tk_genesis token)))"

definition registry_sound ::
  "(VerificationContext \<Rightarrow> bool) \<Rightarrow> RootTrustBase \<Rightarrow> VerificationPolicy \<Rightarrow> Token set \<Rightarrow> (Token \<Rightarrow> bool) \<Rightarrow>
   (CertifiedMintTransaction \<Rightarrow> bool) \<Rightarrow> (CertifiedMintTransaction \<Rightarrow> bool) \<Rightarrow> MintJustificationRegistry \<Rightarrow> bool" where
  "registry_sound I tb policy T K Jj Jd reg \<longleftrightarrow>
     (\<forall>v\<in>ran (mr_verifiers reg). app_sound I tb policy T K Jj v) \<and>
     (\<forall>v\<in>ran (mr_data_verifiers reg). app_sound I tb policy T K Jd v)"

definition approved ::
  "VerificationPolicy \<Rightarrow> (CertifiedMintTransaction \<Rightarrow> bool) \<Rightarrow> (CertifiedMintTransaction \<Rightarrow> bool) \<Rightarrow>
   MintJustificationRegistry \<Rightarrow> CertifiedMintTransaction \<Rightarrow> bool" where
  "approved policy Jj Jd reg g \<longleftrightarrow>
     (mt_justification (cm_transaction g) \<noteq> None \<longrightarrow> Jj g) \<and>
     (mt_data (cm_transaction g) \<noteq> None \<longrightarrow>
        (if mr_data_verifiers reg (tt_bytes (mt_token_type (cm_transaction g))) \<noteq> None then Jd g
         else \<not> vp_require_token_data_verifier policy))"

lemma verify_token_data_keeps:
  assumes "I c" "registry_sound I tb policy T K Jj Jd reg" "token \<in> T"
    and "\<And>source len c. source \<in> T \<Longrightarrow> I c \<Longrightarrow> keeps I (emb source len c) (\<lambda>_. K source)"
  shows "keeps I (MintJustificationRegistry_verify_token_data reg tb policy emb (tk_genesis token) c)
    (\<lambda>_. mt_data (cm_transaction (tk_genesis token)) \<noteq> None \<longrightarrow>
        (if mr_data_verifiers reg (tt_bytes (mt_token_type (cm_transaction (tk_genesis token)))) \<noteq> None
         then Jd (tk_genesis token) else \<not> vp_require_token_data_verifier policy))"
proof -
  have "keeps I (v tb policy emb (tk_genesis token) c) (\<lambda>_. Jd (tk_genesis token))"
    if "mr_data_verifiers reg k = Some v" for k v
    using assms that by (auto simp: registry_sound_def app_sound_def ran_def)
  then show ?thesis using assms(1)
    by (auto simp: MintJustificationRegistry_verify_token_data_def keeps_Err keeps_pure split: option.splits)
qed

lemma verify_justification_keeps:
  assumes "I c" "registry_sound I tb policy T K Jj Jd reg" "token \<in> T"
    and "\<And>source len c. source \<in> T \<Longrightarrow> I c \<Longrightarrow> keeps I (emb source len c) (\<lambda>_. K source)"
  shows "keeps I (MintJustificationRegistry_verify_genesis reg tb policy emb (tk_genesis token) c)
    (\<lambda>_. mt_justification (cm_transaction (tk_genesis token)) \<noteq> None \<longrightarrow> Jj (tk_genesis token))"
proof (cases "mt_justification (cm_transaction (tk_genesis token))")
  case (Some b)
  have "keeps I (v tb policy emb (tk_genesis token) c') (\<lambda>_. Jj (tk_genesis token))"
    if "mr_verifiers reg k = Some v" "I c'" for k v c'
    using assms that by (auto simp: registry_sound_def app_sound_def ran_def)
  then show ?thesis using assms(1) Some
    by (auto simp: MintJustificationRegistry_verify_genesis_def keeps_Err result_simps
        split: sum.splits option.splits)
qed (simp add: MintJustificationRegistry_verify_genesis_def keeps_pure assms(1))

theorem verify_token_body_keeps:
  assumes c: "context_ok sha2 ec tb Q l c" and Q: "inj_on (seal_key sha2) Q" "token_seals token \<subseteq> Q"
    and reg: "registry_sound (context_ok sha2 ec tb Q l) tb policy T K Jj Jd reg" "token \<in> T"
    and emb: "\<And>source len c. source \<in> T \<Longrightarrow> context_ok sha2 ec tb Q l c \<Longrightarrow>
      keeps (context_ok sha2 ec tb Q l) (emb source len c) (\<lambda>_. K source)"
  shows "keeps (context_ok sha2 ec tb Q l) (verify_token_body sha2 ec tb reg policy emb token c)
    (\<lambda>_. history_ok sha2 ec tb token \<and> approved policy Jj Jd reg (tk_genesis token))"
proof -
  let ?I = "context_ok sha2 ec tb Q l" and ?g = "tk_genesis token"
  have seals: "\<forall>t\<in>set (tk_transactions token). uc_unicity_seal (ip_unicity_certificate (ct_inclusion_proof t)) \<in> Q"
    and gseal: "uc_unicity_seal (ip_unicity_certificate (cm_inclusion_proof ?g)) \<in> Q"
    using Q(2) by (auto simp: token_seals_def token_proofs_def)
  have registry: "keeps ?I (sbind (MintJustificationRegistry_verify_token_data reg tb policy emb ?g c')
      (\<lambda>_ c. MintJustificationRegistry_verify_genesis reg tb policy emb ?g c)) (\<lambda>_. approved policy Jj Jd reg ?g)"
    if "?I c'" for c'
    by (rule keeps_bind [OF verify_token_data_keeps [where I = ?I, OF that reg emb]];
        (rule keeps_mono, rule verify_justification_keeps [where I = ?I, OF _ reg emb])?)
      (auto simp: approved_def)
  have genesis: "keeps ?I (verify_genesis sha2 ec tb reg policy emb token c)
      (\<lambda>_. minted sha2 ec tb ?g \<and> approved policy Jj Jd reg ?g)"
  proof (cases "Minter_public_key sha2 ec (mt_token_id (cm_transaction ?g))")
    case (Inr key)
    have "keeps ?I (sbind (map_prod (map_err GenesisError) id
        (with_seals (\<lambda>s. verify_inclusion_proof sha2 ec s (cm_inclusion_proof ?g)
           (mint_view sha2 (cm_transaction ?g)) (ip_reference_time (cm_inclusion_proof ?g))) c))
        (\<lambda>_ c. sbind (MintJustificationRegistry_verify_token_data reg tb policy emb ?g c)
          (\<lambda>_ c. MintJustificationRegistry_verify_genesis reg tb policy emb ?g c)))
        (\<lambda>_. proof_valid sha2 ec tb (mint_view sha2 (cm_transaction ?g)) (cm_inclusion_proof ?g) \<and>
           approved policy Jj Jd reg ?g)"
      by (rule keeps_bind [OF yields_keeps [OF proof_yields [OF c Q(1) gseal]]], rule keeps_add [OF registry])
        (auto simp: map_err_Inr_iff simp flip: transaction_check_iff)
    then show ?thesis using Inr c
      by (auto simp: verify_genesis_def Let_def minted_def keeps_Err elim: keeps_mono)
  qed (simp add: verify_genesis_def Let_def keeps_Err c)
  have "keeps ?I (sbind (verify_genesis sha2 ec tb reg policy emb token c)
      (\<lambda>_ c. verify_transfers sha2 ec 0 (tk_transactions token) c))
      (\<lambda>_. history_ok sha2 ec tb token \<and> approved policy Jj Jd reg ?g)"
    by (rule keeps_bind [OF genesis],
        rule keeps_mono [OF yields_keeps [OF verify_transfers_yields [OF _ Q(1) seals]]])
      (auto simp: transfers_check_iff history_ok_def)
  then show ?thesis using c by (simp add: verify_token_body_def keeps_Err)
qed

theorem verify_embedded_token_keeps:
  assumes Q: "inj_on (seal_key sha2) Q" "\<And>token. token \<in> T \<Longrightarrow> token_seals token \<subseteq> Q"
    and reg: "registry_sound (context_ok sha2 ec tb Q l) tb policy T K Jj Jd reg"
    and K: "\<And>token. token \<in> T \<Longrightarrow> history_ok sha2 ec tb token \<Longrightarrow> approved policy Jj Jd reg (tk_genesis token) \<Longrightarrow> K token"
    and "token \<in> T" "context_ok sha2 ec tb Q l c"
  shows "keeps (context_ok sha2 ec tb Q l) (verify_embedded_token n sha2 ec tb reg policy token len c) (\<lambda>_. K token)"
  using assms(5,6)
proof (induction n arbitrary: token len c)
  case 0
  then show ?case by (simp add: keeps_Err)
next
  case (Suc n)
  have body: "keeps (context_ok sha2 ec tb Q l) (verify_token_body sha2 ec tb reg policy
      (verify_embedded_token n sha2 ec tb reg policy) token (c\<lparr>vc_total_embedded_token_bytes := total\<rparr>)) (\<lambda>_. K token)"
    for total
    by (rule keeps_mono [OF verify_token_body_keeps [OF _ Q(1) Q(2) [OF Suc.prems(1)] reg Suc.prems(1) Suc.IH]])
      (use Suc.prems K in \<open>auto simp: context_ok_def\<close>)
  show ?case using Suc.prems body
    by (auto simp: keeps_Err split: option.splits sum.splits)
qed

theorem verify_token_in_context_keeps:
  assumes Q: "inj_on (seal_key sha2) Q" "\<And>token. token \<in> T \<Longrightarrow> token_seals token \<subseteq> Q"
    and reg: "registry_sound (context_ok sha2 ec tb Q l) tb policy T K Jj Jd reg"
    and K: "\<And>token. token \<in> T \<Longrightarrow> history_ok sha2 ec tb token \<Longrightarrow> approved policy Jj Jd reg (tk_genesis token) \<Longrightarrow> K token"
    and tok: "token \<in> T" "context_ok sha2 ec tb Q l c"
  shows "keeps (context_ok sha2 ec tb Q l) (verify_token_in_context sha2 ec tb reg policy token c) (\<lambda>_. K token)"
  unfolding verify_token_in_context_def
  by (rule keeps_mono [OF verify_token_body_keeps [OF tok(2) Q(1) Q(2) [OF tok(1)] reg tok(1)
        verify_embedded_token_keeps [OF Q reg K]]]) (use K tok in auto)

end
