(* ===== verification/Non_Inclusion.thy ===== *)
theory Non_Inclusion
  imports Verify_Token
begin

text \<open>
  Non-inclusion proofs (\<open>src/src/api/non_inclusion_proof.rs\<close>, \<open>src/src/verify/ni_context.rs\<close> and the
  strict verifier of \<open>src/src/verify/mod.rs\<close>): the wire structure, the caller's context and its digest,
  the authenticated snapshot. A verified absence and a verified inclusion of one state under one root
  exclude each other, and so do two spends of one state.
\<close>

section \<open>Proofs and contexts\<close>

definition NON_INCLUSION_PROOF_TAG :: u64 where "NON_INCLUSION_PROOF_TAG = 39034"
definition NON_INCLUSION_PROOF_VERSION :: u64 where "NON_INCLUSION_PROOF_VERSION = 1"

record NonInclusionProof =
  np_certificate :: NonInclusionCertificate
  np_unicity_certificate :: UnicityCertificate
  np_requested_state_id :: "StateId option"

definition NonInclusionProof_new :: "NonInclusionCertificate \<Rightarrow> UnicityCertificate \<Rightarrow> NonInclusionProof" where
  "NonInclusionProof_new certificate uc =
     \<lparr>np_certificate = certificate, np_unicity_certificate = uc, np_requested_state_id = None\<rparr>"

definition NonInclusionProof_from_cbor :: "Decoder \<Rightarrow> Error + NonInclusionProof" where
  "NonInclusionProof_from_cbor d =
     rbind (map_err Cbor (expect_tag d NON_INCLUSION_PROOF_TAG)) (\<lambda>inner.
     rbind (map_err Cbor (array inner (Some 3))) (\<lambda>items.
     rbind (map_err Cbor (uint_value (items ! 0))) (\<lambda>version.
       if version \<noteq> NON_INCLUSION_PROOF_VERSION
       then Err (UnexpectedValue ''unsupported NonInclusionProof version'')
       else
         rbind (map_err Cbor (bytes_value (items ! 1))) (\<lambda>b.
         rbind (NonInclusionCertificate_decode b) (\<lambda>certificate.
         rbind (UnicityCertificate_from_cbor (items ! 2)) (\<lambda>unicity_certificate.
           Ok \<lparr>np_certificate = certificate, np_unicity_certificate = unicity_certificate,
               np_requested_state_id = None\<rparr>))))))"

definition NonInclusionProof_to_cbor :: "NonInclusionProof \<Rightarrow> bytes" where
  "NonInclusionProof_to_cbor p =
     encode_tag NON_INCLUSION_PROOF_TAG (encode_array
       [encode_uint NON_INCLUSION_PROOF_VERSION,
        encode_byte_string (NonInclusionCertificate_encode (np_certificate p)),
        UnicityCertificate_to_cbor (np_unicity_certificate p)])"

definition for_state :: "NonInclusionProof \<Rightarrow> StateId \<Rightarrow> VerificationError + NonInclusionProof" where
  "for_state p state_id =
     (if is_some_and (np_requested_state_id p) (\<lambda>requested. requested \<noteq> state_id)
      then Err NonInclusionTargetMismatch
      else Ok (p\<lparr>np_requested_state_id := Some state_id\<rparr>))"

record NonInclusionContext =
  nx_shard :: "ShardId option"
  nx_shard_conf_hash :: "bytes option"
  nx_authority_end_round :: "u64 option"

definition NonInclusionContext_new :: NonInclusionContext where
  "NonInclusionContext_new =
     \<lparr>nx_shard = Some ShardId_root, nx_shard_conf_hash = None, nx_authority_end_round = None\<rparr>"

definition with_shard :: "NonInclusionContext \<Rightarrow> ShardId \<Rightarrow> NonInclusionContext" where
  "with_shard c shard = c\<lparr>nx_shard := Some shard\<rparr>"

definition with_shard_conf_hash :: "NonInclusionContext \<Rightarrow> bytes \<Rightarrow> NonInclusionContext" where
  "with_shard_conf_hash c hash = c\<lparr>nx_shard_conf_hash := Some hash\<rparr>"

definition with_authority_end_round :: "NonInclusionContext \<Rightarrow> u64 \<Rightarrow> NonInclusionContext" where
  "with_authority_end_round c round = c\<lparr>nx_authority_end_round := Some round\<rparr>"

definition digest_hasher :: "NonInclusionContext \<Rightarrow> DataHasher" where
  "digest_hasher c =
     (let h = update (to_be_bytes AGGREGATION_PARTITION_ID)
            (update (ascii ''unicity-token/non-inclusion-policy/v2'') sha256_hasher);
          opt = (\<lambda>present. [if present then 1 else 0] :: bytes);
          h = update (opt (nx_shard c \<noteq> None)) h;
          h = (case nx_shard c of None \<Rightarrow> h
               | Some s \<Rightarrow> let e = ShardId_encode s
                   in update e (update (to_be_bytes (word_of_nat (length e) :: u64)) h));
          h = update (opt (nx_shard_conf_hash c \<noteq> None)) h;
          h = (case nx_shard_conf_hash c of None \<Rightarrow> h | Some x \<Rightarrow> update x h);
          h = update (opt (nx_authority_end_round c \<noteq> None)) h
      in (case nx_authority_end_round c of None \<Rightarrow> h | Some r \<Rightarrow> update (to_be_bytes r) h))"

definition digest_of :: "sha2 \<Rightarrow> NonInclusionContext \<Rightarrow> bytes" where
  "digest_of sha2 c = dh_data (finalize sha2 (digest_hasher c))"

record NonInclusionSnapshot =
  sn_network_id :: NetworkId
  sn_partition_id :: u32
  sn_shard_id :: ShardId
  sn_root_round :: u64
  sn_seal_timestamp_seconds :: u64
  sn_root_epoch :: u64
  sn_shard_round :: u64
  sn_shard_epoch :: u64
  sn_state_root :: "bytes option"

datatype NonInclusionOutcome =
    AbsentAtSnapshot StateId NonInclusionSnapshot
  | IncludedAtSnapshot StateId NonInclusionSnapshot

primrec outcome_snapshot :: "NonInclusionOutcome \<Rightarrow> NonInclusionSnapshot" where
  "outcome_snapshot (AbsentAtSnapshot state_id snapshot) = snapshot"
| "outcome_snapshot (IncludedAtSnapshot state_id snapshot) = snapshot"

primrec outcome_state_id :: "NonInclusionOutcome \<Rightarrow> StateId" where
  "outcome_state_id (AbsentAtSnapshot state_id snapshot) = state_id"
| "outcome_state_id (IncludedAtSnapshot state_id snapshot) = state_id"

primrec is_absent :: "NonInclusionOutcome \<Rightarrow> bool" where
  "is_absent (AbsentAtSnapshot state_id snapshot) = True"
| "is_absent (IncludedAtSnapshot state_id snapshot) = False"

section \<open>Strict verification\<close>

definition verify_unicity_certificate_strict ::
  "sha2 \<Rightarrow> 'p k256 \<Rightarrow> SealSession \<Rightarrow> UnicityCertificate \<Rightarrow> NonInclusionContext \<Rightarrow>
   (SealSession, VerificationError, unit) st" where
  "verify_unicity_certificate_strict sha2 ec s uc ctx =
     (if utc_partition_identifier (uc_unicity_tree_certificate uc) \<noteq> AGGREGATION_PARTITION_ID
      then (Err PartitionMismatch, s)
      else
        let policy = digest_of sha2 ctx
        in case body_verified s uc policy of
             (hit, s) \<Rightarrow>
               if hit then (Ok (), s)
               else
                 let s = note_body_check s;
                     shard = stc_shard (uc_shard_tree_certificate uc);
                     seal = uc_unicity_seal uc
                 in sbind (map_err (\<lambda>_. CertificateBodyInvalid) (check_body uc), s) (\<lambda>_ s.
                    if length (stc_sibling_hash_list (uc_shard_tree_certificate uc)) \<noteq> sh_length shard
                    then (Err ShardPathInvalid, s)
                    else if is_some_and (nx_shard ctx) (\<lambda>expected. expected \<noteq> shard)
                    then (Err ShardPathInvalid, s)
                    else if is_some_and (nx_shard_conf_hash ctx) (\<lambda>pin. pin \<noteq> uc_shard_configuration_hash uc)
                    then (Err ConfigurationMismatch, s)
                    else
                      sbind (map_err (\<lambda>_. SealRootMismatch) (computed_seal_hash sha2 uc), s) (\<lambda>computed s.
                        if dh_data computed \<noteq> us_hash seal then (Err SealRootMismatch, s)
                        else
                          sbind (authenticate_seal_under sha2 ec s seal policy) (\<lambda>_ s.
                            if is_some_and (nx_authority_end_round ctx) (\<lambda>end_round. us_root_chain_round_number seal \<ge> end_round)
                            then (Err SealAfterAuthorityEnd, s)
                            else (Ok (), remember_body s uc policy)))))"

definition ni_snapshot :: "UnicityCertificate \<Rightarrow> bytes option \<Rightarrow> NonInclusionSnapshot" where
  "ni_snapshot uc state_root =
     \<lparr>sn_network_id = us_network_id (uc_unicity_seal uc),
      sn_partition_id = utc_partition_identifier (uc_unicity_tree_certificate uc),
      sn_shard_id = stc_shard (uc_shard_tree_certificate uc),
      sn_root_round = us_root_chain_round_number (uc_unicity_seal uc),
      sn_seal_timestamp_seconds = us_timestamp (uc_unicity_seal uc),
      sn_root_epoch = us_epoch (uc_unicity_seal uc),
      sn_shard_round = ir_round_number (uc_input_record uc),
      sn_shard_epoch = ir_epoch (uc_input_record uc),
      sn_state_root = state_root\<rparr>"

text \<open>The part of the verifier after the certificate is authenticated.\<close>

definition ni_relation ::
  "sha2 \<Rightarrow> NonInclusionProof \<Rightarrow> StateId \<Rightarrow> VerificationError + NonInclusionOutcome" where
  "ni_relation sha2 proof target =
     (let uc = np_unicity_certificate proof; shard = stc_shard (uc_shard_tree_certificate uc)
      in rbind (map_err (\<lambda>_. NonInclusionCertificateInvalid) (ir_root_hash (uc_input_record uc))) (\<lambda>state_root.
         rbind (case state_root of
                  None \<Rightarrow> Ok None
                | Some bytes \<Rightarrow> rbind (map_err (\<lambda>_. NonInclusionCertificateInvalid) (DataHash_new Sha256 bytes))
                    (\<lambda>h. Ok (Some h))) (\<lambda>expected_root.
           if \<not> authenticates sha2 (np_certificate proof) target expected_root
           then Err NonInclusionCertificateInvalid
           else if sh_length shard \<noteq> 0 \<and>
              (\<not> is_prefix_of shard (sid_bytes target) \<or>
               \<not> (case nic_body (np_certificate proof) of
                    None \<Rightarrow> True | Some body \<Rightarrow> is_prefix_of shard (nb_terminal_key body)))
           then Err ShardMismatch
           else
             let snapshot = ni_snapshot uc state_root
             in Ok (if terminal_matches (np_certificate proof) target
                    then IncludedAtSnapshot target snapshot
                    else AbsentAtSnapshot target snapshot))))"

definition verify_non_inclusion_in ::
  "sha2 \<Rightarrow> 'p k256 \<Rightarrow> SealSession \<Rightarrow> NonInclusionProof \<Rightarrow> StateId \<Rightarrow> NonInclusionContext \<Rightarrow>
   (SealSession, VerificationError, NonInclusionOutcome) st" where
  "verify_non_inclusion_in sha2 ec s proof target ctx =
     sbind (ensure_trust_base s) (\<lambda>_ s.
       if is_some_and (np_requested_state_id proof) (\<lambda>requested. requested \<noteq> target)
       then (Err NonInclusionTargetMismatch, s)
       else
         sbind (verify_unicity_certificate_strict sha2 ec s (np_unicity_certificate proof) ctx) (\<lambda>_ s.
           (ni_relation sha2 proof target, s)))"

definition verify_non_inclusion_at_snapshot ::
  "sha2 \<Rightarrow> 'p k256 \<Rightarrow> RootTrustBase \<Rightarrow> NonInclusionProof \<Rightarrow> StateId \<Rightarrow> NonInclusionContext \<Rightarrow>
   VerificationError + NonInclusionOutcome" where
  "verify_non_inclusion_at_snapshot sha2 ec tb proof target ctx =
     fst (verify_non_inclusion_in sha2 ec (SealSession_new tb) proof target ctx)"

definition verify_at_snapshot ::
  "sha2 \<Rightarrow> 'p k256 \<Rightarrow> NonInclusionProof \<Rightarrow> RootTrustBase \<Rightarrow> NonInclusionContext \<Rightarrow>
   VerificationError + NonInclusionOutcome" where
  "verify_at_snapshot sha2 ec proof tb ctx =
     rbind (ok_or NonInclusionTargetMissing (np_requested_state_id proof)) (\<lambda>target.
       verify_non_inclusion_at_snapshot sha2 ec tb proof target ctx)"

definition verify_for_at_snapshot ::
  "sha2 \<Rightarrow> 'p k256 \<Rightarrow> NonInclusionProof \<Rightarrow> StateId \<Rightarrow> RootTrustBase \<Rightarrow> NonInclusionContext \<Rightarrow>
   VerificationError + NonInclusionOutcome" where
  "verify_for_at_snapshot sha2 ec proof target tb ctx =
     (if is_some_and (np_requested_state_id proof) (\<lambda>requested. requested \<noteq> target)
      then Err NonInclusionTargetMismatch
      else verify_non_inclusion_at_snapshot sha2 ec tb proof target ctx)"

section \<open>Reference checks\<close>

definition strict_seal_check :: "sha2 \<Rightarrow> 'p k256 \<Rightarrow> RootTrustBase \<Rightarrow> UnicitySeal \<Rightarrow> VerificationError + unit" where
  "strict_seal_check sha2 ec tb seal =
     rbind (map_err VInvalidTrustBase (validate tb)) (\<lambda>_.
       if list_ex (\<lambda>n. tn_stake n \<noteq> 1) (tb_root_nodes tb) then Err UnsupportedAuthority
       else rbind (check_seal_shape seal) (\<lambda>_.
         if us_network_id seal \<noteq> tb_network_id tb then Err SealNetworkMismatch
         else if us_epoch seal \<noteq> tb_epoch tb then Err SealEpochMismatch
         else if us_root_chain_round_number seal < tb_epoch_start_round tb then Err SealBeforeEpochStart
         else seal_check sha2 ec tb seal))"

definition strict_check ::
  "sha2 \<Rightarrow> 'p k256 \<Rightarrow> RootTrustBase \<Rightarrow> NonInclusionContext \<Rightarrow> UnicityCertificate \<Rightarrow> VerificationError + unit" where
  "strict_check sha2 ec tb ctx uc =
     (if utc_partition_identifier (uc_unicity_tree_certificate uc) \<noteq> AGGREGATION_PARTITION_ID
      then Err PartitionMismatch
      else rbind (map_err (\<lambda>_. CertificateBodyInvalid) (check_body uc)) (\<lambda>_.
        if length (stc_sibling_hash_list (uc_shard_tree_certificate uc)) \<noteq>
           sh_length (stc_shard (uc_shard_tree_certificate uc)) then Err ShardPathInvalid
        else if is_some_and (nx_shard ctx) (\<lambda>expected. expected \<noteq> stc_shard (uc_shard_tree_certificate uc))
        then Err ShardPathInvalid
        else if is_some_and (nx_shard_conf_hash ctx) (\<lambda>pin. pin \<noteq> uc_shard_configuration_hash uc)
        then Err ConfigurationMismatch
        else rbind (map_err (\<lambda>_. SealRootMismatch) (computed_seal_hash sha2 uc)) (\<lambda>computed.
          if dh_data computed \<noteq> us_hash (uc_unicity_seal uc) then Err SealRootMismatch
          else rbind (strict_seal_check sha2 ec tb (uc_unicity_seal uc)) (\<lambda>_.
            if is_some_and (nx_authority_end_round ctx)
                 (\<lambda>end_round. us_root_chain_round_number (uc_unicity_seal uc) \<ge> end_round)
            then Err SealAfterAuthorityEnd else Ok ()))))"

definition non_inclusion_check ::
  "sha2 \<Rightarrow> 'p k256 \<Rightarrow> RootTrustBase \<Rightarrow> NonInclusionProof \<Rightarrow> StateId \<Rightarrow> NonInclusionContext \<Rightarrow>
   VerificationError + NonInclusionOutcome" where
  "non_inclusion_check sha2 ec tb proof target ctx =
     rbind (map_err VInvalidTrustBase (validate tb)) (\<lambda>_.
       if is_some_and (np_requested_state_id proof) (\<lambda>requested. requested \<noteq> target)
       then Err NonInclusionTargetMismatch
       else rbind (strict_check sha2 ec tb ctx (np_unicity_certificate proof)) (\<lambda>_. ni_relation sha2 proof target))"

text \<open>The strict check is stricter.\<close>

lemma strict_check_cert: "strict_check sha2 ec tb ctx uc = Ok () \<Longrightarrow> cert_check sha2 ec tb uc = Ok ()"
  by (auto simp: strict_check_def cert_check_def strict_seal_check_def result_simps split: if_splits)

text \<open>What a remembered body means when the contexts in \<open>C\<close> are in use: a body remembered under the
  digest of a context passed the strict check for that context.\<close>

definition strict_body ::
  "sha2 \<Rightarrow> 'p k256 \<Rightarrow> RootTrustBase \<Rightarrow> NonInclusionContext set \<Rightarrow> bytes \<Rightarrow> UnicityCertificate \<Rightarrow> bool" where
  "strict_body sha2 ec tb C p uc \<longleftrightarrow> cert_check sha2 ec tb uc = Ok () \<and>
     (\<forall>ctx\<in>C. p = digest_of sha2 ctx \<longrightarrow> strict_check sha2 ec tb ctx uc = Ok ())"

lemma strict_bodyI:
  assumes "strict_check sha2 ec tb ctx uc = Ok ()" "ctx \<in> C" "inj_on (digest_of sha2) C"
  shows "strict_body sha2 ec tb C (digest_of sha2 ctx) uc"
  using assms strict_check_cert by (auto simp: strict_body_def dest: inj_onD)

lemma authenticate_seal_under_yields:
  assumes ok: "session_ok sha2 ec tb Q B s" and seal: "seal \<in> Q" "inj_on (seal_key sha2) Q"
  shows "yields (session_ok sha2 ec tb Q B) (authenticate_seal_under sha2 ec s seal policy)
    (strict_seal_check sha2 ec tb seal)"
proof -
  obtain r s1 where ens: "ensure_trust_base s = (r, s1)" by (cases "ensure_trust_base s")
  have r: "r = map_err VInvalidTrustBase (validate tb)" and s1: "session_ok sha2 ec tb Q B s1"
    using ensure_trust_base_yields [OF ok] ens by (simp_all add: yields_def)
  note q = verify_quorum_under_yields [OF s1 seal, of policy]
  show ?thesis
    using ens r s1 q session_ok_trust_base [OF s1]
    by (cases "validate tb"; cases "check_seal_shape seal")
      (auto simp: authenticate_seal_under_def strict_seal_check_def Let_def yields_pure)
qed

theorem verify_unicity_certificate_strict_yields:
  assumes ok: "session_ok sha2 ec tb Q (strict_body sha2 ec tb C) s"
    and Q: "uc_unicity_seal uc \<in> Q" "inj_on (seal_key sha2) Q" and C: "ctx \<in> C" "inj_on (digest_of sha2) C"
  shows "yields (session_ok sha2 ec tb Q (strict_body sha2 ec tb C))
    (verify_unicity_certificate_strict sha2 ec s uc ctx) (strict_check sha2 ec tb ctx uc)"
proof -
  let ?I = "session_ok sha2 ec tb Q (strict_body sha2 ec tb C)" and ?policy = "digest_of sha2 ctx"
  let ?seal = "uc_unicity_seal uc"
  obtain hit s1 where probe: "body_verified s uc ?policy = (hit, s1)" by (cases "body_verified s uc ?policy")
  have s1: "?I s1" and hit: "hit \<Longrightarrow> strict_check sha2 ec tb ctx uc = Ok ()"
    using body_verified_session [OF ok probe] C(1) by (auto simp: strict_body_def)
  show ?thesis
  proof (cases "utc_partition_identifier (uc_unicity_tree_certificate uc) \<noteq> AGGREGATION_PARTITION_ID \<or> hit")
    case True
    then consider (foreign) "utc_partition_identifier (uc_unicity_tree_certificate uc) \<noteq> AGGREGATION_PARTITION_ID"
      | (hit) hit "utc_partition_identifier (uc_unicity_tree_certificate uc) = AGGREGATION_PARTITION_ID" by blast
    then show ?thesis
    proof cases
      case foreign
      then show ?thesis using ok by (simp add: verify_unicity_certificate_strict_def yields_def strict_check_def)
    next
      case h: hit
      then show ?thesis using s1 hit [OF h(1)] probe
        by (simp add: verify_unicity_certificate_strict_def yields_def)
    qed
  next
    case False
    have s2: "?I (note_body_check s1)" by (rule note_body_check_session [OF s1])
    obtain ra s3 where auth: "authenticate_seal_under sha2 ec (note_body_check s1) ?seal ?policy = (ra, s3)"
      by (cases "authenticate_seal_under sha2 ec (note_body_check s1) ?seal ?policy")
    have ra: "ra = strict_seal_check sha2 ec tb ?seal" and s3: "?I s3"
      using authenticate_seal_under_yields [OF s2 Q, of ?policy] auth by (simp_all add: yields_def)
    have remember: "?I (remember_body s3 uc ?policy)" if "strict_check sha2 ec tb ctx uc = Ok ()"
      by (intro remember_body_session strict_bodyI that C s3)
    show ?thesis using False probe auth [unfolded ra] s2 s3 remember
      by (cases "check_body uc"; cases "computed_seal_hash sha2 uc";
          cases "strict_seal_check sha2 ec tb ?seal")
        (auto simp: verify_unicity_certificate_strict_def strict_check_def Let_def yields_pure)
  qed
qed

theorem verify_non_inclusion_in_yields:
  assumes ok: "session_ok sha2 ec tb Q (strict_body sha2 ec tb C) s"
    and Q: "uc_unicity_seal (np_unicity_certificate proof) \<in> Q" "inj_on (seal_key sha2) Q"
    and C: "ctx \<in> C" "inj_on (digest_of sha2) C"
  shows "yields (session_ok sha2 ec tb Q (strict_body sha2 ec tb C))
    (verify_non_inclusion_in sha2 ec s proof target ctx) (non_inclusion_check sha2 ec tb proof target ctx)"
  unfolding verify_non_inclusion_in_def non_inclusion_check_def
  by (intro yields_bind yields_if yields_pure ensure_trust_base_yields
      verify_unicity_certificate_strict_yields ok Q C)

text \<open>A fresh session that checks one proof needs no assumption.\<close>

lemma verify_non_inclusion_at_snapshot_eq:
  "verify_non_inclusion_at_snapshot sha2 ec tb proof target ctx = non_inclusion_check sha2 ec tb proof target ctx"
  using verify_non_inclusion_in_yields [OF session_ok_new, of "proof"
      "{uc_unicity_seal (np_unicity_certificate proof)}" sha2 ctx "{ctx}" ec tb DEFAULT_SEAL_MEMO_CAPACITY target]
  by (simp add: verify_non_inclusion_at_snapshot_def SealSession_new_def yields_def)

lemma verify_inclusion_proof_for_eq:
  "verify_inclusion_proof_for sha2 ec tb proof sid t = inclusion_check sha2 ec tb proof sid t"
  using verify_inclusion_proof_in_yields [OF session_ok_new,
      of sha2 "{uc_unicity_seal (ip_unicity_certificate proof)}" "proof" ec tb DEFAULT_SEAL_MEMO_CAPACITY sid t]
  by (simp add: verify_inclusion_proof_for_def SealSession_new_def yields_def)

section \<open>What an outcome means\<close>

definition strict_valid ::
  "sha2 \<Rightarrow> 'p k256 \<Rightarrow> RootTrustBase \<Rightarrow> NonInclusionContext \<Rightarrow> UnicityCertificate \<Rightarrow> bool" where
  "strict_valid sha2 ec tb ctx uc \<longleftrightarrow> uc_valid sha2 ec tb uc \<and>
     (\<forall>n\<in>set (tb_root_nodes tb). tn_stake n = 1) \<and>
     us_epoch (uc_unicity_seal uc) = tb_epoch tb \<and>
     tb_epoch_start_round tb \<le> us_root_chain_round_number (uc_unicity_seal uc) \<and>
     length (stc_sibling_hash_list (uc_shard_tree_certificate uc)) =
       sh_length (stc_shard (uc_shard_tree_certificate uc)) \<and>
     (\<forall>s. nx_shard ctx = Some s \<longrightarrow> stc_shard (uc_shard_tree_certificate uc) = s) \<and>
     (\<forall>h. nx_shard_conf_hash ctx = Some h \<longrightarrow> uc_shard_configuration_hash uc = h) \<and>
     (\<forall>r. nx_authority_end_round ctx = Some r \<longrightarrow> us_root_chain_round_number (uc_unicity_seal uc) < r)"

lemma strict_check_iff: "strict_check sha2 ec tb ctx uc = Ok () \<longleftrightarrow> strict_valid sha2 ec tb ctx uc"
  using cert_check_iff [of sha2 ec tb uc] seal_check_iff [of sha2 ec tb "uc_unicity_seal uc"]
  by (auto simp: strict_check_def strict_seal_check_def strict_valid_def uc_valid_def result_simps
      is_some_and_iff list_ex_iff not_less not_le split: if_splits)

definition ni_root :: "UnicityCertificate \<Rightarrow> DataHash option" where
  "ni_root uc = map_option (\<lambda>b. \<lparr>dh_algorithm = Sha256, dh_data = b\<rparr>) (ir_hash (uc_input_record uc))"

lemma ni_relation_absent_iff:
  "ni_relation sha2 proof target = Ok (AbsentAtSnapshot sid snap) \<longleftrightarrow>
     sid = target \<and> snap = ni_snapshot (np_unicity_certificate proof) (ir_hash (uc_input_record (np_unicity_certificate proof))) \<and>
     (\<forall>root. ir_hash (uc_input_record (np_unicity_certificate proof)) = Some root \<longrightarrow> length root = 32) \<and>
     relation_to_trusted_root sha2 (np_certificate proof) target (ni_root (np_unicity_certificate proof)) = Ok Absent \<and>
     (let shard = stc_shard (uc_shard_tree_certificate (np_unicity_certificate proof))
      in sh_length shard = 0 \<or> is_prefix_of shard (sid_bytes target) \<and>
         (\<forall>body. nic_body (np_certificate proof) = Some body \<longrightarrow> is_prefix_of shard (nb_terminal_key body)))"
proof (cases "ir_hash (uc_input_record (np_unicity_certificate proof))")
  case None
  then show ?thesis
    by (auto simp: ni_relation_def ir_root_hash_def ni_root_def relation_to_trusted_root_def Let_def split: option.splits)
next
  case (Some root)
  then show ?thesis
    by (auto simp: ni_relation_def ir_root_hash_def ni_root_def relation_to_trusted_root_def Let_def
        DataHash_new_def DataHash_wf_def split: option.splits if_splits)
qed

text \<open>What an outcome asserts, without the verifier: the target and the terminal lie in the shard, and either the
  certified state root is null or the path folds to it; the terminal decides between included and absent.\<close>

definition in_shard :: "ShardId \<Rightarrow> bytes \<Rightarrow> bool" where
  "in_shard s key \<longleftrightarrow> sh_length s \<le> 8 * length key \<and> (\<forall>i < sh_length s. bit_at (sh_bits s) i = bit_at key i)"

definition ni_outcome_ok :: "sha2 \<Rightarrow> NonInclusionProof \<Rightarrow> StateId \<Rightarrow> NonInclusionOutcome \<Rightarrow> bool" where
  "ni_outcome_ok sha2 proof target outcome \<longleftrightarrow>
     (let uc = np_unicity_certificate proof; shard = stc_shard (uc_shard_tree_certificate uc);
          root = ir_hash (uc_input_record uc)
      in in_shard shard (sid_bytes target) \<and>
         (case nic_body (np_certificate proof) of
            None \<Rightarrow> root = None \<and> outcome = AbsentAtSnapshot target (ni_snapshot uc None)
          | Some body \<Rightarrow>
              (\<exists>h. root = Some h \<and> length h = 32 \<and>
                 fold_certificate_path sha2 (nb_bitmap body) (nb_siblings body) (sid_bytes target) (nb_terminal_key body)
                   (nb_terminal_value body) = Some \<lparr>dh_algorithm = Sha256, dh_data = h\<rparr>) \<and>
              in_shard shard (nb_terminal_key body) \<and>
              outcome = (if nb_terminal_key body = sid_bytes target then IncludedAtSnapshot target (ni_snapshot uc root)
                         else AbsentAtSnapshot target (ni_snapshot uc root))))"

lemma ni_relation_iff: 
  assumes "ShardId_wf (stc_shard (uc_shard_tree_certificate (np_unicity_certificate proof)))"
  shows "ni_relation sha2 proof target = Ok outcome \<longleftrightarrow> ni_outcome_ok sha2 proof target outcome"
proof -
  let ?s = "stc_shard (uc_shard_tree_certificate (np_unicity_certificate proof))"
  have in_shard: "is_prefix_of ?s = in_shard ?s" using is_prefix_of_bits [OF assms] by (simp add: fun_eq_iff in_shard_def)
  have root: "in_shard ?s key" if "sh_length ?s = 0" for key
    using that by (simp add: in_shard_def)
  show ?thesis
  proof (cases "ir_hash (uc_input_record (np_unicity_certificate proof))")
    case None
    then show ?thesis using root
      by (cases "nic_body (np_certificate proof)")
        (auto simp: ni_relation_def ni_outcome_ok_def in_shard ir_root_hash_def authenticates_def terminal_matches_def Let_def split: if_splits)
  next
    case (Some h)
    then show ?thesis using root
      by (cases "nic_body (np_certificate proof)")
        (auto simp: ni_relation_def ni_outcome_ok_def in_shard ir_root_hash_def authenticates_def terminal_matches_def Let_def
          DataHash_new_def DataHash_wf_def split: if_splits option.splits)
  qed
qed

theorem verify_non_inclusion_iff:
  assumes "ShardId_wf (stc_shard (uc_shard_tree_certificate (np_unicity_certificate proof)))"
  shows "verify_non_inclusion_at_snapshot sha2 ec tb proof target ctx = Ok outcome \<longleftrightarrow>
    np_requested_state_id proof \<in> {None, Some target} \<and>
    strict_valid sha2 ec tb ctx (np_unicity_certificate proof) \<and> ni_outcome_ok sha2 proof target outcome"
proof -
  have valid: "strict_valid sha2 ec tb ctx uc \<Longrightarrow> validate tb = Ok ()" for uc
    by (simp add: strict_valid_def uc_valid_def)
  have "is_some_and (np_requested_state_id proof) (\<lambda>requested. requested \<noteq> target) \<longleftrightarrow>
      np_requested_state_id proof \<notin> {None, Some target}" by (auto simp: is_some_and_iff)
  then show ?thesis
    using valid [of "np_unicity_certificate proof"]
    by (auto simp: verify_non_inclusion_at_snapshot_eq non_inclusion_check_def result_simps ni_relation_iff [OF assms] strict_check_iff)
qed

lemma absent_sound:
  assumes "verify_non_inclusion_at_snapshot sha2 ec tb proof target ctx = Ok (AbsentAtSnapshot sid snap)"
  shows "sid = target \<and> strict_valid sha2 ec tb ctx (np_unicity_certificate proof) \<and>
    snap = ni_snapshot (np_unicity_certificate proof) (ir_hash (uc_input_record (np_unicity_certificate proof))) \<and>
    relation_to_trusted_root sha2 (np_certificate proof) target (ni_root (np_unicity_certificate proof)) = Ok Absent"
  using assms unfolding verify_non_inclusion_at_snapshot_eq non_inclusion_check_def
  by (auto simp: result_simps ni_relation_absent_iff strict_check_iff split: if_splits)

text \<open>An inclusion and an absence of one state under one root need a SHA-256 collision.\<close>

lemma inclusion_check_state:
  assumes "inclusion_check sha2 ec tb proof sid (ip_reference_time proof) = Ok ()"
  shows "uc_valid sha2 ec tb (ip_unicity_certificate proof) \<and>
    state_proved sha2 proof sid (cd_transaction_hash (ip_certification_data proof))"
  using assms by (auto simp: inclusion_check_def membership_check_def result_simps membership_checks_iff
      cert_check_iff Let_def)

theorem inclusion_or_absence:
  assumes "sha2_lengths sha2" "InclusionCertificate_wf (ip_inclusion_certificate incl)"
    "NonInclusionCertificate_wf (np_certificate absent)" "StateId_wf sid"
    and incl: "verify_inclusion_proof_for sha2 ec tb incl sid (ip_reference_time incl) = Ok ()"
    and abs: "verify_non_inclusion_at_snapshot sha2 ec' tb' absent sid ctx = Ok (AbsentAtSnapshot sid snap)"
    and root: "sn_state_root snap = ir_hash (uc_input_record (ip_unicity_certificate incl))"
  shows "collides sha2
    (ic_preimages sha2 (ip_inclusion_certificate incl) sid
      (calculate_leaf_value sha2 (cd_transaction_hash (ip_certification_data incl)) (ip_reference_time incl)))
    (nic_preimages sha2 (np_certificate absent) sid)"
proof -
  obtain r where r: "ir_hash (uc_input_record (ip_unicity_certificate incl)) = Some r"
    "InclusionCertificate_verify sha2 (ip_inclusion_certificate incl) sid
      (calculate_leaf_value sha2 (cd_transaction_hash (ip_certification_data incl)) (ip_reference_time incl))
      \<lparr>dh_algorithm = Sha256, dh_data = r\<rparr>"
    using inclusion_check_state [OF incl [unfolded verify_inclusion_proof_for_eq]] by (auto simp: state_proved_def)
  have "relation_to_trusted_root sha2 (np_certificate absent) sid (Some \<lparr>dh_algorithm = Sha256, dh_data = r\<rparr>)
      = Ok Absent"
    using absent_sound [OF abs] r(1) root by (simp add: ni_snapshot_def ni_root_def)
  from inclusion_excludes_absence [OF assms(1-4) r(2) this] show ?thesis .
qed

section \<open>One state, one spend\<close>

lemma leaf_value_inj:
  assumes "length (dh_data h) \<le> 64" "length (dh_data h') \<le> 64"
    and "encode_array [encode_byte_string (dh_data h), encode_uint t] =
      encode_array [encode_byte_string (dh_data h'), encode_uint t']"
  shows "dh_data h = dh_data h' \<and> t = t'"
proof -
  have "length (encode_array [encode_byte_string (dh_data h), encode_uint t]) < 2 ^ 64"
    using assms(1) length_head_le [of major_ARRAY 2] length_head_le [of major_UINT t]
      length_head_le [of major_BYTES "word_of_nat (length (dh_data h))"]
    by (simp add: encode_array_def encode_byte_string_def encode_uint_def push_head_Nil)
  from encode_array_inj [OF _ _ assms(3) this] show ?thesis
    by (auto dest: encode_byte_string_inj encode_uint_inj)
qed

text \<open>The hash inputs that a verified proof of a transaction shows: its tree path, its leaf, and the
  transaction.\<close>

definition spend_preimages :: "sha2 \<Rightarrow> Transaction \<Rightarrow> InclusionProof \<Rightarrow> bytes set" where
  "spend_preimages sha2 tx p =
     ic_preimages sha2 (ip_inclusion_certificate p)
       (StateId_derive sha2 (tx_lock_script tx) (tx_source_state_hash tx))
       (calculate_leaf_value sha2 (calculate_transaction_hash sha2 tx) (ip_reference_time p)) \<union>
     {encode_array [encode_byte_string (dh_data (calculate_transaction_hash sha2 tx)),
        encode_uint (ip_reference_time p)], tx_cbor tx}"

theorem one_spend_per_root:
  assumes len: "sha2_lengths sha2"
    and wf: "InclusionCertificate_wf (ip_inclusion_certificate p)" "InclusionCertificate_wf (ip_inclusion_certificate p')"
    and valid: "proof_valid sha2 ec tb tx p" "proof_valid sha2 ec' tb' tx' p'"
    and state: "tx_lock_script tx = tx_lock_script tx'" "tx_source_state_hash tx = tx_source_state_hash tx'"
    and root: "ir_hash (uc_input_record (ip_unicity_certificate p)) = ir_hash (uc_input_record (ip_unicity_certificate p'))"
  shows "tx_cbor tx = tx_cbor tx' \<and> ip_reference_time p = ip_reference_time p' \<or>
    collides sha2 (spend_preimages sha2 tx p) (spend_preimages sha2 tx' p')"
proof -
  let ?sid = "StateId_derive sha2 (tx_lock_script tx) (tx_source_state_hash tx)"
  let ?h = "calculate_transaction_hash sha2 tx" and ?h' = "calculate_transaction_hash sha2 tx'"
  let ?leaf = "calculate_leaf_value sha2 ?h (ip_reference_time p)"
    and ?leaf' = "calculate_leaf_value sha2 ?h' (ip_reference_time p')"
  let ?pre = "\<lambda>h t. encode_array [encode_byte_string (dh_data h), encode_uint t]"
  note sets = spend_preimages_def
  obtain r where r: "InclusionCertificate_verify sha2 (ip_inclusion_certificate p) ?sid ?leaf \<lparr>dh_algorithm = Sha256, dh_data = r\<rparr>"
      "InclusionCertificate_verify sha2 (ip_inclusion_certificate p') ?sid ?leaf' \<lparr>dh_algorithm = Sha256, dh_data = r\<rparr>"
    using valid root by (auto simp: proof_valid_def state_proved_def Let_def state)
  have "StateId_wf ?sid" using len by (simp add: StateId_wf_def StateId_derive_def sha2_lengths_def)
  then consider (leaf) "dh_data ?leaf = dh_data ?leaf'"
    | (path) "collides sha2 (ic_preimages sha2 (ip_inclusion_certificate p) ?sid ?leaf)
        (ic_preimages sha2 (ip_inclusion_certificate p') ?sid ?leaf')"
    using inclusion_unique [OF len wf _ r] by blast
  then show ?thesis
  proof cases
    case path
    then show ?thesis by (intro disjI2) (rule collides_mono, auto simp: sets state)
  next
    case leaf
    show ?thesis
    proof (cases "?pre ?h (ip_reference_time p) = ?pre ?h' (ip_reference_time p')")
      case False
      then show ?thesis using leaf
        by (intro disjI2 collidesI [OF _ _ _ False]) (auto simp: sets calculate_leaf_value_def)
    next
      case True
      have "dh_data ?h = dh_data ?h' \<and> ip_reference_time p = ip_reference_time p'"
        by (rule leaf_value_inj [OF _ _ True])
          (use len in \<open>simp_all add: calculate_transaction_hash_def sha2_lengths_def\<close>)
      moreover have "tx_cbor tx = tx_cbor tx' \<or> collides sha2 {tx_cbor tx} {tx_cbor tx'}"
        using calculation by (auto simp: collides_def calculate_transaction_hash_def)
      moreover have "{tx_cbor tx} \<subseteq> spend_preimages sha2 tx p" "{tx_cbor tx'} \<subseteq> spend_preimages sha2 tx' p'"
        by (simp_all add: sets)
      ultimately show ?thesis
        using collides_mono [of sha2 "{tx_cbor tx}" "{tx_cbor tx'}" "spend_preimages sha2 tx p"
            "spend_preimages sha2 tx' p'"] by argo
    qed
  qed
qed

section \<open>The digest of a context\<close>

definition NonInclusionContext_wf :: "NonInclusionContext \<Rightarrow> bool" where
  "NonInclusionContext_wf c \<longleftrightarrow>
     (\<forall>s. nx_shard c = Some s \<longrightarrow> ShardId_wf s \<and> length (ShardId_encode s) < 2 ^ 64) \<and>
     (\<forall>h. nx_shard_conf_hash c = Some h \<longrightarrow> length h = 32)"

lemma digest_of_eq: "digest_of sha2 c = sha2 Sha256 (hr_input (digest_hasher c))"
proof -
  have "hr_algorithm (digest_hasher c) = Sha256"
    by (simp add: digest_hasher_def Let_def split: option.splits)
  then show ?thesis by (simp add: digest_of_def finalize_def)

qed

lemma flagged_inj:
  assumes "[if x \<noteq> None then 1 else 0 :: u8] @ (case x of None \<Rightarrow> [] | Some v \<Rightarrow> f v) @ r =
      [if y \<noteq> None then 1 else 0] @ (case y of None \<Rightarrow> [] | Some v \<Rightarrow> f v) @ r'"
    and "\<And>v w. x = Some v \<Longrightarrow> y = Some w \<Longrightarrow> f v @ r = f w @ r' \<Longrightarrow> v = w \<and> r = r'"
  shows "x = y \<and> r = r'"
proof (cases x)
  case None
  then show ?thesis using assms(1) by (cases y) simp_all
next
  case (Some v)
  then obtain w where w: "y = Some w" using assms(1) by (cases y) simp_all
  then have "f v @ r = f w @ r'" using assms(1) Some by simp
  from assms(2) [OF Some w this] show ?thesis by (simp add: Some w)
qed

lemma to_be_bytes_eq: "to_be_bytes (v :: u64) = to_be_bytes w \<longleftrightarrow> v = w"
  using to_be_bytes_inj [of v w] by auto

lemma digest_preimage_inj:
  assumes wf: "NonInclusionContext_wf c" "NonInclusionContext_wf c'"
    and eq: "hr_input (digest_hasher c) = hr_input (digest_hasher c')"
  shows "c = c'"
proof -
  define pre where "pre c = (\<lambda>r. [if nx_shard c \<noteq> None then 1 else 0 :: u8] @
      (case nx_shard c of None \<Rightarrow> [] | Some s \<Rightarrow> to_be_bytes (word_of_nat (length (ShardId_encode s)) :: u64) @ ShardId_encode s) @ r)" for c :: NonInclusionContext
  define mid where "mid c = (\<lambda>r. [if nx_shard_conf_hash c \<noteq> None then 1 else 0 :: u8] @
      (case nx_shard_conf_hash c of None \<Rightarrow> [] | Some h \<Rightarrow> h) @ r)" for c :: NonInclusionContext
  define fin where "fin c = [if nx_authority_end_round c \<noteq> None then 1 else 0 :: u8] @
      (case nx_authority_end_round c of None \<Rightarrow> [] | Some r \<Rightarrow> to_be_bytes r) @ []" for c :: NonInclusionContext
  have input: "hr_input (digest_hasher c) = ascii ''unicity-token/non-inclusion-policy/v2'' @
      to_be_bytes AGGREGATION_PARTITION_ID @ pre c (mid c (fin c))" for c
    by (simp add: digest_hasher_def Let_def pre_def mid_def fin_def split: option.splits)
  have all: "pre c (mid c (fin c)) = pre c' (mid c' (fin c'))"
    using eq unfolding input by simp
  have enc: "s = s' \<and> r = r'"
    if "nx_shard c = Some s" "nx_shard c' = Some s'"
      "(to_be_bytes (word_of_nat (length (ShardId_encode s)) :: u64) @ ShardId_encode s) @ r =
       (to_be_bytes (word_of_nat (length (ShardId_encode s')) :: u64) @ ShardId_encode s') @ r'" for s s' r r'
  proof -
    have "ShardId_wf s" "ShardId_wf s'" and len: "length (ShardId_encode s) < 2 ^ 64" "length (ShardId_encode s') < 2 ^ 64"
      using wf that(1,2) by (simp_all add: NonInclusionContext_wf_def)
    have "word_of_nat (length (ShardId_encode s)) = (word_of_nat (length (ShardId_encode s')) :: u64)"
      using that(3) by (intro to_be_bytes_inj) simp_all
    then have "length (ShardId_encode s) = length (ShardId_encode s')"
      using len unat_word_of_nat by metis
    then have e: "ShardId_encode s = ShardId_encode s' \<and> r = r'" using that(3) by simp
    have "Ok s = ShardId_decode (ShardId_encode s)"
      by (rule ShardId_decode_encode [OF \<open>ShardId_wf s\<close>, symmetric])
    also have "\<dots> = Ok s'"
      unfolding conjunct1 [OF e] by (rule ShardId_decode_encode [OF \<open>ShardId_wf s'\<close>])
    finally show ?thesis using e by blast
  qed
  have shard: "nx_shard c = nx_shard c' \<and> mid c (fin c) = mid c' (fin c')"
    by (rule flagged_inj [OF all [unfolded pre_def]]) (rule enc)
  have conf: "nx_shard_conf_hash c = nx_shard_conf_hash c' \<and> fin c = fin c'"
    by (rule flagged_inj [OF conjunct2 [OF shard, unfolded mid_def]])
      (use wf in \<open>auto simp: NonInclusionContext_wf_def\<close>)
  have "nx_authority_end_round c = nx_authority_end_round c' \<and> [] = ([] :: bytes)"
    by (rule flagged_inj [OF conjunct2 [OF conf, unfolded fin_def]]) (simp add: to_be_bytes_eq)
  then show ?thesis using shard conf by simp
qed

end
