(* ===== verification/Assemble.thy ===== *)
theory Assemble
  imports Shard_Tree Partition_View Non_Inclusion
begin

text \<open>
  Authenticated assembly of certificates (\<open>src/src/consolidation/assemble.rs\<close>). The tree of a view is read
  by climbing links, so the operations that read certificates return an \<open>option\<close> that is \<open>None\<close> when a
  climb does not end; on views whose shard ids are well-formed they always return. The seal authority is an
  argument, a state-passing function; \<open>authenticate\<close> passes a seal session.
\<close>

section \<open>Validation\<close>

type_synonym 'a partial_result = "(PartitionViewError + 'a) option"

fun pbind :: "'a partial_result \<Rightarrow> ('a \<Rightarrow> 'b partial_result) \<Rightarrow> 'b partial_result" where
  "pbind None f = None"
| "pbind (Some (Inl e)) f = Some (Inl e)"
| "pbind (Some (Inr x)) f = f x"

primrec pmap :: "('a \<Rightarrow> 'b partial_result) \<Rightarrow> 'a list \<Rightarrow> 'b list partial_result" where
  "pmap f [] = Some (Ok [])"
| "pmap f (x # xs) = pbind (f x) (\<lambda>y. pbind (pmap f xs) (\<lambda>ys. Some (Ok (y # ys))))"

text \<open>The loop over the leaves zipped with the canonical order.\<close>

fun check_leaves :: "PartitionTopology \<Rightarrow> PartitionViewLeaf list \<Rightarrow> ShardId list \<Rightarrow> PartitionViewError + unit" where
  "check_leaves topology (leaf # leaves) (shard # ids) =
     (if lf_shard_id leaf \<noteq> shard then Err (LeafSetMismatch ''unexpected shard or order'')
      else if (case shard_conf_hash topology shard of
                 Some admitted \<Rightarrow> admitted \<noteq> lf_shard_conf_hash leaf | None \<Rightarrow> False)
      then Err ConfigHashMismatch
      else check_leaves topology leaves ids)"
| "check_leaves topology _ _ = Ok ()"

definition validate_structure :: "PartitionView \<Rightarrow> PartitionTopology \<Rightarrow> PartitionViewError + unit" where
  "validate_structure view topology =
     rbind (check_bounds view) (\<lambda>_.
       if pw_partition_id view \<noteq> AGGREGATION_PARTITION_ID then Err ViewPartitionMismatch
       else rbind (canonical_order topology) (\<lambda>order.
         if length (pw_leaves view) \<noteq> length order then Err (LeafSetMismatch ''leaf count'')
         else check_leaves topology (pw_leaves view) order))"

definition build_shard_tree :: "sha2 \<Rightarrow> PartitionView \<Rightarrow> PartitionTopology \<Rightarrow> PartitionViewError + ShardTree" where
  "build_shard_tree sha2 view topology =
     rbind (validate_structure view topology) (\<lambda>_.
       ShardTree_build sha2 (map (\<lambda>l. (lf_shard_id l, view_leaf_hash sha2 l)) (pw_leaves view)))"

definition verify_tree :: "sha2 \<Rightarrow> PartitionView \<Rightarrow> UnicityCertificate \<Rightarrow> PartitionTopology \<Rightarrow> ShardTree partial_result" where
  "verify_tree sha2 view enclosing topology =
     pbind (Some (build_shard_tree sha2 view topology)) (\<lambda>tree.
       let utc = uc_unicity_tree_certificate enclosing
       in if utc_partition_identifier utc \<noteq> AGGREGATION_PARTITION_ID
          then Some (Err (EnclosingCertificate ''certificate is of another partition''))
          else
            let root = compute_root_hash sha2 utc (ShardTree_root_hash tree)
            in if dh_data root \<noteq> us_hash (uc_unicity_seal enclosing) then Some (Err TreeRootMismatch)
               else
                 let own = stc_shard (uc_shard_tree_certificate enclosing)
                 in pbind (Some (ok_or (EnclosingCertificate ''certificate shard is not in the view'')
                      (find (\<lambda>l. lf_shard_id l = own) (pw_leaves view)))) (\<lambda>leaf.
                    if uc_shard_configuration_hash enclosing \<noteq> lf_shard_conf_hash leaf
                    then Some (Err (EnclosingCertificate ''shard configuration hash differs from the view''))
                    else if uc_technical_record_hash enclosing \<noteq> Some (lf_tr_hash leaf)
                    then Some (Err (EnclosingCertificate ''technical record hash differs from the view''))
                    else if from_input_record (uc_input_record enclosing) \<noteq> lf_input_record leaf
                    then Some (Err (EnclosingCertificate ''input record differs from the view''))
                    else pbind (ShardTree_certificate tree own) (\<lambda>own_cert.
                      if stc_sibling_hash_list own_cert \<noteq> stc_sibling_hash_list (uc_shard_tree_certificate enclosing)
                      then Some (Err (EnclosingCertificate ''shard tree certificate differs from the view''))
                      else Some (rbind (map_err SealFailure (check_seal_shape (uc_unicity_seal enclosing))) (\<lambda>_. Ok tree)))))"

section \<open>Authentication\<close>

record AuthenticatedView =
  av_partition_id :: u32
  av_leaves :: "PartitionViewLeaf list"
  av_tree :: ShardTree
  av_unicity_tree_certificate :: UnicityTreeCertificate
  av_seal :: UnicitySeal
  av_policy :: bytes
  av_identity :: bytes

definition pins_digest :: "sha2 \<Rightarrow> PartitionTopology option \<Rightarrow> bytes" where
  "pins_digest sha2 pins = (case pins of None \<Rightarrow> replicate 32 0 | Some t \<Rightarrow> PartitionTopology_digest sha2 t)"

definition view_policy :: "sha2 \<Rightarrow> PartitionTopology option \<Rightarrow> bytes" where
  "view_policy sha2 pins =
     dh_data (finalize sha2 (update (pins_digest sha2 pins)
       (update [if pins \<noteq> None then 1 else 0]
       (update (to_be_bytes AGGREGATION_PARTITION_ID)
       (update (ascii ''unicity-token/view-policy/v1'') sha256_hasher)))))"

definition view_identity :: "sha2 \<Rightarrow> bytes \<Rightarrow> PartitionTopology option \<Rightarrow> UnicitySeal \<Rightarrow> bytes" where
  "view_identity sha2 authority pins seal =
     (let identity = update [if pins \<noteq> None then 1 else 0]
            (update (pins_digest sha2 pins)
            (update (to_be_bytes AGGREGATION_PARTITION_ID)
            (update authority (update (ascii ''unicity-token/authenticated-view/v1'') sha256_hasher))));
          seal_bytes = UnicitySeal_to_cbor seal
      in dh_data (finalize sha2 (update seal_bytes (update (len_be (length seal_bytes)) identity))))"

text \<open>The topology of the candidate itself.\<close>

definition candidate_topology :: "PartitionView \<Rightarrow> PartitionTopology" where
  "candidate_topology view =
     (let ids = map lf_shard_id (pw_leaves view)
      in PartitionTopology_new (if length ids = 1 \<and> sh_length (ids ! 0) = 0 then [] else ids))"

type_synonym 's authority = "'s \<Rightarrow> UnicitySeal \<Rightarrow> bytes \<Rightarrow> (VerificationError + unit) \<times> 's"

definition authenticate_with ::
  "sha2 \<Rightarrow> 's authority \<Rightarrow> PartitionView \<Rightarrow> UnicityCertificate \<Rightarrow> PartitionTopology option \<Rightarrow> 's \<Rightarrow> bytes \<Rightarrow>
   ((PartitionViewError + AuthenticatedView) \<times> 's) option" where
  "authenticate_with sha2 authority view enclosing pins s authority_id =
     (case pbind (Some (case pins of Some pinned \<Rightarrow> Ok pinned
                        | None \<Rightarrow> rbind (check_bounds view) (\<lambda>_. Ok (candidate_topology view))))
             (verify_tree sha2 view enclosing) of
        None \<Rightarrow> None
      | Some (Inl e) \<Rightarrow> Some (Err e, s)
      | Some (Inr tree) \<Rightarrow>
          let policy = view_policy sha2 pins; seal = uc_unicity_seal enclosing
          in Some (case authority s seal policy of
               (Inl e, s) \<Rightarrow> (Err (SealFailure e), s)
             | (Inr _, s) \<Rightarrow>
                 (Ok \<lparr>av_partition_id = pw_partition_id view, av_leaves = pw_leaves view, av_tree = tree,
                     av_unicity_tree_certificate = uc_unicity_tree_certificate enclosing, av_seal = seal,
                     av_policy = policy, av_identity = view_identity sha2 authority_id pins seal\<rparr>, s)))"

definition authenticate ::
  "sha2 \<Rightarrow> 'p k256 \<Rightarrow> PartitionView \<Rightarrow> UnicityCertificate \<Rightarrow> PartitionTopology option \<Rightarrow> SealSession \<Rightarrow>
   ((PartitionViewError + AuthenticatedView) \<times> SealSession) option" where
  "authenticate sha2 ec view enclosing pins s =
     authenticate_with sha2 (authenticate_seal_under sha2 ec) view enclosing pins s (authority_identity sha2 s)"

section \<open>Certificates\<close>

record ShardCertificate =
  sc_shard_id :: ShardId
  sc_shard_tree_certificate :: ShardTreeCertificate
  sc_certificate :: "UnicityCertificate option"

definition leaf_of :: "AuthenticatedView \<Rightarrow> ShardId \<Rightarrow> PartitionViewLeaf option" where
  "leaf_of av shard =
     map_option (\<lambda>i. av_leaves av ! i) (binary_search_by (\<lambda>l. canonical_cmp (lf_shard_id l) shard) (av_leaves av))"

definition derive :: "AuthenticatedView \<Rightarrow> nat \<Rightarrow> ShardCertificate partial_result" where
  "derive av index =
     (let leaf = av_leaves av ! index
      in pbind (ShardTree_certificate (av_tree av) (lf_shard_id leaf)) (\<lambda>stc.
           let certificate = Some
             \<lparr>uc_input_record = to_input_record (lf_input_record leaf),
              uc_technical_record_hash = Some (lf_tr_hash leaf),
              uc_shard_configuration_hash = lf_shard_conf_hash leaf,
              uc_shard_tree_certificate = stc,
              uc_unicity_tree_certificate = av_unicity_tree_certificate av,
              uc_unicity_seal = av_seal av\<rparr>
           in Some (Ok \<lparr>sc_shard_id = lf_shard_id leaf, sc_shard_tree_certificate = stc, sc_certificate = certificate\<rparr>)))"

definition certificates :: "AuthenticatedView \<Rightarrow> ShardCertificate list partial_result" where
  "certificates av = pmap (derive av) [0..<length (av_leaves av)]"

definition certificate_of :: "AuthenticatedView \<Rightarrow> ShardId \<Rightarrow> ShardCertificate partial_result" where
  "certificate_of av shard =
     (case binary_search_by (\<lambda>l. canonical_cmp (lf_shard_id l) shard) (av_leaves av) of
        None \<Rightarrow> Some (Err (LeafSetMismatch ''shard is not in the view''))
      | Some i \<Rightarrow> derive av i)"

definition assemble_certificates ::
  "sha2 \<Rightarrow> 's authority \<Rightarrow> PartitionView \<Rightarrow> UnicityCertificate \<Rightarrow> PartitionTopology \<Rightarrow> 's \<Rightarrow>
   ((PartitionViewError + ShardCertificate list) \<times> 's) option" where
  "assemble_certificates sha2 authority view enclosing topology s =
     (case rbind (canonical_order topology) (\<lambda>ids.
             try_for_each (\<lambda>i. if shard_conf_hash topology i = None then Err ConfigHashRequired else Ok ()) ids) of
        Inl e \<Rightarrow> Some (Err e, s)
      | Inr _ \<Rightarrow>
          (case authenticate_with sha2 authority view enclosing (Some topology) s (replicate 32 0) of
             None \<Rightarrow> None
           | Some (Inl e, s) \<Rightarrow> Some (Err e, s)
           | Some (Inr av, s) \<Rightarrow> map_option (\<lambda>r. (r, s)) (certificates av)))"

section \<open>The tree of a view\<close>

definition view_ids :: "PartitionViewLeaf list \<Rightarrow> ShardId list" where
  "view_ids leaves = map lf_shard_id leaves"

definition leaf_hash_at :: "sha2 \<Rightarrow> PartitionViewLeaf list \<Rightarrow> bool list \<Rightarrow> bytes" where
  "leaf_hash_at sha2 leaves b = the (map_of (map (\<lambda>l. (shard_bits (lf_shard_id l), view_leaf_hash sha2 l)) leaves) b)"

text \<open>What the checks establish of a view and its rebuilt tree.\<close>

definition view_tree_ok :: "sha2 \<Rightarrow> PartitionViewLeaf list \<Rightarrow> ShardTree \<Rightarrow> shape \<Rightarrow> bool" where
  "view_tree_ok sha2 leaves tree t \<longleftrightarrow>
     map shard_bits (view_ids leaves) = paths [] t \<and> (\<forall>i\<in>set (view_ids leaves). ShardId_wf i) \<and> length leaves \<le> 8 \<and>
     (\<forall>l\<in>set leaves. PartitionViewLeaf_check l = Ok ()) \<and> tree = tree_of sha2 (leaf_hash_at sha2 leaves) t (view_ids leaves)"

lemma leaf_hash_at:
  assumes "map shard_bits (view_ids leaves) = paths [] t" "l \<in> set leaves"
  shows "leaf_hash_at sha2 leaves (shard_bits (lf_shard_id l)) = view_leaf_hash sha2 l"
proof -
  have "distinct (map shard_bits (view_ids leaves))"
    unfolding assms(1) using bool_order.sorted_Less_distinct [of "\<lambda>x. x" "paths [] t"] paths_sorted by simp
  then show ?thesis
    using assms(2) unfolding leaf_hash_at_def by (subst map_of_is_SomeI) (auto simp: view_ids_def comp_def)
qed

lemma build_shard_tree_ok:
  assumes "build_shard_tree sha2 view topology = Ok tree" "PartitionView_wf view"
  shows "\<exists>t. view_tree_ok sha2 (pw_leaves view) tree t"
proof -
  let ?ls = "map (\<lambda>l. (lf_shard_id l, view_leaf_hash sha2 l)) (pw_leaves view)"
  have b: "check_bounds view = Ok ()" and build: "ShardTree_build sha2 ?ls = Ok tree"
    using assms(1) by (auto simp: build_shard_tree_def validate_structure_def result_simps)
  have len: "length (pw_leaves view) \<le> 8" "\<forall>l\<in>set (pw_leaves view). PartitionViewLeaf_check l = Ok ()"
    using b check_bounds_iff by auto
  have wf: "\<forall>x\<in>set ?ls. ShardId_wf (fst x)" using assms(2) by (auto simp: PartitionView_wf_def)
  have ids: "map (shard_bits \<circ> fst) ?ls = map shard_bits (view_ids (pw_leaves view))" by (simp add: view_ids_def)
  obtain t where t: "map shard_bits (view_ids (pw_leaves view)) = paths [] t"
    using build_counted_iff [OF wf, of sha2 ShardTreeWork_default] build len(1) ids by (auto simp: ShardTree_build_def)
  have "build_counted sha2 ?ls ShardTreeWork_default =
      (Ok (tree_of sha2 (leaf_hash_at sha2 (pw_leaves view)) t (map fst ?ls)), built_work t ShardTreeWork_default)"
  proof (rule build_counted_tree)
    show "map (shard_bits \<circ> fst) ?ls = paths [] t" using ids t by simp
    show "ShardId_wf (fst x) \<and> snd x = leaf_hash_at sha2 (pw_leaves view) (shard_bits (fst x))" if "x \<in> set ?ls" for x
      using that wf leaf_hash_at [OF t] by auto
  qed (use len in simp)
  then show ?thesis using t len wf build by (auto simp: view_tree_ok_def ShardTree_build_def view_ids_def comp_def)
qed

lemma leaf_in_tree:
  assumes ok: "view_tree_ok sha2 leaves tree t" and l: "l \<in> set leaves"
  shows "shard_bits (lf_shard_id l) \<in> set (paths [] t)" "ShardId_wf (lf_shard_id l)" "lf_shard_id l \<in> set (view_ids leaves)"
proof -
  show "lf_shard_id l \<in> set (view_ids leaves)" using l by (simp add: view_ids_def)
  then show "ShardId_wf (lf_shard_id l)" "shard_bits (lf_shard_id l) \<in> set (paths [] t)"
    using ok unfolding view_tree_ok_def by (metis, metis imageI set_map)
qed

text \<open>Certificates of the tree.\<close>

lemma tree_certificate:
  assumes ok: "view_tree_ok sha2 leaves tree t" and l: "l \<in> set leaves"
  shows "ShardTree_certificate tree (lf_shard_id l) = Some (Ok \<lparr>stc_shard = lf_shard_id l,
    stc_sibling_hash_list = sibling_hashes sha2 (leaf_hash_at sha2 leaves) [] t (shard_bits (lf_shard_id l))\<rparr>)"
proof -
  show ?thesis
    using leaf_in_tree [OF ok l] certificate_of_tree [of "view_ids leaves" t "lf_shard_id l" sha2 "leaf_hash_at sha2 leaves" ShardTreeWork_default] ok
    by (auto simp: view_tree_ok_def ShardTree_certificate_def view_ids_def)
qed

lemma length_sibling_hashes: "b \<in> set (paths p t) \<Longrightarrow> length (sibling_hashes sha2 H p t (drop (length p) b)) = length b - length p"
proof (induction t arbitrary: p)
  case (Fork l r)
  have rel: "drop (length p) b = x # drop (length (p @ [x])) b \<and> length b - length p = Suc (length b - length (p @ [x]))"
    if "prefix (p @ [x]) b" for x
    using that by (auto simp: prefix_def)
  show ?case
    using Fork.prems Fork.IH(1) [of "p @ [False]"] Fork.IH(2) [of "p @ [True]"]
      paths_extend [of b "p @ [False]" l] paths_extend [of b "p @ [True]" r] rel by auto
qed simp

lemma tree_root_hash:
  assumes "view_tree_ok sha2 leaves tree t"
  shows "ShardTree_root_hash tree = subtree_hash sha2 (leaf_hash_at sha2 leaves) [] t"
proof -
  have "length (view_ids leaves) = tips t" using assms by (metis view_tree_ok_def length_map length_paths)
  then have "tree_size t < 2 ^ 32" using assms tree_size_tips [of t] by (simp add: view_tree_ok_def view_ids_def)
  then show ?thesis
    using node_at_root(1) [of "tree_nodes tree" "[]" sha2 "leaf_hash_at sha2 leaves" "[]" t NODE_NONE "[]"] assms
    by (simp add: view_tree_ok_def tree_of_def ShardTree_root_hash_def)
qed

text \<open>A certificate assembled from a leaf and its path hashes to the root of the tree.\<close>

lemma assembled_root:
  assumes ok: "view_tree_ok sha2 leaves tree t" and l: "l \<in> set leaves"
    and uc: "uc_input_record uc = to_input_record (lf_input_record l)" "uc_technical_record_hash uc = Some (lf_tr_hash l)"
      "uc_shard_configuration_hash uc = lf_shard_conf_hash l"
      "ShardTree_certificate tree (lf_shard_id l) = Some (Ok (uc_shard_tree_certificate uc))"
  shows "\<exists>h. shard_tree_root_hash sha2 uc = Ok h \<and> dh_data h = ShardTree_root_hash tree"
proof -
  let ?H = "leaf_hash_at sha2 leaves" and ?s = "lf_shard_id l"
  have stc: "stc_shard (uc_shard_tree_certificate uc) = ?s"
    "stc_sibling_hash_list (uc_shard_tree_certificate uc) = sibling_hashes sha2 ?H [] t (shard_bits ?s)"
    using tree_certificate [OF ok l] uc(4) by auto
  have mem: "shard_bits ?s \<in> set (paths [] t)" and wf: "ShardId_wf ?s"
    using leaf_in_tree [OF ok l] by auto
  let ?root = "finalize sha2 (update (encode_byte_string (uc_shard_configuration_hash uc))
            (update (encode_nullable (uc_technical_record_hash uc) encode_byte_string)
            (update (InputRecord_to_cbor (uc_input_record uc)) sha256_hasher)))"
  have "dh_data ?root = ?H (shard_bits ?s)"
    using leaf_hash_at [of leaves t l] ok l uc
    by (simp add: view_tree_ok_def view_leaf_hash_def encode_nullable_def PartitionViewInputRecord_to_cbor_eq)
  from fold_sibling_hashes [where H = ?H, OF wf mem this, of sha2 "[]"] obtain h where
    "dh_data h = subtree_hash sha2 ?H [] t" "fold_shard_siblings sha2 ?s 0 (sibling_hashes sha2 ?H [] t (shard_bits ?s)) ?root = Ok h"
    by auto
  then show ?thesis
    using stc length_sibling_hashes [OF mem, of sha2 ?H] tree_root_hash [OF ok]
    by (simp add: shard_tree_root_hash_def Let_def)
qed

lemma leaf_check_body:
  assumes "PartitionViewLeaf_check l = Ok ()"
    "uc_input_record uc = to_input_record (lf_input_record l)" "uc_technical_record_hash uc = Some (lf_tr_hash l)"
  shows "check_body uc = Ok ()"
  using assms
  by (auto simp: PartitionViewLeaf_check_def PartitionViewInputRecord_check_def check_body_def to_input_record_def
      result_simps Let_def VIEW_HASH_LEN_def split: if_splits)

section \<open>Reading always returns\<close>

lemma pbind_Some_iff: "pbind m f = Some (Ok y) \<longleftrightarrow> (\<exists>x. m = Some (Ok x) \<and> f x = Some (Ok y))"
  by (cases "(m, f)" rule: pbind.cases) auto

lemma pbind_returns: "(\<exists>r. m = Some r) \<Longrightarrow> (\<And>x. m = Some (Ok x) \<Longrightarrow> \<exists>r. f x = Some r) \<Longrightarrow> \<exists>r. pbind m f = Some r"
  by (cases "(m, f)" rule: pbind.cases) auto

theorem verify_tree_returns:
  assumes "PartitionView_wf view"
  shows "\<exists>r. verify_tree sha2 view enclosing topology = Some r"
  unfolding verify_tree_def
proof (rule pbind_returns, goal_cases)
  case (2 tree)
  then obtain t where t: "view_tree_ok sha2 (pw_leaves view) tree t" using build_shard_tree_ok [OF _ assms] by blast
  have own: "\<exists>c. ShardTree_certificate tree (stc_shard (uc_shard_tree_certificate enclosing)) = Some (Ok c)"
    if "find (\<lambda>l. lf_shard_id l = stc_shard (uc_shard_tree_certificate enclosing)) (pw_leaves view) = Some leaf" for leaf
  proof -
    have "leaf \<in> set (pw_leaves view)" "lf_shard_id leaf = stc_shard (uc_shard_tree_certificate enclosing)"
      using that by (auto simp: find_Some_iff)
    then show ?thesis using tree_certificate [OF t] by metis
  qed
  show ?case unfolding Let_def
    by (cases "find (\<lambda>l. lf_shard_id l = stc_shard (uc_shard_tree_certificate enclosing)) (pw_leaves view)")
      (auto dest!: own)
qed simp

section \<open>Authenticated views\<close>

definition av_ok :: "sha2 \<Rightarrow> AuthenticatedView \<Rightarrow> bool" where
  "av_ok sha2 av \<longleftrightarrow> (\<exists>t. view_tree_ok sha2 (av_leaves av) (av_tree av) t) \<and>
     utc_partition_identifier (av_unicity_tree_certificate av) = AGGREGATION_PARTITION_ID \<and>
     dh_data (compute_root_hash sha2 (av_unicity_tree_certificate av) (ShardTree_root_hash (av_tree av))) = us_hash (av_seal av) \<and>
     check_seal_shape (av_seal av) = Ok ()"

lemma verify_tree_ok:
  assumes "verify_tree sha2 view enclosing topology = Some (Ok tree)" "PartitionView_wf view"
  shows "\<exists>t. view_tree_ok sha2 (pw_leaves view) tree t"
    "utc_partition_identifier (uc_unicity_tree_certificate enclosing) = AGGREGATION_PARTITION_ID"
    "dh_data (compute_root_hash sha2 (uc_unicity_tree_certificate enclosing) (ShardTree_root_hash tree)) = us_hash (uc_unicity_seal enclosing)"
    "check_seal_shape (uc_unicity_seal enclosing) = Ok ()"
  using assms build_shard_tree_ok [OF _ assms(2)]
  by (auto simp: verify_tree_def pbind_Some_iff Let_def result_simps split: if_splits)

lemma authenticate_with_ok:
  assumes "authenticate_with sha2 authority view enclosing pins s i = Some (Ok av, s')" "PartitionView_wf view"
  shows "av_ok sha2 av" "av_leaves av = pw_leaves view" "av_seal av = uc_unicity_seal enclosing"
    "av_unicity_tree_certificate av = uc_unicity_tree_certificate enclosing"
    "\<exists>tree topology. verify_tree sha2 view enclosing topology = Some (Ok tree) \<and> av_tree av = tree"
    "authority s (uc_unicity_seal enclosing) (view_policy sha2 pins) = (Ok (), s')"
proof -
  obtain topology tree where tree: "verify_tree sha2 view enclosing topology = Some (Ok tree)"
    and av: "av = \<lparr>av_partition_id = pw_partition_id view, av_leaves = pw_leaves view, av_tree = tree,
         av_unicity_tree_certificate = uc_unicity_tree_certificate enclosing, av_seal = uc_unicity_seal enclosing,
         av_policy = view_policy sha2 pins, av_identity = view_identity sha2 i pins (uc_unicity_seal enclosing)\<rparr>"
    and auth: "authority s (uc_unicity_seal enclosing) (view_policy sha2 pins) = (Ok (), s')"
    using assms(1)
    by (auto simp: authenticate_with_def pbind_Some_iff Let_def split: option.splits sum.splits prod.splits)
  show "av_ok sha2 av" "av_leaves av = pw_leaves view" "av_seal av = uc_unicity_seal enclosing"
    "av_unicity_tree_certificate av = uc_unicity_tree_certificate enclosing"
    "\<exists>tree topology. verify_tree sha2 view enclosing topology = Some (Ok tree) \<and> av_tree av = tree"
    "authority s (uc_unicity_seal enclosing) (view_policy sha2 pins) = (Ok (), s')"
    using verify_tree_ok [OF tree assms(2)] tree auth by (auto simp: av av_ok_def)
qed

text \<open>The certificate of every leaf: it is about the leaf's shard, its body is admissible and it hashes to
  the master seal.\<close>

definition derived_from :: "sha2 \<Rightarrow> AuthenticatedView \<Rightarrow> PartitionViewLeaf \<Rightarrow> UnicityCertificate \<Rightarrow> bool" where
  "derived_from sha2 av l uc \<longleftrightarrow>
     uc_input_record uc = to_input_record (lf_input_record l) \<and> uc_technical_record_hash uc = Some (lf_tr_hash l) \<and>
     uc_shard_configuration_hash uc = lf_shard_conf_hash l \<and> stc_shard (uc_shard_tree_certificate uc) = lf_shard_id l \<and>
     uc_unicity_tree_certificate uc = av_unicity_tree_certificate av \<and> uc_unicity_seal uc = av_seal av"

lemma derive_ok:
  assumes ok: "av_ok sha2 av" and i: "i < length (av_leaves av)"
  shows "\<exists>uc. derive av i = Some (Ok \<lparr>sc_shard_id = lf_shard_id (av_leaves av ! i),
      sc_shard_tree_certificate = uc_shard_tree_certificate uc, sc_certificate = Some uc\<rparr>) \<and>
    derived_from sha2 av (av_leaves av ! i) uc \<and> check_body uc = Ok () \<and>
    (\<exists>h. computed_seal_hash sha2 uc = Ok h \<and> dh_data h = us_hash (uc_unicity_seal uc))"
proof -
  let ?l = "av_leaves av ! i"
  obtain t where t: "view_tree_ok sha2 (av_leaves av) (av_tree av) t" using ok by (auto simp: av_ok_def)
  have l: "?l \<in> set (av_leaves av)" using i by simp
  obtain stc where stc: "ShardTree_certificate (av_tree av) (lf_shard_id ?l) = Some (Ok stc)" "stc_shard stc = lf_shard_id ?l"
    using tree_certificate [OF t l] by auto
  define uc where "uc = \<lparr>uc_input_record = to_input_record (lf_input_record ?l), uc_technical_record_hash = Some (lf_tr_hash ?l),
    uc_shard_configuration_hash = lf_shard_conf_hash ?l, uc_shard_tree_certificate = stc,
    uc_unicity_tree_certificate = av_unicity_tree_certificate av, uc_unicity_seal = av_seal av\<rparr>"
  have fields: "uc_input_record uc = to_input_record (lf_input_record ?l)" "uc_technical_record_hash uc = Some (lf_tr_hash ?l)"
    "uc_shard_configuration_hash uc = lf_shard_conf_hash ?l" "uc_shard_tree_certificate uc = stc"
    "uc_unicity_tree_certificate uc = av_unicity_tree_certificate av" "uc_unicity_seal uc = av_seal av"
    by (simp_all add: uc_def)
  have "check_body uc = Ok ()" using leaf_check_body [OF _ fields(1,2)] t l by (simp add: view_tree_ok_def)
  moreover obtain h where "shard_tree_root_hash sha2 uc = Ok h" "dh_data h = ShardTree_root_hash (av_tree av)"
    using assembled_root [OF t l fields(1-3)] stc(1) fields(4) by auto
  moreover have "derived_from sha2 av ?l uc" using fields stc(2) by (simp add: derived_from_def)
  ultimately show ?thesis
    using ok stc(1) fields by (intro exI [of _ uc]) (simp add: derive_def Let_def uc_def computed_seal_hash_def av_ok_def)
qed

lemma pmap_returns:
  assumes "\<And>x. x \<in> set xs \<Longrightarrow> \<exists>y. f x = Some (Ok y) \<and> P x y"
  shows "\<exists>ys. pmap f xs = Some (Ok ys) \<and> list_all2 P xs ys"
  using assms
proof (induction xs)
  case (Cons x xs)
  then obtain ys where "pmap f xs = Some (Ok ys)" "list_all2 P xs ys" by auto
  moreover obtain y where "f x = Some (Ok y)" "P x y" using Cons.prems by auto
  ultimately show ?case by auto
qed simp

theorem certificates_ok:
  assumes "av_ok sha2 av"
  shows "\<exists>cs. certificates av = Some (Ok cs) \<and> list_all2 (\<lambda>l c. sc_shard_id c = lf_shard_id l \<and>
    (\<exists>uc. sc_certificate c = Some uc \<and> derived_from sha2 av l uc \<and> check_body uc = Ok () \<and>
      (\<exists>h. computed_seal_hash sha2 uc = Ok h \<and> dh_data h = us_hash (uc_unicity_seal uc)))) (av_leaves av) cs"
proof -
  let ?P = "\<lambda>l c. sc_shard_id c = lf_shard_id l \<and> (\<exists>uc. sc_certificate c = Some uc \<and> derived_from sha2 av l uc \<and>
    check_body uc = Ok () \<and> (\<exists>h. computed_seal_hash sha2 uc = Ok h \<and> dh_data h = us_hash (uc_unicity_seal uc)))"
  have "\<exists>c. derive av i = Some (Ok c) \<and> ?P (av_leaves av ! i) c" if "i \<in> set [0..<length (av_leaves av)]" for i
    using derive_ok [OF assms, of i] that by fastforce
  from pmap_returns [of "[0..<length (av_leaves av)]" "derive av", OF this]
  obtain cs where cs: "pmap (derive av) [0..<length (av_leaves av)] = Some (Ok cs)"
    "list_all2 (\<lambda>i c. ?P (av_leaves av ! i) c) [0..<length (av_leaves av)] cs" by blast
  then have "list_all2 ?P (av_leaves av) cs" by (simp add: list_all2_conv_all_nth)
  then show ?thesis using cs(1) by (auto simp: certificates_def)
qed

end
