(* ===== verification/View_Binding.thy ===== *)
theory View_Binding
  imports Assemble
begin

text \<open>
  What a seal commits to. Two views that pass the tree checks against the same enclosing certificate have
  the same leaves, unless SHA-256 collides on two of the byte strings hashed for them.
\<close>

section \<open>The hashed byte strings\<close>

definition leaf_input :: "PartitionViewLeaf \<Rightarrow> bytes" where
  "leaf_input l = PartitionViewInputRecord_to_cbor (lf_input_record l) @ encode_byte_string (lf_tr_hash l) @
     encode_byte_string (lf_shard_conf_hash l)"

definition inner_input :: "bytes \<Rightarrow> bytes \<Rightarrow> bytes" where
  "inner_input a b = encode_byte_string a @ encode_byte_string b"

definition step_input :: "bytes \<Rightarrow> HashStep \<Rightarrow> bytes \<Rightarrow> bytes" where
  "step_input key step h =
     encode_byte_string [0x00] @ encode_byte_string (to_be_bytes (hs_key step)) @
     (if cmp_bytes key (to_be_bytes (hs_key step)) = Greater
      then encode_byte_string (hs_hash step) @ encode_byte_string h
      else encode_byte_string h @ encode_byte_string (hs_hash step))"

fun step_inputs :: "sha2 \<Rightarrow> bytes \<Rightarrow> HashStep list \<Rightarrow> bytes \<Rightarrow> bytes set" where
  "step_inputs sha2 key [] h = {}"
| "step_inputs sha2 key (step # steps) h =
     insert (step_input key step h) (step_inputs sha2 key steps (sha2 Sha256 (step_input key step h)))"

definition partition_leaf_input :: "bytes \<Rightarrow> bytes \<Rightarrow> bytes" where
  "partition_leaf_input key h = encode_byte_string [0x01] @ encode_byte_string key @ encode_byte_string h"

definition path_inputs :: "sha2 \<Rightarrow> UnicityTreeCertificate \<Rightarrow> bytes \<Rightarrow> bytes set" where
  "path_inputs sha2 c root =
     (let key = to_be_bytes (utc_partition_identifier c); top = sha2 Sha256 (encode_byte_string root)
      in {encode_byte_string root, partition_leaf_input key top} \<union>
         step_inputs sha2 key (utc_steps c) (sha2 Sha256 (partition_leaf_input key top)))"

definition node_inputs :: "bytes set \<Rightarrow> bytes set" where
  "node_inputs hs = {inner_input a b | a b. a \<in> hs \<and> b \<in> hs}"

definition view_inputs :: "sha2 \<Rightarrow> AuthenticatedView \<Rightarrow> bytes set" where
  "view_inputs sha2 av =
     leaf_input ` set (av_leaves av) \<union> node_inputs (nd_hash ` set (tree_nodes (av_tree av))) \<union>
     path_inputs sha2 (av_unicity_tree_certificate av) (ShardTree_root_hash (av_tree av))"

lemma hash_inputs:
  "view_leaf_hash sha2 l = sha2 Sha256 (leaf_input l)" "inner_hash sha2 a b = sha2 Sha256 (inner_input a b)"
  by (simp_all add: view_leaf_hash_def leaf_input_def inner_hash_def inner_input_def finalize_sha256)

section \<open>The partition path\<close>

lemma fold_steps_inputs:
  "dh_data (fold_steps sha2 key (step # steps) r) = dh_data (fold_steps sha2 key steps (sha256 sha2 (step_input key step (dh_data r))))"
  by (simp add: step_input_def finalize_sha256 Let_def)

lemma step_input_inj: "step_input key step g = step_input key step h \<Longrightarrow> g = h"
  by (auto simp: step_input_def encode_byte_string_inj split: if_splits)

lemma fold_steps_binds:
  "dh_data (fold_steps sha2 key steps r) = dh_data (fold_steps sha2 key steps r') \<Longrightarrow>
   dh_data r = dh_data r' \<or> collides sha2 (step_inputs sha2 key steps (dh_data r)) (step_inputs sha2 key steps (dh_data r'))"
proof (induction steps arbitrary: r r')
  case (Cons step steps)
  let ?a = "step_input key step (dh_data r)" and ?b = "step_input key step (dh_data r')"
  from Cons.IH [OF Cons.prems [unfolded fold_steps_inputs]]
  consider "sha2 Sha256 ?a = sha2 Sha256 ?b"
    | "collides sha2 (step_inputs sha2 key steps (sha2 Sha256 ?a)) (step_inputs sha2 key steps (sha2 Sha256 ?b))"
    by auto
  then show ?case
  proof cases
    case 1
    then show ?thesis using step_input_inj collidesI [of ?a _ ?b _ sha2] by (cases "?a = ?b") auto
  next
    case 2
    then show ?thesis by (auto intro: collides_mono)
  qed
qed simp

lemma compute_root_hash_binds:
  assumes "dh_data (compute_root_hash sha2 c a) = dh_data (compute_root_hash sha2 c b)"
  shows "a = b \<or> collides sha2 (path_inputs sha2 c a) (path_inputs sha2 c b)"
proof -
  let ?key = "to_be_bytes (utc_partition_identifier c)"
  let ?t = "\<lambda>x. sha2 Sha256 (encode_byte_string x)"
  let ?p = "\<lambda>x. partition_leaf_input ?key (?t x)"
  have "dh_data (fold_steps sha2 ?key (utc_steps c) (sha256 sha2 (?p a))) =
      dh_data (fold_steps sha2 ?key (utc_steps c) (sha256 sha2 (?p b)))"
    using assms by (simp add: compute_root_hash_def Let_def finalize_sha256 partition_leaf_input_def)
  from fold_steps_binds [OF this]
  consider (steps) "collides sha2 (step_inputs sha2 ?key (utc_steps c) (sha2 Sha256 (?p a)))
      (step_inputs sha2 ?key (utc_steps c) (sha2 Sha256 (?p b)))"
    | (leaf) "sha2 Sha256 (?p a) = sha2 Sha256 (?p b)" by auto
  then show ?thesis
  proof cases
    case steps
    then show ?thesis by (auto simp: path_inputs_def Let_def intro: collides_mono)
  next
    case leaf
    have mem: "?p x \<in> path_inputs sha2 c x" "encode_byte_string x \<in> path_inputs sha2 c x" for x
      by (simp_all add: path_inputs_def Let_def)
    show ?thesis
    proof (cases "?p a = ?p b")
      case True
      then have "?t a = ?t b" by (simp add: partition_leaf_input_def encode_byte_string_inj)
      then show ?thesis using collidesI [OF mem(2) mem(2)] encode_byte_string_inj by metis
    qed (use leaf collidesI [OF mem(1) mem(1)] in blast)
  qed
qed

section \<open>The shard tree\<close>

lemma item_prefix:
  assumes "item a" "item b" "length a < 2 ^ 64" "length b < 2 ^ 64" "a @ r = b @ s"
  shows "a = b \<and> r = s"
proof -
  obtain v w where "cbor_wf v" "a = enc v" "cbor_wf w" "b = enc w" using assms unfolding item_def by blast
  then show ?thesis using enc_prefix assms(5) by blast
qed

lemma leaf_check_lengths:
  assumes "PartitionViewLeaf_check l = Ok ()"
  shows "length (PartitionViewInputRecord_to_cbor (lf_input_record l)) < 2 ^ 64"
    "length (lf_tr_hash l) = 32" "length (lf_shard_conf_hash l) = 32"
  using assms
  by (auto simp: PartitionViewLeaf_check_def PartitionViewInputRecord_check_def result_simps Let_def VIEW_HASH_LEN_def
      MAX_PARTITION_VIEW_IR_BYTES_def split: if_splits)

lemma length_encode_32: "length b = 32 \<Longrightarrow> length (encode_byte_string b) < 2 ^ 64"
  by (simp add: encode_byte_string_def push_head_def)

definition same_content :: "PartitionViewLeaf \<Rightarrow> PartitionViewLeaf \<Rightarrow> bool" where
  "same_content l m \<longleftrightarrow> lf_input_record l = lf_input_record m \<and> lf_tr_hash l = lf_tr_hash m \<and>
     lf_shard_conf_hash l = lf_shard_conf_hash m"

lemma leaf_input_inj:
  assumes "leaf_input l = leaf_input m" "PartitionViewLeaf_check l = Ok ()" "PartitionViewLeaf_check m = Ok ()"
  shows "same_content l m"
proof -
  note len = leaf_check_lengths [OF assms(2)] leaf_check_lengths [OF assms(3)]
  have "PartitionViewInputRecord_to_cbor (lf_input_record l) = PartitionViewInputRecord_to_cbor (lf_input_record m) \<and>
      encode_byte_string (lf_tr_hash l) @ encode_byte_string (lf_shard_conf_hash l) =
      encode_byte_string (lf_tr_hash m) @ encode_byte_string (lf_shard_conf_hash m)"
    by (rule item_prefix) (use assms(1) len in \<open>simp_all add: leaf_input_def\<close>)
  moreover from this have "encode_byte_string (lf_tr_hash l) = encode_byte_string (lf_tr_hash m) \<and>
      encode_byte_string (lf_shard_conf_hash l) = encode_byte_string (lf_shard_conf_hash m)"
    by (intro item_prefix) (use len length_encode_32 in auto)
  moreover have "to_input_record (lf_input_record l) = to_input_record (lf_input_record m)"
    using calculation len(1) input_record.to_cbor_inj [of "to_input_record (lf_input_record l)" "to_input_record (lf_input_record m)"]
    by (simp add: PartitionViewInputRecord_to_cbor_eq)
  then have "lf_input_record l = lf_input_record m" by (metis input_record_inverse(1))
  ultimately show ?thesis using encode_byte_string_inj by (auto simp: same_content_def)
qed

lemma inner_input_inj:
  assumes "inner_input a b = inner_input c d" "length a = 32" "length c = 32"
  shows "a = c \<and> b = d"
proof -
  have "encode_byte_string a = encode_byte_string c \<and> encode_byte_string b = encode_byte_string d"
    by (rule item_prefix) (use assms length_encode_32 in \<open>auto simp: inner_input_def\<close>)
  then show ?thesis using encode_byte_string_inj by blast
qed

text \<open>A leaf starts with a tag, an inner node with a byte string.\<close>

lemma leaf_not_inner: "leaf_input l \<noteq> inner_input a b"
proof
  assume "leaf_input l = inner_input a b"
  then obtain r s where "head major_TAG INPUT_RECORD_TAG @ r = head major_BYTES (word_of_nat (length a)) @ s"
    by (auto simp: leaf_input_def inner_input_def PartitionViewInputRecord_to_cbor_def encode_tag_def
        encode_byte_string_def push_head_Nil)
  from head_prefix [OF _ _ this] show False by (simp add: major_defs is_major_def)
qed

definition node_hashes :: "sha2 \<Rightarrow> (bool list \<Rightarrow> bytes) \<Rightarrow> bool list \<Rightarrow> shape \<Rightarrow> bytes set" where
  "node_hashes sha2 H p t = nd_hash ` set (post_order sha2 H p t 0 NODE_NONE)"

lemma post_order_hashes: "map nd_hash (post_order sha2 H p t lo q) = map nd_hash (post_order sha2 H p t lo' q')"
  by (induction t arbitrary: p lo q lo' q') (simp_all add: Let_def)

lemma node_hashes_eq: "nd_hash ` set (post_order sha2 H p t lo q) = node_hashes sha2 H p t"
  unfolding node_hashes_def set_map [symmetric] by (rule arg_cong [OF post_order_hashes])

lemma node_hashes_simps:
  "subtree_hash sha2 H p t \<in> node_hashes sha2 H p t"
  "node_hashes sha2 H (p @ [False]) l \<union> node_hashes sha2 H (p @ [True]) r \<subseteq> node_hashes sha2 H p (Fork l r)"
proof -
  show "subtree_hash sha2 H p t \<in> node_hashes sha2 H p t" by (cases t) (simp_all add: node_hashes_def Let_def)
  show "node_hashes sha2 H (p @ [False]) l \<union> node_hashes sha2 H (p @ [True]) r \<subseteq> node_hashes sha2 H p (Fork l r)"
    by (auto simp add: node_hashes_def [of sha2 H p] Let_def image_Un node_hashes_eq)
qed

definition tree_inputs :: "sha2 \<Rightarrow> (bool list \<Rightarrow> PartitionViewLeaf) \<Rightarrow> bool list \<Rightarrow> shape \<Rightarrow> bytes set" where
  "tree_inputs sha2 L p t = leaf_input ` L ` set (paths p t) \<union> node_inputs (node_hashes sha2 (\<lambda>b. view_leaf_hash sha2 (L b)) p t)"

lemma tree_inputs_fork:
  "tree_inputs sha2 L (p @ [False]) l \<subseteq> tree_inputs sha2 L p (Fork l r)"
  "tree_inputs sha2 L (p @ [True]) r \<subseteq> tree_inputs sha2 L p (Fork l r)"
  "inner_input (subtree_hash sha2 (\<lambda>b. view_leaf_hash sha2 (L b)) (p @ [False]) l)
     (subtree_hash sha2 (\<lambda>b. view_leaf_hash sha2 (L b)) (p @ [True]) r) \<in> tree_inputs sha2 L p (Fork l r)"
proof -
  let ?H = "\<lambda>b. view_leaf_hash sha2 (L b)"
  note sub = node_hashes_simps(2) [of sha2 ?H p l r]
  have mono: "hs \<subseteq> hs' \<Longrightarrow> node_inputs hs \<subseteq> node_inputs hs'" for hs hs' by (auto simp: node_inputs_def)
  show "tree_inputs sha2 L (p @ [False]) l \<subseteq> tree_inputs sha2 L p (Fork l r)"
    "tree_inputs sha2 L (p @ [True]) r \<subseteq> tree_inputs sha2 L p (Fork l r)"
    using sub mono [of "node_hashes sha2 ?H (p @ [False]) l" "node_hashes sha2 ?H p (Fork l r)"]
      mono [of "node_hashes sha2 ?H (p @ [True]) r" "node_hashes sha2 ?H p (Fork l r)"]
    by (auto simp: tree_inputs_def)
  show "inner_input (subtree_hash sha2 ?H (p @ [False]) l) (subtree_hash sha2 ?H (p @ [True]) r) \<in> tree_inputs sha2 L p (Fork l r)"
    unfolding tree_inputs_def node_inputs_def
    using sub node_hashes_simps(1) [of sha2 ?H "p @ [False]" l] node_hashes_simps(1) [of sha2 ?H "p @ [True]" r]
    by blast
qed

lemma length_subtree_hash: "sha2_lengths sha2 \<Longrightarrow> length (subtree_hash sha2 (\<lambda>b. view_leaf_hash sha2 (L b)) p t) = 32"
  by (cases t) (simp_all add: hash_inputs sha2_lengths_def)

lemma tree_binds:
  assumes len: "sha2_lengths sha2"
    and check: "\<And>b. b \<in> set (paths p t) \<Longrightarrow> PartitionViewLeaf_check (L b) = Ok ()"
      "\<And>b. b \<in> set (paths p u) \<Longrightarrow> PartitionViewLeaf_check (M b) = Ok ()"
    and eq: "subtree_hash sha2 (\<lambda>b. view_leaf_hash sha2 (L b)) p t = subtree_hash sha2 (\<lambda>b. view_leaf_hash sha2 (M b)) p u"
  shows "(t = u \<and> (\<forall>b\<in>set (paths p t). same_content (L b) (M b))) \<or> collides sha2 (tree_inputs sha2 L p t) (tree_inputs sha2 M p u)"
  using check eq
proof (induction t arbitrary: p u)
  case Tip
  have mem: "leaf_input (L p) \<in> tree_inputs sha2 L p Tip" by (simp add: tree_inputs_def)
  show ?case
  proof (cases u)
    case u: Tip
    have "leaf_input (M p) \<in> tree_inputs sha2 M p u" by (simp add: tree_inputs_def u)
    then show ?thesis using Tip u mem leaf_input_inj [of "L p" "M p"] collidesI [OF mem, of "leaf_input (M p)"]
      by (cases "leaf_input (L p) = leaf_input (M p)") (auto simp: hash_inputs)
  next
    case (Fork l r)
    from tree_inputs_fork(3) [of sha2 M p l r] show ?thesis
      using Tip Fork by (intro disjI2 collidesI [OF mem]) (auto simp: hash_inputs leaf_not_inner)
  qed
next
  case (Fork l r)
  let ?HL = "\<lambda>b. view_leaf_hash sha2 (L b)" and ?HM = "\<lambda>b. view_leaf_hash sha2 (M b)"
  let ?in = "inner_input (subtree_hash sha2 ?HL (p @ [False]) l) (subtree_hash sha2 ?HL (p @ [True]) r)"
  show ?case
  proof (cases u)
    case Tip
    have "leaf_input (M p) \<in> tree_inputs sha2 M p u" by (simp add: tree_inputs_def Tip)
    then show ?thesis
      using Fork.prems(3) Tip leaf_not_inner [of "M p"]
      by (intro disjI2 collidesI [OF tree_inputs_fork(3)]) (auto simp: hash_inputs dest: sym)
  next
    case u: (Fork l' r')
    let ?in' = "inner_input (subtree_hash sha2 ?HM (p @ [False]) l') (subtree_hash sha2 ?HM (p @ [True]) r')"
    show ?thesis
    proof (cases "?in = ?in'")
      case True
      have children: "subtree_hash sha2 ?HL (p @ [False]) l = subtree_hash sha2 ?HM (p @ [False]) l'"
        "subtree_hash sha2 ?HL (p @ [True]) r = subtree_hash sha2 ?HM (p @ [True]) r'"
        using inner_input_inj [OF True] length_subtree_hash [OF len] by simp_all
      have left: "(l = l' \<and> (\<forall>b\<in>set (paths (p @ [False]) l). same_content (L b) (M b))) \<or>
          collides sha2 (tree_inputs sha2 L (p @ [False]) l) (tree_inputs sha2 M (p @ [False]) l')"
        by (rule Fork.IH(1)) (use Fork.prems(1,2) children u in auto)
      have right: "(r = r' \<and> (\<forall>b\<in>set (paths (p @ [True]) r). same_content (L b) (M b))) \<or>
          collides sha2 (tree_inputs sha2 L (p @ [True]) r) (tree_inputs sha2 M (p @ [True]) r')"
        by (rule Fork.IH(2)) (use Fork.prems(1,2) children u in auto)
      show ?thesis
        using left right
          collides_mono [OF _ tree_inputs_fork(1) [of sha2 L p l r] tree_inputs_fork(1) [of sha2 M p l' r'], of sha2]
          collides_mono [OF _ tree_inputs_fork(2) [of sha2 L p r l] tree_inputs_fork(2) [of sha2 M p r' l'], of sha2]
        by (auto simp: u)
    next
      case False
      then show ?thesis
        using Fork.prems(3) tree_inputs_fork(3) [of sha2 M p l' r']
        by (intro disjI2 collidesI [OF tree_inputs_fork(3) _ _ False]) (auto simp: u hash_inputs)
    qed
  qed
qed

section \<open>Views\<close>

lemma tree_ok_leaves:
  assumes "view_tree_ok sha2 leaves tree t"
  obtains L where "leaves = map L (paths [] t)" "\<And>b. b \<in> set (paths [] t) \<Longrightarrow> PartitionViewLeaf_check (L b) = Ok () \<and>
      ShardId_wf (lf_shard_id (L b)) \<and> shard_bits (lf_shard_id (L b)) = b"
    "ShardTree_root_hash tree = subtree_hash sha2 (\<lambda>b. view_leaf_hash sha2 (L b)) [] t"
    "nd_hash ` set (tree_nodes tree) = node_hashes sha2 (\<lambda>b. view_leaf_hash sha2 (L b)) [] t"
proof -
  define L where "L b = the (map_of (map (\<lambda>l. (shard_bits (lf_shard_id l), l)) leaves) b)" for b
  have bits: "map (\<lambda>l. shard_bits (lf_shard_id l)) leaves = paths [] t"
    using assms by (simp add: view_tree_ok_def view_ids_def comp_def)
  have "distinct (map (\<lambda>l. shard_bits (lf_shard_id l)) leaves)"
    unfolding bits using bool_order.sorted_Less_distinct [of "\<lambda>x. x" "paths [] t"] paths_sorted by simp
  then have L: "L (shard_bits (lf_shard_id l)) = l" if "l \<in> set leaves" for l
    using that unfolding L_def by (subst map_of_is_SomeI) (auto simp: comp_def)
  have leaves: "leaves = map L (paths [] t)" unfolding bits [symmetric] using L by (simp add: map_idI)
  have H: "leaf_hash_at sha2 leaves b = view_leaf_hash sha2 (L b)" if b: "b \<in> set (paths [] t)" for b
  proof -
    obtain l where l: "l \<in> set leaves" "b = shard_bits (lf_shard_id l)" using b unfolding bits [symmetric] by auto
    then show ?thesis using leaf_hash_at [of leaves t l sha2] L [OF l(1)] assms by (simp add: view_tree_ok_def)
  qed
  have sub: "subtree_hash sha2 (leaf_hash_at sha2 leaves) p u = subtree_hash sha2 (\<lambda>b. view_leaf_hash sha2 (L b)) p u \<and>
      post_order sha2 (leaf_hash_at sha2 leaves) p u lo q = post_order sha2 (\<lambda>b. view_leaf_hash sha2 (L b)) p u lo q"
    if "set (paths p u) \<subseteq> set (paths [] t)" for p u lo q
    using that by (induction u arbitrary: p lo q) (auto simp: H Let_def)
  show ?thesis
  proof (rule that [OF leaves])
    show "ShardTree_root_hash tree = subtree_hash sha2 (\<lambda>b. view_leaf_hash sha2 (L b)) [] t"
      using tree_root_hash [OF assms] sub [of "[]" t] by simp
    show "nd_hash ` set (tree_nodes tree) = node_hashes sha2 (\<lambda>b. view_leaf_hash sha2 (L b)) [] t"
      using assms sub [of "[]" t] by (simp add: view_tree_ok_def tree_of_def node_hashes_def)
    fix b assume "b \<in> set (paths [] t)"
    then obtain l where l: "l \<in> set leaves" "b = shard_bits (lf_shard_id l)" unfolding bits [symmetric] by auto
    then show "PartitionViewLeaf_check (L b) = Ok () \<and> ShardId_wf (lf_shard_id (L b)) \<and> shard_bits (lf_shard_id (L b)) = b"
      using L [OF l(1)] leaf_in_tree(2) [OF assms l(1)] assms by (simp add: view_tree_ok_def)
  qed
qed

theorem view_committed:
  assumes len: "sha2_lengths sha2" and ok: "av_ok sha2 a" "av_ok sha2 b"
    and same: "av_unicity_tree_certificate a = av_unicity_tree_certificate b" "us_hash (av_seal a) = us_hash (av_seal b)"
  shows "av_leaves a = av_leaves b \<or> collides sha2 (view_inputs sha2 a) (view_inputs sha2 b)"
proof -
  obtain t u where t: "view_tree_ok sha2 (av_leaves a) (av_tree a) t" and u: "view_tree_ok sha2 (av_leaves b) (av_tree b) u"
    using ok by (auto simp: av_ok_def)
  obtain L where L: "av_leaves a = map L (paths [] t)" "\<And>b. b \<in> set (paths [] t) \<Longrightarrow> PartitionViewLeaf_check (L b) = Ok () \<and>
      ShardId_wf (lf_shard_id (L b)) \<and> shard_bits (lf_shard_id (L b)) = b"
    "ShardTree_root_hash (av_tree a) = subtree_hash sha2 (\<lambda>b. view_leaf_hash sha2 (L b)) [] t"
    "nd_hash ` set (tree_nodes (av_tree a)) = node_hashes sha2 (\<lambda>b. view_leaf_hash sha2 (L b)) [] t"
    using tree_ok_leaves [OF t] by blast
  obtain M where M: "av_leaves b = map M (paths [] u)" "\<And>b. b \<in> set (paths [] u) \<Longrightarrow> PartitionViewLeaf_check (M b) = Ok () \<and>
      ShardId_wf (lf_shard_id (M b)) \<and> shard_bits (lf_shard_id (M b)) = b"
    "ShardTree_root_hash (av_tree b) = subtree_hash sha2 (\<lambda>b. view_leaf_hash sha2 (M b)) [] u"
    "nd_hash ` set (tree_nodes (av_tree b)) = node_hashes sha2 (\<lambda>b. view_leaf_hash sha2 (M b)) [] u"
    using tree_ok_leaves [OF u] by blast
  have "ShardTree_root_hash (av_tree a) = ShardTree_root_hash (av_tree b) \<or>
      collides sha2 (path_inputs sha2 (av_unicity_tree_certificate a) (ShardTree_root_hash (av_tree a)))
        (path_inputs sha2 (av_unicity_tree_certificate b) (ShardTree_root_hash (av_tree b)))"
    using compute_root_hash_binds [of sha2 "av_unicity_tree_certificate a"] ok same by (simp add: av_ok_def)
  then consider (path) "collides sha2 (path_inputs sha2 (av_unicity_tree_certificate a) (ShardTree_root_hash (av_tree a)))
        (path_inputs sha2 (av_unicity_tree_certificate b) (ShardTree_root_hash (av_tree b)))"
    | (tree) "subtree_hash sha2 (\<lambda>b. view_leaf_hash sha2 (L b)) [] t = subtree_hash sha2 (\<lambda>b. view_leaf_hash sha2 (M b)) [] u"
    using L(3) M(3) by auto
  then show ?thesis
  proof cases
    case path
    then show ?thesis by (intro disjI2, elim collides_mono) (auto simp: view_inputs_def)
  next
    case tree
    have sets: "tree_inputs sha2 L [] t \<subseteq> view_inputs sha2 a" "tree_inputs sha2 M [] u \<subseteq> view_inputs sha2 b"
      unfolding tree_inputs_def view_inputs_def L(1,4) M(1,4) by auto
    from tree_binds [OF len _ _ tree] L(2) M(2)
    have "(t = u \<and> (\<forall>b\<in>set (paths [] t). same_content (L b) (M b))) \<or> collides sha2 (tree_inputs sha2 L [] t) (tree_inputs sha2 M [] u)"
      by blast
    then show ?thesis
    proof
      assume same: "t = u \<and> (\<forall>b\<in>set (paths [] t). same_content (L b) (M b))"
      have "L b = M b" if "b \<in> set (paths [] t)" for b
        using same that L(2) [OF that] M(2) [of b] shard_bits_inj [of "lf_shard_id (L b)" "lf_shard_id (M b)"]
        by (intro PartitionViewLeaf.equality) (auto simp: same_content_def)
      then show ?thesis using L(1) M(1) same by simp
    qed (use collides_mono [OF _ sets] in blast)
  qed
qed

end
