(* ===== verification/Plan.thy ===== *)
theory Plan
  imports View_Binding
begin

text \<open>
  Planning and reconstruction (\<open>src/src/consolidation/plan.rs\<close>): routing of state ids to shards, the
  replaceable proofs of a token, the root-round bound of authenticated evidence, and the token rebuilt with
  replaced proofs. Every state is routed to the one shard whose id is a prefix of the state id, and a token
  whose proofs are replaced by valid ones of the same certifications keeps its history valid.
\<close>

section \<open>Routing\<close>

record ShardRouter =
  rt_shards :: "ShardId list"

definition ShardRouter_new :: "PartitionTopology \<Rightarrow> PartitionViewError + ShardRouter" where
  "ShardRouter_new topology = rbind (canonical_order topology) (\<lambda>shards. Ok \<lparr>rt_shards = shards\<rparr>)"

definition route_index :: "ShardRouter \<Rightarrow> StateId \<Rightarrow> nat" where
  "route_index r state_id =
     (case binary_search_by (\<lambda>s. cmp_prefix_of_key s (sid_bytes state_id)) (rt_shards r) of Some i \<Rightarrow> i | None \<Rightarrow> 0)"

definition route :: "ShardRouter \<Rightarrow> StateId \<Rightarrow> ShardId" where
  "route r state_id = rt_shards r ! route_index r state_id"

section \<open>The outer history\<close>

record OuterProof =
  op_index :: nat
  op_state_id :: StateId
  op_proof :: InclusionProof

definition outer_proofs :: "sha2 \<Rightarrow> Token \<Rightarrow> OuterProof list" where
  "outer_proofs sha2 token =
     \<lparr>op_index = 0,
      op_state_id = StateId_derive sha2 (tx_lock_script (mint_view sha2 (cm_transaction (tk_genesis token))))
        (tx_source_state_hash (mint_view sha2 (cm_transaction (tk_genesis token)))),
      op_proof = cm_inclusion_proof (tk_genesis token)\<rparr> #
     map (\<lambda>(i, t). \<lparr>op_index = i + 1,
         op_state_id = StateId_derive sha2 (tx_lock_script (transfer_view sha2 (ct_transaction t)))
           (tx_source_state_hash (transfer_view sha2 (ct_transaction t))),
         op_proof = ct_inclusion_proof t\<rparr>)
       (enumerate 0 (tk_transactions token))"

definition distinct_seals :: "InclusionProof list \<Rightarrow> nat" where
  "distinct_seals proofs = card (set (map (\<lambda>p. UnicitySeal_to_cbor (uc_unicity_seal (ip_unicity_certificate p))) proofs))"

section \<open>The root-round bound\<close>

record RootRoundBound =
  rb_round :: u64
  rb_shard :: ShardId

definition seal_round :: "InclusionProof \<Rightarrow> u64" where
  "seal_round p = us_root_chain_round_number (uc_unicity_seal (ip_unicity_certificate p))"

fun best_round :: "(InclusionProof \<times> nat) list \<Rightarrow> (u64 \<times> nat) option \<Rightarrow> (u64 \<times> nat) option" where
  "best_round [] best = best"
| "best_round ((p, shard) # evidence) best =
     best_round evidence
       (if (case best of None \<Rightarrow> True | Some (r, _) \<Rightarrow> seal_round p > r) then Some (seal_round p, shard) else best)"

definition RootRoundBound_from_routed ::
  "ShardRouter \<Rightarrow> (InclusionProof \<times> nat) list \<Rightarrow> VerificationError + RootRoundBound" where
  "RootRoundBound_from_routed router evidence =
     rbind (ok_or SealMalformed (best_round evidence None)) (\<lambda>(round, shard).
       Ok \<lparr>rb_round = round, rb_shard = rt_shards router ! shard\<rparr>)"

fun verify_evidence ::
  "sha2 \<Rightarrow> 'p k256 \<Rightarrow> (StateId \<times> InclusionProof) list \<Rightarrow> SealSession \<Rightarrow> (SealSession, VerificationError, unit) st" where
  "verify_evidence sha2 ec [] s = (Ok (), s)"
| "verify_evidence sha2 ec ((state_id, p) # evidence) s =
     sbind (verify_membership_in sha2 ec s p state_id (ip_reference_time p)) (\<lambda>_ s. verify_evidence sha2 ec evidence s)"

definition RootRoundBound_from_proofs ::
  "sha2 \<Rightarrow> 'p k256 \<Rightarrow> ShardRouter \<Rightarrow> (StateId \<times> InclusionProof) list \<Rightarrow> SealSession \<Rightarrow>
   (SealSession, VerificationError, RootRoundBound) st" where
  "RootRoundBound_from_proofs sha2 ec router evidence s =
     sbind (verify_evidence sha2 ec evidence s) (\<lambda>_ s.
       (RootRoundBound_from_routed router (map (\<lambda>(i, p). (p, route_index router i)) evidence), s))"

section \<open>Reconstruction\<close>

definition replacement_proof ::
  "InclusionProof \<Rightarrow> InclusionProof \<Rightarrow> UnicityCertificate \<Rightarrow> string + InclusionProof" where
  "replacement_proof original served uc =
     (if ip_certification_data served \<noteq> ip_certification_data original
      then Err ''certification data differs from the original''
      else if ip_reference_time served \<noteq> ip_reference_time original
      then Err ''reference time differs from the original''
      else Ok \<lparr>ip_certification_data = ip_certification_data original, ip_reference_time = ip_reference_time original,
             ip_inclusion_certificate = ip_inclusion_certificate served, ip_unicity_certificate = uc\<rparr>)"

definition rebuild_token :: "Token \<Rightarrow> InclusionProof list \<Rightarrow> string + Token" where
  "rebuild_token token proofs =
     (if length proofs \<noteq> 1 + length (tk_transactions token)
      then Err ''one replacement proof per outer-history transaction is required''
      else
        let genesis = \<lparr>cm_transaction = cm_transaction (tk_genesis token), cm_inclusion_proof = hd proofs\<rparr>;
            transfers = map2 (\<lambda>t p. \<lparr>ct_transaction = ct_transaction t, ct_inclusion_proof = p\<rparr>)
              (tk_transactions token) (List.tl proofs)
        in Ok \<lparr>tk_genesis = genesis, tk_transactions = transfers\<rparr>)"

section \<open>Routing finds the shard\<close>

text \<open>The search compares an id with the bits of the key up to its length.\<close>

lemma cmp_prefix_bools:
  assumes "length x \<le> length key"
  shows "cmp_bools x (take (length x) key) = (if prefix x key then Equal else cmp_bools x key)"
proof (cases "prefix x key")
  case True
  then have "take (length x) key = x" by (auto simp: prefix_def)
  then show ?thesis using True bool_order.cmp_Equal by simp
next
  case False
  let ?k = "take (length x) key"
  have "\<not> prefix x ?k" using False take_is_prefix prefix_order.trans by blast
  moreover have "\<not> prefix ?k x"
  proof
    assume "prefix ?k x"
    then have "?k = x" using assms by (intro prefix_same_length) simp_all
    then show False using False take_is_prefix [of "length x" key] by simp
  qed
  ultimately have "cmp_bools (x @ []) (?k @ drop (length x) key) = cmp_bools x ?k" by (rule cmp_bools_extend)
  then show ?thesis using False by simp
qed

lemma cmp_prefix_of_key_bools:
  assumes "ShardId_wf s" "sh_length s \<le> 8 * length key"
  shows "cmp_prefix_of_key s key = (if prefix (shard_bits s) (key_bits key) then Equal else cmp_bools (shard_bits s) (key_bits key))"
proof -
  let ?k = "take (sh_length s) (key_bits key)"
  have a: "bit_value (sh_bits s) i = (if shard_bits s ! i then 1 else 0)" if "i < sh_length s" for i
    using that ShardId_wf_len [OF assms(1)] by (simp add: bit_value_bit_at nth_shard_bits)
  have b: "(if i div 8 < length key then bit_value key i else 0) = (if ?k ! i then 1 else 0)" if "i < sh_length s" for i
    using that assms(2) by (simp add: bit_value_bit_at nth_key_bits div_less_iff_less_mult mult.commute)
  have "cmp_bits (bit_value (sh_bits s)) (\<lambda>i. if i div 8 < length key then bit_value key i else 0)
      [0..<0 + min (length (shard_bits s)) (length ?k)] (cmp_nat (length (shard_bits s)) (length ?k)) = cmp_bools (shard_bits s) ?k"
  proof (rule cmp_bits_cmp_bools)
    show "bit_value (sh_bits s) (0 + i) = (if shard_bits s ! i then 1 else 0)" if "i < length (shard_bits s)" for i
      using a [of i] that by simp
    show "(if (0 + i) div 8 < length key then bit_value key (0 + i) else 0) = (if ?k ! i then 1 else 0)" if "i < length ?k" for i
      unfolding add_0 by (rule b) (use that in simp)
  qed
  then show ?thesis
    using assms(2) cmp_prefix_bools [of "shard_bits s" "key_bits key"]
    by (simp add: cmp_prefix_of_key_def min_absorb1 cmp_nat_def)
qed

text \<open>Along a sorted prefix-free scheme the comparison is monotone.\<close>

lemma prefix_cmp_mono:
  fixes key :: "bool list"
  assumes "cmp_bools a b = Less" "\<not> prefix a b"
  defines "c \<equiv> \<lambda>x. if prefix x key then Equal else cmp_bools x key"
  shows "c a \<le> c b"
proof (cases "c b")
  case Less
  then have b: "cmp_bools b key = Less" by (auto simp: c_def split: if_splits)
  then have "cmp_bools a key = Less" using assms(1) bool_order.cmp_trans by blast
  moreover have "\<not> prefix a key" using cmp_bools_between [of a b key] assms(1,2) b by auto
  ultimately show ?thesis by (simp add: c_def less_eq_ordering_def)
next
  case Equal
  have "c a \<noteq> Greater"
  proof
    assume "c a = Greater"
    then have "cmp_bools key a = Less" using bool_order.cmp_flip by (auto simp: c_def split: if_splits)
    then have "cmp_bools b key = Greater" using assms(1) bool_order.cmp_trans bool_order.cmp_flip by blast
    moreover have "prefix b key" using Equal calculation by (auto simp: c_def split: if_splits)
    ultimately show False using cmp_bools_prefix by blast
  qed
  then show ?thesis using Equal by (cases "c a") (simp_all add: less_eq_ordering_def)
next
  case Greater
  then show ?thesis by (cases "c a") (simp_all add: less_eq_ordering_def)
qed

theorem route_unique:
  assumes wf: "\<forall>s\<in>set (pt_scheme topology). ShardId_wf s" and r: "ShardRouter_new topology = Ok r"
    and key: "length (sid_bytes state_id) = 32"
  shows "route r state_id \<in> set (rt_shards r)"
    "s \<in> set (rt_shards r) \<Longrightarrow> is_prefix_of s (sid_bytes state_id) \<longleftrightarrow> s = route r state_id"
proof -
  let ?k = "key_bits (sid_bytes state_id)" and ?ids = "rt_shards r"
  have ok: "canonical_order topology = Ok ?ids" using r by (auto simp: ShardRouter_new_def result_simps)
  obtain t where t: "map shard_bits ?ids = paths [] t" using canonical_order_tree(1) [OF _ ok] wf by blast
  have ids: "ShardId_wf s \<and> sh_length s \<le> 256" if "s \<in> set ?ids" for s
    using canonical_order_tree(2) [OF _ ok that] wf by blast
  let ?c = "\<lambda>s. cmp_prefix_of_key s (sid_bytes state_id)"
  have c: "?c s = (if prefix (shard_bits s) ?k then Equal else cmp_bools (shard_bits s) ?k)" if "s \<in> set ?ids" for s
    using cmp_prefix_of_key_bools [of s "sid_bytes state_id"] ids [OF that] key by simp
  have pre: "is_prefix_of s (sid_bytes state_id) \<longleftrightarrow> prefix (shard_bits s) ?k" if "s \<in> set ?ids" for s
    using is_prefix_of_key_iff ids [OF that] by simp
  have lens: "length b \<le> 256" if "b \<in> set (paths [] t)" for b using that ids unfolding t [symmetric] by auto
  have "length (filter (\<lambda>b. prefix b ?k) (map shard_bits ?ids)) = 1"
    using paths_cover [of "[]" t] lens key unfolding t cover_from_def by simp
  then have one: "length (filter (\<lambda>s. prefix (shard_bits s) ?k) ?ids) = 1" by (simp add: filter_map comp_def)
  then obtain s0 where s0: "filter (\<lambda>s. prefix (shard_bits s) ?k) ?ids = [s0]" by (auto simp: length_Suc_conv)
  then have uniq: "s \<in> set ?ids \<and> prefix (shard_bits s) ?k \<longleftrightarrow> s = s0" for s
  proof -
    have "{x \<in> set ?ids. prefix (shard_bits x) ?k} = {s0}" using arg_cong [OF s0, of set] by (simp only: set_filter list.set)
    then show ?thesis by blast
  qed
  have sorted: "cmp_bools (shard_bits (?ids ! i)) (shard_bits (?ids ! j)) = Less \<and> \<not> prefix (shard_bits (?ids ! i)) (shard_bits (?ids ! j))"
    if "i < j" "j < length ?ids" for i j
  proof -
    have "sorted_wrt (\<lambda>a b. cmp_bools a b = Less) (map shard_bits ?ids)" "prefix_free (map shard_bits ?ids)"
      unfolding t by (rule paths_sorted, rule paths_prefix_free)
    then show ?thesis using that by (auto simp: sorted_wrt_map sorted_wrt_iff_nth_less)
  qed
  obtain k where k: "k < length ?ids" "?ids ! k = s0" using uniq [of s0] by (auto simp: in_set_conv_nth)
  have "\<exists>i. binary_search_by ?c ?ids = Some i"
  proof (rule binary_search_by_complete)
    show "?c (?ids ! i) \<le> ?c (?ids ! j)" if "i < j" "j < length ?ids" for i j
      using prefix_cmp_mono [of "shard_bits (?ids ! i)" "shard_bits (?ids ! j)" ?k] sorted [OF that] c that by simp
    show "k < length ?ids" "?c (?ids ! k) = Equal" using k c uniq [of s0] by auto
  qed
  then obtain i where i: "binary_search_by ?c ?ids = Some i" by blast
  from binary_search_by_Some [OF i] have i': "i < length ?ids" "?c (?ids ! i) = Equal" by auto
  then have "prefix (shard_bits (?ids ! i)) ?k" using c [of "?ids ! i"] bool_order.cmp_Equal by (auto split: if_splits)
  then have "route r state_id = s0" using uniq [of "?ids ! i"] i i' by (simp add: route_def route_index_def)
  then show "route r state_id \<in> set ?ids" "s \<in> set ?ids \<Longrightarrow> is_prefix_of s (sid_bytes state_id) \<longleftrightarrow> s = route r state_id"
    using uniq pre by auto
qed

section \<open>The bound\<close>

text \<open>The newest round, and the first evidence that has it.\<close>

lemma best_round_Some:
  "best_round evidence (Some (r, k)) = Some (r', k') \<Longrightarrow>
   r \<le> r' \<and> (\<forall>(p, j)\<in>set evidence. seal_round p \<le> r') \<and>
   (r' = r \<and> k' = k \<or> r < r' \<and> (\<exists>before p after. evidence = before @ (p, k') # after \<and> seal_round p = r' \<and>
      (\<forall>(q, j)\<in>set before. seal_round q < r')))"
proof (induction evidence arbitrary: r k)
  case (Cons e evidence)
  obtain p j where e: "e = (p, j)" by (cases e)
  show ?case
  proof (cases "seal_round p > r")
    case True
    then have "best_round evidence (Some (seal_round p, j)) = Some (r', k')" using Cons.prems e by simp
    note IH = Cons.IH [OF this]
    from IH consider "r' = seal_round p" "k' = j"
      | before q after where "seal_round p < r'" "evidence = before @ (q, k') # after" "seal_round q = r'"
        "\<forall>(q, j)\<in>set before. seal_round q < r'" by auto
    then have "\<exists>before q after. e # evidence = before @ (q, k') # after \<and> seal_round q = r' \<and> (\<forall>(q, j)\<in>set before. seal_round q < r')"
    proof cases
      case 1
      then show ?thesis using e by (intro exI [of _ "[]"]) auto
    next
      case 2
      then show ?thesis using e by (intro exI [of _ "e # before"]) auto
    qed
    then show ?thesis using IH True e by auto
  next
    case False
    then have "best_round evidence (Some (r, k)) = Some (r', k')" using Cons.prems e by simp
    note IH = Cons.IH [OF this]
    from IH consider "r' = r" "k' = k"
      | before q after where "r < r'" "evidence = before @ (q, k') # after" "seal_round q = r'"
        "\<forall>(q, j)\<in>set before. seal_round q < r'" by auto
    then show ?thesis
    proof cases
      case 1
      then show ?thesis using IH False e by auto
    next
      case 2
      have "seal_round p < r'" using False 2(1) by simp
      then have "\<exists>before q after. e # evidence = before @ (q, k') # after \<and> seal_round q = r' \<and> (\<forall>(q, j)\<in>set before. seal_round q < r')"
        using 2 e by (intro exI [of _ "e # before"]) auto
      then show ?thesis using IH False e 2(1) by auto
    qed
  qed
qed simp

theorem from_routed_newest:
  assumes "RootRoundBound_from_routed router evidence = Ok b"
  shows "\<exists>before p k after. evidence = before @ (p, k) # after \<and> rb_round b = seal_round p \<and> rb_shard b = rt_shards router ! k \<and>
    (\<forall>(q, j)\<in>set evidence. seal_round q \<le> rb_round b) \<and> (\<forall>(q, j)\<in>set before. seal_round q < rb_round b)"
proof -
  obtain r k where best: "best_round evidence None = Some (r, k)" and b: "rb_round b = r" "rb_shard b = rt_shards router ! k"
    using assms by (auto simp: RootRoundBound_from_routed_def result_simps)
  then obtain p j rest where e: "evidence = (p, j) # rest" by (cases evidence) auto
  then have "best_round rest (Some (seal_round p, j)) = Some (r, k)" using best by simp
  note spec = best_round_Some [OF this]
  then consider "r = seal_round p" "k = j"
    | before q after where "seal_round p < r" "rest = before @ (q, k) # after" "seal_round q = r"
      "\<forall>(q, j)\<in>set before. seal_round q < r" by auto
  then have "\<exists>before q after. evidence = before @ (q, k) # after \<and> seal_round q = r \<and> (\<forall>(q, j)\<in>set before. seal_round q < r)"
  proof cases
    case 1
    then show ?thesis using e by (intro exI [of _ "[]"]) auto
  next
    case 2
    then show ?thesis using e by (intro exI [of _ "(p, j) # before"]) auto
  qed
  then obtain before q after where "evidence = before @ (q, k) # after" "seal_round q = r" "\<forall>(q, j)\<in>set before. seal_round q < r" by blast
  moreover have "\<forall>(q, j)\<in>set evidence. seal_round q \<le> r" using spec e by auto
  ultimately show ?thesis unfolding b by (intro exI [of _ before] exI [of _ q] exI [of _ k] exI [of _ after]) auto
qed

section \<open>Rebuilt tokens\<close>

lemma rebuild_token_iff:
  "rebuild_token token proofs = Ok token' \<longleftrightarrow>
     cm_transaction (tk_genesis token') = cm_transaction (tk_genesis token) \<and>
     map ct_transaction (tk_transactions token') = map ct_transaction (tk_transactions token) \<and>
     proofs = cm_inclusion_proof (tk_genesis token') # map ct_inclusion_proof (tk_transactions token')"
proof (cases "length proofs = 1 + length (tk_transactions token)")
  case False
  have "length (tk_transactions token') = length (tk_transactions token)"
    if "map ct_transaction (tk_transactions token') = map ct_transaction (tk_transactions token)"
    using arg_cong [OF that, of length] by simp
  then show ?thesis using False by (auto simp: rebuild_token_def)
next
  case True
  then obtain p ps where ps: "proofs = p # ps" "length ps = length (tk_transactions token)" by (cases proofs) auto
  have zip: "map2 (\<lambda>t p. \<lparr>ct_transaction = ct_transaction t, ct_inclusion_proof = p\<rparr>) ts ps = us \<longleftrightarrow>
      map ct_transaction us = map ct_transaction ts \<and> ps = map ct_inclusion_proof us" if "length ps = length ts" for ts us
    using that
  proof (induction ts ps arbitrary: us rule: list_induct2')
    case (4 t ts p ps)
    then show ?case by (cases us) auto
  qed auto
  show ?thesis
    using zip [OF ps(2), of "tk_transactions token'"] ps True
    by (cases token'; cases "tk_genesis token'") (auto simp: rebuild_token_def)
qed

text \<open>A replacement keeps the certification; what has to be checked anew is the path and the certificate.\<close>

definition path_valid :: "sha2 \<Rightarrow> 'p k256 \<Rightarrow> RootTrustBase \<Rightarrow> StateId \<Rightarrow> InclusionProof \<Rightarrow> bool" where
  "path_valid sha2 ec tb sid p \<longleftrightarrow>
     ip_reference_time p \<le> ir_timestamp (uc_input_record (ip_unicity_certificate p)) \<and>
     state_proved sha2 p sid (cd_transaction_hash (ip_certification_data p)) \<and>
     is_prefix_of (stc_shard (uc_shard_tree_certificate (ip_unicity_certificate p))) (sid_bytes sid) \<and>
     uc_valid sha2 ec tb (ip_unicity_certificate p)"

lemma replaced_proof_valid:
  assumes "proof_valid sha2 ec tb tx original" "replacement_proof original served uc = Ok p"
    "path_valid sha2 ec tb (StateId_derive sha2 (tx_lock_script tx) (tx_source_state_hash tx)) p"
  shows "proof_valid sha2 ec tb tx p"
proof -
  have keep: "ip_certification_data p = ip_certification_data original" "ip_reference_time p = ip_reference_time original"
    using assms(2) by (auto simp: replacement_proof_def split: if_splits)
  have "cd_transaction_hash (ip_certification_data original) = calculate_transaction_hash sha2 tx"
    using assms(1) unfolding proof_valid_def Let_def
    by (metis CertificationData_from_transaction_def CertificationData.select_convs(3))
  then show ?thesis using assms(1,3) keep unfolding proof_valid_def path_valid_def Let_def by simp
qed

end
