(* ===== verification/Token_Wire.thy ===== *)
theory Token_Wire
  imports Token_Codec
begin

text \<open>
  Wire formats of transactions, inclusion proofs and tokens. A token whose derived fields are derived
  and whose transfers are linked is read back from its encoding, and every decoded token is such a
  token: the source state and lock script of each transfer are those its predecessor left.
\<close>

section \<open>Transactions\<close>

definition MintTransaction_wf :: "sha2 \<Rightarrow> 'p k256 \<Rightarrow> MintTransaction \<Rightarrow> bool" where
  "MintTransaction_wf sha2 ec m \<longleftrightarrow> NetworkId_wf (mt_network_id m) \<and> length (salt_bytes (mt_salt m)) = 32 \<and>
     MintTransaction_create sha2 ec (mt_network_id m) (mt_recipient m) (mt_token_type m) (mt_salt m)
       (mt_data m) (mt_justification m) (mt_expires_at m) = Ok m"

lemma mint_network_field_encode [codec_simps]:
  "accepts l (encode_uint (ucast (net_id n))) \<Longrightarrow> NetworkId_wf n \<Longrightarrow>
   mint_network_field (with_limits (encode_uint (ucast (net_id n))) l) = Ok n"
  by (simp add: mint_network_field_def codec_simps NetworkId_new_def NetworkId_wf_def u16_try_from_ucast)

lemma mint_network_field_wf: "mint_network_field d = Ok n \<Longrightarrow> NetworkId_wf n"
  by (auto simp: mint_network_field_def result_simps NetworkId_new_def NetworkId_wf_def split: if_splits)

lemma salt_encode [codec_simps]:
  "accepts l (TokenSalt_to_cbor s) \<Longrightarrow> length (salt_bytes s) = 32 \<Longrightarrow>
   TokenSalt_from_cbor (with_limits (TokenSalt_to_cbor s) l) = Ok s"
  by (simp add: TokenSalt_to_cbor_def TokenSalt_from_cbor_def bytes32_field_def codec_simps)

lemma salt_wf: "TokenSalt_from_cbor d = Ok s \<Longrightarrow> length (salt_bytes s) = 32"
  by (auto simp: TokenSalt_from_cbor_def bytes32_field_def result_simps split: if_splits)

lemma type_encode [codec_simps]:
  "accepts l (TokenType_to_cbor t) \<Longrightarrow> TokenType_from_cbor (with_limits (TokenType_to_cbor t) l) = Ok t"
  by (simp add: TokenType_to_cbor_def TokenType_from_cbor_def codec_simps)

lemma item_ids [simp]: "item (TokenSalt_to_cbor s)" "item (TokenType_to_cbor t)"
  by (simp_all add: TokenSalt_to_cbor_def TokenType_to_cbor_def)

lemma MintTransaction_create_fields:
  assumes "MintTransaction_create sha2 ec n r ty s da j e = Ok m"
  shows "mt_network_id m = n" "mt_recipient m = r" "mt_token_type m = ty" "mt_salt m = s"
    "mt_data m = da" "mt_justification m = j" "mt_expires_at m = e"
  using assms by (auto simp: MintTransaction_create_def Let_def result_simps)

interpretation mint: codec MintTransaction_to_cbor "MintTransaction_from_cbor sha2 ec" "MintTransaction_wf sha2 ec"
  for sha2 ec
proof (unfold_locales, goal_cases)
  case (1 x)
  then show ?case by (simp add: MintTransaction_to_cbor_def item_array_list)
next
  case (2 d x)
  then show ?case
    by (auto simp: MintTransaction_from_cbor_def MintTransaction_wf_def result_simps
        MintTransaction_create_fields dest: mint_network_field_wf salt_wf split: if_splits)
next
  case (3 x l)
  from tagged_array [OF 3(2) [unfolded MintTransaction_to_cbor_def]] 3(1) show ?case
    by (simp add: MintTransaction_to_cbor_def MintTransaction_from_cbor_def MintTransaction_wf_def codec_simps)
qed

definition spends :: "DataHash \<Rightarrow> EncodedPredicate \<Rightarrow> TransferTransaction \<Rightarrow> bool" where
  "spends h p t \<longleftrightarrow> tr_source_state_hash t = h \<and> tr_lock_script t = p"

interpretation transfer: codec TransferTransaction_to_cbor "\<lambda>d. TransferTransaction_from_cbor d h p" "spends h p"
  for h p
proof (unfold_locales, goal_cases)
  case (1 x)
  then show ?case by (simp add: TransferTransaction_to_cbor_def item_array_list)
next
  case (2 d x)
  then show ?case
    by (auto simp: TransferTransaction_from_cbor_def spends_def result_simps split: if_splits)
next
  case (3 x l)
  from tagged_array [OF 3(2) [unfolded TransferTransaction_to_cbor_def]] 3(1) show ?case
    by (simp add: TransferTransaction_to_cbor_def TransferTransaction_from_cbor_def spends_def codec_simps)
qed

section \<open>Inclusion proofs\<close>

definition InclusionProof_wf :: "InclusionProof \<Rightarrow> bool" where
  "InclusionProof_wf p \<longleftrightarrow> CertificationData_wf (ip_certification_data p) \<and>
     InclusionCertificate_wf (ip_inclusion_certificate p) \<and> UnicityCertificate_wf (ip_unicity_certificate p)"

lemma InclusionProof_from_cbor_eq:
  "InclusionProof_from_cbor d =
     rbind (DecodedParts_head d) (\<lambda>(cd, t, ic, uc_item).
     rbind (UnicityCertificate_from_cbor uc_item) (\<lambda>uc.
       into_certified \<lparr>dp_certification_data = cd, dp_reference_time = t, dp_inclusion_certificate = ic,
         dp_unicity_certificate = uc\<rparr>))"
  by (cases "DecodedParts_head d")
    (auto simp: InclusionProof_from_cbor_def DecodedParts_from_cbor_def split: sum.splits)

lemma certification_not_null [simp]: "\<not> is_null (with_limits (CertificationData_to_cbor c) l)"
  by (simp add: CertificationData_to_cbor_def)

lemma nullable_present:
  "\<not> is_null (with_limits b l) \<Longrightarrow> g (with_limits b l) = Ok v \<Longrightarrow> nullable (with_limits b l) g = Ok (Some v)"
  by (simp add: nullable_def)

lemma opt_uint_present:
  "accepts l (encode_uint n) \<Longrightarrow> opt_uint (with_limits (encode_uint n) l) = Ok (Some n)"
  unfolding opt_uint_def by (rule nullable_present) (simp_all add: codec_simps)

lemma nullable_wf:
  assumes "nullable d g = Ok (Some v)" "\<And>d v. g d = Ok v \<Longrightarrow> P v"
  shows "P v"
  using assms by (auto simp: nullable_Ok_iff)

interpretation inclusion_proof: codec InclusionProof_to_cbor InclusionProof_from_cbor InclusionProof_wf
proof (unfold_locales, goal_cases)
  case (1 x)
  then show ?case
    by (simp add: InclusionProof_to_cbor_def InclusionProof_wf_def item_array_list
        certification.encodes_item uc.encodes_item)
next
  case (2 d x)
  then obtain cd t ic uc_item where "DecodedParts_head d = Ok (Some cd, Some t, Some ic, uc_item)"
    "UnicityCertificate_from_cbor uc_item = Ok (ip_unicity_certificate x)"
    "ip_certification_data x = cd" "ip_inclusion_certificate x = ic"
    unfolding InclusionProof_from_cbor_eq
    by (cases "DecodedParts_head d")
      (force simp: rbind_Inr_iff into_certified_def split: option.splits prod.splits)+
  moreover from this obtain i j where "nullable i CertificationData_from_cbor = Ok (Some cd)"
    "nullable j (\<lambda>x. rbind (map_err Cbor (bytes_value x)) InclusionCertificate_decode) = Ok (Some ic)"
    by (auto simp: DecodedParts_head_def result_simps Let_def split: if_splits)
  ultimately show ?case
    by (auto simp: InclusionProof_wf_def result_simps InclusionCertificate_decode_Ok_iff
        intro: uc.decode_valid elim!: nullable_wf dest: certification.decode_valid)
next
  case (3 x l)
  let ?fields = "[encode_uint INCLUSION_PROOF_VERSION, CertificationData_to_cbor (ip_certification_data x),
        encode_uint (ip_reference_time x),
        encode_byte_string (InclusionCertificate_encode (ip_inclusion_certificate x)),
        UnicityCertificate_to_cbor (ip_unicity_certificate x)]"
  have items: "list_all item ?fields"
    using 3(1) by (simp add: InclusionProof_wf_def certification.encodes_item uc.encodes_item)
  note fields = tagged_array [OF 3(2) [unfolded InclusionProof_to_cbor_def] items]
  have acc: "accepts l (CertificationData_to_cbor (ip_certification_data x))"
    "accepts l (encode_uint (ip_reference_time x))"
    "accepts l (encode_byte_string (InclusionCertificate_encode (ip_inclusion_certificate x)))"
    "accepts l (UnicityCertificate_to_cbor (ip_unicity_certificate x))"
    using fields(3) by simp_all
  have cd: "nullable (with_limits (CertificationData_to_cbor (ip_certification_data x)) l)
      CertificationData_from_cbor = Ok (Some (ip_certification_data x))"
    using 3(1) acc(1) by (intro nullable_present certification.decode_encode) (simp_all add: InclusionProof_wf_def)
  have ic: "nullable (with_limits (encode_byte_string (InclusionCertificate_encode (ip_inclusion_certificate x))) l)
      (\<lambda>x. rbind (map_err Cbor (bytes_value x)) InclusionCertificate_decode) = Ok (Some (ip_inclusion_certificate x))"
    using 3(1) acc(3)
    by (intro nullable_present) (simp_all add: InclusionProof_wf_def codec_simps InclusionCertificate_decode_Ok_iff)
  have head: "DecodedParts_head (with_limits (InclusionProof_to_cbor x) l) =
      Ok (Some (ip_certification_data x), Some (ip_reference_time x), Some (ip_inclusion_certificate x),
        with_limits (UnicityCertificate_to_cbor (ip_unicity_certificate x)) l)"
    using fields items
    by (simp add: InclusionProof_to_cbor_def DecodedParts_head_def codec_simps cd ic opt_uint_present Let_def)
  show ?case using uc.decode_encode [OF _ acc(4)] 3(1)
    by (simp add: InclusionProof_from_cbor_eq head into_certified_def InclusionProof_wf_def)
qed

section \<open>Certified transactions\<close>

definition CertifiedMintTransaction_wf :: "sha2 \<Rightarrow> 'p k256 \<Rightarrow> CertifiedMintTransaction \<Rightarrow> bool" where
  "CertifiedMintTransaction_wf sha2 ec c \<longleftrightarrow>
     MintTransaction_wf sha2 ec (cm_transaction c) \<and> InclusionProof_wf (cm_inclusion_proof c)"

lemma pair_array:
  assumes "accepts l (encode_array [a, b])" "item a" "item b"
  shows "array (with_limits (encode_array [a, b]) l) (Some 2) = Ok [with_limits a l, with_limits b l]"
    "accepts l a" "accepts l b"
  using array_encode [OF assms(1), of 2] accepts_array [OF assms(1)] assms(2,3) by simp_all

interpretation certified_mint: codec CertifiedMintTransaction_to_cbor
  "CertifiedMintTransaction_from_cbor sha2 ec" "CertifiedMintTransaction_wf sha2 ec" for sha2 ec
proof (unfold_locales, goal_cases)
  case (1 x)
  then show ?case unfolding CertifiedMintTransaction_to_cbor_def CertifiedMintTransaction_wf_def
    by (intro item_array_list) (auto intro: mint.encodes_item inclusion_proof.encodes_item)
next
  case (2 d x)
  then show ?case
    by (auto simp: CertifiedMintTransaction_from_cbor_def CertifiedMintTransaction_wf_def result_simps
        intro: mint.decode_valid inclusion_proof.decode_valid)
next
  case (3 x l)
  from 3(1) have "MintTransaction_wf sha2 ec (cm_transaction x)" "InclusionProof_wf (cm_inclusion_proof x)"
    by (simp_all add: CertifiedMintTransaction_wf_def)
  with pair_array [OF 3(2) [unfolded CertifiedMintTransaction_to_cbor_def]] show ?case
    by (simp add: CertifiedMintTransaction_to_cbor_def CertifiedMintTransaction_from_cbor_def
        mint.encodes_item inclusion_proof.encodes_item mint.decode_encode inclusion_proof.decode_encode)
qed

definition certified_spends :: "DataHash \<Rightarrow> EncodedPredicate \<Rightarrow> CertifiedTransferTransaction \<Rightarrow> bool" where
  "certified_spends h p c \<longleftrightarrow> spends h p (ct_transaction c) \<and> InclusionProof_wf (ct_inclusion_proof c)"

interpretation certified_transfer: codec CertifiedTransferTransaction_to_cbor
  "\<lambda>d. CertifiedTransferTransaction_from_cbor d h p" "certified_spends h p" for h p
proof (unfold_locales, goal_cases)
  case (1 x)
  then show ?case unfolding CertifiedTransferTransaction_to_cbor_def certified_spends_def
    by (intro item_array_list) (auto intro: transfer.encodes_item inclusion_proof.encodes_item)
next
  case (2 d x)
  then show ?case
    by (auto simp: CertifiedTransferTransaction_from_cbor_def certified_spends_def result_simps
        intro: transfer.decode_valid inclusion_proof.decode_valid)
next
  case (3 x l)
  from 3(1) have "spends h p (ct_transaction x)" "InclusionProof_wf (ct_inclusion_proof x)"
    by (simp_all add: certified_spends_def)
  with pair_array [OF 3(2) [unfolded CertifiedTransferTransaction_to_cbor_def]] show ?case
    by (simp add: CertifiedTransferTransaction_to_cbor_def CertifiedTransferTransaction_from_cbor_def
        transfer.encodes_item inclusion_proof.encodes_item transfer.decode_encode inclusion_proof.decode_encode)
qed

section \<open>Tokens\<close>

text \<open>Each transfer spends the state and is locked by the recipient that its predecessor left.\<close>

fun linked :: "sha2 \<Rightarrow> DataHash \<Rightarrow> EncodedPredicate \<Rightarrow> CertifiedTransferTransaction list \<Rightarrow> bool" where
  "linked sha2 h p [] \<longleftrightarrow> True"
| "linked sha2 h p (t # ts) \<longleftrightarrow> certified_spends h p t \<and>
     linked sha2 (transfer_state_hash sha2 (ct_transaction t)) (tr_recipient (ct_transaction t)) ts"

definition Token_wf :: "sha2 \<Rightarrow> 'p k256 \<Rightarrow> Token \<Rightarrow> bool" where
  "Token_wf sha2 ec token \<longleftrightarrow> CertifiedMintTransaction_wf sha2 ec (tk_genesis token) \<and>
     linked sha2 (mint_state_hash sha2 (cm_transaction (tk_genesis token)))
       (mt_recipient (cm_transaction (tk_genesis token))) (tk_transactions token)"

lemma transfers_decode_linked: "transfers_from_cbor sha2 ds h p = Ok ts \<Longrightarrow> linked sha2 h p ts"
  by (induction ds arbitrary: h p ts)
    (auto simp: result_simps intro: certified_transfer.decode_valid)

lemma transfers_decode_encode:
  assumes "linked sha2 h p ts" "\<forall>t\<in>set ts. accepts l (CertifiedTransferTransaction_to_cbor t)"
  shows "transfers_from_cbor sha2 (map (\<lambda>t. with_limits (CertifiedTransferTransaction_to_cbor t) l) ts) h p = Ok ts"
  using assms by (induction ts arbitrary: h p) (simp_all add: certified_transfer.decode_encode)

lemma linked_items: "linked sha2 h p ts \<Longrightarrow> list_all item (map CertifiedTransferTransaction_to_cbor ts)"
  by (induction ts arbitrary: h p) (auto intro: certified_transfer.encodes_item)

theorem token_decode_wf:
  assumes "token_from_cbor sha2 ec d = Ok token"
  shows "Token_wf sha2 ec token"
  using assms
  by (auto simp: token_from_cbor_def Token_wf_def result_simps
      intro: certified_mint.decode_valid transfers_decode_linked split: if_splits)

theorem token_decode_encode:
  assumes wf: "Token_wf sha2 ec token" and acc: "accepts l (Token_to_cbor token)"
  shows "token_from_cbor sha2 ec (with_limits (Token_to_cbor token) l) = Ok token"
proof -
  let ?ts = "tk_transactions token"
  have g: "CertifiedMintTransaction_wf sha2 ec (tk_genesis token)"
    and ts: "linked sha2 (mint_state_hash sha2 (cm_transaction (tk_genesis token)))
       (mt_recipient (cm_transaction (tk_genesis token))) ?ts"
    using wf by (simp_all add: Token_wf_def)
  note its = linked_items [OF ts]
  have items: "list_all item [encode_uint TOKEN_VERSION, CertifiedMintTransaction_to_cbor (tk_genesis token),
      encode_array (map CertifiedTransferTransaction_to_cbor ?ts)]"
    using certified_mint.encodes_item [OF g] item_array_list [OF its] by simp
  note fields = tagged_array [OF acc [unfolded Token_to_cbor_def] items]
  have acc_ts: "accepts l (encode_array (map CertifiedTransferTransaction_to_cbor ?ts))"
    and acc_g: "accepts l (CertifiedMintTransaction_to_cbor (tk_genesis token))"
    using fields(3) by simp_all
  have arr: "array (with_limits (encode_array (map CertifiedTransferTransaction_to_cbor ?ts)) l) None =
      Ok (map (\<lambda>t. with_limits (CertifiedTransferTransaction_to_cbor t) l) ?ts)"
  proof -
    have "\<And>b. b \<in> set (map CertifiedTransferTransaction_to_cbor ?ts) \<Longrightarrow> item b"
      using its by (auto simp: list_all_iff)
    from array_complete [OF acc_ts this, of None] show ?thesis by (simp add: comp_def)
  qed
  have "\<forall>t\<in>set ?ts. accepts l (CertifiedTransferTransaction_to_cbor t)"
    using accepts_array [OF acc_ts its] by (simp add: list_all_iff)
  from transfers_decode_encode [OF ts this] certified_mint.decode_encode [OF g acc_g] fields items arr
    accepts_finish [OF acc]
  show ?thesis
    by (simp add: Token_to_cbor_def token_from_cbor_def codec_simps)
qed

section \<open>Signature predicates are read back\<close>

lemma accepts_uint: "accepts DEFAULT_limits (encode_uint n)"
proof -
  have "encode_uint n = enc (Atom major_UINT n)" by (simp add: encode_uint_def)
  moreover have "item_fits DEFAULT_limits (Atom major_UINT n)"
    using length_head_le [of major_UINT n] by (simp add: item_fits_def DEFAULT_limits_def major_defs)
  ultimately show ?thesis
    unfolding accepts_iff by (intro conjI exI [of _ "Atom major_UINT n"]) (simp_all add: DEFAULT_limits_def)
qed

lemma signature_predicate_read:
  assumes "PublicKey_from_bytes ec (pk_bytes k) = Ok k"
  shows "SignaturePredicate_from_encoded ec (SignaturePredicate_to_encoded \<lparr>sp_public_key = k\<rparr>) = Ok \<lparr>sp_public_key = k\<rparr>"
  using assms accepts_finish [OF accepts_uint [of 1]] uint_value_encode [OF accepts_uint [of 1]]
  by (simp add: SignaturePredicate_from_encoded_def SignaturePredicate_to_encoded_def builtin_type_def
      decoder_new_def builtin_from_id_def)

end
