(* ===== verification/Client_Messages.thy ===== *)
theory Client_Messages
  imports Token_Wire
begin

text \<open>
  The messages between a client and an aggregator: the certification request of
  \<open>api/certification_request.rs\<close>, the status hint of \<open>api/proof_status.rs\<close> and the answer about a state of
  \<open>api/inclusion_proof_response.rs\<close>. The answer is a codec: a certified leaf or the certificate of the round
  without one.
\<close>

section \<open>Certification requests\<close>

definition CERTIFICATION_REQUEST_TAG :: u64 where "CERTIFICATION_REQUEST_TAG = 39030"
definition CERTIFICATION_REQUEST_VERSION :: u64 where "CERTIFICATION_REQUEST_VERSION = 1"

record CertificationRequest =
  cr_state_id :: StateId
  cr_data :: CertificationData

definition CertificationRequest_new :: "sha2 \<Rightarrow> CertificationData \<Rightarrow> CertificationRequest" where
  "CertificationRequest_new sha2 data =
     \<lparr>cr_state_id = StateId_derive sha2 (cd_lock_script data) (cd_source_state_hash data), cr_data = data\<rparr>"

definition CertificationRequest_to_cbor :: "CertificationRequest \<Rightarrow> bytes" where
  "CertificationRequest_to_cbor r =
     encode_tag CERTIFICATION_REQUEST_TAG (encode_array
       [encode_uint CERTIFICATION_REQUEST_VERSION, StateId_to_cbor (cr_state_id r),
        CertificationData_to_cbor (cr_data r), encode_uint 0])"

section \<open>Status hints\<close>

datatype ProofStatus = Included | Pending | Expired | Unknown

definition from_wire :: "string \<Rightarrow> ProofStatus option" where
  "from_wire s =
     (if s = ''included'' then Some Included
      else if s = ''pending'' then Some Pending
      else if s = ''expired'' then Some Expired
      else if s = ''unknown'' then Some Unknown
      else None)"

primrec as_wire :: "ProofStatus \<Rightarrow> string" where
  "as_wire Included = ''included''"
| "as_wire Pending = ''pending''"
| "as_wire Expired = ''expired''"
| "as_wire Unknown = ''unknown''"

lemma from_wire_iff: "from_wire s = Some p \<longleftrightarrow> s = as_wire p"
  by (cases p) (auto simp: from_wire_def)

section \<open>Answers about a state\<close>

datatype InclusionProofResponse =
    Certified u64 InclusionProof
  | NotCertified u64 UnicityCertificate

definition InclusionProofResponse_from_cbor :: "Decoder \<Rightarrow> Error + InclusionProofResponse" where
  "InclusionProofResponse_from_cbor d =
     rbind (map_err Cbor (array d (Some 2))) (\<lambda>items.
     rbind (map_err Cbor (uint_value (items ! 0))) (\<lambda>block_number.
     rbind (fst (DecodedParts_from_cbor (items ! 1) None)) (\<lambda>parts.
       if dp_certification_data parts = None
       then Ok (NotCertified block_number (dp_unicity_certificate parts))
       else rbind (into_certified parts) (\<lambda>p. Ok (Certified block_number p)))))"

primrec InclusionProofResponse_to_cbor :: "InclusionProofResponse \<Rightarrow> bytes" where
  "InclusionProofResponse_to_cbor (Certified block_number p) =
     encode_array [encode_uint block_number, InclusionProof_to_cbor p]"
| "InclusionProofResponse_to_cbor (NotCertified block_number uc) =
     encode_array [encode_uint block_number,
       encode_tag INCLUSION_PROOF_TAG (encode_array
         [encode_uint INCLUSION_PROOF_VERSION, encode_null, encode_null, encode_null, UnicityCertificate_to_cbor uc])]"

primrec response_block_number :: "InclusionProofResponse \<Rightarrow> u64" where
  "response_block_number (Certified n p) = n"
| "response_block_number (NotCertified n uc) = n"

primrec response_proof :: "InclusionProofResponse \<Rightarrow> InclusionProof option" where
  "response_proof (Certified n p) = Some p"
| "response_proof (NotCertified n uc) = None"

primrec response_certificate :: "InclusionProofResponse \<Rightarrow> UnicityCertificate" where
  "response_certificate (Certified n p) = ip_unicity_certificate p"
| "response_certificate (NotCertified n uc) = uc"

section \<open>The answer is a codec\<close>

primrec InclusionProofResponse_wf :: "InclusionProofResponse \<Rightarrow> bool" where
  "InclusionProofResponse_wf (Certified n p) \<longleftrightarrow> InclusionProof_wf p"
| "InclusionProofResponse_wf (NotCertified n uc) \<longleftrightarrow> UnicityCertificate_wf uc"

lemma DecodedParts_from_cbor_None:
  "fst (DecodedParts_from_cbor d None) =
     rbind (DecodedParts_head d) (\<lambda>(cd, t, ic, uc_item).
     rbind (UnicityCertificate_from_cbor uc_item) (\<lambda>uc.
       Ok \<lparr>dp_certification_data = cd, dp_reference_time = t, dp_inclusion_certificate = ic, dp_unicity_certificate = uc\<rparr>))"
  by (cases "DecodedParts_head d") (auto simp: DecodedParts_from_cbor_def split: sum.splits)

text \<open>The decoder of the answer tries a certified leaf; with no leaf at all only the certificate is read.\<close>

lemma InclusionProofResponse_from_cbor_eq:
  "InclusionProofResponse_from_cbor d =
     rbind (map_err Cbor (array d (Some 2))) (\<lambda>items.
     rbind (map_err Cbor (uint_value (items ! 0))) (\<lambda>n.
     rbind (fst (DecodedParts_from_cbor (items ! 1) None)) (\<lambda>parts.
       if dp_certification_data parts = None then Ok (NotCertified n (dp_unicity_certificate parts))
       else rbind (InclusionProof_from_cbor (items ! 1)) (\<lambda>p. Ok (Certified n p)))))"
  unfolding InclusionProofResponse_from_cbor_def InclusionProof_from_cbor_def by (auto simp: rbind_def split: sum.splits)

lemma nullable_absent: "accepts l encode_null \<Longrightarrow> nullable (with_limits encode_null l) g = Ok None"
  by (simp add: nullable_def accepts_finish)

lemma absent_leaf_head:
  assumes "UnicityCertificate_wf uc"
    and "accepts l (encode_tag INCLUSION_PROOF_TAG (encode_array
      [encode_uint INCLUSION_PROOF_VERSION, encode_null, encode_null, encode_null, UnicityCertificate_to_cbor uc]))"
  shows "fst (DecodedParts_from_cbor (with_limits (encode_tag INCLUSION_PROOF_TAG (encode_array
      [encode_uint INCLUSION_PROOF_VERSION, encode_null, encode_null, encode_null, UnicityCertificate_to_cbor uc])) l) None) =
    Ok \<lparr>dp_certification_data = None, dp_reference_time = None, dp_inclusion_certificate = None, dp_unicity_certificate = uc\<rparr>"
proof -
  have items: "list_all item [encode_uint INCLUSION_PROOF_VERSION, encode_null, encode_null, encode_null,
      UnicityCertificate_to_cbor uc]" using assms(1) by (simp add: uc.encodes_item)
  note fields = tagged_array [OF assms(2) items]
  have "accepts l encode_null" "accepts l (UnicityCertificate_to_cbor uc)" using fields(3) by simp_all
  then show ?thesis
    using fields items assms(1)
    by (simp add: DecodedParts_from_cbor_None DecodedParts_head_def codec_simps nullable_absent opt_uint_def Let_def
        uc.decode_encode)
qed

lemma into_certified_present: "into_certified parts = Ok p \<Longrightarrow> dp_certification_data parts \<noteq> None"
  by (auto simp: into_certified_def split: option.splits)

interpretation response: codec InclusionProofResponse_to_cbor InclusionProofResponse_from_cbor InclusionProofResponse_wf
proof (unfold_locales, goal_cases)
  case (1 x)
  then show ?case by (cases x) (auto simp: item_array_list inclusion_proof.encodes_item uc.encodes_item)
next
  case (2 d x)
  then show ?case
    by (auto simp: InclusionProofResponse_from_cbor_eq DecodedParts_from_cbor_None result_simps
        intro: inclusion_proof.decode_valid uc.decode_valid split: if_splits)
next
  case (3 x l)
  show ?case
  proof (cases x)
    case (Certified n p)
    have items: "list_all item [encode_uint n, InclusionProof_to_cbor p]"
      using 3(1) Certified by (simp add: inclusion_proof.encodes_item)
    have acc: "list_all (accepts l) [encode_uint n, InclusionProof_to_cbor p]"
      using array_accepts [OF 3(2) [unfolded Certified InclusionProofResponse_to_cbor.simps]] items
      by (auto simp: list_all_iff)
    have p: "InclusionProof_from_cbor (with_limits (InclusionProof_to_cbor p) l) = Ok p"
      using 3(1) acc Certified by (intro inclusion_proof.decode_encode) simp_all
    then obtain parts where "fst (DecodedParts_from_cbor (with_limits (InclusionProof_to_cbor p) l) None) = Ok parts"
      "dp_certification_data parts \<noteq> None"
      using into_certified_present by (auto simp: InclusionProof_from_cbor_def rbind_Inr_iff)
    then show ?thesis using items acc p 3(2)
      by (simp add: Certified InclusionProofResponse_from_cbor_eq codec_simps)
  next
    case (NotCertified n uc)
    let ?leaf = "encode_tag INCLUSION_PROOF_TAG (encode_array
      [encode_uint INCLUSION_PROOF_VERSION, encode_null, encode_null, encode_null, UnicityCertificate_to_cbor uc])"
    have items: "list_all item [encode_uint n, ?leaf]" using 3(1) NotCertified by (simp add: item_array_list uc.encodes_item)
    have acc: "list_all (accepts l) [encode_uint n, ?leaf]"
      using array_accepts [OF 3(2) [unfolded NotCertified InclusionProofResponse_to_cbor.simps]] items
      by (auto simp: list_all_iff)
    then show ?thesis using items 3 absent_leaf_head [of uc l]
      by (simp add: NotCertified InclusionProofResponse_from_cbor_eq codec_simps)
  qed
qed

end
