(* ===== verification/Client.thy ===== *)
theory Client
  imports Verify_Token Client_Messages
begin

text \<open>
  The mint and transfer flows of \<open>client/mod.rs\<close>. The transport is a parameter: what an implementation of the
  trait \<open>AggregatorClient\<close> answers, and how it changes the world \<open>'w\<close>, is arbitrary. A signer is what it
  answers to \<open>sign\<close>, where \<open>None\<close> is a panic (\<open>Signer::sign\<close> of \<open>crypto/signer.rs\<close> expects the curve library to
  succeed); the flows then do not return.
\<close>

section \<open>The flows\<close>

record ('w, 'e) AggregatorClient =
  submit_certification_request :: "CertificationData \<Rightarrow> 'w \<Rightarrow> ('w, 'e, unit) st"
  get_inclusion_proof :: "StateId \<Rightarrow> 'w \<Rightarrow> ('w, 'e, InclusionProof) st"

datatype 'e ClientError =
    Build Error
  | Aggregator 'e
  | Verification VerificationError

type_synonym signer = "DataHash \<Rightarrow> Signature option"

definition certification_data_for :: "sha2 \<Rightarrow> Transaction \<Rightarrow> signer \<Rightarrow> CertificationData option" where
  "certification_data_for sha2 transaction sign =
     (let tx_hash = calculate_transaction_hash sha2 transaction
      in map_option (\<lambda>sig. CertificationData_from_transaction sha2 transaction (Signature_encode sig))
           (sign (signature_unlock_message sha2 (tx_source_state_hash transaction) tx_hash)))"

text \<open>The request and the answer, which both flows make with the certification data.\<close>

definition certify ::
  "sha2 \<Rightarrow> ('w, 'e) AggregatorClient \<Rightarrow> Transaction \<Rightarrow> CertificationData \<Rightarrow> 'w \<Rightarrow> ('w, 'e ClientError, InclusionProof) st"
where
  "certify sha2 aggregator transaction certification_data w =
     sbind (map_prod (map_err Aggregator) id (submit_certification_request aggregator certification_data w)) (\<lambda>_ w.
       let state_id = StateId_derive sha2 (tx_lock_script transaction) (tx_source_state_hash transaction)
       in map_prod (map_err Aggregator) id (get_inclusion_proof aggregator state_id w))"

definition mint ::
  "sha2 \<Rightarrow> 'p k256 \<Rightarrow> ('w, 'e) AggregatorClient \<Rightarrow> RootTrustBase \<Rightarrow> NetworkId \<Rightarrow> EncodedPredicate \<Rightarrow> TokenType \<Rightarrow>
   TokenSalt \<Rightarrow> bytes option \<Rightarrow> bytes option \<Rightarrow> u64 option \<Rightarrow> 'w \<Rightarrow> ('w, 'e ClientError, Token) st option" where
  "mint sha2 ec aggregator trust_base network recipient token_type salt data justification expires_at w =
     (case rbind (map_err (Verification \<circ> VInvalidTrustBase) (validate trust_base)) (\<lambda>_.
             if network \<noteq> tb_network_id trust_base then Err (Verification NetworkMismatch)
             else
               rbind (map_err Build (MintTransaction_create sha2 ec network recipient token_type salt data
                 justification expires_at)) (\<lambda>transaction.
               rbind (map_err Build (Minter_signer sha2 ec (mt_token_id transaction))) (\<lambda>signer.
                 Ok (transaction, signer)))) of
        Inl e \<Rightarrow> Some (Err e, w)
      | Inr (transaction, signer) \<Rightarrow>
          map_option (\<lambda>certification_data.
            sbind (certify sha2 aggregator (mint_view sha2 transaction) certification_data w) (\<lambda>proof w.
              let token = \<lparr>tk_genesis = \<lparr>cm_transaction = transaction, cm_inclusion_proof = proof\<rparr>, tk_transactions = []\<rparr>
              in (rbind (map_err Verification (Token_verify sha2 ec token trust_base)) (\<lambda>_. Ok token), w)))
            (certification_data_for sha2 (mint_view sha2 transaction) (signer_sign ec signer)))"

text \<open>The transaction a transfer certifies.\<close>

definition next_transfer ::
  "sha2 \<Rightarrow> Token \<Rightarrow> EncodedPredicate \<Rightarrow> bytes \<Rightarrow> bytes option \<Rightarrow> u64 option \<Rightarrow> TransferTransaction" where
  "next_transfer sha2 token recipient state_mask data expires_at =
     (case latest_state sha2 token of (source_state_hash, lock_script) \<Rightarrow>
        \<lparr>tr_source_state_hash = source_state_hash, tr_lock_script = lock_script, tr_recipient = recipient,
         tr_expires_at = expires_at, tr_state_mask = state_mask, tr_data = data\<rparr>)"

definition transfer ::
  "sha2 \<Rightarrow> 'p k256 \<Rightarrow> ('w, 'e) AggregatorClient \<Rightarrow> RootTrustBase \<Rightarrow> Token \<Rightarrow> EncodedPredicate \<Rightarrow> signer \<Rightarrow>
   bytes \<Rightarrow> bytes option \<Rightarrow> u64 option \<Rightarrow> 'w \<Rightarrow> ('w, 'e ClientError, Token) st option" where
  "transfer sha2 ec aggregator trust_base token recipient sign state_mask data expires_at w =
     (case Token_verify sha2 ec token trust_base of
        Inl e \<Rightarrow> Some (Err (Verification e), w)
      | Inr _ \<Rightarrow>
          let transaction = next_transfer sha2 token recipient state_mask data expires_at
          in map_option (\<lambda>certification_data.
               sbind (certify sha2 aggregator (transfer_view sha2 transaction) certification_data w) (\<lambda>proof w.
                 let next = \<lparr>tk_genesis = tk_genesis token,
                       tk_transactions = tk_transactions token @ [\<lparr>ct_transaction = transaction, ct_inclusion_proof = proof\<rparr>]\<rparr>
                 in (rbind (map_err Verification (Token_verify sha2 ec next trust_base)) (\<lambda>_. Ok next), w)))
               (certification_data_for sha2 (transfer_view sha2 transaction) sign))"

section \<open>What a flow returns\<close>

lemma certify_Ok_iff:
  "certify sha2 aggregator tx cd w = (Ok p, w2) \<longleftrightarrow>
     (\<exists>w1. submit_certification_request aggregator cd w = (Ok (), w1) \<and>
        get_inclusion_proof aggregator (StateId_derive sha2 (tx_lock_script tx) (tx_source_state_hash tx)) w1 = (Ok p, w2))"
  by (cases "submit_certification_request aggregator cd w";
      cases "get_inclusion_proof aggregator (StateId_derive sha2 (tx_lock_script tx) (tx_source_state_hash tx))
        (snd (submit_certification_request aggregator cd w))")
    (auto simp: certify_def Let_def map_err_Inr_iff split: sum.splits)

lemma mint_returns:
  assumes "mint sha2 ec aggregator tb network recipient token_type salt data justification expires_at w = Some (Ok token, w')"
  obtains m p where "MintTransaction_create sha2 ec network recipient token_type salt data justification expires_at = Ok m"
    "token = \<lparr>tk_genesis = \<lparr>cm_transaction = m, cm_inclusion_proof = p\<rparr>, tk_transactions = []\<rparr>"
    "network = tb_network_id tb" "Token_verify sha2 ec token tb = Ok ()"
proof -
  from assms obtain m signer cd where m: "MintTransaction_create sha2 ec network recipient token_type salt data justification expires_at = Ok m"
    "network = tb_network_id tb" and r: "sbind (certify sha2 aggregator (mint_view sha2 m) cd w) (\<lambda>p w.
        let token = \<lparr>tk_genesis = \<lparr>cm_transaction = m, cm_inclusion_proof = p\<rparr>, tk_transactions = []\<rparr>
        in (rbind (map_err Verification (Token_verify sha2 ec token tb)) (\<lambda>_. Ok token), w)) = (Ok token, w')"
    by (auto simp: mint_def result_simps split: sum.splits if_splits prod.splits)
  obtain a w1 where a: "certify sha2 aggregator (mint_view sha2 m) cd w = (a, w1)" by fastforce
  then obtain p where "a = Ok p" using r by (cases a) auto
  then show ?thesis using that m r a by (auto simp: Let_def result_simps)
qed

lemma transfer_returns:
  assumes "transfer sha2 ec aggregator tb token recipient sign state_mask data expires_at w = Some (Ok token', w')"
  obtains p where "Token_verify sha2 ec token tb = Ok ()" "Token_verify sha2 ec token' tb = Ok ()"
    "token' = \<lparr>tk_genesis = tk_genesis token, tk_transactions = tk_transactions token @
       [\<lparr>ct_transaction = next_transfer sha2 token recipient state_mask data expires_at, ct_inclusion_proof = p\<rparr>]\<rparr>"
proof -
  let ?t = "next_transfer sha2 token recipient state_mask data expires_at"
  from assms obtain cd where v: "Token_verify sha2 ec token tb = Ok ()"
    and r: "sbind (certify sha2 aggregator (transfer_view sha2 ?t) cd w) (\<lambda>p w.
        let next = \<lparr>tk_genesis = tk_genesis token,
              tk_transactions = tk_transactions token @ [\<lparr>ct_transaction = ?t, ct_inclusion_proof = p\<rparr>]\<rparr>
        in (rbind (map_err Verification (Token_verify sha2 ec next tb)) (\<lambda>_. Ok next), w)) = (Ok token', w')"
    by (auto simp: transfer_def Let_def split: sum.splits)
  obtain a w1 where a: "certify sha2 aggregator (transfer_view sha2 ?t) cd w = (a, w1)" by fastforce
  then obtain p where "a = Ok p" using r by (cases a) auto
  then show ?thesis using that v r a by (auto simp: Let_def result_simps)
qed

section \<open>Verified tokens\<close>

text \<open>What \<open>Token::verify\<close> accepts, for the empty registry and the default policy.\<close>

lemma Token_verify_iff:
  assumes "inj_on (seal_key sha2) (token_seals token)"
  shows "Token_verify sha2 ec token tb = Ok () \<longleftrightarrow> validate tb = Ok () \<and>
    length (tk_transactions token) \<le> vl_max_token_transfers VerificationLimits_DEFAULT \<and>
    bare_ok VerificationPolicy_default (tk_genesis token) \<and> history_ok sha2 ec tb token"
  unfolding Token_verify_def verify_token_def verify_token_with_def verify_token_with_policy_def
    verify_token_with_seal_stats_def verify_token_with_memo_capacity_bare [OF assms]
  by (auto simp: result_simps token_check_iff VerificationPolicy_default_def)

text \<open>An answer that certifies the data: the proof carries it and its membership checks.\<close>

definition certifies :: "sha2 \<Rightarrow> 'p k256 \<Rightarrow> RootTrustBase \<Rightarrow> CertificationData \<Rightarrow> InclusionProof \<Rightarrow> bool" where
  "certifies sha2 ec tb cd p \<longleftrightarrow> ip_certification_data p = cd \<and>
     membership_check sha2 ec tb p (StateId_derive sha2 (cd_lock_script cd) (cd_source_state_hash cd)) (ip_reference_time p) = Ok ()"

text \<open>A signer for a key: it signs every 32-byte digest, and its signatures verify.\<close>

definition signs_for :: "'p k256 \<Rightarrow> signer \<Rightarrow> PublicKey \<Rightarrow> bool" where
  "signs_for ec sign key \<longleftrightarrow> (\<forall>m. length (dh_data m) = 32 \<longrightarrow>
     (\<exists>sig. sign m = Some sig \<and> Signature_decode (Signature_encode sig) = Ok sig \<and> sig_verify ec sig (dh_data m) key))"

lemma signed_data:
  assumes "sha2_lengths sha2" "signs_for ec sign key"
    and "SignaturePredicate_from_encoded ec (tx_lock_script tx) = Ok \<lparr>sp_public_key = key\<rparr>"
  obtains cd where "certification_data_for sha2 tx sign = Some cd"
    "cd = CertificationData_from_transaction sha2 tx (cd_unlock_script cd)" "unlocked sha2 ec tx (cd_unlock_script cd)"
proof -
  let ?m = "signature_unlock_message sha2 (tx_source_state_hash tx) (calculate_transaction_hash sha2 tx)"
  have "length (dh_data ?m) = 32"
    using sha256_wf_sha256 [OF assms(1)] by (simp add: signature_unlock_message_def sha256_wf_def)
  then obtain sig where s: "sign ?m = Some sig" "Signature_decode (Signature_encode sig) = Ok sig"
    "sig_verify ec sig (dh_data ?m) key" using assms(2) unfolding signs_for_def by blast
  then have "unlocked sha2 ec tx (Signature_encode sig)" unfolding unlocked_def using assms(3) by blast
  then show ?thesis
    using that [of "CertificationData_from_transaction sha2 tx (Signature_encode sig)"] s(1)
    by (simp add: certification_data_for_def CertificationData_from_transaction_def)
qed

lemma certified_proof_valid:
  assumes "certifies sha2 ec tb cd p" "cd = CertificationData_from_transaction sha2 tx (cd_unlock_script cd)"
    and "unlocked sha2 ec tx (cd_unlock_script cd)"
  shows "proof_valid sha2 ec tb tx p"
proof -
  have cd: "cd_lock_script cd = tx_lock_script tx" "cd_source_state_hash cd = tx_source_state_hash tx"
    "cd_expires_at cd = tx_expires_at tx" "cd_transaction_hash cd = calculate_transaction_hash sha2 tx"
    by (subst assms(2), simp add: CertificationData_from_transaction_def)+
  have p: "ip_certification_data p = cd" using assms(1) by (simp add: certifies_def)
  have "verify_predicate sha2 ec (cd_lock_script cd) (ip_reference_time p) (cd_source_state_hash cd)
      (cd_transaction_hash cd) (cd_unlock_script cd) = Ok ()"
    using assms(3) unfolding verify_predicate_iff cd unlocked_def by blast
  then have "transaction_check sha2 ec tb p tx (ip_reference_time p) = Ok ()"
    using assms(1) cd unfolding transaction_check_def inclusion_check_def Let_def p certifies_def by simp
  then show ?thesis by (simp add: transaction_check_iff)
qed

section \<open>The flows complete\<close>

text \<open>An aggregator that accepts the request and answers with a proof that certifies it; the memo key of the
  seal of the answer is that of no other seal in \<open>Q\<close>.\<close>

definition serves ::
  "sha2 \<Rightarrow> 'p k256 \<Rightarrow> RootTrustBase \<Rightarrow> UnicitySeal set \<Rightarrow> ('w, 'e) AggregatorClient \<Rightarrow> 'w \<Rightarrow> CertificationData \<Rightarrow> bool" where
  "serves sha2 ec tb Q aggregator w cd \<longleftrightarrow>
     (\<exists>w1 w2 p. submit_certification_request aggregator cd w = (Ok (), w1) \<and>
        get_inclusion_proof aggregator (StateId_derive sha2 (cd_lock_script cd) (cd_source_state_hash cd)) w1 = (Ok p, w2) \<and>
        certifies sha2 ec tb cd p \<and> inj_on (seal_key sha2) (insert (uc_unicity_seal (ip_unicity_certificate p)) Q))"

lemma served:
  assumes "sha2_lengths sha2" "signs_for ec sign key"
    and "SignaturePredicate_from_encoded ec (tx_lock_script tx) = Ok \<lparr>sp_public_key = key\<rparr>"
    and "\<And>cd. certification_data_for sha2 tx sign = Some cd \<Longrightarrow> serves sha2 ec tb Q aggregator w cd"
  obtains cd p w2 where "certification_data_for sha2 tx sign = Some cd" "certify sha2 aggregator tx cd w = (Ok p, w2)"
    "proof_valid sha2 ec tb tx p" "inj_on (seal_key sha2) (insert (uc_unicity_seal (ip_unicity_certificate p)) Q)"
    "ip_certification_data p = cd"
proof -
  obtain cd where cd: "certification_data_for sha2 tx sign = Some cd"
    "cd = CertificationData_from_transaction sha2 tx (cd_unlock_script cd)" "unlocked sha2 ec tx (cd_unlock_script cd)"
    by (rule signed_data [OF assms(1-3)])
  have eq: "cd_lock_script cd = tx_lock_script tx" "cd_source_state_hash cd = tx_source_state_hash tx"
    by (subst cd(2), simp add: CertificationData_from_transaction_def)+
  from assms(4) [OF cd(1)] obtain w1 w2 p where a: "submit_certification_request aggregator cd w = (Ok (), w1)"
    "get_inclusion_proof aggregator (StateId_derive sha2 (tx_lock_script tx) (tx_source_state_hash tx)) w1 = (Ok p, w2)"
    "certifies sha2 ec tb cd p" "inj_on (seal_key sha2) (insert (uc_unicity_seal (ip_unicity_certificate p)) Q)"
    unfolding serves_def eq by blast
  then have "certify sha2 aggregator tx cd w = (Ok p, w2)" unfolding certify_Ok_iff by blast
  moreover have "proof_valid sha2 ec tb tx p" by (rule certified_proof_valid [OF a(3) cd(2,3)])
  ultimately show ?thesis using that cd(1) a(3,4) by (auto simp: certifies_def)
qed

lemma transfer_served:
  fixes sha2 :: sha2 and token :: Token and recipient :: EncodedPredicate
    and state_mask :: bytes and data :: "bytes option" and expires_at :: "u64 option"
  defines "t \<equiv> next_transfer sha2 token recipient state_mask data expires_at"
  assumes "sha2_lengths sha2" "Token_verify sha2 ec token tb = Ok ()"
    and "length (tk_transactions token) < vl_max_token_transfers VerificationLimits_DEFAULT"
    and "SignaturePredicate_from_encoded ec (snd (latest_state sha2 token)) = Ok \<lparr>sp_public_key = key\<rparr>" "signs_for ec sign key"
    and "\<And>cd. certification_data_for sha2 (transfer_view sha2 t) sign = Some cd \<Longrightarrow>
      serves sha2 ec tb (token_seals token) aggregator w cd"
  shows "\<exists>token' w'. transfer sha2 ec aggregator tb token recipient sign state_mask data expires_at w = Some (Ok token', w')"
proof -
  have "tx_lock_script (transfer_view sha2 t) = snd (latest_state sha2 token)"
    by (simp add: t_def transfer_view_def next_transfer_def split: prod.split)
  then have lock: "SignaturePredicate_from_encoded ec (tx_lock_script (transfer_view sha2 t)) = Ok \<lparr>sp_public_key = key\<rparr>"
    using assms(5) by simp
  obtain cd p w2 where c: "certification_data_for sha2 (transfer_view sha2 t) sign = Some cd"
    "certify sha2 aggregator (transfer_view sha2 t) cd w = (Ok p, w2)" "proof_valid sha2 ec tb (transfer_view sha2 t) p"
    "inj_on (seal_key sha2) (insert (uc_unicity_seal (ip_unicity_certificate p)) (token_seals token))"
    by (rule served [OF assms(2,6) lock assms(7)])
  let ?next = "\<lparr>tk_genesis = tk_genesis token,
    tk_transactions = tk_transactions token @ [\<lparr>ct_transaction = t, ct_inclusion_proof = p\<rparr>]\<rparr>"
  have seals: "token_seals ?next = insert (uc_unicity_seal (ip_unicity_certificate p)) (token_seals token)"
    by (auto simp: token_seals_def token_proofs_def)
  have inj: "inj_on (seal_key sha2) (token_seals token)" using c(4) by (rule inj_on_subset) auto
  have "Token_verify sha2 ec ?next tb = Ok ()"
    using assms(3,4) c(3,4) unfolding Token_verify_iff [OF inj] Token_verify_iff [OF c(4) [folded seals]]
    by (auto simp: history_ok_def)
  then show ?thesis using assms(3) c(1,2) by (simp add: transfer_def Let_def flip: t_def)
qed

lemma created_lock:
  assumes "MintTransaction_create sha2 ec network recipient token_type salt data justification expires_at = Ok m"
  obtains key where "Minter_public_key sha2 ec (mt_token_id m) = Ok key"
    "mt_lock_script m = SignaturePredicate_to_encoded \<lparr>sp_public_key = key\<rparr>"
    "SignaturePredicate_from_encoded ec (mt_lock_script m) = Ok \<lparr>sp_public_key = key\<rparr>"
    "mt_network_id m = network" "mt_data m = data" "mt_justification m = justification"
proof -
  from assms obtain key where k: "Minter_public_key sha2 ec (mt_token_id m) = Ok key"
    "mt_lock_script m = SignaturePredicate_to_encoded \<lparr>sp_public_key = key\<rparr>"
    "mt_network_id m = network" "mt_data m = data" "mt_justification m = justification"
    by (auto simp: MintTransaction_create_def Let_def result_simps)
  then have "PublicKey_from_bytes ec (pk_bytes key) = Ok key"
    by (auto simp: Minter_public_key_def Let_def result_simps PublicKey_from_bytes_def split: if_splits)
  then show ?thesis using that k signature_predicate_read by metis
qed

lemma certification_data_lock:
  "certification_data_for sha2 tx sign = Some cd \<Longrightarrow> cd_lock_script cd = tx_lock_script tx"
  by (auto simp: certification_data_for_def CertificationData_from_transaction_def Let_def)

lemma mint_served:
  assumes "sha2_lengths sha2" "validate tb = Ok ()"
    and m: "MintTransaction_create sha2 ec (tb_network_id tb) recipient token_type salt data None expires_at = Ok m"
    and signer: "Minter_signer sha2 ec (mt_token_id m) = Ok signer"
    and signs: "\<And>key. Minter_public_key sha2 ec (mt_token_id m) = Ok key \<Longrightarrow> signs_for ec (signer_sign ec signer) key"
    and data: "\<And>d. data = Some d \<Longrightarrow> length d \<le> max_input_bytes DEFAULT_limits"
    and "\<And>cd. certification_data_for sha2 (mint_view sha2 m) (signer_sign ec signer) = Some cd \<Longrightarrow>
      serves sha2 ec tb {} aggregator w cd"
  shows "\<exists>token w'. mint sha2 ec aggregator tb (tb_network_id tb) recipient token_type salt data None expires_at w =
    Some (Ok token, w')"
proof -
  obtain key where key: "Minter_public_key sha2 ec (mt_token_id m) = Ok key"
    "mt_lock_script m = SignaturePredicate_to_encoded \<lparr>sp_public_key = key\<rparr>"
    "SignaturePredicate_from_encoded ec (mt_lock_script m) = Ok \<lparr>sp_public_key = key\<rparr>"
    "mt_network_id m = tb_network_id tb" "mt_data m = data" "mt_justification m = None"
    by (rule created_lock [OF m])
  have lock: "SignaturePredicate_from_encoded ec (tx_lock_script (mint_view sha2 m)) = Ok \<lparr>sp_public_key = key\<rparr>"
    using key(3) by (simp add: mint_view_def)
  obtain cd p w2 where c: "certification_data_for sha2 (mint_view sha2 m) (signer_sign ec signer) = Some cd"
    "certify sha2 aggregator (mint_view sha2 m) cd w = (Ok p, w2)" "proof_valid sha2 ec tb (mint_view sha2 m) p"
    "ip_certification_data p = cd"
    by (rule served [OF assms(1) signs [OF key(1)] lock assms(7)])
  let ?token = "\<lparr>tk_genesis = \<lparr>cm_transaction = m, cm_inclusion_proof = p\<rparr>, tk_transactions = []\<rparr>"
  have inj: "inj_on (seal_key sha2) (token_seals ?token)" by (simp add: token_seals_def token_proofs_def)
  have "cd_lock_script (ip_certification_data p) = mt_lock_script m"
    using certification_data_lock [OF c(1)] c(4) by (simp add: mint_view_def)
  then have "history_ok sha2 ec tb ?token" using c(3) key(1,2,4) by (auto simp: history_ok_def minted_def)
  moreover have "bare_ok VerificationPolicy_default (tk_genesis ?token)"
    using key(5,6) data by (auto simp: bare_ok_def VerificationPolicy_default_def VerificationLimits_DEFAULT_def)
  ultimately have "Token_verify sha2 ec ?token tb = Ok ()" using assms(2) unfolding Token_verify_iff [OF inj] by simp
  then show ?thesis using m signer c(1,2) assms(2) by (simp add: mint_def Let_def)
qed

text \<open>A mint with a justification never returns a token: the flow verifies with the empty registry.\<close>

lemma justified_mint_fails:
  "mint sha2 ec aggregator tb network recipient token_type salt data (Some j) expires_at w \<noteq> Some (Ok token, w')"
proof
  assume "mint sha2 ec aggregator tb network recipient token_type salt data (Some j) expires_at w = Some (Ok token, w')"
  then obtain m p where m: "MintTransaction_create sha2 ec network recipient token_type salt data (Some j) expires_at = Ok m"
    "token = \<lparr>tk_genesis = \<lparr>cm_transaction = m, cm_inclusion_proof = p\<rparr>, tk_transactions = []\<rparr>"
    "Token_verify sha2 ec token tb = Ok ()" by (rule mint_returns)
  have "inj_on (seal_key sha2) (token_seals token)" using m(2) by (simp add: token_seals_def token_proofs_def)
  from m(3) [unfolded Token_verify_iff [OF this]] have "mt_justification m = None" using m(2) by (simp add: bare_ok_def)
  moreover have "mt_justification m = Some j" using m(1) by (auto simp: MintTransaction_create_def Let_def result_simps)
  ultimately show False by simp
qed

end
