(* ===== verification/Batch.thy ===== *)
theory Batch
  imports Plan Client
begin

text \<open>
  The batch capability of \<open>client/batch.rs\<close>: requests for the proofs of several states from one view of an
  aggregator, their typed failures, and the one negotiation the client makes about waiting. As in \<open>Client\<close> an
  implementation of the trait and the clock are parameters over a world \<open>'w\<close>.
\<close>

section \<open>Requests and answers\<close>

type_synonym i64 = int

definition MAX_BATCH_STATE_IDS :: usize where "MAX_BATCH_STATE_IDS = 256"
definition MAX_WAIT_MS :: u64 where "MAX_WAIT_MS = 9007199254740991"
definition DEFAULT_WAIT_MARGIN_MS :: u64 where "DEFAULT_WAIT_MARGIN_MS = 2000"

definition INVALID_REQUEST :: i64 where "INVALID_REQUEST = -32600"
definition METHOD_NOT_FOUND :: i64 where "METHOD_NOT_FOUND = -32601"
definition INVALID_PARAMS :: i64 where "INVALID_PARAMS = -32602"
definition DATABASE_ERROR :: i64 where "DATABASE_ERROR = -32004"
definition CONCURRENCY_LIMIT :: i64 where "CONCURRENCY_LIMIT = -32006"
definition LIMIT_EXCEEDED :: i64 where "LIMIT_EXCEEDED = -32007"
definition PROOF_UNAVAILABLE :: i64 where "PROOF_UNAVAILABLE = -32008"

lemmas rpc_codes = INVALID_REQUEST_def METHOD_NOT_FOUND_def INVALID_PARAMS_def DATABASE_ERROR_def
  CONCURRENCY_LIMIT_def LIMIT_EXCEEDED_def PROOF_UNAVAILABLE_def

definition STATE_PENDING :: string where "STATE_PENDING = ''state_pending''"
definition STATE_EXPIRED :: string where "STATE_EXPIRED = ''state_expired''"
definition STATE_UNKNOWN :: string where "STATE_UNKNOWN = ''state_unknown''"
definition STATE_NOT_IN_ROOT :: string where "STATE_NOT_IN_ROOT = ''state_not_in_root''"

datatype StateRoot = Latest | Exact bytes

record BatchRequest =
  br_state_ids :: "StateId list"
  br_state_root :: StateRoot

record RequestOptions =
  ro_timeout_ms :: u64

record BatchProof =
  bx_block_number :: u64
  bx_proof :: InclusionProof

record InclusionProofBatch =
  ib_proofs :: "BatchProof list"
  ib_partition_view :: "PartitionView option"

record WaitRequest =
  wq_wait_ms :: u64
  wq_margin_ms :: u64

definition WaitRequest_new :: "u64 \<Rightarrow> WaitRequest" where
  "WaitRequest_new wait_ms = \<lparr>wq_wait_ms = wait_ms, wq_margin_ms = DEFAULT_WAIT_MARGIN_MS\<rparr>"

definition with_margin_ms :: "WaitRequest \<Rightarrow> u64 \<Rightarrow> WaitRequest" where
  "with_margin_ms w margin_ms = w\<lparr>wq_margin_ms := margin_ms\<rparr>"

record WaitedBatch =
  wb_batch :: InclusionProofBatch
  wb_waited_ms :: "u64 option"
  wb_sent_wait_ms :: "u64 option"

definition WaitedBatch_new :: "InclusionProofBatch \<Rightarrow> u64 option \<Rightarrow> u64 option \<Rightarrow> WaitedBatch" where
  "WaitedBatch_new batch waited_ms sent_wait_ms =
     \<lparr>wb_batch = batch, wb_waited_ms = waited_ms, wb_sent_wait_ms = sent_wait_ms\<rparr>"

text \<open>The fields of \<open>Rpc\<close> are the code, the message, the reason, the detail, the retryable flag and the indexes
  per class (the entries of the map in key order).\<close>

datatype BatchFailure =
    RpcFailure i64 string "string option" "string option" "bool option" "(string \<times> nat list) list"
  | TransportFailure string
  | HttpFailure u16
  | DecodeFailure string
  | TooLargeFailure usize
  | TimeoutFailure
  | CancelledFailure

record WaitedFailure =
  wf_failure :: BatchFailure
  wf_waited_ms :: "u64 option"
  wf_sent_wait_ms :: "u64 option"

definition WaitedFailure_new :: "BatchFailure \<Rightarrow> u64 option \<Rightarrow> u64 option \<Rightarrow> WaitedFailure" where
  "WaitedFailure_new failure waited_ms sent_wait_ms =
     \<lparr>wf_failure = failure, wf_waited_ms = waited_ms, wf_sent_wait_ms = sent_wait_ms\<rparr>"

definition WaitedFailure_from :: "BatchFailure \<Rightarrow> WaitedFailure" where
  "WaitedFailure_from failure = WaitedFailure_new failure None None"

record 'w BatchAggregatorClient =
  get_inclusion_proofs :: "BatchRequest \<Rightarrow> RequestOptions \<Rightarrow> 'w \<Rightarrow> ('w, BatchFailure, InclusionProofBatch) st"
  get_inclusion_proofs_with_wait ::
    "BatchRequest \<Rightarrow> RequestOptions \<Rightarrow> WaitRequest \<Rightarrow> 'w \<Rightarrow> ('w, WaitedFailure, WaitedBatch) st"

text \<open>The plain call in the shape of a call with a wait; it is also the default method of the trait.\<close>

definition plain_call ::
  "(BatchRequest \<Rightarrow> RequestOptions \<Rightarrow> 'w \<Rightarrow> ('w, BatchFailure, InclusionProofBatch) st) \<Rightarrow> BatchRequest \<Rightarrow> RequestOptions \<Rightarrow>
   'w \<Rightarrow> ('w, WaitedFailure, WaitedBatch) st" where
  "plain_call get request options w =
     (case get request options w of
        (Inl failure, w) \<Rightarrow> (Err (WaitedFailure_from failure), w)
      | (Inr batch, w) \<Rightarrow> (Ok (WaitedBatch_new batch None None), w))"

definition default_with_wait ::
  "(BatchRequest \<Rightarrow> RequestOptions \<Rightarrow> 'w \<Rightarrow> ('w, BatchFailure, InclusionProofBatch) st) \<Rightarrow> BatchRequest \<Rightarrow> RequestOptions \<Rightarrow>
   WaitRequest \<Rightarrow> 'w \<Rightarrow> ('w, WaitedFailure, WaitedBatch) st" where
  "default_with_wait get request options wait w = plain_call get request options w"

section \<open>Waits\<close>

text \<open>The saturating operations of the standard library.\<close>

definition saturating_sub :: "u64 \<Rightarrow> u64 \<Rightarrow> u64" where
  "saturating_sub a b = (if b \<le> a then a - b else 0)"

definition saturating_add :: "u64 \<Rightarrow> u64 \<Rightarrow> u64" where
  "saturating_add a b = (if unat a + unat b < 2 ^ 64 then a + b else -1)"

definition wait_on_wire :: "u64 \<Rightarrow> u64 \<Rightarrow> u64 \<Rightarrow> u64 option" where
  "wait_on_wire wait_ms timeout_ms margin_ms =
     (if wait_ms = 0 then Some 0
      else
        let sent = min (min wait_ms MAX_WAIT_MS) (saturating_sub timeout_ms margin_ms)
        in if sent > 0 then Some sent else None)"

definition is_malformed_params :: "BatchFailure \<Rightarrow> bool" where
  "is_malformed_params failure =
     (case failure of
        RpcFailure code _ reason detail _ _ \<Rightarrow>
          code = INVALID_PARAMS \<and> reason = Some ''invalid_request'' \<and> detail = Some ''malformed_params''
      | _ \<Rightarrow> False)"

section \<open>The negotiation\<close>

record NegotiatedBatch =
  nb_result :: "WaitedFailure + WaitedBatch"
  nb_requests :: u32
  nb_retried_without_wait :: bool

definition get_latest_negotiating_wait ::
  "'w BatchAggregatorClient \<Rightarrow> StateId list \<Rightarrow> RequestOptions \<Rightarrow> WaitRequest \<Rightarrow> ('w \<Rightarrow> u64 \<times> 'w) \<Rightarrow> 'w \<Rightarrow>
   NegotiatedBatch \<times> 'w" where
  "get_latest_negotiating_wait client state_ids options wait now_ms w =
     (let request = \<lparr>br_state_ids = state_ids, br_state_root = Latest\<rparr>;
          (started, w) = now_ms w;
          (first, w) = get_inclusion_proofs_with_wait client request options wait w;
          sent_wait = (case first of Inr ok \<Rightarrow> wb_sent_wait_ms ok \<noteq> None | Inl e \<Rightarrow> wf_sent_wait_ms e \<noteq> None);
          rejected = (sent_wait \<and> (case first of
            Inl e \<Rightarrow> is_malformed_params (wf_failure e) \<and> wf_waited_ms e = None | Inr _ \<Rightarrow> False))
      in if \<not> rejected then (\<lparr>nb_result = first, nb_requests = 1, nb_retried_without_wait = False\<rparr>, w)
         else
           let (now, w) = now_ms w;
               left = saturating_sub (ro_timeout_ms options) (saturating_sub now started)
           in if left = 0 then (\<lparr>nb_result = first, nb_requests = 1, nb_retried_without_wait = False\<rparr>, w)
              else
                let (second, w) = plain_call (get_inclusion_proofs client) request \<lparr>ro_timeout_ms = left\<rparr> w
                in (\<lparr>nb_result = second, nb_requests = 2, nb_retried_without_wait = True\<rparr>, w))"

section \<open>Bounds\<close>

lemma saturating_sub_le: "saturating_sub a b \<le> a"
  by (simp add: saturating_sub_def word_sub_le)

lemma unat_saturating_sub [simp]: "unat (saturating_sub a b) = unat a - unat b"
  by (simp add: saturating_sub_def unat_sub word_le_nat_alt)

lemma unat_saturating_add [simp]: "unat (saturating_add a b) = min (unat a + unat b) (2 ^ 64 - 1)"
proof (cases "unat a + unat b < 2 ^ 64")
  case True
  then show ?thesis by (simp add: saturating_add_def unat_word_ariths)
next
  case False
  then show ?thesis by (simp add: saturating_add_def unsigned_minus_1_eq_mask mask_eq_exp_minus_1)
qed

lemma wait_on_wire_bounds:
  assumes "wait_on_wire wait_ms timeout_ms margin_ms = Some sent"
  shows "sent \<le> wait_ms" "sent = 0 \<longleftrightarrow> wait_ms = 0" "sent \<le> MAX_WAIT_MS"
    "0 < sent \<Longrightarrow> unat sent + unat margin_ms \<le> unat timeout_ms"
proof -
  show "sent \<le> wait_ms" "sent = 0 \<longleftrightarrow> wait_ms = 0" "sent \<le> MAX_WAIT_MS"
    using assms by (auto simp: wait_on_wire_def Let_def MAX_WAIT_MS_def min_def word_gt_0 split: if_splits)
  assume pos: "0 < sent"
  then have "sent \<le> saturating_sub timeout_ms margin_ms"
    using assms by (auto simp: wait_on_wire_def Let_def split: if_splits)
  then have "unat sent \<le> unat timeout_ms - unat margin_ms" by (simp add: word_le_nat_alt)
  moreover have "0 < unat sent" using pos by (simp add: word_less_nat_alt)
  ultimately show "unat sent + unat margin_ms \<le> unat timeout_ms" by simp
qed

text \<open>What one negotiation does: a request with the wait and, only when a request that carried one is
  rejected by a strict parser that did not echo it, one plain request within what is left of the timeout.\<close>

lemma negotiation:
  fixes client :: "'w BatchAggregatorClient"
  assumes "get_latest_negotiating_wait client ids options wait now_ms w = (n, w')"
  defines "request \<equiv> \<lparr>br_state_ids = ids, br_state_root = Latest\<rparr>"
  obtains started w1 first w2 where "now_ms w = (started, w1)"
    "get_inclusion_proofs_with_wait client request options wait w1 = (first, w2)"
    "\<not> nb_retried_without_wait n \<Longrightarrow> nb_result n = first \<and> nb_requests n = 1 \<and> (w' = w2 \<or> w' = snd (now_ms w2))"
    "nb_retried_without_wait n \<Longrightarrow> nb_requests n = 2 \<and> (\<exists>e now w3 left.
       first = Err e \<and> is_malformed_params (wf_failure e) \<and> wf_waited_ms e = None \<and> wf_sent_wait_ms e \<noteq> None \<and>
       now_ms w2 = (now, w3) \<and> 0 < left \<and> unat left = unat (ro_timeout_ms options) - (unat now - unat started) \<and>
       (nb_result n, w') = plain_call (get_inclusion_proofs client) request \<lparr>ro_timeout_ms = left\<rparr> w3)"
proof -
  obtain started w1 where a: "now_ms w = (started, w1)" by fastforce
  obtain first w2 where f: "get_inclusion_proofs_with_wait client request options wait w1 = (first, w2)" by fastforce
  obtain now w3 where c: "now_ms w2 = (now, w3)" by fastforce
  let ?left = "saturating_sub (ro_timeout_ms options) (saturating_sub now started)"
  obtain second w4 where d: "plain_call (get_inclusion_proofs client) request \<lparr>ro_timeout_ms = ?left\<rparr> w3 = (second, w4)" by fastforce
  note eqs = assms(1) [unfolded get_latest_negotiating_wait_def Let_def, folded request_def] a f c d
  show ?thesis
  proof (rule that [OF a f])
    show "nb_result n = first \<and> nb_requests n = 1 \<and> (w' = w2 \<or> w' = snd (now_ms w2))" if "\<not> nb_retried_without_wait n"
      using that eqs by (auto split: if_splits)
    assume "nb_retried_without_wait n"
    moreover from this have "nb_requests n = 2" "(nb_result n, w') = (second, w4)" "?left \<noteq> 0"
      using eqs by (auto split: if_splits)
    moreover from calculation(1) obtain e where "first = Err e" "is_malformed_params (wf_failure e)"
      "wf_waited_ms e = None" "wf_sent_wait_ms e \<noteq> None" using eqs by (auto split: if_splits sum.splits)
    ultimately show "nb_requests n = 2 \<and> (\<exists>e now w3 left.
       first = Err e \<and> is_malformed_params (wf_failure e) \<and> wf_waited_ms e = None \<and> wf_sent_wait_ms e \<noteq> None \<and>
       now_ms w2 = (now, w3) \<and> 0 < left \<and> unat left = unat (ro_timeout_ms options) - (unat now - unat started) \<and>
       (nb_result n, w') = plain_call (get_inclusion_proofs client) request \<lparr>ro_timeout_ms = left\<rparr> w3)"
      using c d by (intro conjI exI [of _ e] exI [of _ now] exI [of _ w3] exI [of _ ?left])
        (simp_all add: word_gt_0 del: unat_0_iff)
  qed
qed

text \<open>When the plain request is made, and that the requests reported are the calls made: a client and a clock
  over a world that counts the calls.\<close>

definition counted_client :: "'w BatchAggregatorClient \<Rightarrow> ('w \<times> nat) BatchAggregatorClient" where
  "counted_client client =
     \<lparr>get_inclusion_proofs = \<lambda>request options (w, k).
        (case get_inclusion_proofs client request options w of (r, w) \<Rightarrow> (r, (w, Suc k))),
      get_inclusion_proofs_with_wait = \<lambda>request options wait (w, k).
        (case get_inclusion_proofs_with_wait client request options wait w of (r, w) \<Rightarrow> (r, (w, Suc k)))\<rparr>"

definition counted_clock :: "('w \<Rightarrow> u64 \<times> 'w) \<Rightarrow> 'w \<times> nat \<Rightarrow> u64 \<times> 'w \<times> nat" where
  "counted_clock now_ms = (\<lambda>(w, k). case now_ms w of (t, w) \<Rightarrow> (t, (w, k)))"

lemma counted_negotiation:
  "get_latest_negotiating_wait (counted_client client) ids options wait (counted_clock now_ms) (w, k) =
   (case get_latest_negotiating_wait client ids options wait now_ms w of (n, w') \<Rightarrow> (n, (w', k + unat (nb_requests n))))"
  by (auto simp: get_latest_negotiating_wait_def counted_client_def counted_clock_def plain_call_def Let_def
      split: prod.split sum.split)

lemma negotiation_retried_iff:
  fixes client :: "'w BatchAggregatorClient"
  assumes "get_latest_negotiating_wait client ids options wait now_ms w = (n, w')" "now_ms w = (started, w1)"
    and "get_inclusion_proofs_with_wait client \<lparr>br_state_ids = ids, br_state_root = Latest\<rparr> options wait w1 = (first, w2)"
    and "now_ms w2 = (now, w3)"
  shows "nb_retried_without_wait n \<longleftrightarrow>
    (\<exists>e. first = Err e \<and> wf_sent_wait_ms e \<noteq> None \<and> is_malformed_params (wf_failure e) \<and> wf_waited_ms e = None) \<and>
    unat now - unat started < unat (ro_timeout_ms options)"
proof -
  have "saturating_sub (ro_timeout_ms options) (saturating_sub now started) = 0 \<longleftrightarrow>
      \<not> unat now - unat started < unat (ro_timeout_ms options)"
    unfolding unat_eq_zero [symmetric] by (simp add: not_less)
  then show ?thesis using assms
    by (auto simp: get_latest_negotiating_wait_def Let_def split: if_splits prod.splits sum.splits)
qed

end
