(* ===== verification/Retry_After.thy ===== *)
theory Retry_After
  imports Prelude
begin

text \<open>
  The \<open>Retry-After\<close> header of \<open>client/http.rs\<close>: delay seconds or one of the three HTTP dates, with the days
  since the epoch computed in closed form. The lemmas relate the closed form to counting days one by one.
  Header texts are ASCII, a duration is a number of nanoseconds and a system time one since the epoch.
\<close>

section \<open>Texts\<close>

type_synonym duration = nat

definition from_secs :: "nat \<Rightarrow> duration" where "from_secs s = s * 1000000000"
definition from_millis :: "nat \<Rightarrow> duration" where "from_millis ms = ms * 1000000"

definition is_ascii_digit :: "char \<Rightarrow> bool" where
  "is_ascii_digit c \<longleftrightarrow> 48 \<le> (of_char c :: nat) \<and> (of_char c :: nat) \<le> 57"

definition is_ascii_whitespace :: "char \<Rightarrow> bool" where
  "is_ascii_whitespace c \<longleftrightarrow> c \<in> {CHR '' '', CHR 0x09, CHR 0x0A, CHR 0x0C, CHR 0x0D}"

definition is_whitespace :: "char \<Rightarrow> bool" where
  "is_whitespace c \<longleftrightarrow> is_ascii_whitespace c \<or> c = CHR 0x0B"

definition trim :: "string \<Rightarrow> string" where
  "trim s = rev (dropWhile is_whitespace (rev (dropWhile is_whitespace s)))"

fun split_on :: "(char \<Rightarrow> bool) \<Rightarrow> string \<Rightarrow> string list" where
  "split_on p [] = [[]]"
| "split_on p (c # s) =
     (if p c then [] # split_on p s
      else (case split_on p s of [] \<Rightarrow> [[c]] | t # ts \<Rightarrow> (c # t) # ts))"

definition digit_value :: "char \<Rightarrow> nat" where
  "digit_value c = of_char c - 48"

definition decimal :: "string \<Rightarrow> nat" where
  "decimal s = foldl (\<lambda>n c. 10 * n + digit_value c) 0 s"

definition to_ascii_lowercase :: "string \<Rightarrow> string" where
  "to_ascii_lowercase s = map (\<lambda>c. if 65 \<le> (of_char c :: nat) \<and> (of_char c :: nat) \<le> 90 then char_of (of_char c + 32 :: nat) else c) s"

definition eq_ignore_ascii_case :: "string \<Rightarrow> string \<Rightarrow> bool" where
  "eq_ignore_ascii_case s t \<longleftrightarrow> to_ascii_lowercase s = to_ascii_lowercase t"

definition i64_checked :: "int \<Rightarrow> int option" where
  "i64_checked x = (if - (2 ^ 63) \<le> x \<and> x < 2 ^ 63 then Some x else None)"

section \<open>Dates\<close>

definition MONTHS :: "string list" where
  "MONTHS = [''Jan'', ''Feb'', ''Mar'', ''Apr'', ''May'', ''Jun'', ''Jul'', ''Aug'', ''Sep'', ''Oct'', ''Nov'', ''Dec'']"

definition date_month :: "string \<Rightarrow> int option" where
  "date_month m = map_option (\<lambda>i. int i + 1) (List.find (\<lambda>i. eq_ignore_ascii_case (MONTHS ! i) m) [0..<12])"

definition date_num :: "string \<Rightarrow> nat \<Rightarrow> int option" where
  "date_num t digits = (if length t = digits \<and> list_all is_ascii_digit t then i64_checked (int (decimal t)) else None)"

text \<open>Day, month, year and clock of a tokenized date.\<close>

definition date_parts :: "string list \<Rightarrow> (int \<times> int \<times> int \<times> string) option" where
  "date_parts tokens =
     (case tokens of
        [_, d, m, y, t, g] \<Rightarrow>
          if g = ''GMT'' then
            Option.bind (date_num d 2) (\<lambda>d. Option.bind (date_month m) (\<lambda>m. Option.bind (date_num y 4) (\<lambda>y. Some (d, m, y, t))))
          else None
      | [_, dmy, t, g] \<Rightarrow>
          if g = ''GMT'' then
            (case split_on (\<lambda>c. c = CHR ''-'') dmy of
               [d, m, y] \<Rightarrow>
                 Option.bind (date_num y 2) (\<lambda>y. Option.bind (date_num d 2) (\<lambda>d. Option.bind (date_month m) (\<lambda>m.
                   Some (d, m, if y < 70 then 2000 + y else 1900 + y, t))))
             | _ \<Rightarrow> None)
          else None
      | [_, m, d, t, y] \<Rightarrow>
          Option.bind (date_num d (min (length d) 2)) (\<lambda>d. Option.bind (date_month m) (\<lambda>m. Option.bind (date_num y 4) (\<lambda>y.
            Some (d, m, y, t))))
      | _ \<Rightarrow> None)"

definition clock_parts :: "string \<Rightarrow> (int \<times> int \<times> int) option" where
  "clock_parts clock =
     (case split_on (\<lambda>c. c = CHR '':'') clock of
        [h, mi, sec] \<Rightarrow>
          Option.bind (date_num h 2) (\<lambda>h. Option.bind (date_num mi 2) (\<lambda>mi. Option.bind (date_num sec 2) (\<lambda>sec.
            if h > 23 \<or> mi > 59 \<or> sec > 60 then None else Some (h, mi, sec))))
      | _ \<Rightarrow> None)"

definition leap_year :: "int \<Rightarrow> bool" where
  "leap_year year \<longleftrightarrow> year mod 4 = 0 \<and> (year mod 100 \<noteq> 0 \<or> year mod 400 = 0)"

definition days_in_month :: "int \<Rightarrow> int \<Rightarrow> int" where
  "days_in_month year mon =
     (if mon = 2 then (if leap_year year then 29 else 28) else if mon \<in> {4, 6, 9, 11} then 30 else 31)"

definition days_from_civil :: "int \<Rightarrow> int \<Rightarrow> int \<Rightarrow> int option" where
  "days_from_civil year mon day =
     (let y = (if mon \<le> 2 then year - 1 else year);
          era = y div 400;
          yoe = y - era * 400;
          doy = (153 * (mon + (if mon > 2 then -3 else 9)) + 2) div 5 + day - 1;
          doe = yoe * 365 + yoe div 4 - yoe div 100 + doy
      in Option.bind (i64_checked (era * 146097)) (\<lambda>a. Option.bind (i64_checked (a + doe)) (\<lambda>b. i64_checked (b - 719468))))"

definition parse_http_date :: "string \<Rightarrow> nat option" where
  "parse_http_date text =
     (let tokens = filter (\<lambda>t. t \<noteq> []) (split_on (\<lambda>c. is_ascii_whitespace c \<or> c = CHR '','') text)
      in Option.bind (date_parts tokens) (\<lambda>(day, mon, year, clock).
         Option.bind (clock_parts clock) (\<lambda>(h, mi, sec).
           if \<not> (1970 \<le> year \<and> year \<le> 9999) then None
           else if \<not> (1 \<le> day \<and> day \<le> days_in_month year mon) then None
           else
             Option.bind (days_from_civil year mon day) (\<lambda>days.
             Option.bind (i64_checked (days * 86400)) (\<lambda>s.
             Option.bind (i64_checked (s + (h * 3600 + mi * 60 + sec))) (\<lambda>seconds.
               if seconds < 0 then None else Some (nat seconds)))))))"

definition MAX_RETRY_AFTER :: duration where "MAX_RETRY_AFTER = from_secs 60"

definition parse_retry_after_at :: "string option \<Rightarrow> nat \<Rightarrow> duration option" where
  "parse_retry_after_at v now =
     Option.bind (map_option trim v) (\<lambda>text.
       if text = [] then None
       else if list_all is_ascii_digit text then
         let seconds = (if decimal text < 2 ^ 64 then decimal text else 2 ^ 64 - 1)
         in Some (min (from_secs seconds) MAX_RETRY_AFTER)
       else
         Option.bind (parse_http_date text) (\<lambda>date. Some (min (from_secs date - now) MAX_RETRY_AFTER)))"

section \<open>Counting days\<close>

definition valid_date :: "int \<times> int \<times> int \<Rightarrow> bool" where
  "valid_date = (\<lambda>(year, mon, day). 1 \<le> mon \<and> mon \<le> 12 \<and> 1 \<le> day \<and> day \<le> days_in_month year mon)"

definition next_day :: "int \<times> int \<times> int \<Rightarrow> int \<times> int \<times> int" where
  "next_day = (\<lambda>(year, mon, day).
     if day < days_in_month year mon then (year, mon, day + 1)
     else if mon < 12 then (year, mon + 1, 1) else (year + 1, 1, 1))"

text \<open>The closed form, without the overflow checks and the eras.\<close>

definition civil_days :: "int \<times> int \<times> int \<Rightarrow> int" where
  "civil_days = (\<lambda>(year, mon, day).
     let y = (if mon \<le> 2 then year - 1 else year)
     in 365 * y + y div 4 - y div 100 + y div 400 + (153 * (mon + (if mon > 2 then -3 else 9)) + 2) div 5 + day - 719469)"

lemma era_days:
  fixes y :: int
  shows "(y div 400) * 146097 + ((y - y div 400 * 400) * 365 + (y - y div 400 * 400) div 4 - (y - y div 400 * 400) div 100) =
    365 * y + y div 4 - y div 100 + y div 400"
proof -
  have "(y + - (k * c) * m) div m = y div m + - (k * c)" if "m \<noteq> 0" for k c m :: int
    using div_mult_self1 [OF that, of y "- (k * c)"] by linarith
  from this [of 4 "y div 400" 100] this [of 100 "y div 400" 4]
  have "(y - y div 400 * 400) div 4 = y div 4 - y div 400 * 100" "(y - y div 400 * 400) div 100 = y div 100 - y div 400 * 4"
    by (simp_all add: algebra_simps)
  then show ?thesis by simp
qed

lemma div_pred:
  fixes y m :: int
  assumes "0 < m"
  shows "(y - 1) div m = y div m - (if y mod m = 0 then 1 else 0)"
proof -
  have y: "y = m * (y div m) + y mod m" by simp
  have r: "0 \<le> y mod m" "y mod m < m" using assms by simp_all
  show ?thesis
  proof (cases "y mod m = 0")
    case True
    have "y - 1 = m * (y div m - 1) + (m - 1)" using y True by (simp add: algebra_simps)
    then show ?thesis using int_div_pos_eq [of "y - 1" m "y div m - 1" "m - 1"] assms True by simp
  next
    case False
    have "y - 1 = m * (y div m) + (y mod m - 1)" using y by simp
    then show ?thesis using int_div_pos_eq [of "y - 1" m "y div m" "y mod m - 1"] r False by simp
  qed
qed

lemma months: "1 \<le> mon \<and> mon \<le> 12 \<longleftrightarrow> mon \<in> {1, 2, 3, 4, 5, 6, 7, 8, 9, 10, 11, 12 :: int}"
  by simp arith

lemma civil_days_next:
  assumes "valid_date d"
  shows "civil_days (next_day d) = civil_days d + 1"
proof -
  obtain year mon day where d: "d = (year, mon, day)" by (metis surj_pair)
  have valid: "1 \<le> mon \<and> mon \<le> 12" "1 \<le> day" "day \<le> days_in_month year mon" using assms by (auto simp: valid_date_def d)
  show ?thesis
  proof (cases "day < days_in_month year mon")
    case True
    then show ?thesis by (simp add: d next_day_def civil_days_def Let_def)
  next
    case False
    then have day: "day = days_in_month year mon" using valid(3) by simp
    have leap: "(year - 1) div 4 = year div 4 - (if year mod 4 = 0 then 1 else 0)"
      "(year - 1) div 100 = year div 100 - (if year mod 100 = 0 then 1 else 0)"
      "(year - 1) div 400 = year div 400 - (if year mod 400 = 0 then 1 else 0)"
      by (simp_all add: div_pred)
    have mods: "year mod 400 = 0 \<Longrightarrow> year mod 100 = 0" "year mod 100 = 0 \<Longrightarrow> year mod 4 = 0"
      using dvd_trans [of 100 400 year] dvd_trans [of 4 100 year] by (simp_all add: mod_eq_0_iff_dvd)
    show ?thesis
    proof (cases "mon = 2")
      case True
      then show ?thesis using mods
        by (auto simp: d day leap next_day_def civil_days_def days_in_month_def leap_year_def Let_def)
    next
      case False
      then show ?thesis using valid(1) unfolding months
        by (auto simp: d day next_day_def civil_days_def days_in_month_def Let_def)
    qed
  qed
qed

lemma next_day_valid: "valid_date d \<Longrightarrow> valid_date (next_day d)"
  by (auto simp: valid_date_def next_day_def days_in_month_def split: if_splits)

lemma counted_days:
  "valid_date ((next_day ^^ n) (1970, 1, 1)) \<and> civil_days ((next_day ^^ n) (1970, 1, 1)) = int n"
proof (induction n)
  case 0
  show ?case by (simp add: valid_date_def days_in_month_def civil_days_def)
next
  case (Suc n)
  then show ?case using next_day_valid civil_days_next by simp
qed

lemma date_reached:
  "valid_date (y, m, d) \<Longrightarrow> 1970 \<le> y \<Longrightarrow> \<exists>n. (next_day ^^ n) (1970, 1, 1) = (y, m, d)"
proof (induction "nat ((y - 1970) * 372 + (m - 1) * 31 + (d - 1))" arbitrary: y m d rule: less_induct)
  case less
  have valid: "1 \<le> m" "m \<le> 12" "1 \<le> d" "d \<le> days_in_month y m" "days_in_month y m \<le> 31"
    using less.prems(1) by (auto simp: valid_date_def days_in_month_def)
  have step: "\<exists>n. (next_day ^^ n) (1970, 1, 1) = (y, m, d)"
    if prev: "nat ((y' - 1970) * 372 + (m' - 1) * 31 + (d' - 1)) < nat ((y - 1970) * 372 + (m - 1) * 31 + (d - 1))"
      "valid_date (y', m', d')" "1970 \<le> y'" "next_day (y', m', d') = (y, m, d)" for y' m' d'
  proof -
    obtain n where "(next_day ^^ n) (1970, 1, 1) = (y', m', d')" using less.hyps [OF prev(1-3)] by blast
    then have "(next_day ^^ Suc n) (1970, 1, 1) = (y, m, d)" using prev(4) by simp
    then show ?thesis by blast
  qed
  have len: "1 \<le> days_in_month y' m'" "days_in_month y' m' \<le> 31" for y' m' by (auto simp: days_in_month_def)
  consider "1 < d" | "d = 1" "1 < m" | "d = 1" "m = 1" "1970 < y" | "d = 1" "m = 1" "y = 1970"
    using valid less.prems(2) by linarith
  then show ?case
  proof cases
    case 1
    then show ?thesis using valid less.prems(2) by (intro step [of y m "d - 1"]) (auto simp: valid_date_def next_day_def)
  next
    case 2
    then show ?thesis using valid less.prems(2) len [of y "m - 1"]
      by (intro step [of y "m - 1" "days_in_month y (m - 1)"]) (auto simp: valid_date_def next_day_def)
  next
    case 3
    then show ?thesis by (intro step [of "y - 1" 12 31]) (auto simp: valid_date_def next_day_def days_in_month_def)
  next
    case 4
    then show ?thesis by (intro exI [of _ 0]) simp
  qed
qed

lemma date_month_range: "date_month m = Some k \<Longrightarrow> 1 \<le> k \<and> k \<le> 12"
  by (auto simp: date_month_def find_Some_iff)

lemma date_parts_month: "date_parts tokens = Some (d, m, y, t) \<Longrightarrow> 1 \<le> m \<and> m \<le> 12"
  by (auto simp: date_parts_def bind_eq_Some_conv dest: date_month_range split: list.splits if_splits)

lemma clock_parts_range:
  "clock_parts t = Some (h, mi, sec) \<Longrightarrow> 0 \<le> h \<and> h \<le> 23 \<and> 0 \<le> mi \<and> mi \<le> 59 \<and> 0 \<le> sec \<and> sec \<le> 60"
  by (auto simp: clock_parts_def bind_eq_Some_conv date_num_def i64_checked_def split: list.splits if_splits)

lemma days_from_civil_eq:
  assumes "1970 \<le> year" "year \<le> 9999" "1 \<le> mon" "mon \<le> 12" "1 \<le> day" "day \<le> 31"
  shows "days_from_civil year mon day = Some (civil_days (year, mon, day)) \<and> \<bar>civil_days (year, mon, day)\<bar> \<le> 5000000"
proof -
  define y where "y = (if mon \<le> 2 then year - 1 else year)"
  define doy where "doy = (153 * (mon + (if mon > 2 then -3 else 9)) + 2) div 5 + day - 1"
  have "0 \<le> (153 * (mon + (if mon > 2 then -3 else 9)) + 2) div 5" "(153 * (mon + (if mon > 2 then -3 else 9)) + 2) div 5 \<le> 337"
    using assms(3,4) by auto
  then have doy: "0 \<le> doy" "doy \<le> 367" using assms(5,6) by (auto simp: doy_def)
  have y: "1969 \<le> y" "y \<le> 9999" using assms(1,2) by (auto simp: y_def)
  then have div: "0 \<le> y div 400" "y div 400 \<le> 24" "0 \<le> y div 4" "y div 4 \<le> 2499" "0 \<le> y div 100" "y div 100 \<le> 99" by auto
  define doe where "doe = (y - y div 400 * 400) * 365 + (y - y div 400 * 400) div 4 - (y - y div 400 * 400) div 100"
  have sum: "y div 400 * 146097 + doe = 365 * y + y div 4 - y div 100 + y div 400" using era_days [of y] by (simp add: doe_def)
  have civil: "civil_days (year, mon, day) = y div 400 * 146097 + (doe + doy) - 719468"
    using sum by (simp add: civil_days_def Let_def flip: y_def) (simp add: doy_def)
  have "days_from_civil year mon day = Option.bind (i64_checked (y div 400 * 146097)) (\<lambda>a.
      Option.bind (i64_checked (a + (doe + doy))) (\<lambda>b. i64_checked (b - 719468)))"
    unfolding days_from_civil_def Let_def y_def [symmetric] doy_def [symmetric] doe_def ..
  moreover have "i64_checked x = Some x" if "\<bar>x\<bar> \<le> 10000000" for x using that by (auto simp: i64_checked_def)
  moreover have "\<bar>y div 400 * 146097\<bar> \<le> 10000000" "\<bar>y div 400 * 146097 + (doe + doy)\<bar> \<le> 10000000"
    "\<bar>y div 400 * 146097 + (doe + doy) - 719468\<bar> \<le> 5000000" using sum div doy y by linarith+
  ultimately show ?thesis unfolding civil by simp
qed

text \<open>A date that is read counts the days since the epoch one by one.\<close>

theorem parse_http_date_iff:
  "parse_http_date text = Some s \<longleftrightarrow>
     (\<exists>day mon year clock h mi sec n.
        date_parts (filter (\<lambda>t. t \<noteq> []) (split_on (\<lambda>c. is_ascii_whitespace c \<or> c = CHR '','') text)) = Some (day, mon, year, clock) \<and>
        clock_parts clock = Some (h, mi, sec) \<and> year \<le> 9999 \<and> (next_day ^^ n) (1970, 1, 1) = (year, mon, day) \<and>
        s = n * 86400 + nat (h * 3600 + mi * 60 + sec))"
    (is "_ \<longleftrightarrow> ?R")
proof -
  let ?t = "filter (\<lambda>t. t \<noteq> []) (split_on (\<lambda>c. is_ascii_whitespace c \<or> c = CHR '','') text)"
  have calc: "parse_http_date text = Some s \<longleftrightarrow> s = n * 86400 + nat (h * 3600 + mi * 60 + sec)"
    if p: "date_parts ?t = Some (day, mon, year, clock)" "clock_parts clock = Some (h, mi, sec)"
      and y: "1970 \<le> year" "year \<le> 9999" and d: "1 \<le> day" "day \<le> days_in_month year mon"
      and n: "(next_day ^^ n) (1970, 1, 1) = (year, mon, day)" for day mon year clock h mi sec n
  proof -
    note r = clock_parts_range [OF p(2)] and m = date_parts_month [OF p(1)]
    have "day \<le> 31" using d(2) by (auto simp: days_in_month_def split: if_splits)
    then have days: "days_from_civil year mon day = Some (int n)" "int n \<le> 5000000"
      using days_from_civil_eq [of year mon day] y m d(1) counted_days [of n] n by auto
    have i: "i64_checked x = Some x" if "\<bar>x\<bar> \<le> 1000000000000" for x using that by (auto simp: i64_checked_def)
    have c: "0 \<le> h * 3600 + mi * 60 + sec" "h * 3600 + mi * 60 + sec \<le> 90000" using r by auto
    have "parse_http_date text = Some (nat (int n * 86400 + (h * 3600 + mi * 60 + sec)))"
      using p y d days(2) c by (simp add: parse_http_date_def days(1) i)
    then show ?thesis using c by (auto simp: nat_add_distrib nat_mult_distrib)
  qed
  show ?thesis
  proof
    assume s: "parse_http_date text = Some s"
    then obtain day mon year clock h mi sec where p: "date_parts ?t = Some (day, mon, year, clock)"
      "clock_parts clock = Some (h, mi, sec)" "1970 \<le> year" "year \<le> 9999" "1 \<le> day" "day \<le> days_in_month year mon"
      by (auto simp: parse_http_date_def bind_eq_Some_conv split: if_splits)
    obtain n where n: "(next_day ^^ n) (1970, 1, 1) = (year, mon, day)"
      using date_reached [of year mon day] date_parts_month [OF p(1)] p(3-6) by (auto simp: valid_date_def)
    show ?R using calc [OF p n] s p(1,2,4) n by blast
  next
    assume ?R
    then obtain day mon year clock h mi sec n where p: "date_parts ?t = Some (day, mon, year, clock)"
      "clock_parts clock = Some (h, mi, sec)" "year \<le> 9999" "(next_day ^^ n) (1970, 1, 1) = (year, mon, day)"
      "s = n * 86400 + nat (h * 3600 + mi * 60 + sec)" by blast
    have "fst ((next_day ^^ k) (1970, 1, 1)) \<ge> 1970" for k
      by (induction k) (auto simp: next_day_def split: prod.split)
    from this [of n] have "1970 \<le> year" using p(4) by simp
    moreover have "1 \<le> day" "day \<le> days_in_month year mon" using counted_days [of n] p(4) by (auto simp: valid_date_def)
    ultimately show "parse_http_date text = Some s" using calc [OF p(1,2) _ p(3) _ _ p(4)] p(5) by blast
  qed
qed

end
