(* ===== verification/Http.thy ===== *)
theory Http
  imports Batch Non_Inclusion Retry_After
begin

text \<open>
  What the JSON-RPC client of \<open>client/http.rs\<close> reads: response bodies, the envelope, the results of the proof
  methods and the typed failures. The JSON values, the hex digits and the URLs are those of the libraries
  serde_json, hex and url, and the text of an error is its Display form: all of these are parameters, in the
  record \<open>libs\<close>. A value of serde_json is of any type \<open>'j\<close> and is looked at through the documented accessors.
\<close>

section \<open>Libraries\<close>

record url =
  url_scheme :: string
  url_has_host :: bool
  url_username :: string
  url_password :: "string option"
  url_fragment :: "string option"

record 'j libs =
  lb_from_str :: "string \<Rightarrow> string + 'j"
  lb_as_object :: "'j \<Rightarrow> (string \<times> 'j) list option"
  lb_as_array :: "'j \<Rightarrow> 'j list option"
  lb_as_str :: "'j \<Rightarrow> string option"
  lb_as_i64 :: "'j \<Rightarrow> i64 option"
  lb_as_u64 :: "'j \<Rightarrow> u64 option"
  lb_as_bool :: "'j \<Rightarrow> bool option"
  lb_is_null :: "'j \<Rightarrow> bool"
  lb_hex_encode :: "bytes \<Rightarrow> string"
  lb_hex_decode :: "string \<Rightarrow> string + bytes"
  lb_parse_url :: "string \<Rightarrow> string + url"
  lb_utf8_error :: "bytes \<Rightarrow> string"
  lb_cbor_text :: "CborError \<Rightarrow> string"
  lb_error_text :: "Error \<Rightarrow> string"
  lb_view_text :: "PartitionViewError \<Rightarrow> string"
  lb_verification_text :: "VerificationError \<Rightarrow> string"

text \<open>\<open>Value::get\<close> with a string key.\<close>

definition value_get :: "('j, 'more) libs_scheme \<Rightarrow> 'j \<Rightarrow> string \<Rightarrow> 'j option" where
  "value_get L v k = Option.bind (lb_as_object L v) (\<lambda>object. map_of object k)"

section \<open>Errors\<close>

datatype HttpError =
    ConfigurationError string
  | HttpTransport string
  | HttpStatus u16 string
  | HttpRpc i64 string
  | HttpDecode string
  | ResponseTooLarge usize
  | RejectedRequest string
  | HttpTimeout
  | HttpCancelled
  | StateNotFoundError
  | StateExpiredError
  | ProofOfOtherData
  | StateCertifiedWithOtherData
  | StateUnknownError
  | CertifiedStateUnavailable
  | StateIncludedError
  | ServerBusyError
  | OverloadTimeout "duration option" HttpError

datatype 'j EnvelopeError =
    EnvelopeDecode string
  | EnvelopeRpc i64 string "'j option" "duration option"
  | NullIdRpc i64 "'j option" "duration option"

text \<open>The fields of \<open>Http\<close> are the status, the body, the error of the envelope, \<open>Retry-After\<close>, the limit that
  the body exceeded and the failure that cut it short.\<close>

datatype 'j RawFailure =
    RawHttp u16 string "'j EnvelopeError option" "duration option" "usize option" "'j RawFailure option"
  | RawTransport string
  | RawFatal string
  | RawTimedOut string
  | RawEnvelope "'j EnvelopeError"
  | RawTooLarge usize
  | RawConfig HttpError

definition NULL_ID_MESSAGE :: string where "NULL_ID_MESSAGE = ''invalid or missing JSON-RPC id''"

definition MAX_RESPONSE_BODY_BYTES :: usize where "MAX_RESPONSE_BODY_BYTES = 8 * 1024 * 1024"
definition MAX_ERROR_BODY_BYTES :: usize where "MAX_ERROR_BODY_BYTES = 64 * 1024"
definition MAX_PROOF_HEX_CHARS :: usize where "MAX_PROOF_HEX_CHARS = MAX_RESPONSE_BODY_BYTES - 1024"

definition RPC_STATE_NOT_FOUND :: i64 where "RPC_STATE_NOT_FOUND = -32020"
definition RPC_INCLUSION_PENDING :: i64 where "RPC_INCLUSION_PENDING = -32021"
definition RPC_STATE_INCLUDED :: i64 where "RPC_STATE_INCLUDED = -32022"
definition RPC_SERVER_BUSY :: i64 where "RPC_SERVER_BUSY = -32023"
definition RPC_INTERNAL_ERROR :: i64 where "RPC_INTERNAL_ERROR = -32603"

definition is_timed_out :: "'j RawFailure \<Rightarrow> bool" where
  "is_timed_out f = (case f of RawTimedOut _ \<Rightarrow> True | _ \<Rightarrow> False)"

fun raw_to_http :: "'j RawFailure \<Rightarrow> HttpError" where
  "raw_to_http (RawHttp status body rpc retry_after (Some limit) interrupted) = ResponseTooLarge limit"
| "raw_to_http (RawHttp status body rpc retry_after None (Some interrupted)) =
     (if is_timed_out interrupted then raw_to_http interrupted else HttpStatus status body)"
| "raw_to_http (RawHttp status body rpc retry_after None None) = HttpStatus status body"
| "raw_to_http (RawTransport m) = HttpTransport m"
| "raw_to_http (RawTimedOut m) = HttpTransport m"
| "raw_to_http (RawFatal m) = HttpTransport m"
| "raw_to_http (RawEnvelope (EnvelopeDecode m)) = HttpDecode m"
| "raw_to_http (RawEnvelope (NullIdRpc code data retry_after)) = HttpDecode NULL_ID_MESSAGE"
| "raw_to_http (RawEnvelope (EnvelopeRpc code message data retry_after)) = HttpRpc code message"
| "raw_to_http (RawTooLarge limit) = ResponseTooLarge limit"
| "raw_to_http (RawConfig e) = e"

section \<open>Overload\<close>

definition retryable_flag :: "('j, 'more) libs_scheme \<Rightarrow> 'j option \<Rightarrow> bool" where
  "retryable_flag L data \<longleftrightarrow>
     Option.bind (Option.bind data (\<lambda>d. value_get L d ''retryable'')) (lb_as_bool L) = Some True"

primrec rpc_overload :: "('j, 'more) libs_scheme \<Rightarrow> 'j EnvelopeError \<Rightarrow> bool" where
  "rpc_overload L (EnvelopeRpc code message data retry_after) \<longleftrightarrow> code = CONCURRENCY_LIMIT \<or> retryable_flag L data"
| "rpc_overload L (NullIdRpc code data retry_after) \<longleftrightarrow> code = CONCURRENCY_LIMIT \<or> retryable_flag L data"
| "rpc_overload L (EnvelopeDecode m) \<longleftrightarrow> False"

primrec rpc_retry_after :: "'j EnvelopeError \<Rightarrow> duration option" where
  "rpc_retry_after (EnvelopeRpc code message data retry_after) = retry_after"
| "rpc_retry_after (NullIdRpc code data retry_after) = retry_after"
| "rpc_retry_after (EnvelopeDecode m) = None"

definition overload_of :: "('j, 'more) libs_scheme \<Rightarrow> 'j RawFailure \<Rightarrow> duration option option" where
  "overload_of L failure =
     (case failure of
        RawHttp status body rpc retry_after too_large interrupted \<Rightarrow>
          if status \<in> {502, 503, 504, 429} \<or> (case rpc of Some e \<Rightarrow> rpc_overload L e | None \<Rightarrow> False)
          then Some retry_after else None
      | RawEnvelope e \<Rightarrow> if rpc_overload L e then Some (rpc_retry_after e) else None
      | _ \<Rightarrow> None)"

definition overload_pause ::
  "'j RawFailure \<Rightarrow> duration option \<Rightarrow> duration \<Rightarrow> duration \<Rightarrow> HttpError + duration" where
  "overload_pause failure retry_after interval left =
     (let pause = max interval (case retry_after of Some d \<Rightarrow> d | None \<Rightarrow> 0)
      in if pause > left then Err (OverloadTimeout retry_after (raw_to_http failure)) else Ok pause)"

definition transport_pause :: "duration \<Rightarrow> duration \<Rightarrow> HttpError + duration" where
  "transport_pause interval left = (if interval > left then Err HttpTimeout else Ok interval)"

text \<open>Whether the text contains the other.\<close>

fun contains_text :: "string \<Rightarrow> string \<Rightarrow> bool" where
  "contains_text [] t \<longleftrightarrow> t = []"
| "contains_text (c # s) t \<longleftrightarrow> take (length t) (c # s) = t \<or> contains_text s t"

definition is_queue_duplicate :: "('j, 'more) libs_scheme \<Rightarrow> i64 \<Rightarrow> 'j option \<Rightarrow> bool" where
  "is_queue_duplicate L code data \<longleftrightarrow> code = RPC_INTERNAL_ERROR \<and>
     (case map_option to_ascii_lowercase (Option.bind data (lb_as_str L)) of
        Some d \<Rightarrow> contains_text d ''duplicate key'' \<or> contains_text d ''e11000''
      | None \<Rightarrow> False)"

section \<open>The transport library\<close>

text \<open>What ureq hands over: an error has the kinds that \<open>transport_failure\<close> looks at, and for every error of
  its source chain whether its Debug form names an invalid certificate and whether it is an I/O error of a timeout
  kind. Reading at most \<open>n\<close> bytes of a body gives them or an I/O error.\<close>

record io_error =
  ie_timeout_kind :: bool
  ie_text :: string

record ureq_error =
  ue_fatal_kind :: bool
  ue_chain :: "(bool \<times> bool) list"
  ue_text :: string

record ureq_response =
  ur_status :: u16
  ur_retry_after :: "string option"
  ur_read :: "nat \<Rightarrow> io_error + bytes"

datatype ureq_answer = UreqOk ureq_response | UreqStatus u16 ureq_response | UreqTransport ureq_error

fun chain_failure :: "(bool \<times> bool) list \<Rightarrow> string \<Rightarrow> 'j RawFailure" where
  "chain_failure [] text = RawTransport text"
| "chain_failure ((invalid_certificate, timeout) # chain) text =
     (if invalid_certificate then RawFatal text
      else if timeout then RawTimedOut text
      else chain_failure chain text)"

definition transport_failure :: "ureq_error \<Rightarrow> 'j RawFailure" where
  "transport_failure e = (if ue_fatal_kind e then RawFatal (ue_text e) else chain_failure (ue_chain e) (ue_text e))"

definition io_failure :: "io_error \<Rightarrow> 'j RawFailure" where
  "io_failure e = (if ie_timeout_kind e then RawTimedOut (ie_text e) else RawTransport (ie_text e))"

definition utf8_text :: "bytes \<Rightarrow> string" where
  "utf8_text bs = map (\<lambda>b. char_of (unat b)) bs"

definition read_response_raw :: "('j, 'more) libs_scheme \<Rightarrow> ureq_response \<Rightarrow> usize \<Rightarrow> 'j RawFailure + string" where
  "read_response_raw L response limit =
     rbind (map_err io_failure (ur_read response (limit + 1))) (\<lambda>bytes.
       if length bytes > limit then Err (RawTooLarge limit)
       else if utf8_valid bytes then Ok (utf8_text bytes)
       else Err (RawEnvelope (EnvelopeDecode (lb_utf8_error L bytes))))"

definition read_error_body ::
  "('j, 'more) libs_scheme \<Rightarrow> ureq_response \<Rightarrow> string \<times> usize option \<times> 'j RawFailure option" where
  "read_error_body L response =
     (case read_response_raw L response MAX_ERROR_BODY_BYTES of
        Inr body \<Rightarrow> (body, None, None)
      | Inl (RawTooLarge limit) \<Rightarrow> ([], Some limit, None)
      | Inl (RawTimedOut m) \<Rightarrow> ([], None, Some (RawTimedOut m))
      | Inl (RawTransport m) \<Rightarrow> ([], None, Some (RawTransport m))
      | Inl _ \<Rightarrow> ([], None, None))"

section \<open>The envelope\<close>

definition null_id_error :: "('j, 'more) libs_scheme \<Rightarrow> (string \<times> 'j) list \<Rightarrow> 'j EnvelopeError option" where
  "null_id_error L object =
     (if (case map_of object ''id'' of Some v \<Rightarrow> lb_is_null L v | None \<Rightarrow> False) \<and> map_of object ''result'' = None
      then Option.bind (map_of object ''error'') (\<lambda>error.
             case (Option.bind (value_get L error ''code'') (lb_as_i64 L),
                   Option.bind (value_get L error ''message'') (lb_as_str L)) of
               (Some code, Some _) \<Rightarrow> Some (NullIdRpc code (value_get L error ''data'') None)
             | _ \<Rightarrow> None)
      else None)"

definition envelope_error :: "('j, 'more) libs_scheme \<Rightarrow> 'j \<Rightarrow> 'j EnvelopeError" where
  "envelope_error L error =
     (case Option.bind (value_get L error ''code'') (lb_as_i64 L) of
        None \<Rightarrow> EnvelopeDecode ''invalid JSON-RPC error code''
      | Some code \<Rightarrow>
          (case Option.bind (value_get L error ''message'') (lb_as_str L) of
             None \<Rightarrow> EnvelopeDecode ''invalid JSON-RPC error message''
           | Some message \<Rightarrow> EnvelopeRpc code message (value_get L error ''data'') None))"

definition decode_rpc_envelope ::
  "('j, 'more) libs_scheme \<Rightarrow> string \<Rightarrow> string \<Rightarrow> 'j EnvelopeError + 'j" where
  "decode_rpc_envelope L text expected_id =
     rbind (map_err EnvelopeDecode (lb_from_str L text)) (\<lambda>v.
     rbind (ok_or (EnvelopeDecode ''JSON-RPC response must be an object'') (lb_as_object L v)) (\<lambda>object.
       if Option.bind (map_of object ''jsonrpc'') (lb_as_str L) \<noteq> Some ''2.0''
       then Err (EnvelopeDecode ''invalid or missing JSON-RPC version'')
       else case null_id_error L object of
         Some e \<Rightarrow> Err e
       | None \<Rightarrow>
           rbind (ok_or (EnvelopeDecode ''invalid or missing JSON-RPC id'')
             (Option.bind (map_of object ''id'') (lb_as_str L))) (\<lambda>response_id.
             if response_id \<noteq> expected_id then Err (EnvelopeDecode ''JSON-RPC id mismatch'')
             else case (map_of object ''result'', map_of object ''error'') of
               (Some _, Some _) \<Rightarrow> Err (EnvelopeDecode ''JSON-RPC response contains both result and error'')
             | (Some result, None) \<Rightarrow> Ok result
             | (None, Some error) \<Rightarrow> Err (envelope_error L error)
             | (None, None) \<Rightarrow> Err (EnvelopeDecode ''JSON-RPC response contains neither result nor error''))))"

section \<open>Results\<close>

definition decode_inclusion_proof_response :: "('j, 'more) libs_scheme \<Rightarrow> bytes \<Rightarrow> HttpError + InclusionProofResponse" where
  "decode_inclusion_proof_response L bytes =
     (let d = decoder_new bytes
      in rbind (map_err (\<lambda>e. HttpDecode (lb_cbor_text L e)) (finish d)) (\<lambda>_.
           map_err (\<lambda>e. HttpDecode (lb_error_text L e)) (InclusionProofResponse_from_cbor d)))"

definition decode_non_inclusion_proof_response :: "('j, 'more) libs_scheme \<Rightarrow> bytes \<Rightarrow> HttpError + NonInclusionProof" where
  "decode_non_inclusion_proof_response L bytes =
     (let d = decoder_new bytes
      in rbind (map_err (\<lambda>e. HttpDecode (lb_cbor_text L e)) (finish d)) (\<lambda>_.
         rbind (map_err (\<lambda>e. HttpDecode (lb_cbor_text L e)) (array d (Some 2))) (\<lambda>items.
         rbind (map_err (\<lambda>e. HttpDecode (lb_cbor_text L e)) (uint_value (items ! 0))) (\<lambda>_.
           map_err (\<lambda>e. HttpDecode (lb_error_text L e)) (NonInclusionProof_from_cbor (items ! 1))))))"

definition UNSOLICITED_ECHO :: string where
  "UNSOLICITED_ECHO = ''waitedMs echoed to a request without waitMs''"

definition parse_waited_ms :: "('j, 'more) libs_scheme \<Rightarrow> 'j \<Rightarrow> string + u64" where
  "parse_waited_ms L v =
     ok_or ''malformed waitedMs'' (Option.bind (lb_as_u64 L v) (\<lambda>n. if n \<le> MAX_WAIT_MS then Some n else None))"

definition error_echo_of :: "('j, 'more) libs_scheme \<Rightarrow> 'j RawFailure \<Rightarrow> 'j option" where
  "error_echo_of L failure =
     (case failure of
        RawEnvelope (EnvelopeRpc code message data retry_after) \<Rightarrow> Option.bind data (\<lambda>d. value_get L d ''waitedMs'')
      | RawHttp status body (Some (EnvelopeRpc code message data r)) retry_after too_large interrupted \<Rightarrow>
          Option.bind data (\<lambda>d. value_get L d ''waitedMs'')
      | _ \<Rightarrow> None)"

record V2Result =
  v2_response :: InclusionProofResponse
  v2_status :: "ProofStatus option"
  v2_waited_ms :: "u64 option"

definition decode_v2_result :: "('j, 'more) libs_scheme \<Rightarrow> 'j \<Rightarrow> bool \<Rightarrow> HttpError + V2Result" where
  "decode_v2_result L result wait_sent =
     rbind (case lb_as_str L result of
              Some s \<Rightarrow> Ok (s, None, None)
            | None \<Rightarrow>
                rbind (ok_or (HttpDecode ''expected hex string'') (lb_as_object L result)) (\<lambda>object.
                rbind (ok_or (HttpDecode ''status result lacks a proof string'')
                  (Option.bind (map_of object ''proof'') (lb_as_str L))) (\<lambda>p.
                  let status = Option.bind (Option.bind (map_of object ''status'') (lb_as_str L)) from_wire
                  in rbind (case map_of object ''waitedMs'' of
                         None \<Rightarrow> Ok None
                       | Some v \<Rightarrow>
                           if \<not> wait_sent then Err (HttpDecode UNSOLICITED_ECHO)
                           else rbind (map_err HttpDecode (parse_waited_ms L v)) (\<lambda>n. Ok (Some n))) (\<lambda>waited_ms.
                       Ok (p, status, waited_ms)))))
       (\<lambda>(encoded, status, waited_ms).
         if length encoded > MAX_PROOF_HEX_CHARS then Err (ResponseTooLarge MAX_PROOF_HEX_CHARS)
         else
           rbind (map_err HttpDecode (lb_hex_decode L encoded)) (\<lambda>bytes.
           rbind (decode_inclusion_proof_response L bytes) (\<lambda>response.
             Ok \<lparr>v2_response = response, v2_status = status, v2_waited_ms = waited_ms\<rparr>)))"

section \<open>Batches\<close>

definition UNCLASSIFIED :: string where "UNCLASSIFIED = []"

definition index_list :: "('j, 'more) libs_scheme \<Rightarrow> 'j \<Rightarrow> nat list option" where
  "index_list L v = map_option (\<lambda>a. List.map_filter (\<lambda>i. map_option unat (lb_as_u64 L i)) a) (lb_as_array L v)"

definition parse_indexes :: "('j, 'more) libs_scheme \<Rightarrow> 'j \<Rightarrow> (string \<times> nat list) list" where
  "parse_indexes L v =
     (case lb_as_object L v of
        Some classes \<Rightarrow> List.map_filter (\<lambda>(class, v). map_option (Pair class) (index_list L v)) classes
      | None \<Rightarrow> (case index_list L v of Some l \<Rightarrow> [(UNCLASSIFIED, l)] | None \<Rightarrow> []))"

fun batch_failure :: "('j, 'more) libs_scheme \<Rightarrow> (HttpError \<Rightarrow> string) \<Rightarrow> 'j RawFailure \<Rightarrow> BatchFailure" where
  "batch_failure L display (RawHttp status body (Some e) retry_after too_large interrupted) = batch_failure L display (RawEnvelope e)"
| "batch_failure L display (RawHttp status body None retry_after too_large interrupted) =
     (if (case interrupted of Some c \<Rightarrow> is_timed_out c | None \<Rightarrow> False) then TimeoutFailure
      else case too_large of Some limit \<Rightarrow> TooLargeFailure limit | None \<Rightarrow> HttpFailure status)"
| "batch_failure L display (RawTimedOut m) = TimeoutFailure"
| "batch_failure L display (RawTransport m) = TransportFailure m"
| "batch_failure L display (RawFatal m) = TransportFailure m"
| "batch_failure L display (RawTooLarge limit) = TooLargeFailure limit"
| "batch_failure L display (RawConfig e) = TransportFailure (display e)"
| "batch_failure L display (RawEnvelope (EnvelopeDecode m)) = DecodeFailure m"
| "batch_failure L display (RawEnvelope (NullIdRpc code data retry_after)) = DecodeFailure NULL_ID_MESSAGE"
| "batch_failure L display (RawEnvelope (EnvelopeRpc code message data retry_after)) =
     (let text = (\<lambda>k. Option.bind (Option.bind data (\<lambda>d. value_get L d k)) (lb_as_str L))
      in RpcFailure code message (text ''reason'') (text ''detail'')
           (Option.bind (Option.bind data (\<lambda>d. value_get L d ''retryable'')) (lb_as_bool L))
           (case Option.bind data (\<lambda>d. value_get L d ''indexes'') of Some v \<Rightarrow> parse_indexes L v | None \<Rightarrow> []))"

definition batch_failure_waited ::
  "('j, 'more) libs_scheme \<Rightarrow> (HttpError \<Rightarrow> string) \<Rightarrow> 'j RawFailure \<Rightarrow> u64 option \<Rightarrow> WaitedFailure" where
  "batch_failure_waited L display failure sent_wait_ms =
     (let echo = (if sent_wait_ms \<noteq> None then error_echo_of L failure else None);
          failure = batch_failure L display failure
      in case map_option (parse_waited_ms L) echo of
           None \<Rightarrow> WaitedFailure_new failure None sent_wait_ms
         | Some (Inr ms) \<Rightarrow> WaitedFailure_new failure (Some ms) sent_wait_ms
         | Some (Inl m) \<Rightarrow> WaitedFailure_new (DecodeFailure m) None sent_wait_ms)"

definition hex_field :: "('j, 'more) libs_scheme \<Rightarrow> 'j \<Rightarrow> BatchFailure + bytes" where
  "hex_field L v =
     rbind (ok_or (DecodeFailure ''expected a hex string'') (lb_as_str L v)) (\<lambda>s.
       if length s > MAX_PROOF_HEX_CHARS then Err (TooLargeFailure MAX_PROOF_HEX_CHARS)
       else map_err DecodeFailure (lb_hex_decode L s))"

definition batch_proof :: "('j, 'more) libs_scheme \<Rightarrow> (HttpError \<Rightarrow> string) \<Rightarrow> 'j \<Rightarrow> BatchFailure + BatchProof" where
  "batch_proof L display v =
     rbind (hex_field L v) (\<lambda>bytes.
       case decode_inclusion_proof_response L bytes of
         Inr (Certified block_number p) \<Rightarrow> Ok \<lparr>bx_block_number = block_number, bx_proof = p\<rparr>
       | Inr (NotCertified _ _) \<Rightarrow> Err (DecodeFailure ''batch carries an uncertified proof'')
       | Inl e \<Rightarrow> Err (DecodeFailure (display e)))"

definition decode_batch_result ::
  "('j, 'more) libs_scheme \<Rightarrow> (HttpError \<Rightarrow> string) \<Rightarrow> 'j \<Rightarrow> bool \<Rightarrow> BatchFailure + InclusionProofBatch \<times> u64 option" where
  "decode_batch_result L display result wait_sent =
     rbind (ok_or (DecodeFailure ''batch result must be an object'') (lb_as_object L result)) (\<lambda>object.
       if list_ex (\<lambda>(k, v). k \<noteq> ''proofs'' \<and> k \<noteq> ''partitionView'' \<and> \<not> (wait_sent \<and> k = ''waitedMs'')) object
       then Err (DecodeFailure ''unknown field in batch result'')
       else
         rbind (case map_of object ''waitedMs'' of
             None \<Rightarrow> Ok None
           | Some v \<Rightarrow> rbind (map_err DecodeFailure (parse_waited_ms L v)) (\<lambda>n. Ok (Some n))) (\<lambda>waited_ms.
         rbind (ok_or (DecodeFailure ''missing proofs array'')
           (Option.bind (map_of object ''proofs'') (lb_as_array L))) (\<lambda>encoded.
         rbind (rmap (batch_proof L display) encoded) (\<lambda>proofs.
         rbind (case map_of object ''partitionView'' of
             None \<Rightarrow> Ok None
           | Some v \<Rightarrow>
               rbind (hex_field L v) (\<lambda>bytes.
               rbind (map_err (\<lambda>e. DecodeFailure (lb_view_text L e)) (PartitionView_from_cbor bytes)) (\<lambda>view.
                 Ok (Some view)))) (\<lambda>partition_view.
           Ok (\<lparr>ib_proofs = proofs, ib_partition_view = partition_view\<rparr>, waited_ms))))))"

text \<open>A decoded batch carries a decoded view.\<close>

lemma decoded_view_wf:
  assumes "decode_batch_result L display result wait_sent = Ok (batch, waited_ms)" "ib_partition_view batch = Some view"
  shows "PartitionView_wf view"
  using assms PartitionView_from_cbor_iff
  by (auto simp: decode_batch_result_def rbind_Inr_iff map_err_Inr_iff split: if_splits option.splits)

end
