(* ===== verification/Http_Call.thy ===== *)
theory Http_Call
  imports Http
begin

text \<open>
  One exchange of the JSON-RPC client of \<open>client/http.rs\<close> and the operations that make exactly one: submission,
  lookups, absence and batches. The transport, the clocks, sleeping and the random numbers act on a world \<open>'w\<close>
  and are the parameters of the record \<open>net\<close>; a request is what the client asks the transport library to send.
\<close>

section \<open>The client\<close>

record agent =
  ag_timeout :: duration
  ag_https_only :: bool
  ag_redirects :: u32

record HttpAggregatorClient =
  hc_url :: string
  hc_api_key :: "string option"
  hc_agent :: agent
  hc_poll_interval :: duration
  hc_poll_attempts :: u32
  hc_long_poll :: bool
  hc_unknown_grace :: u32
  hc_allow_insecure_http :: bool

definition DEFAULT_UNKNOWN_GRACE :: u32 where "DEFAULT_UNKNOWN_GRACE = 2"

definition HttpAggregatorClient_new :: "string \<Rightarrow> HttpAggregatorClient" where
  "HttpAggregatorClient_new u =
     \<lparr>hc_url = u, hc_api_key = None, hc_agent = \<lparr>ag_timeout = from_secs 30, ag_https_only = True, ag_redirects = 0\<rparr>,
      hc_poll_interval = from_secs 1, hc_poll_attempts = 15, hc_long_poll = True,
      hc_unknown_grace = DEFAULT_UNKNOWN_GRACE, hc_allow_insecure_http = False\<rparr>"

definition HttpAggregatorClient_new_insecure_http :: "string \<Rightarrow> HttpAggregatorClient" where
  "HttpAggregatorClient_new_insecure_http u =
     \<lparr>hc_url = u, hc_api_key = None, hc_agent = \<lparr>ag_timeout = from_secs 30, ag_https_only = False, ag_redirects = 0\<rparr>,
      hc_poll_interval = from_secs 1, hc_poll_attempts = 15, hc_long_poll = True,
      hc_unknown_grace = DEFAULT_UNKNOWN_GRACE, hc_allow_insecure_http = True\<rparr>"

definition HttpAggregatorClient_with_api_key :: "HttpAggregatorClient \<Rightarrow> string \<Rightarrow> HttpAggregatorClient" where
  "HttpAggregatorClient_with_api_key cl key = cl\<lparr>hc_api_key := Some key\<rparr>"

definition HttpAggregatorClient_with_polling :: "HttpAggregatorClient \<Rightarrow> duration \<Rightarrow> u32 \<Rightarrow> HttpAggregatorClient" where
  "HttpAggregatorClient_with_polling cl interval attempts = cl\<lparr>hc_poll_interval := interval, hc_poll_attempts := attempts\<rparr>"

definition HttpAggregatorClient_with_long_poll :: "HttpAggregatorClient \<Rightarrow> bool \<Rightarrow> HttpAggregatorClient" where
  "HttpAggregatorClient_with_long_poll cl enabled = cl\<lparr>hc_long_poll := enabled\<rparr>"

definition HttpAggregatorClient_with_unknown_grace :: "HttpAggregatorClient \<Rightarrow> u32 \<Rightarrow> HttpAggregatorClient" where
  "HttpAggregatorClient_with_unknown_grace cl polls = cl\<lparr>hc_unknown_grace := polls\<rparr>"

definition validate_endpoint :: "('j, 'more) libs_scheme \<Rightarrow> HttpAggregatorClient \<Rightarrow> HttpError + url" where
  "validate_endpoint L cl =
     rbind (map_err (\<lambda>e. ConfigurationError (''invalid gateway URL: '' @ e)) (lb_parse_url L (hc_url cl))) (\<lambda>parsed.
       if url_scheme parsed \<notin> {''http'', ''https''} \<or> \<not> url_has_host parsed
       then Err (ConfigurationError ''gateway URL must be an absolute HTTP(S) URL'')
       else if url_username parsed \<noteq> [] \<or> url_password parsed \<noteq> None
       then Err (ConfigurationError ''gateway URL must not contain credentials'')
       else if url_fragment parsed \<noteq> None
       then Err (ConfigurationError ''gateway URL must not contain a fragment'')
       else if url_scheme parsed \<noteq> ''https'' \<and> \<not> hc_allow_insecure_http cl
       then Err (ConfigurationError ''gateway URL must use HTTPS'')
       else if url_scheme parsed \<noteq> ''https'' \<and> hc_api_key cl \<noteq> None
       then Err (ConfigurationError ''API keys must never be sent over plaintext HTTP'')
       else Ok parsed)"

definition HttpAggregatorClient_try_new :: "('j, 'more) libs_scheme \<Rightarrow> string \<Rightarrow> HttpError + HttpAggregatorClient" where
  "HttpAggregatorClient_try_new L u =
     (let client = HttpAggregatorClient_new u
      in rbind (validate_endpoint L client) (\<lambda>_. Ok client))"

section \<open>One exchange\<close>

datatype rpc_params =
    SubmitParams string
  | ProofParams string "u64 option"
  | NonInclusionParams string
  | BatchParams "string list" string "u64 option"

record http_request =
  hq_agent :: agent
  hq_url :: string
  hq_headers :: "(string \<times> string) list"
  hq_timeout :: "duration option"
  hq_id :: string
  hq_method :: string
  hq_params :: rpc_params

record 'w net =
  nt_now :: "'w \<Rightarrow> nat \<times> 'w"
  nt_instant_max :: nat
  nt_system_now :: "'w \<Rightarrow> nat \<times> 'w"
  nt_sleep :: "duration \<Rightarrow> 'w \<Rightarrow> 'w"
  nt_random :: "'w \<Rightarrow> bytes option \<times> 'w"
  nt_post :: "http_request \<Rightarrow> 'w \<Rightarrow> ureq_answer \<times> 'w"

definition request_id :: "('j, 'more) libs_scheme \<Rightarrow> 'w net \<Rightarrow> 'w \<Rightarrow> string \<times> 'w" where
  "request_id L N w =
     (case nt_random N w of
        (None, w) \<Rightarrow> (''0'', w)
      | (Some bytes, w) \<Rightarrow> (lb_hex_encode L bytes, w))"

definition parse_retry_after :: "'w net \<Rightarrow> string option \<Rightarrow> 'w \<Rightarrow> duration option \<times> 'w" where
  "parse_retry_after N v w = (let (now, w) = nt_system_now N w in (parse_retry_after_at v now, w))"

text \<open>A 2xx answer carries its \<open>Retry-After\<close> into the error of its envelope.\<close>

primrec with_retry_after :: "'j EnvelopeError \<Rightarrow> duration option \<Rightarrow> 'j EnvelopeError" where
  "with_retry_after (EnvelopeRpc code message data r) retry_after = EnvelopeRpc code message data retry_after"
| "with_retry_after (NullIdRpc code data r) retry_after = NullIdRpc code data retry_after"
| "with_retry_after (EnvelopeDecode m) retry_after = EnvelopeDecode m"

definition rpc_answer ::
  "('j, 'more) libs_scheme \<Rightarrow> 'w net \<Rightarrow> string \<Rightarrow> ureq_answer \<Rightarrow> 'w \<Rightarrow> ('w, 'j RawFailure, 'j) st" where
  "rpc_answer L N i answer w =
     (case answer of
        UreqStatus status r \<Rightarrow>
          let (retry_after, w) = parse_retry_after N (ur_retry_after r) w;
              (body, too_large, interrupted) = read_error_body L r;
              rpc = (case decode_rpc_envelope L body i of
                Inl (EnvelopeRpc code message data ra) \<Rightarrow> Some (EnvelopeRpc code message data ra)
              | _ \<Rightarrow> None)
          in (Err (RawHttp status body rpc retry_after too_large interrupted), w)
      | UreqTransport e \<Rightarrow> (Err (transport_failure e), w)
      | UreqOk response \<Rightarrow>
          let (retry_after, w) = parse_retry_after N (ur_retry_after response) w
          in if \<not> (200 \<le> ur_status response \<and> ur_status response < 300)
             then
               let (body, too_large, interrupted) = read_error_body L response
               in (Err (RawHttp (ur_status response) body None retry_after too_large interrupted), w)
             else
               (rbind (read_response_raw L response MAX_RESPONSE_BODY_BYTES) (\<lambda>text.
                  map_err (\<lambda>e. RawEnvelope (with_retry_after e retry_after)) (decode_rpc_envelope L text i)), w))"

definition rpc_raw ::
  "('j, 'more) libs_scheme \<Rightarrow> 'w net \<Rightarrow> HttpAggregatorClient \<Rightarrow> string \<Rightarrow> rpc_params \<Rightarrow> (string \<times> string) list \<Rightarrow>
   duration option \<Rightarrow> 'w \<Rightarrow> ('w, 'j RawFailure, 'j) st" where
  "rpc_raw L N cl m params headers timeout w =
     (case validate_endpoint L cl of
        Inl e \<Rightarrow> (Err (RawConfig e), w)
      | Inr _ \<Rightarrow>
          let (i, w) = request_id L N w;
              (answer, w) = nt_post N \<lparr>hq_agent = hc_agent cl, hq_url = hc_url cl,
                hq_headers = (''Content-Type'', ''application/json'') # headers, hq_timeout = timeout, hq_id = i,
                hq_method = m, hq_params = params\<rparr> w
          in rpc_answer L N i answer w)"

definition rpc ::
  "('j, 'more) libs_scheme \<Rightarrow> 'w net \<Rightarrow> HttpAggregatorClient \<Rightarrow> string \<Rightarrow> rpc_params \<Rightarrow> (string \<times> string) list \<Rightarrow>
   'w \<Rightarrow> ('w, HttpError, 'j) st" where
  "rpc L N cl m params headers w = map_prod (map_err raw_to_http) id (rpc_raw L N cl m params headers None w)"

definition enveloped_to_http :: "'j RawFailure \<Rightarrow> HttpError" where
  "enveloped_to_http failure =
     (case failure of
        RawHttp status body (Some (EnvelopeRpc code message data r)) retry_after too_large interrupted \<Rightarrow> HttpRpc code message
      | other \<Rightarrow> raw_to_http other)"

definition rpc_enveloped ::
  "('j, 'more) libs_scheme \<Rightarrow> 'w net \<Rightarrow> HttpAggregatorClient \<Rightarrow> string \<Rightarrow> rpc_params \<Rightarrow> (string \<times> string) list \<Rightarrow>
   'w \<Rightarrow> ('w, HttpError, 'j) st" where
  "rpc_enveloped L N cl m params headers w =
     map_prod (map_err enveloped_to_http) id (rpc_raw L N cl m params headers None w)"

section \<open>Submission\<close>

datatype SubmitReply = Accepted | StateIdExists | QueueDuplicate HttpError

datatype SubmitOutcome = AcceptedOutcome | AlreadySubmitted

definition submit_status :: "('j, 'more) libs_scheme \<Rightarrow> 'j \<Rightarrow> HttpError + SubmitReply" where
  "submit_status L result =
     (let status = (case Option.bind (value_get L result ''status'') (lb_as_str L) of Some s \<Rightarrow> s | None \<Rightarrow> [])
      in if status = ''SUCCESS'' then Ok Accepted
         else if status = ''STATE_ID_EXISTS'' then Ok StateIdExists
         else Err (RejectedRequest status))"

definition submit_inner ::
  "sha2 \<Rightarrow> ('j, 'more) libs_scheme \<Rightarrow> 'w net \<Rightarrow> HttpAggregatorClient \<Rightarrow> CertificationData \<Rightarrow> 'w \<Rightarrow>
   ('w, HttpError, SubmitReply) st" where
  "submit_inner sha2 L N cl data w =
     (let request = CertificationRequest_new sha2 data;
          params = SubmitParams (lb_hex_encode L (CertificationRequest_to_cbor request));
          headers = (''X-State-ID'', lb_hex_encode L (sid_bytes (cr_state_id request))) #
            (case hc_api_key cl of Some key \<Rightarrow> [(''X-API-Key'', key)] | None \<Rightarrow> [])
      in case rpc_raw L N cl ''certification_request'' params headers None w of
           (Inr result, w) \<Rightarrow> (submit_status L result, w)
         | (Inl failure, w) \<Rightarrow>
             (case failure of
                RawEnvelope (EnvelopeRpc code message d retry_after) \<Rightarrow>
                  if is_queue_duplicate L code d then Ok (QueueDuplicate (HttpRpc code message))
                  else Err (raw_to_http failure)
              | _ \<Rightarrow> Err (raw_to_http failure), w))"

definition http_submit_certification_request ::
  "sha2 \<Rightarrow> ('j, 'more) libs_scheme \<Rightarrow> 'w net \<Rightarrow> HttpAggregatorClient \<Rightarrow> CertificationData \<Rightarrow> 'w \<Rightarrow> ('w, HttpError, unit) st" where
  "http_submit_certification_request sha2 L N cl data w =
     sbind (submit_inner sha2 L N cl data w) (\<lambda>reply w.
       (case reply of
          Accepted \<Rightarrow> Ok ()
        | StateIdExists \<Rightarrow> Err (RejectedRequest ''STATE_ID_EXISTS'')
        | QueueDuplicate error \<Rightarrow> Err error, w))"

definition resubmit_certification_request ::
  "sha2 \<Rightarrow> ('j, 'more) libs_scheme \<Rightarrow> 'w net \<Rightarrow> HttpAggregatorClient \<Rightarrow> CertificationData \<Rightarrow> 'w \<Rightarrow>
   ('w, HttpError, SubmitOutcome) st" where
  "resubmit_certification_request sha2 L N cl data w =
     sbind (submit_inner sha2 L N cl data w) (\<lambda>reply w.
       (Ok (case reply of Accepted \<Rightarrow> AcceptedOutcome | _ \<Rightarrow> AlreadySubmitted), w))"

section \<open>Lookups\<close>

record WaitedLookup =
  wl_response :: InclusionProofResponse
  wl_status :: "ProofStatus option"
  wl_waited_ms :: "u64 option"

definition duration_ms :: "duration \<Rightarrow> u64" where
  "duration_ms d = (let ms = d div 1000000 in if ms < 2 ^ 64 then word_of_nat ms else -1)"

definition lookup_inclusion_proof ::
  "('j, 'more) libs_scheme \<Rightarrow> 'w net \<Rightarrow> HttpAggregatorClient \<Rightarrow> StateId \<Rightarrow> 'w \<Rightarrow>
   ('w, HttpError, InclusionProofResponse \<times> ProofStatus option) st" where
  "lookup_inclusion_proof L N cl state_id w =
     sbind (rpc L N cl ''get_inclusion_proof.v2'' (ProofParams (lb_hex_encode L (sid_bytes state_id)) None) [] w) (\<lambda>result w.
       (rbind (decode_v2_result L result False) (\<lambda>parsed. Ok (v2_response parsed, v2_status parsed)), w))"

definition lookup_inclusion_proof_with_wait ::
  "('j, 'more) libs_scheme \<Rightarrow> 'w net \<Rightarrow> HttpAggregatorClient \<Rightarrow> StateId \<Rightarrow> WaitRequest \<Rightarrow> duration \<Rightarrow> 'w \<Rightarrow>
   ('w, HttpError, WaitedLookup) st" where
  "lookup_inclusion_proof_with_wait L N cl state_id wait timeout w =
     (let sent = wait_on_wire (wq_wait_ms wait) (duration_ms timeout) (wq_margin_ms wait)
      in sbind (map_prod (map_err raw_to_http) id
           (rpc_raw L N cl ''get_inclusion_proof.v2'' (ProofParams (lb_hex_encode L (sid_bytes state_id)) sent) []
             (Some (max timeout (from_millis 1))) w)) (\<lambda>result w.
           (rbind (decode_v2_result L result (sent \<noteq> None)) (\<lambda>parsed.
              Ok \<lparr>wl_response = v2_response parsed, wl_status = v2_status parsed, wl_waited_ms = v2_waited_ms parsed\<rparr>), w)))"

definition absence_error :: "HttpError \<Rightarrow> HttpError" where
  "absence_error e =
     (case e of
        HttpRpc code message \<Rightarrow>
          if code = RPC_STATE_NOT_FOUND then CertifiedStateUnavailable
          else if code = RPC_STATE_INCLUDED then StateIncludedError
          else if code = RPC_SERVER_BUSY then ServerBusyError
          else e
      | _ \<Rightarrow> e)"

definition get_non_inclusion_proof ::
  "('j, 'more) libs_scheme \<Rightarrow> 'w net \<Rightarrow> HttpAggregatorClient \<Rightarrow> StateId \<Rightarrow> 'w \<Rightarrow> ('w, HttpError, NonInclusionProof) st" where
  "get_non_inclusion_proof L N cl state_id w =
     sbind (map_prod (map_err absence_error) id
       (rpc_enveloped L N cl ''get_non_inclusion_proof.v1'' (NonInclusionParams (lb_hex_encode L (sid_bytes state_id))) [] w))
       (\<lambda>result w.
         (rbind (ok_or (HttpDecode ''expected hex string'') (lb_as_str L result)) (\<lambda>encoded.
            if length encoded > MAX_PROOF_HEX_CHARS then Err (ResponseTooLarge MAX_PROOF_HEX_CHARS)
            else
              rbind (map_err HttpDecode (lb_hex_decode L encoded)) (\<lambda>bytes.
              rbind (decode_non_inclusion_proof_response L bytes) (\<lambda>p.
                map_err (\<lambda>e. HttpDecode (lb_verification_text L e)) (for_state p state_id)))), w))"

section \<open>Batches\<close>

definition batch_call ::
  "('j, 'more) libs_scheme \<Rightarrow> (HttpError \<Rightarrow> string) \<Rightarrow> 'w net \<Rightarrow> HttpAggregatorClient \<Rightarrow> BatchRequest \<Rightarrow> RequestOptions \<Rightarrow>
   WaitRequest option \<Rightarrow> 'w \<Rightarrow> ('w, WaitedFailure, WaitedBatch) st" where
  "batch_call L display N cl request options wait w =
     (let ids = br_state_ids request
      in if ids = [] \<or> length ids > MAX_BATCH_STATE_IDS
         then (Err (WaitedFailure_from (RpcFailure INVALID_PARAMS ''state id count out of range'' (Some ''invalid_request'')
           (Some ''state_count'') (Some False) [])), w)
         else
           let state_root = (case br_state_root request of Latest \<Rightarrow> ''latest'' | Exact root \<Rightarrow> lb_hex_encode L root);
               sent_wait_ms = (case (br_state_root request, wait) of
                 (Latest, Some wr) \<Rightarrow> wait_on_wire (wq_wait_ms wr) (ro_timeout_ms options) (wq_margin_ms wr)
               | _ \<Rightarrow> None)
           in sbind (map_prod (map_err (\<lambda>f. batch_failure_waited L display f sent_wait_ms)) id
                (rpc_raw L N cl ''get_inclusion_proofs.v1''
                  (BatchParams (map (\<lambda>s. lb_hex_encode L (sid_bytes s)) ids) state_root sent_wait_ms) []
                  (Some (from_millis (unat (max (ro_timeout_ms options) 1)))) w)) (\<lambda>result w.
                (rbind (map_err (\<lambda>f. WaitedFailure_new f None sent_wait_ms)
                   (decode_batch_result L display result (sent_wait_ms \<noteq> None))) (\<lambda>(batch, waited_ms).
                   Ok (WaitedBatch_new batch waited_ms sent_wait_ms)), w)))"

definition http_batch_client ::
  "('j, 'more) libs_scheme \<Rightarrow> (HttpError \<Rightarrow> string) \<Rightarrow> 'w net \<Rightarrow> HttpAggregatorClient \<Rightarrow> 'w BatchAggregatorClient" where
  "http_batch_client L display N cl =
     \<lparr>get_inclusion_proofs = \<lambda>request options w.
        map_prod (map_err wf_failure \<circ> (\<lambda>r. rbind r (\<lambda>waited. Ok (wb_batch waited)))) id (batch_call L display N cl request options None w),
      get_inclusion_proofs_with_wait = \<lambda>request options wait w. batch_call L display N cl request options (Some wait) w\<rparr>"

end
