(* ===== verification/Http_Wait.thy ===== *)
theory Http_Wait
  imports Http_Call
begin

text \<open>
  Waiting for an inclusion proof: the deadline-based loop with long polling of \<open>client/http/wait.rs\<close>, the
  attempts loop of \<open>client/http.rs\<close>, and the operations that submit and wait. An instant is a number of
  nanoseconds. The loops end by the clock, which is a parameter; they are partial functions, and \<open>None\<close> is not
  returning.
\<close>

section \<open>Options and plans\<close>

definition DEFAULT_PREFERRED_WAIT :: duration where "DEFAULT_PREFERRED_WAIT = from_secs 20"
definition DEFAULT_MAX_REQUEST_TIMEOUT :: duration where "DEFAULT_MAX_REQUEST_TIMEOUT = from_secs 30"
definition MIN_PAUSE :: duration where "MIN_PAUSE = from_millis 10"
definition SLEEP_SLICE :: duration where "SLEEP_SLICE = from_millis 50"

record 'w WaitOptions =
  wo_total :: duration
  wo_long_poll :: bool
  wo_preferred_wait :: duration
  wo_margin :: duration
  wo_max_request_timeout :: duration
  wo_poll_interval :: "duration option"
  wo_unknown_grace :: "u32 option"
  wo_cancel :: "('w \<Rightarrow> bool \<times> 'w) option"
  wo_plain_calls_keep_request_timeout :: bool

definition WaitOptions_new :: "duration \<Rightarrow> 'w WaitOptions" where
  "WaitOptions_new tot =
     \<lparr>wo_total = tot, wo_long_poll = True, wo_preferred_wait = DEFAULT_PREFERRED_WAIT,
      wo_margin = from_millis (unat DEFAULT_WAIT_MARGIN_MS), wo_max_request_timeout = DEFAULT_MAX_REQUEST_TIMEOUT,
      wo_poll_interval = None, wo_unknown_grace = None, wo_cancel = None, wo_plain_calls_keep_request_timeout = False\<rparr>"

definition keep_plain_request_timeout :: "'w WaitOptions \<Rightarrow> 'w WaitOptions" where
  "keep_plain_request_timeout o' = o'\<lparr>wo_plain_calls_keep_request_timeout := True\<rparr>"

definition WaitOptions_with_long_poll :: "'w WaitOptions \<Rightarrow> bool \<Rightarrow> 'w WaitOptions" where
  "WaitOptions_with_long_poll o' enabled = o'\<lparr>wo_long_poll := enabled\<rparr>"

definition WaitOptions_with_preferred_wait :: "'w WaitOptions \<Rightarrow> duration \<Rightarrow> 'w WaitOptions" where
  "WaitOptions_with_preferred_wait o' wait = o'\<lparr>wo_preferred_wait := wait\<rparr>"

definition WaitOptions_with_margin :: "'w WaitOptions \<Rightarrow> duration \<Rightarrow> 'w WaitOptions" where
  "WaitOptions_with_margin o' margin = o'\<lparr>wo_margin := margin\<rparr>"

definition WaitOptions_with_max_request_timeout :: "'w WaitOptions \<Rightarrow> duration \<Rightarrow> 'w WaitOptions" where
  "WaitOptions_with_max_request_timeout o' mx = o'\<lparr>wo_max_request_timeout := mx\<rparr>"

definition WaitOptions_with_poll_interval :: "'w WaitOptions \<Rightarrow> duration \<Rightarrow> 'w WaitOptions" where
  "WaitOptions_with_poll_interval o' interval = o'\<lparr>wo_poll_interval := Some interval\<rparr>"

definition WaitOptions_with_unknown_grace :: "'w WaitOptions \<Rightarrow> u32 \<Rightarrow> 'w WaitOptions" where
  "WaitOptions_with_unknown_grace o' polls = o'\<lparr>wo_unknown_grace := Some polls\<rparr>"

definition WaitOptions_with_cancel :: "'w WaitOptions \<Rightarrow> ('w \<Rightarrow> bool \<times> 'w) \<Rightarrow> 'w WaitOptions" where
  "WaitOptions_with_cancel o' cancel = o'\<lparr>wo_cancel := Some cancel\<rparr>"

record CallPlan =
  pl_wait_ms :: "u64 option"
  pl_timeout_ms :: u64

definition plan_call :: "u64 \<Rightarrow> 'w WaitOptions \<Rightarrow> bool \<Rightarrow> CallPlan" where
  "plan_call remaining_ms options send_wait =
     (let preferred = duration_ms (wo_preferred_wait options);
          margin = duration_ms (wo_margin options);
          mx = duration_ms (wo_max_request_timeout options);
          wait = (if send_wait \<and> wo_long_poll options
            then min (min (min preferred (saturating_sub remaining_ms margin)) (saturating_sub mx margin)) MAX_WAIT_MS
            else 0)
      in if wait > 0
         then \<lparr>pl_wait_ms = Some wait, pl_timeout_ms = max (min (wait + margin) remaining_ms) 1\<rparr>
         else \<lparr>pl_wait_ms = None, pl_timeout_ms =
           (if wo_plain_calls_keep_request_timeout options then max mx 1 else max (min mx remaining_ms) 1)\<rparr>)"

text \<open>\<open>Instant::checked_add\<close> up to the latest instant of the platform.\<close>

definition instant_checked_add :: "'w net \<Rightarrow> nat \<Rightarrow> duration \<Rightarrow> nat option" where
  "instant_checked_add N t d = (if t + d \<le> nt_instant_max N then Some (t + d) else None)"

definition far_deadline :: "'w net \<Rightarrow> nat \<Rightarrow> duration \<Rightarrow> nat" where
  "far_deadline N from span =
     (case instant_checked_add N from span of
        Some t \<Rightarrow> t
      | None \<Rightarrow> (case instant_checked_add N from (from_secs (30 * 365 * 86400)) of Some t \<Rightarrow> t | None \<Rightarrow> from))"

definition is_cancelled :: "'w WaitOptions \<Rightarrow> 'w \<Rightarrow> bool \<times> 'w" where
  "is_cancelled options w = (case wo_cancel options of Some cancel \<Rightarrow> cancel w | None \<Rightarrow> (False, w))"

section \<open>The loop\<close>

partial_function (option) pause_until :: "'w net \<Rightarrow> 'w WaitOptions \<Rightarrow> nat \<Rightarrow> 'w \<Rightarrow> ('w, HttpError, unit) st option" where
  "pause_until N options stop w =
     (case is_cancelled options w of (cancelled, w) \<Rightarrow>
        if cancelled then Some (Err HttpCancelled, w)
        else
          case nt_now N w of (now, w) \<Rightarrow>
            if now \<ge> stop then Some (Ok (), w)
            else pause_until N options stop (nt_sleep N (min (stop - now) SLEEP_SLICE) w))"

definition wait_pause :: "'w net \<Rightarrow> 'w WaitOptions \<Rightarrow> duration \<Rightarrow> nat \<Rightarrow> 'w \<Rightarrow> ('w, HttpError, unit) st option" where
  "wait_pause N options tot deadline w =
     (case nt_now N w of (now, w) \<Rightarrow> pause_until N options (min (far_deadline N now tot) deadline) w)"

record WaitStats =
  wt_requests :: u32
  wt_long_poll_requests :: u32
  wt_pending :: u32
  wt_unknown :: u32
  wt_overloaded :: u32
  wt_transport_failures :: u32
  wt_immediate_rechecks :: u32
  wt_wait_dropped_for_missing_echo :: bool

definition WaitStats_default :: WaitStats where
  "WaitStats_default = \<lparr>wt_requests = 0, wt_long_poll_requests = 0, wt_pending = 0, wt_unknown = 0, wt_overloaded = 0,
     wt_transport_failures = 0, wt_immediate_rechecks = 0, wt_wait_dropped_for_missing_echo = False\<rparr>"

record WaitOutcome =
  ot_result :: "HttpError + InclusionProof"
  ot_stats :: WaitStats

text \<open>What the loop keeps between probes, and what it knows of the call in hand: the plan, the time left before
  it, and how long it took.\<close>

record wait_state =
  ws_send_wait :: bool
  ws_unknown_seen :: u32
  ws_stats :: WaitStats

record 'w wait_env =
  we_options :: "'w WaitOptions"
  we_deadline :: nat
  we_interval :: duration
  we_grace :: u32

record call_info =
  ci_plan :: CallPlan
  ci_left_ms :: u64
  ci_took :: duration

text \<open>A probe is done with a result, or the loop goes on with a state.\<close>

type_synonym 'w probe = "((HttpError + InclusionProof) + wait_state) \<times> wait_state \<times> 'w"

definition probe_done :: "HttpError + InclusionProof \<Rightarrow> wait_state \<Rightarrow> 'w \<Rightarrow> 'w probe option" where
  "probe_done r st w = Some (Inl r, st, w)"

definition probe_again :: "wait_state \<Rightarrow> 'w \<Rightarrow> 'w probe option" where
  "probe_again st w = Some (Inr st, st, w)"

definition pause_again :: "'w net \<Rightarrow> 'w wait_env \<Rightarrow> duration \<Rightarrow> wait_state \<Rightarrow> 'w \<Rightarrow> 'w probe option" where
  "pause_again N E pause st w =
     (case wait_pause N (we_options E) pause (we_deadline E) w of
        None \<Rightarrow> None
      | Some (Inl e, w) \<Rightarrow> probe_done (Err e) st w
      | Some (Inr _, w) \<Rightarrow> probe_again st w)"

text \<open>A transport-level failure of the read.\<close>

definition on_transport_failure ::
  "'w net \<Rightarrow> 'w wait_env \<Rightarrow> call_info \<Rightarrow> bool \<Rightarrow> wait_state \<Rightarrow> 'w \<Rightarrow> 'w probe option" where
  "on_transport_failure N E ci timed_out st w =
     (case is_cancelled (we_options E) w of (cancelled, w) \<Rightarrow>
        if cancelled then probe_done (Err HttpCancelled) st w
        else
          case nt_now N w of (now, w) \<Rightarrow>
            let left = we_deadline E - now
            in if left = 0 \<or> (timed_out \<and> pl_timeout_ms (ci_plan ci) \<ge> ci_left_ms ci) then probe_done (Err HttpTimeout) st w
               else
                 let st = st\<lparr>ws_send_wait := False,
                       ws_stats := (ws_stats st)\<lparr>wt_transport_failures := wt_transport_failures (ws_stats st) + 1\<rparr>\<rparr>
                 in (case transport_pause (max (we_interval E) MIN_PAUSE) left of
                       Inl e \<Rightarrow> probe_done (Err e) st w
                     | Inr pause \<Rightarrow> pause_again N E pause st w))"

definition body_timed_out :: "'j RawFailure \<Rightarrow> bool" where
  "body_timed_out failure =
     (case failure of RawHttp status body envelope retry_after too_large (Some c) \<Rightarrow> is_timed_out c | _ \<Rightarrow> False)"

text \<open>An overload answer.\<close>

definition on_overload ::
  "'w net \<Rightarrow> 'w wait_env \<Rightarrow> call_info \<Rightarrow> 'j RawFailure \<Rightarrow> duration option \<Rightarrow> wait_state \<Rightarrow> 'w \<Rightarrow> 'w probe option" where
  "on_overload N E ci failure retry_after st w =
     (case is_cancelled (we_options E) w of (cancelled, w) \<Rightarrow>
        if cancelled then probe_done (Err HttpCancelled) st w
        else
          case nt_now N w of (now, w) \<Rightarrow>
            let left = we_deadline E - now
            in if left = 0 \<or> (body_timed_out failure \<and> pl_timeout_ms (ci_plan ci) \<ge> ci_left_ms ci)
               then probe_done (Err HttpTimeout) st w
               else
                 let st = st\<lparr>ws_send_wait := (if pl_wait_ms (ci_plan ci) \<noteq> None then False else ws_send_wait st),
                       ws_stats := (ws_stats st)\<lparr>wt_overloaded := wt_overloaded (ws_stats st) + 1\<rparr>\<rparr>
                 in (case overload_pause failure retry_after (max (we_interval E) MIN_PAUSE) left of
                       Inl e \<Rightarrow> probe_done (Err e) st w
                     | Inr pause \<Rightarrow> pause_again N E pause st w))"

definition drop_wait :: "wait_state \<Rightarrow> wait_state" where
  "drop_wait st = st\<lparr>ws_send_wait := False, ws_stats := (ws_stats st)\<lparr>wt_wait_dropped_for_missing_echo := True\<rparr>\<rparr>"

definition count_pending :: "wait_state \<Rightarrow> wait_state" where
  "count_pending st = st\<lparr>ws_unknown_seen := 0, ws_stats := (ws_stats st)\<lparr>wt_pending := wt_pending (ws_stats st) + 1\<rparr>\<rparr>"

text \<open>Any other failure. A timeout of the transport does not get here.\<close>

definition on_failure ::
  "('j, 'more) libs_scheme \<Rightarrow> 'w net \<Rightarrow> 'w wait_env \<Rightarrow> call_info \<Rightarrow> 'j RawFailure \<Rightarrow> wait_state \<Rightarrow> 'w \<Rightarrow> 'w probe option" where
  "on_failure L N E ci failure st w =
     (let error_echo = (if pl_wait_ms (ci_plan ci) \<noteq> None then error_echo_of L failure else None)
      in case raw_to_http failure of
           HttpRpc code message \<Rightarrow>
             if code = RPC_INCLUSION_PENDING then
               let st = count_pending st
               in (case (case error_echo of
                      Some echo \<Rightarrow> rbind (map_err HttpDecode (parse_waited_ms L echo)) (\<lambda>_. Ok st)
                    | None \<Rightarrow> Ok (if pl_wait_ms (ci_plan ci) \<noteq> None then drop_wait st else st)) of
                    Inl e \<Rightarrow> probe_done (Err e) st w
                  | Inr st \<Rightarrow> pause_again N E (max (we_interval E) MIN_PAUSE) st w)
             else if code = RPC_STATE_NOT_FOUND then probe_done (Err StateNotFoundError) st w
             else probe_done (Err (HttpRpc code message)) st w
         | HttpStatus status body \<Rightarrow>
             probe_done (Err (if status = 404 then StateNotFoundError else HttpStatus status body)) st w
         | error \<Rightarrow> probe_done (Err error) st w)"

text \<open>A result.\<close>

definition on_result ::
  "('j, 'more) libs_scheme \<Rightarrow> 'w net \<Rightarrow> 'w wait_env \<Rightarrow> call_info \<Rightarrow> 'j \<Rightarrow> wait_state \<Rightarrow> 'w \<Rightarrow> 'w probe option" where
  "on_result L N E ci result st w =
     (case decode_v2_result L result (pl_wait_ms (ci_plan ci) \<noteq> None) of
        Inl e \<Rightarrow> probe_done (Err e) st w
      | Inr v2 \<Rightarrow>
          let st = (if pl_wait_ms (ci_plan ci) \<noteq> None \<and> v2_waited_ms v2 = None then drop_wait st else st)
          in (case v2_response v2 of
               Certified block_number p \<Rightarrow> probe_done (Ok p) st w
             | NotCertified block_number uc \<Rightarrow>
                 if v2_status v2 = Some Expired then probe_done (Err StateExpiredError) st w
                 else if v2_status v2 = Some Unknown then
                   let st = st\<lparr>ws_unknown_seen := ws_unknown_seen st + 1,
                         ws_stats := (ws_stats st)\<lparr>wt_unknown := wt_unknown (ws_stats st) + 1\<rparr>\<rparr>
                   in if ws_unknown_seen st > we_grace E then probe_done (Err StateUnknownError) st w
                      else pause_again N E (max (we_interval E) MIN_PAUSE) st w
                 else
                   let st = count_pending st;
                       proven_wait = (pl_wait_ms (ci_plan ci) \<noteq> None \<and> (case v2_waited_ms v2 of Some n \<Rightarrow> n > 0 | None \<Rightarrow> False))
                   in if proven_wait \<and> ci_took ci \<ge> max (we_interval E) MIN_PAUSE
                      then probe_again (st\<lparr>ws_stats := (ws_stats st)\<lparr>wt_immediate_rechecks := wt_immediate_rechecks (ws_stats st) + 1\<rparr>\<rparr>) w
                      else pause_again N E (if proven_wait then max (we_interval E - ci_took ci) MIN_PAUSE
                             else max (we_interval E) MIN_PAUSE) st w))"

definition on_answer ::
  "('j, 'more) libs_scheme \<Rightarrow> 'w net \<Rightarrow> 'w wait_env \<Rightarrow> call_info \<Rightarrow> 'j RawFailure + 'j \<Rightarrow> wait_state \<Rightarrow> 'w \<Rightarrow> 'w probe option" where
  "on_answer L N E ci raw st w =
     (case raw of
        Inr result \<Rightarrow> on_result L N E ci result st w
      | Inl (RawTransport m) \<Rightarrow> on_transport_failure N E ci False st w
      | Inl (RawTimedOut m) \<Rightarrow> on_transport_failure N E ci True st w
      | Inl failure \<Rightarrow>
          (case overload_of L failure of
             Some retry_after \<Rightarrow> on_overload N E ci failure retry_after st w
           | None \<Rightarrow> on_failure L N E ci failure st w))"

definition wait_probe ::
  "('j, 'more) libs_scheme \<Rightarrow> 'w net \<Rightarrow> HttpAggregatorClient \<Rightarrow> StateId \<Rightarrow> 'w wait_env \<Rightarrow> wait_state \<Rightarrow> 'w \<Rightarrow> 'w probe option" where
  "wait_probe L N cl state_id E st w =
     (case is_cancelled (we_options E) w of (cancelled, w) \<Rightarrow>
        if cancelled then probe_done (Err HttpCancelled) st w
        else
          case nt_now N w of (now, w) \<Rightarrow>
            if we_deadline E \<le> now then probe_done (Err HttpTimeout) st w
            else
              let left_ms = max (duration_ms (we_deadline E - now)) 1;
                  plan = plan_call left_ms (we_options E) (ws_send_wait st);
                  stats = ws_stats st;
                  stats = (if pl_wait_ms plan \<noteq> None then stats\<lparr>wt_long_poll_requests := wt_long_poll_requests stats + 1\<rparr> else stats);
                  st = st\<lparr>ws_stats := stats\<lparr>wt_requests := wt_requests stats + 1\<rparr>\<rparr>
              in case nt_now N w of (call_started, w) \<Rightarrow>
                 case rpc_raw L N cl ''get_inclusion_proof.v2'' (ProofParams (lb_hex_encode L (sid_bytes state_id)) (pl_wait_ms plan)) []
                     (Some (from_millis (unat (pl_timeout_ms plan)))) w of (raw, w) \<Rightarrow>
                 case nt_now N w of (call_ended, w) \<Rightarrow>
                   on_answer L N E \<lparr>ci_plan = plan, ci_left_ms = left_ms, ci_took = call_ended - call_started\<rparr> raw st w)"

partial_function (option) wait_loop ::
  "('j, 'more) libs_scheme \<Rightarrow> 'w net \<Rightarrow> HttpAggregatorClient \<Rightarrow> StateId \<Rightarrow> 'w wait_env \<Rightarrow> wait_state \<Rightarrow> 'w \<Rightarrow>
   ((HttpError + InclusionProof) \<times> WaitStats \<times> 'w) option" where
  "wait_loop L N cl state_id E st w =
     (case wait_probe L N cl state_id E st w of
        None \<Rightarrow> None
      | Some (p, st, w) \<Rightarrow>
          (case p of
             Inl r \<Rightarrow> Some (r, ws_stats st, w)
           | Inr st \<Rightarrow> wait_loop L N cl state_id E st w))"

definition wait_for_inclusion_proof_with_stats ::
  "('j, 'more) libs_scheme \<Rightarrow> 'w net \<Rightarrow> HttpAggregatorClient \<Rightarrow> StateId \<Rightarrow> 'w WaitOptions \<Rightarrow> 'w \<Rightarrow> (WaitOutcome \<times> 'w) option" where
  "wait_for_inclusion_proof_with_stats L N cl state_id options w =
     (let (started, w) = nt_now N w;
          E = \<lparr>we_options = options, we_deadline = far_deadline N started (wo_total options),
            we_interval = (case wo_poll_interval options of Some d \<Rightarrow> d | None \<Rightarrow> hc_poll_interval cl),
            we_grace = (case wo_unknown_grace options of Some g \<Rightarrow> g | None \<Rightarrow> hc_unknown_grace cl)\<rparr>
      in map_option (\<lambda>(r, stats, w). (\<lparr>ot_result = r, ot_stats = stats\<rparr>, w))
           (wait_loop L N cl state_id E \<lparr>ws_send_wait = True, ws_unknown_seen = 0, ws_stats = WaitStats_default\<rparr> w))"

definition wait_for_inclusion_proof ::
  "('j, 'more) libs_scheme \<Rightarrow> 'w net \<Rightarrow> HttpAggregatorClient \<Rightarrow> StateId \<Rightarrow> 'w WaitOptions \<Rightarrow> 'w \<Rightarrow>
   ('w, HttpError, InclusionProof) st option" where
  "wait_for_inclusion_proof L N cl state_id options w =
     map_option (\<lambda>(outcome, w). (ot_result outcome, w)) (wait_for_inclusion_proof_with_stats L N cl state_id options w)"

section \<open>The attempts loop\<close>

definition DURATION_MAX :: duration where "DURATION_MAX = from_secs (2 ^ 64 - 1) + 999999999"

fun attempts_loop ::
  "('j, 'more) libs_scheme \<Rightarrow> 'w net \<Rightarrow> HttpAggregatorClient \<Rightarrow> StateId \<Rightarrow> nat \<Rightarrow> duration \<Rightarrow> nat \<Rightarrow> u32 \<Rightarrow> 'w \<Rightarrow>
   ('w, HttpError, InclusionProof) st" where
  "attempts_loop L N cl state_id started budget 0 unknown_seen w = (Err HttpTimeout, w)"
| "attempts_loop L N cl state_id started budget (Suc n) unknown_seen w =
     (let interval = hc_poll_interval cl;
          pause_if_more = (\<lambda>w. if n > 0 then nt_sleep N interval w else w);
          (raw, w) = rpc_raw L N cl ''get_inclusion_proof.v2'' (ProofParams (lb_hex_encode L (sid_bytes state_id)) None) [] None w
      in case raw of
           Inl failure \<Rightarrow>
             (case overload_of L failure of
                Some retry_after \<Rightarrow>
                  let (now, w) = nt_now N w
                  in (case overload_pause failure retry_after interval (budget - (now - started)) of
                        Inl e \<Rightarrow> (Err e, w)
                      | Inr pause \<Rightarrow> attempts_loop L N cl state_id started budget n unknown_seen (nt_sleep N pause w))
              | None \<Rightarrow>
                  if (case failure of RawTransport _ \<Rightarrow> True | RawTimedOut _ \<Rightarrow> True | _ \<Rightarrow> False) then
                    let (now, w) = nt_now N w
                    in (case transport_pause interval (budget - (now - started)) of
                          Inl e \<Rightarrow> (Err e, w)
                        | Inr pause \<Rightarrow> attempts_loop L N cl state_id started budget n unknown_seen (nt_sleep N pause w))
                  else
                    (case raw_to_http failure of
                       HttpRpc code message \<Rightarrow>
                         if code = RPC_INCLUSION_PENDING
                         then attempts_loop L N cl state_id started budget n 0 (pause_if_more w)
                         else (Err (if code = RPC_STATE_NOT_FOUND then StateNotFoundError else HttpRpc code message), w)
                     | HttpStatus status body \<Rightarrow> (Err (if status = 404 then StateNotFoundError else HttpStatus status body), w)
                     | error \<Rightarrow> (Err error, w)))
         | Inr result \<Rightarrow>
             (case decode_v2_result L result False of
                Inl e \<Rightarrow> (Err e, w)
              | Inr v2 \<Rightarrow>
                  (case v2_response v2 of
                     Certified block_number p \<Rightarrow> (Ok p, w)
                   | NotCertified block_number uc \<Rightarrow>
                       if v2_status v2 = Some Expired then (Err StateExpiredError, w)
                       else if v2_status v2 = Some Unknown then
                         (if unknown_seen + 1 > hc_unknown_grace cl then (Err StateUnknownError, w)
                          else attempts_loop L N cl state_id started budget n (unknown_seen + 1) (pause_if_more w))
                       else attempts_loop L N cl state_id started budget n 0 (pause_if_more w))))"

definition http_get_inclusion_proof ::
  "('j, 'more) libs_scheme \<Rightarrow> 'w net \<Rightarrow> HttpAggregatorClient \<Rightarrow> StateId \<Rightarrow> 'w \<Rightarrow> ('w, HttpError, InclusionProof) st option" where
  "http_get_inclusion_proof L N cl state_id w =
     (let tot = min (hc_poll_interval cl * unat (hc_poll_attempts cl)) DURATION_MAX
      in if hc_long_poll cl \<and> tot \<noteq> 0
         then wait_for_inclusion_proof L N cl state_id (keep_plain_request_timeout (WaitOptions_new tot)) w
         else
           let (started, w) = nt_now N w
           in Some (attempts_loop L N cl state_id started tot (unat (hc_poll_attempts cl)) 0 w))"

section \<open>Submit and wait\<close>

definition conflict_error ::
  "sha2 \<Rightarrow> 'p k256 \<Rightarrow> InclusionProof \<Rightarrow> StateId \<Rightarrow> RootTrustBase \<Rightarrow> HttpError" where
  "conflict_error sha2 ec p state_id tb =
     (case InclusionProof_verify_for sha2 ec p state_id (ip_reference_time p) tb of
        Inr _ \<Rightarrow> StateCertifiedWithOtherData | Inl _ \<Rightarrow> ProofOfOtherData)"

text \<open>\<open>n\<close> is the number of resubmissions left.\<close>

primrec submit_wait_loop ::
  "nat \<Rightarrow> sha2 \<Rightarrow> ('j, 'more) libs_scheme \<Rightarrow> 'w net \<Rightarrow> HttpAggregatorClient \<Rightarrow> CertificationData \<Rightarrow> StateId \<Rightarrow>
   (InclusionProof \<Rightarrow> StateId \<Rightarrow> HttpError) \<Rightarrow> 'w \<Rightarrow> ('w, HttpError, InclusionProof) st option" where
  "submit_wait_loop 0 sha2 L N cl data state_id on_other_data w =
     map_option (\<lambda>(r, w). (rbind r (\<lambda>p. if ip_certification_data p \<noteq> data then Err (on_other_data p state_id) else Ok p), w))
       (http_get_inclusion_proof L N cl state_id w)"
| "submit_wait_loop (Suc n) sha2 L N cl data state_id on_other_data w =
     (case http_get_inclusion_proof L N cl state_id w of
        None \<Rightarrow> None
      | Some (r, w) \<Rightarrow>
          if r = Err StateUnknownError \<or> r = Err StateExpiredError
          then (case resubmit_certification_request sha2 L N cl data w of
                  (Inl e, w) \<Rightarrow> Some (Err e, w)
                | (Inr _, w) \<Rightarrow> submit_wait_loop n sha2 L N cl data state_id on_other_data w)
          else Some (rbind r (\<lambda>p. if ip_certification_data p \<noteq> data then Err (on_other_data p state_id) else Ok p), w))"

definition submit_and_wait_with ::
  "sha2 \<Rightarrow> ('j, 'more) libs_scheme \<Rightarrow> 'w net \<Rightarrow> HttpAggregatorClient \<Rightarrow> CertificationData \<Rightarrow> u32 \<Rightarrow>
   (InclusionProof \<Rightarrow> StateId \<Rightarrow> HttpError) \<Rightarrow> 'w \<Rightarrow> ('w, HttpError, InclusionProof) st option" where
  "submit_and_wait_with sha2 L N cl data max_resubmits on_other_data w =
     (let state_id = StateId_derive sha2 (cd_lock_script data) (cd_source_state_hash data)
      in case resubmit_certification_request sha2 L N cl data w of
           (Inl e, w) \<Rightarrow> Some (Err e, w)
         | (Inr _, w) \<Rightarrow> submit_wait_loop (unat max_resubmits) sha2 L N cl data state_id on_other_data w)"

definition submit_and_wait ::
  "sha2 \<Rightarrow> ('j, 'more) libs_scheme \<Rightarrow> 'w net \<Rightarrow> HttpAggregatorClient \<Rightarrow> CertificationData \<Rightarrow> u32 \<Rightarrow> 'w \<Rightarrow>
   ('w, HttpError, InclusionProof) st option" where
  "submit_and_wait sha2 L N cl data max_resubmits w =
     submit_and_wait_with sha2 L N cl data max_resubmits (\<lambda>_ _. ProofOfOtherData) w"

definition submit_and_wait_verified ::
  "sha2 \<Rightarrow> 'p k256 \<Rightarrow> ('j, 'more) libs_scheme \<Rightarrow> 'w net \<Rightarrow> HttpAggregatorClient \<Rightarrow> CertificationData \<Rightarrow> u32 \<Rightarrow>
   RootTrustBase \<Rightarrow> 'w \<Rightarrow> ('w, HttpError, InclusionProof) st option" where
  "submit_and_wait_verified sha2 ec L N cl data max_resubmits tb w =
     submit_and_wait_with sha2 L N cl data max_resubmits (\<lambda>p state_id. conflict_error sha2 ec p state_id tb) w"

datatype MembershipStatus = IncludedState InclusionProof | AbsentState NonInclusionProof

definition membership_status ::
  "('j, 'more) libs_scheme \<Rightarrow> 'w net \<Rightarrow> HttpAggregatorClient \<Rightarrow> StateId \<Rightarrow> 'w \<Rightarrow> ('w, HttpError, MembershipStatus) st option" where
  "membership_status L N cl state_id w =
     (case get_non_inclusion_proof L N cl state_id w of
        (Inr p, w) \<Rightarrow> Some (Ok (AbsentState p), w)
      | (Inl e, w) \<Rightarrow>
          if e = StateIncludedError
          then map_option (\<lambda>(r, w). (rbind r (\<lambda>p. Ok (IncludedState p)), w)) (http_get_inclusion_proof L N cl state_id w)
          else Some (Err e, w))"

end
