(* ===== verification/Consolidate.thy ===== *)
theory Consolidate
  imports Plan
begin

text \<open>
  The consolidation pipeline as a whole: a view authenticated by a seal session yields certificates that
  verify under the session's trust base, the bound is taken over verified evidence, and a token whose proofs
  are replaced from an authenticated view keeps a valid history under a single seal.
\<close>

section \<open>Certificates of an authenticated view\<close>

lemma authenticate_seal_ok:
  assumes "authenticate_seal_under sha2 ec s seal policy = (Ok (), s')"
    "session_ok sha2 ec tb Q B s" "seal \<in> Q" "inj_on (seal_key sha2) Q"
  shows "session_ok sha2 ec tb Q B s'" "validate tb = Ok ()" "us_network_id seal = tb_network_id tb"
    "us_epoch seal = tb_epoch tb" "seal_check sha2 ec tb seal = Ok ()"
proof -
  have strict: "strict_seal_check sha2 ec tb seal = Ok ()" and "session_ok sha2 ec tb Q B s'"
    using authenticate_seal_under_yields [OF assms(2-4), of policy] assms(1) by (simp_all add: yields_def)
  then show "session_ok sha2 ec tb Q B s'" "validate tb = Ok ()" "us_network_id seal = tb_network_id tb"
    "us_epoch seal = tb_epoch tb" "seal_check sha2 ec tb seal = Ok ()"
    by (auto simp: strict_seal_check_def result_simps split: if_splits)
qed

lemma derived_valid:
  assumes "av_ok sha2 av" "derived_from sha2 av l uc" "check_body uc = Ok ()"
    "computed_seal_hash sha2 uc = Ok h" "dh_data h = us_hash (uc_unicity_seal uc)"
    "us_network_id (av_seal av) = tb_network_id tb" "seal_check sha2 ec tb (av_seal av) = Ok ()"
  shows "uc_valid sha2 ec tb uc"
  using assms seal_check_iff [of sha2 ec tb "av_seal av"] by (auto simp: uc_valid_def derived_from_def av_ok_def)

text \<open>What a consumer relies on of a certificate of the view.\<close>

definition certified_by :: "sha2 \<Rightarrow> 'p k256 \<Rightarrow> RootTrustBase \<Rightarrow> UnicitySeal \<Rightarrow> PartitionViewLeaf \<Rightarrow> ShardCertificate \<Rightarrow> bool" where
  "certified_by sha2 ec tb seal l c \<longleftrightarrow>
     (\<exists>uc. sc_certificate c = Some uc \<and> stc_shard (uc_shard_tree_certificate uc) = lf_shard_id l \<and>
        uc_input_record uc = to_input_record (lf_input_record l) \<and> uc_unicity_seal uc = seal \<and> uc_valid sha2 ec tb uc)"

lemma authenticated_ok:
  assumes "PartitionView_wf view" "authenticate sha2 ec view enclosing pins s = Some (Ok av, s')"
    "session_ok sha2 ec tb Q B s" "uc_unicity_seal enclosing \<in> Q" "inj_on (seal_key sha2) Q"
  shows "av_ok sha2 av" "av_leaves av = pw_leaves view" "av_seal av = uc_unicity_seal enclosing"
    "us_network_id (av_seal av) = tb_network_id tb" "seal_check sha2 ec tb (av_seal av) = Ok ()"
proof -
  note a = authenticate_with_ok [OF assms(2) [unfolded authenticate_def] assms(1)]
  note b = authenticate_seal_ok [OF a(6) assms(3-5)]
  show "av_ok sha2 av" "av_leaves av = pw_leaves view" "av_seal av = uc_unicity_seal enclosing"
    "us_network_id (av_seal av) = tb_network_id tb" "seal_check sha2 ec tb (av_seal av) = Ok ()"
    using a b by auto
qed

theorem authenticated_certificates:
  assumes "PartitionView_wf view" "authenticate sha2 ec view enclosing pins s = Some (Ok av, s')"
    "session_ok sha2 ec tb Q B s" "uc_unicity_seal enclosing \<in> Q" "inj_on (seal_key sha2) Q"
  shows "\<exists>cs. certificates av = Some (Ok cs) \<and>
    list_all2 (certified_by sha2 ec tb (uc_unicity_seal enclosing)) (pw_leaves view) cs"
proof -
  note a = authenticated_ok [OF assms]
  from certificates_ok [OF a(1)] obtain cs where cs: "certificates av = Some (Ok cs)"
    "list_all2 (\<lambda>l c. sc_shard_id c = lf_shard_id l \<and>
      (\<exists>uc. sc_certificate c = Some uc \<and> derived_from sha2 av l uc \<and> check_body uc = Ok () \<and>
        (\<exists>h. computed_seal_hash sha2 uc = Ok h \<and> dh_data h = us_hash (uc_unicity_seal uc)))) (av_leaves av) cs" by blast
  from cs(2) have "list_all2 (certified_by sha2 ec tb (uc_unicity_seal enclosing)) (av_leaves av) cs"
  proof (rule list_all2_mono)
    fix l :: PartitionViewLeaf and c :: ShardCertificate
    assume "sc_shard_id c = lf_shard_id l \<and>
      (\<exists>uc. sc_certificate c = Some uc \<and> derived_from sha2 av l uc \<and> check_body uc = Ok () \<and>
        (\<exists>h. computed_seal_hash sha2 uc = Ok h \<and> dh_data h = us_hash (uc_unicity_seal uc)))"
    then obtain uc h where uc: "sc_certificate c = Some uc" "derived_from sha2 av l uc" "check_body uc = Ok ()"
      "computed_seal_hash sha2 uc = Ok h" "dh_data h = us_hash (uc_unicity_seal uc)" by blast
    have "uc_valid sha2 ec tb uc" by (rule derived_valid [OF a(1) uc(2-5) a(4,5)])
    then show "certified_by sha2 ec tb (uc_unicity_seal enclosing) l c"
      using uc(1,2) a(3) by (auto simp: certified_by_def derived_from_def)
  qed
  then show ?thesis using cs(1) a(2) by auto
qed

lemma certificate_of_ok:
  assumes ok: "av_ok sha2 av" and shard: "ShardId_wf shard" and c: "certificate_of av shard = Some (Ok c)"
  shows "\<exists>l\<in>set (av_leaves av). \<exists>uc h. lf_shard_id l = shard \<and> sc_certificate c = Some uc \<and> derived_from sha2 av l uc \<and>
    check_body uc = Ok () \<and> computed_seal_hash sha2 uc = Ok h \<and> dh_data h = us_hash (uc_unicity_seal uc)"
proof -
  obtain i where i: "binary_search_by (\<lambda>l. canonical_cmp (lf_shard_id l) shard) (av_leaves av) = Some i" "derive av i = Some (Ok c)"
    using c by (auto simp: certificate_of_def split: option.splits)
  let ?l = "av_leaves av ! i"
  have bound: "i < length (av_leaves av)" "canonical_cmp (lf_shard_id ?l) shard = Equal" using binary_search_by_Some [OF i(1)] by auto
  obtain t where t: "view_tree_ok sha2 (av_leaves av) (av_tree av) t" using ok by (auto simp: av_ok_def)
  have l: "?l \<in> set (av_leaves av)" using bound(1) by simp
  have "lf_shard_id ?l = shard"
    using bound(2) leaf_in_tree(2) [OF t l] shard bool_order.cmp_Equal shard_bits_inj by (auto simp: canonical_cmp_cmp_bools)
  then show ?thesis using derive_ok [OF ok bound(1)] i(2) l by fastforce
qed

section \<open>Assembly always returns\<close>

theorem assemble_returns:
  assumes wf: "PartitionView_wf view"
  shows "\<exists>r s'. assemble_certificates sha2 authority view enclosing topology s = Some (r, s')"
proof -
  obtain r where r: "verify_tree sha2 view enclosing topology = Some r" using verify_tree_returns [OF wf] by blast
  then have "\<exists>x. authenticate_with sha2 authority view enclosing (Some topology) s (replicate 32 0) = Some x"
    by (cases r) (simp_all add: authenticate_with_def Let_def)
  then obtain a s1 where a: "authenticate_with sha2 authority view enclosing (Some topology) s (replicate 32 0) = Some (a, s1)" by auto
  have "\<exists>cs. certificates av = Some (Ok cs)" if "a = Ok av" for av
    using certificates_ok [OF authenticate_with_ok(1) [OF a [unfolded that] wf]] by blast
  then show ?thesis using a
    by (cases a) (fastforce simp: assemble_certificates_def split: sum.split)+
qed

section \<open>The bound of verified evidence\<close>

lemma verify_evidence_ok:
  assumes "plain_session sha2 ec tb Q s" "inj_on (seal_key sha2) Q"
    "\<forall>(i, p)\<in>set evidence. uc_unicity_seal (ip_unicity_certificate p) \<in> Q"
    "fst (verify_evidence sha2 ec evidence s) = Ok ()"
  shows "\<forall>(i, p)\<in>set evidence. membership_check sha2 ec tb p i (ip_reference_time p) = Ok ()"
  using assms
proof (induction sha2 ec evidence s rule: verify_evidence.induct)
  case (2 sha2 ec i p evidence s)
  let ?m = "verify_membership_in sha2 ec s p i (ip_reference_time p)"
  have y: "yields (plain_session sha2 ec tb Q) ?m (membership_check sha2 ec tb p i (ip_reference_time p))"
    unfolding verify_membership_in_def
    by (rule verify_membership_under_yields [OF "2.prems"(1,2)]) (use "2.prems"(3) in \<open>auto simp: body_ok_def\<close>)
  have ok: "fst ?m = Ok ()" "fst (verify_evidence sha2 ec evidence (snd ?m)) = Ok ()"
    using "2.prems"(4) by (auto simp: result_simps)
  have "\<forall>(i, p)\<in>set evidence. membership_check sha2 ec tb p i (ip_reference_time p) = Ok ()"
  proof (rule "2.IH")
    show "?m = (Inr (), snd ?m)" using ok(1) by (metis prod.collapse)
  qed (use y "2.prems" ok(2) in \<open>auto simp: yields_def\<close>)
  then show ?case using y ok(1) by (simp add: yields_def)
qed simp

theorem from_proofs_bound:
  assumes "plain_session sha2 ec tb Q s" "inj_on (seal_key sha2) Q"
    "\<forall>(i, p)\<in>set evidence. uc_unicity_seal (ip_unicity_certificate p) \<in> Q"
    and ok: "fst (RootRoundBound_from_proofs sha2 ec router evidence s) = Ok b"
  shows "\<forall>(i, p)\<in>set evidence. membership_check sha2 ec tb p i (ip_reference_time p) = Ok () \<and> seal_round p \<le> rb_round b"
    "\<exists>before i p after. evidence = before @ (i, p) # after \<and> rb_round b = seal_round p \<and> rb_shard b = route router i \<and>
       (\<forall>(j, q)\<in>set before. seal_round q < rb_round b)"
proof -
  let ?routed = "map (\<lambda>(i, p). (p, route_index router i)) evidence"
  have v: "fst (verify_evidence sha2 ec evidence s) = Ok ()" and r: "RootRoundBound_from_routed router ?routed = Ok b"
    using ok by (auto simp: RootRoundBound_from_proofs_def result_simps)
  obtain before p k after where n: "?routed = before @ (p, k) # after" "rb_round b = seal_round p" "rb_shard b = rt_shards router ! k"
    "\<forall>(q, j)\<in>set ?routed. seal_round q \<le> rb_round b" "\<forall>(q, j)\<in>set before. seal_round q < rb_round b"
    using from_routed_newest [OF r] by blast
  show "\<forall>(i, p)\<in>set evidence. membership_check sha2 ec tb p i (ip_reference_time p) = Ok () \<and> seal_round p \<le> rb_round b"
    using verify_evidence_ok [OF assms(1-3) v] n(4) by fastforce
  obtain b' x a' where e: "evidence = b' @ x # a'" "before = map (\<lambda>(i, p). (p, route_index router i)) b'"
      "(p, k) = (case x of (i, p) \<Rightarrow> (p, route_index router i))"
    using n(1) by (auto simp: map_eq_append_conv map_eq_Cons_conv)
  then show "\<exists>before i p after. evidence = before @ (i, p) # after \<and> rb_round b = seal_round p \<and> rb_shard b = route router i \<and>
       (\<forall>(j, q)\<in>set before. seal_round q < rb_round b)"
    using n(2,3,5) by (cases x) (fastforce simp: route_def)
qed

section \<open>Consolidated tokens\<close>

text \<open>\<open>p\<close> replaces the proof \<open>out\<close> by a served path, which nothing has checked, and the certificate of the view
  for the routed shard.\<close>

definition replaces :: "AuthenticatedView \<Rightarrow> ShardRouter \<Rightarrow> OuterProof \<Rightarrow> InclusionProof \<Rightarrow> bool" where
  "replaces av router out p \<longleftrightarrow>
     (\<exists>served c uc. certificate_of av (route router (op_state_id out)) = Some (Ok c) \<and> sc_certificate c = Some uc \<and>
        replacement_proof (op_proof out) served uc = Ok p)"

text \<open>What is left to check: the reference time and the served path under the certified state root.\<close>

definition path_checked :: "sha2 \<Rightarrow> OuterProof \<Rightarrow> InclusionProof \<Rightarrow> bool" where
  "path_checked sha2 out p \<longleftrightarrow> ip_reference_time p \<le> ir_timestamp (uc_input_record (ip_unicity_certificate p)) \<and>
     state_proved sha2 p (op_state_id out) (cd_transaction_hash (ip_certification_data p))"

lemma replaces_certified:
  assumes r: "ShardRouter_new topology = Ok router" "\<forall>s\<in>set (pt_scheme topology). ShardId_wf s"
    and av: "av_ok sha2 av" "us_network_id (av_seal av) = tb_network_id tb" "seal_check sha2 ec tb (av_seal av) = Ok ()"
    and c: "replaces av router out p" "length (sid_bytes (op_state_id out)) = 32"
  shows "path_valid sha2 ec tb (op_state_id out) p \<longleftrightarrow> path_checked sha2 out p"
    "uc_unicity_seal (ip_unicity_certificate p) = av_seal av" "\<exists>served uc. replacement_proof (op_proof out) served uc = Ok p"
proof -
  let ?s = "route router (op_state_id out)"
  obtain served cc uc where cc: "certificate_of av ?s = Some (Ok cc)" "sc_certificate cc = Some uc"
    "replacement_proof (op_proof out) served uc = Ok p"
    using c(1) unfolding replaces_def by blast
  have order: "canonical_order topology = Ok (rt_shards router)" using r(1) by (auto simp: ShardRouter_new_def result_simps)
  note routed = route_unique [OF r(2,1) c(2)]
  have wf: "ShardId_wf ?s" using canonical_order_tree(2) [OF _ order routed(1)] r(2) by blast
  obtain l h where l: "l \<in> set (av_leaves av)" "lf_shard_id l = ?s" "derived_from sha2 av l uc" "check_body uc = Ok ()"
    "computed_seal_hash sha2 uc = Ok h" "dh_data h = us_hash (uc_unicity_seal uc)"
    using certificate_of_ok [OF av(1) wf cc(1)] cc(2) by auto
  have p: "ip_unicity_certificate p = uc" using cc(3) by (auto simp: replacement_proof_def split: if_splits)
  have "uc_valid sha2 ec tb uc" by (rule derived_valid [OF av(1) l(3-6) av(2,3)])
  then show "path_valid sha2 ec tb (op_state_id out) p \<longleftrightarrow> path_checked sha2 out p"
    using p l(2,3) routed by (simp add: path_valid_def path_checked_def derived_from_def)
  show "uc_unicity_seal (ip_unicity_certificate p) = av_seal av" using p l(3) by (simp add: derived_from_def)
  show "\<exists>served uc. replacement_proof (op_proof out) served uc = Ok p" using cc(3) by blast
qed

lemma replaced_proof_valid_iff:
  assumes "proof_valid sha2 ec tb tx original" "replacement_proof original served uc = Ok p"
    and "path_valid sha2 ec tb sid p \<longleftrightarrow> path_checked sha2 out p"
    and "sid = StateId_derive sha2 (tx_lock_script tx) (tx_source_state_hash tx)" "op_state_id out = sid"
  shows "proof_valid sha2 ec tb tx p \<longleftrightarrow> path_checked sha2 out p"
proof
  assume "path_checked sha2 out p"
  then show "proof_valid sha2 ec tb tx p" using replaced_proof_valid [OF assms(1,2)] assms(3,4) by simp
next
  have "ip_certification_data p = ip_certification_data original"
    using assms(2) by (auto simp: replacement_proof_def split: if_splits)
  moreover have "cd_transaction_hash (ip_certification_data original) = calculate_transaction_hash sha2 tx"
    using assms(1) unfolding proof_valid_def Let_def
    by (metis CertificationData_from_transaction_def CertificationData.select_convs(3))
  moreover assume "proof_valid sha2 ec tb tx p"
  ultimately show "path_checked sha2 out p" using assms(4,5) by (simp add: proof_valid_def path_checked_def Let_def)
qed

text \<open>The transactions and the proofs of a token, genesis first.\<close>

definition history_views :: "sha2 \<Rightarrow> Token \<Rightarrow> Transaction list" where
  "history_views sha2 token =
     mint_view sha2 (cm_transaction (tk_genesis token)) # map (\<lambda>t. transfer_view sha2 (ct_transaction t)) (tk_transactions token)"

definition state_of :: "sha2 \<Rightarrow> Transaction \<Rightarrow> StateId" where
  "state_of sha2 tx = StateId_derive sha2 (tx_lock_script tx) (tx_source_state_hash tx)"

lemma outer_proofs_alt:
  "map op_proof (outer_proofs sha2 token) = token_proofs token"
  "map op_state_id (outer_proofs sha2 token) = map (state_of sha2) (history_views sha2 token)"
  using map_map [of "\<lambda>t. state_of sha2 (transfer_view sha2 (ct_transaction t))" snd "enumerate 0 (tk_transactions token)"]
    map_map [of ct_inclusion_proof snd "enumerate 0 (tk_transactions token)"]
  by (simp_all add: outer_proofs_def case_prod_beta comp_def history_views_def token_proofs_def state_of_def)

lemma proof_valid_binding:
  assumes "proof_valid sha2 ec tb tx p"
  shows "cd_lock_script (ip_certification_data p) = tx_lock_script tx"
  using assms unfolding proof_valid_def Let_def
  by (metis CertificationData_from_transaction_def CertificationData.select_convs(1))

lemma history_ok_alt:
  "history_ok sha2 ec tb token \<longleftrightarrow>
     mt_network_id (cm_transaction (tk_genesis token)) = tb_network_id tb \<and>
     (\<exists>key. Minter_public_key sha2 ec (mt_token_id (cm_transaction (tk_genesis token))) = Ok key \<and>
        mt_lock_script (cm_transaction (tk_genesis token)) = SignaturePredicate_to_encoded \<lparr>sp_public_key = key\<rparr>) \<and>
     list_all2 (proof_valid sha2 ec tb) (history_views sha2 token) (token_proofs token)"
proof -
  have "tx_lock_script (mint_view sha2 m) = mt_lock_script m" for m by (simp add: mint_view_def)
  then show ?thesis
    using proof_valid_binding [of sha2 ec tb "mint_view sha2 (cm_transaction (tk_genesis token))" "cm_inclusion_proof (tk_genesis token)"]
    by (auto simp: history_ok_def minted_def history_views_def token_proofs_def list_all2_map1 list_all2_map2 list_all2_same)
qed

lemma rebuilt_token_parts:
  assumes "rebuild_token token proofs = Ok token'"
  shows "history_views sha2 token' = history_views sha2 token" "token_proofs token' = proofs"
    "cm_transaction (tk_genesis token') = cm_transaction (tk_genesis token)"
proof -
  note same = rebuild_token_iff [THEN iffD1, OF assms]
  have "map (\<lambda>t. transfer_view sha2 (ct_transaction t)) (tk_transactions token') =
      map (\<lambda>t. transfer_view sha2 (ct_transaction t)) (tk_transactions token)"
    using arg_cong [OF same [THEN conjunct2, THEN conjunct1], of "map (transfer_view sha2)"] by (simp add: comp_def)
  then show "history_views sha2 token' = history_views sha2 token" "token_proofs token' = proofs"
    "cm_transaction (tk_genesis token') = cm_transaction (tk_genesis token)"
    using same by (simp_all add: history_views_def token_proofs_def)
qed

text \<open>Consolidation keeps the transactions and leaves one seal; the rebuilt history is checked exactly when the
  served paths are.\<close>

theorem consolidated_history:
  assumes r: "ShardRouter_new topology = Ok router" "\<forall>s\<in>set (pt_scheme topology). ShardId_wf s"
    and av: "av_ok sha2 av" "us_network_id (av_seal av) = tb_network_id tb" "seal_check sha2 ec tb (av_seal av) = Ok ()"
    and len: "sha2_lengths sha2" and token: "history_ok sha2 ec tb token"
    and repl: "list_all2 (replaces av router) (outer_proofs sha2 token) proofs"
    and rebuilt: "rebuild_token token proofs = Ok token'"
  shows "history_ok sha2 ec tb token' \<longleftrightarrow> list_all2 (path_checked sha2) (outer_proofs sha2 token) proofs"
    "distinct_seals (map op_proof (outer_proofs sha2 token')) = 1"
proof -
  let ?os = "outer_proofs sha2 token"
  note parts = rebuilt_token_parts [OF rebuilt]
  have each: "(proof_valid sha2 ec tb (history_views sha2 token ! i) (proofs ! i) \<longleftrightarrow> path_checked sha2 (?os ! i) (proofs ! i)) \<and>
      uc_unicity_seal (ip_unicity_certificate (proofs ! i)) = av_seal av" if "i < length proofs" for i
  proof -
    have i: "i < length ?os" "i < length (history_views sha2 token)" "i < length (token_proofs token)"
      using that list_all2_lengthD [OF repl] arg_cong [OF outer_proofs_alt(1) [of sha2 token], of length]
        arg_cong [OF outer_proofs_alt(2) [of sha2 token], of length] by simp_all
    have sid: "op_state_id (?os ! i) = state_of sha2 (history_views sha2 token ! i)" "op_proof (?os ! i) = token_proofs token ! i"
      using i outer_proofs_alt [of sha2 token] by (metis nth_map)+
    have orig: "proof_valid sha2 ec tb (history_views sha2 token ! i) (op_proof (?os ! i))"
      using token i sid(2) by (auto simp: history_ok_alt list_all2_conv_all_nth)
    have "length (sid_bytes (op_state_id (?os ! i))) = 32" unfolding sid using len by (simp add: state_of_def StateId_derive_def sha2_lengths_def)
    note c = replaces_certified [OF r av list_all2_nthD [OF repl i(1)] this]
    obtain served uc where "replacement_proof (op_proof (?os ! i)) served uc = Ok (proofs ! i)" using c(3) by blast
    from replaced_proof_valid_iff [OF orig this c(1)] sid(1) c(2) show ?thesis by (simp add: state_of_def)
  qed
  have lens: "length proofs = length (history_views sha2 token)" "length proofs = length ?os" "proofs \<noteq> []"
    using list_all2_lengthD [OF repl] arg_cong [OF outer_proofs_alt(2) [of sha2 token], of length]
    by (auto simp: history_views_def)
  then show "history_ok sha2 ec tb token' \<longleftrightarrow> list_all2 (path_checked sha2) ?os proofs"
    using token each by (auto simp: history_ok_alt parts list_all2_conv_all_nth)
  have "set (map (\<lambda>p. UnicitySeal_to_cbor (uc_unicity_seal (ip_unicity_certificate p))) proofs) = {UnicitySeal_to_cbor (av_seal av)}"
  proof -
    have "uc_unicity_seal (ip_unicity_certificate p) = av_seal av" if "p \<in> set proofs" for p
      using that each by (auto simp: in_set_conv_nth)
    then have "(\<lambda>p. UnicitySeal_to_cbor (uc_unicity_seal (ip_unicity_certificate p))) ` set proofs =
        (\<lambda>p. UnicitySeal_to_cbor (av_seal av)) ` set proofs" by (intro image_cong) auto
    then show ?thesis using lens(3) by (simp add: image_constant_conv)
  qed
  then show "distinct_seals (map op_proof (outer_proofs sha2 token')) = 1"
    unfolding outer_proofs_alt(1) parts(2) by (simp add: distinct_seals_def)
qed

end
