(* ===== verification/Rsmst.thy ===== *)
theory Rsmst
  imports Radix Wire
begin

text \<open>
  Radix sparse Merkle sum trees (\<open>src/src/rsmst/\<close>): amounts, hashes, inclusion proofs with their
  verifier and wire form, and the builder. A \<open>BigUint\<close> is a natural number.
\<close>

section \<open>Amounts\<close>

text \<open>\<open>BigUint::bits\<close> and \<open>BigUint::to_bytes_be\<close>; zero has the one byte \<open>0\<close>.\<close>

fun biguint_bits :: "nat \<Rightarrow> nat" where
  "biguint_bits n = (if n = 0 then 0 else Suc (biguint_bits (n div 2)))"

fun biguint_to_bytes_be :: "nat \<Rightarrow> bytes" where
  "biguint_to_bytes_be n =
     (if n < 256 then [word_of_nat n] else biguint_to_bytes_be (n div 256) @ [word_of_nat (n mod 256)])"

declare biguint_bits.simps [simp del] biguint_to_bytes_be.simps [simp del]

definition RSMST_LEAF :: u8 where "RSMST_LEAF = 0x10"
definition RSMST_NODE :: u8 where "RSMST_NODE = 0x11"
definition AMOUNT_MAX_BYTES :: usize where "AMOUNT_MAX_BYTES = 32"
definition MAX_PROOF_STEPS :: usize where "MAX_PROOF_STEPS = 256"

definition encode_amount :: "nat \<Rightarrow> bytes" where
  "encode_amount v = (if v = 0 then [] else biguint_to_bytes_be v)"

definition decode_positive_amount :: "bytes \<Rightarrow> Error + nat" where
  "decode_positive_amount bytes =
     (if bytes = [] then Err (OutOfRange ''amount must be positive'')
      else if length bytes > AMOUNT_MAX_BYTES then Err (OutOfRange ''amount exceeds 256 bits'')
      else if bytes ! 0 = 0 then Err (Cbor NonCanonicalEncoding)
      else Ok (nat_of_be bytes))"

definition is_valid_amount :: "nat \<Rightarrow> bool" where
  "is_valid_amount v \<longleftrightarrow> v \<noteq> 0 \<and> biguint_bits v \<le> 256"

definition u256_be :: "nat \<Rightarrow> bytes option" where
  "u256_be v =
     (let bytes = biguint_to_bytes_be v
      in if length bytes > AMOUNT_MAX_BYTES then None
         else Some (replicate (AMOUNT_MAX_BYTES - length bytes) 0 @ bytes))"

section \<open>Hashes\<close>

definition sha256_raw :: "sha2 \<Rightarrow> bytes list \<Rightarrow> bytes" where
  "sha256_raw sha2 parts = dh_data (sha256 sha2 (concat parts))"

definition leaf_hash :: "sha2 \<Rightarrow> bytes \<Rightarrow> bytes \<Rightarrow> nat \<Rightarrow> bytes option" where
  "leaf_hash sha2 key data v =
     Option.bind (u256_be v) (\<lambda>amount. Some (sha256_raw sha2 [[RSMST_LEAF], key, data, amount]))"

definition node_hash :: "sha2 \<Rightarrow> u8 \<Rightarrow> bytes \<times> nat \<Rightarrow> bytes \<times> nat \<Rightarrow> (bytes \<times> nat) option" where
  "node_hash sha2 depth left right =
     (let sum = snd left + snd right
      in if biguint_bits sum > 256 then None
         else Option.bind (u256_be (snd left)) (\<lambda>left_sum.
              Option.bind (u256_be (snd right)) (\<lambda>right_sum.
                Some (sha256_raw sha2 [[RSMST_NODE], [depth], fst left, left_sum, fst right, right_sum],
                  sum))))"

definition key_bit :: "bytes \<Rightarrow> u8 \<Rightarrow> bool" where
  "key_bit key index = bit_at key (unat index)"

section \<open>Inclusion proofs\<close>

record RsmstProofStep =
  rs_depth :: u8
  rs_hash :: bytes
  rs_sum :: nat

definition u8_try_from :: "string \<Rightarrow> u64 \<Rightarrow> Error + u8" where
  "u8_try_from what v = (if v \<le> 0xff then Ok (ucast v) else Err (OutOfRange what))"

text \<open>A field of exactly 32 bytes; the error reports the length 0 whatever the length is.\<close>

definition array32_field :: "string \<Rightarrow> Decoder \<Rightarrow> Error + bytes" where
  "array32_field what d =
     rbind (map_err Cbor (bytes_value d)) (\<lambda>b. if length b = 32 then Ok b else Err (InvalidLength what 32 0))"

definition RsmstProofStep_from_cbor :: "Decoder \<Rightarrow> Error + RsmstProofStep" where
  "RsmstProofStep_from_cbor d =
     rbind (map_err Cbor (array d (Some 3))) (\<lambda>items.
     rbind (map_err Cbor (uint_value (items ! 0))) (\<lambda>v.
     rbind (u8_try_from ''RSMST proof depth exceeds 255'' v) (\<lambda>depth.
     rbind (array32_field ''RSMST sibling hash'' (items ! 1)) (\<lambda>hash.
     rbind (map_err Cbor (bytes_value (items ! 2))) (\<lambda>b.
     rbind (decode_positive_amount b) (\<lambda>sum.
       Ok \<lparr>rs_depth = depth, rs_hash = hash, rs_sum = sum\<rparr>))))))"

definition RsmstProofStep_to_cbor :: "RsmstProofStep \<Rightarrow> bytes" where
  "RsmstProofStep_to_cbor s =
     encode_array [encode_uint (ucast (rs_depth s)), encode_byte_string (rs_hash s),
       encode_byte_string (encode_amount (rs_sum s))]"

record RsmstInclusionProof =
  rp_steps :: "RsmstProofStep list"

fun decode_steps :: "Decoder list \<Rightarrow> u8 option \<Rightarrow> Error + RsmstProofStep list" where
  "decode_steps [] prev_depth = Ok []"
| "decode_steps (entry # rest) prev_depth =
     rbind (RsmstProofStep_from_cbor entry) (\<lambda>step.
       if is_some_and prev_depth (\<lambda>previous. rs_depth step \<ge> previous)
       then Err (UnexpectedValue ''RSMST proof depths are not strictly decreasing'')
       else rbind (decode_steps rest (Some (rs_depth step))) (\<lambda>steps. Ok (step # steps)))"

definition RsmstInclusionProof_from_cbor :: "Decoder \<Rightarrow> Error + RsmstInclusionProof" where
  "RsmstInclusionProof_from_cbor d =
     rbind (map_err Cbor (array d None)) (\<lambda>encoded.
       if length encoded > MAX_PROOF_STEPS then Err (OutOfRange ''RSMST proof has too many steps'')
       else rbind (decode_steps encoded None) (\<lambda>steps. Ok \<lparr>rp_steps = steps\<rparr>))"

definition RsmstInclusionProof_to_cbor :: "RsmstInclusionProof \<Rightarrow> bytes" where
  "RsmstInclusionProof_to_cbor p = encode_array (map RsmstProofStep_to_cbor (rp_steps p))"

fun fold_steps_up ::
  "sha2 \<Rightarrow> bytes \<Rightarrow> RsmstProofStep list \<Rightarrow> bytes \<times> nat \<Rightarrow> nat \<Rightarrow> (bytes \<times> nat) option" where
  "fold_steps_up sha2 key [] node prev_depth = Some node"
| "fold_steps_up sha2 key (step # steps) node prev_depth =
     (if unat (rs_depth step) \<ge> prev_depth \<or> \<not> is_valid_amount (rs_sum step) then None
      else Option.bind
        (if key_bit key (rs_depth step)
         then node_hash sha2 (rs_depth step) (rs_hash step, rs_sum step) node
         else node_hash sha2 (rs_depth step) node (rs_hash step, rs_sum step))
        (\<lambda>next. fold_steps_up sha2 key steps next (unat (rs_depth step))))"

definition RsmstInclusionProof_verify ::
  "sha2 \<Rightarrow> RsmstInclusionProof \<Rightarrow> bytes \<Rightarrow> bytes \<Rightarrow> nat \<Rightarrow> bytes \<Rightarrow> nat option" where
  "RsmstInclusionProof_verify sha2 p key data v root =
     (if \<not> is_valid_amount v \<or> length (rp_steps p) > MAX_PROOF_STEPS then None
      else Option.bind (leaf_hash sha2 key data v) (\<lambda>h.
           Option.bind (fold_steps_up sha2 key (rp_steps p) (h, v) 256) (\<lambda>(hash, sum).
             if hash = root then Some sum else None)))"

section \<open>The builder\<close>

record Leaf =
  lf_key :: bytes
  lf_value :: nat
  lf_hash :: bytes

datatype Node =
    LeafNode Leaf
  | Branch u8 Node Node bytes nat

primrec Node_hash :: "Node \<Rightarrow> bytes" where
  "Node_hash (LeafNode l) = lf_hash l"
| "Node_hash (Branch depth left right hash amount) = hash"

primrec Node_sum :: "Node \<Rightarrow> nat" where
  "Node_sum (LeafNode l) = lf_value l"
| "Node_sum (Branch depth left right hash amount) = amount"

record Rsmst =
  rt_leaves :: "Leaf list"

definition Rsmst_new :: Rsmst where
  "Rsmst_new = \<lparr>rt_leaves = []\<rparr>"

definition Rsmst_insert :: "sha2 \<Rightarrow> Rsmst \<Rightarrow> bytes \<Rightarrow> bytes \<Rightarrow> nat \<Rightarrow> Error + Rsmst" where
  "Rsmst_insert sha2 t key data v =
     (if \<not> is_valid_amount v then Err (OutOfRange ''RSMST leaf amount must be in 1..2^256'')
      else if list_ex (\<lambda>l. lf_key l = key) (rt_leaves t)
      then Err (UnexpectedValue ''duplicate RSMST leaf key'')
      else rbind (ok_or (OutOfRange ''RSMST leaf amount'') (leaf_hash sha2 key data v)) (\<lambda>hash.
        Ok (t\<lparr>rt_leaves := rt_leaves t @ [\<lparr>lf_key = key, lf_value = v, lf_hash = hash\<rparr>]\<rparr>)))"

definition Rsmst_len :: "Rsmst \<Rightarrow> usize" where
  "Rsmst_len t = length (rt_leaves t)"

definition Rsmst_is_empty :: "Rsmst \<Rightarrow> bool" where
  "Rsmst_is_empty t \<longleftrightarrow> rt_leaves t = []"

text \<open>The search for the lowest bit at or above \<open>depth\<close> at which the keys disagree.\<close>

function bifurcation :: "Leaf list \<Rightarrow> nat \<Rightarrow> nat option" where
  "bifurcation leaves depth =
     (if depth > 255 then None
      else if list_ex (\<lambda>l. key_bit (lf_key l) (word_of_nat depth) \<noteq>
                key_bit (lf_key (leaves ! 0)) (word_of_nat depth)) leaves
      then Some depth
      else bifurcation leaves (depth + 1))"
  by pat_completeness auto
termination
  by (relation "measure (\<lambda>(leaves, depth). 256 - depth)") auto

declare bifurcation.simps [simp del]

lemma bifurcation_bounds: "bifurcation leaves s = Some d \<Longrightarrow> s \<le> d \<and> d < 256"
proof (induction leaves s rule: bifurcation.induct)
  case (1 leaves depth)
  show ?case
    using 1(1) 1(2) unfolding bifurcation.simps [of leaves depth] by (fastforce split: if_splits)
qed

function build_subtree :: "sha2 \<Rightarrow> Leaf list \<Rightarrow> nat \<Rightarrow> Error + Node" where
  "build_subtree sha2 leaves start_bit =
     (if length leaves = 1 then Ok (LeafNode (last leaves))
      else case bifurcation leaves start_bit of
        None \<Rightarrow> Err (UnexpectedValue ''duplicate RSMST leaf key'')
      | Some b \<Rightarrow>
          let depth = word_of_nat b;
              left = filter (\<lambda>l. \<not> key_bit (lf_key l) depth) leaves;
              right = filter (\<lambda>l. key_bit (lf_key l) depth) leaves;
              next_bit = b + 1
          in rbind (build_subtree sha2 left next_bit) (\<lambda>lnode.
             rbind (build_subtree sha2 right next_bit) (\<lambda>rnode.
             rbind (ok_or (OutOfRange ''RSMST internal sum exceeds 256 bits'')
                 (node_hash sha2 depth (Node_hash lnode, Node_sum lnode) (Node_hash rnode, Node_sum rnode)))
               (\<lambda>(hash, sum). Ok (Branch depth lnode rnode hash sum)))))"
  by pat_completeness auto
termination
  by (relation "measure (\<lambda>(sha2, leaves, s). 256 - s)") (auto dest!: bifurcation_bounds)

declare build_subtree.simps [simp del]

record BuiltRsmst =
  br_root :: Node

definition Rsmst_build :: "sha2 \<Rightarrow> Rsmst \<Rightarrow> Error + BuiltRsmst" where
  "Rsmst_build sha2 t =
     (if rt_leaves t = [] then Err (UnexpectedValue ''RSMST must have at least one leaf'')
      else rbind (build_subtree sha2 (rt_leaves t) 0) (\<lambda>root. Ok \<lparr>br_root = root\<rparr>))"

definition root_hash :: "BuiltRsmst \<Rightarrow> bytes" where
  "root_hash b = Node_hash (br_root b)"

definition root_sum :: "BuiltRsmst \<Rightarrow> nat" where
  "root_sum b = Node_sum (br_root b)"

fun proof_loop :: "Node \<Rightarrow> bytes \<Rightarrow> RsmstProofStep list \<Rightarrow> RsmstInclusionProof option" where
  "proof_loop (LeafNode leaf) key steps =
     (if lf_key leaf = key then Some \<lparr>rp_steps = rev steps\<rparr> else None)"
| "proof_loop (Branch depth left right hash amount) key steps =
     (let step = (\<lambda>sibling. \<lparr>rs_depth = depth, rs_hash = Node_hash sibling, rs_sum = Node_sum sibling\<rparr>)
      in if key_bit key depth then proof_loop right key (steps @ [step left])
         else proof_loop left key (steps @ [step right]))"

definition BuiltRsmst_proof :: "BuiltRsmst \<Rightarrow> bytes \<Rightarrow> RsmstInclusionProof option" where
  "BuiltRsmst_proof b key = proof_loop (br_root b) key []"

end
