(* ===== verification/Payment.thy ===== *)
theory Payment
  imports Rsmst Verify
begin

text \<open>
  Payment payloads and token splits (\<open>src/src/payment/\<close>): asset collections, the output commitment, the
  split manifest, the split mint justification and the verifiers registered for payments.
\<close>

section \<open>Assets\<close>

definition MAX_ASSET_ID_BYTES :: usize where "MAX_ASSET_ID_BYTES = 128"
definition MAX_ASSET_VALUE_BYTES :: usize where "MAX_ASSET_VALUE_BYTES = AMOUNT_MAX_BYTES"
definition MAX_PAYMENT_ASSETS :: usize where "MAX_PAYMENT_ASSETS = 256"

definition asset_cmp :: "bytes \<Rightarrow> bytes \<Rightarrow> ordering" where
  "asset_cmp a b =
     (let common = min (length a) (length b)
      in case cmp_bytes (take common a) (take common b) of
           Equal \<Rightarrow> cmp_nat (length a) (length b)
         | other \<Rightarrow> other)"

record AssetId = aid_bytes :: bytes

definition AssetId_to_cbor :: "AssetId \<Rightarrow> bytes" where
  "AssetId_to_cbor i = encode_byte_string (aid_bytes i)"

definition AssetId_from_cbor :: "Decoder \<Rightarrow> Error + AssetId" where
  "AssetId_from_cbor d =
     rbind (map_err Cbor (bytes_value d)) (\<lambda>bytes.
       if bytes = [] then Err (OutOfRange ''asset id must be non-empty'')
       else if length bytes > MAX_ASSET_ID_BYTES then Err (OutOfRange ''asset id exceeds protocol limit'')
       else Ok \<lparr>aid_bytes = bytes\<rparr>)"

record Asset =
  as_id :: AssetId
  as_value :: nat

definition Asset_from_cbor :: "Decoder \<Rightarrow> Error + Asset" where
  "Asset_from_cbor d =
     rbind (map_err Cbor (array d (Some 2))) (\<lambda>items.
     rbind (AssetId_from_cbor (items ! 0)) (\<lambda>i.
     rbind (map_err Cbor (bytes_value (items ! 1))) (\<lambda>b.
     rbind (decode_positive_amount b) (\<lambda>v.
       Ok \<lparr>as_id = i, as_value = v\<rparr>))))"

definition Asset_to_cbor :: "Asset \<Rightarrow> bytes" where
  "Asset_to_cbor a = encode_array [AssetId_to_cbor (as_id a), encode_byte_string (encode_amount (as_value a))]"

record PaymentAssetCollection =
  pc_assets :: "Asset list"

text \<open>The loop over the given assets that checks each of them.\<close>

fun check_assets :: "Asset list \<Rightarrow> Error + unit" where
  "check_assets [] = Ok ()"
| "check_assets (asset # rest) =
     (if aid_bytes (as_id asset) = [] then Err (OutOfRange ''asset id must be non-empty'')
      else if length (aid_bytes (as_id asset)) > MAX_ASSET_ID_BYTES
      then Err (OutOfRange ''asset id exceeds protocol limit'')
      else if as_value asset = 0 then Err (OutOfRange ''asset amount must be positive'')
      else if biguint_bits (as_value asset) > 256 then Err (OutOfRange ''asset amount exceeds 256 bits'')
      else check_assets rest)"

text \<open>\<open>windows(2).any(..)\<close> on equal neighbouring ids.\<close>

fun adjacent_duplicate :: "Asset list \<Rightarrow> bool" where
  "adjacent_duplicate (a # b # rest) \<longleftrightarrow> as_id a = as_id b \<or> adjacent_duplicate (b # rest)"
| "adjacent_duplicate _ \<longleftrightarrow> False"

definition PaymentAssetCollection_create :: "Asset list \<Rightarrow> Error + PaymentAssetCollection" where
  "PaymentAssetCollection_create assets =
     (if assets = [] then Err (OutOfRange ''payment collection must be non-empty'')
      else if length assets > MAX_PAYMENT_ASSETS
      then Err (OutOfRange ''payment asset count exceeds protocol limit'')
      else
        rbind (check_assets assets) (\<lambda>_.
          let out = sort_by (\<lambda>a b. asset_cmp (aid_bytes (as_id a)) (aid_bytes (as_id b))) assets
          in if adjacent_duplicate out
             then Err (UnexpectedValue ''duplicate asset id in payment collection'')
             else Ok \<lparr>pc_assets = out\<rparr>))"

definition PaymentAssetCollection_get :: "PaymentAssetCollection \<Rightarrow> AssetId \<Rightarrow> Asset option" where
  "PaymentAssetCollection_get c i = find (\<lambda>a. as_id a = i) (pc_assets c)"

definition PaymentAssetCollection_len :: "PaymentAssetCollection \<Rightarrow> usize" where
  "PaymentAssetCollection_len c = length (pc_assets c)"

fun decode_assets :: "Decoder list \<Rightarrow> Asset option \<Rightarrow> Error + Asset list" where
  "decode_assets [] previous = Ok []"
| "decode_assets (d # rest) previous =
     rbind (Asset_from_cbor d) (\<lambda>asset.
     rbind (case previous of
              None \<Rightarrow> Ok ()
            | Some p \<Rightarrow>
                (case asset_cmp (aid_bytes (as_id p)) (aid_bytes (as_id asset)) of
                   Less \<Rightarrow> Ok ()
                 | Equal \<Rightarrow> Err (UnexpectedValue ''duplicate asset id'')
                 | Greater \<Rightarrow> Err (Cbor NonCanonicalEncoding))) (\<lambda>_.
     rbind (decode_assets rest (Some asset)) (\<lambda>assets. Ok (asset # assets))))"

definition PaymentAssetCollection_from_cbor :: "Decoder \<Rightarrow> Error + PaymentAssetCollection" where
  "PaymentAssetCollection_from_cbor d =
     rbind (map_err Cbor (array d None)) (\<lambda>items.
       if items = [] then Err (OutOfRange ''payment collection must be non-empty'')
       else if length items > MAX_PAYMENT_ASSETS
       then Err (OutOfRange ''payment asset count exceeds protocol limit'')
       else rbind (decode_assets items None) (\<lambda>assets. Ok \<lparr>pc_assets = assets\<rparr>))"

definition PaymentAssetCollection_from_cbor_bytes :: "bytes \<Rightarrow> Error + PaymentAssetCollection" where
  "PaymentAssetCollection_from_cbor_bytes bytes =
     (let d = with_limits bytes DEFAULT_limits
      in rbind (map_err Cbor (finish d)) (\<lambda>_. PaymentAssetCollection_from_cbor d))"

definition PaymentAssetCollection_to_cbor :: "PaymentAssetCollection \<Rightarrow> bytes" where
  "PaymentAssetCollection_to_cbor c = encode_array (map Asset_to_cbor (pc_assets c))"

section \<open>Output commitments\<close>

definition SPLIT_OUTPUT :: bytes where "SPLIT_OUTPUT = ascii ''UNICITY_SPLIT_OUTPUT''"

definition split_output_preimage ::
  "TokenId \<Rightarrow> NetworkId \<Rightarrow> EncodedPredicate \<Rightarrow> TokenSalt \<Rightarrow> TokenId \<Rightarrow> TokenType \<Rightarrow> bytes \<Rightarrow> bytes" where
  "split_output_preimage source_id network_id recipient salt output_id token_type aux_data =
     encode_array [encode_byte_string SPLIT_OUTPUT, encode_byte_string (tid_bytes source_id),
       encode_uint (ucast (net_id network_id)), encode_byte_string (EncodedPredicate_to_cbor recipient),
       encode_byte_string (salt_bytes salt), encode_byte_string (tid_bytes output_id),
       encode_byte_string (tt_bytes token_type), encode_byte_string aux_data]"

definition split_output_commitment ::
  "sha2 \<Rightarrow> TokenId \<Rightarrow> NetworkId \<Rightarrow> EncodedPredicate \<Rightarrow> TokenSalt \<Rightarrow> TokenId \<Rightarrow> TokenType \<Rightarrow> bytes \<Rightarrow> bytes" where
  "split_output_commitment sha2 source_id network_id recipient salt output_id token_type aux_data =
     dh_data (sha256 sha2 (split_output_preimage source_id network_id recipient salt output_id token_type aux_data))"

definition commitment_for_mint :: "sha2 \<Rightarrow> TokenId \<Rightarrow> MintTransaction \<Rightarrow> Error + bytes" where
  "commitment_for_mint sha2 source_id mint =
     rbind (ok_or (UnexpectedValue ''split output has no auxiliary payload'') (mt_data mint)) (\<lambda>aux_data.
       Ok (split_output_commitment sha2 source_id (mt_network_id mint) (mt_recipient mint) (mt_salt mint)
             (mt_token_id mint) (mt_token_type mint) aux_data))"

section \<open>Split manifests\<close>

definition SPLIT_MANIFEST_TAG :: u64 where "SPLIT_MANIFEST_TAG = 39046"

record SplitManifest =
  sm_roots :: "bytes list"

definition SplitManifest_create :: "bytes list \<Rightarrow> Error + SplitManifest" where
  "SplitManifest_create roots =
     (if roots = [] then Err (OutOfRange ''split manifest must be non-empty'')
      else if length roots > MAX_PAYMENT_ASSETS then Err (OutOfRange ''split manifest exceeds protocol limit'')
      else Ok \<lparr>sm_roots = roots\<rparr>)"

definition SplitManifest_len :: "SplitManifest \<Rightarrow> usize" where
  "SplitManifest_len m = length (sm_roots m)"

definition SplitManifest_to_cbor :: "SplitManifest \<Rightarrow> bytes" where
  "SplitManifest_to_cbor m = encode_tag SPLIT_MANIFEST_TAG (encode_array (map encode_byte_string (sm_roots m)))"

definition reason_hash :: "sha2 \<Rightarrow> SplitManifest \<Rightarrow> bytes" where
  "reason_hash sha2 m = dh_data (sha256 sha2 (SplitManifest_to_cbor m))"

definition SplitManifest_from_cbor_bytes :: "bytes \<Rightarrow> DecodeLimits \<Rightarrow> Error + SplitManifest" where
  "SplitManifest_from_cbor_bytes bytes limits =
     (let d = with_limits bytes limits
      in rbind (map_err Cbor (finish d)) (\<lambda>_.
         rbind (map_err Cbor (expect_tag d SPLIT_MANIFEST_TAG)) (\<lambda>inner.
         rbind (map_err Cbor (array inner None)) (\<lambda>items.
           if items = [] then Err (OutOfRange ''split manifest must be non-empty'')
           else if length items > MAX_PAYMENT_ASSETS
           then Err (OutOfRange ''split manifest exceeds protocol limit'')
           else rbind (rmap (array32_field ''split manifest root'') items) (\<lambda>roots.
             Ok \<lparr>sm_roots = roots\<rparr>)))))"

section \<open>Split mint justifications\<close>

definition SPLIT_MINT_JUSTIFICATION_TAG :: u64 where "SPLIT_MINT_JUSTIFICATION_TAG = 39044"

record SplitMintJustification =
  sj_token :: Token
  sj_proofs :: "RsmstInclusionProof list"
  sj_encoded_token_len :: usize

definition SplitMintJustification_create ::
  "Token \<Rightarrow> RsmstInclusionProof list \<Rightarrow> Error + SplitMintJustification" where
  "SplitMintJustification_create token proofs =
     (if proofs = [] then Err (UnexpectedValue ''split mint justification needs at least one proof'')
      else if length proofs > MAX_PAYMENT_ASSETS
      then Err (OutOfRange ''split proof count exceeds protocol limit'')
      else Ok \<lparr>sj_token = token, sj_proofs = proofs, sj_encoded_token_len = length (Token_to_cbor token)\<rparr>)"

definition SplitMintJustification_from_cbor_interned ::
  "sha2 \<Rightarrow> 'p k256 \<Rightarrow> bytes \<Rightarrow> DecodeLimits \<Rightarrow> UcInterner \<Rightarrow> (UcInterner, Error, SplitMintJustification) st" where
  "SplitMintJustification_from_cbor_interned sha2 ec bytes limits u =
     sbind (map_err Cbor (expect_tag (with_limits bytes limits) SPLIT_MINT_JUSTIFICATION_TAG), u) (\<lambda>inner u.
     sbind (map_err Cbor (array inner (Some 2)), u) (\<lambda>items u.
     let encoded_token_len = length (dec_bytes (items ! 0))
     in sbind (Token_from_cbor_interned sha2 ec (dec_bytes (items ! 0)) limits u) (\<lambda>token u.
        sbind (map_err Cbor (array (items ! 1) None), u) (\<lambda>encoded_proofs u.
          if length encoded_proofs > MAX_PAYMENT_ASSETS
          then (Err (OutOfRange ''split proof count exceeds protocol limit''), u)
          else
            sbind (rmap RsmstInclusionProof_from_cbor encoded_proofs, u) (\<lambda>proofs u.
            sbind (SplitMintJustification_create token proofs, u) (\<lambda>justification u.
              (Ok (justification\<lparr>sj_encoded_token_len := encoded_token_len\<rparr>), u)))))))"

definition SplitMintJustification_from_cbor_with_limits ::
  "sha2 \<Rightarrow> 'p k256 \<Rightarrow> bytes \<Rightarrow> DecodeLimits \<Rightarrow> Error + SplitMintJustification" where
  "SplitMintJustification_from_cbor_with_limits sha2 ec bytes limits =
     fst (SplitMintJustification_from_cbor_interned sha2 ec bytes limits UcInterner_new)"

definition SplitMintJustification_from_cbor :: "sha2 \<Rightarrow> 'p k256 \<Rightarrow> bytes \<Rightarrow> Error + SplitMintJustification" where
  "SplitMintJustification_from_cbor sha2 ec bytes =
     SplitMintJustification_from_cbor_with_limits sha2 ec bytes DEFAULT_limits"

definition SplitMintJustification_to_cbor :: "SplitMintJustification \<Rightarrow> bytes" where
  "SplitMintJustification_to_cbor j =
     encode_tag SPLIT_MINT_JUSTIFICATION_TAG (encode_array
       [Token_to_cbor (sj_token j), encode_array (map RsmstInclusionProof_to_cbor (sj_proofs j))])"

section \<open>Verifiers\<close>

type_synonym PaymentDataDecoder = "bytes \<Rightarrow> Error + PaymentAssetCollection"
type_synonym PaymentIssuancePolicy =
  "CertifiedMintTransaction \<Rightarrow> PaymentAssetCollection \<Rightarrow> VerificationError + unit"

record SplitMintJustificationVerifier =
  sv_decode_payment_data :: PaymentDataDecoder

definition SplitMintJustificationVerifier_new :: SplitMintJustificationVerifier where
  "SplitMintJustificationVerifier_new = \<lparr>sv_decode_payment_data = PaymentAssetCollection_from_cbor_bytes\<rparr>"

record PaymentDataVerifier =
  pv_token_type :: TokenType
  pv_decode_payment_data :: PaymentDataDecoder
  pv_authorize_issuance :: PaymentIssuancePolicy

definition PaymentDataVerifier_new :: "TokenType \<Rightarrow> PaymentIssuancePolicy \<Rightarrow> PaymentDataVerifier" where
  "PaymentDataVerifier_new token_type authorize_issuance =
     \<lparr>pv_token_type = token_type, pv_decode_payment_data = PaymentAssetCollection_from_cbor_bytes,
      pv_authorize_issuance = authorize_issuance\<rparr>"

definition PaymentDataVerifier_verify :: "PaymentDataVerifier \<Rightarrow> app_verifier" where
  "PaymentDataVerifier_verify v tb policy embedded genesis c =
     sbind (ok_or MalformedTokenData (mt_data (cm_transaction genesis)), c) (\<lambda>bytes c.
     sbind (map_err (\<lambda>_. MalformedTokenData) (pv_decode_payment_data v bytes), c) (\<lambda>assets c.
       (pv_authorize_issuance v genesis assets, c)))"

text \<open>\<open>Iterator::position\<close>.\<close>

fun iter_position :: "('a \<Rightarrow> bool) \<Rightarrow> 'a list \<Rightarrow> nat option" where
  "iter_position P [] = None"
| "iter_position P (x # xs) = (if P x then Some 0 else map_option Suc (iter_position P xs))"

text \<open>The loop over the output assets and their proofs.\<close>

fun check_allocations ::
  "sha2 \<Rightarrow> Asset list \<Rightarrow> bytes list \<Rightarrow> bytes \<Rightarrow> bytes \<Rightarrow> (Asset \<times> RsmstInclusionProof) list \<Rightarrow>
   VerificationError + unit" where
  "check_allocations sha2 source_assets roots output_id commitment [] = Ok ()"
| "check_allocations sha2 source_assets roots output_id commitment ((asset, proof) # rest) =
     rbind (ok_or SplitSourceAssetMissing (iter_position (\<lambda>s. as_id s = as_id asset) source_assets)) (\<lambda>index.
     rbind (ok_or SplitAllocationProofInvalid
              (RsmstInclusionProof_verify sha2 proof output_id commitment (as_value asset) (roots ! index)))
       (\<lambda>root_sum.
         if root_sum \<noteq> as_value (source_assets ! index) then Err SplitSourceAmountMismatch
         else check_allocations sha2 source_assets roots output_id commitment rest))"

definition SplitMintJustificationVerifier_verify ::
  "sha2 \<Rightarrow> 'p k256 \<Rightarrow> SplitMintJustificationVerifier \<Rightarrow> app_verifier" where
  "SplitMintJustificationVerifier_verify sha2 ec v tb policy embedded genesis c =
     (let mint = cm_transaction genesis; limits = vl_decode (vp_limits policy)
      in sbind (ok_or MalformedMintJustification (mt_justification mint), c) (\<lambda>justification_bytes c.
         sbind (map_prod (map_err (\<lambda>_. MalformedMintJustification)) (\<lambda>u. c\<lparr>vc_interner := u\<rparr>)
                  (SplitMintJustification_from_cbor_interned sha2 ec justification_bytes limits
                     (vc_interner c))) (\<lambda>justification c.
         sbind (ok_or PaymentDataMissing (mt_data mint), c) (\<lambda>output_payment_bytes c.
           if length output_payment_bytes > max_input_bytes limits
           then (Err (VerificationLimitExceeded ''payment data bytes''), c)
           else
         sbind (map_err (\<lambda>_. MalformedTokenData) (sv_decode_payment_data v output_payment_bytes), c)
           (\<lambda>output_assets c.
           let burned = sj_token justification; source = cm_transaction (tk_genesis burned)
           in if mt_network_id mint \<noteq> mt_network_id source then (Err SplitNetworkMismatch, c)
              else
         sbind (map_prod (map_err BurnTokenVerificationFailed) id
                  (embedded burned (sj_encoded_token_len justification) c)) (\<lambda>_ c.
         sbind (ok_or SplitBurnTransferMissing
                  (if tk_transactions burned = [] then None else Some (last (tk_transactions burned))), c)
           (\<lambda>burn_transfer c.
         sbind (ok_or SplitManifestMissing (tr_data (ct_transaction burn_transfer)), c) (\<lambda>manifest_bytes c.
           if length manifest_bytes > max_input_bytes limits
           then (Err (VerificationLimitExceeded ''split manifest bytes''), c)
           else
         sbind (map_err (\<lambda>_. SplitManifestMalformed) (SplitManifest_from_cbor_bytes manifest_bytes limits), c)
           (\<lambda>manifest c.
           let expected_burn = BurnPredicate_to_encoded \<lparr>bp_reason = reason_hash sha2 manifest\<rparr>
           in if tr_recipient (ct_transaction burn_transfer) \<noteq> expected_burn
              then (Err SplitBurnPredicateMismatch, c)
              else if mt_token_type mint \<noteq> mt_token_type source then (Err SplitTokenTypeMismatch, c)
              else
         sbind (ok_or SplitSourcePaymentDataMissing (mt_data source), c) (\<lambda>source_payment_bytes c.
           if length source_payment_bytes > max_input_bytes limits
           then (Err (VerificationLimitExceeded ''source payment data bytes''), c)
           else
         sbind (map_err (\<lambda>_. SplitSourcePaymentDataMissing) (sv_decode_payment_data v source_payment_bytes), c)
           (\<lambda>source_assets c.
           if PaymentAssetCollection_len source_assets \<noteq> SplitManifest_len manifest
           then (Err SplitManifestLengthMismatch, c)
           else if length (sj_proofs justification) \<noteq> PaymentAssetCollection_len output_assets
           then (Err SplitProofCountMismatch, c)
           else
         sbind (map_err (\<lambda>_. PaymentDataMissing) (commitment_for_mint sha2 (mt_token_id source) mint), c)
           (\<lambda>commitment c.
             (check_allocations sha2 (pc_assets source_assets) (sm_roots manifest)
                (tid_bytes (mt_token_id mint)) commitment
                (zip (pc_assets output_assets) (sj_proofs justification)), c)))))))))))))"

definition split_verifier ::
  "sha2 \<Rightarrow> 'p k256 \<Rightarrow> SplitMintJustificationVerifier \<Rightarrow> MintJustificationVerifier" where
  "split_verifier sha2 ec v =
     \<lparr>mv_tag = SPLIT_MINT_JUSTIFICATION_TAG, mv_verify = SplitMintJustificationVerifier_verify sha2 ec v\<rparr>"

definition payment_verifier :: "PaymentDataVerifier \<Rightarrow> TokenDataVerifier" where
  "payment_verifier v = \<lparr>dv_token_type = pv_token_type v, dv_verify = PaymentDataVerifier_verify v\<rparr>"

definition verify_payment_token ::
  "sha2 \<Rightarrow> 'p k256 \<Rightarrow> Token \<Rightarrow> RootTrustBase \<Rightarrow> MintJustificationRegistry \<Rightarrow> PaymentDataDecoder \<Rightarrow>
   VerificationError + PaymentAssetCollection" where
  "verify_payment_token sha2 ec token tb registry decode_payment_data =
     (let policy = VerificationPolicy_default\<lparr>vp_require_token_data_verifier := True\<rparr>
      in rbind (verify_token_with_policy sha2 ec token tb registry policy) (\<lambda>_.
         rbind (ok_or PaymentDataMissing (mt_data (cm_transaction (tk_genesis token)))) (\<lambda>bytes.
           map_err (\<lambda>_. MalformedTokenData) (decode_payment_data bytes))))"

end
