(* ===== verification/Proof_Client.thy ===== *)
theory Proof_Client
  imports Batch Consolidate Payment
begin

text \<open>
  The explicit consolidation service of \<open>client/consolidate/\<close>: admission, the master wave, the exact-root wave,
  the authenticated target, and the rebuilt token. The aggregators, the clock, the cancellation by the caller
  and the wave executor are parameters over a world \<open>'w\<close> and may answer anything. An attempt that does not
  return (a panic of \<open>expect\<close>, or a climb that does not end) is \<open>None\<close>.
\<close>

section \<open>Outcomes and errors\<close>

datatype UnavailableReason =
    UnsupportedCapability | UnsupportedConfiguration | TargetNotRetained | TargetNotYetAvailable
  | PartitionViewUnavailable | Busy | StatePending | StateExpired | StateUnknown | StateNotInRoot

datatype IntegrityError =
    ViewError PartitionViewError
  | EvidenceError VerificationError
  | Binding ShardId nat string
  | ContextError string
  | RootSubstitution ShardId
  | CertificateError ShardId string
  | VerificationFailed VerificationError
  | TargetError VerificationError

datatype ConsolidationError =
    InvalidToken VerificationError
  | Configuration string
  | TooManyStates ShardId nat nat
  | TransportError ShardId BatchFailure
  | ServerError ShardId BatchFailure
  | RejectedError ShardId BatchFailure
  | InvalidResponse ShardId string
  | Integrity IntegrityError
  | Timeout
  | Cancelled

text \<open>Of the work counters the comparisons of the router are left out: their number is that of the binary
  search of the standard library.\<close>

record AdmissionWork =
  aw_steps :: u64
  aw_group_lookups :: u64

record ConsolidationSummary =
  cs_outer_proofs :: nat
  cs_outer_seals_before :: nat
  cs_outer_seals_after :: nat
  cs_already_shared :: bool
  cs_shards :: nat
  cs_requests :: nat
  cs_master :: "ShardId option"
  cs_master_round :: "u64 option"
  cs_required_round :: u64
  cs_consolidation_quorum_checks :: u64
  cs_input_quorum_checks :: u64
  cs_verification_quorum_checks :: u64
  cs_certificates_derived :: nat
  cs_admission :: AdmissionWork

datatype ConsolidationOutcome =
    Consolidated Token ConsolidationSummary
  | Unavailable UnavailableReason bool

record ProofItem =
  it_state_id :: StateId
  it_proof :: InclusionProof

record ProofBundle =
  bu_proofs :: "InclusionProof list"
  bu_summary :: ConsolidationSummary

datatype BundleOutcome =
    BundleConsolidated ProofBundle
  | BundleUnavailable UnavailableReason bool

datatype Stop =
    StopUnavailable UnavailableReason bool
  | StopError ConsolidationError

section \<open>Configuration\<close>

definition DEFAULT_TIMEOUT_MS :: u64 where "DEFAULT_TIMEOUT_MS = 10000"

record MasterLongPoll =
  lp_preferred_ms :: u64
  lp_margin_ms :: u64
  lp_max_request_ms :: u64

definition MasterLongPoll_default :: MasterLongPoll where
  "MasterLongPoll_default = \<lparr>lp_preferred_ms = 20000, lp_margin_ms = 2000, lp_max_request_ms = 30000\<rparr>"

definition wait_for :: "MasterLongPoll \<Rightarrow> u64 \<Rightarrow> u64 option" where
  "wait_for lp remaining_ms =
     (let wait = min (min (min (lp_preferred_ms lp) (saturating_sub remaining_ms (lp_margin_ms lp)))
            (saturating_sub (lp_max_request_ms lp) (lp_margin_ms lp))) MAX_WAIT_MS
      in if wait > 0 then Some wait else None)"

record Group =
  gr_endpoint :: nat
  gr_shard :: ShardId
  gr_items :: "nat list"
  gr_ids :: "StateId list"

text \<open>What the jobs of a wave share: the abort flag of the attempt, the request counter and the world.\<close>

record 'w wave =
  wv_abort :: bool
  wv_requests :: nat
  wv_world :: 'w

type_synonym job = "Group \<times> bytes"
type_synonym 'w fetch_job = "job \<Rightarrow> 'w wave \<Rightarrow> ('w wave, Stop, InclusionProofBatch) st"
type_synonym 'w executor = "job list \<Rightarrow> 'w fetch_job \<Rightarrow> 'w wave \<Rightarrow> (Stop + InclusionProofBatch) list \<times> 'w wave"

record 'w ConsolidateOptions =
  co_timeout_ms :: u64
  co_cancelled :: "'w \<Rightarrow> bool \<times> 'w"
  co_master :: "ShardId option"

record 'w ProofClient =
  cl_topology :: PartitionTopology
  cl_router :: ShardRouter
  cl_trust_base :: RootTrustBase
  cl_registry :: MintJustificationRegistry
  cl_policy :: VerificationPolicy
  cl_endpoints :: "(ShardId \<times> 'w BatchAggregatorClient) list"
  cl_endpoint_by_shard :: "nat option list"
  cl_now_ms :: "'w \<Rightarrow> u64 \<times> 'w"
  cl_executor :: "'w executor"
  cl_master_long_poll :: "MasterLongPoll option"

text \<open>\<open>ShardRouter::new\<close> fails with \<open>InvalidTopology\<close> only (\<open>ShardRouter_new_error\<close>).\<close>

definition scheme_error_text :: "PartitionViewError \<Rightarrow> string" where
  "scheme_error_text e = (case e of InvalidTopology m \<Rightarrow> ''invalid sharding scheme: '' @ m | _ \<Rightarrow> [])"

fun check_endpoints :: "ShardRouter \<Rightarrow> ShardId list \<Rightarrow> ShardId list \<Rightarrow> ConsolidationError + unit" where
  "check_endpoints router before [] = Ok ()"
| "check_endpoints router before (shard # rest) =
     (if shard \<notin> set (rt_shards router) then Err (Configuration ''endpoint shard is not in the topology'')
      else if shard \<in> set before then Err (Configuration ''duplicate endpoint for a shard'')
      else check_endpoints router (before @ [shard]) rest)"

definition endpoint_index :: "(ShardId \<times> 'c) list \<Rightarrow> ShardId \<Rightarrow> nat option" where
  "endpoint_index endpoints shard = iter_position (\<lambda>e. fst e = shard) endpoints"

definition ProofClient_new ::
  "PartitionTopology \<Rightarrow> (ShardId \<times> 'w BatchAggregatorClient) list \<Rightarrow> RootTrustBase \<Rightarrow> ('w \<Rightarrow> u64 \<times> 'w) \<Rightarrow> 'w executor \<Rightarrow>
   ConsolidationError + 'w ProofClient" where
  "ProofClient_new topology endpoints trust_base clock executor =
     rbind (map_err (\<lambda>_. Configuration ''invalid trust base'') (validate trust_base)) (\<lambda>_.
     rbind (map_err (\<lambda>e. Configuration (scheme_error_text e)) (ShardRouter_new topology)) (\<lambda>router.
     rbind (check_endpoints router [] (map fst endpoints)) (\<lambda>_.
       Ok \<lparr>cl_topology = topology, cl_router = router, cl_trust_base = trust_base,
           cl_registry = MintJustificationRegistry_new, cl_policy = VerificationPolicy_default,
           cl_endpoints = endpoints, cl_endpoint_by_shard = map (endpoint_index endpoints) (rt_shards router),
           cl_now_ms = clock, cl_executor = executor, cl_master_long_poll = None\<rparr>)))"

definition with_master_long_poll :: "'w ProofClient \<Rightarrow> MasterLongPoll \<Rightarrow> 'w ProofClient" where
  "with_master_long_poll cl long_poll = cl\<lparr>cl_master_long_poll := Some long_poll\<rparr>"

definition with_verification ::
  "'w ProofClient \<Rightarrow> MintJustificationRegistry \<Rightarrow> VerificationPolicy \<Rightarrow> 'w ProofClient" where
  "with_verification cl registry policy = cl\<lparr>cl_registry := registry, cl_policy := policy\<rparr>"

text \<open>The executor that runs the jobs one after another.\<close>

fun SequentialExecutor_run :: "'w executor" where
  "SequentialExecutor_run [] job s = ([], s)"
| "SequentialExecutor_run (i # inputs) job s =
     (let (r, s) = job i s; (rs, s) = SequentialExecutor_run inputs job s in (r # rs, s))"

section \<open>The budget\<close>

record 'w Budget =
  bg_now_ms :: "'w \<Rightarrow> u64 \<times> 'w"
  bg_deadline_ms :: u64
  bg_cancelled :: "'w \<Rightarrow> bool \<times> 'w"

definition Budget_check :: "'w Budget \<Rightarrow> 'w wave \<Rightarrow> ('w wave, Stop, u64) st" where
  "Budget_check b s =
     (let (cancelled, w) = bg_cancelled b (wv_world s)
      in if cancelled \<or> wv_abort s then (Err (StopError Cancelled), s\<lparr>wv_world := w\<rparr>)
         else
           let (now, w) = bg_now_ms b w; remaining = saturating_sub (bg_deadline_ms b) now
           in (if remaining = 0 then Err (StopError Timeout) else Ok remaining, s\<lparr>wv_world := w\<rparr>))"

definition stop_error :: "Stop \<Rightarrow> ConsolidationError" where
  "stop_error stop = (case stop of StopError e \<Rightarrow> e | StopUnavailable _ _ \<Rightarrow> Cancelled)"

section \<open>Admission\<close>

record grouping =
  gp_seen :: "(bytes \<times> nat) list"
  gp_first_of :: "nat list"
  gp_shard_of :: "nat list"
  gp_slots :: "Group option list"
  gp_work :: AdmissionWork

text \<open>The new member of the group of a shard.\<close>

definition join_group :: "'w ProofClient \<Rightarrow> nat \<Rightarrow> nat \<Rightarrow> StateId \<Rightarrow> grouping \<Rightarrow> Stop + grouping" where
  "join_group cl si i state_id g =
     rbind (case gp_slots g ! si of
              Some grp \<Rightarrow> Ok grp
            | None \<Rightarrow>
                rbind (ok_or (StopError (Configuration ''no configured endpoint serves a state of the token''))
                  (cl_endpoint_by_shard cl ! si)) (\<lambda>endpoint.
                  Ok \<lparr>gr_endpoint = endpoint, gr_shard = rt_shards (cl_router cl) ! si, gr_items = [], gr_ids = []\<rparr>))
       (\<lambda>grp.
         let grp = grp\<lparr>gr_items := gr_items grp @ [i], gr_ids := gr_ids grp @ [state_id]\<rparr>
         in if length (gr_ids grp) > MAX_BATCH_STATE_IDS
            then Err (StopError (TooManyStates (gr_shard grp) (length (gr_ids grp)) MAX_BATCH_STATE_IDS))
            else Ok (g\<lparr>gp_slots := (gp_slots g)[si := Some grp]\<rparr>))"

definition group_item :: "'w ProofClient \<Rightarrow> ProofItem list \<Rightarrow> nat \<Rightarrow> ProofItem \<Rightarrow> grouping \<Rightarrow> Stop + grouping" where
  "group_item cl items i input g =
     (let cap = min (length (cl_endpoints cl) * MAX_BATCH_STATE_IDS) (2 ^ 64 - 1);
          g = g\<lparr>gp_work := (gp_work g)\<lparr>aw_steps := aw_steps (gp_work g) + 1\<rparr>\<rparr>;
          si = route_index (cl_router cl) (it_state_id input);
          g = g\<lparr>gp_shard_of := gp_shard_of g @ [si]\<rparr>
      in case map_of (gp_seen g) (sid_bytes (it_state_id input)) of
           Some first \<Rightarrow>
             let o' = it_proof (items ! first)
             in if ip_certification_data o' \<noteq> ip_certification_data (it_proof input)
                   \<or> ip_reference_time o' \<noteq> ip_reference_time (it_proof input)
                then Err (StopError (Configuration ''conflicting inputs for one state id''))
                else Ok (g\<lparr>gp_first_of := gp_first_of g @ [first]\<rparr>)
         | None \<Rightarrow>
             let g = g\<lparr>gp_seen := (sid_bytes (it_state_id input), i) # gp_seen g\<rparr>
             in if length (gp_seen g) > cap
                then Err (StopError (TooManyStates (rt_shards (cl_router cl) ! si) (length (gp_seen g)) cap))
                else
                  let g = g\<lparr>gp_first_of := gp_first_of g @ [i],
                        gp_work := (gp_work g)\<lparr>aw_group_lookups := aw_group_lookups (gp_work g) + 1\<rparr>\<rparr>
                  in join_group cl si i (it_state_id input) g)"

fun group_loop ::
  "'w ProofClient \<Rightarrow> 'w Budget \<Rightarrow> ProofItem list \<Rightarrow> nat \<Rightarrow> ProofItem list \<Rightarrow> grouping \<Rightarrow> 'w wave \<Rightarrow>
   ('w wave, Stop, grouping) st" where
  "group_loop cl b items i [] g s = (Ok g, s)"
| "group_loop cl b items i (input # rest) g s =
     sbind (if i mod 64 = 0 then Budget_check b s else (Ok 0, s)) (\<lambda>_ s.
     sbind (group_item cl items i input g, s) (\<lambda>g s.
       group_loop cl b items (Suc i) rest g s))"

definition ProofClient_group ::
  "'w ProofClient \<Rightarrow> ProofItem list \<Rightarrow> 'w Budget \<Rightarrow> 'w wave \<Rightarrow>
   ('w wave, Stop, Group list \<times> nat list \<times> nat list \<times> AdmissionWork) st" where
  "ProofClient_group cl items b s =
     (if items = [] then (Err (StopError (Configuration ''nothing to consolidate'')), s)
      else
        sbind (group_loop cl b items 0 items
          \<lparr>gp_seen = [], gp_first_of = [], gp_shard_of = [],
           gp_slots = replicate (length (rt_shards (cl_router cl))) None,
           gp_work = \<lparr>aw_steps = 0, aw_group_lookups = 0\<rparr>\<rparr> s) (\<lambda>g s.
          (Ok (List.map_filter id (gp_slots g), gp_first_of g, gp_shard_of g, gp_work g), s)))"

section \<open>Requests\<close>

text \<open>The type of a failed batch call.\<close>

definition classify :: "ShardId \<Rightarrow> BatchFailure \<Rightarrow> Stop" where
  "classify shard failure =
     (case failure of
        TimeoutFailure \<Rightarrow> StopError Timeout
      | CancelledFailure \<Rightarrow> StopError Cancelled
      | TransportFailure _ \<Rightarrow> StopError (TransportError shard failure)
      | HttpFailure _ \<Rightarrow> StopError (TransportError shard failure)
      | TooLargeFailure _ \<Rightarrow> StopError (TransportError shard failure)
      | DecodeFailure _ \<Rightarrow> StopError (InvalidResponse shard ''undecodable response'')
      | RpcFailure code _ _ detail retryable _ \<Rightarrow>
          if code = METHOD_NOT_FOUND then StopUnavailable UnsupportedCapability False
          else if code = CONCURRENCY_LIMIT then StopUnavailable Busy True
          else if code = PROOF_UNAVAILABLE then
            let retry = (case retryable of Some r \<Rightarrow> r | None \<Rightarrow> True)
            in if detail = Some ''unsupported_configuration'' then StopUnavailable UnsupportedConfiguration False
               else if detail = Some STATE_PENDING then StopUnavailable StatePending retry
               else if detail = Some STATE_EXPIRED then StopUnavailable StateExpired False
               else if detail = Some STATE_UNKNOWN then StopUnavailable StateUnknown False
               else if detail = Some STATE_NOT_IN_ROOT then StopUnavailable StateNotInRoot False
               else if detail = Some ''view_not_retained'' then StopUnavailable TargetNotRetained retry
               else if detail = Some ''partition_view_unavailable'' then StopUnavailable PartitionViewUnavailable retry
               else StopUnavailable TargetNotYetAvailable retry
          else if code = INVALID_PARAMS \<or> code = INVALID_REQUEST \<or> code = LIMIT_EXCEEDED
          then StopError (RejectedError shard failure)
          else StopError (ServerError shard failure))"

definition fetch ::
  "(ShardId \<times> 'w BatchAggregatorClient) list \<Rightarrow> Group \<Rightarrow> StateRoot \<Rightarrow> 'w Budget \<Rightarrow> MasterLongPoll option \<Rightarrow> 'w wave \<Rightarrow>
   ('w wave, Stop, InclusionProofBatch) st" where
  "fetch endpoints g root b long_poll s =
     sbind (Budget_check b s) (\<lambda>remaining s.
       let (shard, client) = endpoints ! gr_endpoint g;
           wait = (case root of
             Latest \<Rightarrow> (case long_poll of Some lp \<Rightarrow> wait_for lp remaining | None \<Rightarrow> None)
           | Exact _ \<Rightarrow> None);
           options = \<lparr>ro_timeout_ms = (case (wait, long_poll) of
             (Some wait_ms, Some lp) \<Rightarrow> min remaining (saturating_add wait_ms (lp_margin_ms lp))
           | _ \<Rightarrow> remaining)\<rparr>;
           (result, s) = (case wait of
             Some wait_ms \<Rightarrow>
               let wait = with_margin_ms (WaitRequest_new wait_ms)
                     (case long_poll of None \<Rightarrow> DEFAULT_WAIT_MARGIN_MS | Some lp \<Rightarrow> lp_margin_ms lp);
                   (negotiated, w) = get_latest_negotiating_wait client (gr_ids g) options wait (bg_now_ms b) (wv_world s)
               in (case nb_result negotiated of Inl failed \<Rightarrow> Err (wf_failure failed) | Inr waited \<Rightarrow> Ok (wb_batch waited),
                   s\<lparr>wv_requests := wv_requests s + unat (nb_requests negotiated), wv_world := w\<rparr>)
           | None \<Rightarrow>
               let s = s\<lparr>wv_requests := wv_requests s + 1\<rparr>;
                   (r, w) = get_inclusion_proofs client \<lparr>br_state_ids = gr_ids g, br_state_root = root\<rparr> options (wv_world s)
               in (r, s\<lparr>wv_world := w\<rparr>))
       in sbind (Budget_check b s) (\<lambda>_ s.
            (case result of Inr batch \<Rightarrow> Ok batch | Inl failure \<Rightarrow> Err (classify shard failure), s)))"

section \<open>Responses\<close>

text \<open>The loop over the served proofs, with the index \<open>k\<close> in the request.\<close>

fun check_served ::
  "Group \<Rightarrow> ProofItem list \<Rightarrow> UnicityCertificate \<Rightarrow> nat \<Rightarrow> (nat \<times> BatchProof) list \<Rightarrow> Stop + unit" where
  "check_served g items first k [] = Ok ()"
| "check_served g items first k ((idx, served) # rest) =
     (let original = it_proof (items ! idx)
      in if ip_certification_data (bx_proof served) \<noteq> ip_certification_data original
         then Err (StopError (Integrity (Binding (gr_shard g) k ''certification data differs from the original'')))
         else if ip_reference_time (bx_proof served) \<noteq> ip_reference_time original
         then Err (StopError (Integrity (Binding (gr_shard g) k ''reference time differs from the original'')))
         else if ip_unicity_certificate (bx_proof served) \<noteq> first
         then Err (StopError (InvalidResponse (gr_shard g) ''proofs of one batch carry different certificates''))
         else check_served g items first (Suc k) rest)"

definition batch_certificate :: "InclusionProofBatch \<Rightarrow> UnicityCertificate" where
  "batch_certificate batch = ip_unicity_certificate (bx_proof (ib_proofs batch ! 0))"

definition check_batch :: "Group \<Rightarrow> ProofItem list \<Rightarrow> InclusionProofBatch \<Rightarrow> bytes option \<Rightarrow> Stop + unit" where
  "check_batch g items batch exact =
     (if length (ib_proofs batch) \<noteq> length (gr_items g)
      then Err (StopError (InvalidResponse (gr_shard g) ''proof count differs from the request''))
      else if exact \<noteq> None \<and> ib_partition_view batch \<noteq> None
      then Err (StopError (InvalidResponse (gr_shard g) ''exact-root response carries a partition view''))
      else
        let first = batch_certificate batch
        in rbind (check_served g items first 0 (zip (gr_items g) (ib_proofs batch))) (\<lambda>_.
             if exact \<noteq> None \<and> ir_hash (uc_input_record first) \<noteq> exact
             then Err (StopError (Integrity (RootSubstitution (gr_shard g))))
             else Ok ()))"

text \<open>The evidence must belong to the configured partition, shards and pins.\<close>

fun check_context :: "'w ProofClient \<Rightarrow> (ProofItem \<times> nat) list \<Rightarrow> Stop + unit" where
  "check_context cl [] = Ok ()"
| "check_context cl ((input, si) # rest) =
     (let uc = ip_unicity_certificate (it_proof input);
          shard = stc_shard (uc_shard_tree_certificate uc)
      in if utc_partition_identifier (uc_unicity_tree_certificate uc) \<noteq> AGGREGATION_PARTITION_ID
         then Err (StopError (Integrity (ContextError ''proof is of another partition'')))
         else if shard \<noteq> rt_shards (cl_router cl) ! si
         then Err (StopError (Integrity (ContextError ''proof is of another shard than the state routes to'')))
         else if (case shard_conf_hash (cl_topology cl) shard of
                    Some pin \<Rightarrow> pin \<noteq> uc_shard_configuration_hash uc | None \<Rightarrow> False)
         then Err (StopError (Integrity (ContextError ''proof's shard configuration differs from the pin'')))
         else check_context cl rest)"

section \<open>Replacement\<close>

type_synonym ('s, 'e, 'a) pst = "('s, 'e, 'a) st option"

fun pst_bind :: "('s, 'e, 'a) pst \<Rightarrow> ('a \<Rightarrow> 's \<Rightarrow> ('s, 'e, 'b) pst) \<Rightarrow> ('s, 'e, 'b) pst" where
  "pst_bind None f = None"
| "pst_bind (Some (Inl e, s)) f = Some (Err e, s)"
| "pst_bind (Some (Inr x, s)) f = f x s"

text \<open>The loop over the proofs of a group under the certificate of its shard: each served path is bound to
  its original, verified under the policy of the target, and placed.\<close>

fun place_loop ::
  "sha2 \<Rightarrow> 'p k256 \<Rightarrow> ProofItem list \<Rightarrow> ShardId \<Rightarrow> UnicityCertificate \<Rightarrow> bytes \<Rightarrow> nat \<Rightarrow> (nat \<times> BatchProof) list \<Rightarrow>
   InclusionProof option list \<Rightarrow> SealSession \<Rightarrow> (SealSession, Stop, InclusionProof option list) st" where
  "place_loop sha2 ec items shard cert policy k [] replaced s = (Ok replaced, s)"
| "place_loop sha2 ec items shard cert policy k ((idx, served) # rest) replaced s =
     sbind (map_err (\<lambda>what. StopError (Integrity (Binding shard k what)))
       (replacement_proof (it_proof (items ! idx)) (bx_proof served) cert), s) (\<lambda>p s.
     sbind (map_prod (map_err (\<lambda>e. StopError (Integrity (VerificationFailed e)))) id
       (verify_membership_under sha2 ec s p (it_state_id (items ! idx)) (ip_reference_time p) policy)) (\<lambda>_ s.
       place_loop sha2 ec items shard cert policy (Suc k) rest (replaced[idx := Some p]) s))"

definition place ::
  "sha2 \<Rightarrow> 'p k256 \<Rightarrow> ProofItem list \<Rightarrow> AuthenticatedView \<Rightarrow> Group \<Rightarrow> InclusionProofBatch \<Rightarrow> InclusionProof option list \<Rightarrow>
   SealSession \<Rightarrow> (SealSession, Stop, InclusionProof option list) pst" where
  "place sha2 ec items av g batch replaced s =
     (case certificate_of av (gr_shard g) of
        None \<Rightarrow> None
      | Some (Inl e) \<Rightarrow> Some (Err (StopError (Integrity (ViewError e))), s)
      | Some (Inr shard_cert) \<Rightarrow>
          Some (sbind (ok_or (StopError (Integrity (CertificateError (gr_shard g)
              ''no ordinary certificate for a shard holding proofs''))) (sc_certificate shard_cert), s) (\<lambda>cert s.
            place_loop sha2 ec items (gr_shard g) cert (av_policy av) 0 (zip (gr_items g) (ib_proofs batch)) replaced s)))"

text \<open>The peers, checked and placed in order.\<close>

fun place_peers ::
  "sha2 \<Rightarrow> 'p k256 \<Rightarrow> ProofItem list \<Rightarrow> AuthenticatedView \<Rightarrow> (job \<times> InclusionProofBatch) list \<Rightarrow>
   InclusionProof option list \<Rightarrow> SealSession \<Rightarrow> (SealSession, Stop, InclusionProof option list) pst" where
  "place_peers sha2 ec items av [] replaced s = Some (Ok replaced, s)"
| "place_peers sha2 ec items av (((g, root), batch) # rest) replaced s =
     pst_bind (Some (check_batch g items batch (Some root), s)) (\<lambda>_ s.
     pst_bind (place sha2 ec items av g batch replaced s) (\<lambda>replaced s.
       place_peers sha2 ec items av rest replaced s))"

section \<open>The unsharded target\<close>

record DirectTarget =
  dt_uc :: UnicityCertificate
  dt_policy :: bytes

definition DirectTarget_authenticate ::
  "sha2 \<Rightarrow> 'p k256 \<Rightarrow> UnicityCertificate \<Rightarrow> PartitionTopology \<Rightarrow> SealSession \<Rightarrow> (SealSession, IntegrityError, DirectTarget) st"
where
  "DirectTarget_authenticate sha2 ec uc topology s =
     (if sh_length (stc_shard (uc_shard_tree_certificate uc)) \<noteq> 0
      then (Err (ContextError ''direct target needs the empty shard id''), s)
      else if stc_sibling_hash_list (uc_shard_tree_certificate uc) \<noteq> []
      then (Err (ContextError ''empty shard id with a nonempty shard path''), s)
      else if utc_partition_identifier (uc_unicity_tree_certificate uc) \<noteq> AGGREGATION_PARTITION_ID
      then (Err (ContextError ''target is of another partition''), s)
      else if (case shard_conf_hash topology ShardId_root of
                 Some pin \<Rightarrow> pin \<noteq> uc_shard_configuration_hash uc | None \<Rightarrow> False)
      then (Err (ContextError ''target's shard configuration differs from the pin''), s)
      else
        sbind (map_err (\<lambda>_. TargetError SealRootMismatch) (computed_seal_hash sha2 uc), s) (\<lambda>computed s.
          if dh_data computed \<noteq> us_hash (uc_unicity_seal uc) then (Err (TargetError SealRootMismatch), s)
          else
            let policy = view_policy sha2 (Some topology)
            in sbind (map_prod (map_err TargetError) id (authenticate_seal_under sha2 ec s (uc_unicity_seal uc) policy))
                 (\<lambda>_ s. (Ok \<lparr>dt_uc = uc, dt_policy = policy\<rparr>, s))))"

section \<open>One attempt\<close>

text \<open>An attempt has the seal session of the operation and what its waves share.\<close>

type_synonym 'w attempt = "SealSession \<times> 'w wave"

definition on_wave :: "('w wave \<Rightarrow> ('w wave, 'e, 'a) st) \<Rightarrow> 'w attempt \<Rightarrow> ('w attempt, 'e, 'a) pst" where
  "on_wave f st = (case f (snd st) of (r, v) \<Rightarrow> Some (r, (fst st, v)))"

definition on_session :: "(SealSession \<Rightarrow> (SealSession, 'e, 'a) pst) \<Rightarrow> 'w attempt \<Rightarrow> ('w attempt, 'e, 'a) pst" where
  "on_session f st = map_option (\<lambda>(r, ss). (r, (ss, snd st))) (f (fst st))"

fun verify_items ::
  "sha2 \<Rightarrow> 'p k256 \<Rightarrow> ProofItem list \<Rightarrow> SealSession \<Rightarrow> (SealSession, Stop, unit) st" where
  "verify_items sha2 ec [] s = (Ok (), s)"
| "verify_items sha2 ec (i # items) s =
     sbind (map_prod (map_err (\<lambda>e. StopError (Integrity (EvidenceError e)))) id
       (verify_membership_in sha2 ec s (it_proof i) (it_state_id i) (ip_reference_time (it_proof i)))) (\<lambda>_ s.
       verify_items sha2 ec items s)"

text \<open>The jobs of the exact-root wave: the other groups, each with the root the view names.\<close>

fun wave_jobs :: "AuthenticatedView \<Rightarrow> nat \<Rightarrow> nat \<Rightarrow> Group list \<Rightarrow> Stop + job list" where
  "wave_jobs av mi gi [] = Ok []"
| "wave_jobs av mi gi (g # groups) =
     (if gi = mi then wave_jobs av mi (Suc gi) groups
      else
        rbind (ok_or (StopError (Configuration ''the authenticated view lacks a participating shard''))
          (leaf_of av (gr_shard g))) (\<lambda>leaf.
        rbind (ok_or (StopError (Integrity (CertificateError (gr_shard g)
            ''participating shard has no certified state root in the view'')))
          (case pr_hash (lf_input_record leaf) of Some h \<Rightarrow> if length h = 32 then Some h else None | None \<Rightarrow> None)) (\<lambda>root.
        rbind (wave_jobs av mi (Suc gi) groups) (\<lambda>jobs. Ok ((g, root) # jobs)))))"

definition exact_job :: "(ShardId \<times> 'w BatchAggregatorClient) list \<Rightarrow> 'w Budget \<Rightarrow> 'w fetch_job" where
  "exact_job endpoints b job s =
     (case fetch endpoints (fst job) (Exact (snd job)) b None s of
        (Inl e, s) \<Rightarrow> (Err e, s\<lparr>wv_abort := True\<rparr>)
      | (Inr batch, s) \<Rightarrow> (Ok batch, s))"

definition is_cancel :: "Stop \<Rightarrow> bool" where
  "is_cancel stop \<longleftrightarrow> stop = StopError Cancelled \<or> stop = StopError Timeout"

text \<open>The originating failure of a wave rather than the cancellations it caused.\<close>

fun collect_wave ::
  "(Stop + InclusionProofBatch) list \<Rightarrow> InclusionProofBatch list \<Rightarrow> Stop option \<Rightarrow> InclusionProofBatch list \<times> Stop option" where
  "collect_wave [] batches first_stop = (batches, first_stop)"
| "collect_wave (Inr b # wave) batches first_stop = collect_wave wave (batches @ [b]) first_stop"
| "collect_wave (Inl stop # wave) batches first_stop =
     collect_wave wave batches
       (case first_stop of
          None \<Rightarrow> Some stop
        | Some f \<Rightarrow> if is_cancel f \<and> \<not> is_cancel stop then Some stop else Some f)"

definition run_wave ::
  "'w ProofClient \<Rightarrow> 'w Budget \<Rightarrow> job list \<Rightarrow> 'w wave \<Rightarrow> ('w wave, Stop, InclusionProofBatch list) st" where
  "run_wave cl b jobs s =
     (case cl_executor cl jobs (exact_job (cl_endpoints cl) b) s of
        (wave, s) \<Rightarrow>
          if length wave \<noteq> length jobs
          then (Err (StopError (Configuration ''the wave executor returned a different number of results than jobs'')), s)
          else (case collect_wave wave [] None of
              (batches, Some stop) \<Rightarrow>
                let (cancelled, w) = bg_cancelled b (wv_world s)
                in (Err (if cancelled then StopError Cancelled else stop), s\<lparr>wv_world := w\<rparr>)
            | (batches, None) \<Rightarrow> sbind (Budget_check b s) (\<lambda>_ s. (Ok batches, s))))"

text \<open>Every input gets the replacement of its first state, and the summary is completed.\<close>

definition finish_bundle ::
  "'w Budget \<Rightarrow> nat list \<Rightarrow> InclusionProof option list \<Rightarrow> ShardId \<Rightarrow> u64 \<Rightarrow> nat \<Rightarrow> u64 \<Rightarrow> ConsolidationSummary \<Rightarrow>
   'w attempt \<Rightarrow> ('w attempt, Stop, ProofBundle) pst" where
  "finish_bundle b first_of replaced master master_round derived base_quorum summary st =
     (case those (map (\<lambda>f. replaced ! f) first_of) of
        None \<Rightarrow> None
      | Some proofs \<Rightarrow>
          pst_bind (on_wave (Budget_check b) st) (\<lambda>_ st.
            Some (Ok \<lparr>bu_proofs = proofs, bu_summary = summary\<lparr>
              cs_outer_seals_after := distinct_seals proofs,
              cs_requests := wv_requests (snd st),
              cs_certificates_derived := derived,
              cs_master := Some master,
              cs_master_round := Some master_round,
              cs_consolidation_quorum_checks := st_quorum_checks (SealSession_stats (fst st)) - base_quorum\<rparr>\<rparr>, st)))"

definition run_direct ::
  "sha2 \<Rightarrow> 'p k256 \<Rightarrow> 'w ProofClient \<Rightarrow> ProofItem list \<Rightarrow> Group list \<Rightarrow> nat \<Rightarrow> nat list \<Rightarrow> InclusionProofBatch \<Rightarrow>
   RootRoundBound \<Rightarrow> 'w Budget \<Rightarrow> u64 \<Rightarrow> ConsolidationSummary \<Rightarrow> 'w attempt \<Rightarrow> ('w attempt, Stop, ProofBundle) pst" where
  "run_direct sha2 ec cl items groups mi first_of mbatch bound b base_quorum summary st =
     (let mg = groups ! mi
      in if length (rt_shards (cl_router cl)) \<noteq> 1 \<or> sh_length (gr_shard mg) \<noteq> 0 \<or> length groups \<noteq> 1
         then Some (Err (StopError (Integrity (ContextError ''unsharded certificate for a sharded configuration''))), st)
         else
           pst_bind (on_session (\<lambda>s. Some (map_prod (map_err (\<lambda>e. StopError (Integrity e))) id
             (DirectTarget_authenticate sha2 ec (batch_certificate mbatch) (cl_topology cl) s))) st) (\<lambda>target st.
             let master_round = us_root_chain_round_number (uc_unicity_seal (dt_uc target))
             in if master_round < rb_round bound then Some (Err (StopUnavailable TargetNotYetAvailable True), st)
                else
                  pst_bind (on_wave (Budget_check b) st) (\<lambda>_ st.
                  pst_bind (on_session (\<lambda>s. Some (place_loop sha2 ec items (gr_shard mg) (dt_uc target) (dt_policy target) 0
                      (zip (gr_items mg) (ib_proofs mbatch)) (replicate (length items) None) s)) st) (\<lambda>replaced st.
                    finish_bundle b first_of replaced (gr_shard mg) master_round 0 base_quorum summary st))))"

definition run_view ::
  "sha2 \<Rightarrow> 'p k256 \<Rightarrow> 'w ProofClient \<Rightarrow> ProofItem list \<Rightarrow> Group list \<Rightarrow> nat \<Rightarrow> nat list \<Rightarrow> InclusionProofBatch \<Rightarrow> PartitionView \<Rightarrow>
   RootRoundBound \<Rightarrow> 'w Budget \<Rightarrow> u64 \<Rightarrow> ConsolidationSummary \<Rightarrow> 'w attempt \<Rightarrow> ('w attempt, Stop, ProofBundle) pst" where
  "run_view sha2 ec cl items groups mi first_of mbatch view bound b base_quorum summary st =
     (let mg = groups ! mi
      in pst_bind (on_session (\<lambda>s. map_option (map_prod (map_err (\<lambda>e. StopError (Integrity (ViewError e)))) id)
           (authenticate sha2 ec view (batch_certificate mbatch) (Some (cl_topology cl)) s)) st) (\<lambda>authenticated st.
           let master_round = us_root_chain_round_number (av_seal authenticated)
           in if master_round < rb_round bound then Some (Err (StopUnavailable TargetNotYetAvailable True), st)
              else
                pst_bind (on_wave (Budget_check b) st) (\<lambda>_ st.
                pst_bind (on_session (place sha2 ec items authenticated mg mbatch (replicate (length items) None)) st)
                  (\<lambda>replaced st.
                pst_bind (Some (wave_jobs authenticated mi 0 groups, st)) (\<lambda>jobs st.
                pst_bind (on_wave (run_wave cl b jobs) st) (\<lambda>batches st.
                pst_bind (on_session (place_peers sha2 ec items authenticated (zip jobs batches) replaced) st)
                  (\<lambda>replaced st.
                  finish_bundle b first_of replaced (gr_shard mg) master_round (1 + length jobs) base_quorum summary st)))))))"

definition run_master ::
  "sha2 \<Rightarrow> 'p k256 \<Rightarrow> 'w ProofClient \<Rightarrow> ProofItem list \<Rightarrow> ShardId option \<Rightarrow> Group list \<Rightarrow> nat list \<Rightarrow>
   RootRoundBound \<Rightarrow> 'w Budget \<Rightarrow> u64 \<Rightarrow> ConsolidationSummary \<Rightarrow> 'w attempt \<Rightarrow> ('w attempt, Stop, ProofBundle) pst" where
  "run_master sha2 ec cl items master groups first_of bound b base_quorum summary st =
     (let master_shard = (case master of Some m \<Rightarrow> m | None \<Rightarrow> rb_shard bound)
      in pst_bind (Some (ok_or (StopError (Configuration ''the master shard does not participate''))
           (iter_position (\<lambda>g. gr_shard g = master_shard) groups), st)) (\<lambda>mi st.
         pst_bind (on_wave (fetch (cl_endpoints cl) (groups ! mi) Latest b (cl_master_long_poll cl)) st) (\<lambda>mbatch st.
         pst_bind (Some (check_batch (groups ! mi) items mbatch None, st)) (\<lambda>_ st.
           case ib_partition_view mbatch of
             None \<Rightarrow>
               if sh_length (stc_shard (uc_shard_tree_certificate (batch_certificate mbatch))) \<noteq> 0
               then Some (Err (StopUnavailable PartitionViewUnavailable True), st)
               else run_direct sha2 ec cl items groups mi first_of mbatch bound b base_quorum summary st
           | Some view \<Rightarrow> run_view sha2 ec cl items groups mi first_of mbatch view bound b base_quorum summary st))))"

definition run ::
  "sha2 \<Rightarrow> 'p k256 \<Rightarrow> 'w ProofClient \<Rightarrow> ProofItem list \<Rightarrow> ShardId option \<Rightarrow> 'w Budget \<Rightarrow> bool \<Rightarrow> 'w attempt \<Rightarrow>
   ('w attempt, Stop, ProofBundle) pst" where
  "run sha2 ec cl items master b verified st =
     (let base_quorum = st_quorum_checks (SealSession_stats (fst st))
      in pst_bind (on_wave (ProofClient_group cl items b) st) (\<lambda>(groups, first_of, shard_of, work) st.
         pst_bind (on_wave (Budget_check b) st) (\<lambda>_ st.
         pst_bind (Some (check_context cl (zip items shard_of), st)) (\<lambda>_ st.
         pst_bind (if verified then Some (Ok (), st) else on_session (\<lambda>s. Some (verify_items sha2 ec items s)) st) (\<lambda>_ st.
         pst_bind (Some (map_err (\<lambda>e. StopError (Integrity (EvidenceError e)))
           (RootRoundBound_from_routed (cl_router cl) (zip (map it_proof items) shard_of)), st)) (\<lambda>bound st.
         pst_bind (on_wave (Budget_check b) st) (\<lambda>_ st.
           let before = distinct_seals (map it_proof items);
               summary = \<lparr>cs_outer_proofs = length items, cs_outer_seals_before = before, cs_outer_seals_after = before,
                 cs_already_shared = False, cs_shards = length groups, cs_requests = 0, cs_master = None,
                 cs_master_round = None, cs_required_round = rb_round bound,
                 cs_consolidation_quorum_checks = st_quorum_checks (SealSession_stats (fst st)) - base_quorum,
                 cs_input_quorum_checks = 0, cs_verification_quorum_checks = 0, cs_certificates_derived = 0,
                 cs_admission = work\<rparr>;
               (shared, st) = (if before = 1
                 then (case authenticate_seal_under sha2 ec (fst st)
                           (uc_unicity_seal (ip_unicity_certificate (it_proof (items ! 0))))
                           (view_policy sha2 (Some (cl_topology cl))) of
                         (r, ss) \<Rightarrow> (is_ok r, (ss, snd st)))
                 else (False, st))
           in if shared
              then Some (Ok \<lparr>bu_proofs = map it_proof items, bu_summary = summary\<lparr>cs_already_shared := True,
                  cs_consolidation_quorum_checks := st_quorum_checks (SealSession_stats (fst st)) - base_quorum\<rparr>\<rparr>, st)
              else run_master sha2 ec cl items master groups first_of bound b base_quorum summary st)))))))"

section \<open>The service\<close>

definition start :: "'w ProofClient \<Rightarrow> 'w ConsolidateOptions \<Rightarrow> 'w \<Rightarrow> 'w Budget \<times> 'w wave" where
  "start cl options w =
     (let (now, w) = cl_now_ms cl w
      in (\<lparr>bg_now_ms = cl_now_ms cl, bg_deadline_ms = saturating_add now (co_timeout_ms options),
           bg_cancelled = co_cancelled options\<rparr>, \<lparr>wv_abort = False, wv_requests = 0, wv_world = w\<rparr>))"

definition consolidate ::
  "sha2 \<Rightarrow> 'p k256 \<Rightarrow> 'w ProofClient \<Rightarrow> Token \<Rightarrow> 'w ConsolidateOptions \<Rightarrow> 'w \<Rightarrow>
   ('w, ConsolidationError, ConsolidationOutcome) pst" where
  "consolidate sha2 ec cl token options w =
     (let (b, v) = start cl options w
      in case Budget_check b v of
           (Inl stop, v) \<Rightarrow> Some (Err (stop_error stop), wv_world v)
         | (Inr _, v) \<Rightarrow>
             (case verify_token_in_session sha2 ec token (SealSession_new (cl_trust_base cl)) (cl_registry cl) (cl_policy cl) of
                (Inl e, _) \<Rightarrow> Some (Err (InvalidToken e), wv_world v)
              | (Inr _, ss) \<Rightarrow>
                  let input_quorum_checks = st_quorum_checks (SealSession_stats ss);
                      items = map (\<lambda>o'. \<lparr>it_state_id = op_state_id o', it_proof = op_proof o'\<rparr>) (outer_proofs sha2 token)
                  in case run sha2 ec cl items (co_master options) b True (ss, v) of
                       None \<Rightarrow> None
                     | Some (Inl (StopUnavailable reason retryable), _, v) \<Rightarrow> Some (Ok (Unavailable reason retryable), wv_world v)
                     | Some (Inl (StopError e), _, v) \<Rightarrow> Some (Err e, wv_world v)
                     | Some (Inr bundle, _, v) \<Rightarrow>
                         let summary = (bu_summary bundle)\<lparr>cs_input_quorum_checks := input_quorum_checks\<rparr>
                         in if cs_already_shared summary
                            then Some (Ok (Consolidated token
                              (summary\<lparr>cs_verification_quorum_checks := input_quorum_checks\<rparr>)), wv_world v)
                            else
                              case rebuild_token token (bu_proofs bundle) of
                                Inl m \<Rightarrow> Some (Err (Configuration m), wv_world v)
                              | Inr rebuilt \<Rightarrow>
                                  (case verify_token_with_seal_stats sha2 ec rebuilt (cl_trust_base cl) (cl_registry cl)
                                          (cl_policy cl) of
                                     (Inl e, _) \<Rightarrow> Some (Err (Integrity (VerificationFailed e)), wv_world v)
                                   | (Inr _, stats) \<Rightarrow>
                                       (case Budget_check b v of
                                          (Inl stop, v) \<Rightarrow> Some (Err (stop_error stop), wv_world v)
                                        | (Inr _, v) \<Rightarrow>
                                            Some (Ok (Consolidated rebuilt (summary\<lparr>cs_verification_quorum_checks :=
                                              st_quorum_checks stats\<rparr>)), wv_world v)))))"

definition consolidate_proofs ::
  "sha2 \<Rightarrow> 'p k256 \<Rightarrow> 'w ProofClient \<Rightarrow> ProofItem list \<Rightarrow> 'w ConsolidateOptions \<Rightarrow> 'w \<Rightarrow>
   ('w, ConsolidationError, BundleOutcome) pst" where
  "consolidate_proofs sha2 ec cl items options w =
     (let (b, v) = start cl options w
      in case run sha2 ec cl items (co_master options) b False (SealSession_new (cl_trust_base cl), v) of
           None \<Rightarrow> None
         | Some (Inr bundle, _, v) \<Rightarrow> Some (Ok (BundleConsolidated bundle), wv_world v)
         | Some (Inl (StopUnavailable reason retryable), _, v) \<Rightarrow> Some (Ok (BundleUnavailable reason retryable), wv_world v)
         | Some (Inl (StopError e), _, v) \<Rightarrow> Some (Err e, wv_world v))"

end
