(* ===== verification/Proof_Client_Sound.thy ===== *)
theory Proof_Client_Sound
  imports Proof_Client
begin

text \<open>
  What an attempt of the consolidation service guarantees, whatever the aggregators, the clock, the caller and
  the executor do: it returns, and a consolidated token is verified, keeps its transactions and carries one
  seal that is at least as new as the seals it replaces.
\<close>

section \<open>Operations that return\<close>

text \<open>\<open>returns m P\<close>: the operation \<open>m\<close> returns, and \<open>P\<close> holds of the value of a success.\<close>

definition returns :: "('s, 'e, 'a) pst \<Rightarrow> ('a \<Rightarrow> bool) \<Rightarrow> bool" where
  "returns m P \<longleftrightarrow> (\<exists>r s. m = Some (r, s) \<and> (\<forall>x. r = Ok x \<longrightarrow> P x))"

lemma returns_Some [simp]: "returns (Some (r, s)) P \<longleftrightarrow> (\<forall>x. r = Ok x \<longrightarrow> P x)"
  by (simp add: returns_def)

lemma returns_mono: "returns m P \<Longrightarrow> (\<And>x. P x \<Longrightarrow> R x) \<Longrightarrow> returns m R"
  by (auto simp: returns_def)

lemma returns_bind:
  assumes "returns m P" "\<And>x s. P x \<Longrightarrow> returns (f x s) R"
  shows "returns (pst_bind m f) R"
proof -
  obtain r s where "m = Some (r, s)" "\<And>x. r = Ok x \<Longrightarrow> P x" using assms(1) by (auto simp: returns_def)
  then show ?thesis using assms(2) by (cases r) auto
qed

lemma returns_on_wave: "(\<And>x v. f (snd st) = (Ok x, v) \<Longrightarrow> P x) \<Longrightarrow> returns (on_wave f st) P"
  by (auto simp: on_wave_def split: prod.split)

lemma returns_on_session: "returns (f (fst st)) P \<Longrightarrow> returns (on_session f st) P"
  by (auto simp: on_session_def returns_def)

lemmas returns_check = returns_on_wave [where P = "\<lambda>_. True", OF TrueI]

section \<open>Configured clients\<close>

text \<open>The shard ids of a view that an aggregator answers are well formed: the type \<open>ShardId\<close> has no others.\<close>

definition answers_wf :: "'w BatchAggregatorClient \<Rightarrow> bool" where
  "answers_wf c \<longleftrightarrow>
     (\<forall>request options w batch view. fst (get_inclusion_proofs c request options w) = Ok batch \<longrightarrow>
        ib_partition_view batch = Some view \<longrightarrow> PartitionView_wf view) \<and>
     (\<forall>request options wait w waited view. fst (get_inclusion_proofs_with_wait c request options wait w) = Ok waited \<longrightarrow>
        ib_partition_view (wb_batch waited) = Some view \<longrightarrow> PartitionView_wf view)"

definition client_ok :: "'w ProofClient \<Rightarrow> bool" where
  "client_ok cl \<longleftrightarrow> rt_shards (cl_router cl) \<noteq> [] \<and>
     cl_endpoint_by_shard cl = map (endpoint_index (cl_endpoints cl)) (rt_shards (cl_router cl)) \<and>
     (\<forall>(shard, c)\<in>set (cl_endpoints cl). answers_wf c)"

lemma ShardRouter_new_error: "ShardRouter_new t = Err e \<Longrightarrow> \<exists>m. e = InvalidTopology m"
proof -
  have ids: "check_shard_ids ids = Err e \<Longrightarrow> \<exists>m. e = InvalidTopology m" for ids
    by (induction ids) (auto split: if_splits)
  show "ShardRouter_new t = Err e \<Longrightarrow> \<exists>m. e = InvalidTopology m"
    using ids [of "pt_scheme t"]
    by (cases "check_shard_ids (pt_scheme t)")
      (auto simp: ShardRouter_new_def canonical_order_def canonical_order_with_def Let_def split: if_splits)
qed

lemma router_nonempty:
  assumes "ShardRouter_new t = Ok r"
  shows "rt_shards r \<noteq> []"
proof -
  from assms obtain ids where ids: "canonical_order_with t MAX_PARTITION_VIEW_LEAVES = Ok ids" "rt_shards r = ids"
    by (auto simp: ShardRouter_new_def canonical_order_def rbind_Inr_iff)
  show ?thesis
  proof (cases "pt_scheme t = []")
    case True
    then show ?thesis using ids by (auto simp: canonical_order_with_def)
  next
    case False
    then have "ids = sort_by canonical_cmp (pt_scheme t)"
      using ids(1) by (auto simp: canonical_order_with_def rbind_Inr_iff Let_def split: if_splits)
    then show ?thesis using False ids(2) bool_order.set_sort_by [of canonical_cmp "pt_scheme t"] by (metis set_empty)
  qed
qed

lemma ProofClient_new_ok:
  assumes "ProofClient_new topology endpoints tb clock executor = Ok cl" "\<forall>(shard, c)\<in>set endpoints. answers_wf c"
  shows "client_ok cl" "cl_trust_base cl = tb" "cl_topology cl = topology"
  using assms router_nonempty by (auto simp: ProofClient_new_def client_ok_def result_simps)

lemma client_ok_update [simp]:
  "client_ok (with_verification cl registry policy) = client_ok cl"
  "client_ok (with_master_long_poll cl lp) = client_ok cl"
  by (simp_all add: client_ok_def with_verification_def with_master_long_poll_def)

lemma iter_position_Some: "iter_position P xs = Some i \<Longrightarrow> i < length xs \<and> P (xs ! i)"
  by (induction xs arbitrary: i) (auto split: if_splits)

section \<open>Admission\<close>

text \<open>After \<open>i\<close> inputs: every input has its first occurrence, which is in a group of its shard.\<close>

definition grouped :: "'w ProofClient \<Rightarrow> nat \<Rightarrow> grouping \<Rightarrow> bool" where
  "grouped cl i g \<longleftrightarrow> length (gp_first_of g) = i \<and> length (gp_shard_of g) = i \<and>
     length (gp_slots g) = length (rt_shards (cl_router cl)) \<and>
     snd ` set (gp_seen g) \<subseteq> set (gp_first_of g) \<and>
     (\<forall>f\<in>set (gp_first_of g). f < i \<and> (\<exists>grp. Some grp \<in> set (gp_slots g) \<and> f \<in> set (gr_items grp))) \<and>
     (\<forall>grp. Some grp \<in> set (gp_slots g) \<longrightarrow> gr_items grp \<noteq> [] \<and> set (gr_items grp) \<subseteq> {..<i} \<and>
        gr_endpoint grp < length (cl_endpoints cl))"

lemma route_index_less: "rt_shards r \<noteq> [] \<Longrightarrow> route_index r state_id < length (rt_shards r)"
  by (auto simp: route_index_def dest: binary_search_by_Some split: option.splits)

lemma join_group_slots:
  assumes "join_group cl si i state_id g = Ok g'" "client_ok cl" "si < length (rt_shards (cl_router cl))"
  shows "\<exists>grp. g' = g\<lparr>gp_slots := (gp_slots g)[si := Some grp]\<rparr> \<and>
    (\<forall>h. gp_slots g ! si = Some h \<longrightarrow>
       gr_endpoint grp = gr_endpoint h \<and> set (gr_items grp) = insert i (set (gr_items h))) \<and>
    (gp_slots g ! si = None \<longrightarrow> gr_endpoint grp < length (cl_endpoints cl) \<and> set (gr_items grp) = {i})"
proof (cases "gp_slots g ! si")
  case (Some h)
  then show ?thesis using assms(1)
    by (intro exI [of _ "h\<lparr>gr_items := gr_items h @ [i], gr_ids := gr_ids h @ [state_id]\<rparr>"])
      (auto simp: join_group_def Let_def split: if_splits)
next
  case None
  then obtain e where e: "cl_endpoint_by_shard cl ! si = Some e" using assms(1)
    by (cases "cl_endpoint_by_shard cl ! si") (auto simp: join_group_def)
  then have "endpoint_index (cl_endpoints cl) (rt_shards (cl_router cl) ! si) = Some e"
    using assms(2,3) by (simp add: client_ok_def)
  then have "e < length (cl_endpoints cl)" by (auto simp: endpoint_index_def dest: iter_position_Some)
  then show ?thesis
    using assms(1) None e
    by (intro exI [of _ "\<lparr>gr_endpoint = e, gr_shard = rt_shards (cl_router cl) ! si, gr_items = [i], gr_ids = [state_id]\<rparr>"])
      (auto simp: join_group_def Let_def split: if_splits)
qed

lemma grouped_join:
  assumes g: "grouped cl i g" and si: "si < length (gp_slots g)"
    and h: "\<And>h. gp_slots g ! si = Some h \<Longrightarrow>
       gr_endpoint grp = gr_endpoint h \<and> set (gr_items grp) = insert i (set (gr_items h))"
    and none: "gp_slots g ! si = None \<Longrightarrow> gr_endpoint grp < length (cl_endpoints cl) \<and> set (gr_items grp) = {i}"
    and g': "gp_first_of g' = gp_first_of g @ [i]" "length (gp_shard_of g') = Suc i"
      "snd ` set (gp_seen g') \<subseteq> insert i (snd ` set (gp_seen g))" "gp_slots g' = (gp_slots g)[si := Some grp]"
  shows "grouped cl (Suc i) g'"
proof -
  have i: "i \<in> set (gr_items grp)" using h none by (cases "gp_slots g ! si") auto
  have own: "Some grp \<in> set (gp_slots g')" using si g'(4) by (simp add: set_update_memI)
  have "\<exists>x. Some x \<in> set (gp_slots g') \<and> f \<in> set (gr_items x)" if y: "Some y \<in> set (gp_slots g)" "f \<in> set (gr_items y)" for f y
  proof -
    obtain j where j: "j < length (gp_slots g)" "gp_slots g ! j = Some y" using y(1) by (metis in_set_conv_nth)
    show ?thesis
    proof (cases "j = si")
      case True
      then show ?thesis using h [of y] j y(2) own by auto
    next
      case False
      then have "gp_slots g' ! j = Some y" "j < length (gp_slots g')" using j g'(4) by auto
      then show ?thesis using y(2) nth_mem by metis
    qed
  qed
  then have first: "\<forall>f\<in>set (gp_first_of g'). f < Suc i \<and> (\<exists>x. Some x \<in> set (gp_slots g') \<and> f \<in> set (gr_items x))"
    using g i own g'(1) unfolding grouped_def by (auto simp: less_Suc_eq)
  have old: "gr_items x \<noteq> [] \<and> set (gr_items x) \<subseteq> {..<i} \<and> gr_endpoint x < length (cl_endpoints cl)"
    if "Some x \<in> set (gp_slots g)" for x using g that by (auto simp: grouped_def)
  have "gr_items grp \<noteq> [] \<and> set (gr_items grp) \<subseteq> {..<Suc i} \<and> gr_endpoint grp < length (cl_endpoints cl)"
  proof (cases "gp_slots g ! si")
    case (Some y)
    then have "Some y \<in> set (gp_slots g)" using si by (metis nth_mem)
    then show ?thesis using h [OF Some] old [of y] i by auto
  qed (use none i in auto)
  moreover have "x = grp \<or> Some x \<in> set (gp_slots g)" if "Some x \<in> set (gp_slots g')" for x
    using that set_update_subset_insert [of "gp_slots g" si "Some grp"] g'(4) by auto
  ultimately have "gr_items x \<noteq> [] \<and> set (gr_items x) \<subseteq> {..<Suc i} \<and> gr_endpoint x < length (cl_endpoints cl)"
    if "Some x \<in> set (gp_slots g')" for x
    using that old [of x] by (metis lessThan_Suc subset_insertI2)
  moreover have "snd ` set (gp_seen g) \<subseteq> set (gp_first_of g)" using g by (simp add: grouped_def)
  then have "snd ` set (gp_seen g') \<subseteq> set (gp_first_of g')" using g'(1,3) by simp blast
  ultimately show ?thesis using g g' first by (simp add: grouped_def)
qed

lemma group_item_grouped:
  assumes ok: "client_ok cl" and g: "grouped cl i g" and r: "group_item cl items i input g = Ok g'"
  shows "grouped cl (Suc i) g'"
proof -
  let ?si = "route_index (cl_router cl) (it_state_id input)"
  have si: "?si < length (rt_shards (cl_router cl))" using ok route_index_less by (simp add: client_ok_def)
  show ?thesis
  proof (cases "map_of (gp_seen g) (sid_bytes (it_state_id input))")
    case (Some first)
    then have "first \<in> snd ` set (gp_seen g)" by (metis image_eqI map_of_SomeD snd_conv)
    then have "first \<in> set (gp_first_of g)" using g by (auto simp: grouped_def)
    moreover have "gp_first_of g' = gp_first_of g @ [first]" "length (gp_shard_of g') = Suc (length (gp_shard_of g))"
      "gp_slots g' = gp_slots g" "gp_seen g' = gp_seen g"
      using r Some by (auto simp: group_item_def Let_def split: if_splits)
    ultimately show ?thesis using g lessThan_Suc [of i] unfolding grouped_def by (simp add: less_Suc_eq) blast
  next
    case None
    then obtain g1 where g1: "join_group cl ?si i (it_state_id input) g1 = Ok g'" "gp_slots g1 = gp_slots g"
      "gp_first_of g1 = gp_first_of g @ [i]" "length (gp_shard_of g1) = Suc i"
      "snd ` set (gp_seen g1) = insert i (snd ` set (gp_seen g))"
      using r g by (auto simp: group_item_def Let_def grouped_def split: if_splits)
    from join_group_slots [OF g1(1) ok si] obtain grp where grp: "g' = g1\<lparr>gp_slots := (gp_slots g1)[?si := Some grp]\<rparr>"
      "\<forall>h. gp_slots g1 ! ?si = Some h \<longrightarrow> gr_endpoint grp = gr_endpoint h \<and> set (gr_items grp) = insert i (set (gr_items h))"
      "gp_slots g1 ! ?si = None \<longrightarrow> gr_endpoint grp < length (cl_endpoints cl) \<and> set (gr_items grp) = {i}" by (elim exE conjE) (rule that)
    show ?thesis
      by (rule grouped_join [OF g, of ?si grp]) (use grp g1 g si in \<open>auto simp: grouped_def\<close>)
  qed
qed

lemma group_loop_grouped:
  "client_ok cl \<Longrightarrow> grouped cl i g \<Longrightarrow> group_loop cl b items i rest g s = (Ok g', s') \<Longrightarrow> grouped cl (i + length rest) g'"
proof (induction cl b items i rest g s rule: group_loop.induct)
  case (2 cl b items i input rest g s)
  obtain c s1 where c: "(if i mod 64 = 0 then Budget_check b s else (Ok 0, s)) = (c, s1)" by fastforce
  with 2(4) obtain n g1 where r: "c = Ok n" "group_item cl items i input g = Ok g1"
    "group_loop cl b items (Suc i) rest g1 s1 = (Ok g', s')" by (auto split: sum.splits)
  from r(2) have "(group_item cl items i input g, s1) = (Ok g1, s1)" by simp
  from 2(1) [OF c [unfolded r(1)] this 2(2) group_item_grouped [OF 2(2,3) r(2)] r(3)] show ?case by simp
qed simp

text \<open>What admission hands on: indexes and groups of the inputs, every first occurrence in a group.\<close>

definition admitted :: "'w ProofClient \<Rightarrow> nat \<Rightarrow> Group list \<times> nat list \<times> nat list \<times> AdmissionWork \<Rightarrow> bool" where
  "admitted cl n = (\<lambda>(groups, first_of, shard_of, work).
     length first_of = n \<and> length shard_of = n \<and> 0 < n \<and>
     (\<forall>f\<in>set first_of. f < n \<and> (\<exists>grp\<in>set groups. f \<in> set (gr_items grp))) \<and>
     (\<forall>grp\<in>set groups. gr_items grp \<noteq> [] \<and> set (gr_items grp) \<subseteq> {..<n} \<and> gr_endpoint grp < length (cl_endpoints cl)))"

lemma group_admitted:
  assumes "client_ok cl" "ProofClient_group cl items b s = (Ok r, s')"
  shows "admitted cl (length items) r"
proof -
  let ?g0 = "\<lparr>gp_seen = [], gp_first_of = [], gp_shard_of = [],
    gp_slots = replicate (length (rt_shards (cl_router cl))) None, gp_work = \<lparr>aw_steps = 0, aw_group_lookups = 0\<rparr>\<rparr>"
  have "grouped cl 0 ?g0" by (auto simp: grouped_def)
  moreover obtain x s1 where x: "group_loop cl b items 0 items ?g0 s = (x, s1)" by fastforce
  with assms(2) obtain g where g: "x = Ok g" "r = (List.map_filter id (gp_slots g), gp_first_of g, gp_shard_of g, gp_work g)" "items \<noteq> []"
    by (auto simp: ProofClient_group_def split: if_splits sum.splits)
  ultimately have "grouped cl (length items) g" using group_loop_grouped [OF assms(1)] x by fastforce
  moreover have "set (List.map_filter id (gp_slots g)) = {grp. Some grp \<in> set (gp_slots g)}"
    by (force simp: List.map_filter_def)
  ultimately show ?thesis using g(2,3) by (simp add: admitted_def grouped_def Bex_def)
qed

section \<open>Replacement under one seal\<close>

definition sealed_by :: "UnicitySeal \<Rightarrow> InclusionProof option list \<Rightarrow> bool" where
  "sealed_by seal replaced \<longleftrightarrow> (\<forall>p. Some p \<in> set replaced \<longrightarrow> uc_unicity_seal (ip_unicity_certificate p) = seal)"

text \<open>\<open>placed seal N R R'\<close>: \<open>R'\<close> has the entries of \<open>R\<close> and one at every index in \<open>N\<close>, under the seal.\<close>

definition placed :: "UnicitySeal \<Rightarrow> nat set \<Rightarrow> InclusionProof option list \<Rightarrow> InclusionProof option list \<Rightarrow> bool" where
  "placed seal N R R' \<longleftrightarrow> length R' = length R \<and> (sealed_by seal R \<longrightarrow> sealed_by seal R') \<and>
     (\<forall>i<length R. i \<in> N \<or> R ! i \<noteq> None \<longrightarrow> R' ! i \<noteq> None)"

lemma placed_trans: "placed seal M R S \<Longrightarrow> placed seal N S T \<Longrightarrow> placed seal (M \<union> N) R T"
  by (auto simp: placed_def)

lemma placed_update:
  assumes "uc_unicity_seal (ip_unicity_certificate p) = seal"
  shows "placed seal {i} R (R[i := Some p])"
proof -
  have "R[i := Some p] ! j \<noteq> None" if "j < length R" "j = i \<or> R ! j \<noteq> None" for j
    using that by (cases "i = j") auto
  moreover have "sealed_by seal R \<longrightarrow> sealed_by seal (R[i := Some p])"
    using assms set_update_subset_insert [of R i "Some p"] by (auto simp: sealed_by_def)
  ultimately show ?thesis by (simp add: placed_def)
qed

lemma replacement_certificate: "replacement_proof original served uc = Ok p \<Longrightarrow> ip_unicity_certificate p = uc"
  by (auto simp: replacement_proof_def split: if_splits)

lemma place_loop_placed:
  "place_loop sha2 ec items shard cert policy k jobs R s = (Ok R', s') \<Longrightarrow>
   placed (uc_unicity_seal cert) (fst ` set jobs) R R'"
proof (induction sha2 ec items shard cert policy k jobs R s rule: place_loop.induct)
  case (2 sha2 ec items shard cert policy k idx served rest R s)
  from 2(2) obtain p where p: "replacement_proof (it_proof (items ! idx)) (bx_proof served) cert = Ok p"
    by (cases "replacement_proof (it_proof (items ! idx)) (bx_proof served) cert") auto
  obtain v s1 where v: "verify_membership_under sha2 ec s p (it_state_id (items ! idx)) (ip_reference_time p) policy = (v, s1)"
    by fastforce
  then have "v = Ok ()" and r: "place_loop sha2 ec items shard cert policy (Suc k) rest (R[idx := Some p]) s1 = (Ok R', s')"
    using 2(2) p by (auto simp: map_err_Inr_iff split: sum.splits)
  then have "placed (uc_unicity_seal cert) (fst ` set rest) (R[idx := Some p]) R'" using 2(1) p v by force
  moreover have "placed (uc_unicity_seal cert) {idx} R (R[idx := Some p])"
    using replacement_certificate [OF p] by (intro placed_update) simp
  ultimately show ?case using placed_trans by fastforce
qed (simp add: placed_def)

lemma place_returns:
  assumes "av_ok sha2 av" "length (ib_proofs batch) = length (gr_items g)"
  shows "returns (place sha2 ec items av g batch R s) (placed (av_seal av) (set (gr_items g)) R)"
proof (cases "binary_search_by (\<lambda>l. canonical_cmp (lf_shard_id l) (gr_shard g)) (av_leaves av)")
  case None
  then show ?thesis by (simp add: place_def certificate_of_def)
next
  case (Some i)
  then have "i < length (av_leaves av)" by (auto dest: binary_search_by_Some)
  then obtain sc uc where sc: "derive av i = Some (Ok sc)" "sc_certificate sc = Some uc" "uc_unicity_seal uc = av_seal av"
    using derive_ok [OF assms(1)] unfolding derived_from_def by fastforce
  have "fst ` set (zip (gr_items g) (ib_proofs batch)) = set (gr_items g)"
    using assms(2) by (metis map_fst_zip set_map)
  then have "placed (av_seal av) (set (gr_items g)) R R'"
    if "place_loop sha2 ec items (gr_shard g) uc (av_policy av) 0 (zip (gr_items g) (ib_proofs batch)) R s = (Ok R', s')" for R' s'
    using place_loop_placed [OF that] sc(3) by simp
  then show ?thesis using Some sc
    by (cases "place_loop sha2 ec items (gr_shard g) uc (av_policy av) 0 (zip (gr_items g) (ib_proofs batch)) R s")
      (simp add: place_def certificate_of_def)
qed

lemma check_batch_length: "check_batch g items batch exact = Ok () \<Longrightarrow> length (ib_proofs batch) = length (gr_items g)"
  by (auto simp: check_batch_def split: if_splits)

lemma place_peers_returns:
  assumes "av_ok sha2 av"
  shows "returns (place_peers sha2 ec items av jobs R s) (placed (av_seal av) (\<Union>j\<in>set jobs. set (gr_items (fst (fst j)))) R)"
proof (induction jobs arbitrary: R s)
  case Nil
  then show ?case by (simp add: placed_def)
next
  case (Cons j jobs)
  obtain g root batch where j: "j = ((g, root), batch)" by (metis surj_pair)
  show ?case unfolding j place_peers.simps
  proof (rule returns_bind [where P = "\<lambda>_. length (ib_proofs batch) = length (gr_items g)"])
    show "returns (Some (check_batch g items batch (Some root), s)) (\<lambda>_. length (ib_proofs batch) = length (gr_items g))"
      using check_batch_length by simp
    fix x s1 assume "length (ib_proofs batch) = length (gr_items g)"
    then show "returns (pst_bind (place sha2 ec items av g batch R s1) (place_peers sha2 ec items av jobs))
        (placed (av_seal av) (\<Union>j\<in>set (((g, root), batch) # jobs). set (gr_items (fst (fst j)))) R)"
      using returns_mono [OF Cons.IH] placed_trans by (intro returns_bind [OF place_returns [OF assms]]) auto
  qed
qed

lemma wave_jobs_cover:
  "wave_jobs av mi gi groups = Ok jobs \<Longrightarrow> j < length groups \<Longrightarrow> gi + j \<noteq> mi \<Longrightarrow> groups ! j \<in> fst ` set jobs"
proof (induction av mi gi groups arbitrary: j jobs rule: wave_jobs.induct)
  case (2 av mi gi g groups)
  show ?case
  proof (cases "gi = mi")
    case True
    then show ?thesis using 2(1) [OF True, of jobs "j - 1"] 2(3-5) by (cases j) auto
  next
    case False
    then obtain leaf root rest where r: "leaf_of av (gr_shard g) = Some leaf" "wave_jobs av mi (Suc gi) groups = Ok rest"
      "jobs = (g, root) # rest"
      "(case pr_hash (lf_input_record leaf) of Some h \<Rightarrow> if length h = 32 then Some h else None | None \<Rightarrow> None) = Some root"
      using 2(3) by (auto simp: rbind_Inr_iff ok_or_Inr_iff)
    then have "groups ! i \<in> fst ` set rest" if "i < length groups" "Suc gi + i \<noteq> mi" for i
      using 2(2) [OF False _ _ r(2) that] by simp
    then show ?thesis using r(3) 2(4,5) by (cases j) auto
  qed
qed simp

lemma collect_wave_length:
  "collect_wave wave bs first = (batches, None) \<Longrightarrow> first = None \<and> length batches = length bs + length wave"
  by (induction wave bs first rule: collect_wave.induct) (auto split: option.splits if_splits)

lemma sbind_const: "sbind m (\<lambda>_ s. (r, s)) = (Ok y, s') \<Longrightarrow> r = Ok y"
  by (cases m) (auto split: sum.splits)

lemma run_wave_length: "run_wave cl b jobs s = (Ok batches, s') \<Longrightarrow> length batches = length jobs"
  by (auto simp: run_wave_def Let_def dest!: collect_wave_length sbind_const
      split: prod.splits if_splits option.splits sum.splits)

section \<open>The bundle\<close>

text \<open>A bundle has one proof per input, all under one seal; either nothing was replaced, or every round is at
  least every round before.\<close>

definition bundle_ok :: "ProofItem list \<Rightarrow> ProofBundle \<Rightarrow> bool" where
  "bundle_ok items bu \<longleftrightarrow> length (bu_proofs bu) = length items \<and> distinct_seals (bu_proofs bu) = 1 \<and>
     cs_outer_seals_after (bu_summary bu) = 1 \<and>
     (if cs_already_shared (bu_summary bu) then bu_proofs bu = map it_proof items
      else \<forall>p\<in>set (bu_proofs bu). \<forall>i\<in>set items. seal_round (it_proof i) \<le> seal_round p)"

lemma distinct_seals_one:
  assumes "proofs \<noteq> []" "\<forall>p\<in>set proofs. uc_unicity_seal (ip_unicity_certificate p) = seal"
  shows "distinct_seals proofs = 1"
proof -
  have "set (map (\<lambda>p. UnicitySeal_to_cbor (uc_unicity_seal (ip_unicity_certificate p))) proofs) = {UnicitySeal_to_cbor seal}"
    using assms by (cases proofs) auto
  then show ?thesis unfolding distinct_seals_def by simp
qed

lemma those_Some: "those xs = Some ys \<longleftrightarrow> xs = map Some ys"
proof (induction xs arbitrary: ys)
  case (Cons x xs)
  then show ?case by (cases x; cases ys) auto
qed auto

lemma finish_bundle_ok:
  assumes first: "length first_of = length items" "items \<noteq> []" "\<forall>f\<in>set first_of. f < length R \<and> R ! f \<noteq> None"
    and R: "sealed_by seal R" and s: "\<not> cs_already_shared summary"
    and new: "\<forall>i\<in>set items. seal_round (it_proof i) \<le> us_root_chain_round_number seal"
  shows "returns (finish_bundle b first_of R master master_round derived base summary st) (bundle_ok items)"
proof -
  define proofs where "proofs = map (\<lambda>f. the (R ! f)) first_of"
  have those: "those (map (\<lambda>f. R ! f) first_of) = Some proofs" using first(3) by (auto simp: those_Some proofs_def)
  have seals: "\<forall>p\<in>set proofs. uc_unicity_seal (ip_unicity_certificate p) = seal"
  proof
    fix p assume "p \<in> set proofs"
    then obtain f where f: "f \<in> set first_of" "p = the (R ! f)" by (auto simp: proofs_def)
    then have "R ! f = Some p" "f < length R" using first(3) by auto
    then have "Some p \<in> set R" by (metis nth_mem)
    then show "uc_unicity_seal (ip_unicity_certificate p) = seal" using R by (simp add: sealed_by_def)
  qed
  have len: "length proofs = length items" using first(1) by (simp add: proofs_def)
  then have one: "distinct_seals proofs = 1" using first(2) seals by (intro distinct_seals_one) auto
  have "\<forall>p\<in>set proofs. \<forall>i\<in>set items. seal_round (it_proof i) \<le> seal_round p" using new seals by (simp add: seal_round_def)
  then show ?thesis unfolding finish_bundle_def those
    using len one s by (auto simp: bundle_ok_def intro!: returns_bind [OF returns_check])
qed

section \<open>An attempt\<close>

lemma returns_map_err: "returns m P \<Longrightarrow> returns (map_option (map_prod (map_err f) id) m) P"
  by (auto simp: returns_def map_err_Inr_iff)

lemma authenticate_returns:
  assumes "PartitionView_wf view"
  shows "returns (authenticate sha2 ec view enclosing pins s) (av_ok sha2)"
proof -
  have "\<exists>x. authenticate_with sha2 a view enclosing pins s i = Some x" for a i
  proof -
    let ?t = "case pins of Some pinned \<Rightarrow> Ok pinned | None \<Rightarrow> rbind (check_bounds view) (\<lambda>_. Ok (candidate_topology view))"
    obtain r where "pbind (Some ?t) (verify_tree sha2 view enclosing) = Some r"
      using pbind_returns [of "Some ?t" "verify_tree sha2 view enclosing"] verify_tree_returns [OF assms] by blast
    then show ?thesis unfolding authenticate_with_def by (cases r) (simp_all add: Let_def)
  qed
  then obtain r s' where "authenticate sha2 ec view enclosing pins s = Some (r, s')"
    unfolding authenticate_def by (metis surj_pair)
  moreover from this have "av_ok sha2 av" if "r = Ok av" for av
    using authenticate_with_ok(1) [OF _ assms, of sha2 "authenticate_seal_under sha2 ec" enclosing pins s
        "authority_identity sha2 s" av s'] that unfolding authenticate_def by simp
  ultimately show ?thesis by simp
qed

text \<open>The inputs of the steps after admission.\<close>

definition ready :: "'w ProofClient \<Rightarrow> ProofItem list \<Rightarrow> Group list \<Rightarrow> nat list \<Rightarrow> RootRoundBound \<Rightarrow> ConsolidationSummary \<Rightarrow> bool" where
  "ready cl items groups first_of bound summary \<longleftrightarrow> client_ok cl \<and> items \<noteq> [] \<and> length first_of = length items \<and>
     (\<forall>f\<in>set first_of. f < length items \<and> (\<exists>grp\<in>set groups. f \<in> set (gr_items grp))) \<and>
     (\<forall>grp\<in>set groups. gr_endpoint grp < length (cl_endpoints cl)) \<and> \<not> cs_already_shared summary \<and>
     (\<forall>i\<in>set items. seal_round (it_proof i) \<le> rb_round bound)"

lemma placed_finish:
  assumes "ready cl items groups first_of bound summary"
    and "placed seal N (replicate (length items) None) R" "\<And>grp. grp \<in> set groups \<Longrightarrow> set (gr_items grp) \<subseteq> N"
    and "rb_round bound \<le> us_root_chain_round_number seal"
  shows "returns (finish_bundle b first_of R master master_round derived base summary st) (bundle_ok items)"
proof (rule finish_bundle_ok)
  have len: "length R = length items" using assms(2) by (simp add: placed_def)
  show "\<forall>f\<in>set first_of. f < length R \<and> R ! f \<noteq> None"
    using assms(1-3) len unfolding ready_def placed_def by fastforce
  show "sealed_by seal R" using assms(2) by (simp add: placed_def sealed_by_def)
  show "\<forall>i\<in>set items. seal_round (it_proof i) \<le> us_root_chain_round_number seal"
    using assms(1,4) by (auto simp: ready_def)
qed (use assms(1) in \<open>auto simp: ready_def\<close>)

lemma run_direct_returns:
  assumes r: "ready cl items groups first_of bound summary" and mi: "mi < length groups"
    and len: "length (ib_proofs mbatch) = length (gr_items (groups ! mi))"
  shows "returns (run_direct sha2 ec cl items groups mi first_of mbatch bound b base summary st) (bundle_ok items)"
proof -
  let ?mg = "groups ! mi"
  have cover: "fst ` set (zip (gr_items ?mg) (ib_proofs mbatch)) = set (gr_items ?mg)" using len by (metis map_fst_zip set_map)
  have one: "set (gr_items grp) \<subseteq> set (gr_items ?mg)" if "length groups = Suc 0" "grp \<in> set groups" for grp
    using that mi by (cases groups) auto
  have place: "returns (on_session (\<lambda>s. Some (place_loop sha2 ec items shard cert policy 0
      (zip (gr_items ?mg) (ib_proofs mbatch)) R s)) st) (placed (uc_unicity_seal cert) (set (gr_items ?mg)) R)"
    for shard cert policy R and st :: "'a attempt"
    using place_loop_placed [of sha2 ec items shard cert policy 0 "zip (gr_items ?mg) (ib_proofs mbatch)" R "fst st"] cover
    by (intro returns_on_session)
      (cases "place_loop sha2 ec items shard cert policy 0 (zip (gr_items ?mg) (ib_proofs mbatch)) R (fst st)", simp)
  have target: "returns (on_session (\<lambda>s. Some (map_prod (map_err (\<lambda>e. StopError (Integrity e))) id
      (DirectTarget_authenticate sha2 ec uc topology s))) st) (\<lambda>_. True)" for uc topology and st :: "'a attempt"
    by (intro returns_on_session) (simp add: returns_def)
  show ?thesis unfolding run_direct_def Let_def
    by (auto simp: not_less intro!: returns_bind [OF target] returns_bind [OF returns_check] returns_bind [OF place]
        placed_finish [OF r] dest: subsetD [OF one])
qed

lemma run_view_returns:
  assumes r: "ready cl items groups first_of bound summary" and mi: "mi < length groups"
    and len: "length (ib_proofs mbatch) = length (gr_items (groups ! mi))" and view: "PartitionView_wf view"
  shows "returns (run_view sha2 ec cl items groups mi first_of mbatch view bound b base summary st) (bundle_ok items)"
proof -
  let ?mg = "groups ! mi"
  have target: "returns (on_session (\<lambda>s. map_option (map_prod (map_err (\<lambda>e. StopError (Integrity (ViewError e)))) id)
      (authenticate sha2 ec view enclosing pins s)) st) (av_ok sha2)" for enclosing pins and st :: "'a attempt"
    by (intro returns_on_session returns_map_err authenticate_returns [OF view])
  have master: "returns (on_session (place sha2 ec items av ?mg mbatch R) st) (placed (av_seal av) (set (gr_items ?mg)) R)"
    if "av_ok sha2 av" for av R and st :: "'a attempt"
    by (intro returns_on_session place_returns that len)
  have peers: "returns (on_session (place_peers sha2 ec items av jobs R) st)
      (placed (av_seal av) (\<Union>j\<in>set jobs. set (gr_items (fst (fst j)))) R)"
    if "av_ok sha2 av" for av R jobs and st :: "'a attempt"
    by (intro returns_on_session place_peers_returns that)
  have cover: "set (gr_items grp) \<subseteq> set (gr_items ?mg) \<union> (\<Union>j\<in>set (zip jobs batches). set (gr_items (fst (fst j))))"
    if jobs: "wave_jobs av mi 0 groups = Ok jobs" "length batches = length jobs" and grp: "grp \<in> set groups"
    for av jobs grp and batches :: "InclusionProofBatch list"
  proof -
    obtain j where j: "j < length groups" "grp = groups ! j" using grp by (metis in_set_conv_nth)
    have "fst ` set (zip jobs batches) = set jobs" using jobs(2) by (metis map_fst_zip set_map)
    moreover have "(\<Union>j\<in>set (zip jobs batches). set (gr_items (fst (fst j)))) =
        (\<Union>g\<in>fst ` fst ` set (zip jobs batches). set (gr_items g))" by simp
    ultimately have "(\<Union>j\<in>set (zip jobs batches). set (gr_items (fst (fst j)))) = (\<Union>g\<in>fst ` set jobs. set (gr_items g))"
      by (simp only:)
    then show ?thesis using wave_jobs_cover [OF jobs(1) j(1)] j(2) by (cases "j = mi") auto
  qed
  have wave: "returns (on_wave (run_wave cl b jobs) st) (\<lambda>batches. length batches = length jobs)" for jobs and st :: "'a attempt"
    by (intro returns_on_wave) (rule run_wave_length)
  show ?thesis unfolding run_view_def Let_def
  proof (rule returns_bind [OF target], goal_cases)
    case (1 av st1)
    show ?case
    proof (cases "us_root_chain_round_number (av_seal av) < rb_round bound")
      case False
      then have new: "rb_round bound \<le> us_root_chain_round_number (av_seal av)" by simp
      show ?thesis unfolding if_not_P [OF False]
      proof (intro returns_bind [OF returns_check] returns_bind [OF master [OF 1]], goal_cases)
        case (1 _ _ R st2)
        note placed = \<open>placed (av_seal av) (set (gr_items ?mg)) (replicate (length items) None) R\<close>
        show ?case
        proof (rule returns_bind [where P = "\<lambda>jobs. wave_jobs av mi 0 groups = Ok jobs"], simp, goal_cases)
          case (1 jobs st3)
          note jobs = this
          show ?case
          proof (intro returns_bind [OF wave] returns_bind [OF peers [OF \<open>av_ok sha2 av\<close>]], goal_cases)
            case (1 batches _ R' st4)
            show ?case by (rule placed_finish [OF r placed_trans [OF placed 1(2)] cover [OF jobs 1(1)] new])
          qed
        qed
      qed
    qed simp
  qed
qed

text \<open>A fetched batch is an answer of the aggregator of the group.\<close>

lemma negotiated_answer:
  assumes "answers_wf client" "get_latest_negotiating_wait client ids options wait now_ms w = (n, w')"
    and "nb_result n = Ok waited" "ib_partition_view (wb_batch waited) = Some view"
  shows "PartitionView_wf view"
proof -
  have waiting: "fst (get_inclusion_proofs_with_wait client r options wait x) = Ok waited \<Longrightarrow> PartitionView_wf view" for r x
    using assms(1,4) unfolding answers_wf_def by blast
  have plain: "fst (plain_call (get_inclusion_proofs client) r o' x) = Ok waited \<Longrightarrow> PartitionView_wf view" for r o' x
  proof -
    assume *: "fst (plain_call (get_inclusion_proofs client) r o' x) = Ok waited"
    then have "fst (get_inclusion_proofs client r o' x) = Ok (wb_batch waited)"
      by (cases "get_inclusion_proofs client r o' x")
        (auto simp: plain_call_def WaitedBatch_new_def split: sum.splits)
    then show ?thesis using assms(1,4) unfolding answers_wf_def by blast
  qed
  show ?thesis
  proof (rule negotiation [OF assms(2)], goal_cases)
    case (1 started w1 first w2)
    show ?case
    proof (cases "nb_retried_without_wait n")
      case False
      then have "first = Ok waited" using 1(3) assms(3) by simp
      then show ?thesis using waiting 1(2) by (metis fst_conv)
    next
      case True
      from 1(4) [OF this] obtain left w3 where
        "(nb_result n, w') = plain_call (get_inclusion_proofs client) \<lparr>br_state_ids = ids, br_state_root = Latest\<rparr> \<lparr>ro_timeout_ms = left\<rparr> w3"
        by blast
      from arg_cong [OF this, of fst] show ?thesis using plain assms(3) by simp
    qed
  qed
qed

lemma fetch_answer:
  assumes "client_ok cl" "gr_endpoint g < length (cl_endpoints cl)"
    and "fetch (cl_endpoints cl) g root b lp s = (Ok batch, s')" "ib_partition_view batch = Some view"
  shows "PartitionView_wf view"
proof -
  obtain shard client where c: "cl_endpoints cl ! gr_endpoint g = (shard, client)" by fastforce
  then have wf: "answers_wf client" using assms(1,2) unfolding client_ok_def by (metis (mono_tags, lifting) case_prodD nth_mem)
  then have plain: "PartitionView_wf view" if "get_inclusion_proofs client r o' x = (Ok batch, y)" for r o' x y
    using that assms(4) unfolding answers_wf_def by (metis fst_conv)
  have negotiated: "PartitionView_wf view"
    if "get_latest_negotiating_wait client ids o' wt nw w = (n, w')" "nb_result n = Ok waited" "wb_batch waited = batch"
    for ids o' wt nw w n w' waited
    using negotiated_answer [OF wf that(1,2)] that(3) assms(4) by simp
  obtain c1 s1 where c1: "Budget_check b s = (c1, s1)" by fastforce
  show ?thesis
    using assms(3) c c1
    by (auto simp: fetch_def Let_def dest!: sbind_const dest: plain negotiated
        split: sum.splits option.splits prod.splits StateRoot.splits)
qed

lemma run_master_returns:
  assumes r: "ready cl items groups first_of bound summary"
  shows "returns (run_master sha2 ec cl items master groups first_of bound b base summary st) (bundle_ok items)"
  unfolding run_master_def Let_def
proof (rule returns_bind [where P = "\<lambda>mi. mi < length groups"], goal_cases)
  case 1
  show ?case by (auto simp: result_simps dest: iter_position_Some)
next
  case (2 mi st1)
  have ok: "client_ok cl" "gr_endpoint (groups ! mi) < length (cl_endpoints cl)" using r 2 by (auto simp: ready_def)
  show ?case
  proof (rule returns_bind [where P = "\<lambda>batch. \<forall>view. ib_partition_view batch = Some view \<longrightarrow> PartitionView_wf view"], goal_cases)
    case 1
    show ?case by (intro returns_on_wave) (use fetch_answer [OF ok] in blast)
  next
    case (2 mbatch st2)
    note view = this
    show ?case
    proof (rule returns_bind [where P = "\<lambda>_. length (ib_proofs mbatch) = length (gr_items (groups ! mi))"], goal_cases)
      case 1
      then show ?case using check_batch_length by simp
    next
      case (2 _ st3)
      note direct = run_direct_returns [OF r \<open>mi < length groups\<close> 2, of sha2 ec b base st3]
      show ?case
      proof (cases "ib_partition_view mbatch")
        case None
        then show ?thesis using direct by simp
      next
        case (Some v)
        with view have "PartitionView_wf v" by simp
        from run_view_returns [OF r \<open>mi < length groups\<close> 2 this, of sha2 ec b base st3] show ?thesis using Some by simp
      qed
    qed
  qed
qed

lemma from_routed_bound:
  assumes "RootRoundBound_from_routed router (zip (map it_proof items) shard_of) = Ok bound" "length shard_of = length items"
  shows "\<forall>i\<in>set items. seal_round (it_proof i) \<le> rb_round bound"
proof
  fix i assume "i \<in> set items"
  then obtain k where "k < length items" "i = items ! k" by (metis in_set_conv_nth)
  then have "(it_proof i, shard_of ! k) \<in> set (zip (map it_proof items) shard_of)"
    using assms(2) by (force simp: in_set_zip)
  then show "seal_round (it_proof i) \<le> rb_round bound" using from_routed_newest [OF assms(1)] by auto
qed

theorem run_returns:
  assumes "client_ok cl"
  shows "returns (run sha2 ec cl items master b verified st) (bundle_ok items)"
  unfolding run_def Let_def
proof (rule returns_bind [where P = "admitted cl (length items)"], goal_cases)
  case 1
  show ?case by (intro returns_on_wave) (rule group_admitted [OF assms])
next
  case (2 r st1)
  obtain groups first_of shard_of work where r: "r = (groups, first_of, shard_of, work)" by (metis surj_pair)
  have adm: "length first_of = length items" "length shard_of = length items" "items \<noteq> []"
    "\<forall>f\<in>set first_of. f < length items \<and> (\<exists>grp\<in>set groups. f \<in> set (gr_items grp))"
    "\<forall>grp\<in>set groups. gr_endpoint grp < length (cl_endpoints cl)"
    using 2 r by (auto simp: admitted_def)
  have verify: "returns (if verified then Some (Ok (), st) else on_session (\<lambda>s. Some (verify_items sha2 ec items s)) st) (\<lambda>_. True)"
    for st :: "'a attempt"
    by (cases "verify_items sha2 ec items (fst st)") (auto intro!: returns_on_session)
  show ?case unfolding r prod.case
  proof (intro returns_bind [OF returns_check] returns_bind [OF verify]
      returns_bind [where m = "Some (check_context _ _, _)" and P = "\<lambda>_. True"], goal_cases)
    case 1
    show ?case by simp
  next
    case (2 _ st2 _ st3 _ st4)
    show ?case
    proof (rule returns_bind [where P = "\<lambda>bound. \<forall>i\<in>set items. seal_round (it_proof i) \<le> rb_round bound"], goal_cases)
      case 1
      show ?case using from_routed_bound [OF _ adm(2)] by (auto simp: map_err_Inr_iff)
    next
      case (2 bound st5)
      show ?case
      proof (intro returns_bind [OF returns_check], goal_cases)
        case (1 _ st6)
        have master: "ready cl items groups first_of bound summary \<Longrightarrow>
            returns (run_master sha2 ec cl items master groups first_of bound b base summary st) (bundle_ok items)"
          for base summary and st :: "'a attempt" by (rule run_master_returns)
        obtain auth ss where auth: "authenticate_seal_under sha2 ec (fst st6)
            (uc_unicity_seal (ip_unicity_certificate (it_proof (items ! 0)))) (view_policy sha2 (Some (cl_topology cl))) = (auth, ss)"
          by fastforce
        show ?case
          using 2 adm assms
          by (cases "distinct_seals (map it_proof items) = 1"; cases "is_ok auth")
            (simp_all add: auth bundle_ok_def ready_def master)
      qed
    qed
  qed
qed

section \<open>The service\<close>

text \<open>A consolidated token is verified, keeps its transactions and has one seal. It is the token itself, or
  none of its seals is older than a seal of the token.\<close>

definition consolidated_from :: "sha2 \<Rightarrow> 'p k256 \<Rightarrow> 'w ProofClient \<Rightarrow> Token \<Rightarrow> ConsolidationOutcome \<Rightarrow> bool" where
  "consolidated_from sha2 ec cl token out = (case out of
     Unavailable reason retryable \<Rightarrow> True
   | Consolidated token' summary \<Rightarrow>
       cm_transaction (tk_genesis token') = cm_transaction (tk_genesis token) \<and>
       map ct_transaction (tk_transactions token') = map ct_transaction (tk_transactions token) \<and>
       distinct_seals (token_proofs token') = 1 \<and> cs_outer_seals_after summary = 1 \<and>
       (if cs_already_shared summary
        then token' = token \<and>
          fst (verify_token_in_session sha2 ec token (SealSession_new (cl_trust_base cl)) (cl_registry cl) (cl_policy cl)) = Ok ()
        else verify_token_with_policy sha2 ec token' (cl_trust_base cl) (cl_registry cl) (cl_policy cl) = Ok () \<and>
          (\<forall>p\<in>set (token_proofs token'). \<forall>q\<in>set (token_proofs token). seal_round q \<le> seal_round p)))"

lemma consolidated_from_bundle:
  assumes "bundle_ok (map (\<lambda>o'. \<lparr>it_state_id = op_state_id o', it_proof = op_proof o'\<rparr>) (outer_proofs sha2 token)) bundle"
  shows "cs_already_shared (bu_summary bundle) \<Longrightarrow>
      fst (verify_token_in_session sha2 ec token (SealSession_new (cl_trust_base cl)) (cl_registry cl) (cl_policy cl)) = Ok () \<Longrightarrow>
      consolidated_from sha2 ec cl token (Consolidated token
        ((bu_summary bundle)\<lparr>cs_input_quorum_checks := n, cs_verification_quorum_checks := k\<rparr>))"
    and "\<not> cs_already_shared (bu_summary bundle) \<Longrightarrow> rebuild_token token (bu_proofs bundle) = Ok token' \<Longrightarrow>
      verify_token_with_policy sha2 ec token' (cl_trust_base cl) (cl_registry cl) (cl_policy cl) = Ok () \<Longrightarrow>
      consolidated_from sha2 ec cl token (Consolidated token'
        ((bu_summary bundle)\<lparr>cs_input_quorum_checks := n, cs_verification_quorum_checks := k\<rparr>))"
proof -
  have items: "map it_proof (map (\<lambda>o'. \<lparr>it_state_id = op_state_id o', it_proof = op_proof o'\<rparr>) (outer_proofs sha2 token)) =
      token_proofs token" by (simp add: comp_def outer_proofs_alt(1))
  note ok = assms [unfolded bundle_ok_def items]
  have proofs: "set (token_proofs token) = op_proof ` set (outer_proofs sha2 token)"
    by (simp add: outer_proofs_alt(1) [of sha2, symmetric])
  show "consolidated_from sha2 ec cl token (Consolidated token
        ((bu_summary bundle)\<lparr>cs_input_quorum_checks := n, cs_verification_quorum_checks := k\<rparr>))"
    if "cs_already_shared (bu_summary bundle)"
      "fst (verify_token_in_session sha2 ec token (SealSession_new (cl_trust_base cl)) (cl_registry cl) (cl_policy cl)) = Ok ()"
    using ok that by (auto simp: consolidated_from_def)
  show "consolidated_from sha2 ec cl token (Consolidated token'
        ((bu_summary bundle)\<lparr>cs_input_quorum_checks := n, cs_verification_quorum_checks := k\<rparr>))"
    if "\<not> cs_already_shared (bu_summary bundle)" "rebuild_token token (bu_proofs bundle) = Ok token'"
      "verify_token_with_policy sha2 ec token' (cl_trust_base cl) (cl_registry cl) (cl_policy cl) = Ok ()"
    using ok that rebuild_token_iff [THEN iffD1, OF that(2)] rebuilt_token_parts(2) [OF that(2)]
    by (simp add: consolidated_from_def proofs)
qed

theorem consolidate_returns:
  assumes "client_ok cl"
  shows "returns (consolidate sha2 ec cl token options w) (consolidated_from sha2 ec cl token)"
proof -
  obtain b v where start: "start cl options w = (b, v)" by fastforce
  obtain c v1 where c: "Budget_check b v = (c, v1)" by fastforce
  obtain d ss where d: "verify_token_in_session sha2 ec token (SealSession_new (cl_trust_base cl)) (cl_registry cl) (cl_policy cl) = (d, ss)"
    by fastforce
  let ?items = "map (\<lambda>o'. \<lparr>it_state_id = op_state_id o', it_proof = op_proof o'\<rparr>) (outer_proofs sha2 token)"
  obtain r ss2 v2 where r: "run sha2 ec cl ?items (co_master options) b True (ss, v1) = Some (r, ss2, v2)"
    and ok: "\<And>bundle. r = Ok bundle \<Longrightarrow> bundle_ok ?items bundle"
    using run_returns [OF assms, of sha2 ec ?items "co_master options" b True "(ss, v1)"] unfolding returns_def by auto
  show ?thesis
  proof (cases c)
    case (Inr n)
    note c = c [unfolded Inr]
    show ?thesis
    proof (cases d)
      case (Inr u)
      note d = d [unfolded Inr]
      then have valid: "fst (verify_token_in_session sha2 ec token (SealSession_new (cl_trust_base cl)) (cl_registry cl) (cl_policy cl)) = Ok ()"
        by simp
      show ?thesis
      proof (cases r)
        case (Inr bu)
        note r = r [unfolded Inr] and rebuilt = consolidated_from_bundle [OF ok [OF Inr]]
        show ?thesis
        proof (cases "cs_already_shared (bu_summary bu)")
          case True
          then show ?thesis using start c d r rebuilt(1) [OF True valid] by (simp add: consolidate_def Let_def)
        next
          case False
          note unshared = this
          show ?thesis
          proof (cases "rebuild_token token (bu_proofs bu)")
            case (Inr tok)
            obtain e stats where e: "verify_token_with_seal_stats sha2 ec tok (cl_trust_base cl) (cl_registry cl) (cl_policy cl) = (e, stats)"
              by fastforce
            then have "verify_token_with_policy sha2 ec tok (cl_trust_base cl) (cl_registry cl) (cl_policy cl) = e"
              by (simp add: verify_token_with_policy_def)
            then have final: "e = Ok () \<Longrightarrow> consolidated_from sha2 ec cl token (Consolidated tok
                ((bu_summary bu)\<lparr>cs_input_quorum_checks := n, cs_verification_quorum_checks := k\<rparr>))" for n k
              by (intro rebuilt(2) [OF False Inr]) simp
            obtain f v3 where f: "Budget_check b v2 = (f, v3)" by fastforce
            show ?thesis using start c d r False Inr e f final
              by (cases e; cases f) (auto simp: consolidate_def Let_def)
          qed (use start c d r False in \<open>simp add: consolidate_def Let_def\<close>)
        qed
      next
        case (Inl stop)
        then show ?thesis using start c d r by (cases stop) (simp_all add: consolidate_def Let_def consolidated_from_def)
      qed
    qed (use start c d in \<open>simp add: consolidate_def Let_def\<close>)
  qed (use start c in \<open>simp add: consolidate_def Let_def\<close>)
qed

theorem consolidate_proofs_returns:
  assumes "client_ok cl"
  shows "returns (consolidate_proofs sha2 ec cl items options w)
    (\<lambda>out. \<forall>bundle. out = BundleConsolidated bundle \<longrightarrow> bundle_ok items bundle)"
proof -
  obtain b v where start: "start cl options w = (b, v)" by fastforce
  obtain r ss v1 where r: "run sha2 ec cl items (co_master options) b False (SealSession_new (cl_trust_base cl), v) = Some (r, ss, v1)"
    and ok: "\<And>bundle. r = Ok bundle \<Longrightarrow> bundle_ok items bundle"
    using run_returns [OF assms, of sha2 ec items "co_master options" b False "(SealSession_new (cl_trust_base cl), v)"]
    unfolding returns_def by auto
  show ?thesis
  proof (cases r)
    case (Inl stop)
    then show ?thesis using start r by (cases stop) (simp_all add: consolidate_proofs_def)
  qed (use start r ok in \<open>simp add: consolidate_proofs_def\<close>)
qed

end
