(* ===== verification/Http_Sound.thy ===== *)
theory Http_Sound
  imports Http_Wait Proof_Client_Sound
begin

text \<open>
  What the JSON-RPC client guarantees, whatever the server answers: its batches carry well-formed views, an API
  key is never sent over plaintext, a call plan stays within the time left, the wait ends by the clock after a
  bounded number of requests, and a submission returns only a proof of its own data.
\<close>

section \<open>Batches\<close>

lemma batch_call_view:
  assumes "batch_call L display N cl request options wait w = (Ok waited, w')" "ib_partition_view (wb_batch waited) = Some view"
  shows "PartitionView_wf view"
proof -
  obtain r w1 where r: "rpc_raw L N cl ''get_inclusion_proofs.v1''
      (BatchParams (map (\<lambda>s. lb_hex_encode L (sid_bytes s)) (br_state_ids request))
        (case br_state_root request of Latest \<Rightarrow> ''latest'' | Exact root \<Rightarrow> lb_hex_encode L root)
        (case (br_state_root request, wait) of
           (Latest, Some wr) \<Rightarrow> wait_on_wire (wq_wait_ms wr) (ro_timeout_ms options) (wq_margin_ms wr) | _ \<Rightarrow> None)) []
      (Some (from_millis (unat (max (ro_timeout_ms options) 1)))) w = (r, w1)" by fastforce
  then obtain result batch sent waited_ms b where "decode_batch_result L display result b = Ok (batch, waited_ms)"
    "waited = WaitedBatch_new batch waited_ms sent"
    using assms(1) by (cases r) (auto simp: batch_call_def Let_def rbind_Inr_iff map_err_Inr_iff split: if_splits)
  then show ?thesis using decoded_view_wf assms(2) by (simp add: WaitedBatch_new_def)
qed

lemma http_batch_client_wf: "answers_wf (http_batch_client L display N cl)"
proof -
  have plain: "PartitionView_wf view"
    if "fst (get_inclusion_proofs (http_batch_client L display N cl) request options w) = Ok batch"
      "ib_partition_view batch = Some view" for request options w batch view
  proof -
    obtain r w1 where r: "batch_call L display N cl request options None w = (r, w1)" by fastforce
    with that(1) obtain waited where "r = Ok waited" "wb_batch waited = batch"
      by (cases r) (auto simp: http_batch_client_def)
    then show ?thesis using batch_call_view [of L display N cl request options None w waited w1 view] r that(2) by simp
  qed
  have "PartitionView_wf view"
    if "fst (get_inclusion_proofs_with_wait (http_batch_client L display N cl) request options wait w) = Ok waited"
      "ib_partition_view (wb_batch waited) = Some view" for request options wait w waited view
    using that batch_call_view [of L display N cl request options "Some wait" w waited]
    by (simp add: http_batch_client_def) (metis prod.collapse)
  with plain show ?thesis unfolding answers_wf_def by blast
qed

section \<open>Credentials\<close>

text \<open>A request discloses the API key when it carries one to an endpoint that is not HTTPS.\<close>

definition discloses_key :: "('j, 'more) libs_scheme \<Rightarrow> http_request \<Rightarrow> bool" where
  "discloses_key L r \<longleftrightarrow> (\<exists>key. (''X-API-Key'', key) \<in> set (hq_headers r)) \<and>
     (case lb_parse_url L (hq_url r) of Inr u \<Rightarrow> url_scheme u \<noteq> ''https'' | Inl _ \<Rightarrow> True)"

lemma validated_scheme:
  "validate_endpoint L cl = Ok u \<Longrightarrow> hc_api_key cl \<noteq> None \<Longrightarrow> lb_parse_url L (hc_url cl) = Ok u \<and> url_scheme u = ''https''"
  by (auto simp: validate_endpoint_def rbind_Inr_iff map_err_Inr_iff split: if_splits)

text \<open>Replacing what the transport does with such requests changes nothing: none is made.\<close>

lemma rpc_raw_transport:
  assumes "\<And>u i. validate_endpoint L cl = Ok u \<Longrightarrow> \<not> P \<lparr>hq_agent = hc_agent cl, hq_url = hc_url cl,
    hq_headers = (''Content-Type'', ''application/json'') # headers, hq_timeout = timeout, hq_id = i, hq_method = m, hq_params = params\<rparr>"
  shows "rpc_raw L (N\<lparr>nt_post := \<lambda>r w. if P r then other r w else nt_post N r w\<rparr>) cl m params headers timeout w =
    rpc_raw L N cl m params headers timeout w"
proof (cases "validate_endpoint L cl")
  case (Inl e)
  then show ?thesis by (simp add: rpc_raw_def)
next
  case (Inr u)
  have "parse_retry_after (N\<lparr>nt_post := f\<rparr>) = parse_retry_after N" for f
    by (simp add: fun_eq_iff parse_retry_after_def)
  then have "rpc_answer L (N\<lparr>nt_post := f\<rparr>) = rpc_answer L N" for f
    by (simp add: fun_eq_iff rpc_answer_def split: ureq_answer.split)
  moreover have "request_id L (N\<lparr>nt_post := f\<rparr>) w = request_id L N w" for f by (simp add: request_id_def)
  ultimately show ?thesis using assms [OF Inr] Inr by (simp add: rpc_raw_def split: prod.split)
qed

theorem submit_keeps_key:
  "submit_inner sha2 L (N\<lparr>nt_post := \<lambda>r w. if discloses_key L r then other r w else nt_post N r w\<rparr>) cl data w =
   submit_inner sha2 L N cl data w"
proof -
  define headers where "headers = (''X-State-ID'', lb_hex_encode L (sid_bytes (cr_state_id (CertificationRequest_new sha2 data)))) #
    (case hc_api_key cl of Some key \<Rightarrow> [(''X-API-Key'', key)] | None \<Rightarrow> [])"
  have "\<not> discloses_key L \<lparr>hq_agent = hc_agent cl, hq_url = hc_url cl, hq_headers = (''Content-Type'', ''application/json'') # headers,
      hq_timeout = timeout, hq_id = i, hq_method = m, hq_params = params\<rparr>" if "validate_endpoint L cl = Ok u" for u i m params timeout
    using validated_scheme [OF that] by (cases "hc_api_key cl") (auto simp: discloses_key_def headers_def)
  then have "rpc_raw L (N\<lparr>nt_post := \<lambda>r w. if discloses_key L r then other r w else nt_post N r w\<rparr>) cl m params headers timeout w =
      rpc_raw L N cl m params headers timeout w" for m params timeout
    by (rule rpc_raw_transport)
  then show ?thesis unfolding submit_inner_def Let_def headers_def [symmetric] by simp
qed

section \<open>Plans\<close>

lemma plan_call_bounds:
  assumes "plan_call remaining_ms options send_wait = p" "1 \<le> remaining_ms"
  shows "pl_wait_ms p = Some wait \<Longrightarrow> 0 < wait \<and> wait \<le> duration_ms (wo_preferred_wait options) \<and> wait \<le> MAX_WAIT_MS \<and>
      unat (pl_timeout_ms p) = unat wait + unat (duration_ms (wo_margin options)) \<and>
      pl_timeout_ms p \<le> remaining_ms \<and> pl_timeout_ms p \<le> duration_ms (wo_max_request_timeout options)"
    and "1 \<le> pl_timeout_ms p"
    and "pl_wait_ms p = None \<Longrightarrow> \<not> wo_plain_calls_keep_request_timeout options \<Longrightarrow> pl_timeout_ms p \<le> remaining_ms"
proof -
  define pref m mx where "pref = duration_ms (wo_preferred_wait options)" and "m = duration_ms (wo_margin options)"
    and "mx = duration_ms (wo_max_request_timeout options)"
  define W where "W = (if send_wait \<and> wo_long_poll options
    then min (min (min pref (saturating_sub remaining_ms m)) (saturating_sub mx m)) MAX_WAIT_MS else 0)"
  have p: "p = (if 0 < W then \<lparr>pl_wait_ms = Some W, pl_timeout_ms = max (min (W + m) remaining_ms) 1\<rparr>
      else \<lparr>pl_wait_ms = None, pl_timeout_ms =
        (if wo_plain_calls_keep_request_timeout options then max mx 1 else max (min mx remaining_ms) 1)\<rparr>)"
    unfolding assms(1) [symmetric] plan_call_def Let_def W_def pref_def m_def mx_def ..
  show "1 \<le> pl_timeout_ms p" by (simp only: p max.cobounded2 CallPlan.select_convs split: if_split) simp
  show "pl_timeout_ms p \<le> remaining_ms" if "pl_wait_ms p = None" "\<not> wo_plain_calls_keep_request_timeout options"
  proof -
    have "\<not> 0 < W" using that(1) p by (cases "0 < W") (simp_all only: CallPlan.select_convs if_True option.distinct not_False_eq_True)
    then have "pl_timeout_ms p = max (min mx remaining_ms) 1" using that(2) p by (simp only: CallPlan.select_convs if_False)
    then show ?thesis using assms(2) by (simp only: max.bounded_iff min.cobounded2 simp_thms)
  qed
  assume w: "pl_wait_ms p = Some wait"
  have W: "0 < W" "wait = W"
    using w p by (cases "0 < W"; simp only: CallPlan.select_convs if_True if_False option.distinct option.inject)+
  have on: "W = min (min (min pref (saturating_sub remaining_ms m)) (saturating_sub mx m)) MAX_WAIT_MS"
  proof (cases "send_wait \<and> wo_long_poll options")
    case True
    then show ?thesis unfolding W_def by (simp only: if_True simp_thms)
  next
    case False
    then have "W = 0" unfolding W_def by (simp only: if_False)
    then show ?thesis using W(1) by simp
  qed
  have wait: "W \<le> pref" "W \<le> saturating_sub remaining_ms m" "W \<le> saturating_sub mx m" "W \<le> MAX_WAIT_MS"
    unfolding on by (meson min.cobounded1 min.cobounded2 order_trans)+
  have pos: "0 < unat W" using W(1) by (simp only: word_less_nat_alt unat_0)
  have fits: "unat W + unat m \<le> unat remaining_ms" "unat W + unat m \<le> unat mx"
    using wait(2,3) pos by (auto simp only: word_le_nat_alt unat_saturating_sub)
  have "unat mx < 2 ^ 64" using unsigned_less [of mx] by simp
  then have sum: "unat (W + m) = unat W + unat m" using fits(2) by (simp add: unat_word_ariths)
  then have le: "W + m \<le> remaining_ms" "W + m \<le> mx" "1 \<le> W + m" using fits pos by (simp_all add: word_le_nat_alt)
  have "pl_timeout_ms p = max (min (W + m) remaining_ms) 1" using W(1) p by (simp only: CallPlan.select_convs if_True)
  then have "pl_timeout_ms p = W + m" by (simp only: min_absorb1 [OF le(1)] max_absorb1 [OF le(3)])
  then show "0 < wait \<and> wait \<le> duration_ms (wo_preferred_wait options) \<and> wait \<le> MAX_WAIT_MS \<and>
      unat (pl_timeout_ms p) = unat wait + unat (duration_ms (wo_margin options)) \<and> pl_timeout_ms p \<le> remaining_ms \<and>
      pl_timeout_ms p \<le> duration_ms (wo_max_request_timeout options)"
    using W wait(1,4) sum le by (simp only: pref_def m_def mx_def simp_thms)
qed

section \<open>The clock\<close>

text \<open>\<open>time w\<close> is the instant at which the world is in the state \<open>w\<close>. A reading of the clock lies between the
  times before and after it, nothing turns the time back, and sleeping takes at least as long as asked for.\<close>

definition YEARS_30 :: duration where "YEARS_30 = from_secs (30 * 365 * 86400)"

definition clock_ok :: "'w net \<Rightarrow> ('w \<Rightarrow> nat) \<Rightarrow> bool" where
  "clock_ok N time \<longleftrightarrow>
     (\<forall>w t w'. nt_now N w = (t, w') \<longrightarrow> time w \<le> t \<and> t \<le> time w') \<and>
     (\<forall>w. time w \<le> time (snd (nt_system_now N w))) \<and> (\<forall>w. time w \<le> time (snd (nt_random N w))) \<and>
     (\<forall>r w. time w \<le> time (snd (nt_post N r w))) \<and> (\<forall>d w. time w + d \<le> time (nt_sleep N d w))"

definition cancel_ok :: "'w WaitOptions \<Rightarrow> ('w \<Rightarrow> nat) \<Rightarrow> bool" where
  "cancel_ok options time \<longleftrightarrow> (\<forall>w. time w \<le> time (snd (is_cancelled options w)))"

lemma clock_now:
  assumes "clock_ok N time" "nt_now N w = (t, w')"
  shows "time w \<le> t" "t \<le> time w'" "time w \<le> time w'"
  using assms by (force simp: clock_ok_def)+

lemma clock_sleep: "clock_ok N time \<Longrightarrow> time w + d \<le> time (nt_sleep N d w)"
  by (simp add: clock_ok_def)

lemma cancel_time: "cancel_ok options time \<Longrightarrow> is_cancelled options w = (c, w') \<Longrightarrow> time w \<le> time w'"
  unfolding cancel_ok_def by (metis snd_conv)

lemma rpc_answer_time: "clock_ok N time \<Longrightarrow> time w \<le> time (snd (rpc_answer L N i answer w))"
  using clock_ok_def [of N time]
  by (cases answer; cases "nt_system_now N w") (auto simp: rpc_answer_def parse_retry_after_def Let_def split: prod.split dest!: spec [of _ w])

lemma rpc_raw_time:
  assumes "clock_ok N time" "rpc_raw L N cl m params headers timeout w = (r, w')"
  shows "time w \<le> time w'"
proof (cases "validate_endpoint L cl")
  case (Inl e)
  then show ?thesis using assms(2) by (simp add: rpc_raw_def)
next
  case (Inr u)
  obtain x w1 where x: "nt_random N w = (x, w1)" by fastforce
  obtain i w2 where i: "request_id L N w = (i, w2)" by fastforce
  then have w12: "w2 = w1" using x by (auto simp: request_id_def split: option.splits)
  let ?rq = "\<lparr>hq_agent = hc_agent cl, hq_url = hc_url cl, hq_headers = (''Content-Type'', ''application/json'') # headers,
    hq_timeout = timeout, hq_id = i, hq_method = m, hq_params = params\<rparr>"
  obtain answer w3 where a: "nt_post N ?rq w2 = (answer, w3)" by fastforce
  have "time w \<le> time w1" "time w2 \<le> time w3" using assms(1) x a unfolding clock_ok_def by (metis snd_conv)+
  moreover have "time w3 \<le> time w'"
    using rpc_answer_time [OF assms(1), of w3 L i answer] assms(2) Inr i a by (simp add: rpc_raw_def Let_def)
  ultimately show ?thesis using w12 by simp
qed

lemma far_deadline_le: "far_deadline N from span \<le> from + span"
  by (auto simp: far_deadline_def instant_checked_add_def split: option.splits if_splits)

lemma far_deadline_ge: "from + YEARS_30 \<le> nt_instant_max N \<Longrightarrow> d \<le> span \<Longrightarrow> d \<le> YEARS_30 \<Longrightarrow> from + d \<le> far_deadline N from span"
  by (auto simp: far_deadline_def instant_checked_add_def YEARS_30_def split: option.splits if_splits)

section \<open>The wait ends\<close>

lemma pause_until_returns:
  assumes "clock_ok N time" "cancel_ok options time"
  shows "\<exists>r w'. pause_until N options stop w = Some (r, w') \<and> time w \<le> time w' \<and> (r = Ok () \<longrightarrow> stop \<le> time w')"
proof (induction "stop - time w" arbitrary: w rule: less_induct)
  case less
  obtain c w1 where c: "is_cancelled options w = (c, w1)" by fastforce
  obtain now w2 where now: "nt_now N w1 = (now, w2)" by fastforce
  have t: "time w \<le> time w1" "time w1 \<le> now" "now \<le> time w2" using cancel_time [OF assms(2) c] clock_now [OF assms(1) now] by auto
  show ?case
  proof (cases "c \<or> now \<ge> stop")
    case True
    then show ?thesis using c now t by (subst pause_until.simps) auto
  next
    case False
    let ?d = "min (stop - now) SLEEP_SLICE"
    have d: "0 < ?d" using False by (simp add: SLEEP_SLICE_def from_millis_def)
    let ?w3 = "nt_sleep N ?d w2"
    have t3: "time w2 + ?d \<le> time ?w3" by (rule clock_sleep [OF assms(1)])
    then have "stop - time ?w3 < stop - time w" using d t False by linarith
    from less [OF this] obtain r w' where "pause_until N options stop ?w3 = Some (r, w')" "time ?w3 \<le> time w'"
      "r = Ok () \<longrightarrow> stop \<le> time w'" by blast
    moreover have "pause_until N options stop w = pause_until N options stop ?w3"
      using c now False by (subst pause_until.simps) simp
    ultimately show ?thesis using t t3 by (intro exI [of _ r] exI [of _ w']) simp
  qed
qed

lemma MIN_PAUSE_bounds: "0 < MIN_PAUSE" "MIN_PAUSE \<le> YEARS_30"
  by (simp_all add: MIN_PAUSE_def YEARS_30_def from_millis_def from_secs_def)

text \<open>\<open>probe_ok\<close>: the probe returns with the given number of requests, and when the loop goes on, a pause has
  passed since \<open>base\<close> or the deadline has.\<close>

definition probe_ok :: "('w \<Rightarrow> nat) \<Rightarrow> nat \<Rightarrow> nat \<Rightarrow> u32 \<Rightarrow> 'w probe option \<Rightarrow> bool" where
  "probe_ok time base deadline k m \<longleftrightarrow> (\<exists>p st w'. m = Some (p, st, w') \<and> wt_requests (ws_stats st) = k \<and>
     (\<forall>st'. p = Inr st' \<longrightarrow> st' = st \<and> min (base + MIN_PAUSE) deadline \<le> time w'))"

lemma probe_ok_done [simp]: "wt_requests (ws_stats st) = k \<Longrightarrow> probe_ok time base deadline k (probe_done r st w)"
  by (simp add: probe_ok_def probe_done_def)

text \<open>\<open>wait_ok\<close>: the clock and the cancellation are as above and the deadline is not within thirty years of the
  latest instant of the platform.\<close>

definition wait_ok :: "'w net \<Rightarrow> ('w \<Rightarrow> nat) \<Rightarrow> 'w wait_env \<Rightarrow> bool" where
  "wait_ok N time E \<longleftrightarrow> clock_ok N time \<and> cancel_ok (we_options E) time \<and> we_deadline E + YEARS_30 \<le> nt_instant_max N"

lemma wait_okD:
  assumes "wait_ok N time E"
  shows "clock_ok N time" "cancel_ok (we_options E) time" "we_deadline E + YEARS_30 \<le> nt_instant_max N"
  using assms by (simp_all add: wait_ok_def)

lemma probe_ok_pause:
  assumes "wait_ok N time E" "MIN_PAUSE \<le> pause" "wt_requests (ws_stats st) = k" "base \<le> time w"
  shows "probe_ok time base (we_deadline E) k (pause_again N E pause st w)"
proof -
  obtain now w1 where now: "nt_now N w = (now, w1)" by fastforce
  let ?stop = "min (far_deadline N now pause) (we_deadline E)"
  note ok = wait_okD [OF assms(1)]
  obtain r w' where r: "pause_until N (we_options E) ?stop w1 = Some (r, w')" "time w1 \<le> time w'" "r = Ok () \<longrightarrow> ?stop \<le> time w'"
    using pause_until_returns [OF ok(1,2)] by blast
  have "min (base + MIN_PAUSE) (we_deadline E) \<le> max ?stop (time w')"
  proof (cases "we_deadline E \<le> now")
    case True
    then show ?thesis using clock_now(2) [OF ok(1) now] r(2) by linarith
  next
    case False
    then have "now + MIN_PAUSE \<le> far_deadline N now pause"
      using ok(3) by (intro far_deadline_ge [OF _ assms(2) MIN_PAUSE_bounds(2)]) simp
    then show ?thesis using clock_now(1) [OF ok(1) now] assms(4) by linarith
  qed
  then have "r = Ok () \<Longrightarrow> min (base + MIN_PAUSE) (we_deadline E) \<le> time w'" using r(3) by auto
  then show ?thesis
    using r(1) now assms(3)
    by (cases r) (auto simp: pause_again_def wait_pause_def probe_ok_def probe_done_def probe_again_def)
qed

lemma on_transport_failure_ok:
  assumes "wait_ok N time E" "wt_requests (ws_stats st) = k" "base \<le> time w"
  shows "probe_ok time base (we_deadline E) k (on_transport_failure N E ci timed_out st w)"
proof -
  obtain c w1 where c: "is_cancelled (we_options E) w = (c, w1)" by fastforce
  obtain now w2 where now: "nt_now N w1 = (now, w2)" by fastforce
  have "base \<le> time w2" using cancel_time [OF wait_okD(2) [OF assms(1)] c] clock_now(3) [OF wait_okD(1) [OF assms(1)] now] assms(3) by linarith
  then show ?thesis
    using assms(2) c now
    by (auto simp: on_transport_failure_def transport_pause_def Let_def intro!: probe_ok_pause [OF assms(1)])
qed

lemma on_overload_ok:
  assumes "wait_ok N time E" "wt_requests (ws_stats st) = k" "base \<le> time w"
  shows "probe_ok time base (we_deadline E) k (on_overload N E ci failure retry_after st w)"
proof -
  obtain c w1 where c: "is_cancelled (we_options E) w = (c, w1)" by fastforce
  obtain now w2 where now: "nt_now N w1 = (now, w2)" by fastforce
  have "base \<le> time w2" using cancel_time [OF wait_okD(2) [OF assms(1)] c] clock_now(3) [OF wait_okD(1) [OF assms(1)] now] assms(3) by linarith
  then show ?thesis
    using assms(2) c now
    by (auto simp: on_overload_def overload_pause_def Let_def intro!: probe_ok_pause [OF assms(1)])
qed

lemma wait_state_requests [simp]:
  "wt_requests (ws_stats (drop_wait st)) = wt_requests (ws_stats st)"
  "wt_requests (ws_stats (count_pending st)) = wt_requests (ws_stats st)"
  by (simp_all add: drop_wait_def count_pending_def)

lemma on_failure_ok:
  assumes "wait_ok N time E" "wt_requests (ws_stats st) = k" "base \<le> time w"
  shows "probe_ok time base (we_deadline E) k (on_failure L N E ci failure st w)"
  using assms(2,3)
  by (auto simp: on_failure_def Let_def rbind_Inr_iff intro!: probe_ok_pause [OF assms(1)]
      split: HttpError.split option.split sum.split)

lemma on_result_ok:
  assumes "wait_ok N time E" "wt_requests (ws_stats st) = k" "base \<le> time w"
    and "base + ci_took ci \<le> time w"
  shows "probe_ok time base (we_deadline E) k (on_result L N E ci result st w)"
  using assms(2-4)
  by (auto simp: on_result_def Let_def intro!: probe_ok_pause [OF assms(1)]
      split: sum.split InclusionProofResponse.split option.split)
    (auto simp: probe_ok_def probe_again_def)

lemma on_answer_ok:
  assumes "wait_ok N time E" "wt_requests (ws_stats st) = k" "base \<le> time w"
    and "base + ci_took ci \<le> time w"
  shows "probe_ok time base (we_deadline E) k (on_answer L N E ci raw st w)"
  unfolding on_answer_def
  using on_result_ok [OF assms] on_transport_failure_ok [OF assms(1-3)] on_overload_ok [OF assms(1-3)] on_failure_ok [OF assms(1-3)]
  by (auto split: sum.split RawFailure.split option.split)

lemma wait_probe_ok:
  assumes "wait_ok N time E"
  shows "(\<exists>r w'. wait_probe L N cl state_id E st w = probe_done r st w') \<or>
    (time w < we_deadline E \<and>
     probe_ok time (time w) (we_deadline E) (wt_requests (ws_stats st) + 1) (wait_probe L N cl state_id E st w))"
proof -
  note clock = wait_okD(1) [OF assms]
  obtain c w1 where c: "is_cancelled (we_options E) w = (c, w1)" by fastforce
  obtain now w2 where now: "nt_now N w1 = (now, w2)" by fastforce
  show ?thesis
  proof (cases "c \<or> we_deadline E \<le> now")
    case True
    then show ?thesis using c now by (auto simp: wait_probe_def)
  next
    case False
    define left_ms where "left_ms = max (duration_ms (we_deadline E - now)) 1"
    define plan where "plan = plan_call left_ms (we_options E) (ws_send_wait st)"
    define st' where "st' = st\<lparr>ws_stats := (if pl_wait_ms plan \<noteq> None
        then (ws_stats st)\<lparr>wt_long_poll_requests := wt_long_poll_requests (ws_stats st) + 1\<rparr> else ws_stats st)
      \<lparr>wt_requests := wt_requests (ws_stats st) + 1\<rparr>\<rparr>"
    obtain t3 w3 where t3: "nt_now N w2 = (t3, w3)" by fastforce
    obtain raw w4 where raw: "rpc_raw L N cl ''get_inclusion_proof.v2''
        (ProofParams (lb_hex_encode L (sid_bytes state_id)) (pl_wait_ms plan)) []
        (Some (from_millis (unat (pl_timeout_ms plan)))) w3 = (raw, w4)" by fastforce
    obtain t5 w5 where t5: "nt_now N w4 = (t5, w5)" by fastforce
    have times: "time w \<le> time w1" "time w1 \<le> now" "time w1 \<le> time w2" "time w2 \<le> t3" "time w3 \<le> time w4" "time w4 \<le> time w5" "t5 \<le> time w5"
      "t3 \<le> time w3"
      using cancel_time [OF wait_okD(2) [OF assms] c] clock_now [OF clock now] clock_now [OF clock t3] clock_now [OF clock t5]
        rpc_raw_time [OF clock raw] by auto
    have "wait_probe L N cl state_id E st w =
        on_answer L N E \<lparr>ci_plan = plan, ci_left_ms = left_ms, ci_took = t5 - t3\<rparr> raw st' w5"
      using False c now t3 raw t5 by (simp add: wait_probe_def left_ms_def plan_def st'_def Let_def)
    moreover have "probe_ok time (time w) (we_deadline E) (wt_requests (ws_stats st) + 1)
        (on_answer L N E \<lparr>ci_plan = plan, ci_left_ms = left_ms, ci_took = t5 - t3\<rparr> raw st' w5)"
      using times by (intro on_answer_ok [OF assms]) (auto simp: st'_def)
    ultimately show ?thesis using False times by auto
  qed
qed

lemma wait_loop_returns:
  assumes "wait_ok N time E"
  shows "we_deadline E - time w \<le> n * MIN_PAUSE \<Longrightarrow>
    \<exists>r stats w'. wait_loop L N cl state_id E st w = Some (r, stats, w') \<and>
      (unat (wt_requests (ws_stats st)) + n < 2 ^ 32 \<longrightarrow> unat (wt_requests stats) \<le> unat (wt_requests (ws_stats st)) + n)"
proof (induction n arbitrary: st w)
  case 0
  then have "\<not> time w < we_deadline E" by simp
  with wait_probe_ok [OF assms, of L cl state_id st w] obtain r w' where
    "wait_probe L N cl state_id E st w = probe_done r st w'" by blast
  then show ?case by (subst wait_loop.simps) (simp add: probe_done_def)
next
  case (Suc n)
  let ?k = "wt_requests (ws_stats st)"
  have one: "unat (?k + 1) = unat ?k + 1" if "unat ?k + Suc n < 2 ^ 32" using that by (simp add: unat_word_ariths)
  from wait_probe_ok [OF assms, of L cl state_id st w] show ?case
  proof
    assume "\<exists>r w'. wait_probe L N cl state_id E st w = probe_done r st w'"
    then obtain r w' where "wait_probe L N cl state_id E st w = probe_done r st w'" by blast
    then show ?thesis by (subst wait_loop.simps) (simp add: probe_done_def)
  next
    assume "time w < we_deadline E \<and> probe_ok time (time w) (we_deadline E) (?k + 1) (wait_probe L N cl state_id E st w)"
    then obtain p st1 w1 where p: "wait_probe L N cl state_id E st w = Some (p, st1, w1)" "wt_requests (ws_stats st1) = ?k + 1"
      "\<And>st'. p = Inr st' \<Longrightarrow> st' = st1 \<and> min (time w + MIN_PAUSE) (we_deadline E) \<le> time w1" by (auto simp: probe_ok_def)
    show ?thesis
    proof (cases p)
      case (Inl r)
      then show ?thesis using p(1,2) one by (subst wait_loop.simps) simp
    next
      case (Inr st')
      then have st': "st' = st1" "we_deadline E - time w1 \<le> n * MIN_PAUSE" using p(3) Suc.prems by auto
      from Suc.IH [OF st'(2), of st1] obtain r stats w' where "wait_loop L N cl state_id E st1 w1 = Some (r, stats, w')"
        "unat (wt_requests (ws_stats st1)) + n < 2 ^ 32 \<longrightarrow> unat (wt_requests stats) \<le> unat (wt_requests (ws_stats st1)) + n" by blast
      moreover have "wait_loop L N cl state_id E st w = wait_loop L N cl state_id E st1 w1"
        using p(1) Inr st'(1) by (subst wait_loop.simps) simp
      ultimately show ?thesis using one p(2) by auto
    qed
  qed
qed

theorem wait_returns:
  assumes "clock_ok N time" "cancel_ok options time" "fst (nt_now N w) + wo_total options + YEARS_30 \<le> nt_instant_max N"
    and "wo_total options \<le> n * MIN_PAUSE"
  shows "\<exists>outcome w'. wait_for_inclusion_proof_with_stats L N cl state_id options w = Some (outcome, w') \<and>
    (n < 2 ^ 32 \<longrightarrow> unat (wt_requests (ot_stats outcome)) \<le> n)"
proof -
  obtain started w1 where s: "nt_now N w = (started, w1)" by fastforce
  define E where "E = \<lparr>we_options = options, we_deadline = far_deadline N started (wo_total options),
    we_interval = (case wo_poll_interval options of Some d \<Rightarrow> d | None \<Rightarrow> hc_poll_interval cl),
    we_grace = (case wo_unknown_grace options of Some g \<Rightarrow> g | None \<Rightarrow> hc_unknown_grace cl)\<rparr>"
  have dl: "we_deadline E \<le> started + wo_total options" using far_deadline_le by (simp add: E_def)
  then have "we_deadline E - time w1 \<le> n * MIN_PAUSE" using clock_now(2) [OF assms(1) s] assms(4) by simp
  moreover have "wait_ok N time E" using assms(1-3) s dl by (simp add: wait_ok_def) (simp add: E_def)
  ultimately obtain r stats w' where l: "wait_loop L N cl state_id E \<lparr>ws_send_wait = True, ws_unknown_seen = 0, ws_stats = WaitStats_default\<rparr> w1 =
      Some (r, stats, w')" "n < 2 ^ 32 \<longrightarrow> unat (wt_requests stats) \<le> n"
    using wait_loop_returns [of N time E w1 n L cl state_id "\<lparr>ws_send_wait = True, ws_unknown_seen = 0, ws_stats = WaitStats_default\<rparr>"]
    by (auto simp: WaitStats_default_def)
  then show ?thesis using s by (simp add: wait_for_inclusion_proof_with_stats_def flip: E_def)
qed

definition polling_budget :: "HttpAggregatorClient \<Rightarrow> duration" where
  "polling_budget cl = min (hc_poll_interval cl * unat (hc_poll_attempts cl)) DURATION_MAX"

lemma get_inclusion_proof_returns:
  assumes "hc_long_poll cl \<Longrightarrow> clock_ok N time \<and> fst (nt_now N w) + polling_budget cl + YEARS_30 \<le> nt_instant_max N"
  shows "\<exists>r w'. http_get_inclusion_proof L N cl state_id w = Some (r, w')"
proof (cases "hc_long_poll cl \<and> polling_budget cl \<noteq> 0")
  case True
  let ?o = "keep_plain_request_timeout (WaitOptions_new (polling_budget cl)) :: 'a WaitOptions"
  have o: "cancel_ok ?o time" "wo_total ?o = polling_budget cl"
    by (simp_all add: cancel_ok_def keep_plain_request_timeout_def WaitOptions_new_def is_cancelled_def)
  have "polling_budget cl \<le> polling_budget cl * MIN_PAUSE" using MIN_PAUSE_bounds(1) by simp
  then obtain outcome w' where "wait_for_inclusion_proof_with_stats L N cl state_id ?o w = Some (outcome, w')"
    using wait_returns [of N time ?o w "polling_budget cl" L cl state_id] assms True o by auto
  then show ?thesis using True by (simp add: http_get_inclusion_proof_def wait_for_inclusion_proof_def flip: polling_budget_def)
next
  case False
  then show ?thesis
    by (cases "attempts_loop L N cl state_id (fst (nt_now N w)) (polling_budget cl) (unat (hc_poll_attempts cl)) 0 (snd (nt_now N w))")
      (auto simp: http_get_inclusion_proof_def Let_def simp flip: polling_budget_def split: prod.split)
qed

section \<open>Submissions\<close>

lemma submit_wait_loop_own:
  "submit_wait_loop n sha2 L N cl data state_id on_other_data w = Some (Ok p, w') \<Longrightarrow> ip_certification_data p = data"
proof (induction n arbitrary: w)
  case 0
  then show ?case by (auto simp: rbind_Inr_iff split: if_splits)
next
  case (Suc n)
  then show ?case by (auto simp: rbind_Inr_iff split: option.splits prod.splits sum.splits if_splits)
qed

theorem submit_and_wait_own:
  "submit_and_wait_with sha2 L N cl data max_resubmits on_other_data w = Some (Ok p, w') \<Longrightarrow> ip_certification_data p = data"
  by (auto simp: submit_and_wait_with_def Let_def dest: submit_wait_loop_own split: prod.splits sum.splits)

lemma submit_wait_loop_returns:
  assumes "\<And>w. \<exists>r w'. http_get_inclusion_proof L N cl state_id w = Some (r, w')"
  shows "\<exists>r w'. submit_wait_loop n sha2 L N cl data state_id on_other_data w = Some (r, w')"
proof (induction n arbitrary: w)
  case 0
  obtain r w1 where "http_get_inclusion_proof L N cl state_id w = Some (r, w1)" using assms by blast
  then show ?case by auto
next
  case (Suc n)
  obtain r w1 where r: "http_get_inclusion_proof L N cl state_id w = Some (r, w1)" using assms by blast
  obtain s w2 where s: "resubmit_certification_request sha2 L N cl data w1 = (s, w2)" by fastforce
  show ?case using r s Suc.IH [of w2] by (cases s) auto
qed

theorem submit_and_wait_returns:
  assumes "\<not> hc_long_poll cl"
  shows "\<exists>r w'. submit_and_wait_with sha2 L N cl data max_resubmits on_other_data w = Some (r, w')"
proof -
  obtain s w1 where s: "resubmit_certification_request sha2 L N cl data w = (s, w1)" by fastforce
  then show ?thesis
    using submit_wait_loop_returns [of L N cl] get_inclusion_proof_returns [of cl N _ _ L] assms
    by (cases s) (simp_all add: submit_and_wait_with_def Let_def)
qed

end
