(* ===== verification/Http_Race.thy ===== *)
theory Http_Race
  imports Http_Sound
begin

text \<open>
  What a submission that is verified reports: its own proof, or a race that is lost only for a proof that
  verifies. No failure of an exchange, of a pause or of a wait is the report of a lost race.
\<close>

section \<open>Races\<close>

lemma read_error_body_transport: "read_error_body L r = (body, too_large, Some f) \<Longrightarrow> raw_to_http f \<noteq> StateCertifiedWithOtherData"
  by (auto simp: read_error_body_def split: sum.splits RawFailure.splits)

lemma transport_failure_transport: "raw_to_http (transport_failure e :: 'j RawFailure) \<noteq> StateCertifiedWithOtherData"
proof -
  have "raw_to_http (chain_failure chain m :: 'j RawFailure) \<noteq> StateCertifiedWithOtherData" for chain m
    by (induction chain m rule: chain_failure.induct) simp_all
  then show ?thesis by (simp add: transport_failure_def)
qed

lemma raw_http_no_race:
  "(\<And>f. interrupted = Some f \<Longrightarrow> raw_to_http f \<noteq> StateCertifiedWithOtherData) \<Longrightarrow>
   raw_to_http (RawHttp status body e retry_after too_large interrupted) \<noteq> StateCertifiedWithOtherData"
  by (cases too_large; cases interrupted) simp_all

lemma raw_envelope_no_race: "raw_to_http (RawEnvelope e) \<noteq> StateCertifiedWithOtherData"
  by (cases e) simp_all

lemma read_response_no_race: "read_response_raw L r limit = Inl f \<Longrightarrow> raw_to_http f \<noteq> StateCertifiedWithOtherData"
  by (auto simp: read_response_raw_def error_simps io_failure_def raw_envelope_no_race split: if_splits)

lemma rpc_answer_no_race:
  assumes "rpc_answer L N i answer w = (Inl f, w')"
  shows "raw_to_http f \<noteq> StateCertifiedWithOtherData"
proof (cases answer)
  case (UreqTransport e)
  then show ?thesis using assms transport_failure_transport by (auto simp: rpc_answer_def)
next
  case (UreqStatus status r)
  obtain body too_large interrupted where r: "read_error_body L r = (body, too_large, interrupted)" by (metis surj_pair)
  then obtain e retry_after where "f = RawHttp status body e retry_after too_large interrupted"
    using assms UreqStatus by (auto simp: rpc_answer_def Let_def split: prod.splits)
  then show ?thesis using read_error_body_transport [of L r body too_large] r by (auto intro!: raw_http_no_race)
next
  case (UreqOk r)
  obtain body too_large interrupted where b: "read_error_body L r = (body, too_large, interrupted)" by (metis surj_pair)
  have http: "raw_to_http (RawHttp status body e retry_after too_large interrupted) \<noteq> StateCertifiedWithOtherData" for status e retry_after
    using read_error_body_transport [of L r body too_large] b by (auto intro!: raw_http_no_race)
  then show ?thesis
    using assms UreqOk b
    by (auto simp: rpc_answer_def Let_def error_simps raw_envelope_no_race dest: read_response_no_race split: prod.splits if_splits)
qed

lemma rpc_raw_no_race: "rpc_raw L N cl m params headers timeout w = (Inl f, w') \<Longrightarrow> raw_to_http f \<noteq> StateCertifiedWithOtherData"
  using rpc_answer_no_race
  by (fastforce simp: rpc_raw_def validate_endpoint_def error_simps Let_def split: sum.splits prod.splits if_splits)

lemma decode_v2_no_race: "decode_v2_result L result sent \<noteq> Inl StateCertifiedWithOtherData"
  by (auto simp: decode_v2_result_def decode_inclusion_proof_response_def error_simps Let_def
      split: if_splits option.splits)

lemma pause_until_no_race:
  assumes "pause_until N options stop w = Some (r, w')"
  shows "r \<noteq> Err StateCertifiedWithOtherData"
  using assms
proof (induction N options stop w "(r, w')" rule: pause_until.raw_induct [rotated, consumes 1, case_names step])
  case (step pause N options stop w)
  then show ?case by (auto split: prod.splits if_splits)
qed

text \<open>\<open>no_race\<close>: the probe does not end with the report of a lost race.\<close>

definition no_race :: "'w probe option \<Rightarrow> bool" where
  "no_race m \<longleftrightarrow> (\<forall>st w. m \<noteq> Some (Inl (Err StateCertifiedWithOtherData), st, w))"

lemma no_race_simps [simp]:
  "no_race (probe_done (Ok p) st w)"
  "no_race (probe_done (Err e) st w) \<longleftrightarrow> e \<noteq> StateCertifiedWithOtherData"
  "no_race (probe_again st w)" "no_race None"
  by (simp_all add: no_race_def probe_done_def probe_again_def)

lemma pause_again_no_race [simp]: "no_race (pause_again N E pause st w)"
  by (auto simp: pause_again_def wait_pause_def dest: pause_until_no_race split: option.split prod.split sum.split)

lemma on_transport_failure_no_race: "no_race (on_transport_failure N E ci timed_out st w)"
  by (auto simp: on_transport_failure_def transport_pause_def Let_def split: prod.split)

lemma on_overload_no_race: "no_race (on_overload N E ci failure retry_after st w)"
  by (auto simp: on_overload_def overload_pause_def Let_def split: prod.split)

lemma on_failure_no_race:
  "raw_to_http failure \<noteq> StateCertifiedWithOtherData \<Longrightarrow> no_race (on_failure L N E ci failure st w)"
  by (auto simp: on_failure_def Let_def error_simps split: HttpError.split option.split sum.split)

lemma on_result_no_race: "no_race (on_result L N E ci result st w)"
  by (auto simp: on_result_def Let_def decode_v2_no_race split: sum.split InclusionProofResponse.split)

lemma on_answer_no_race:
  "(\<And>f. raw = Inl f \<Longrightarrow> raw_to_http f \<noteq> StateCertifiedWithOtherData) \<Longrightarrow> no_race (on_answer L N E ci raw st w)"
  by (auto simp: on_answer_def on_transport_failure_no_race on_overload_no_race on_result_no_race
      intro!: on_failure_no_race split: sum.split RawFailure.split option.split)

lemma wait_probe_no_race: "no_race (wait_probe L N cl state_id E st w)"
  by (auto simp: wait_probe_def Let_def dest: rpc_raw_no_race intro!: on_answer_no_race split: prod.split)

lemma wait_loop_no_race:
  assumes "wait_loop L N cl state_id E st w = Some (r, stats, w')"
  shows "r \<noteq> Err StateCertifiedWithOtherData"
  using assms
proof (induction L N cl state_id E st w "(r, stats, w')" rule: wait_loop.raw_induct [rotated, consumes 1, case_names step])
  case (step loop L N cl state_id E st w)
  then show ?case using wait_probe_no_race [of L N cl state_id E st w]
    by (auto simp: no_race_def split: option.splits prod.splits sum.splits)
qed

lemma attempts_loop_no_race: "fst (attempts_loop L N cl state_id started budget n unknown_seen w) \<noteq> Err StateCertifiedWithOtherData"
proof (induction n arbitrary: unknown_seen w)
  case 0
  show ?case by simp
next
  case (Suc n)
  then show ?case
    by (auto simp: Let_def overload_pause_def transport_pause_def decode_v2_no_race dest: rpc_raw_no_race
        split: prod.split sum.split option.split InclusionProofResponse.split HttpError.split)
qed

lemma get_inclusion_proof_no_race:
  assumes "http_get_inclusion_proof L N cl state_id w = Some (r, w')"
  shows "r \<noteq> Err StateCertifiedWithOtherData"
proof -
  have attempts: "attempts_loop L N cl state_id started budget n 0 w1 = (r', w2) \<Longrightarrow> r' \<noteq> Err StateCertifiedWithOtherData"
    for started budget n w1 r' w2 using attempts_loop_no_race by (metis fst_conv)
  show ?thesis using assms
    by (auto simp: http_get_inclusion_proof_def wait_for_inclusion_proof_def wait_for_inclusion_proof_with_stats_def Let_def
        dest: wait_loop_no_race attempts split: if_splits prod.splits)
qed

lemma submit_no_race:
  assumes "resubmit_certification_request sha2 L N cl data w = (Inl e, w')"
  shows "e \<noteq> StateCertifiedWithOtherData"
proof -
  have "submit_status L result \<noteq> Inl StateCertifiedWithOtherData" for result by (auto simp: submit_status_def Let_def)
  moreover obtain reply w1 where "submit_inner sha2 L N cl data w = (reply, w1)" by fastforce
  ultimately show ?thesis using assms
    by (cases reply) (auto simp: resubmit_certification_request_def submit_inner_def Let_def
        dest: rpc_raw_no_race split: prod.splits sum.splits RawFailure.splits EnvelopeError.splits if_splits)
qed

lemma submit_wait_loop_race:
  assumes "submit_wait_loop n sha2 L N cl data state_id on_other_data w = Some (Err StateCertifiedWithOtherData, w')"
  shows "\<exists>p. ip_certification_data p \<noteq> data \<and> on_other_data p state_id = StateCertifiedWithOtherData"
  using assms
proof (induction n arbitrary: w)
  case 0
  then show ?case by (auto simp: rbind_Inl_iff dest: get_inclusion_proof_no_race split: if_splits)
next
  case (Suc n)
  then show ?case
    by (auto simp: rbind_Inl_iff dest: get_inclusion_proof_no_race submit_no_race split: option.splits prod.splits sum.splits if_splits)
qed

theorem race_lost_to_verified_proof:
  assumes "submit_and_wait_verified sha2 ec L N cl data max_resubmits tb w = Some (Err StateCertifiedWithOtherData, w')"
  shows "\<exists>p. ip_certification_data p \<noteq> data \<and>
    InclusionProof_verify_for sha2 ec p (StateId_derive sha2 (cd_lock_script data) (cd_source_state_hash data)) (ip_reference_time p) tb = Ok ()"
proof -
  have "conflict_error sha2 ec p state_id tb = StateCertifiedWithOtherData \<Longrightarrow>
      InclusionProof_verify_for sha2 ec p state_id (ip_reference_time p) tb = Ok ()" for p state_id
    by (auto simp: conflict_error_def split: sum.splits)
  then show ?thesis
    using assms submit_wait_loop_race [of _ sha2 L N cl data _ "\<lambda>p state_id. conflict_error sha2 ec p state_id tb"]
    by (fastforce simp: submit_and_wait_verified_def submit_and_wait_with_def Let_def dest: submit_no_race split: prod.splits sum.splits)
qed

end
