(* ===== verification/Sample_Http.thy ===== *)
theory Sample_Http
  imports Http_Race
begin

text \<open>
  A concrete transport for the instances of the theorems on the JSON-RPC client: the world is the time, every
  request fails at once, and the JSON library knows only strings.
\<close>

definition sample_libs :: "string libs" where
  "sample_libs =
     \<lparr>lb_from_str = Inr, lb_as_object = (\<lambda>_. None), lb_as_array = (\<lambda>_. None), lb_as_str = Some, lb_as_i64 = (\<lambda>_. None),
      lb_as_u64 = (\<lambda>_. None), lb_as_bool = (\<lambda>_. None), lb_is_null = (\<lambda>_. False), lb_hex_encode = utf8_text,
      lb_hex_decode = (\<lambda>s. Inl s),
      lb_parse_url = (\<lambda>s. Inr \<lparr>url_scheme = ''https'', url_has_host = True, url_username = [], url_password = None, url_fragment = None\<rparr>),
      lb_utf8_error = (\<lambda>_. []), lb_cbor_text = (\<lambda>_. []), lb_error_text = (\<lambda>_. []), lb_view_text = (\<lambda>_. []),
      lb_verification_text = (\<lambda>_. [])\<rparr>"

definition sample_net :: "nat net" where
  "sample_net =
     \<lparr>nt_now = (\<lambda>w. (w, w)), nt_instant_max = 2 ^ 100, nt_system_now = (\<lambda>w. (w, w)), nt_sleep = (\<lambda>d w. w + d),
      nt_random = (\<lambda>w. (None, w)),
      nt_post = (\<lambda>_ w. (UreqTransport \<lparr>ue_fatal_kind = False, ue_chain = [], ue_text = ''refused''\<rparr>, w))\<rparr>"

definition sample_http :: HttpAggregatorClient where
  "sample_http = HttpAggregatorClient_with_long_poll (HttpAggregatorClient_new ''https://gateway.example'') False"

lemma sample_clock: "clock_ok sample_net (\<lambda>w. w)"
  by (simp add: clock_ok_def sample_net_def)

lemma sample_never_cancelled: "cancel_ok (WaitOptions_new d) time"
  by (simp add: cancel_ok_def WaitOptions_new_def is_cancelled_def)

end
