(* ===== verification/Rsmst_Spec.thy ===== *)
theory Rsmst_Spec
  imports Rsmst
begin

text \<open>
  What sum-tree proofs establish. A built tree proves every leaf with the sum of all leaves; proofs
  that verify against one root cannot account for more than the root sum without a SHA-256 collision.
\<close>

section \<open>Amounts\<close>

lemma biguint_bits_le: "biguint_bits v \<le> k \<longleftrightarrow> v < 2 ^ k"
proof (induction k arbitrary: v)
  case 0
  then show ?case by (subst biguint_bits.simps) simp
next
  case (Suc k)
  show ?case
  proof (cases "v = 0")
    case False
    then have "biguint_bits v \<le> Suc k \<longleftrightarrow> biguint_bits (v div 2) \<le> k" by (subst biguint_bits.simps) simp
    also have "\<dots> \<longleftrightarrow> v div 2 < 2 ^ k" by (rule Suc.IH)
    also have "\<dots> \<longleftrightarrow> v < 2 ^ Suc k" by (simp add: div_less_iff_less_mult mult.commute)
    finally show ?thesis .
  qed (subst biguint_bits.simps, simp)
qed

lemma is_valid_amount_iff: "is_valid_amount v \<longleftrightarrow> 0 < v \<and> v < 2 ^ 256"
  by (simp add: is_valid_amount_def biguint_bits_le)

lemma nat_of_be_biguint: "nat_of_be (biguint_to_bytes_be v) = v"
proof (induction v rule: biguint_to_bytes_be.induct)
  case (1 v)
  show ?case
  proof (cases "v < 256")
    case True
    then show ?thesis by (subst biguint_to_bytes_be.simps) (simp add: nat_of_be_def unat_of_nat take_bit_nat_eq_self)
  next
    case False
    have "unat (word_of_nat (v mod 256) :: u8) = v mod 256" by (simp add: unat_of_nat take_bit_eq_mod)
    then show ?thesis using 1 False
      by (subst biguint_to_bytes_be.simps) (simp add: div_mult_mod_eq)
  qed
qed

lemma biguint_bytes_pos: "0 < length (biguint_to_bytes_be v)"
  by (subst biguint_to_bytes_be.simps) simp

lemma length_biguint_le: "0 < k \<Longrightarrow> length (biguint_to_bytes_be v) \<le> k \<longleftrightarrow> v < 256 ^ k"
proof (induction k arbitrary: v)
  case (Suc k)
  show ?case
  proof (cases "v < 256")
    case True
    moreover have "256 * 1 \<le> 256 * (256 :: nat) ^ k" by (rule mult_le_mono2) simp
    ultimately have "v < 256 ^ Suc k" unfolding power_Suc by linarith
    then show ?thesis using True by (subst biguint_to_bytes_be.simps) simp
  next
    case False
    show ?thesis
    proof (cases "k = 0")
      case True
      then show ?thesis using False biguint_bytes_pos [of "v div 256"]
        by (subst biguint_to_bytes_be.simps) simp
    next
      case k: False
      have "length (biguint_to_bytes_be v) \<le> Suc k \<longleftrightarrow> length (biguint_to_bytes_be (v div 256)) \<le> k"
        using False by (subst biguint_to_bytes_be.simps) simp
      also have "\<dots> \<longleftrightarrow> v div 256 < 256 ^ k" using Suc.IH k by simp
      also have "\<dots> \<longleftrightarrow> v < 256 ^ Suc k" by (simp add: div_less_iff_less_mult mult.commute)
      finally show ?thesis .
    qed
  qed
qed simp

lemma nat_of_be_zeros: "nat_of_be (replicate n 0 @ b) = nat_of_be b"
  by (induction n) (simp_all add: nat_of_be_def)

lemma u256_be_iff: "u256_be v = Some b \<longleftrightarrow> v < 2 ^ 256 \<and> b = be_bytes 32 v"
proof -
  have len: "length (biguint_to_bytes_be v) \<le> 32 \<longleftrightarrow> v < 2 ^ 256"
    using length_biguint_le [of 32 v] by (simp add: power_mult [of 2 8 32, symmetric, simplified])
  have "replicate (32 - length (biguint_to_bytes_be v)) 0 @ biguint_to_bytes_be v = be_bytes 32 v" if "v < 2 ^ 256"
  proof (rule be_bytes_inj)
    show "length (replicate (32 - length (biguint_to_bytes_be v)) 0 @ biguint_to_bytes_be v) = length (be_bytes 32 v)"
      using that len by simp
    have "v mod 256 ^ 32 = v" using that by simp
    then show "nat_of_be (replicate (32 - length (biguint_to_bytes_be v)) 0 @ biguint_to_bytes_be v) =
        nat_of_be (be_bytes 32 v)"
      by (simp only: nat_of_be_zeros nat_of_be_biguint nat_of_be_bytes)
  qed
  then show ?thesis using len by (auto simp: u256_be_def Let_def AMOUNT_MAX_BYTES_def not_less)
qed

section \<open>Paths from the root\<close>

definition leaf_pre :: "bytes \<Rightarrow> bytes \<Rightarrow> nat \<Rightarrow> bytes" where
  "leaf_pre key data v = RSMST_LEAF # key @ data @ be_bytes 32 v"

definition node_pre :: "u8 \<Rightarrow> bytes \<times> nat \<Rightarrow> bytes \<times> nat \<Rightarrow> bytes" where
  "node_pre d l r = RSMST_NODE # d # fst l @ be_bytes 32 (snd l) @ fst r @ be_bytes 32 (snd r)"

lemma leaf_hash_iff:
  "leaf_hash sha2 key data v = Some h \<longleftrightarrow> v < 2 ^ 256 \<and> h = sha2 Sha256 (leaf_pre key data v)"
  by (auto simp: leaf_hash_def bind_eq_Some_conv u256_be_iff sha256_raw_def leaf_pre_def)

lemma biguint_bits_gt: "k < biguint_bits v \<longleftrightarrow> \<not> v < 2 ^ k"
  using biguint_bits_le [of v k] by linarith

lemma node_hash_iff:
  "node_hash sha2 d l r = Some n \<longleftrightarrow>
     snd l + snd r < 2 ^ 256 \<and> n = (sha2 Sha256 (node_pre d l r), snd l + snd r)"
  by (auto simp: node_hash_def Let_def bind_eq_Some_conv u256_be_iff sha256_raw_def node_pre_def
      biguint_bits_gt)

definition branch_node :: "sha2 \<Rightarrow> bytes \<Rightarrow> RsmstProofStep \<Rightarrow> bytes \<times> nat \<Rightarrow> (bytes \<times> nat) option" where
  "branch_node sha2 key s n =
     (if key_bit key (rs_depth s) then node_hash sha2 (rs_depth s) (rs_hash s, rs_sum s) n
      else node_hash sha2 (rs_depth s) n (rs_hash s, rs_sum s))"

text \<open>The node above a leaf, with the steps in the order from the root.\<close>

fun at_root :: "sha2 \<Rightarrow> bytes \<Rightarrow> bytes \<times> nat \<Rightarrow> RsmstProofStep list \<Rightarrow> (bytes \<times> nat) option" where
  "at_root sha2 key leaf [] = Some leaf"
| "at_root sha2 key leaf (s # ss) = Option.bind (at_root sha2 key leaf ss) (branch_node sha2 key s)"

lemma at_root_snoc:
  "at_root sha2 key leaf (ss @ [s]) = Option.bind (branch_node sha2 key s leaf) (\<lambda>n. at_root sha2 key n ss)"
proof (induction ss)
  case Nil
  then show ?case by (cases "branch_node sha2 key s leaf") simp_all
next
  case (Cons t ss)
  then show ?case by (cases "branch_node sha2 key s leaf") simp_all
qed

lemma fold_steps_up_at_root:
  "fold_steps_up sha2 key steps n d = Some r \<Longrightarrow> at_root sha2 key n (rev steps) = Some r"
  by (induction sha2 key steps n d rule: fold_steps_up.induct)
    (auto simp: at_root_snoc branch_node_def bind_eq_Some_conv split: if_splits)

section \<open>Value conservation\<close>

text \<open>A claim that the leaf of a key receives an amount, with its path from the root.\<close>

record Allocation =
  al_key :: bytes
  al_data :: bytes
  al_value :: nat
  al_path :: "RsmstProofStep list"

definition alloc_node :: "sha2 \<Rightarrow> Allocation \<Rightarrow> (bytes \<times> nat) option" where
  "alloc_node sha2 a =
     Option.bind (leaf_hash sha2 (al_key a) (al_data a) (al_value a))
       (\<lambda>h. at_root sha2 (al_key a) (h, al_value a) (al_path a))"

definition alloc_wf :: "Allocation \<Rightarrow> bool" where
  "alloc_wf a \<longleftrightarrow> length (al_key a) = 32 \<and> length (al_data a) = 32 \<and>
     (\<forall>s\<in>set (al_path a). length (rs_hash s) = 32)"

abbreviation below :: "Allocation \<Rightarrow> Allocation" where
  "below a \<equiv> a\<lparr>al_path := tl (al_path a)\<rparr>"

definition top_pre :: "sha2 \<Rightarrow> Allocation \<Rightarrow> bytes" where
  "top_pre sha2 a =
     (case al_path a of [] \<Rightarrow> leaf_pre (al_key a) (al_data a) (al_value a)
      | s # ss \<Rightarrow> (case alloc_node sha2 (below a) of None \<Rightarrow> []
          | Some n \<Rightarrow> if key_bit (al_key a) (rs_depth s) then node_pre (rs_depth s) (rs_hash s, rs_sum s) n
                      else node_pre (rs_depth s) n (rs_hash s, rs_sum s)))"

text \<open>All hash inputs on the path of a claim.\<close>

definition alloc_pres :: "sha2 \<Rightarrow> Allocation \<Rightarrow> bytes set" where
  "alloc_pres sha2 a = (\<lambda>i. top_pre sha2 (a\<lparr>al_path := drop i (al_path a)\<rparr>)) ` {..length (al_path a)}"

lemma top_pre_in: "top_pre sha2 a \<in> alloc_pres sha2 a"
  unfolding alloc_pres_def by (rule image_eqI [of _ _ 0]) simp_all

lemma alloc_pres_below: "al_path a \<noteq> [] \<Longrightarrow> alloc_pres sha2 (below a) \<subseteq> alloc_pres sha2 a"
  by (cases "al_path a") (auto simp: alloc_pres_def drop_Suc intro!: image_eqI [of _ _ "Suc _"])

lemma alloc_below_wf: "alloc_wf a \<Longrightarrow> alloc_wf (below a)"
  by (cases "al_path a") (auto simp: alloc_wf_def)

lemma alloc_node_Cons:
  "al_path a = s # ss \<Longrightarrow> alloc_node sha2 a = Option.bind (alloc_node sha2 (below a)) (branch_node sha2 (al_key a) s)"
  by (cases "leaf_hash sha2 (al_key a) (al_data a) (al_value a)") (simp_all add: alloc_node_def)

lemma alloc_node_top:
  assumes "alloc_node sha2 a = Some (h, t)"
  shows "h = sha2 Sha256 (top_pre sha2 a)"
proof (cases "al_path a")
  case Nil
  then show ?thesis using assms by (auto simp: alloc_node_def top_pre_def bind_eq_Some_conv leaf_hash_iff)
next
  case (Cons s ss)
  then show ?thesis using assms
    by (auto simp: alloc_node_Cons top_pre_def bind_eq_Some_conv branch_node_def node_hash_iff split: if_splits)
qed

lemma alloc_node_length: "sha2_lengths sha2 \<Longrightarrow> alloc_node sha2 a = Some (h, t) \<Longrightarrow> length h = 32"
  using alloc_node_top by (fastforce simp: sha2_lengths_def)

lemma alloc_node_below:
  assumes "alloc_node sha2 a = Some (h, t)" "al_path a = s # ss"
  obtains n where "alloc_node sha2 (below a) = Some n" "t = snd n + rs_sum s" "snd n + rs_sum s < 2 ^ 256"
    "top_pre sha2 a = (if key_bit (al_key a) (rs_depth s) then node_pre (rs_depth s) (rs_hash s, rs_sum s) n
       else node_pre (rs_depth s) n (rs_hash s, rs_sum s))"
proof -
  obtain n where n: "alloc_node sha2 (below a) = Some n" and b: "branch_node sha2 (al_key a) s n = Some (h, t)"
    using assms by (auto simp: alloc_node_Cons bind_eq_Some_conv)
  show ?thesis
    by (rule that [OF n]) (use b n assms(2) in
      \<open>auto simp: branch_node_def node_hash_iff top_pre_def add.commute split: if_splits\<close>)
qed

lemma node_pre_inj:
  assumes "node_pre d l r = node_pre d' l' r'" "length (fst l) = 32" "length (fst l') = 32"
    "length (fst r) = 32" "length (fst r') = 32"
    and "snd l + snd r < 2 ^ 256" "snd l' + snd r' < 2 ^ 256"
  shows "d = d' \<and> l = l' \<and> r = r'"
proof -
  have small: "snd l < 256 ^ 32" "snd l' < 256 ^ 32" "snd r < 256 ^ 32" "snd r' < 256 ^ 32"
    using assms(6,7) by simp_all
  have inj: "x = y" if "be_bytes 32 x = be_bytes 32 y" "x < 256 ^ 32" "y < 256 ^ 32" for x y
    using arg_cong [OF that(1), of nat_of_be] that(2,3) by (simp only: nat_of_be_bytes mod_less)
  have "d = d'" "fst l = fst l'" "be_bytes 32 (snd l) = be_bytes 32 (snd l')" "fst r = fst r'"
    "be_bytes 32 (snd r) = be_bytes 32 (snd r')"
    using assms(1-5) by (simp_all add: node_pre_def)
  then show ?thesis using inj small by (simp add: prod_eq_iff)
qed

text \<open>Claims under one hash, without collision: they have one sum, and either the only claim is a leaf or
  all of them pass through one branch.\<close>

definition same_root :: "sha2 \<Rightarrow> bytes \<Rightarrow> Allocation list \<Rightarrow> bool" where
  "same_root sha2 h as \<longleftrightarrow> (\<forall>a\<in>set as. alloc_wf a \<and> (\<exists>t. alloc_node sha2 a = Some (h, t))) \<and>
     distinct (map al_key as) \<and> inj_on (sha2 Sha256) (\<Union>a\<in>set as. alloc_pres sha2 a)"

lemma same_root_top:
  assumes "same_root sha2 h as" "a \<in> set as" "b \<in> set as"
  shows "top_pre sha2 a = top_pre sha2 b"
proof -
  have inj: "inj_on (sha2 Sha256) (\<Union>a\<in>set as. alloc_pres sha2 a)" using assms(1) by (simp add: same_root_def)
  have nodes: "\<exists>t. alloc_node sha2 c = Some (h, t)" if "c \<in> set as" for c
    using assms(1) that by (simp add: same_root_def)
  have "sha2 Sha256 (top_pre sha2 a) = sha2 Sha256 (top_pre sha2 b)"
    using nodes [OF assms(2)] nodes [OF assms(3)] by (metis alloc_node_top)
  then show ?thesis
    by (rule inj_onD [OF inj]) (use assms(2,3) top_pre_in in blast)+
qed

lemma same_root_leaf:
  assumes sr: "same_root sha2 h as" and a: "a \<in> set as" "al_path a = []"
  shows "as = [a]"
proof -
  have "al_key b = al_key a" if b: "b \<in> set as" for b
  proof -
    obtain t where t: "alloc_node sha2 b = Some (h, t)" and wf: "alloc_wf a" "alloc_wf b"
      using sr a(1) b by (auto simp: same_root_def)
    have eq: "top_pre sha2 b = leaf_pre (al_key a) (al_data a) (al_value a)"
      using same_root_top [OF sr b a(1)] a(2) by (simp add: top_pre_def)
    show ?thesis
    proof (cases "al_path b")
      case Nil
      then show ?thesis using eq wf by (simp add: top_pre_def leaf_pre_def alloc_wf_def)
    next
      case (Cons s ss)
      obtain n where "alloc_node sha2 (below b) = Some n" "t = snd n + rs_sum s" "snd n + rs_sum s < 2 ^ 256"
        and "top_pre sha2 b = (if key_bit (al_key b) (rs_depth s) then node_pre (rs_depth s) (rs_hash s, rs_sum s) n
           else node_pre (rs_depth s) n (rs_hash s, rs_sum s))"
        by (rule alloc_node_below [OF t Cons])
      then show ?thesis using eq
        by (auto simp: node_pre_def leaf_pre_def RSMST_LEAF_def RSMST_NODE_def split: if_splits)
    qed
  qed
  moreover have "distinct (map al_key as)" using sr by (simp add: same_root_def)
  ultimately have "set as \<subseteq> {a}" and "distinct as"
    using a(1) by (auto simp: distinct_map dest: inj_onD)
  then have "length as = card {a}"
    using a(1) distinct_card [of as] by (metis empty_iff insert_iff singletonI subset_singletonD empty_set)
  then show ?thesis using a(1) by (auto simp: length_Suc_conv)
qed

text \<open>The two children of the common branch.\<close>

lemma same_root_branch:
  assumes len: "sha2_lengths sha2" and sr: "same_root sha2 h as" and ne: "as \<noteq> []" "\<And>a. a \<in> set as \<Longrightarrow> al_path a \<noteq> []"
  obtains d l r where "\<And>a. a \<in> set as \<Longrightarrow> rs_depth (hd (al_path a)) = d \<and> alloc_node sha2 a = Some (h, snd l + snd r) \<and>
    alloc_node sha2 (below a) = Some (if key_bit (al_key a) d then r else l)"
proof -
  have branch: "\<exists>l r. top_pre sha2 a = node_pre (rs_depth (hd (al_path a))) l r \<and> length (fst l) = 32 \<and>
      length (fst r) = 32 \<and> snd l + snd r < 2 ^ 256 \<and> alloc_node sha2 a = Some (h, snd l + snd r) \<and>
      alloc_node sha2 (below a) = Some (if key_bit (al_key a) (rs_depth (hd (al_path a))) then r else l)"
    if a: "a \<in> set as" for a
  proof -
    obtain s ss where path: "al_path a = s # ss" using ne(2) [OF a] by (cases "al_path a") auto
    obtain t where t: "alloc_node sha2 a = Some (h, t)" and wf: "alloc_wf a" using sr a by (auto simp: same_root_def)
    obtain n where n: "alloc_node sha2 (below a) = Some n" "t = snd n + rs_sum s" "snd n + rs_sum s < 2 ^ 256"
      and top: "top_pre sha2 a = (if key_bit (al_key a) (rs_depth s) then node_pre (rs_depth s) (rs_hash s, rs_sum s) n
         else node_pre (rs_depth s) n (rs_hash s, rs_sum s))"
      by (rule alloc_node_below [OF t path])
    have "length (fst n) = 32" using alloc_node_length [OF len] n(1) by (cases n) simp
    moreover have "length (rs_hash s) = 32" using wf path by (simp add: alloc_wf_def)
    ultimately show ?thesis using n top t path
      by (cases "key_bit (al_key a) (rs_depth s)")
        (force intro: exI [of _ "(rs_hash s, rs_sum s)"] exI [of _ n] simp: add.commute)+
  qed
  obtain a0 where a0: "a0 \<in> set as" using ne(1) by (cases as) auto
  obtain l r where lr: "top_pre sha2 a0 = node_pre (rs_depth (hd (al_path a0))) l r" "length (fst l) = 32"
      "length (fst r) = 32" "snd l + snd r < 2 ^ 256"
    using branch [OF a0] by blast
  show ?thesis
  proof (rule that [of "rs_depth (hd (al_path a0))" l r])
    fix a assume a: "a \<in> set as"
    obtain l' r' where b: "top_pre sha2 a = node_pre (rs_depth (hd (al_path a))) l' r'" "length (fst l') = 32"
        "length (fst r') = 32" "snd l' + snd r' < 2 ^ 256" "alloc_node sha2 a = Some (h, snd l' + snd r')"
        "alloc_node sha2 (below a) = Some (if key_bit (al_key a) (rs_depth (hd (al_path a))) then r' else l')"
      using branch [OF a] by blast
    have "rs_depth (hd (al_path a)) = rs_depth (hd (al_path a0)) \<and> l' = l \<and> r' = r"
      using same_root_top [OF sr a a0] lr b(1-4) by (intro node_pre_inj) simp_all
    then show "rs_depth (hd (al_path a)) = rs_depth (hd (al_path a0)) \<and> alloc_node sha2 a = Some (h, snd l + snd r) \<and>
      alloc_node sha2 (below a) = Some (if key_bit (al_key a) (rs_depth (hd (al_path a0))) then r else l)"
      using b(5,6) by simp
  qed
qed

lemma same_root_below:
  assumes "same_root sha2 h as" "\<And>a. a \<in> set as \<Longrightarrow> al_path a \<noteq> []"
    and "\<And>a. a \<in> set as \<Longrightarrow> P a \<Longrightarrow> alloc_node sha2 (below a) = Some n"
  shows "same_root sha2 (fst n) (map below (filter P as))"
proof -
  have "(\<Union>a\<in>set (map below (filter P as)). alloc_pres sha2 a) \<subseteq> (\<Union>a\<in>set as. alloc_pres sha2 a)"
    using alloc_pres_below assms(2) by fastforce
  moreover have "inj_on (sha2 Sha256) (\<Union>a\<in>set as. alloc_pres sha2 a)"
    using assms(1) by (simp add: same_root_def)
  moreover have "\<exists>t. alloc_node sha2 (below a) = Some (fst n, t)" if "a \<in> set as" "P a" for a
    using assms(3) [OF that] by (cases n) simp
  moreover have "distinct (map al_key (filter P as))"
    using assms(1) by (auto simp: same_root_def intro: distinct_map_filter)
  ultimately show ?thesis
    using assms(1) alloc_below_wf by (auto simp: same_root_def comp_def intro: inj_on_subset)
qed

theorem allocations_conserved:
  assumes len: "sha2_lengths sha2" and "same_root sha2 h as" "as \<noteq> []"
  shows "\<exists>t. (\<forall>a\<in>set as. alloc_node sha2 a = Some (h, t)) \<and> sum_list (map al_value as) \<le> t"
  using assms(2,3)
proof (induction "sum_list (map (length \<circ> al_path) as)" arbitrary: h as rule: less_induct)
  case less
  show ?case
  proof (cases "\<exists>a\<in>set as. al_path a = []")
    case True
    then obtain a where a: "a \<in> set as" "al_path a = []" by blast
    with same_root_leaf [OF less.prems(1)] have as: "as = [a]" by blast
    obtain t where t: "alloc_node sha2 a = Some (h, t)" using less.prems(1) a(1) by (auto simp: same_root_def)
    then have "t = al_value a" using a(2) by (auto simp: alloc_node_def bind_eq_Some_conv)
    then show ?thesis using as t by simp
  next
    case False
    then have ne: "\<And>a. a \<in> set as \<Longrightarrow> al_path a \<noteq> []" by blast
    obtain d l r where br: "\<And>a. a \<in> set as \<Longrightarrow> rs_depth (hd (al_path a)) = d \<and>
        alloc_node sha2 a = Some (h, snd l + snd r) \<and>
        alloc_node sha2 (below a) = Some (if key_bit (al_key a) d then r else l)"
      using same_root_branch [OF len less.prems ne] by blast
    have part: "sum_list (map al_value (filter P as)) \<le> snd n"
      if P: "\<And>a. a \<in> set as \<Longrightarrow> P a \<Longrightarrow> alloc_node sha2 (below a) = Some n" for P n
    proof (cases "filter P as = []")
      case nonempty: False
      let ?as = "map below (filter P as)"
      have "sum_list (map (length \<circ> al_path) ?as) < sum_list (map (length \<circ> al_path) as)"
      proof -
        have "sum_list (map (\<lambda>a. length (al_path a) - 1) (filter P as)) < sum_list (map (\<lambda>a. length (al_path a)) (filter P as))"
          using nonempty ne by (intro sum_list_strict_mono) auto
        also have "\<dots> \<le> sum_list (map (\<lambda>a. length (al_path a)) as)"
          by (induction as) auto
        finally show ?thesis by (simp add: comp_def)
      qed
      from less.hyps [OF this same_root_below [OF less.prems(1) ne P]] nonempty
      obtain t where "\<forall>a\<in>set ?as. alloc_node sha2 a = Some (fst n, t)" "sum_list (map al_value ?as) \<le> t" by auto
      moreover obtain a where "a \<in> set as" "P a" using nonempty by (auto simp: filter_empty_conv)
      moreover have "snd n = t"
        using \<open>\<forall>a\<in>set ?as. alloc_node sha2 a = Some (fst n, t)\<close> P \<open>a \<in> set as\<close> \<open>P a\<close> by (cases n) (auto dest!: bspec [of _ _ "below a"])
      ultimately show ?thesis by (simp add: comp_def)
    qed simp
    have "sum_list (map al_value as) = sum_list (map al_value (filter (\<lambda>a. key_bit (al_key a) d) as)) +
        sum_list (map al_value (filter (\<lambda>a. \<not> key_bit (al_key a) d) as))"
      by (induction as) auto
    also have "\<dots> \<le> snd r + snd l" using br by (intro add_mono part) auto
    finally show ?thesis using br by (metis add.commute)
  qed
qed

text \<open>The same for verified proofs: \<open>(proof, key, data, amount)\<close> claims under one root.\<close>

type_synonym claim = "RsmstInclusionProof \<times> bytes \<times> bytes \<times> nat"

definition claim_alloc :: "claim \<Rightarrow> Allocation" where
  "claim_alloc c = (case c of (p, key, data, v) \<Rightarrow>
     \<lparr>al_key = key, al_data = data, al_value = v, al_path = rev (rp_steps p)\<rparr>)"

definition claim_wf :: "claim \<Rightarrow> bool" where
  "claim_wf c \<longleftrightarrow> alloc_wf (claim_alloc c)"

definition claim_pres :: "sha2 \<Rightarrow> claim list \<Rightarrow> bytes set" where
  "claim_pres sha2 cs = (\<Union>c\<in>set cs. alloc_pres sha2 (claim_alloc c))"

lemma verify_alloc:
  assumes "RsmstInclusionProof_verify sha2 p key data v root = Some t"
  shows "alloc_node sha2 (claim_alloc (p, key, data, v)) = Some (root, t)"
  using assms
  by (auto simp: RsmstInclusionProof_verify_def alloc_node_def claim_alloc_def bind_eq_Some_conv
      split: if_splits dest!: fold_steps_up_at_root)

lemma verified_claims_conserved:
  assumes len: "sha2_lengths sha2" and inj: "inj_on (sha2 Sha256) (claim_pres sha2 cs)"
    and wf: "\<And>c. c \<in> set cs \<Longrightarrow> claim_wf c" and keys: "distinct (map (fst \<circ> snd) cs)"
    and ok: "\<And>p key data v. (p, key, data, v) \<in> set cs \<Longrightarrow>
      RsmstInclusionProof_verify sha2 p key data v root = Some t"
  shows "sum_list (map (snd \<circ> snd \<circ> snd) cs) \<le> t"
proof (cases "cs = []")
  case False
  let ?as = "map claim_alloc cs"
  have node: "alloc_node sha2 a = Some (root, t)" if "a \<in> set ?as" for a
    using that ok verify_alloc by auto
  have vals: "al_value \<circ> claim_alloc = snd \<circ> snd \<circ> snd" and ks: "al_key \<circ> claim_alloc = fst \<circ> snd"
    by (auto simp: fun_eq_iff claim_alloc_def)
  have "same_root sha2 root ?as"
    using inj wf keys node ks by (auto simp: same_root_def claim_pres_def claim_wf_def)
  then obtain u where "\<forall>a\<in>set ?as. alloc_node sha2 a = Some (root, u)" "sum_list (map al_value ?as) \<le> u"
    using allocations_conserved [OF len, of root ?as] False by auto
  moreover have "u = t" using calculation(1) node False by (cases cs) auto
  ultimately show ?thesis by (simp add: vals)
qed simp

end
