(* ===== verification/Rsmst_Wire.thy ===== *)
theory Rsmst_Wire
  imports Rsmst_Spec
begin

text \<open>
  Wire forms of amounts and of sum-tree proofs. Both are canonical: what is decoded is re-encoded to
  the same bytes, and what is well-formed is read back.
\<close>

section \<open>Amounts\<close>

lemma nat_of_be_pos:
  assumes "bs \<noteq> []" "bs ! 0 \<noteq> 0"
  shows "256 ^ (length bs - 1) \<le> nat_of_be bs"
  using assms
proof (induction bs rule: rev_induct)
  case (snoc b bs)
  show ?case
  proof (cases "bs = []")
    case True
    have "unat b \<noteq> 0" using snoc.prems(2) True by (simp add: unat_eq_zero)
    then show ?thesis using True by (simp add: nat_of_be_def)
  next
    case False
    then have IH: "256 ^ (length bs - 1) \<le> nat_of_be bs" using snoc by (simp add: nth_append)
    have "(256 :: nat) ^ length bs = 256 ^ (length bs - 1) * 256" using False by (cases bs) simp_all
    also have "\<dots> \<le> nat_of_be bs * 256" using IH by simp
    finally show ?thesis by (simp add: nat_of_be_snoc)
  qed
qed simp

lemma biguint_head: "v \<noteq> 0 \<Longrightarrow> biguint_to_bytes_be v ! 0 \<noteq> 0"
proof (induction v rule: biguint_to_bytes_be.induct)
  case (1 v)
  show ?case
  proof (cases "v < 256")
    case True
    then have "unat (word_of_nat v :: u8) = v" by (simp add: unat_of_nat take_bit_nat_eq_self)
    then show ?thesis using True 1(2) by (subst biguint_to_bytes_be.simps) (auto simp del: unat_of_nat)
  next
    case False
    then have "v div 256 \<noteq> 0" by (simp add: div_eq_0_iff)
    then show ?thesis using 1(1) [OF False] False biguint_bytes_pos [of "v div 256"]
      by (subst biguint_to_bytes_be.simps) (simp add: nth_append)
  qed
qed

text \<open>Decoding accepts exactly the minimal encodings of the amounts from 1 to \<open>2 ^ 256 - 1\<close>.\<close>

lemma minimal_bytes:
  assumes "b \<noteq> []" "b ! 0 \<noteq> 0"
  shows "biguint_to_bytes_be (nat_of_be b) = b"
proof (rule be_bytes_inj)
  have lower: "256 ^ (length b - 1) \<le> nat_of_be b" by (rule nat_of_be_pos [OF assms])
  have "nat_of_be b < 256 ^ length b" by (rule nat_of_be_less)
  then have "length (biguint_to_bytes_be (nat_of_be b)) \<le> length b"
    using assms(1) by (simp add: length_biguint_le)
  moreover have "\<not> length (biguint_to_bytes_be (nat_of_be b)) \<le> length b - 1"
  proof (cases "length b - 1 = 0")
    case True
    then show ?thesis using biguint_bytes_pos [of "nat_of_be b"] by simp
  next
    case False
    then show ?thesis using length_biguint_le [of "length b - 1" "nat_of_be b"] lower by simp
  qed
  ultimately show "length (biguint_to_bytes_be (nat_of_be b)) = length b" by simp
qed (rule nat_of_be_biguint)

lemma decode_positive_amount_iff:
  "decode_positive_amount b = Ok v \<longleftrightarrow> is_valid_amount v \<and> b = encode_amount v"
proof
  assume "decode_positive_amount b = Ok v"
  then have b: "b \<noteq> []" "length b \<le> 32" "b ! 0 \<noteq> 0" and v: "v = nat_of_be b"
    by (auto simp: decode_positive_amount_def AMOUNT_MAX_BYTES_def split: if_splits)
  have "(1 :: nat) \<le> 256 ^ (length b - 1)" by simp
  also have "\<dots> \<le> v" unfolding v by (rule nat_of_be_pos [OF b(1,3)])
  finally have "0 < v" by simp
  moreover have "v < 2 ^ 256"
  proof -
    have "v < 256 ^ length b" unfolding v by (rule nat_of_be_less)
    also have "\<dots> \<le> (256 :: nat) ^ 32" using b(2) by (intro power_increasing) simp_all
    finally show ?thesis by simp
  qed
  ultimately show "is_valid_amount v \<and> b = encode_amount v"
    using minimal_bytes [OF b(1,3)] v by (simp add: is_valid_amount_iff encode_amount_def)
next
  assume a: "is_valid_amount v \<and> b = encode_amount v"
  then have pos: "0 < v" and lt: "v < 2 ^ 256" by (simp_all only: is_valid_amount_iff)
  have "length (biguint_to_bytes_be v) \<le> 32" using length_biguint_le [of 32 v] lt by simp
  then show "decode_positive_amount b = Ok v"
    using a pos biguint_head [of v] biguint_bytes_pos [of v]
    by (simp add: decode_positive_amount_def AMOUNT_MAX_BYTES_def encode_amount_def nat_of_be_biguint)
qed

section \<open>Proofs\<close>

definition RsmstProofStep_wf :: "RsmstProofStep \<Rightarrow> bool" where
  "RsmstProofStep_wf s \<longleftrightarrow> length (rs_hash s) = 32 \<and> is_valid_amount (rs_sum s)"

lemma u8_try_from_iff: "u8_try_from w v = Ok d \<longleftrightarrow> v = ucast d"
proof -
  have "unat (ucast d :: u64) = unat d" by (rule unat_zext) simp
  then have "(ucast d :: u64) \<le> 0xff" 
    using unat_byte_less [of d] by (simp add: word_le_nat_alt del: unat_byte_less)
  then show ?thesis
    by (auto simp: u8_try_from_def ucast_zext_eq ucast_ucast_le word_le_nat_alt split: if_splits)
qed

lemma array32_field_iff: "array32_field w d = Ok b \<longleftrightarrow> bytes_value d = Ok b \<and> length b = 32"
  by (auto simp: array32_field_def result_simps)

lemma decode_amount_encode [codec_simps]: "is_valid_amount v \<Longrightarrow> decode_positive_amount (encode_amount v) = Ok v"
  by (simp add: decode_positive_amount_iff)

interpretation rsmst_step: canonical_codec RsmstProofStep_to_cbor RsmstProofStep_from_cbor RsmstProofStep_wf
proof (unfold_locales, goal_cases)
  case (1 x)
  then show ?case by (simp add: RsmstProofStep_to_cbor_def item_array_list)
next
  case (2 d x)
  then show ?case
    by (auto simp: RsmstProofStep_from_cbor_def RsmstProofStep_wf_def result_simps array32_field_iff
        decode_positive_amount_iff)
next
  case (3 x l)
  from accepts_array [OF 3(2) [unfolded RsmstProofStep_to_cbor_def]] 3 show ?case
    by (simp add: RsmstProofStep_to_cbor_def RsmstProofStep_from_cbor_def RsmstProofStep_wf_def codec_simps
        array32_field_def u8_try_from_iff [THEN iffD2])
next
  case (4 d x)
  then obtain items where "array d (Some 3) = Ok items" "uint_value (items ! 0) = Ok (ucast (rs_depth x))"
    "bytes_value (items ! 1) = Ok (rs_hash x)" "bytes_value (items ! 2) = Ok (encode_amount (rs_sum x))"
    by (auto simp: RsmstProofStep_from_cbor_def result_simps array32_field_iff u8_try_from_iff
        decode_positive_amount_iff)
  then show ?case
    by (simp add: RsmstProofStep_to_cbor_def array_fields map_of_length decode_simps)
qed

text \<open>The depths of a decoded proof decrease strictly.\<close>

lemma decode_steps_iff:
  "decode_steps ds prev = Ok steps \<longleftrightarrow> rmap RsmstProofStep_from_cbor ds = Ok steps \<and>
     sorted_wrt (>) (map rs_depth steps) \<and> (\<forall>p s ss. prev = Some p \<longrightarrow> steps = s # ss \<longrightarrow> rs_depth s < p)"
proof (induction ds prev arbitrary: steps rule: decode_steps.induct)
  case (2 d rest prev)
  have chain: "sorted_wrt (>) (map rs_depth (s # ss)) \<longleftrightarrow>
      sorted_wrt (>) (map rs_depth ss) \<and> (\<forall>t ts. ss = t # ts \<longrightarrow> rs_depth t < rs_depth s)" for s ss
    by (cases ss) (auto intro: order.strict_trans)
  show ?case
  proof (cases "RsmstProofStep_from_cbor d")
    case (Inr s)
    have guard: "\<not> is_some_and prev (\<lambda>previous. rs_depth s \<ge> previous) \<longleftrightarrow> (\<forall>p. prev = Some p \<longrightarrow> rs_depth s < p)"
      by (cases prev) (auto simp: is_some_and_iff)
    show ?thesis
    proof (cases "\<forall>p. prev = Some p \<longrightarrow> rs_depth s < p")
      case True
      have "decode_steps (d # rest) prev = Ok steps \<longleftrightarrow>
          (\<exists>ss. steps = s # ss \<and> decode_steps rest (Some (rs_depth s)) = Ok ss)"
        using Inr guard True by (auto simp: rbind_Inr_iff)
      also have "\<dots> \<longleftrightarrow> (\<exists>ss. steps = s # ss \<and> rmap RsmstProofStep_from_cbor rest = Ok ss \<and>
          sorted_wrt (>) (map rs_depth (s # ss)))"
        using 2 [OF Inr] guard True unfolding chain by auto
      also have "\<dots> \<longleftrightarrow> rmap RsmstProofStep_from_cbor (d # rest) = Ok steps \<and> sorted_wrt (>) (map rs_depth steps)"
        using Inr by (auto simp: rbind_Inr_iff simp del: sorted_wrt.simps list.map)
      finally show ?thesis using True Inr by (auto simp: rbind_Inr_iff)
    next
      case False
      then show ?thesis using Inr guard by (auto simp: rbind_Inr_iff)
    qed
  qed simp
qed auto

definition RsmstInclusionProof_wf :: "RsmstInclusionProof \<Rightarrow> bool" where
  "RsmstInclusionProof_wf p \<longleftrightarrow> list_all RsmstProofStep_wf (rp_steps p) \<and>
     length (rp_steps p) \<le> MAX_PROOF_STEPS \<and> sorted_wrt (>) (map rs_depth (rp_steps p))"

lemma RsmstInclusionProof_from_cbor_iff:
  "RsmstInclusionProof_from_cbor d = Ok p \<longleftrightarrow> (\<exists>ds. array d None = Ok ds \<and> length ds \<le> MAX_PROOF_STEPS \<and>
     rmap RsmstProofStep_from_cbor ds = Ok (rp_steps p) \<and> sorted_wrt (>) (map rs_depth (rp_steps p)))"
  by (cases p) (auto simp: RsmstInclusionProof_from_cbor_def result_simps decode_steps_iff split: if_splits)

interpretation rsmst_proof: canonical_codec RsmstInclusionProof_to_cbor RsmstInclusionProof_from_cbor RsmstInclusionProof_wf
proof (unfold_locales, goal_cases)
  case (1 x)
  then show ?case
    by (simp add: RsmstInclusionProof_to_cbor_def RsmstInclusionProof_wf_def rsmst_step.list_item)
next
  case (2 d x)
  then obtain ds where "length ds \<le> MAX_PROOF_STEPS" "sorted_wrt (>) (map rs_depth (rp_steps x))"
    and ds: "list_all2 (\<lambda>d s. RsmstProofStep_from_cbor d = Ok s) ds (rp_steps x)"
    by (auto simp: RsmstInclusionProof_from_cbor_iff rmap_Inr_iff)
  moreover have "list_all RsmstProofStep_wf (rp_steps x)"
    using ds rsmst_step.decode_valid by (metis (mono_tags, lifting) list_all2_conv_all_nth list_all_length)
  ultimately show ?case by (auto simp: RsmstInclusionProof_wf_def dest: list_all2_lengthD)
next
  case (3 x l)
  have steps: "list_all RsmstProofStep_wf (rp_steps x)" using 3(1) by (simp add: RsmstInclusionProof_wf_def)
  from rsmst_step.list_decode_encode [OF steps 3(2) [unfolded RsmstInclusionProof_to_cbor_def]]
  obtain ds where "array (with_limits (RsmstInclusionProof_to_cbor x) l) None = Ok ds"
    "rmap RsmstProofStep_from_cbor ds = Ok (rp_steps x)"
    by (auto simp: result_simps RsmstInclusionProof_to_cbor_def)
  then show ?case
    using 3(1) by (auto simp: RsmstInclusionProof_from_cbor_iff RsmstInclusionProof_wf_def rmap_Inr_iff
        dest: list_all2_lengthD)
next
  case (4 d x)
  then show ?case
    using rsmst_step.list_encode_decode
    by (auto simp: RsmstInclusionProof_from_cbor_iff RsmstInclusionProof_to_cbor_def)
qed

end
