(* ===== verification/Payment_Codec.thy ===== *)
theory Payment_Codec
  imports Payment Rsmst_Wire Token_Wire
begin

text \<open>
  Wire forms of payments. Asset collections, manifests and justifications that are well-formed are read
  back; asset collections and manifests have one encoding only; \<open>create\<close> yields the unique canonical
  collection of the given assets.
\<close>

section \<open>Asset collections\<close>

lemma asset_cmp_bytes: "asset_cmp = cmp_bytes"
  by (simp add: fun_eq_iff asset_cmp_def Let_def cmp_take_then_length)

definition Asset_wf :: "Asset \<Rightarrow> bool" where
  "Asset_wf a \<longleftrightarrow> aid_bytes (as_id a) \<noteq> [] \<and> length (aid_bytes (as_id a)) \<le> MAX_ASSET_ID_BYTES \<and>
     is_valid_amount (as_value a)"

abbreviation asset_less :: "Asset \<Rightarrow> Asset \<Rightarrow> bool" where
  "asset_less a b \<equiv> cmp_bytes (aid_bytes (as_id a)) (aid_bytes (as_id b)) = Less"

definition PaymentAssetCollection_wf :: "PaymentAssetCollection \<Rightarrow> bool" where
  "PaymentAssetCollection_wf c \<longleftrightarrow> pc_assets c \<noteq> [] \<and> length (pc_assets c) \<le> MAX_PAYMENT_ASSETS \<and>
     list_all Asset_wf (pc_assets c) \<and> sorted_wrt asset_less (pc_assets c)"

lemma AssetId_from_cbor_iff:
  "AssetId_from_cbor d = Ok i \<longleftrightarrow>
     bytes_value d = Ok (aid_bytes i) \<and> aid_bytes i \<noteq> [] \<and> length (aid_bytes i) \<le> MAX_ASSET_ID_BYTES"
  by (cases i) (auto simp: AssetId_from_cbor_def result_simps split: if_splits)

interpretation asset: canonical_codec Asset_to_cbor Asset_from_cbor Asset_wf
proof (unfold_locales, goal_cases)
  case (1 x)
  then show ?case by (simp add: Asset_to_cbor_def AssetId_to_cbor_def item_array_list)
next
  case (2 d x)
  then show ?case
    by (auto simp: Asset_from_cbor_def Asset_wf_def result_simps AssetId_from_cbor_iff decode_positive_amount_iff)
next
  case (3 x l)
  from pair_array [OF 3(2) [unfolded Asset_to_cbor_def AssetId_to_cbor_def]]
  have fields: "array (with_limits (Asset_to_cbor x) l) (Some 2) =
      Ok [with_limits (encode_byte_string (aid_bytes (as_id x))) l,
          with_limits (encode_byte_string (encode_amount (as_value x))) l]"
    "bytes_value (with_limits (encode_byte_string (aid_bytes (as_id x))) l) = Ok (aid_bytes (as_id x))"
    "bytes_value (with_limits (encode_byte_string (encode_amount (as_value x))) l) = Ok (encode_amount (as_value x))"
    by (simp_all add: Asset_to_cbor_def AssetId_to_cbor_def codec_simps)
  have "AssetId_from_cbor (with_limits (encode_byte_string (aid_bytes (as_id x))) l) = Ok (as_id x)"
    using 3(1) fields(2) by (simp add: AssetId_from_cbor_iff Asset_wf_def)
  then show ?case using 3(1) fields
    by (simp add: Asset_from_cbor_def Asset_wf_def decode_amount_encode)
next
  case (4 d x)
  then obtain items where "array d (Some 2) = Ok items" "bytes_value (items ! 0) = Ok (aid_bytes (as_id x))"
    "bytes_value (items ! 1) = Ok (encode_amount (as_value x))"
    by (auto simp: Asset_from_cbor_def result_simps AssetId_from_cbor_iff decode_positive_amount_iff)
  then show ?case
    by (simp add: Asset_to_cbor_def AssetId_to_cbor_def array_fields map_of_length decode_simps)
qed

lemma decode_assets_iff:
  "decode_assets ds prev = Ok as \<longleftrightarrow> rmap Asset_from_cbor ds = Ok as \<and> sorted_wrt asset_less as \<and>
     (\<forall>p a rest. prev = Some p \<longrightarrow> as = a # rest \<longrightarrow> asset_less p a)"
proof (induction ds prev arbitrary: as rule: decode_assets.induct)
  case (2 d rest prev)
  have chain: "sorted_wrt asset_less (a # as) \<longleftrightarrow>
      sorted_wrt asset_less as \<and> (\<forall>b bs. as = b # bs \<longrightarrow> asset_less a b)" for a as
    by (cases as) (auto intro: byte_order.cmp_trans)
  show ?case
  proof (cases "Asset_from_cbor d")
    case (Inr a)
    show ?thesis
    proof (cases "\<forall>p. prev = Some p \<longrightarrow> asset_less p a")
      case True
      then have "decode_assets (d # rest) prev = Ok as \<longleftrightarrow>
          (\<exists>bs. as = a # bs \<and> decode_assets rest (Some a) = Ok bs)"
        using Inr by (cases prev) (auto simp: rbind_Inr_iff asset_cmp_bytes)
      also have "\<dots> \<longleftrightarrow> (\<exists>bs. as = a # bs \<and> rmap Asset_from_cbor rest = Ok bs \<and> sorted_wrt asset_less (a # bs))"
      proof -
        have guard: "(case prev of None \<Rightarrow> Ok () | Some p \<Rightarrow>
            (case asset_cmp (aid_bytes (as_id p)) (aid_bytes (as_id a)) of Less \<Rightarrow> Ok ()
              | Equal \<Rightarrow> Err (UnexpectedValue ''duplicate asset id'') | Greater \<Rightarrow> Err (Cbor NonCanonicalEncoding))) = Ok ()"
          using True by (cases prev) (auto simp: asset_cmp_bytes)
        show ?thesis unfolding chain 2 [OF Inr guard] by auto
      qed
      also have "\<dots> \<longleftrightarrow> rmap Asset_from_cbor (d # rest) = Ok as \<and> sorted_wrt asset_less as"
        using Inr by (auto simp: rbind_Inr_iff simp del: sorted_wrt.simps)
      finally show ?thesis using True Inr by (auto simp: rbind_Inr_iff)
    next
      case False
      then show ?thesis using Inr
        by (cases prev) (auto simp: rbind_Inr_iff asset_cmp_bytes split: ordering.splits)
    qed
  qed simp
qed auto

lemma PaymentAssetCollection_from_cbor_iff:
  "PaymentAssetCollection_from_cbor d = Ok c \<longleftrightarrow> (\<exists>ds. array d None = Ok ds \<and> ds \<noteq> [] \<and>
     length ds \<le> MAX_PAYMENT_ASSETS \<and> rmap Asset_from_cbor ds = Ok (pc_assets c) \<and>
     sorted_wrt asset_less (pc_assets c))"
  by (cases c) (auto simp: PaymentAssetCollection_from_cbor_def result_simps decode_assets_iff split: if_splits)

lemma rmap_valid:
  assumes "rmap f ds = Ok xs" "\<And>d x. f d = Ok x \<Longrightarrow> P x"
  shows "list_all P xs" "length xs = length ds"
  using assms by (auto simp: rmap_Inr_iff list_all2_conv_all_nth list_all_length)

interpretation payment: canonical_codec PaymentAssetCollection_to_cbor PaymentAssetCollection_from_cbor PaymentAssetCollection_wf
proof (unfold_locales, goal_cases)
  case (1 x)
  then show ?case by (simp add: PaymentAssetCollection_to_cbor_def PaymentAssetCollection_wf_def asset.list_item)
next
  case (2 d x)
  then obtain ds where ds: "ds \<noteq> []" "length ds \<le> MAX_PAYMENT_ASSETS" "rmap Asset_from_cbor ds = Ok (pc_assets x)"
      "sorted_wrt asset_less (pc_assets x)"
    by (auto simp: PaymentAssetCollection_from_cbor_iff)
  from rmap_valid [OF ds(3) asset.decode_valid] ds show ?case
    by (auto simp: PaymentAssetCollection_wf_def)
next
  case (3 x l)
  have wf: "list_all Asset_wf (pc_assets x)" using 3(1) by (simp add: PaymentAssetCollection_wf_def)
  from asset.list_decode_encode [OF wf 3(2) [unfolded PaymentAssetCollection_to_cbor_def]]
  obtain ds where ds: "array (with_limits (PaymentAssetCollection_to_cbor x) l) None = Ok ds"
    "rmap Asset_from_cbor ds = Ok (pc_assets x)"
    by (auto simp: result_simps PaymentAssetCollection_to_cbor_def)
  then show ?case
    using 3(1) rmap_valid(2) [OF ds(2)] by (auto simp: PaymentAssetCollection_from_cbor_iff PaymentAssetCollection_wf_def)
next
  case (4 d x)
  then show ?case
    using asset.list_encode_decode
    by (auto simp: PaymentAssetCollection_from_cbor_iff PaymentAssetCollection_to_cbor_def)
qed

text \<open>The bytes form: what is accepted is exactly the canonical encoding of a well-formed collection.\<close>

theorem payment_bytes_iff:
  "PaymentAssetCollection_from_cbor_bytes b = Ok c \<longleftrightarrow>
     PaymentAssetCollection_wf c \<and> b = PaymentAssetCollection_to_cbor c \<and> accepts DEFAULT_limits b"
proof -
  let ?d = "with_limits b DEFAULT_limits"
  have "PaymentAssetCollection_from_cbor_bytes b = Ok c \<longleftrightarrow>
      accepts DEFAULT_limits b \<and> PaymentAssetCollection_from_cbor ?d = Ok c"
    by (auto simp: PaymentAssetCollection_from_cbor_bytes_def result_simps accepts_def Let_def DEFAULT_limits_def)
  moreover have "PaymentAssetCollection_from_cbor ?d = Ok c \<longleftrightarrow>
      PaymentAssetCollection_wf c \<and> b = PaymentAssetCollection_to_cbor c" if "accepts DEFAULT_limits b"
    using that payment.decode_valid [of ?d c] payment.encode_decode [of ?d c] payment.decode_encode [of c DEFAULT_limits]
    by auto
  ultimately show ?thesis by blast
qed

lemma check_assets_iff: "check_assets as = Ok () \<longleftrightarrow> list_all Asset_wf as"
  by (induction as) (auto simp: Asset_wf_def is_valid_amount_def split: if_splits)

lemma adjacent_duplicate_sorted:
  "sorted_wrt (\<lambda>a b. cmp_bytes (aid_bytes (as_id a)) (aid_bytes (as_id b)) \<noteq> Greater) as \<Longrightarrow>
   \<not> adjacent_duplicate as \<longleftrightarrow> sorted_wrt asset_less as"
proof (induction as rule: adjacent_duplicate.induct)
  case (1 a b rest)
  have ids: "as_id a = as_id b \<longleftrightarrow> aid_bytes (as_id a) = aid_bytes (as_id b)" by (cases "as_id a"; cases "as_id b") simp
  have less: "asset_less a b \<longleftrightarrow> as_id a \<noteq> as_id b"
    using 1(2) ids byte_order.not_Greater_iff byte_order.Less_neq by auto
  show ?case using 1 less by (auto intro: byte_order.cmp_trans)
qed auto

theorem payment_create_iff:
  "PaymentAssetCollection_create as = Ok c \<longleftrightarrow> PaymentAssetCollection_wf c \<and> mset (pc_assets c) = mset as"
proof -
  let ?out = "sort_by (\<lambda>a b. cmp_bytes (aid_bytes (as_id a)) (aid_bytes (as_id b))) as"
  have sorted: "sorted_wrt (\<lambda>a b. cmp_bytes (aid_bytes (as_id a)) (aid_bytes (as_id b)) \<noteq> Greater) ?out"
    using byte_order.sorted_sort_by [of "\<lambda>a. aid_bytes (as_id a)" as] by simp
  have create: "PaymentAssetCollection_create as = Ok c \<longleftrightarrow> as \<noteq> [] \<and> length as \<le> MAX_PAYMENT_ASSETS \<and>
      list_all Asset_wf as \<and> sorted_wrt asset_less ?out \<and> pc_assets c = ?out"
    using adjacent_duplicate_sorted [OF sorted]
    by (cases c) (auto simp: PaymentAssetCollection_create_def Let_def asset_cmp_bytes result_simps check_assets_iff)
  have unique: "pc_assets c = ?out" if "sorted_wrt asset_less (pc_assets c)" "mset (pc_assets c) = mset as"
  proof -
    have le: "sorted_wrt (\<lambda>a b. cmp_bytes (aid_bytes (as_id a)) (aid_bytes (as_id b)) \<noteq> Greater) (pc_assets c)"
      using that(1) by (rule sorted_wrt_mono_rel [rotated]) auto
    have "distinct (map (\<lambda>a. aid_bytes (as_id a)) (pc_assets c))"
      using that(1) by (rule byte_order.sorted_Less_distinct)
    moreover have "mset (map (\<lambda>a. aid_bytes (as_id a)) (pc_assets c)) = mset (map (\<lambda>a. aid_bytes (as_id a)) ?out)"
      using that(2) byte_order.mset_sort_by by (metis mset_map)
    ultimately have "distinct (map (\<lambda>a. aid_bytes (as_id a)) ?out)" by (metis mset_eq_imp_distinct_iff)
    then have "sorted_wrt asset_less ?out"
      using byte_order.sorted_le_distinct_Less [of "\<lambda>a. aid_bytes (as_id a)" ?out] sorted by simp
    moreover have "set (pc_assets c) = set ?out" using that(2) by (metis byte_order.set_sort_by mset_eq_setD)
    ultimately show ?thesis
      using byte_order.sorted_Less_unique [of "\<lambda>a. aid_bytes (as_id a)" "pc_assets c" ?out] that(1) by simp
  qed
  have same: "list_all Asset_wf xs = list_all Asset_wf as" "length xs = length as" "xs = [] \<longleftrightarrow> as = []"
    if "mset xs = mset as" for xs
    using mset_eq_setD [OF that] mset_eq_length [OF that] by (auto simp: list_all_iff)
  show ?thesis
    unfolding create PaymentAssetCollection_wf_def using unique same [of ?out] same [of "pc_assets c"] byte_order.mset_sort_by
    by metis
qed

section \<open>Manifests\<close>

definition SplitManifest_wf :: "SplitManifest \<Rightarrow> bool" where
  "SplitManifest_wf m \<longleftrightarrow> sm_roots m \<noteq> [] \<and> length (sm_roots m) \<le> MAX_PAYMENT_ASSETS \<and>
     (\<forall>r\<in>set (sm_roots m). length r = 32)"

lemma manifest_create_iff:
  "SplitManifest_create roots = Ok m \<longleftrightarrow> sm_roots m = roots \<and> roots \<noteq> [] \<and> length roots \<le> MAX_PAYMENT_ASSETS"
  by (cases m) (auto simp: SplitManifest_create_def)

theorem manifest_bytes_iff:
  assumes lim: "max_input_bytes l < 2 ^ 64"
  shows "SplitManifest_from_cbor_bytes b l = Ok m \<longleftrightarrow>
     SplitManifest_wf m \<and> b = SplitManifest_to_cbor m \<and> accepts l b"
proof
  assume "SplitManifest_from_cbor_bytes b l = Ok m"
  then obtain inner ds where acc: "accepts l b" and tag: "expect_tag (with_limits b l) SPLIT_MANIFEST_TAG = Ok inner"
    and arr: "array inner None = Ok ds" "ds \<noteq> []" "length ds \<le> MAX_PAYMENT_ASSETS"
    and rs: "rmap (array32_field ''split manifest root'') ds = Ok (sm_roots m)"
    using lim by (cases m) (auto simp: SplitManifest_from_cbor_bytes_def result_simps accepts_def Let_def split: if_splits)
  have "map dec_bytes ds = map encode_byte_string (sm_roots m)"
    by (rule rmap_read [OF rs]) (simp add: array32_field_iff decode_simps)
  then have "b = SplitManifest_to_cbor m"
    using expect_tag_read [OF tag] array_read [OF arr(1)] by (simp add: SplitManifest_to_cbor_def)
  moreover have "list_all (\<lambda>r. length r = 32) (sm_roots m)" "length (sm_roots m) = length ds"
    by (rule rmap_valid [OF rs, of "\<lambda>r. length r = 32"], simp add: array32_field_iff)+
  ultimately show "SplitManifest_wf m \<and> b = SplitManifest_to_cbor m \<and> accepts l b"
    using acc arr(2,3) by (auto simp: SplitManifest_wf_def list_all_iff)
next
  assume r: "SplitManifest_wf m \<and> b = SplitManifest_to_cbor m \<and> accepts l b"
  let ?bs = "map encode_byte_string (sm_roots m)"
  have items: "list_all item ?bs" by (auto simp: list_all_iff)
  have acc: "accepts l (encode_tag SPLIT_MANIFEST_TAG (encode_array ?bs))"
    using r unfolding SplitManifest_to_cbor_def by blast
  note fields = tagged_array [OF acc items]
  have "array (with_limits (encode_array ?bs) l) None = Ok (map (\<lambda>b. with_limits b l) ?bs)"
    by (rule array_complete [OF fields(2)]) (use items in \<open>auto simp: list_all_iff\<close>)
  moreover have "rmap (array32_field ''split manifest root'')
      (map (\<lambda>r. with_limits (encode_byte_string r) l) (sm_roots m)) = Ok (map (\<lambda>r. r) (sm_roots m))"
  proof (rule rmap_map_Inr)
    fix x assume "x \<in> set (sm_roots m)"
    then show "array32_field ''split manifest root'' (with_limits (encode_byte_string x) l) = Ok x"
      using r fields(3) by (auto simp: array32_field_iff SplitManifest_wf_def list_all_iff codec_simps)
  qed
  ultimately show "SplitManifest_from_cbor_bytes b l = Ok m"
    using r fields(1) accepts_finish [OF acc]
    by (simp add: SplitManifest_from_cbor_bytes_def SplitManifest_to_cbor_def SplitManifest_wf_def comp_def Let_def)
qed

section \<open>Justifications\<close>

text \<open>The decoder without interner, and its agreement with the one that interns certificates.\<close>

definition justification_from_cbor :: "sha2 \<Rightarrow> 'p k256 \<Rightarrow> Decoder \<Rightarrow> Error + SplitMintJustification" where
  "justification_from_cbor sha2 ec d =
     rbind (map_err Cbor (expect_tag d SPLIT_MINT_JUSTIFICATION_TAG)) (\<lambda>inner.
     rbind (map_err Cbor (array inner (Some 2))) (\<lambda>items.
     rbind (token_from_cbor sha2 ec (with_limits (dec_bytes (items ! 0)) (dec_limits d))) (\<lambda>token.
     rbind (map_err Cbor (array (items ! 1) None)) (\<lambda>encoded_proofs.
       if length encoded_proofs > MAX_PAYMENT_ASSETS then Err (OutOfRange ''split proof count exceeds protocol limit'')
       else rbind (rmap RsmstInclusionProof_from_cbor encoded_proofs) (\<lambda>proofs.
            rbind (SplitMintJustification_create token proofs) (\<lambda>justification.
              Ok (justification\<lparr>sj_encoded_token_len := length (dec_bytes (items ! 0))\<rparr>)))))))"

theorem justification_interner_transparent:
  assumes "interner_ok l u"
  shows "agrees l (SplitMintJustification_from_cbor_interned sha2 ec b l u)
    (justification_from_cbor sha2 ec (with_limits b l))"
  unfolding SplitMintJustification_from_cbor_interned_def justification_from_cbor_def Let_def dec_limits_with_limits
  by (intro yields_bind yields_pure yields_if token_interner_transparent assms)

definition SplitMintJustification_wf :: "sha2 \<Rightarrow> 'p k256 \<Rightarrow> SplitMintJustification \<Rightarrow> bool" where
  "SplitMintJustification_wf sha2 ec j \<longleftrightarrow> Token_wf sha2 ec (sj_token j) \<and>
     sj_proofs j \<noteq> [] \<and> length (sj_proofs j) \<le> MAX_PAYMENT_ASSETS \<and>
     list_all RsmstInclusionProof_wf (sj_proofs j) \<and> sj_encoded_token_len j = length (Token_to_cbor (sj_token j))"

lemma token_item: "Token_wf sha2 ec token \<Longrightarrow> item (Token_to_cbor token)"
  unfolding Token_to_cbor_def
  by (intro item_encode_tag item_array_list)
    (auto simp: Token_wf_def intro: certified_mint.encodes_item item_array_list linked_items)

theorem justification_decode_encode:
  assumes wf: "SplitMintJustification_wf sha2 ec j" and acc: "accepts l (SplitMintJustification_to_cbor j)"
  shows "justification_from_cbor sha2 ec (with_limits (SplitMintJustification_to_cbor j) l) = Ok j"
proof -
  let ?ps = "encode_array (map RsmstInclusionProof_to_cbor (sj_proofs j))"
  have ps: "list_all RsmstInclusionProof_wf (sj_proofs j)" and tok: "Token_wf sha2 ec (sj_token j)"
    using wf by (simp_all add: SplitMintJustification_wf_def)
  have items: "list_all item [Token_to_cbor (sj_token j), ?ps]"
    using token_item [OF tok] rsmst_proof.list_item [OF ps] by simp
  note fields = tagged_array [OF acc [unfolded SplitMintJustification_to_cbor_def] items]
  have accs: "accepts l (Token_to_cbor (sj_token j))" "accepts l ?ps" using fields(3) by simp_all
  obtain ds where ds: "array (with_limits ?ps l) None = Ok ds" "rmap RsmstInclusionProof_from_cbor ds = Ok (sj_proofs j)"
    using rsmst_proof.list_decode_encode [OF ps accs(2)] by (auto simp: result_simps)
  have "length ds \<le> MAX_PAYMENT_ASSETS"
    using rmap_valid(2) [OF ds(2), of "\<lambda>_. True"] wf by (simp add: SplitMintJustification_wf_def)
  then show ?thesis
    using fields(1) pair_array(1) [OF fields(2)] items ds token_decode_encode [OF tok accs(1)] wf
    by (simp add: justification_from_cbor_def SplitMintJustification_to_cbor_def SplitMintJustification_create_def
        SplitMintJustification_wf_def)
qed

section \<open>Commitments\<close>

text \<open>The preimage of an output commitment determines every field of the output it commits to.\<close>

theorem split_output_preimage_inj:
  assumes "split_output_preimage s n r sa i ty aux = split_output_preimage s' n' r' sa' i' ty' aux'"
    and "length (split_output_preimage s n r sa i ty aux) < 2 ^ 64"
  shows "s = s' \<and> n = n' \<and> r = r' \<and> sa = sa' \<and> i = i' \<and> ty = ty' \<and> aux = aux'"
proof -
  let ?f = "\<lambda>s n r sa i ty aux. [encode_byte_string SPLIT_OUTPUT, encode_byte_string (tid_bytes s),
       encode_uint (ucast (net_id n)), encode_byte_string (EncodedPredicate_to_cbor r),
       encode_byte_string (salt_bytes sa), encode_byte_string (tid_bytes i),
       encode_byte_string (tt_bytes ty), encode_byte_string aux]"
  have "?f s n r sa i ty aux = ?f s' n' r' sa' i' ty' aux'"
    by (rule encode_array_inj) (use assms in \<open>auto simp: split_output_preimage_def\<close>)
  then have eq: "tid_bytes s = tid_bytes s'" "(ucast (net_id n) :: u64) = ucast (net_id n')"
    "EncodedPredicate_to_cbor r = EncodedPredicate_to_cbor r'"
    "salt_bytes sa = salt_bytes sa'" "tid_bytes i = tid_bytes i'" "tt_bytes ty = tt_bytes ty'" "aux = aux'"
    by (auto dest: encode_byte_string_inj encode_uint_inj)
  have "net_id n = net_id n'" using eq(2) u16_try_from_ucast by (metis Inr_inject)
  moreover have "r = r'"
  proof -
    have "length (EncodedPredicate_to_cbor r) \<le> length (split_output_preimage s n r sa i ty aux)"
      by (simp add: split_output_preimage_def encode_array_def encode_byte_string_def push_head_Nil)
    then show ?thesis using predicate.to_cbor_inj [of r r'] eq(3) assms(2) by simp
  qed
  ultimately show ?thesis using eq
    by (cases s; cases s'; cases n; cases n'; cases sa; cases sa'; cases i; cases i'; cases ty; cases ty') simp
qed

end
