(* ===== verification/Rsmst_Build.thy ===== *)
theory Rsmst_Build
  imports Rsmst_Spec
begin

text \<open>
  The sum-tree builder: when it succeeds, the shape of what it builds, and that the proofs it hands out
  verify against the root with the sum of all inserted amounts.
\<close>

section \<open>Trees\<close>

primrec node_leaves :: "Node \<Rightarrow> Leaf list" where
  "node_leaves (LeafNode l) = [l]"
| "node_leaves (Branch d l r h t) = node_leaves l @ node_leaves r"

text \<open>Below a branch the left keys have the branch bit clear and the right keys set, branch bits grow
  downwards from \<open>s\<close>, and the stored hash and sum are those of the children.\<close>

primrec tree_ok :: "sha2 \<Rightarrow> nat \<Rightarrow> Node \<Rightarrow> bool" where
  "tree_ok sha2 s (LeafNode l) \<longleftrightarrow> is_valid_amount (lf_value l)"
| "tree_ok sha2 s (Branch d l r h t) \<longleftrightarrow> s \<le> unat d \<and>
     tree_ok sha2 (unat d + 1) l \<and> tree_ok sha2 (unat d + 1) r \<and>
     node_hash sha2 d (Node_hash l, Node_sum l) (Node_hash r, Node_sum r) = Some (h, t) \<and>
     (\<forall>x\<in>set (node_leaves l). \<not> key_bit (lf_key x) d) \<and> (\<forall>x\<in>set (node_leaves r). key_bit (lf_key x) d)"

lemma tree_ok_valid_sum: "tree_ok sha2 s n \<Longrightarrow> is_valid_amount (Node_sum n)"
  by (induction n arbitrary: s) (auto simp: is_valid_amount_iff node_hash_iff)

lemma tree_ok_sum: "tree_ok sha2 s n \<Longrightarrow> Node_sum n = sum_list (map lf_value (node_leaves n))"
  by (induction n arbitrary: s) (auto simp: node_hash_iff)

lemma tree_ok_sum_of:
  assumes "tree_ok sha2 s n" "mset (node_leaves n) = mset ls"
  shows "Node_sum n = sum_list (map lf_value ls)"
proof -
  have "mset (map lf_value (node_leaves n)) = mset (map lf_value ls)" using assms(2) by simp
  then show ?thesis unfolding tree_ok_sum [OF assms(1)] by (metis sum_mset_sum_list)
qed

lemma fold_steps_up_Cons:
  assumes "key_bit key (rs_depth st) = b" "unat (rs_depth st) < d" "is_valid_amount (rs_sum st)"
    and "(if b then node_hash sha2 (rs_depth st) (rs_hash st, rs_sum st) n
          else node_hash sha2 (rs_depth st) n (rs_hash st, rs_sum st)) = Some m"
  shows "fold_steps_up sha2 key (st # rest) n d = fold_steps_up sha2 key rest m (unat (rs_depth st))"
  using assms by (cases b) simp_all

text \<open>The path recorded on the way down to a leaf folds back up to the node it started from.\<close>

definition path_folds :: "sha2 \<Rightarrow> Leaf \<Rightarrow> nat \<Rightarrow> Node \<Rightarrow> bool" where
  "path_folds sha2 x s n \<longleftrightarrow> (\<exists>steps d. s \<le> d \<and> d \<le> 256 \<and> length steps \<le> 256 - s \<and>
    (\<forall>acc. proof_loop n (lf_key x) acc = Some \<lparr>rp_steps = rev steps @ rev acc\<rparr>) \<and>
    (\<forall>rest. fold_steps_up sha2 (lf_key x) (rev steps @ rest) (lf_hash x, lf_value x) 256 =
       fold_steps_up sha2 (lf_key x) rest (Node_hash n, Node_sum n) d))"

lemma proof_loop_folds:
  assumes "tree_ok sha2 s n" "x \<in> set (node_leaves n)" "s \<le> 256"
  shows "path_folds sha2 x s n"
  using assms
proof (induction n arbitrary: s)
  case (LeafNode l)
  then show ?case by (auto simp: path_folds_def intro!: exI [of _ "[]"] exI [of _ 256])
next
  case (Branch dp l r h t)
  let ?bit = "key_bit (lf_key x) dp"
  let ?sub = "if ?bit then r else l" and ?sib = "if ?bit then l else r"
  let ?step = "\<lparr>rs_depth = dp, rs_hash = Node_hash ?sib, rs_sum = Node_sum ?sib\<rparr>"
  have small: "unat dp + 1 \<le> 256" using unat_byte_less [of dp] by linarith
  have "path_folds sha2 x (unat dp + 1) ?sub"
    using Branch.IH [OF _ _ small] Branch.prems(1,2) by (cases ?bit) auto
  then obtain steps d where IH: "unat dp + 1 \<le> d" "d \<le> 256" "length steps \<le> 256 - (unat dp + 1)"
      "\<And>acc. proof_loop ?sub (lf_key x) acc = Some \<lparr>rp_steps = rev steps @ rev acc\<rparr>"
      "\<And>rest. fold_steps_up sha2 (lf_key x) (rev steps @ rest) (lf_hash x, lf_value x) 256 =
         fold_steps_up sha2 (lf_key x) rest (Node_hash ?sub, Node_sum ?sub) d"
    unfolding path_folds_def by blast
  have up: "fold_steps_up sha2 (lf_key x) (?step # rest) (Node_hash ?sub, Node_sum ?sub) d =
      fold_steps_up sha2 (lf_key x) rest (h, t) (unat dp)" for rest
    using IH(1) Branch.prems(1) tree_ok_valid_sum
    by (subst fold_steps_up_Cons [where b = ?bit and m = "(h, t)"]) auto
  show ?case unfolding path_folds_def
  proof (intro exI conjI allI)
    show "s \<le> unat dp" "unat dp \<le> 256" using Branch.prems(1) small by auto
    show "length (?step # steps) \<le> 256 - s" using IH(3) \<open>s \<le> unat dp\<close> small by simp
    show "proof_loop (Branch dp l r h t) (lf_key x) acc = Some \<lparr>rp_steps = rev (?step # steps) @ rev acc\<rparr>" for acc
      using IH(4) by (cases ?bit) simp_all
    show "fold_steps_up sha2 (lf_key x) (rev (?step # steps) @ rest) (lf_hash x, lf_value x) 256 =
        fold_steps_up sha2 (lf_key x) rest (Node_hash (Branch dp l r h t), Node_sum (Branch dp l r h t)) (unat dp)" for rest
      using IH(5) up by simp
  qed
qed

section \<open>Building\<close>

abbreviation leaf_bit :: "Leaf \<Rightarrow> nat \<Rightarrow> bool" where
  "leaf_bit l i \<equiv> key_bit (lf_key l) (word_of_nat i)"

lemma bifurcation_rec:
  assumes "bifurcation ls s \<noteq> Some s" "s \<le> 255"
  shows "bifurcation ls s = bifurcation ls (s + 1)" "\<And>l. l \<in> set ls \<Longrightarrow> leaf_bit l s = leaf_bit (ls ! 0) s"
  using assms by (auto simp: bifurcation.simps [of ls s] list_ex_iff split: if_splits)

lemma bifurcation_differs:
  "bifurcation ls s = Some d \<Longrightarrow> \<exists>l\<in>set ls. leaf_bit l d \<noteq> leaf_bit (ls ! 0) d"
proof (induction ls s rule: bifurcation.induct)
  case (1 ls s)
  show ?case
    using 1(1) 1(2) unfolding bifurcation.simps [of ls s] by (fastforce simp: list_ex_iff split: if_splits)
qed

lemma bifurcation_agree:
  "s \<le> i \<Longrightarrow> i \<le> 255 \<Longrightarrow> (\<And>j. s \<le> j \<Longrightarrow> j \<le> i \<Longrightarrow> bifurcation ls s \<noteq> Some j) \<Longrightarrow> l \<in> set ls \<Longrightarrow>
     leaf_bit l i = leaf_bit (ls ! 0) i"
proof (induction "i - s" arbitrary: s)
  case 0
  then show ?case using bifurcation_rec(2) [of ls s l] by simp
next
  case (Suc n)
  have "bifurcation ls s = bifurcation ls (s + 1)" using Suc.prems Suc.hyps(2) by (intro bifurcation_rec(1)) auto
  then have "bifurcation ls (s + 1) \<noteq> Some j" if "s + 1 \<le> j" "j \<le> i" for j
    using Suc.prems(3) [of j] that by simp
  then show ?case using Suc.hyps(2) Suc.prems(2,4) by (intro Suc.hyps(1) [of "s + 1"]) simp_all
qed

lemma key_bits_eq:
  assumes "length k = 32" "length k' = 32" "\<And>i. i < 256 \<Longrightarrow> key_bit k (word_of_nat i) = key_bit k' (word_of_nat i)"
  shows "k = k'"
proof (rule bit_at_ext [OF assms(1,2)])
  fix i :: nat assume "i < 8 * 32"
  then show "bit_at k i = bit_at k' i"
    using assms(3) [of i] by (simp add: key_bit_def unat_of_nat take_bit_nat_eq_self)
qed

text \<open>What the builder is called with: valid leaves with distinct 32-byte keys that agree below \<open>s\<close>.\<close>

definition leaves_ok :: "nat \<Rightarrow> Leaf list \<Rightarrow> bool" where
  "leaves_ok s ls \<longleftrightarrow> ls \<noteq> [] \<and> distinct (map lf_key ls) \<and>
     (\<forall>l\<in>set ls. length (lf_key l) = 32 \<and> is_valid_amount (lf_value l)) \<and>
     (\<forall>l\<in>set ls. \<forall>i < s. key_bit (lf_key l) (word_of_nat i) = key_bit (lf_key (ls ! 0)) (word_of_nat i))"

lemma leaves_ok_agree:
  "leaves_ok s ls \<Longrightarrow> l \<in> set ls \<Longrightarrow> l' \<in> set ls \<Longrightarrow> i < s \<Longrightarrow>
     key_bit (lf_key l) (word_of_nat i) = key_bit (lf_key l') (word_of_nat i)"
  unfolding leaves_ok_def by metis

lemma leaves_ok_bifurcates:
  assumes ok: "leaves_ok s ls" and two: "length ls \<noteq> 1"
  shows "\<exists>d. bifurcation ls s = Some d"
proof (rule ccontr)
  assume "\<nexists>d. bifurcation ls s = Some d"
  then have none: "bifurcation ls s = None" by simp
  have "lf_key l = lf_key (ls ! 0)" if l: "l \<in> set ls" for l
  proof (rule key_bits_eq)
    show "length (lf_key l) = 32" "length (lf_key (ls ! 0)) = 32"
      using ok l nth_mem [of 0 ls] by (simp_all add: leaves_ok_def)
    show "key_bit (lf_key l) (word_of_nat i) = key_bit (lf_key (ls ! 0)) (word_of_nat i)" if "i < 256" for i
    proof (cases "i < s")
      case True
      then show ?thesis using ok l unfolding leaves_ok_def by blast
    next
      case False
      then show ?thesis using that l none by (intro bifurcation_agree [of s]) simp_all
    qed
  qed
  then have "set (map lf_key ls) \<subseteq> {lf_key (ls ! 0)}" by auto
  then have "card (set (map lf_key ls)) \<le> card {lf_key (ls ! 0)}" by (rule card_mono [rotated]) simp
  then have "length ls \<le> 1" using ok distinct_card [of "map lf_key ls"] by (simp add: leaves_ok_def)
  then show False using ok two by (cases ls) (auto simp: leaves_ok_def)
qed

lemma leaves_ok_split:
  assumes ok: "leaves_ok s ls" and b: "bifurcation ls s = Some d"
  shows "leaves_ok (d + 1) (filter (\<lambda>l. key_bit (lf_key l) (word_of_nat d) = v) ls)"
proof -
  let ?ls = "filter (\<lambda>l. key_bit (lf_key l) (word_of_nat d) = v) ls"
  have d: "s \<le> d" "d < 256" using bifurcation_bounds [OF b] by auto
  obtain l where "l \<in> set ls" "key_bit (lf_key l) (word_of_nat d) \<noteq> key_bit (lf_key (ls ! 0)) (word_of_nat d)"
    using bifurcation_differs [OF b] by blast
  moreover have "ls ! 0 \<in> set ls" using ok by (simp add: leaves_ok_def)
  ultimately have ne: "?ls \<noteq> []" unfolding filter_empty_conv by blast
  have agree: "key_bit (lf_key x) (word_of_nat i) = key_bit (lf_key y) (word_of_nat i)"
    if xy: "x \<in> set ?ls" "y \<in> set ?ls" and i: "i < d + 1" for x y i
  proof -
    consider "i < s" | "s \<le> i" "i < d" | "i = d" using i by linarith
    then show ?thesis
    proof cases
      case 2
      have "leaf_bit z i = leaf_bit (ls ! 0) i" if "z \<in> set ls" for z
        using 2 b d that by (intro bifurcation_agree [of s]) auto
      then show ?thesis using xy by simp
    next
      case 1
      then show ?thesis using xy leaves_ok_agree [OF ok] by simp
    next
      case 3
      then show ?thesis using xy by simp
    qed
  qed
  have hd: "?ls ! 0 \<in> set ?ls" using ne by (metis length_greater_0_conv nth_mem)
  have "distinct (map lf_key ?ls)" using ok by (simp add: leaves_ok_def distinct_map_filter)
  moreover have "\<forall>l\<in>set ?ls. length (lf_key l) = 32 \<and> is_valid_amount (lf_value l)"
    using ok by (simp add: leaves_ok_def)
  ultimately show ?thesis using ne agree hd unfolding leaves_ok_def by blast
qed

text \<open>The builder returns a well-formed tree over exactly its leaves, unless the sum leaves 256 bits.\<close>

lemma build_subtree_result:
  assumes "leaves_ok s ls"
  shows "case build_subtree sha2 ls s of
      Inr n \<Rightarrow> tree_ok sha2 s n \<and> mset (node_leaves n) = mset ls
    | Inl e \<Rightarrow> e = OutOfRange ''RSMST internal sum exceeds 256 bits'' \<and> 2 ^ 256 \<le> sum_list (map lf_value ls)"
  using assms
proof (induction sha2 ls s rule: build_subtree.induct)
  case (1 sha2 ls s)
  show ?case
  proof (cases "length ls = 1")
    case True
    then obtain l where "ls = [l]" by (auto simp: length_Suc_conv)
    then show ?thesis using 1(3) by (subst build_subtree.simps) (simp add: leaves_ok_def)
  next
    case False
    obtain d where b: "bifurcation ls s = Some d" using leaves_ok_bifurcates [OF 1(3) False] by blast
    let ?d = "word_of_nat d :: u8"
    let ?l = "filter (\<lambda>l. \<not> key_bit (lf_key l) ?d) ls" and ?r = "filter (\<lambda>l. key_bit (lf_key l) ?d) ls"
    have d: "s \<le> d" "unat ?d = d" using bifurcation_bounds [OF b] by (auto simp: unat_of_nat take_bit_nat_eq_self)
    have ms: "mset ?l + mset ?r = mset ls" by (metis add.commute mset_filter multiset_partition)
    have total: "sum_list (map lf_value ls) = sum_list (map lf_value ?l) + sum_list (map lf_value ?r)"
      by (induction ls) auto
    have L: "leaves_ok (d + 1) ?l" "leaves_ok (d + 1) ?r"
      using leaves_ok_split [OF 1(3) b, of False] leaves_ok_split [OF 1(3) b, of True] by simp_all
    have unf: "build_subtree sha2 ls s =
        rbind (build_subtree sha2 ?l (d + 1)) (\<lambda>lnode. rbind (build_subtree sha2 ?r (d + 1)) (\<lambda>rnode.
        rbind (ok_or (OutOfRange ''RSMST internal sum exceeds 256 bits'')
            (node_hash sha2 ?d (Node_hash lnode, Node_sum lnode) (Node_hash rnode, Node_sum rnode)))
          (\<lambda>(hash, sum). Ok (Branch ?d lnode rnode hash sum))))"
      using False by (subst build_subtree.simps) (simp add: b Let_def)
    note IHl = 1(1) [OF False b refl refl refl refl L(1)]
    show ?thesis
    proof (cases "build_subtree sha2 ?l (d + 1)")
      case (Inl e)
      then show ?thesis using IHl total unfolding unf by simp
    next
      case ln: (Inr ln)
      note IHr = 1(2) [OF False b refl refl refl refl ln L(2)]
      show ?thesis
      proof (cases "build_subtree sha2 ?r (d + 1)")
        case (Inl e)
        then show ?thesis using IHr total ln unfolding unf by simp
      next
        case rn: (Inr rn)
        have ok: "tree_ok sha2 (d + 1) ln" "mset (node_leaves ln) = mset ?l" "tree_ok sha2 (d + 1) rn" "mset (node_leaves rn) = mset ?r"
          using IHl IHr ln rn by simp_all
        have sums: "Node_sum ln = sum_list (map lf_value ?l)" "Node_sum rn = sum_list (map lf_value ?r)"
          using ok tree_ok_sum_of by blast+
        have sets: "set (node_leaves ln) = set ?l" "set (node_leaves rn) = set ?r"
          using ok(2,4) by (metis set_mset_mset)+
        show ?thesis
        proof (cases "node_hash sha2 ?d (Node_hash ln, Node_sum ln) (Node_hash rn, Node_sum rn)")
          case None
          moreover have "\<not> Node_sum ln + Node_sum rn < 2 ^ 256"
            using None node_hash_iff [of sha2 ?d "(Node_hash ln, Node_sum ln)" "(Node_hash rn, Node_sum rn)"] by fastforce
          ultimately show ?thesis using ln rn total sums unfolding unf by (simp add: ok_or_def)
        next
          case (Some hs)
          then show ?thesis using ln rn ok sets d ms unfolding unf by (cases hs) (simp add: ok_or_def)
        qed
      qed
    qed
  qed
qed

section \<open>The tree as it is used\<close>

text \<open>The entries a tree under construction was given.\<close>

inductive inserted :: "sha2 \<Rightarrow> (bytes \<times> bytes \<times> nat) list \<Rightarrow> Rsmst \<Rightarrow> bool" for sha2 where
  inserted_new: "inserted sha2 [] Rsmst_new"
| inserted_insert: "inserted sha2 es t \<Longrightarrow> Rsmst_insert sha2 t key data v = Ok t' \<Longrightarrow> length key = 32 \<Longrightarrow>
    inserted sha2 (es @ [(key, data, v)]) t'"

definition entry_leaf :: "sha2 \<Rightarrow> bytes \<times> bytes \<times> nat \<Rightarrow> Leaf" where
  "entry_leaf sha2 = (\<lambda>(key, data, v). \<lparr>lf_key = key, lf_value = v, lf_hash = sha2 Sha256 (leaf_pre key data v)\<rparr>)"

lemma Rsmst_insert_iff:
  "Rsmst_insert sha2 t key data v = Ok t' \<longleftrightarrow>
     is_valid_amount v \<and> key \<notin> lf_key ` set (rt_leaves t) \<and>
     t' = t\<lparr>rt_leaves := rt_leaves t @ [entry_leaf sha2 (key, data, v)]\<rparr>"
proof (cases "leaf_hash sha2 key data v")
  case None
  moreover have "\<not> is_valid_amount v"
    using None leaf_hash_iff [of sha2 key data v] by (fastforce simp: is_valid_amount_iff)
  ultimately show ?thesis by (simp add: Rsmst_insert_def)
next
  case (Some h)
  then show ?thesis using leaf_hash_iff [of sha2 key data v h]
    by (auto simp: Rsmst_insert_def ok_or_def list_ex_iff entry_leaf_def)
qed

lemma inserted_leaves:
  "inserted sha2 es t \<Longrightarrow> rt_leaves t = map (entry_leaf sha2) es \<and> distinct (map fst es) \<and>
     (\<forall>(key, data, v)\<in>set es. length key = 32 \<and> is_valid_amount v)"
proof (induction rule: inserted.induct)
  case inserted_new
  then show ?case by (simp add: Rsmst_new_def)
next
  case (inserted_insert es t key data v t')
  have "lf_key ` set (map (entry_leaf sha2) es) = set (map fst es)"
    by (force simp: entry_leaf_def image_iff)
  then show ?case using inserted_insert by (auto simp: Rsmst_insert_iff)
qed

lemma inserted_leaves_ok:
  assumes "inserted sha2 es t" "es \<noteq> []"
  shows "leaves_ok 0 (rt_leaves t)"
proof -
  have "lf_key \<circ> entry_leaf sha2 = fst" by (auto simp: entry_leaf_def fun_eq_iff)
  moreover have "length (lf_key (entry_leaf sha2 e)) = 32 \<and> is_valid_amount (lf_value (entry_leaf sha2 e))"
    if "e \<in> set es" for e
    using inserted_leaves [OF assms(1)] that by (auto simp: entry_leaf_def)
  ultimately show ?thesis using inserted_leaves [OF assms(1)] assms(2) by (simp add: leaves_ok_def)
qed

lemma inserted_total:
  "inserted sha2 es t \<Longrightarrow> sum_list (map lf_value (rt_leaves t)) = sum_list (map (snd \<circ> snd) es)"
  using inserted_leaves [of sha2 es t]
  by (auto simp: entry_leaf_def comp_def case_prod_beta)

lemma build_result:
  assumes "inserted sha2 es t"
  shows "(\<exists>b. Rsmst_build sha2 t = Ok b) \<longleftrightarrow> es \<noteq> [] \<and> sum_list (map (snd \<circ> snd) es) < 2 ^ 256"
proof (cases "es = []")
  case True
  then show ?thesis using inserted_leaves [OF assms] by (simp add: Rsmst_build_def)
next
  case False
  have ne: "rt_leaves t \<noteq> []" using inserted_leaves_ok [OF assms False] by (simp add: leaves_ok_def)
  note res = build_subtree_result [OF inserted_leaves_ok [OF assms False], of sha2]
  show ?thesis
  proof (cases "build_subtree sha2 (rt_leaves t) 0")
    case (Inl e)
    then show ?thesis using res inserted_total [OF assms] ne by (simp add: Rsmst_build_def)
  next
    case (Inr n)
    then have n: "tree_ok sha2 0 n" "mset (node_leaves n) = mset (rt_leaves t)" using res by simp_all
    have "Node_sum n = sum_list (map lf_value (rt_leaves t))"
      using n by (rule tree_ok_sum_of)
    then have "sum_list (map (snd \<circ> snd) es) < 2 ^ 256"
      using tree_ok_valid_sum [OF n(1)] inserted_total [OF assms] by (simp only: is_valid_amount_iff)
    then show ?thesis using Inr ne False by (simp add: Rsmst_build_def)
  qed
qed

theorem built_proofs_verify:
  assumes ins: "inserted sha2 es t" and b: "Rsmst_build sha2 t = Ok b" and e: "(key, data, v) \<in> set es"
  shows "root_sum b = sum_list (map (snd \<circ> snd) es) \<and>
    (\<exists>p. BuiltRsmst_proof b key = Some p \<and>
       RsmstInclusionProof_verify sha2 p key data v (root_hash b) = Some (root_sum b))"
proof -
  have ne: "es \<noteq> []" using e by auto
  obtain n where n: "build_subtree sha2 (rt_leaves t) 0 = Ok n" and bn: "b = \<lparr>br_root = n\<rparr>"
    using b by (auto simp: Rsmst_build_def rbind_Inr_iff split: if_splits)
  have ok: "tree_ok sha2 0 n" and ms: "mset (node_leaves n) = mset (rt_leaves t)"
    using build_subtree_result [OF inserted_leaves_ok [OF ins ne], of sha2] n by simp_all
  have sum: "Node_sum n = sum_list (map (snd \<circ> snd) es)"
    using tree_ok_sum_of [OF ok ms] inserted_total [OF ins] by simp
  have valid: "is_valid_amount v" using inserted_leaves [OF ins] e by auto
  let ?x = "entry_leaf sha2 (key, data, v)"
  have hash: "leaf_hash sha2 key data v = Some (lf_hash ?x)"
    using valid by (simp add: leaf_hash_iff is_valid_amount_iff entry_leaf_def)
  have "?x \<in> set (rt_leaves t)" using inserted_leaves [OF ins] e by (metis image_eqI set_map)
  then have "?x \<in> set (node_leaves n)" using ms by (metis set_mset_mset)
  from proof_loop_folds [OF ok this] obtain steps d where
    "length steps \<le> 256" "proof_loop n (lf_key ?x) [] = Some \<lparr>rp_steps = rev steps\<rparr>"
    "fold_steps_up sha2 (lf_key ?x) (rev steps) (lf_hash ?x, lf_value ?x) 256 = Some (Node_hash n, Node_sum n)"
    unfolding path_folds_def by (metis append_Nil2 diff_zero fold_steps_up.simps(1) rev.simps(1) zero_le)
  then show ?thesis using hash valid sum bn
    by (simp add: BuiltRsmst_proof_def RsmstInclusionProof_verify_def root_hash_def root_sum_def entry_leaf_def
        MAX_PROOF_STEPS_def)
qed

end
