(* ===== verification/Payment_Verify.thy ===== *)
theory Payment_Verify
  imports Payment_Codec Verify_Token Rsmst_Build
begin

text \<open>
  What split verification establishes. The verifier accepts a mint exactly on the evidence
  \<open>split_evidence\<close> and a verified source; the outputs of one burn never receive more of an asset than
  the burned token had; and a payment token that verifies has a complete provenance.
\<close>

section \<open>Evidence\<close>

lemma check_allocations_iff:
  "check_allocations sha2 src roots oid com ps = Ok () \<longleftrightarrow>
     (\<forall>(a, p)\<in>set ps. \<exists>i. iter_position (\<lambda>s. as_id s = as_id a) src = Some i \<and>
        RsmstInclusionProof_verify sha2 p oid com (as_value a) (roots ! i) = Some (as_value (src ! i)))"
  by (induction ps) (auto simp: result_simps split: if_splits)

definition burned_to :: "sha2 \<Rightarrow> DecodeLimits \<Rightarrow> Token \<Rightarrow> SplitManifest \<Rightarrow> bool" where
  "burned_to sha2 l burned manifest \<longleftrightarrow> tk_transactions burned \<noteq> [] \<and>
     (\<exists>mb. tr_data (ct_transaction (last (tk_transactions burned))) = Some mb \<and>
        length mb \<le> max_input_bytes l \<and> SplitManifest_from_cbor_bytes mb l = Ok manifest) \<and>
     tr_recipient (ct_transaction (last (tk_transactions burned))) =
       BurnPredicate_to_encoded \<lparr>bp_reason = reason_hash sha2 manifest\<rparr>"

definition holds_assets :: "DecodeLimits \<Rightarrow> PaymentDataDecoder \<Rightarrow> MintTransaction \<Rightarrow> PaymentAssetCollection \<Rightarrow> bool" where
  "holds_assets l dec mint c \<longleftrightarrow>
     (\<exists>b. mt_data mint = Some b \<and> length b \<le> max_input_bytes l \<and> dec b = Ok c)"

definition mint_commitment :: "sha2 \<Rightarrow> TokenId \<Rightarrow> MintTransaction \<Rightarrow> bytes" where
  "mint_commitment sha2 source_id mint =
     split_output_commitment sha2 source_id (mt_network_id mint) (mt_recipient mint) (mt_salt mint)
       (mt_token_id mint) (mt_token_type mint) (the (mt_data mint))"

definition split_evidence ::
  "sha2 \<Rightarrow> DecodeLimits \<Rightarrow> PaymentDataDecoder \<Rightarrow> MintTransaction \<Rightarrow> Token \<Rightarrow> RsmstInclusionProof list \<Rightarrow> bool" where
  "split_evidence sha2 l dec mint burned proofs \<longleftrightarrow>
     (let source = cm_transaction (tk_genesis burned)
      in mt_network_id mint = mt_network_id source \<and> mt_token_type mint = mt_token_type source \<and>
         (\<exists>out src manifest. holds_assets l dec mint out \<and> holds_assets l dec source src \<and>
            burned_to sha2 l burned manifest \<and> length (sm_roots manifest) = length (pc_assets src) \<and>
            length proofs = length (pc_assets out) \<and>
            check_allocations sha2 (pc_assets src) (sm_roots manifest) (tid_bytes (mt_token_id mint))
              (mint_commitment sha2 (mt_token_id source) mint) (zip (pc_assets out) proofs) = Ok ()))"

definition split_ok ::
  "sha2 \<Rightarrow> 'p k256 \<Rightarrow> DecodeLimits \<Rightarrow> PaymentDataDecoder \<Rightarrow> (Token \<Rightarrow> bool) \<Rightarrow> CertifiedMintTransaction \<Rightarrow> bool" where
  "split_ok sha2 ec l dec K g \<longleftrightarrow>
     (\<exists>jb j. mt_justification (cm_transaction g) = Some jb \<and>
        justification_from_cbor sha2 ec (with_limits jb l) = Ok j \<and>
        split_evidence sha2 l dec (cm_transaction g) (sj_token j) (sj_proofs j) \<and> K (sj_token j))"

section \<open>The split verifier\<close>

text \<open>Tokens whose justifications embed only tokens of the same set.\<close>

definition embeds_within :: "sha2 \<Rightarrow> 'p k256 \<Rightarrow> DecodeLimits \<Rightarrow> Token set \<Rightarrow> bool" where
  "embeds_within sha2 ec l T \<longleftrightarrow>
     (\<forall>token\<in>T. \<forall>jb j. mt_justification (cm_transaction (tk_genesis token)) = Some jb \<longrightarrow>
        justification_from_cbor sha2 ec (with_limits jb l) = Ok j \<longrightarrow> sj_token j \<in> T)"

text \<open>The pure parts of the verifier before and after the verification of the embedded token.\<close>

definition split_output ::
  "DecodeLimits \<Rightarrow> PaymentDataDecoder \<Rightarrow> MintTransaction \<Rightarrow> Token \<Rightarrow> VerificationError + PaymentAssetCollection" where
  "split_output l dec mint burned =
     rbind (ok_or PaymentDataMissing (mt_data mint)) (\<lambda>b.
       if length b > max_input_bytes l then Err (VerificationLimitExceeded ''payment data bytes'')
       else rbind (map_err (\<lambda>_. MalformedTokenData) (dec b)) (\<lambda>out.
         if mt_network_id mint \<noteq> mt_network_id (cm_transaction (tk_genesis burned)) then Err SplitNetworkMismatch
         else Ok out))"

definition split_source ::
  "sha2 \<Rightarrow> DecodeLimits \<Rightarrow> PaymentDataDecoder \<Rightarrow> MintTransaction \<Rightarrow> Token \<Rightarrow> RsmstInclusionProof list \<Rightarrow>
   PaymentAssetCollection \<Rightarrow> VerificationError + unit" where
  "split_source sha2 l dec mint burned proofs out =
     (let source = cm_transaction (tk_genesis burned) in
      rbind (ok_or SplitBurnTransferMissing
        (if tk_transactions burned = [] then None else Some (last (tk_transactions burned)))) (\<lambda>burn.
      rbind (ok_or SplitManifestMissing (tr_data (ct_transaction burn))) (\<lambda>mb.
        if length mb > max_input_bytes l then Err (VerificationLimitExceeded ''split manifest bytes'')
        else rbind (map_err (\<lambda>_. SplitManifestMalformed) (SplitManifest_from_cbor_bytes mb l)) (\<lambda>manifest.
          if tr_recipient (ct_transaction burn) \<noteq> BurnPredicate_to_encoded \<lparr>bp_reason = reason_hash sha2 manifest\<rparr>
          then Err SplitBurnPredicateMismatch
          else if mt_token_type mint \<noteq> mt_token_type source then Err SplitTokenTypeMismatch
          else rbind (ok_or SplitSourcePaymentDataMissing (mt_data source)) (\<lambda>b.
            if length b > max_input_bytes l then Err (VerificationLimitExceeded ''source payment data bytes'')
            else rbind (map_err (\<lambda>_. SplitSourcePaymentDataMissing) (dec b)) (\<lambda>src.
              if PaymentAssetCollection_len src \<noteq> SplitManifest_len manifest then Err SplitManifestLengthMismatch
              else if length proofs \<noteq> PaymentAssetCollection_len out then Err SplitProofCountMismatch
              else rbind (map_err (\<lambda>_. PaymentDataMissing) (commitment_for_mint sha2 (mt_token_id source) mint))
                (\<lambda>commitment. check_allocations sha2 (pc_assets src) (sm_roots manifest)
                   (tid_bytes (mt_token_id mint)) commitment (zip (pc_assets out) proofs))))))))"

lemma sbind_assoc: "sbind (sbind m g) f = sbind m (\<lambda>x c. sbind (g x c) f)"
  by (cases m) (simp split: sum.splits)

lemma pure_bind_end: "(rbind r g, c) = sbind (r, c) (\<lambda>x c. (g x, c))"
  by (cases r) simp_all

lemma pure_if: "(if b then x else y, c) = (if b then (x, c) else (y, c))"
  by simp

lemma sbind_if: "sbind (if b then m else m') f = (if b then sbind m f else sbind m' f)"
  by simp

lemma sbind_Err: "sbind (Err e, c) f = (Err e, c)" and sbind_Ok: "sbind (Ok x, c) f = f x c"
  by simp_all

lemma split_verify_eq:
  "SplitMintJustificationVerifier_verify sha2 ec v tb policy emb g c =
     (let mint = cm_transaction g; l = vl_decode (vp_limits policy); dec = sv_decode_payment_data v
      in sbind (ok_or MalformedMintJustification (mt_justification mint), c) (\<lambda>jb c.
         sbind (map_prod (map_err (\<lambda>_. MalformedMintJustification)) (\<lambda>u. c\<lparr>vc_interner := u\<rparr>)
                  (SplitMintJustification_from_cbor_interned sha2 ec jb l (vc_interner c))) (\<lambda>j c.
         sbind (split_output l dec mint (sj_token j), c) (\<lambda>out c.
         sbind (map_prod (map_err BurnTokenVerificationFailed) id
                  (emb (sj_token j) (sj_encoded_token_len j) c)) (\<lambda>_ c.
           (split_source sha2 l dec mint (sj_token j) (sj_proofs j) out, c))))))"
  unfolding SplitMintJustificationVerifier_verify_def split_output_def split_source_def Let_def
    sbind_assoc pure_bind_end pure_if sbind_if sbind_Err sbind_Ok by (rule refl)

lemma split_output_iff:
  "split_output l dec mint burned = Ok out \<longleftrightarrow>
     holds_assets l dec mint out \<and> mt_network_id mint = mt_network_id (cm_transaction (tk_genesis burned))"
  by (auto simp: split_output_def holds_assets_def result_simps split: if_splits)

lemma split_source_Ok:
  assumes "split_source sha2 l dec mint burned proofs out = Ok ()" "holds_assets l dec mint out"
    "mt_network_id mint = mt_network_id (cm_transaction (tk_genesis burned))"
  shows "split_evidence sha2 l dec mint burned proofs"
proof -
  obtain b where b: "mt_data mint = Some b" using assms(2) by (auto simp: holds_assets_def)
  then have com: "commitment_for_mint sha2 i mint = Ok (mint_commitment sha2 i mint)" for i
    by (simp add: commitment_for_mint_def mint_commitment_def)
  obtain src manifest where "holds_assets l dec (cm_transaction (tk_genesis burned)) src"
      "burned_to sha2 l burned manifest" "length (sm_roots manifest) = length (pc_assets src)"
      "length proofs = length (pc_assets out)" "mt_token_type mint = mt_token_type (cm_transaction (tk_genesis burned))"
      "check_allocations sha2 (pc_assets src) (sm_roots manifest) (tid_bytes (mt_token_id mint))
        (mint_commitment sha2 (mt_token_id (cm_transaction (tk_genesis burned))) mint) (zip (pc_assets out) proofs) = Ok ()"
    using assms(1) unfolding split_source_def Let_def com
    by (auto simp: result_simps holds_assets_def burned_to_def PaymentAssetCollection_len_def SplitManifest_len_def
        split: if_splits)
  then show ?thesis using assms(2,3) unfolding split_evidence_def Let_def by blast
qed

lemma interner_keeps:
  assumes "context_ok sha2 ec tb Q l c"
  shows "keeps (context_ok sha2 ec tb Q l)
    (map_prod (map_err e) (\<lambda>u. c\<lparr>vc_interner := u\<rparr>)
      (SplitMintJustification_from_cbor_interned sha2 ec b l (vc_interner c)))
    (\<lambda>j. justification_from_cbor sha2 ec (with_limits b l) = Ok j)"
proof -
  have "agrees l (SplitMintJustification_from_cbor_interned sha2 ec b l (vc_interner c))
      (justification_from_cbor sha2 ec (with_limits b l))"
    using assms by (intro justification_interner_transparent) (simp add: context_ok_def)
  then show ?thesis using assms
    by (cases "SplitMintJustification_from_cbor_interned sha2 ec b l (vc_interner c)")
      (auto simp: keeps_def yields_def context_ok_def map_err_Inr_iff)
qed

theorem split_verifier_sound:
  assumes lim: "vl_decode (vp_limits policy) = l" and T: "embeds_within sha2 ec l T"
  shows "app_sound (context_ok sha2 ec tb Q l) tb policy T K
    (split_ok sha2 ec l (sv_decode_payment_data v) K) (SplitMintJustificationVerifier_verify sha2 ec v)"
  unfolding app_sound_def
proof (intro allI impI)
  fix emb :: embedded_verifier and token :: Token and c
  let ?I = "context_ok sha2 ec tb Q l" and ?g = "tk_genesis token" and ?dec = "sv_decode_payment_data v"
  assume tok: "token \<in> T" and c: "?I c"
    and emb: "\<forall>source\<in>T. \<forall>len c. ?I c \<longrightarrow> keeps ?I (emb source len c) (\<lambda>_. K source)"
  have rest: "keeps ?I (sbind (split_output l ?dec (cm_transaction ?g) (sj_token j), c') (\<lambda>out c.
      sbind (map_prod (map_err BurnTokenVerificationFailed) id (emb (sj_token j) (sj_encoded_token_len j) c)) (\<lambda>_ c.
        (split_source sha2 l ?dec (cm_transaction ?g) (sj_token j) (sj_proofs j) out, c))))
      (\<lambda>_. split_ok sha2 ec l ?dec K ?g)"
    if "mt_justification (cm_transaction ?g) = Some jb" "justification_from_cbor sha2 ec (with_limits jb l) = Ok j" "?I c'"
    for jb j c'
  proof -
    have "sj_token j \<in> T" using T tok that(1,2) unfolding embeds_within_def by blast
    then have embedded: "keeps ?I (map_prod (map_err BurnTokenVerificationFailed) id
        (emb (sj_token j) (sj_encoded_token_len j) c'')) (\<lambda>_. K (sj_token j))" if "?I c''" for c''
      using emb that by (intro keeps_map_err) blast
    show ?thesis
    proof (rule keeps_bind [OF keeps_pure [of ?I, OF that(3)]], assumption)
      fix out c1 assume out: "split_output l ?dec (cm_transaction ?g) (sj_token j) = Ok out" and c1: "?I c1"
      show "keeps ?I (sbind (map_prod (map_err BurnTokenVerificationFailed) id (emb (sj_token j) (sj_encoded_token_len j) c1))
          (\<lambda>_ c. (split_source sha2 l ?dec (cm_transaction ?g) (sj_token j) (sj_proofs j) out, c)))
          (\<lambda>_. split_ok sha2 ec l ?dec K ?g)"
        by (rule keeps_bind [OF embedded [OF c1]], rule keeps_pure, assumption)
          (use that out split_source_Ok in \<open>auto simp: split_ok_def split_output_iff\<close>)
    qed
  qed
  show "keeps ?I (SplitMintJustificationVerifier_verify sha2 ec v tb policy emb ?g c)
      (\<lambda>_. split_ok sha2 ec l ?dec K ?g)"
    unfolding split_verify_eq Let_def lim
  proof (rule keeps_bind [OF keeps_pure [of ?I, OF c]], assumption)
    fix jb c1 assume jb: "ok_or MalformedMintJustification (mt_justification (cm_transaction ?g)) = Ok jb" and c1: "?I c1"
    have "mt_justification (cm_transaction ?g) = Some jb" using jb by (cases "mt_justification (cm_transaction ?g)") auto
    from keeps_bind [OF interner_keeps [OF c1] rest [OF this]]
    show "keeps ?I (sbind (map_prod (map_err (\<lambda>_. MalformedMintJustification)) (\<lambda>u. c1\<lparr>vc_interner := u\<rparr>)
         (SplitMintJustification_from_cbor_interned sha2 ec jb l (vc_interner c1))) (\<lambda>j c.
         sbind (split_output l ?dec (cm_transaction ?g) (sj_token j), c) (\<lambda>out c.
         sbind (map_prod (map_err BurnTokenVerificationFailed) id (emb (sj_token j) (sj_encoded_token_len j) c)) (\<lambda>_ c.
           (split_source sha2 l ?dec (cm_transaction ?g) (sj_token j) (sj_proofs j) out, c)))))
       (\<lambda>_. split_ok sha2 ec l ?dec K ?g)" .
  qed
qed

text \<open>The evidence suffices: with it the verifier succeeds exactly when the embedded token verifies.\<close>

lemma split_evidence_complete:
  assumes "split_evidence sha2 l dec mint burned proofs"
  shows "\<exists>out. split_output l dec mint burned = Ok out \<and> split_source sha2 l dec mint burned proofs out = Ok ()"
proof -
  obtain out src manifest where ev: "holds_assets l dec mint out" "holds_assets l dec (cm_transaction (tk_genesis burned)) src"
      "burned_to sha2 l burned manifest" "length (sm_roots manifest) = length (pc_assets src)"
      "length proofs = length (pc_assets out)"
      "mt_network_id mint = mt_network_id (cm_transaction (tk_genesis burned))"
      "mt_token_type mint = mt_token_type (cm_transaction (tk_genesis burned))"
      "check_allocations sha2 (pc_assets src) (sm_roots manifest) (tid_bytes (mt_token_id mint))
        (mint_commitment sha2 (mt_token_id (cm_transaction (tk_genesis burned))) mint) (zip (pc_assets out) proofs) = Ok ()"
    using assms by (auto simp: split_evidence_def Let_def)
  obtain b where b: "mt_data mint = Some b" using ev(1) by (auto simp: holds_assets_def)
  then have com: "commitment_for_mint sha2 i mint = Ok (mint_commitment sha2 i mint)" for i
    by (simp add: commitment_for_mint_def mint_commitment_def)
  have "split_source sha2 l dec mint burned proofs out = Ok ()"
    using ev(2-5,7,8) unfolding split_source_def Let_def com
    by (auto simp: holds_assets_def burned_to_def PaymentAssetCollection_len_def SplitManifest_len_def)
  then show ?thesis using ev(1,6) by (auto simp: split_output_iff)
qed

theorem split_verifier_complete:
  assumes c: "context_ok sha2 ec tb Q (vl_decode (vp_limits policy)) c"
    and j: "mt_justification (cm_transaction g) = Some jb"
      "justification_from_cbor sha2 ec (with_limits jb (vl_decode (vp_limits policy))) = Ok j"
    and ev: "split_evidence sha2 (vl_decode (vp_limits policy)) (sv_decode_payment_data v) (cm_transaction g)
      (sj_token j) (sj_proofs j)"
    and emb: "\<And>c. fst (emb (sj_token j) (sj_encoded_token_len j) c) = Ok ()"
  shows "fst (SplitMintJustificationVerifier_verify sha2 ec v tb policy emb g c) = Ok ()"
proof -
  obtain r u where dec: "SplitMintJustification_from_cbor_interned sha2 ec jb (vl_decode (vp_limits policy)) (vc_interner c) = (r, u)"
    by fastforce
  have "r = Ok j"
    using justification_interner_transparent [of "vl_decode (vp_limits policy)" "vc_interner c" sha2 ec jb] c j(2) dec
    by (simp add: context_ok_def yields_def)
  moreover have "fst (map_prod (map_err BurnTokenVerificationFailed) id (emb (sj_token j) (sj_encoded_token_len j) c')) = Ok ()" for c'
    using emb by (cases "emb (sj_token j) (sj_encoded_token_len j) c'") (metis fst_conv fst_map_prod map_err.simps(2))
  ultimately show ?thesis
    using j(1) split_evidence_complete [OF ev] dec unfolding split_verify_eq Let_def
    by (auto simp: sbind_Ok_iff)
qed

section \<open>Provenance\<close>

text \<open>A payment registry: the split verifier and issuance policies, all with one payload decoder.\<close>

definition payment_registry :: "sha2 \<Rightarrow> 'p k256 \<Rightarrow> PaymentDataDecoder \<Rightarrow> MintJustificationRegistry \<Rightarrow> bool" where
  "payment_registry sha2 ec dec reg \<longleftrightarrow>
     ran (mr_verifiers reg) \<subseteq> {SplitMintJustificationVerifier_verify sha2 ec \<lparr>sv_decode_payment_data = dec\<rparr>} \<and>
     (\<forall>w\<in>ran (mr_data_verifiers reg). \<exists>pv. w = PaymentDataVerifier_verify pv \<and> pv_decode_payment_data pv = dec)"

definition issued :: "PaymentDataDecoder \<Rightarrow> MintJustificationRegistry \<Rightarrow> CertifiedMintTransaction \<Rightarrow> bool" where
  "issued dec reg g \<longleftrightarrow> (\<exists>pv b c. PaymentDataVerifier_verify pv \<in> ran (mr_data_verifiers reg) \<and>
     mt_data (cm_transaction g) = Some b \<and> dec b = Ok c \<and> pv_authorize_issuance pv g c = Ok ())"

lemma payment_verifier_sound:
  assumes "payment_registry sha2 ec dec reg" "w \<in> ran (mr_data_verifiers reg)"
  shows "app_sound I tb policy T K (issued dec reg) w"
proof -
  obtain pv where pv: "w = PaymentDataVerifier_verify pv" "pv_decode_payment_data pv = dec"
    using assms by (auto simp: payment_registry_def)
  have "keeps I (w tb policy emb g c) (\<lambda>_. issued dec reg g)" if "I c" for emb g c
    unfolding keeps_def
  proof (intro conjI allI impI)
    show "I (snd (w tb policy emb g c))"
      using that by (auto simp: pv PaymentDataVerifier_verify_def split: sum.splits)
    fix x assume "fst (w tb policy emb g c) = Ok x"
    then obtain b a where "mt_data (cm_transaction g) = Some b" "dec b = Ok a" "pv_authorize_issuance pv g a = Ok ()"
      unfolding pv(1) PaymentDataVerifier_verify_def pv(2) sbind_Ok_iff by (auto simp: result_simps)
    then show "issued dec reg g" using assms(2) pv(1) unfolding issued_def by blast
  qed
  then show ?thesis by (simp add: app_sound_def)
qed

lemma split_ok_mono [mono]: "K \<le> K' \<Longrightarrow> split_ok sha2 ec l dec K g \<longrightarrow> split_ok sha2 ec l dec K' g"
  unfolding split_ok_def by blast

inductive genuine ::
  "sha2 \<Rightarrow> 'p k256 \<Rightarrow> RootTrustBase \<Rightarrow> DecodeLimits \<Rightarrow> PaymentDataDecoder \<Rightarrow> MintJustificationRegistry \<Rightarrow> Token \<Rightarrow> bool"
  for sha2 ec tb l dec reg where
  genuine_mint: "history_ok sha2 ec tb token \<Longrightarrow> mt_justification (cm_transaction (tk_genesis token)) = None \<Longrightarrow>
    mt_data (cm_transaction (tk_genesis token)) \<noteq> None \<longrightarrow> issued dec reg (tk_genesis token) \<Longrightarrow>
    genuine sha2 ec tb l dec reg token"
| genuine_split: "history_ok sha2 ec tb token \<Longrightarrow>
    mt_data (cm_transaction (tk_genesis token)) \<noteq> None \<longrightarrow> issued dec reg (tk_genesis token) \<Longrightarrow>
    split_ok sha2 ec l dec (genuine sha2 ec tb l dec reg) (tk_genesis token) \<Longrightarrow>
    genuine sha2 ec tb l dec reg token"

text \<open>The token and all tokens embedded in it.\<close>

inductive_set lineage :: "sha2 \<Rightarrow> 'p k256 \<Rightarrow> DecodeLimits \<Rightarrow> Token \<Rightarrow> Token set" for sha2 ec l token where
  lineage_self: "token \<in> lineage sha2 ec l token"
| lineage_source: "t \<in> lineage sha2 ec l token \<Longrightarrow> mt_justification (cm_transaction (tk_genesis t)) = Some jb \<Longrightarrow>
    justification_from_cbor sha2 ec (with_limits jb l) = Ok j \<Longrightarrow> sj_token j \<in> lineage sha2 ec l token"

lemma lineage_embeds: "embeds_within sha2 ec l (lineage sha2 ec l token)"
  unfolding embeds_within_def by (blast intro: lineage_source)

definition lineage_seals :: "sha2 \<Rightarrow> 'p k256 \<Rightarrow> DecodeLimits \<Rightarrow> Token \<Rightarrow> UnicitySeal set" where
  "lineage_seals sha2 ec l token = (\<Union>t\<in>lineage sha2 ec l token. token_seals t)"

theorem verify_token_genuine:
  assumes reg: "payment_registry sha2 ec dec reg" and lim: "vl_decode (vp_limits policy) = l"
    and req: "vp_require_token_data_verifier policy"
    and inj: "inj_on (seal_key sha2) (lineage_seals sha2 ec l token)"
    and ok: "verify_token_with_policy sha2 ec token tb reg policy = Ok ()"
  shows "genuine sha2 ec tb l dec reg token"
proof -
  let ?T = "lineage sha2 ec l token" and ?Q = "lineage_seals sha2 ec l token"
  let ?I = "context_ok sha2 ec tb ?Q l" and ?K = "genuine sha2 ec tb l dec reg"
  let ?J = "split_ok sha2 ec l dec ?K"
  have sound: "registry_sound ?I tb policy ?T ?K ?J (issued dec reg) reg"
    unfolding registry_sound_def
  proof (intro conjI ballI)
    fix w assume "w \<in> ran (mr_verifiers reg)"
    then have "w = SplitMintJustificationVerifier_verify sha2 ec \<lparr>sv_decode_payment_data = dec\<rparr>"
      using reg by (auto simp: payment_registry_def)
    then show "app_sound ?I tb policy ?T ?K ?J w"
      using split_verifier_sound [OF lim lineage_embeds, where v = "\<lparr>sv_decode_payment_data = dec\<rparr>"] by simp
  qed (rule payment_verifier_sound [OF reg])
  have "?K t" if "history_ok sha2 ec tb t" "approved policy ?J (issued dec reg) reg (tk_genesis t)" for t
  proof (cases "mt_justification (cm_transaction (tk_genesis t))")
    case None
    then show ?thesis using that req by (intro genuine_mint) (auto simp: approved_def split: if_splits)
  next
    case (Some b)
    then show ?thesis using that req by (intro genuine_split) (auto simp: approved_def split: if_splits)
  qed
  then have keeps: "keeps ?I (verify_token_in_context sha2 ec tb reg policy token c) (\<lambda>_. ?K token)" if "?I c" for c
    using that by (intro verify_token_in_context_keeps [OF inj _ sound]) (auto simp: lineage_seals_def lineage_self)
  have "fst (verify_token_in_context sha2 ec tb reg policy token
      (VerificationContext_with_memo_capacity tb DEFAULT_SEAL_MEMO_CAPACITY)) = Ok ()"
    using ok by (auto simp: verify_token_with_policy_def verify_token_with_seal_stats_def
        verify_token_with_memo_capacity_def split: prod.splits sum.splits)
  then show ?thesis using keeps [OF context_ok_new] by (simp add: keeps_def)
qed

theorem verify_payment_token_genuine:
  assumes "payment_registry sha2 ec dec reg" "inj_on (seal_key sha2) (lineage_seals sha2 ec DEFAULT_limits token)"
    and ok: "verify_payment_token sha2 ec token tb reg dec = Ok c"
  shows "genuine sha2 ec tb DEFAULT_limits dec reg token \<and>
    (\<exists>b. mt_data (cm_transaction (tk_genesis token)) = Some b \<and> dec b = Ok c)"
proof -
  have "verify_token_with_policy sha2 ec token tb reg (VerificationPolicy_default\<lparr>vp_require_token_data_verifier := True\<rparr>) = Ok ()"
    "\<exists>b. mt_data (cm_transaction (tk_genesis token)) = Some b \<and> dec b = Ok c"
    using ok by (auto simp: verify_payment_token_def Let_def result_simps)
  then show ?thesis
    using verify_token_genuine [OF assms(1), of "VerificationPolicy_default\<lparr>vp_require_token_data_verifier := True\<rparr>"] assms(2)
    by (simp add: VerificationPolicy_default_def VerificationLimits_DEFAULT_def)
qed

section \<open>The budget of embedded tokens\<close>

text \<open>Whatever the registered payment verifiers see, the bytes of the embedded tokens that are verified
  stay within the policy.\<close>

definition within_budget :: "VerificationPolicy \<Rightarrow> VerificationContext \<Rightarrow> bool" where
  "within_budget policy c \<longleftrightarrow> vc_total_embedded_token_bytes c \<le> vl_max_total_embedded_token_bytes (vp_limits policy)"

definition spends_within :: "VerificationPolicy \<Rightarrow> (VerificationContext \<Rightarrow> context_result) \<Rightarrow> bool" where
  "spends_within policy f \<longleftrightarrow> (\<forall>c. within_budget policy c \<longrightarrow> within_budget policy (snd (f c)))"

lemma budget_bind:
  "within_budget policy (snd m) \<Longrightarrow> (\<And>x c. within_budget policy c \<Longrightarrow> within_budget policy (snd (f x c))) \<Longrightarrow>
   within_budget policy (snd (sbind m f))"
  by (cases m) (auto split: sum.splits)

lemma budget_seals: "within_budget policy c \<Longrightarrow> within_budget policy (snd (map_prod e id (with_seals f c)))"
  by (cases "f (vc_seals c)") (simp add: with_seals_def within_budget_def)

lemma split_verifier_budget:
  assumes "\<And>t n. spends_within policy (emb t n)"
  shows "spends_within policy (SplitMintJustificationVerifier_verify sha2 ec v tb policy emb g)"
  unfolding spends_within_def split_verify_eq Let_def
proof (intro allI impI budget_bind)
  fix c j c' assume "within_budget policy c'"
  then show "within_budget policy (snd (map_prod (map_err (\<lambda>_. MalformedMintJustification)) (\<lambda>u. c'\<lparr>vc_interner := u\<rparr>)
       (SplitMintJustification_from_cbor_interned sha2 ec j (vl_decode (vp_limits policy)) (vc_interner c'))))"
    by (cases "SplitMintJustification_from_cbor_interned sha2 ec j (vl_decode (vp_limits policy)) (vc_interner c')")
      (simp add: within_budget_def)
qed (use assms in \<open>auto simp: spends_within_def\<close>)

lemma payment_verifier_budget: "spends_within policy (PaymentDataVerifier_verify pv tb policy' emb g)"
  unfolding spends_within_def PaymentDataVerifier_verify_def by (intro allI impI budget_bind) auto

lemma verify_transfers_budget: "spends_within policy (verify_transfers sha2 ec i ts)"
  unfolding spends_within_def
  by (induction ts arbitrary: i) (auto intro!: budget_bind budget_seals)

lemma verify_token_body_budget:
  assumes reg: "payment_registry sha2 ec dec reg" and emb: "\<And>t n. spends_within policy (emb t n)"
  shows "spends_within policy (verify_token_body sha2 ec tb reg policy emb token)"
proof -
  have data: "within_budget policy (snd (MintJustificationRegistry_verify_token_data reg tb policy emb g c))"
    if "within_budget policy c" for g c
    using that reg payment_verifier_budget
    by (auto simp: MintJustificationRegistry_verify_token_data_def payment_registry_def spends_within_def ran_def
        split: option.splits)
  have just: "within_budget policy (snd (MintJustificationRegistry_verify_genesis reg tb policy emb g c))"
    if "within_budget policy c" for g c
  proof -
    have "within_budget policy (snd (w tb policy emb g c))" if "mr_verifiers reg tag = Some w" "within_budget policy c" for w tag c
    proof -
      have "w = SplitMintJustificationVerifier_verify sha2 ec \<lparr>sv_decode_payment_data = dec\<rparr>"
        using reg that(1) by (auto simp: payment_registry_def ran_def)
      moreover have "spends_within policy (SplitMintJustificationVerifier_verify sha2 ec \<lparr>sv_decode_payment_data = dec\<rparr> tb policy emb g)"
        by (rule split_verifier_budget) (rule emb)
      ultimately show ?thesis using that(2) by (simp add: spends_within_def)
    qed
    then show ?thesis using that
      by (auto simp: MintJustificationRegistry_verify_genesis_def ok_or_Inr_iff split: option.splits sum.splits)
  qed
  have gen: "within_budget policy (snd (verify_genesis sha2 ec tb reg policy emb token c))" if "within_budget policy c" for c
    using that unfolding verify_genesis_def Let_def
    by (auto split: sum.splits intro!: budget_bind budget_seals data just)
  show ?thesis unfolding spends_within_def verify_token_body_def
    using verify_transfers_budget [of policy sha2 ec 0 "tk_transactions token"] gen
    by (auto simp: spends_within_def intro!: budget_bind)
qed

theorem verify_embedded_token_budget:
  assumes "payment_registry sha2 ec dec reg"
  shows "spends_within policy (verify_embedded_token n sha2 ec tb reg policy token len)"
proof (induction n arbitrary: token len)
  case 0
  then show ?case by (simp add: spends_within_def)
next
  case (Suc n)
  have "within_budget policy (snd (verify_token_body sha2 ec tb reg policy (verify_embedded_token n sha2 ec tb reg policy) token
      (c\<lparr>vc_total_embedded_token_bytes := total\<rparr>)))"
    if "\<not> vl_max_total_embedded_token_bytes (vp_limits policy) < total" for c total
    using verify_token_body_budget [OF assms Suc.IH] that by (auto simp: spends_within_def within_budget_def)
  then show ?case by (auto simp: spends_within_def split: sum.splits)
qed

theorem verify_token_in_context_budget:
  assumes "payment_registry sha2 ec dec reg"
  shows "spends_within policy (verify_token_in_context sha2 ec tb reg policy token)"
  using verify_token_body_budget [OF assms verify_embedded_token_budget [OF assms]]
  by (simp add: spends_within_def verify_token_in_context_def)

section \<open>Conservation of value\<close>

lemma iter_position_find: "iter_position P xs = Some i \<Longrightarrow> find P xs = Some (xs ! i)"
  by (induction xs arbitrary: i) (auto split: if_splits)

definition holding :: "PaymentAssetCollection \<Rightarrow> AssetId \<Rightarrow> nat" where
  "holding c i = (case PaymentAssetCollection_get c i of None \<Rightarrow> 0 | Some a \<Rightarrow> as_value a)"

definition mint_assets :: "PaymentDataDecoder \<Rightarrow> MintTransaction \<Rightarrow> PaymentAssetCollection" where
  "mint_assets dec mint = (case dec (the (mt_data mint)) of Inl e \<Rightarrow> \<lparr>pc_assets = []\<rparr> | Inr c \<Rightarrow> c)"

lemma holds_mint_assets: "holds_assets l dec mint c \<Longrightarrow> mint_assets dec mint = c"
  by (auto simp: holds_assets_def mint_assets_def)

text \<open>The claims on the tree of one asset that an output with its proofs makes.\<close>

definition asset_claims ::
  "sha2 \<Rightarrow> PaymentDataDecoder \<Rightarrow> Token \<Rightarrow> AssetId \<Rightarrow> MintTransaction \<times> RsmstInclusionProof list \<Rightarrow> claim list" where
  "asset_claims sha2 dec burned i = (\<lambda>(mint, proofs).
     map (\<lambda>(a, p). (p, tid_bytes (mt_token_id mint),
            mint_commitment sha2 (mt_token_id (cm_transaction (tk_genesis burned))) mint, as_value a))
       (filter (\<lambda>(a, p). as_id a = i) (zip (pc_assets (mint_assets dec mint)) proofs)))"

lemma filter_zip_unique:
  "distinct (map f xs) \<Longrightarrow> length xs = length ys \<Longrightarrow>
   (case find (\<lambda>x. f x = k) xs of
      None \<Rightarrow> filter (\<lambda>(x, y). f x = k) (zip xs ys) = []
    | Some x \<Rightarrow> \<exists>y. filter (\<lambda>(x, y). f x = k) (zip xs ys) = [(x, y)] \<and> (x, y) \<in> set (zip xs ys) \<and> f x = k)"
proof (induction xs ys rule: list_induct2')
  case (4 x xs y ys)
  have none: "filter (\<lambda>(x, y). f x = k) (zip xs ys) = []" if "f x = k"
    using 4(2) that by (auto simp: filter_empty_conv image_iff dest!: set_zip_leftD)
  show ?case
  proof (cases "f x = k")
    case True
    then show ?thesis using none by simp
  next
    case False
    then show ?thesis using 4 by (auto split: option.splits)
  qed
qed auto

lemma wf_ids_distinct: "PaymentAssetCollection_wf c \<Longrightarrow> distinct (map as_id (pc_assets c))"
proof -
  assume "PaymentAssetCollection_wf c"
  then have "sorted_wrt asset_less (pc_assets c)" by (simp add: PaymentAssetCollection_wf_def)
  then have "distinct (map (\<lambda>a. aid_bytes (as_id a)) (pc_assets c))" by (rule byte_order.sorted_Less_distinct)
  then have "distinct (map aid_bytes (map as_id (pc_assets c)))" by (simp add: comp_def)
  then show ?thesis unfolding distinct_map [of aid_bytes] by blast
qed

lemma concat_singletons:
  assumes "\<And>x. x \<in> set xs \<Longrightarrow> f x = [] \<or> (\<exists>c. f x = [c] \<and> key c = k x)" "distinct (map k xs)"
  shows "distinct (map key (concat (map f xs)))"
  using assms
proof (induction xs)
  case (Cons x xs)
  have IH: "distinct (map key (concat (map f xs)))" by (rule Cons.IH) (use Cons.prems in auto)
  have fresh: "key c \<noteq> k x" if "y \<in> set xs" "c \<in> set (f y)" for c y
  proof -
    have "key c = k y" using Cons.prems(1) [of y] that by auto
    moreover have "k x \<notin> k ` set xs" using Cons.prems(2) by simp
    ultimately show ?thesis using that(1) by (metis imageI)
  qed
  have "k x \<notin> key ` set (concat (map f xs))"
  proof
    assume "k x \<in> key ` set (concat (map f xs))"
    then obtain y c where "y \<in> set xs" "c \<in> set (f y)" "key c = k x" by auto
    then show False using fresh by blast
  qed
  then show ?case using IH Cons.prems(1) [of x] by auto
qed simp

definition split_claims ::
  "sha2 \<Rightarrow> PaymentDataDecoder \<Rightarrow> Token \<Rightarrow> (MintTransaction \<times> RsmstInclusionProof list) list \<Rightarrow> AssetId \<Rightarrow> claim list" where
  "split_claims sha2 dec burned outs i = concat (map (asset_claims sha2 dec burned i) outs)"

text \<open>A payload decoder returns collections made by the constructors of their type.\<close>

definition decodes_wf :: "PaymentDataDecoder \<Rightarrow> bool" where
  "decodes_wf dec \<longleftrightarrow> (\<forall>b c. dec b = Ok c \<longrightarrow> PaymentAssetCollection_wf c)"

lemma default_decodes_wf: "decodes_wf PaymentAssetCollection_from_cbor_bytes"
  by (simp add: decodes_wf_def payment_bytes_iff)

lemma asset_claims_cases:
  assumes ev: "split_evidence sha2 l dec mint burned proofs" and dec: "decodes_wf dec"
  shows "(asset_claims sha2 dec burned i (mint, proofs) = [] \<and> holding (mint_assets dec mint) i = 0) \<or>
    (\<exists>a p. (a, p) \<in> set (zip (pc_assets (mint_assets dec mint)) proofs) \<and> as_id a = i \<and>
       holding (mint_assets dec mint) i = as_value a \<and>
       asset_claims sha2 dec burned i (mint, proofs) = [(p, tid_bytes (mt_token_id mint),
         mint_commitment sha2 (mt_token_id (cm_transaction (tk_genesis burned))) mint, as_value a)])"
proof -
  obtain out where out: "holds_assets l dec mint out" "length proofs = length (pc_assets out)"
    using ev by (auto simp: split_evidence_def Let_def)
  have "PaymentAssetCollection_wf out" using out(1) dec by (auto simp: holds_assets_def decodes_wf_def)
  note uniq = filter_zip_unique [OF wf_ids_distinct [OF this] out(2) [symmetric], of i]
  show ?thesis unfolding asset_claims_def prod.case holding_def holds_mint_assets [OF out(1)] PaymentAssetCollection_get_def
    using uniq by (auto split: option.splits)
qed

text \<open>What the evidence of an output says about its claim on one asset: the proof verifies against the
  manifest root of the asset with the amount of the source.\<close>

definition burn_manifest :: "DecodeLimits \<Rightarrow> Token \<Rightarrow> SplitManifest" where
  "burn_manifest l burned =
     (case SplitManifest_from_cbor_bytes (the (tr_data (ct_transaction (last (tk_transactions burned))))) l of
        Inl e \<Rightarrow> \<lparr>sm_roots = []\<rparr> | Inr m \<Rightarrow> m)"

lemma burned_to_manifest: "burned_to sha2 l burned m \<Longrightarrow> burn_manifest l burned = m"
  by (auto simp: burned_to_def burn_manifest_def)

lemma evidence_claim:
  assumes ev: "split_evidence sha2 l dec mint burned proofs"
    and a: "(a, p) \<in> set (zip (pc_assets (mint_assets dec mint)) proofs)"
  shows "\<exists>k. iter_position (\<lambda>s. as_id s = as_id a) (pc_assets (mint_assets dec (cm_transaction (tk_genesis burned)))) = Some k \<and>
    RsmstInclusionProof_verify sha2 p (tid_bytes (mt_token_id mint))
      (mint_commitment sha2 (mt_token_id (cm_transaction (tk_genesis burned))) mint) (as_value a)
      (sm_roots (burn_manifest l burned) ! k) =
    Some (holding (mint_assets dec (cm_transaction (tk_genesis burned))) (as_id a))"
proof -
  obtain out src m where h: "holds_assets l dec mint out" "holds_assets l dec (cm_transaction (tk_genesis burned)) src"
      "burned_to sha2 l burned m" and ch: "check_allocations sha2 (pc_assets src) (sm_roots m) (tid_bytes (mt_token_id mint))
        (mint_commitment sha2 (mt_token_id (cm_transaction (tk_genesis burned))) mint) (zip (pc_assets out) proofs) = Ok ()"
    using ev by (auto simp: split_evidence_def Let_def)
  have "(a, p) \<in> set (zip (pc_assets out) proofs)" using a holds_mint_assets [OF h(1)] by simp
  with ch obtain k where k: "iter_position (\<lambda>s. as_id s = as_id a) (pc_assets src) = Some k"
    "RsmstInclusionProof_verify sha2 p (tid_bytes (mt_token_id mint))
        (mint_commitment sha2 (mt_token_id (cm_transaction (tk_genesis burned))) mint) (as_value a) (sm_roots m ! k) =
      Some (as_value (pc_assets src ! k))"
    unfolding check_allocations_iff by blast
  have "holding src (as_id a) = as_value (pc_assets src ! k)"
    using iter_position_find [OF k(1)] by (simp add: holding_def PaymentAssetCollection_get_def)
  then show ?thesis using k holds_mint_assets [OF h(2)] burned_to_manifest [OF h(3)] by auto
qed

theorem split_conserves:
  assumes len: "sha2_lengths sha2" and dec: "decodes_wf dec"
    and ev: "\<And>mint proofs. (mint, proofs) \<in> set outs \<Longrightarrow> split_evidence sha2 l dec mint burned proofs \<and>
      length (tid_bytes (mt_token_id mint)) = 32 \<and> list_all RsmstInclusionProof_wf proofs"
    and ids: "distinct (map (tid_bytes \<circ> mt_token_id \<circ> fst) outs)"
    and inj: "inj_on (sha2 Sha256) (claim_pres sha2 (split_claims sha2 dec burned outs i))"
  shows "sum_list (map (\<lambda>(mint, proofs). holding (mint_assets dec mint) i) outs) \<le>
    holding (mint_assets dec (cm_transaction (tk_genesis burned))) i"
proof (cases "split_claims sha2 dec burned outs i = []")
  case True
  have "holding (mint_assets dec mint) i = 0" if "(mint, proofs) \<in> set outs" for mint proofs
    using asset_claims_cases [OF conjunct1 [OF ev [OF that]] dec, where i = i] True that by (auto simp: split_claims_def)
  then have "map (\<lambda>(mint, proofs). holding (mint_assets dec mint) i) outs = map (\<lambda>_. 0) outs" by auto
  then show ?thesis by (simp only: sum_list_0 map_replicate_const sum_list_replicate)
next
  case False
  let ?src = "mint_assets dec (cm_transaction (tk_genesis burned))"
  let ?cs = "split_claims sha2 dec burned outs i"
  let ?k = "the (iter_position (\<lambda>s. as_id s = i) (pc_assets ?src))"
  have cases: "(asset_claims sha2 dec burned i (mint, proofs) = [] \<and> holding (mint_assets dec mint) i = 0) \<or>
      (\<exists>(a :: Asset) p. holding (mint_assets dec mint) i = as_value a \<and>
         asset_claims sha2 dec burned i (mint, proofs) = [(p, tid_bytes (mt_token_id mint),
           mint_commitment sha2 (mt_token_id (cm_transaction (tk_genesis burned))) mint, as_value a)])"
    if "(mint, proofs) \<in> set outs" for mint proofs
    using asset_claims_cases [OF conjunct1 [OF ev [OF that]] dec, where i = i] by blast
  have one: "asset_claims sha2 dec burned i x = [] \<or> (\<exists>c. asset_claims sha2 dec burned i x = [c] \<and>
      (fst \<circ> snd) c = (tid_bytes \<circ> mt_token_id \<circ> fst) x)" if "x \<in> set outs" for x
    using cases [of "fst x" "snd x"] that by (cases x) auto
  have "sum_list (map (snd \<circ> snd \<circ> snd) (asset_claims sha2 dec burned i x)) = (\<lambda>(mint, proofs). holding (mint_assets dec mint) i) x"
    if "x \<in> set outs" for x
    using cases [of "fst x" "snd x"] that by (cases x) auto
  then have total: "sum_list (map (snd \<circ> snd \<circ> snd) ?cs) = sum_list (map (\<lambda>(mint, proofs). holding (mint_assets dec mint) i) outs)"
    unfolding split_claims_def by (induction outs) auto
  have claims: "claim_wf (p, key, data, v) \<and> RsmstInclusionProof_verify sha2 p key data v
      (sm_roots (burn_manifest l burned) ! ?k) = Some (holding ?src i)" if c: "(p, key, data, v) \<in> set ?cs" for p key data v
  proof -
    obtain mint proofs where o: "(mint, proofs) \<in> set outs" "(p, key, data, v) \<in> set (asset_claims sha2 dec burned i (mint, proofs))"
      using c by (auto simp: split_claims_def)
    obtain a where a: "(a, p) \<in> set (zip (pc_assets (mint_assets dec mint)) proofs)" "as_id a = i"
      "key = tid_bytes (mt_token_id mint)" "v = as_value a"
      "data = mint_commitment sha2 (mt_token_id (cm_transaction (tk_genesis burned))) mint"
      using o(2) by (auto simp: asset_claims_def)
    have "RsmstInclusionProof_wf p" using ev [OF o(1)] set_zip_rightD [OF a(1)] by (auto simp: list_all_iff)
    then have "claim_wf (p, key, data, v)" using ev [OF o(1)] len a(3,5)
      by (auto simp: claim_wf_def alloc_wf_def claim_alloc_def RsmstInclusionProof_wf_def RsmstProofStep_wf_def list_all_iff
          mint_commitment_def split_output_commitment_def sha2_lengths_def)
    then show ?thesis using evidence_claim [OF conjunct1 [OF ev [OF o(1)]] a(1)] a(2-5) by auto
  qed
  have keys: "distinct (map (fst \<circ> snd) ?cs)" unfolding split_claims_def by (rule concat_singletons [OF one ids])
  have wf: "claim_wf c" if "c \<in> set ?cs" for c
    using claims that by (cases c) auto
  have "sum_list (map (snd \<circ> snd \<circ> snd) ?cs) \<le> holding ?src i"
    by (rule verified_claims_conserved [OF len inj wf keys conjunct2 [OF claims]])
  with total show ?thesis by simp
qed

end
