(* ===== verification/Split.thy ===== *)
theory Split
  imports Payment_Verify
begin

text \<open>
  Client-side token splitting (\<open>src/src/payment/split.rs\<close>): the construction of a burn and of its outputs,
  and that what it constructs is what the split verifier accepts. The random mask is a parameter.
\<close>

section \<open>Requests and results\<close>

record SplitOutputPayload =
  so_assets :: PaymentAssetCollection
  so_bytes :: bytes

definition SplitOutputPayload_bare :: "PaymentAssetCollection \<Rightarrow> SplitOutputPayload" where
  "SplitOutputPayload_bare assets = \<lparr>so_assets = assets, so_bytes = PaymentAssetCollection_to_cbor assets\<rparr>"

definition SplitOutputPayload_new ::
  "PaymentAssetCollection \<Rightarrow> bytes \<Rightarrow> PaymentDataDecoder \<Rightarrow> Error + SplitOutputPayload" where
  "SplitOutputPayload_new assets bytes decode_payment_data =
     rbind (decode_payment_data bytes) (\<lambda>decoded.
       if decoded \<noteq> assets
       then Err (UnexpectedValue ''split output payload does not decode to the declared assets'')
       else Ok \<lparr>so_assets = assets, so_bytes = bytes\<rparr>)"

record SplitTokenRequest =
  rq_recipient :: EncodedPredicate
  rq_token_type :: TokenType
  rq_payload :: SplitOutputPayload
  rq_salt :: TokenSalt

definition SplitTokenRequest_create_with_payload ::
  "EncodedPredicate \<Rightarrow> SplitOutputPayload \<Rightarrow> TokenType \<Rightarrow> TokenSalt \<Rightarrow> SplitTokenRequest" where
  "SplitTokenRequest_create_with_payload recipient payload token_type salt =
     \<lparr>rq_recipient = recipient, rq_token_type = token_type, rq_payload = payload, rq_salt = salt\<rparr>"

definition SplitTokenRequest_create ::
  "EncodedPredicate \<Rightarrow> PaymentAssetCollection \<Rightarrow> TokenType \<Rightarrow> TokenSalt \<Rightarrow> SplitTokenRequest" where
  "SplitTokenRequest_create recipient assets token_type salt =
     SplitTokenRequest_create_with_payload recipient (SplitOutputPayload_bare assets) token_type salt"

record SplitToken =
  sk_network_id :: NetworkId
  sk_recipient :: EncodedPredicate
  sk_token_type :: TokenType
  sk_salt :: TokenSalt
  sk_assets :: PaymentAssetCollection
  sk_payload :: bytes
  sk_proofs :: "RsmstInclusionProof list"

record SplitBurn =
  sb_owner_predicate :: BurnPredicate
  sb_transaction :: TransferTransaction
  sb_manifest :: bytes

record Split =
  sp_burn :: SplitBurn
  sp_tokens :: "SplitToken list"

datatype SplitError = Verification VerificationError | Build Error

section \<open>Construction\<close>

type_synonym split_entry = "SplitTokenRequest \<times> TokenId \<times> bytes"

text \<open>The loop over the requests: each is validated and gets its token id and commitment.\<close>

fun split_entries ::
  "sha2 \<Rightarrow> Token \<Rightarrow> PaymentAssetCollection \<Rightarrow> PaymentDataDecoder \<Rightarrow> SplitTokenRequest list \<Rightarrow> split_entry list \<Rightarrow>
   Error + split_entry list" where
  "split_entries sha2 token assets decode_payment_data [] entries = Ok entries"
| "split_entries sha2 token assets decode_payment_data (request # rest) entries =
     (let source = cm_transaction (tk_genesis token); network_id = mt_network_id source
      in if rq_token_type request \<noteq> mt_token_type source
         then Err (UnexpectedValue ''split output token type must equal source token type'')
         else rbind (decode_payment_data (so_bytes (rq_payload request))) (\<lambda>decoded.
           if decoded \<noteq> so_assets (rq_payload request)
           then Err (UnexpectedValue ''split output payload does not decode to the declared assets'')
           else if list_ex (\<lambda>asset. PaymentAssetCollection_get assets (as_id asset) = None)
                     (pc_assets (so_assets (rq_payload request)))
           then Err (UnexpectedValue ''split output asset is absent from source token'')
           else
             let token_id = TokenId_derive sha2 network_id (rq_salt request)
             in if list_ex (\<lambda>(_, i, _). i = token_id) entries
                then Err (UnexpectedValue ''duplicate split token id'')
                else
                  let commitment = split_output_commitment sha2 (mt_token_id source) network_id
                        (rq_recipient request) (rq_salt request) token_id (rq_token_type request)
                        (so_bytes (rq_payload request))
                  in split_entries sha2 token assets decode_payment_data rest
                       (entries @ [(request, token_id, commitment)])))"

text \<open>One tree: the outputs that receive the asset are inserted.\<close>

fun insert_outputs :: "sha2 \<Rightarrow> AssetId \<Rightarrow> split_entry list \<Rightarrow> Rsmst \<Rightarrow> Error + Rsmst" where
  "insert_outputs sha2 i [] tree = Ok tree"
| "insert_outputs sha2 i ((request, token_id, commitment) # rest) tree =
     (case PaymentAssetCollection_get (so_assets (rq_payload request)) i of
        Some output_asset \<Rightarrow>
          rbind (Rsmst_insert sha2 tree (tid_bytes token_id) commitment (as_value output_asset))
            (insert_outputs sha2 i rest)
      | None \<Rightarrow> insert_outputs sha2 i rest tree)"

text \<open>The loop over the source assets; the roots of the manifest are those of the trees.\<close>

fun split_trees :: "sha2 \<Rightarrow> split_entry list \<Rightarrow> Asset list \<Rightarrow> Error + (AssetId \<times> BuiltRsmst) list" where
  "split_trees sha2 entries [] = Ok []"
| "split_trees sha2 entries (source_asset # rest) =
     rbind (insert_outputs sha2 (as_id source_asset) entries Rsmst_new) (\<lambda>tree.
     rbind (map_err (\<lambda>_. UnexpectedValue ''source asset is not allocated to any output'')
              (Rsmst_build sha2 tree)) (\<lambda>built.
       if root_sum built \<noteq> as_value source_asset
       then Err (UnexpectedValue ''split asset total does not match source amount'')
       else rbind (split_trees sha2 entries rest) (\<lambda>trees. Ok ((as_id source_asset, built) # trees))))"

text \<open>The proof of one asset. The source panics when no tree is found, which
  \<open>tree_found\<close> excludes.\<close>

definition output_proof ::
  "(AssetId \<times> BuiltRsmst) list \<Rightarrow> TokenId \<Rightarrow> Asset \<Rightarrow> Error + RsmstInclusionProof" where
  "output_proof built_trees token_id asset =
     (let built = snd (the (find (\<lambda>(i, _). i = as_id asset) built_trees))
      in ok_or (UnexpectedValue ''missing allocation proof for output'')
           (BuiltRsmst_proof built (tid_bytes token_id)))"

definition split_token ::
  "NetworkId \<Rightarrow> (AssetId \<times> BuiltRsmst) list \<Rightarrow> split_entry \<Rightarrow> Error + SplitToken" where
  "split_token network_id built_trees = (\<lambda>(request, token_id, commitment).
     rbind (rmap (output_proof built_trees token_id) (pc_assets (so_assets (rq_payload request)))) (\<lambda>proofs.
       Ok \<lparr>sk_network_id = network_id, sk_recipient = rq_recipient request,
           sk_token_type = rq_token_type request, sk_salt = rq_salt request,
           sk_assets = so_assets (rq_payload request), sk_payload = so_bytes (rq_payload request),
           sk_proofs = proofs\<rparr>))"

definition build_split ::
  "sha2 \<Rightarrow> Error + bytes \<Rightarrow> Token \<Rightarrow> PaymentAssetCollection \<Rightarrow> PaymentDataDecoder \<Rightarrow> SplitTokenRequest list \<Rightarrow>
   bytes option \<Rightarrow> u64 option \<Rightarrow> Error + Split" where
  "build_split sha2 random_mask token assets decode_payment_data requests burn_state_mask burn_expires_at =
     (let network_id = mt_network_id (cm_transaction (tk_genesis token)) in
      rbind (split_entries sha2 token assets decode_payment_data requests []) (\<lambda>entries.
      rbind (split_trees sha2 entries (pc_assets assets)) (\<lambda>built_trees.
      rbind (SplitManifest_create (map (root_hash \<circ> snd) built_trees)) (\<lambda>manifest.
        let manifest_bytes = SplitManifest_to_cbor manifest;
            burn_predicate = \<lparr>bp_reason = reason_hash sha2 manifest\<rparr>
        in rbind (case burn_state_mask of Some m \<Rightarrow> Ok m | None \<Rightarrow> random_mask) (\<lambda>mask.
           let (source_state_hash, lock_script) = latest_state sha2 token;
               burn_transaction = \<lparr>tr_source_state_hash = source_state_hash, tr_lock_script = lock_script,
                 tr_recipient = BurnPredicate_to_encoded burn_predicate, tr_expires_at = burn_expires_at,
                 tr_state_mask = mask, tr_data = Some manifest_bytes\<rparr>
           in rbind (rmap (split_token network_id built_trees) entries) (\<lambda>tokens.
              Ok \<lparr>sp_burn = \<lparr>sb_owner_predicate = burn_predicate, sb_transaction = burn_transaction,
                    sb_manifest = manifest_bytes\<rparr>, sp_tokens = tokens\<rparr>))))))"

definition TokenSplit_split ::
  "sha2 \<Rightarrow> 'p k256 \<Rightarrow> Error + bytes \<Rightarrow> Token \<Rightarrow> RootTrustBase \<Rightarrow> MintJustificationRegistry \<Rightarrow> PaymentDataDecoder \<Rightarrow>
   SplitTokenRequest list \<Rightarrow> bytes option \<Rightarrow> u64 option \<Rightarrow> SplitError + Split" where
  "TokenSplit_split sha2 ec random_mask token tb registry decode_payment_data requests burn_state_mask burn_expires_at =
     rbind (map_err Verification (verify_payment_token sha2 ec token tb registry decode_payment_data)) (\<lambda>assets.
       map_err Build (build_split sha2 random_mask token assets decode_payment_data requests
         burn_state_mask burn_expires_at))"

definition TokenSplit_split_unchecked ::
  "sha2 \<Rightarrow> Error + bytes \<Rightarrow> Token \<Rightarrow> PaymentDataDecoder \<Rightarrow> SplitTokenRequest list \<Rightarrow> bytes option \<Rightarrow> u64 option \<Rightarrow>
   Error + Split" where
  "TokenSplit_split_unchecked sha2 random_mask token decode_payment_data requests burn_state_mask burn_expires_at =
     rbind (ok_or (UnexpectedValue ''source token has no payment data'')
              (mt_data (cm_transaction (tk_genesis token)))) (\<lambda>source_bytes.
     rbind (decode_payment_data source_bytes) (\<lambda>assets.
       build_split sha2 random_mask token assets decode_payment_data requests burn_state_mask burn_expires_at))"

section \<open>What is built\<close>

definition entry_ok ::
  "sha2 \<Rightarrow> Token \<Rightarrow> PaymentAssetCollection \<Rightarrow> PaymentDataDecoder \<Rightarrow> split_entry \<Rightarrow> bool" where
  "entry_ok sha2 token assets dec = (\<lambda>(rq, i, com).
     let source = cm_transaction (tk_genesis token)
     in rq_token_type rq = mt_token_type source \<and> dec (so_bytes (rq_payload rq)) = Ok (so_assets (rq_payload rq)) \<and>
        (\<forall>a\<in>set (pc_assets (so_assets (rq_payload rq))). PaymentAssetCollection_get assets (as_id a) \<noteq> None) \<and>
        i = TokenId_derive sha2 (mt_network_id source) (rq_salt rq) \<and>
        com = split_output_commitment sha2 (mt_token_id source) (mt_network_id source) (rq_recipient rq)
          (rq_salt rq) i (rq_token_type rq) (so_bytes (rq_payload rq)))"

lemma split_entries_ok:
  "split_entries sha2 token assets dec rqs acc = Ok es \<Longrightarrow> \<forall>e\<in>set acc. entry_ok sha2 token assets dec e \<Longrightarrow>
   \<forall>e\<in>set es. entry_ok sha2 token assets dec e"
proof (induction rqs arbitrary: acc)
  case (Cons rq rqs)
  let ?src = "cm_transaction (tk_genesis token)" and ?out = "so_assets (rq_payload rq)"
  let ?i = "TokenId_derive sha2 (mt_network_id ?src) (rq_salt rq)"
  let ?e = "(rq, ?i, split_output_commitment sha2 (mt_token_id ?src) (mt_network_id ?src) (rq_recipient rq)
      (rq_salt rq) ?i (rq_token_type rq) (so_bytes (rq_payload rq)))"
  have rest: "split_entries sha2 token assets dec rqs (acc @ [?e]) = Ok es" and "rq_token_type rq = mt_token_type ?src"
    "dec (so_bytes (rq_payload rq)) = Ok ?out"
    "\<not> list_ex (\<lambda>a. PaymentAssetCollection_get assets (as_id a) = None) (pc_assets ?out)"
    using Cons.prems(1) by (auto simp: Let_def result_simps split: if_splits)
  then have "entry_ok sha2 token assets dec ?e" by (auto simp: entry_ok_def Let_def list_ex_iff)
  then have "\<forall>e\<in>set (acc @ [?e]). entry_ok sha2 token assets dec e" using Cons.prems(2) by simp
  then show ?case by (rule Cons.IH [OF rest])
qed simp

definition allocation :: "AssetId \<Rightarrow> split_entry list \<Rightarrow> (bytes \<times> bytes \<times> nat) list" where
  "allocation i es = concat (map (\<lambda>(rq, t, com).
     case PaymentAssetCollection_get (so_assets (rq_payload rq)) i of
       None \<Rightarrow> [] | Some a \<Rightarrow> [(tid_bytes t, com, as_value a)]) es)"

lemma insert_outputs_inserted:
  "insert_outputs sha2 i es t = Ok t' \<Longrightarrow> inserted sha2 xs t \<Longrightarrow> \<forall>(rq, k, com)\<in>set es. length (tid_bytes k) = 32 \<Longrightarrow>
   inserted sha2 (xs @ allocation i es) t'"
proof (induction sha2 i es t arbitrary: xs rule: insert_outputs.induct)
  case (2 sha2 i rq k com rest t)
  show ?case
  proof (cases "PaymentAssetCollection_get (so_assets (rq_payload rq)) i")
    case None
    then show ?thesis using 2 by (simp add: allocation_def)
  next
    case (Some a)
    then obtain t1 where t1: "Rsmst_insert sha2 t (tid_bytes k) com (as_value a) = Ok t1"
      "insert_outputs sha2 i rest t1 = Ok t'"
      using 2(3) by (auto simp: result_simps)
    have "inserted sha2 (xs @ [(tid_bytes k, com, as_value a)]) t1"
      using 2(4,5) t1(1) by (intro inserted_insert) auto
    from 2(2) [OF Some t1(1,2) this] 2(5) Some show ?thesis by (simp add: allocation_def)
  qed
qed (simp add: allocation_def)

definition tree_for :: "sha2 \<Rightarrow> split_entry list \<Rightarrow> Asset \<Rightarrow> AssetId \<times> BuiltRsmst \<Rightarrow> bool" where
  "tree_for sha2 es s = (\<lambda>(i, b). i = as_id s \<and> root_sum b = as_value s \<and>
     (\<exists>t. inserted sha2 (allocation i es) t \<and> Rsmst_build sha2 t = Ok b))"

lemma split_trees_for:
  assumes "split_trees sha2 es as = Ok trees" "\<forall>(rq, k, com)\<in>set es. length (tid_bytes k) = 32"
  shows "list_all2 (tree_for sha2 es) as trees"
  using assms(1)
proof (induction as arbitrary: trees)
  case (Cons s as)
  then obtain t b trees' where t: "insert_outputs sha2 (as_id s) es Rsmst_new = Ok t" "Rsmst_build sha2 t = Ok b"
    "root_sum b = as_value s" "split_trees sha2 es as = Ok trees'" "trees = (as_id s, b) # trees'"
    by (auto simp: result_simps split: if_splits)
  have "inserted sha2 (allocation (as_id s) es) t"
    using insert_outputs_inserted [OF t(1) inserted_new assms(2)] by simp
  then show ?case using t Cons.IH by (auto simp: tree_for_def)
qed simp

lemma tree_found:
  assumes trees: "list_all2 (tree_for sha2 es) as trees" and get: "find (\<lambda>s. as_id s = i) as \<noteq> None"
  shows "\<exists>k b. iter_position (\<lambda>s. as_id s = i) as = Some k \<and> k < length as \<and> k < length trees \<and>
    find (\<lambda>(j, _). j = i) trees = Some (trees ! k) \<and> trees ! k = (i, b) \<and> tree_for sha2 es (as ! k) (i, b)"
  using trees get
proof (induction as trees rule: list_all2_induct)
  case (Cons s as tr trees)
  obtain b where tr: "tr = (as_id s, b)" "tree_for sha2 es s (as_id s, b)"
    using Cons.hyps(1) by (cases tr) (auto simp: tree_for_def)
  show ?case
  proof (cases "as_id s = i")
    case True
    then show ?thesis using tr by auto
  next
    case False
    then obtain k b where "iter_position (\<lambda>s. as_id s = i) as = Some k" "k < length as" "k < length trees"
      "find (\<lambda>(j, _). j = i) trees = Some (trees ! k)" "trees ! k = (i, b)" "tree_for sha2 es (as ! k) (i, b)"
      using Cons by auto
    then show ?thesis using False tr(1) by (intro exI [of _ "Suc k"] exI [of _ b]) simp
  qed
qed simp

lemma allocation_in:
  assumes "(rq, t, com) \<in> set es" "PaymentAssetCollection_wf (so_assets (rq_payload rq))"
    "a \<in> set (pc_assets (so_assets (rq_payload rq)))"
  shows "(tid_bytes t, com, as_value a) \<in> set (allocation (as_id a) es)"
proof -
  have "find (\<lambda>x. as_id x = as_id a) (pc_assets (so_assets (rq_payload rq))) = Some a"
  proof -
    have d: "distinct (map as_id (pc_assets (so_assets (rq_payload rq))))" by (rule wf_ids_distinct [OF assms(2)])
    obtain b where b: "find (\<lambda>x. as_id x = as_id a) (pc_assets (so_assets (rq_payload rq))) = Some b"
      using assms(3) by (cases "find (\<lambda>x. as_id x = as_id a) (pc_assets (so_assets (rq_payload rq)))") (auto simp: find_None_iff)
    then have "b \<in> set (pc_assets (so_assets (rq_payload rq)))" "as_id b = as_id a"
      by (auto simp: find_Some_iff)
    then have "b = a" using d assms(3) by (auto simp: distinct_map dest: inj_onD)
    with b show ?thesis by simp
  qed
  then show ?thesis using assms(1) by (force simp: allocation_def PaymentAssetCollection_get_def)
qed

text \<open>Every proof that is handed out verifies against the root of its asset with the source amount.\<close>

lemma output_proof_verifies:
  assumes trees: "list_all2 (tree_for sha2 es) (pc_assets src) trees"
    and e: "(rq, t, com) \<in> set es" "entry_ok sha2 token src dec (rq, t, com)" "decodes_wf dec"
    and a: "a \<in> set (pc_assets (so_assets (rq_payload rq)))" and p: "output_proof trees t a = Ok p"
  shows "\<exists>k. iter_position (\<lambda>s. as_id s = as_id a) (pc_assets src) = Some k \<and>
    RsmstInclusionProof_verify sha2 p (tid_bytes t) com (as_value a) (map (root_hash \<circ> snd) trees ! k) =
      Some (as_value (pc_assets src ! k))"
proof -
  have "PaymentAssetCollection_get src (as_id a) \<noteq> None" and wf: "PaymentAssetCollection_wf (so_assets (rq_payload rq))"
    using e(2,3) a by (auto simp: entry_ok_def Let_def decodes_wf_def)
  then obtain k b where k: "iter_position (\<lambda>s. as_id s = as_id a) (pc_assets src) = Some k" "k < length trees"
    "find (\<lambda>(j, _). j = as_id a) trees = Some (trees ! k)" "trees ! k = (as_id a, b)"
    "tree_for sha2 es (pc_assets src ! k) (as_id a, b)"
    using tree_found [OF trees] unfolding PaymentAssetCollection_get_def by blast
  obtain tree where tree: "inserted sha2 (allocation (as_id a) es) tree" "Rsmst_build sha2 tree = Ok b"
    and amount: "root_sum b = as_value (pc_assets src ! k)"
    using k(5) by (auto simp: tree_for_def)
  have "BuiltRsmst_proof b (tid_bytes t) = Some p"
    using p k(3,4) by (cases "BuiltRsmst_proof b (tid_bytes t)") (auto simp: output_proof_def)
  then have "RsmstInclusionProof_verify sha2 p (tid_bytes t) com (as_value a) (root_hash b) = Some (root_sum b)"
    using built_proofs_verify [OF tree allocation_in [OF e(1) wf a]] by auto
  then show ?thesis using k amount by auto
qed

lemma TokenId_derive_length: "sha2_lengths sha2 \<Longrightarrow> length (tid_bytes (TokenId_derive sha2 n salt)) = 32"
  by (simp add: TokenId_derive_def sha2_lengths_def finalize_def update_def)

lemma list_all2_rightD: "list_all2 P xs ys \<Longrightarrow> y \<in> set ys \<Longrightarrow> \<exists>x. P x y"
  by (induction rule: list_all2_induct) auto

lemma built_root_length:
  assumes "sha2_lengths sha2" "inserted sha2 es t" "Rsmst_build sha2 t = Ok b"
  shows "length (root_hash b) = 32"
proof -
  have "es \<noteq> []" using build_result [OF assms(2)] assms(3) by blast
  then obtain key data v where "(key, data, v) \<in> set es" by (cases es) auto
  then obtain p where "RsmstInclusionProof_verify sha2 p key data v (root_hash b) = Some (root_sum b)"
    using built_proofs_verify [OF assms(2,3)] by blast
  from alloc_node_length [OF assms(1) verify_alloc [OF this]] show ?thesis .
qed

theorem build_split_outputs:
  assumes len: "sha2_lengths sha2" and dec: "decodes_wf dec"
    and ok: "build_split sha2 rand token src dec rqs mk ex = Ok sp" and t: "st \<in> set (sp_tokens sp)"
  shows "\<exists>m. SplitManifest_wf m \<and> length (sm_roots m) = length (pc_assets src) \<and>
    tr_data (sb_transaction (sp_burn sp)) = Some (SplitManifest_to_cbor m) \<and>
    tr_recipient (sb_transaction (sp_burn sp)) = BurnPredicate_to_encoded \<lparr>bp_reason = reason_hash sha2 m\<rparr> \<and>
    sk_network_id st = mt_network_id (cm_transaction (tk_genesis token)) \<and>
    sk_token_type st = mt_token_type (cm_transaction (tk_genesis token)) \<and>
    dec (sk_payload st) = Ok (sk_assets st) \<and> length (sk_proofs st) = length (pc_assets (sk_assets st)) \<and>
    (let i = TokenId_derive sha2 (sk_network_id st) (sk_salt st)
     in check_allocations sha2 (pc_assets src) (sm_roots m) (tid_bytes i)
          (split_output_commitment sha2 (mt_token_id (cm_transaction (tk_genesis token))) (sk_network_id st)
            (sk_recipient st) (sk_salt st) i (sk_token_type st) (sk_payload st))
          (zip (pc_assets (sk_assets st)) (sk_proofs st)) = Ok ())"
proof -
  let ?net = "mt_network_id (cm_transaction (tk_genesis token))"
  obtain es trees m toks where es: "split_entries sha2 token src dec rqs [] = Ok es"
    and trees: "split_trees sha2 es (pc_assets src) = Ok trees"
    and m: "SplitManifest_create (map (root_hash \<circ> snd) trees) = Ok m"
    and toks: "rmap (split_token ?net trees) es = Ok toks" "sp_tokens sp = toks"
    and burn: "tr_data (sb_transaction (sp_burn sp)) = Some (SplitManifest_to_cbor m)"
      "tr_recipient (sb_transaction (sp_burn sp)) = BurnPredicate_to_encoded \<lparr>bp_reason = reason_hash sha2 m\<rparr>"
    using ok by (auto simp: build_split_def Let_def result_simps case_prod_beta)
  have eok: "\<forall>e\<in>set es. entry_ok sha2 token src dec e" using split_entries_ok [OF es] by simp
  have "\<forall>(rq, k, com)\<in>set es. length (tid_bytes k) = 32"
    using eok TokenId_derive_length [OF len] by (auto simp: entry_ok_def Let_def)
  note all = split_trees_for [OF trees this]
  obtain rq i com where e: "(rq, i, com) \<in> set es" and st: "split_token ?net trees (rq, i, com) = Ok st"
    using toks t by (auto simp: rmap_Inr_iff list_all2_conv_all_nth in_set_conv_nth)
       (metis nth_mem prod_cases3)
  obtain ps where ps: "rmap (output_proof trees i) (pc_assets (so_assets (rq_payload rq))) = Ok ps"
    and stf: "sk_network_id st = ?net" "sk_recipient st = rq_recipient rq" "sk_token_type st = rq_token_type rq"
      "sk_salt st = rq_salt rq" "sk_assets st = so_assets (rq_payload rq)" "sk_payload st = so_bytes (rq_payload rq)"
      "sk_proofs st = ps"
    using st by (auto simp: split_token_def result_simps)
  note ent = bspec [OF eok e]
  have roots: "sm_roots m = map (root_hash \<circ> snd) trees" using m by (simp add: manifest_create_iff)
  have "check_allocations sha2 (pc_assets src) (sm_roots m) (tid_bytes i) com
      (zip (pc_assets (so_assets (rq_payload rq))) ps) = Ok ()"
    unfolding check_allocations_iff roots
    using ps output_proof_verifies [OF all e ent dec] set_zip_leftD
    by (fastforce simp: rmap_Inr_iff list_all2_iff)
  moreover have "SplitManifest_wf m"
  proof -
    have "length (root_hash (snd tr)) = 32" if "tr \<in> set trees" for tr
      using list_all2_rightD [OF all that] built_root_length [OF len] by (cases tr) (auto simp: tree_for_def)
    then show ?thesis using m by (auto simp: manifest_create_iff SplitManifest_wf_def)
  qed
  ultimately show ?thesis
    using burn stf ent roots all ps
    by (intro exI [of _ m]) (auto simp: entry_ok_def Let_def rmap_Inr_iff dest: list_all2_lengthD)
qed

section \<open>A split verifies\<close>

text \<open>A mint that carries out an output of a split, after the burn has been appended to the source.\<close>

definition carries_out :: "sha2 \<Rightarrow> 'p k256 \<Rightarrow> SplitToken \<Rightarrow> MintTransaction \<Rightarrow> bool" where
  "carries_out sha2 ec st mint \<longleftrightarrow> (\<exists>j ex. MintTransaction_create sha2 ec (sk_network_id st) (sk_recipient st)
     (sk_token_type st) (sk_salt st) (Some (sk_payload st)) j ex = Ok mint)"

definition burns :: "Split \<Rightarrow> Token \<Rightarrow> Token \<Rightarrow> bool" where
  "burns sp token burned \<longleftrightarrow> tk_genesis burned = tk_genesis token \<and>
     (\<exists>ct. tk_transactions burned = tk_transactions token @ [ct] \<and> ct_transaction ct = sb_transaction (sp_burn sp))"

lemma carries_out_fields:
  assumes "carries_out sha2 ec st mint"
  shows "mt_network_id mint = sk_network_id st" "mt_recipient mint = sk_recipient st" "mt_token_type mint = sk_token_type st"
    "mt_salt mint = sk_salt st" "mt_data mint = Some (sk_payload st)"
    "mt_token_id mint = TokenId_derive sha2 (sk_network_id st) (sk_salt st)"
  using assms by (auto simp: carries_out_def MintTransaction_create_def Let_def result_simps)

theorem build_split_accepted:
  assumes len: "sha2_lengths sha2" and dec: "decodes_wf dec"
    and ok: "build_split sha2 rand token src dec rqs mk ex = Ok sp"
    and source: "holds_assets l dec (cm_transaction (tk_genesis token)) src"
    and st: "st \<in> set (sp_tokens sp)" "carries_out sha2 ec st mint" and burned: "burns sp token burned"
    and lim: "length (sk_payload st) \<le> max_input_bytes l" "accepts l (the (tr_data (sb_transaction (sp_burn sp))))"
  shows "split_evidence sha2 l dec mint burned (sk_proofs st)"
proof -
  obtain m where m: "SplitManifest_wf m" "length (sm_roots m) = length (pc_assets src)"
      "tr_data (sb_transaction (sp_burn sp)) = Some (SplitManifest_to_cbor m)"
      "tr_recipient (sb_transaction (sp_burn sp)) = BurnPredicate_to_encoded \<lparr>bp_reason = reason_hash sha2 m\<rparr>"
      "sk_network_id st = mt_network_id (cm_transaction (tk_genesis token))"
      "sk_token_type st = mt_token_type (cm_transaction (tk_genesis token))"
      "dec (sk_payload st) = Ok (sk_assets st)" "length (sk_proofs st) = length (pc_assets (sk_assets st))"
    and ch: "let i = TokenId_derive sha2 (sk_network_id st) (sk_salt st)
     in check_allocations sha2 (pc_assets src) (sm_roots m) (tid_bytes i)
          (split_output_commitment sha2 (mt_token_id (cm_transaction (tk_genesis token))) (sk_network_id st)
            (sk_recipient st) (sk_salt st) i (sk_token_type st) (sk_payload st))
          (zip (pc_assets (sk_assets st)) (sk_proofs st)) = Ok ()"
    using build_split_outputs [OF len dec ok st(1)] by blast
  note f = carries_out_fields [OF st(2)]
  have acc: "accepts l (SplitManifest_to_cbor m)" using lim(2) m(3) by simp
  then have "max_input_bytes l < 2 ^ 64" by (simp add: accepts_def)
  then have "SplitManifest_from_cbor_bytes (SplitManifest_to_cbor m) l = Ok m"
    using manifest_bytes_iff m(1) acc by blast
  then have "burned_to sha2 l burned m"
    using burned m(3,4) accepts_length [OF acc] unfolding burned_to_def burns_def by auto
  moreover have "holds_assets l dec mint (sk_assets st)" using f(5) lim(1) m(7) by (simp add: holds_assets_def)
  moreover have "check_allocations sha2 (pc_assets src) (sm_roots m) (tid_bytes (mt_token_id mint))
      (mint_commitment sha2 (mt_token_id (cm_transaction (tk_genesis token))) mint)
      (zip (pc_assets (sk_assets st)) (sk_proofs st)) = Ok ()"
    using ch f by (simp add: mint_commitment_def Let_def)
  moreover have "tk_genesis burned = tk_genesis token" using burned by (simp add: burns_def)
  ultimately show ?thesis
    using source f(1,3) m(2,5,6,8) unfolding split_evidence_def Let_def by (intro conjI exI) auto
qed

end
