(* ===== verification/Sample.thy ===== *)
theory Sample
  imports Split Non_Inclusion Token_Wire
begin

text \<open>
  A concrete token for the instances of the theorems: digests and curve operations are constant
  functions, one validator signs, and the aggregation tree has a single leaf.
\<close>

definition zeros :: "nat \<Rightarrow> bytes" where "zeros n = replicate n 0"

definition sample_sha2 :: sha2 where
  "sample_sha2 a x = zeros (alg_length a)"

definition sample_point :: bytes where "sample_point = replicate 33 2"

definition sample_ec :: "unit k256" where
  "sample_ec = \<lparr>k_sec1_valid = \<lambda>_. True, k_from_slice = \<lambda>_. Some (1, 1), k_high_s = \<lambda>_. False, k_order = 7,
     k_decompress = \<lambda>_ _. Some (), k_reduce_bytes = \<lambda>_. 0, k_invert = Some, k_mul = \<lambda>_ _. 0, k_neg = id,
     k_lincomb = \<lambda>_ _ _ _. (), k_generator = (), k_is_identity = \<lambda>_. False, k_compressed = \<lambda>_. sample_point,
     k_secret_point = \<lambda>_. Some (), k_sign = \<lambda>_ _. (zeros 64, 0)\<rparr>"

definition sample_key :: PublicKey where "sample_key = \<lparr>pk_bytes = sample_point\<rparr>"

definition sample_network :: NetworkId where "sample_network = \<lparr>net_id = 3\<rparr>"

definition sample_tb :: RootTrustBase where
  "sample_tb = \<lparr>tb_version = 0, tb_network_id = sample_network, tb_epoch = 0, tb_epoch_start_round = 0,
     tb_root_nodes = [\<lparr>tn_node_id = [1], tn_signing_key = sample_key, tn_stake = 1\<rparr>], tb_quorum_threshold = 1\<rparr>"

definition sample_seal :: UnicitySeal where
  "sample_seal = \<lparr>us_network_id = sample_network, us_root_chain_round_number = 1, us_epoch = 0,
     us_timestamp = 1681971084, us_previous_hash = None, us_hash = zeros 32, us_signatures = [([1], zeros 65)]\<rparr>"

definition sample_ir :: InputRecord where
  "sample_ir = \<lparr>ir_round_number = 1, ir_epoch = 0, ir_previous_hash = None, ir_hash = Some (zeros 32),
     ir_summary_value = Some [], ir_timestamp = 9, ir_block_hash = Some (zeros 32), ir_sum_of_earned_fees = 0,
     ir_executed_transactions_hash = None\<rparr>"

definition sample_uc :: UnicityCertificate where
  "sample_uc = \<lparr>uc_input_record = sample_ir, uc_technical_record_hash = Some (zeros 32),
     uc_shard_configuration_hash = zeros 32,
     uc_shard_tree_certificate = \<lparr>stc_shard = ShardId_root, stc_sibling_hash_list = []\<rparr>,
     uc_unicity_tree_certificate = \<lparr>utc_partition_identifier = 7, utc_steps = []\<rparr>, uc_unicity_seal = sample_seal\<rparr>"

definition sample_predicate :: EncodedPredicate where
  "sample_predicate = SignaturePredicate_to_encoded \<lparr>sp_public_key = sample_key\<rparr>"

definition sample_assets :: PaymentAssetCollection where
  "sample_assets = \<lparr>pc_assets = [\<lparr>as_id = \<lparr>aid_bytes = [7]\<rparr>, as_value = 5\<rparr>]\<rparr>"

definition sample_type :: TokenType where "sample_type = \<lparr>tt_bytes = [4]\<rparr>"

text \<open>A mint of the sample assets with the given data and justification.\<close>

definition sample_mint :: "bytes option \<Rightarrow> bytes option \<Rightarrow> MintTransaction" where
  "sample_mint data j = \<lparr>mt_network_id = sample_network, mt_recipient = sample_predicate, mt_expires_at = None,
     mt_salt = \<lparr>salt_bytes = zeros 32\<rparr>, mt_token_type = sample_type, mt_justification = j, mt_data = data,
     mt_token_id = \<lparr>tid_bytes = zeros 32\<rparr>, mt_lock_script = sample_predicate,
     mt_source_state = \<lparr>mts_hash = sha256 sample_sha2 []\<rparr>\<rparr>"

definition sample_cd :: CertificationData where
  "sample_cd = \<lparr>cd_lock_script = sample_predicate, cd_source_state_hash = sha256 sample_sha2 [],
     cd_transaction_hash = sha256 sample_sha2 [], cd_expires_at = None, cd_unlock_script = zeros 65\<rparr>"

definition sample_proof :: InclusionProof where
  "sample_proof = \<lparr>ip_certification_data = sample_cd, ip_reference_time = 5,
     ip_inclusion_certificate = \<lparr>ic_bitmap = zeros 32, ic_siblings = []\<rparr>, ip_unicity_certificate = sample_uc\<rparr>"

definition sample_genesis :: "bytes option \<Rightarrow> bytes option \<Rightarrow> CertifiedMintTransaction" where
  "sample_genesis data j = \<lparr>cm_transaction = sample_mint data j, cm_inclusion_proof = sample_proof\<rparr>"

definition sample_token :: Token where
  "sample_token = \<lparr>tk_genesis = sample_genesis None None, tk_transactions = []\<rparr>"

definition sample_coin :: Token where
  "sample_coin = \<lparr>tk_genesis = sample_genesis (Some (PaymentAssetCollection_to_cbor sample_assets)) None,
     tk_transactions = []\<rparr>"

section \<open>The sample verifies\<close>

lemma length_zeros [simp]: "length (zeros n) = n"
  by (simp add: zeros_def)

lemma sample_sha2_lengths: "sha2_lengths sample_sha2"
  by (simp add: sha2_lengths_def sample_sha2_def)

lemma sample_hash [simp]: "sample_sha2 a x = zeros (alg_length a)"
  by (simp add: sample_sha2_def)

lemma sample_public_key: "PublicKey_from_bytes sample_ec sample_point = Ok sample_key"
  by (simp add: PublicKey_from_bytes_def sample_ec_def sample_key_def sample_point_def)

lemma sample_minter: "Minter_public_key sample_sha2 sample_ec i = Ok sample_key"
  using sample_public_key by (simp add: Minter_public_key_def Let_def) (simp add: sample_ec_def)

lemma sample_signature: "length h = 32 \<Longrightarrow> sig_verify sample_ec \<lparr>sig_bytes = zeros 64, sig_recovery = 0\<rparr> h sample_key"
  by (simp add: sig_verify_def recover_point_def canonical_def sample_ec_def sample_key_def)

lemma sample_signature_decode: "Signature_decode (zeros 65) = Ok \<lparr>sig_bytes = zeros 64, sig_recovery = 0\<rparr>"
  by (simp add: Signature_decode_def Signature_new_def zeros_def)

lemma bit_at_zeros: "i < 8 * n \<Longrightarrow> \<not> bit_at (zeros n) i"
  by (simp add: bit_at_bit zeros_def less_mult_imp_div_less mult.commute)

lemma fold_depths_skip:
  "(\<And>d. d \<in> set ds \<Longrightarrow> \<not> bit_at bm d) \<Longrightarrow> fold_depths sha2 bm sibs t k ds st = Some st"
  by (induction sha2 bm sibs t k ds st rule: fold_depths.induct) auto

lemma sample_fold: "fold_certificate_path sample_sha2 (zeros 32) [] k t v = Some \<lparr>dh_algorithm = Sha256, dh_data = zeros 32\<rparr>"
proof -
  have "fold_depths sample_sha2 (zeros 32) [] k t (rev [0..<256]) st = Some st" for st
    by (rule fold_depths_skip) (simp add: bit_at_zeros)
  then show ?thesis by (simp add: fold_certificate_path_def KEY_BITS_def finalize_def)
qed

lemma sample_path: "InclusionCertificate_verify sample_sha2 \<lparr>ic_bitmap = zeros 32, ic_siblings = []\<rparr> i v
    \<lparr>dh_algorithm = Sha256, dh_data = zeros 32\<rparr>"
  by (simp add: InclusionCertificate_verify_iff sample_fold)

lemma sample_uc_valid: "uc_valid sample_sha2 sample_ec sample_tb sample_uc"
proof -
  have "valid_signers sample_ec sample_tb (zeros 32) [([1], zeros 65)] = {[1]}"
  proof -
    have "signature_ok sample_ec sample_tb (zeros 32) ([1], zeros 65)"
      using sample_signature [of "zeros 32"] sample_signature_decode
      by (simp add: signature_ok_def signing_key_def sample_tb_def)
    then show ?thesis by (simp add: valid_signers_Cons) (simp add: valid_signers_def)
  qed
  then show ?thesis
    by (simp add: uc_valid_def sample_uc_def AGGREGATION_PARTITION_ID_def check_body_def sample_ir_def Let_def
        opt_or_empty_def check_seal_shape_def sample_seal_def GENESIS_TIME_def computed_seal_hash_def
        shard_tree_root_hash_def ShardId_root_def compute_root_hash_def validate_def sample_tb_def
        MAX_ROOT_NODES_def MAX_NODE_ID_BYTES_def UnicitySeal_calculate_hash_def finalize_def zeros_def)
qed

lemma sample_proof_valid:
  assumes "tx_lock_script tx = sample_predicate" "tx_source_state_hash tx = sha256 sample_sha2 []" "tx_expires_at tx = None"
  shows "proof_valid sample_sha2 sample_ec sample_tb tx sample_proof"
proof -
  have "sample_cd = CertificationData_from_transaction sample_sha2 tx (zeros 65)"
    using assms by (simp add: sample_cd_def CertificationData_from_transaction_def calculate_transaction_hash_def sha256_def)
  moreover have "unlocked sample_sha2 sample_ec tx (zeros 65)"
    using signature_predicate_read [of sample_ec sample_key] sample_public_key sample_signature_decode sample_signature assms
    by (simp add: unlocked_def sample_predicate_def sample_key_def signature_unlock_message_def)
  moreover have "state_proved sample_sha2 sample_proof i h" for i h
    using sample_path by (simp add: state_proved_def sample_proof_def sample_uc_def sample_ir_def)
  moreover have "ip_certification_data sample_proof = sample_cd" "ip_unicity_certificate sample_proof = sample_uc"
    "ip_reference_time sample_proof = 5" "cd_unlock_script sample_cd = zeros 65"
    "ir_timestamp (uc_input_record sample_uc) = 9" "stc_shard (uc_shard_tree_certificate sample_uc) = ShardId_root"
    by (simp_all add: sample_proof_def sample_cd_def sample_uc_def sample_ir_def)
  ultimately show ?thesis
    using sample_uc_valid assms(3) by (simp add: proof_valid_def Let_def ShardId_root_def)
qed

lemma sample_minted: "minted sample_sha2 sample_ec sample_tb (sample_genesis data j)"
  using sample_proof_valid [of "mint_view sample_sha2 (sample_mint data j)"] sample_minter
  by (simp add: minted_def sample_genesis_def sample_mint_def mint_view_def sample_proof_def sample_cd_def
      sample_predicate_def sample_tb_def)

lemma sample_history: "history_ok sample_sha2 sample_ec sample_tb \<lparr>tk_genesis = sample_genesis data j, tk_transactions = []\<rparr>"
  by (simp add: history_ok_def sample_minted)

lemma sample_seals: "token_seals \<lparr>tk_genesis = sample_genesis data j, tk_transactions = []\<rparr> = {sample_seal}"
  by (simp add: token_seals_def token_proofs_def sample_genesis_def sample_proof_def sample_uc_def)

lemma sample_token_eq: "sample_token = \<lparr>tk_genesis = sample_genesis None None, tk_transactions = []\<rparr>"
  by (simp add: sample_token_def)

section \<open>A payment\<close>

lemma sample_assets_wf: "PaymentAssetCollection_wf sample_assets"
  by (simp add: PaymentAssetCollection_wf_def sample_assets_def Asset_wf_def MAX_PAYMENT_ASSETS_def MAX_ASSET_ID_BYTES_def
      is_valid_amount_iff)

lemma encode_bytes_enc: "encode_byte_string s = enc (Str major_BYTES s)"
  by (simp add: encode_byte_string_def push_head_Nil)

lemma encode_list_enc: "encode_array (map enc vs) = enc (Arr vs)"
  by (simp add: encode_array_enc)

lemma small_amount: "0 < n \<Longrightarrow> n < 256 \<Longrightarrow> encode_amount n = [word_of_nat n]"
  by (simp add: encode_amount_def biguint_to_bytes_be.simps [of n])

definition sample_payload :: bytes where
  "sample_payload = PaymentAssetCollection_to_cbor sample_assets"

lemma sample_payload_accepted: "accepts DEFAULT_limits sample_payload"
proof -
  let ?v = "Arr [Arr [Str major_BYTES [7], Str major_BYTES [5]]]"
  have "sample_payload = enc ?v"
    by (simp add: sample_payload_def PaymentAssetCollection_to_cbor_def sample_assets_def Asset_to_cbor_def
        AssetId_to_cbor_def small_amount encode_array_def encode_byte_string_def push_head_Nil)
  moreover have "item_fits DEFAULT_limits ?v"
    using length_head_le [of major_ARRAY 1] length_head_le [of major_ARRAY 2] length_head_le [of major_BYTES 1]
    by (simp add: item_fits_def DEFAULT_limits_def major_defs)
  ultimately show ?thesis
    unfolding accepts_iff by (intro conjI exI [of _ ?v]) (simp_all add: DEFAULT_limits_def)
qed

lemma sample_payload_decodes: "PaymentAssetCollection_from_cbor_bytes sample_payload = Ok sample_assets"
  using sample_assets_wf sample_payload_accepted by (simp add: payment_bytes_iff sample_payload_def)

definition sample_registry :: MintJustificationRegistry where
  "sample_registry =
     \<lparr>mr_verifiers = [SPLIT_MINT_JUSTIFICATION_TAG \<mapsto>
        SplitMintJustificationVerifier_verify sample_sha2 sample_ec SplitMintJustificationVerifier_new],
      mr_data_verifiers = [tt_bytes sample_type \<mapsto>
        PaymentDataVerifier_verify (PaymentDataVerifier_new sample_type (\<lambda>_ _. Ok ()))]\<rparr>"

lemma sample_registry_registered:
  "rbind (MintJustificationRegistry_register MintJustificationRegistry_new
       (split_verifier sample_sha2 sample_ec SplitMintJustificationVerifier_new))
     (\<lambda>r. MintJustificationRegistry_register_token_data r
        (payment_verifier (PaymentDataVerifier_new sample_type (\<lambda>_ _. Ok ())))) = Ok sample_registry"
  by (simp add: MintJustificationRegistry_register_def MintJustificationRegistry_new_def split_verifier_def
      MintJustificationRegistry_register_token_data_def payment_verifier_def PaymentDataVerifier_new_def
      sample_registry_def)

lemma sample_payment_registry:
  "payment_registry sample_sha2 sample_ec PaymentAssetCollection_from_cbor_bytes sample_registry"
  by (auto simp: payment_registry_def sample_registry_def SplitMintJustificationVerifier_new_def
      PaymentDataVerifier_new_def)

lemma sample_coin_eq: "sample_coin = \<lparr>tk_genesis = sample_genesis (Some sample_payload) None, tk_transactions = []\<rparr>"
  by (simp add: sample_coin_def sample_payload_def)

lemma sample_coin_lineage: "lineage sample_sha2 sample_ec l sample_coin = {sample_coin}"
proof -
  have "t = sample_coin" if "t \<in> lineage sample_sha2 sample_ec l sample_coin" for t
    using that by induction (auto simp: sample_coin_eq sample_genesis_def sample_mint_def)
  then show ?thesis using lineage_self by blast
qed

lemma sample_coin_seals: "inj_on (seal_key sample_sha2) (lineage_seals sample_sha2 sample_ec l sample_coin)"
  by (simp add: lineage_seals_def sample_coin_lineage) (simp add: sample_coin_eq sample_seals)

lemma sample_tb_valid: "validate sample_tb = Ok ()"
  using sample_uc_valid by (simp add: uc_valid_def)

lemma sample_coin_verifies:
  "verify_payment_token sample_sha2 sample_ec sample_coin sample_tb sample_registry PaymentAssetCollection_from_cbor_bytes =
     Ok sample_assets"
proof -
  let ?policy = "VerificationPolicy_default\<lparr>vp_require_token_data_verifier := True\<rparr>"
  let ?I = "context_ok sample_sha2 sample_ec sample_tb {sample_seal} DEFAULT_limits"
  have reg: "yields ?I (sbind (MintJustificationRegistry_verify_token_data sample_registry sample_tb ?policy emb (tk_genesis sample_coin) c)
      (\<lambda>_ c. MintJustificationRegistry_verify_genesis sample_registry sample_tb ?policy emb (tk_genesis sample_coin) c)) (Ok ())"
    if "?I c" for c emb
    using that sample_payload_decodes accepts_length [OF sample_payload_accepted]
    by (simp add: yields_def MintJustificationRegistry_verify_token_data_def MintJustificationRegistry_verify_genesis_def
        sample_coin_eq sample_genesis_def sample_mint_def sample_registry_def PaymentDataVerifier_verify_def
        PaymentDataVerifier_new_def VerificationPolicy_default_def VerificationLimits_DEFAULT_def)
  have genesis: "yields ?I (verify_genesis sample_sha2 sample_ec sample_tb sample_registry ?policy emb sample_coin c) (Ok ())"
    if "?I c" for c emb
    using verify_genesis_split [OF that _ _ reg] sample_minted [of "Some sample_payload" None]
    by (simp add: sample_coin_eq sample_seals genesis_check_iff [THEN iffD2])
  have none: "verify_transfers sample_sha2 sample_ec 0 [] = Pair (Ok ())"
    by (rule ext) simp
  have "yields ?I (verify_token_body sample_sha2 sample_ec sample_tb sample_registry ?policy emb sample_coin c) (Ok ())"
    if "?I c" for c emb
    using yields_bind [OF genesis [OF that], where f = "\<lambda>_ c. verify_transfers sample_sha2 sample_ec 0 [] c" and g = "\<lambda>_. Ok ()"]
    by (simp add: verify_token_body_def sample_coin_eq yields_pure none)
  then have "fst (verify_token_with_memo_capacity sample_sha2 sample_ec sample_coin sample_tb sample_registry ?policy cap) = Ok ()"
    for cap
    using context_ok_new [of sample_sha2 sample_ec sample_tb "{sample_seal}" DEFAULT_limits cap]
    by (simp add: verify_token_with_memo_capacity_def verify_token_in_context_def yields_def sample_tb_valid
        split: prod.splits) (metis fst_conv)
  moreover have "mt_data (cm_transaction (tk_genesis sample_coin)) = Some sample_payload"
    by (simp add: sample_coin_eq sample_genesis_def sample_mint_def)
  ultimately show ?thesis
    using sample_payload_decodes
    by (simp add: verify_payment_token_def verify_token_with_policy_def verify_token_with_seal_stats_def Let_def)
qed

section \<open>A split\<close>

definition sample_request :: SplitTokenRequest where
  "sample_request = SplitTokenRequest_create sample_predicate sample_assets sample_type \<lparr>salt_bytes = zeros 32\<rparr>"

definition sample_manifest :: SplitManifest where
  "sample_manifest = \<lparr>sm_roots = [zeros 32]\<rparr>"

definition sample_output :: SplitToken where
  "sample_output = \<lparr>sk_network_id = sample_network, sk_recipient = sample_predicate, sk_token_type = sample_type,
     sk_salt = \<lparr>salt_bytes = zeros 32\<rparr>, sk_assets = sample_assets, sk_payload = sample_payload,
     sk_proofs = [\<lparr>rp_steps = []\<rparr>]\<rparr>"

definition sample_burn :: TransferTransaction where
  "sample_burn = \<lparr>tr_source_state_hash = mint_state_hash sample_sha2 (sample_mint (Some sample_payload) None),
     tr_lock_script = sample_predicate, tr_recipient = BurnPredicate_to_encoded \<lparr>bp_reason = zeros 32\<rparr>,
     tr_expires_at = None, tr_state_mask = zeros 32, tr_data = Some (SplitManifest_to_cbor sample_manifest)\<rparr>"

definition sample_split :: Split where
  "sample_split = \<lparr>sp_burn = \<lparr>sb_owner_predicate = \<lparr>bp_reason = zeros 32\<rparr>, sb_transaction = sample_burn,
     sb_manifest = SplitManifest_to_cbor sample_manifest\<rparr>, sp_tokens = [sample_output]\<rparr>"

definition sample_burned :: Token where
  "sample_burned = sample_coin\<lparr>tk_transactions := [\<lparr>ct_transaction = sample_burn, ct_inclusion_proof = sample_proof\<rparr>]\<rparr>"

lemma sample_token_id: "TokenId_derive sample_sha2 n s = \<lparr>tid_bytes = zeros 32\<rparr>"
  by (simp add: TokenId_derive_def finalize_def)

lemma sample_request_fields [simp]:
  "rq_token_type sample_request = sample_type" "rq_recipient sample_request = sample_predicate"
  "rq_salt sample_request = \<lparr>salt_bytes = zeros 32\<rparr>" "so_bytes (rq_payload sample_request) = sample_payload"
  "so_assets (rq_payload sample_request) = sample_assets"
  by (simp_all add: sample_request_def SplitTokenRequest_create_def SplitTokenRequest_create_with_payload_def
      SplitOutputPayload_bare_def sample_payload_def)

lemma sample_coin_fields [simp]:
  "cm_transaction (tk_genesis sample_coin) = sample_mint (Some sample_payload) None" "tk_transactions sample_coin = []"
  by (simp_all add: sample_coin_eq sample_genesis_def)

lemma sample_mint_fields [simp]:
  "mt_network_id (sample_mint data j) = sample_network" "mt_token_type (sample_mint data j) = sample_type"
  "mt_data (sample_mint data j) = data" "mt_recipient (sample_mint data j) = sample_predicate"
  "mt_justification (sample_mint data j) = j"
  by (simp_all add: sample_mint_def)

lemma sample_asset_get [simp]:
  "PaymentAssetCollection_get sample_assets \<lparr>aid_bytes = [7]\<rparr> = Some \<lparr>as_id = \<lparr>aid_bytes = [7]\<rparr>, as_value = 5\<rparr>"
  "pc_assets sample_assets = [\<lparr>as_id = \<lparr>aid_bytes = [7]\<rparr>, as_value = 5\<rparr>]"
  by (simp_all add: PaymentAssetCollection_get_def sample_assets_def)

lemma sample_leaf: "leaf_hash sample_sha2 k d 5 = Some (zeros 32)"
  by (simp add: leaf_hash_iff sha256_raw_def sha256_def)

lemma sample_tree:
  "insert_outputs sample_sha2 \<lparr>aid_bytes = [7]\<rparr> [(sample_request, \<lparr>tid_bytes = zeros 32\<rparr>, com)] Rsmst_new =
     Ok \<lparr>rt_leaves = [\<lparr>lf_key = zeros 32, lf_value = 5, lf_hash = zeros 32\<rparr>]\<rparr>"
  by (simp add: Rsmst_insert_def is_valid_amount_iff Rsmst_new_def sample_leaf)

lemma sample_build:
  "Rsmst_build sample_sha2 \<lparr>rt_leaves = [f]\<rparr> = Ok \<lparr>br_root = LeafNode f\<rparr>"
  by (simp add: Rsmst_build_def build_subtree.simps)

lemma sample_split_built:
  "build_split sample_sha2 (Ok (zeros 32)) sample_coin sample_assets PaymentAssetCollection_from_cbor_bytes
     [sample_request] (Some (zeros 32)) None = Ok sample_split"
  using sample_payload_decodes
  by (simp add: build_split_def Let_def sample_token_id sample_tree sample_build root_sum_def root_hash_def
      SplitManifest_create_def MAX_PAYMENT_ASSETS_def latest_state_def split_token_def output_proof_def
      BuiltRsmst_proof_def sample_split_def sample_output_def sample_burn_def sample_manifest_def reason_hash_def
      sha256_def del: insert_outputs.simps)

lemma sample_manifest_accepted: "accepts DEFAULT_limits (SplitManifest_to_cbor sample_manifest)"
proof -
  let ?v = "Tagged SPLIT_MANIFEST_TAG (Arr [Str major_BYTES (zeros 32)])"
  have "SplitManifest_to_cbor sample_manifest = enc ?v"
    by (simp add: SplitManifest_to_cbor_def sample_manifest_def encode_tag_def encode_array_def encode_byte_string_def push_head_Nil)
  moreover have "item_fits DEFAULT_limits ?v"
    using length_head_le [of major_TAG SPLIT_MANIFEST_TAG] length_head_le [of major_ARRAY 1] length_head_le [of major_BYTES 32]
    by (simp add: item_fits_def DEFAULT_limits_def major_defs)
  ultimately show ?thesis
    unfolding accepts_iff by (intro conjI exI [of _ ?v]) (simp_all add: DEFAULT_limits_def)
qed

lemma sample_burns: "burns sample_split sample_coin sample_burned"
  by (simp add: burns_def sample_burned_def sample_split_def)

definition sample_output_mint :: MintTransaction where
  "sample_output_mint = (sample_mint (Some sample_payload) None)
     \<lparr>mt_source_state := MintTransactionState_derive sample_sha2 \<lparr>tid_bytes = zeros 32\<rparr>\<rparr>"

lemma sample_carries_out: "carries_out sample_sha2 sample_ec sample_output sample_output_mint"
  unfolding carries_out_def MintTransaction_create_def Let_def sample_minter sample_token_id
  by (intro exI [of _ None]) (simp add: sample_output_def sample_output_mint_def sample_mint_def sample_predicate_def)

lemma sample_source: "holds_assets DEFAULT_limits PaymentAssetCollection_from_cbor_bytes (sample_mint (Some sample_payload) j) sample_assets"
  using sample_payload_decodes accepts_length [OF sample_payload_accepted] by (simp add: holds_assets_def)

lemma sample_output_assets: "mint_assets PaymentAssetCollection_from_cbor_bytes sample_output_mint = sample_assets"
  using sample_payload_decodes by (simp add: mint_assets_def sample_output_mint_def)

lemma sample_evidence:
  "split_evidence sample_sha2 DEFAULT_limits PaymentAssetCollection_from_cbor_bytes sample_output_mint sample_burned
     [\<lparr>rp_steps = []\<rparr>]"
  using build_split_accepted [OF sample_sha2_lengths default_decodes_wf sample_split_built _ _ sample_carries_out sample_burns,
      of DEFAULT_limits] sample_source sample_manifest_accepted accepts_length [OF sample_payload_accepted]
  by (simp add: sample_split_def sample_output_def sample_burn_def)

section \<open>An inclusion and an absence\<close>

text \<open>With constant digests one root proves both, which is the collision the theorems speak of.\<close>

definition sample_state :: StateId where
  "sample_state = \<lparr>sid_bytes = zeros 32\<rparr>"

definition sample_absent :: NonInclusionProof where
  "sample_absent = NonInclusionProof_new
     \<lparr>nic_body = Some \<lparr>nb_bitmap = zeros 32, nb_siblings = [], nb_terminal_key = replicate 32 1,
        nb_terminal_value = zeros 32\<rparr>\<rparr> sample_uc"

lemma sample_state_id: "StateId_derive sample_sha2 p h = sample_state"
  by (simp add: StateId_derive_def sample_state_def finalize_def)

lemma sample_certificate_wf: "InclusionCertificate_wf \<lparr>ic_bitmap = zeros 32, ic_siblings = []\<rparr>"
  by (simp add: InclusionCertificate_wf_def popcount_def count_ones_def zeros_def)

lemma sample_absent_wf: "NonInclusionCertificate_wf (np_certificate sample_absent)"
  by (simp add: NonInclusionCertificate_wf_def sample_absent_def NonInclusionProof_new_def popcount_def
      count_ones_def zeros_def)

lemma sample_included:
  "verify_inclusion_proof_for sample_sha2 sample_ec sample_tb sample_proof sample_state (ip_reference_time sample_proof) = Ok ()"
proof -
  let ?tx = "mint_view sample_sha2 (sample_mint None None)"
  have "transaction_check sample_sha2 sample_ec sample_tb sample_proof ?tx (ip_reference_time sample_proof) = Ok ()"
    unfolding transaction_check_iff by (rule sample_proof_valid) (simp_all add: mint_view_def sample_mint_def)
  then show ?thesis unfolding verify_inclusion_proof_for_eq
    by (auto simp: transaction_check_def sample_state_id result_simps Let_def split: if_splits)
qed

lemma sample_excluded:
  "verify_non_inclusion_at_snapshot sample_sha2 sample_ec sample_tb sample_absent sample_state NonInclusionContext_new =
     Ok (AbsentAtSnapshot sample_state (ni_snapshot sample_uc (Some (zeros 32))))"
proof -
  have "strict_valid sample_sha2 sample_ec sample_tb NonInclusionContext_new sample_uc"
    using sample_uc_valid
    by (simp add: strict_valid_def NonInclusionContext_new_def)
      (simp add: sample_uc_def sample_tb_def sample_seal_def ShardId_root_def)
  moreover have other: "replicate 32 1 \<noteq> zeros 32" by (simp add: zeros_def numeral_eq_Suc)
  have "ni_relation sample_sha2 sample_absent sample_state =
      Ok (AbsentAtSnapshot sample_state (ni_snapshot sample_uc (Some (zeros 32))))"
    unfolding ni_relation_absent_iff
    by (simp add: sample_absent_def NonInclusionProof_new_def relation_to_trusted_root_def authenticates_def
        terminal_matches_def sample_uc_def sample_ir_def ni_root_def sample_fold ShardId_root_def sample_state_def
        other)
  ultimately show ?thesis
    unfolding verify_non_inclusion_at_snapshot_eq non_inclusion_check_def
    by (simp add: sample_tb_valid sample_absent_def NonInclusionProof_new_def strict_check_iff [THEN iffD2])
qed

section \<open>Its wire form\<close>

lemma sample_uc_wf: "UnicityCertificate_wf sample_uc"
proof -
  have "utf8_valid [1]" by code_simp
  then show ?thesis
    by (simp add: UnicityCertificate_wf_def ShardTreeCertificate_wf_def UnicitySeal_wf_def sample_uc_def sample_seal_def
        sigs_wf_def sig_entries_def NetworkId_wf_def sample_network_def ShardId_wf_def ShardId_root_def
        div_ceil_8)
qed

lemma sample_proof_wf: "InclusionProof_wf sample_proof"
  using sample_uc_wf sample_certificate_wf sha256_wf_sha256 [OF sample_sha2_lengths]
  by (simp add: InclusionProof_wf_def sample_proof_def CertificationData_wf_def sample_cd_def)

lemma sample_mint_wf: "MintTransaction_wf sample_sha2 sample_ec (sample_mint data j)"
  by (simp add: MintTransaction_wf_def MintTransaction_create_def Let_def sample_minter sample_token_id)
    (simp add: sample_mint_def sample_predicate_def MintTransactionState_derive_def NetworkId_wf_def sample_network_def
      sha256_def)

lemma sample_token_wf: "Token_wf sample_sha2 sample_ec sample_token"
  by (simp add: Token_wf_def CertifiedMintTransaction_wf_def sample_token_def sample_genesis_def sample_proof_wf
      sample_mint_wf)

lemma length_head:
  "length (head m a) = (if a < 24 then 1 else if a \<le> 0xff then 2 else if a \<le> 0xffff then 3
     else if a \<le> 0xffffffff then 5 else 9)"
  by (simp add: head_def push_head_def)

lemma length_encodings:
  "length (encode_uint n) = length (head major_UINT n)"
  "length (encode_byte_string b) = length (head major_BYTES (word_of_nat (length b))) + length b"
  "length (encode_text_string b) = length (head major_TEXT (word_of_nat (length b))) + length b"
  "length (encode_tag t b) = length (head major_TAG t) + length b"
  "length (encode_array bs) = length (head major_ARRAY (word_of_nat (length bs))) + sum_list (map length bs)"
  "length (encode_map [(k, v)]) = length (head major_MAP 1) + length k + length v"
  by (simp_all add: encode_uint_def encode_byte_string_def encode_text_string_def encode_tag_def encode_array_def
      encode_map_def push_head_Nil length_concat sort_by_def)

lemmas wire_constants = INPUT_RECORD_TAG_def BFT_VERSION_def SHARD_TREE_CERTIFICATE_TAG_def UNICITY_TREE_CERTIFICATE_TAG_def
  UNICITY_SEAL_TAG_def UNICITY_CERTIFICATE_TAG_def INCLUSION_PROOF_TAG_def INCLUSION_PROOF_VERSION_def
  CERTIFICATION_DATA_TAG_def CERTIFICATION_DATA_VERSION_def TOKEN_TAG_def TOKEN_VERSION_def MINT_TRANSACTION_TAG_def
  MINT_TRANSACTION_VERSION_def ENCODED_PREDICATE_TAG_def encode_nullable_def encode_null_def TokenSalt_to_cbor_def
  TokenType_to_cbor_def sample_network_def sample_type_def ShardId_encode_def ShardId_root_def

lemma sample_predicate_length: "length (EncodedPredicate_to_cbor sample_predicate) < 60"
  by (simp add: EncodedPredicate_to_cbor_def sample_predicate_def SignaturePredicate_to_encoded_def sample_key_def
      sample_point_def length_encodings length_head wire_constants)

lemma sample_uc_length: "length (UnicityCertificate_to_cbor sample_uc) < 500"
  by (simp add: UnicityCertificate_to_cbor_def sample_uc_def UnicitySeal_to_cbor_eq sample_seal_def sig_entries_def
      UnicityTreeCertificate_to_cbor_def ShardTreeCertificate_to_cbor_def InputRecord_to_cbor_def sample_ir_def
      length_encodings length_head wire_constants)

lemma sample_proof_length: "length (InclusionProof_to_cbor sample_proof) < 900"
  using sample_uc_length sample_predicate_length
  by (simp add: InclusionProof_to_cbor_def sample_proof_def CertificationData_to_cbor_def sample_cd_def
      InclusionCertificate_encode_def length_encodings length_head wire_constants)

lemma sample_token_length: "length (Token_to_cbor sample_token) < 2000"
  using sample_proof_length sample_predicate_length
  by (simp add: Token_to_cbor_def sample_token_def CertifiedMintTransaction_to_cbor_def sample_genesis_def
      MintTransaction_to_cbor_def sample_mint_def length_encodings length_head wire_constants)

lemma sample_token_accepted: "\<exists>l. accepts l (Token_to_cbor sample_token)"
  using item_accepted [OF token_item [OF sample_token_wf]] sample_token_length by simp

lemma sample_mints_differ:
  "MintTransaction_to_cbor (sample_mint None None) \<noteq> MintTransaction_to_cbor (sample_mint (Some []) None)"
proof
  assume eq: "MintTransaction_to_cbor (sample_mint None None) = MintTransaction_to_cbor (sample_mint (Some []) None)"
  have "length (MintTransaction_to_cbor (sample_mint None None)) < 2 ^ 64"
    using sample_predicate_length
    by (simp add: MintTransaction_to_cbor_def sample_mint_def length_encodings length_head wire_constants)
  from mint.to_cbor_inj [OF sample_mint_wf sample_mint_wf eq this] show False by (simp add: sample_mint_def)
qed

lemma sample_seal_accepted: "\<exists>l. accepts l (UnicitySeal_to_cbor sample_seal)"
proof -
  have "length (UnicitySeal_to_cbor sample_seal) < 2 ^ 64"
    by (simp add: UnicitySeal_to_cbor_eq sample_seal_def sig_entries_def length_encodings length_head wire_constants)
  moreover have "UnicitySeal_wf sample_seal" using sample_uc_wf by (simp add: UnicityCertificate_wf_def sample_uc_def)
  ultimately show ?thesis using item_accepted [OF seal.encodes_item] by blast
qed

section \<open>A sum tree and a shard\<close>

definition sample_rsmst :: Rsmst where
  "sample_rsmst = \<lparr>rt_leaves = [entry_leaf sample_sha2 (zeros 32, [1], 5), entry_leaf sample_sha2 (replicate 32 1, [2], 7)]\<rparr>"

lemma sample_rsmst_inserted: "inserted sample_sha2 [(zeros 32, [1], 5), (replicate 32 1, [2], 7)] sample_rsmst"
proof -
  have other: "replicate 32 1 \<noteq> zeros 32" by (simp add: zeros_def numeral_eq_Suc)
  have "inserted sample_sha2 ([] @ [(zeros 32, [1], 5)]) \<lparr>rt_leaves = [entry_leaf sample_sha2 (zeros 32, [1], 5)]\<rparr>"
    by (rule inserted_insert [OF inserted_new]) (simp_all add: Rsmst_insert_iff Rsmst_new_def is_valid_amount_iff)
  from inserted_insert [OF this, of "replicate 32 1" "[2]" 7 sample_rsmst] other show ?thesis
    by (simp add: Rsmst_insert_iff is_valid_amount_iff sample_rsmst_def entry_leaf_def)
qed

lemma sample_rsmst_build: "\<exists>b. Rsmst_build sample_sha2 sample_rsmst = Ok b"
  unfolding build_result [OF sample_rsmst_inserted] by simp

lemma sample_shard_wf: "ShardId_wf \<lparr>sh_bits = [0xa0], sh_length = 3\<rparr>"
  by (rule ShardId_wfI [of "[]" 0 3 "[0xa0]" "0xa0", simplified]) (auto simp: less_Suc_eq_le [symmetric] numeral_eq_Suc less_Suc_eq)

lemma sample_preimage_length:
  "length (split_output_preimage \<lparr>tid_bytes = []\<rparr> sample_network sample_predicate \<lparr>salt_bytes = []\<rparr> \<lparr>tid_bytes = []\<rparr>
     sample_type []) < 2 ^ 64"
proof -
  have "length SPLIT_OUTPUT = 20" by (simp add: SPLIT_OUTPUT_def ascii_def)
  moreover have "a < 24 \<Longrightarrow> length (head m a) = 1" for m a by (simp add: length_head)
  ultimately show ?thesis
    using sample_predicate_length
      length_head_le [of major_BYTES "word_of_nat (length (EncodedPredicate_to_cbor sample_predicate))"]
    by (simp add: split_output_preimage_def length_encodings TokenId_to_cbor_def TokenSalt_to_cbor_def
        TokenType_to_cbor_def sample_type_def sample_network_def)
qed

end
