(* ===== verification/Sample_View.thy ===== *)
theory Sample_View
  imports Sample Consolidate
begin

text \<open>
  A concrete partition of two shards under the sample seal: its view, the enclosing certificate of the first
  shard, and the token of the samples consolidated from it.
\<close>

definition shard_0 :: ShardId where "shard_0 = \<lparr>sh_bits = [0], sh_length = 1\<rparr>"
definition shard_1 :: ShardId where "shard_1 = \<lparr>sh_bits = [0x80], sh_length = 1\<rparr>"

definition sample_topology :: PartitionTopology where "sample_topology = PartitionTopology_new [shard_1, shard_0]"

definition sample_leaf :: "ShardId \<Rightarrow> PartitionViewLeaf" where
  "sample_leaf s = \<lparr>lf_shard_id = s, lf_input_record = from_input_record sample_ir, lf_tr_hash = zeros 32,
     lf_shard_conf_hash = zeros 32\<rparr>"

definition sample_view :: PartitionView where
  "sample_view = \<lparr>pw_partition_id = 7, pw_leaves = [sample_leaf shard_0, sample_leaf shard_1]\<rparr>"

definition sample_enclosing :: UnicityCertificate where
  "sample_enclosing = sample_uc\<lparr>uc_shard_tree_certificate := \<lparr>stc_shard = shard_0, stc_sibling_hash_list = [zeros 32]\<rparr>\<rparr>"

lemma sample_order: "canonical_order sample_topology = Ok [shard_0, shard_1]"
  by code_simp

lemma sample_shards_decoded: "ShardId_decode [0x40] = Ok shard_0" "ShardId_decode [0xc0] = Ok shard_1"
  by code_simp+

lemma sample_shards_wf: "ShardId_wf shard_0" "ShardId_wf shard_1"
  using ShardId_encode_decode [OF sample_shards_decoded(1)] ShardId_encode_decode [OF sample_shards_decoded(2)]
  by simp_all

lemma encoded_lengths:
  "length (encode_uint n) \<le> 9" "length (encode_nullable x encode_byte_string) \<le> 9 + length (opt_or_empty x)"
  "length (encode_array bs) \<le> 9 + length (concat bs)" "length (encode_tag t b) \<le> 9 + length b"
  using length_head_le
  by (auto simp: encode_uint_def encode_nullable_def encode_byte_string_def encode_array_def encode_tag_def push_head_Nil
      opt_or_empty_def simple_heads split: option.split)

lemma sample_record_length: "length (PartitionViewInputRecord_to_cbor (from_input_record sample_ir)) \<le> 1024"
proof -
  let ?r = "from_input_record sample_ir"
  let ?n = "\<lambda>x. encode_nullable x encode_byte_string"
  let ?fs = "[encode_uint 1, encode_uint (pr_round_number ?r), encode_uint (pr_epoch ?r), ?n (pr_previous_hash ?r), ?n (pr_hash ?r),
    ?n (pr_summary_value ?r), encode_uint (pr_timestamp ?r), ?n (pr_block_hash ?r), encode_uint (pr_sum_of_earned_fees ?r),
    ?n (pr_executed_transactions_hash ?r)]"
  have u: "length (encode_uint n) \<le> 9" for n by (rule encoded_lengths)
  have o: "length (?n x) \<le> 41" if "length (opt_or_empty x) \<le> 32" for x using encoded_lengths(2) [of x] that by linarith
  have "length (?n (pr_previous_hash ?r)) \<le> 41" "length (?n (pr_hash ?r)) \<le> 41" "length (?n (pr_summary_value ?r)) \<le> 41"
    "length (?n (pr_block_hash ?r)) \<le> 41" "length (?n (pr_executed_transactions_hash ?r)) \<le> 41"
    by (intro o; simp add: from_input_record_def sample_ir_def opt_or_empty_def)+
  then have "length (concat ?fs) \<le> 300"
    using u [of 1] u [of "pr_round_number ?r"] u [of "pr_epoch ?r"] u [of "pr_timestamp ?r"] u [of "pr_sum_of_earned_fees ?r"]
    by simp
  then show ?thesis
    using encoded_lengths(3) [of ?fs] encoded_lengths(4) [of INPUT_RECORD_TAG "encode_array ?fs"]
    unfolding PartitionViewInputRecord_to_cbor_def by linarith
qed

lemma sample_leaf_check: "sh_length s \<le> 256 \<Longrightarrow> PartitionViewLeaf_check (sample_leaf s) = Ok ()"
  using sample_record_length
  by (simp add: PartitionViewLeaf_check_def PartitionViewInputRecord_check_def sample_leaf_def VIEW_HASH_LEN_def
      MAX_PARTITION_VIEW_SHARD_ID_BITS_def MAX_PARTITION_VIEW_IR_BYTES_def MAX_PARTITION_VIEW_SUMMARY_VALUE_BYTES_def Let_def)
    (simp add: from_input_record_def sample_ir_def opt_or_empty_def zeros_def)

lemma sample_bounds: "check_bounds sample_view = Ok ()"
  by (auto simp: check_bounds_iff sample_view_def shard_0_def shard_1_def intro!: sample_leaf_check)

lemma sample_shard_tree:
  "ShardTree_build sample_sha2 [(shard_0, zeros 32), (shard_1, zeros 32)] =
     Ok \<lparr>tree_nodes = [\<lparr>nd_hash = zeros 32, nd_parent = 2, nd_children = (NODE_NONE, NODE_NONE)\<rparr>,
         \<lparr>nd_hash = zeros 32, nd_parent = 2, nd_children = (NODE_NONE, NODE_NONE)\<rparr>,
         \<lparr>nd_hash = zeros 32, nd_parent = NODE_NONE, nd_children = (0, 1)\<rparr>],
       tree_leaves = [(shard_0, 0), (shard_1, 1)], tree_root = 2\<rparr>"
  by code_simp

definition sample_tree :: ShardTree where
  "sample_tree = \<lparr>tree_nodes = [\<lparr>nd_hash = zeros 32, nd_parent = 2, nd_children = (NODE_NONE, NODE_NONE)\<rparr>,
         \<lparr>nd_hash = zeros 32, nd_parent = 2, nd_children = (NODE_NONE, NODE_NONE)\<rparr>,
         \<lparr>nd_hash = zeros 32, nd_parent = NODE_NONE, nd_children = (0, 1)\<rparr>],
       tree_leaves = [(shard_0, 0), (shard_1, 1)], tree_root = 2\<rparr>"

lemma sample_view_wf: "PartitionView_wf sample_view"
  using sample_shards_wf by (simp add: PartitionView_wf_def sample_view_def sample_leaf_def)

lemma sample_leaf_hash: "view_leaf_hash sample_sha2 l = zeros 32"
  by (simp add: view_leaf_hash_def finalize_def)

lemma sample_leaf_fields [simp]:
  "lf_shard_id (sample_leaf s) = s" "lf_tr_hash (sample_leaf s) = zeros 32" "lf_shard_conf_hash (sample_leaf s) = zeros 32"
  "lf_input_record (sample_leaf s) = from_input_record sample_ir"
  by (simp_all add: sample_leaf_def)

lemma sample_built: "build_shard_tree sample_sha2 sample_view sample_topology = Ok sample_tree"
  using sample_bounds sample_order sample_shard_tree
  by (simp add: build_shard_tree_def validate_structure_def sample_view_def AGGREGATION_PARTITION_ID_def sample_leaf_hash
      sample_tree_def shard_conf_hash_def sample_topology_def PartitionTopology_new_def)

lemma sample_own_certificate:
  "ShardTree_certificate sample_tree shard_0 = Some (Ok \<lparr>stc_shard = shard_0, stc_sibling_hash_list = [zeros 32]\<rparr>)"
  by code_simp

lemma sample_verified: "verify_tree sample_sha2 sample_view sample_enclosing sample_topology = Some (Ok sample_tree)"
proof -
  have "ShardTree_root_hash sample_tree = zeros 32" by (simp add: ShardTree_root_hash_def sample_tree_def)
  moreover have "check_seal_shape sample_seal = Ok ()" using sample_uc_valid by (simp add: uc_valid_def sample_uc_def)
  ultimately show ?thesis
    using sample_built sample_own_certificate
    by (simp add: verify_tree_def sample_enclosing_def sample_uc_def AGGREGATION_PARTITION_ID_def compute_root_hash_def
        finalize_def sample_seal_def sample_view_def Let_def)
qed

definition sample_av :: AuthenticatedView where
  "sample_av = \<lparr>av_partition_id = 7, av_leaves = [sample_leaf shard_0, sample_leaf shard_1], av_tree = sample_tree,
     av_unicity_tree_certificate = uc_unicity_tree_certificate sample_uc, av_seal = sample_seal,
     av_policy = view_policy sample_sha2 (Some sample_topology),
     av_identity = view_identity sample_sha2 (authority_identity sample_sha2 (SealSession_new sample_tb)) (Some sample_topology) sample_seal\<rparr>"

lemma sample_enclosing_fields [simp]:
  "uc_unicity_seal sample_enclosing = sample_seal" "uc_input_record sample_enclosing = sample_ir"
  "uc_unicity_tree_certificate sample_enclosing = uc_unicity_tree_certificate sample_uc"
  by (simp_all add: sample_enclosing_def sample_uc_def)

lemma sample_authenticated:
  "\<exists>s. authenticate sample_sha2 sample_ec sample_view sample_enclosing (Some sample_topology) (SealSession_new sample_tb) =
     Some (Ok sample_av, s)"
proof -
  have strict: "strict_seal_check sample_sha2 sample_ec sample_tb sample_seal = Ok ()"
    using sample_uc_valid seal_check_iff [of sample_sha2 sample_ec sample_tb sample_seal]
    by (simp add: strict_seal_check_def uc_valid_def sample_uc_def) (simp add: sample_tb_def sample_seal_def)
  let ?auth = "authenticate_seal_under sample_sha2 sample_ec (SealSession_new sample_tb) sample_seal (view_policy sample_sha2 (Some sample_topology))"
  have "fst ?auth = Ok ()"
    using authenticate_seal_under_yields [OF session_ok_new, of sample_seal "{sample_seal}" sample_sha2 sample_ec sample_tb
        "\<lambda>_ _. True" DEFAULT_SEAL_MEMO_CAPACITY "view_policy sample_sha2 (Some sample_topology)"] strict
    by (simp add: SealSession_new_def yields_def)
  then obtain s where "?auth = (Ok (), s)" by (metis prod.collapse)
  then show ?thesis
    using sample_verified
    by (simp add: authenticate_def authenticate_with_def Let_def sample_av_def sample_view_def)
qed

section \<open>Consolidation of the sample token\<close>

lemma sample_scheme_wf: "\<forall>s\<in>set (pt_scheme sample_topology). ShardId_wf s"
  using sample_shards_wf by (simp add: sample_topology_def PartitionTopology_new_def)

lemma sample_router: "ShardRouter_new sample_topology = Ok \<lparr>rt_shards = [shard_0, shard_1]\<rparr>"
  using sample_order by (simp add: ShardRouter_new_def)

lemma sample_route: "route \<lparr>rt_shards = [shard_0, shard_1]\<rparr> \<lparr>sid_bytes = zeros 32\<rparr> = shard_0"
  by code_simp

definition sample_replacement :: InclusionProof where
  "sample_replacement = sample_proof\<lparr>ip_unicity_certificate := sample_enclosing\<rparr>"

lemma sample_certificate_of:
  "certificate_of sample_av shard_0 = Some (Ok \<lparr>sc_shard_id = shard_0,
     sc_shard_tree_certificate = \<lparr>stc_shard = shard_0, stc_sibling_hash_list = [zeros 32]\<rparr>, sc_certificate = Some sample_enclosing\<rparr>)"
proof -
  have "canonical_cmp shard_0 shard_0 = Equal" "canonical_cmp shard_1 shard_0 = Greater" by code_simp+
  then have "binary_search_by (\<lambda>l. canonical_cmp (lf_shard_id l) shard_0) [sample_leaf shard_0, sample_leaf shard_1] = Some 0"
    by (simp add: binary_search_by_def bsearch_by.simps)
  moreover have "av_leaves sample_av = [sample_leaf shard_0, sample_leaf shard_1]" by (simp add: sample_av_def)
  ultimately show ?thesis
    using sample_own_certificate
    by (simp add: certificate_of_def derive_def Let_def) (simp add: sample_av_def sample_enclosing_def sample_uc_def)
qed

lemma sample_outer_proofs:
  "outer_proofs sample_sha2 sample_token = [\<lparr>op_index = 0, op_state_id = \<lparr>sid_bytes = zeros 32\<rparr>, op_proof = sample_proof\<rparr>]"
  by (simp add: outer_proofs_def sample_token_def sample_genesis_def StateId_derive_def)

lemma sample_replaces:
  "list_all2 (replaces sample_av \<lparr>rt_shards = [shard_0, shard_1]\<rparr>) (outer_proofs sample_sha2 sample_token) [sample_replacement]"
proof -
  have "replacement_proof sample_proof sample_proof sample_enclosing = Ok sample_replacement"
    by (simp add: replacement_proof_def sample_replacement_def sample_proof_def)
  then show ?thesis using sample_certificate_of sample_route by (auto simp: sample_outer_proofs replaces_def)
qed

lemma sample_path_checked:
  "list_all2 (path_checked sample_sha2) (outer_proofs sample_sha2 sample_token) [sample_replacement]"
  using sample_path
  by (simp add: sample_outer_proofs path_checked_def state_proved_def sample_replacement_def sample_proof_def sample_ir_def)

lemma sample_rebuilt: "\<exists>token'. rebuild_token sample_token [sample_replacement] = Ok token'"
  by (simp add: rebuild_token_def sample_token_def)

lemma sample_bound:
  "\<exists>b. fst (RootRoundBound_from_proofs sample_sha2 sample_ec \<lparr>rt_shards = [shard_0, shard_1]\<rparr>
     [(\<lparr>sid_bytes = zeros 32\<rparr>, sample_proof)] (SealSession_new sample_tb)) = Ok b"
proof -
  have "membership_checks sample_sha2 sample_proof \<lparr>sid_bytes = zeros 32\<rparr> (ip_reference_time sample_proof) = Ok ()"
    unfolding membership_checks_iff using sample_path
    by (simp add: state_proved_def sample_proof_def sample_uc_def sample_ir_def sample_cd_def StateId_derive_def ShardId_root_def)
  then have "membership_check sample_sha2 sample_ec sample_tb sample_proof \<lparr>sid_bytes = zeros 32\<rparr> (ip_reference_time sample_proof) = Ok ()"
    using sample_uc_valid cert_check_iff [of sample_sha2 sample_ec sample_tb sample_uc] sample_tb_valid
    by (simp add: membership_check_def) (simp add: sample_proof_def)
  moreover have "yields (plain_session sample_sha2 sample_ec sample_tb {sample_seal})
      (verify_membership_in sample_sha2 sample_ec (SealSession_new sample_tb) sample_proof \<lparr>sid_bytes = zeros 32\<rparr> (ip_reference_time sample_proof))
      (membership_check sample_sha2 sample_ec sample_tb sample_proof \<lparr>sid_bytes = zeros 32\<rparr> (ip_reference_time sample_proof))"
    unfolding verify_membership_in_def SealSession_new_def
    by (rule verify_membership_under_yields [OF session_ok_new]) (auto simp: body_ok_def sample_proof_def sample_uc_def)
  ultimately show ?thesis
    by (auto simp: RootRoundBound_from_proofs_def RootRoundBound_from_routed_def yields_def result_simps)
qed

end
