(* ===== verification/Sample_Client.thy ===== *)
theory Sample_Client
  imports Sample_View Proof_Client_Sound Client
begin

text \<open>
  Concrete clients for the instances of the theorems: an aggregator that certifies with the sample proof, and
  a consolidation service of an unsharded partition.
\<close>

section \<open>The flows\<close>

definition sample_aggregator :: "(unit, string) AggregatorClient" where
  "sample_aggregator = \<lparr>submit_certification_request = \<lambda>cd w. (Ok (), w), get_inclusion_proof = \<lambda>i w. (Ok sample_proof, w)\<rparr>"

definition sample_signer :: signer where
  "sample_signer = signer_sign sample_ec \<lparr>sk_secret = zeros 32\<rparr>"

lemma sample_signed: "sample_signer m = Some \<lparr>sig_bytes = zeros 64, sig_recovery = 0\<rparr>"
  by (simp add: sample_signer_def signer_sign_def sample_ec_def Signature_new_def)

lemma sample_encoded: "Signature_encode \<lparr>sig_bytes = zeros 64, sig_recovery = 0\<rparr> = zeros 65"
  by code_simp

lemma sample_signs: "signs_for sample_ec sample_signer sample_key"
  using sample_signature sample_signature_decode by (simp add: signs_for_def sample_signed sample_encoded)

lemma sample_certified:
  assumes "tx_lock_script tx = sample_predicate" "tx_source_state_hash tx = sha256 sample_sha2 []" "tx_expires_at tx = None"
    and "certification_data_for sample_sha2 tx sample_signer = Some cd"
  shows "serves sample_sha2 sample_ec sample_tb {sample_seal} sample_aggregator () cd"
    "serves sample_sha2 sample_ec sample_tb {} sample_aggregator () cd"
proof -
  have "cd = sample_cd"
    using assms by (simp add: certification_data_for_def Let_def sample_signed sample_encoded sample_cd_def
        CertificationData_from_transaction_def calculate_transaction_hash_def sha256_def)
  moreover have "certifies sample_sha2 sample_ec sample_tb sample_cd sample_proof"
  proof -
    have "inclusion_check sample_sha2 sample_ec sample_tb sample_proof sample_state (ip_reference_time sample_proof) = Ok ()"
      using sample_included by (simp add: verify_inclusion_proof_for_eq)
    then show ?thesis
      by (auto simp: certifies_def inclusion_check_def sample_state_id result_simps) (simp add: sample_proof_def)
  qed
  ultimately show "serves sample_sha2 sample_ec sample_tb {sample_seal} sample_aggregator () cd"
    "serves sample_sha2 sample_ec sample_tb {} sample_aggregator () cd"
    by (auto simp: serves_def sample_aggregator_def) (simp add: sample_proof_def sample_uc_def)
qed

lemma sample_predicate_read: "SignaturePredicate_from_encoded sample_ec sample_predicate = Ok \<lparr>sp_public_key = sample_key\<rparr>"
  using signature_predicate_read [of sample_ec sample_key] sample_public_key by (simp add: sample_predicate_def sample_key_def)

lemma sample_token_seals: "token_seals sample_token = {sample_seal}"
  by (simp add: sample_token_eq sample_seals)

lemma sample_token_verified: "Token_verify sample_sha2 sample_ec sample_token sample_tb = Ok ()"
proof -
  have "inj_on (seal_key sample_sha2) (token_seals sample_token)" by (simp add: sample_token_seals)
  from Token_verify_iff [OF this, of sample_ec sample_tb] show ?thesis
    using sample_tb_valid sample_history
    by (simp add: sample_token_eq VerificationLimits_DEFAULT_def bare_ok_def sample_genesis_def VerificationPolicy_default_def)
qed

lemma sample_latest: "latest_state sample_sha2 sample_token = (sha256 sample_sha2 [], sample_predicate)"
  by (simp add: latest_state_def sample_token_def sample_genesis_def mint_state_hash_def sample_mint_def)

section \<open>The consolidation service\<close>

definition unsharded :: PartitionTopology where "unsharded = PartitionTopology_new []"

definition sample_endpoint :: "unit BatchAggregatorClient" where
  "sample_endpoint = \<lparr>get_inclusion_proofs = \<lambda>request options w. (Err TimeoutFailure, w),
     get_inclusion_proofs_with_wait = default_with_wait (\<lambda>request options w. (Err TimeoutFailure, w))\<rparr>"

definition sample_service :: "unit ProofClient" where
  "sample_service = \<lparr>cl_topology = unsharded, cl_router = \<lparr>rt_shards = [ShardId_root]\<rparr>, cl_trust_base = sample_tb,
     cl_registry = MintJustificationRegistry_new, cl_policy = VerificationPolicy_default,
     cl_endpoints = [(ShardId_root, sample_endpoint)], cl_endpoint_by_shard = [Some 0], cl_now_ms = \<lambda>w. (0, w),
     cl_executor = SequentialExecutor_run, cl_master_long_poll = None\<rparr>"

definition sample_options :: "unit ConsolidateOptions" where
  "sample_options = \<lparr>co_timeout_ms = DEFAULT_TIMEOUT_MS, co_cancelled = \<lambda>w. (False, w), co_master = None\<rparr>"

lemma sample_service_new:
  "ProofClient_new unsharded [(ShardId_root, sample_endpoint)] sample_tb (\<lambda>w. (0, w)) SequentialExecutor_run = Ok sample_service"
  by (simp add: ProofClient_new_def sample_tb_valid ShardRouter_new_def canonical_order_def canonical_order_with_def unsharded_def
      PartitionTopology_new_def sample_service_def endpoint_index_def)

lemma sample_endpoint_wf: "answers_wf sample_endpoint"
  by (simp add: answers_wf_def sample_endpoint_def default_with_wait_def plain_call_def)

lemma sample_session:
  "\<exists>s. verify_token_in_session sample_sha2 sample_ec sample_token (SealSession_new sample_tb) MintJustificationRegistry_new
     VerificationPolicy_default = (Ok (), s) \<and> plain_session sample_sha2 sample_ec sample_tb {sample_seal} s"
proof -
  let ?c = "VerificationContext_with_session (SealSession_new sample_tb)"
  have "token_check sample_sha2 sample_ec sample_tb VerificationPolicy_default sample_token = Ok ()"
    using sample_token_verified sample_token_seals sample_tb_valid
    by (simp add: Token_verify_def verify_token_def verify_token_with_def verify_token_with_policy_def
        verify_token_with_seal_stats_def verify_token_with_memo_capacity_bare)
  moreover have "yields (context_ok sample_sha2 sample_ec sample_tb {sample_seal} DEFAULT_limits)
      (verify_token_in_context sample_sha2 sample_ec sample_tb MintJustificationRegistry_new VerificationPolicy_default sample_token ?c)
      (token_check sample_sha2 sample_ec sample_tb VerificationPolicy_default sample_token)"
    unfolding verify_token_in_context_def
    by (intro verify_token_body_bare) (simp_all add: sample_token_seals context_ok_def VerificationContext_with_session_def SealSession_new_def
        session_ok_new UcInterner_new_def interner_ok_new)
  ultimately obtain c' where c: "verify_token_in_context sample_sha2 sample_ec sample_tb MintJustificationRegistry_new
      VerificationPolicy_default sample_token ?c = (Ok (), c')" "plain_session sample_sha2 sample_ec sample_tb {sample_seal} (vc_seals c')"
    unfolding yields_def context_ok_def by (metis prod.collapse)
  moreover have "ss_trust_base (SealSession_new sample_tb) = sample_tb" by (simp add: SealSession_new_def SealSession_with_capacity_def)
  ultimately show ?thesis using sample_tb_valid by (simp add: verify_token_in_session_def Let_def)
qed

lemma sample_strict: "strict_seal_check sample_sha2 sample_ec sample_tb sample_seal = Ok ()"
  using sample_uc_valid seal_check_iff [of sample_sha2 sample_ec sample_tb sample_seal]
  by (simp add: strict_seal_check_def uc_valid_def sample_uc_def) (simp add: sample_tb_def sample_seal_def)

lemma sample_authentication:
  assumes "plain_session sample_sha2 sample_ec sample_tb {sample_seal} s"
  shows "\<exists>s'. authenticate_seal_under sample_sha2 sample_ec s sample_seal policy = (Ok (), s')"
  using authenticate_seal_under_yields [OF assms, of sample_seal policy] sample_strict
  by (simp add: yields_def) (metis prod.collapse)

text \<open>The sample token has one seal already: the attempt ends without a request.\<close>

lemma sample_consolidated:
  "\<exists>summary. consolidate sample_sha2 sample_ec sample_service sample_token sample_options () =
     Some (Ok (Consolidated sample_token summary), ()) \<and> cs_already_shared summary"
proof -
  obtain s where s: "verify_token_in_session sample_sha2 sample_ec sample_token (SealSession_new sample_tb)
      MintJustificationRegistry_new VerificationPolicy_default = (Ok (), s)" "plain_session sample_sha2 sample_ec sample_tb {sample_seal} s"
    using sample_session by blast
  obtain s' where a: "authenticate_seal_under sample_sha2 sample_ec s sample_seal (view_policy sample_sha2 (Some unsharded)) = (Ok (), s')"
    using sample_authentication [OF s(2)] by blast
  have proof_fields: "uc_unicity_seal (ip_unicity_certificate sample_proof) = sample_seal"
    "utc_partition_identifier (uc_unicity_tree_certificate (ip_unicity_certificate sample_proof)) = AGGREGATION_PARTITION_ID"
    "stc_shard (uc_shard_tree_certificate (ip_unicity_certificate sample_proof)) = ShardId_root"
    by (simp_all add: sample_proof_def sample_uc_def AGGREGATION_PARTITION_ID_def)
  have seals: "distinct_seals [sample_proof] = 1" by (simp add: distinct_seals_def)
  have route: "route_index \<lparr>rt_shards = [ShardId_root]\<rparr> x = 0" for x using route_index_less [of "\<lparr>rt_shards = [ShardId_root]\<rparr>" x] by simp
  have unpinned: "shard_conf_hash unsharded x = None" for x by (simp add: shard_conf_hash_def unsharded_def PartitionTopology_new_def)
  show ?thesis
    unfolding consolidate_def run_def start_def
    by (simp add: sample_service_def sample_options_def DEFAULT_TIMEOUT_MS_def Budget_check_def saturating_add_def
        saturating_sub_def s sample_outer_proofs on_wave_def ProofClient_group_def group_item_def join_group_def route
        List.map_filter_def proof_fields unpinned RootRoundBound_from_routed_def seals a MAX_BATCH_STATE_IDS_def Let_def)
qed

section \<open>A strict parser\<close>

text \<open>An aggregator that rejects every call with a wait, and times out otherwise.\<close>

definition strict_parser :: "u64 BatchAggregatorClient" where
  "strict_parser = \<lparr>get_inclusion_proofs = \<lambda>request options w. (Err TimeoutFailure, w),
     get_inclusion_proofs_with_wait = \<lambda>request options wait w.
       (Err \<lparr>wf_failure = RpcFailure INVALID_PARAMS [] (Some ''invalid_request'') (Some ''malformed_params'') None [],
         wf_waited_ms = None, wf_sent_wait_ms = Some 50\<rparr>, w)\<rparr>"

lemma strict_parser_retried:
  "nb_retried_without_wait (fst (get_latest_negotiating_wait strict_parser [] \<lparr>ro_timeout_ms = 100\<rparr> (WaitRequest_new 50)
     (\<lambda>t. (t, t + 30)) 0))"
  by (simp add: get_latest_negotiating_wait_def strict_parser_def is_malformed_params_def saturating_sub_def Let_def plain_call_def)

lemma sample_response_length: "length (InclusionProofResponse_to_cbor (NotCertified 5 sample_uc)) < 2 ^ 64"
  using sample_uc_length by (simp add: length_encodings length_head wire_constants)

end
