(* ===== verification/Spec2Isabelle.thy ===== *)
theory Spec2Isabelle
  imports Sample_Http Sample_Client Sample_View Token_Wire Quorum Rsmst_Wire
begin

text \<open>
  A verification development for the Unicity state transition SDK (the Rust crate under \<open>src/src\<close>).

  The program. Clients hold tokens: a mint transaction followed by transfers, each with a proof that an
  aggregator included it in a sparse Merkle tree whose root is certified by a chain of hashes up to a seal
  that a quorum of root nodes signed. The crate encodes and decodes all of this as canonical CBOR
  (\<open>cbor/\<close>), verifies tokens, inclusion and absence against a trust base (\<open>verify/\<close>, \<open>api/\<close>),
  splits tokens that carry payments (\<open>payment/\<close>, \<open>rsmst/\<close>), rebuilds shard certificates from a
  view of a partition (\<open>consolidation/\<close>), and talks to aggregators: it mints and transfers tokens and replaces
  the proofs of a token by proofs under one seal (\<open>client/\<close>).

  Conventions. A Rust \<open>Result\<close> is a sum (\<open>Err\<close>, \<open>Ok\<close>), a struct a record with a field prefix, a method
  \<open>T::f\<close> the function \<open>T_f\<close>. A \<open>u64\<close> is a 64-bit word, a \<open>usize\<close> and a \<open>BigUint\<close> are natural numbers, with
  the checked operations of the source written out. Mutable state is passed explicitly
  (\<^const>\<open>sbind\<close>). SHA-2 is a parameter \<open>sha2\<close> and the curve operations of the k256 crate are the record
  \<open>k256\<close>; what is assumed of them (output lengths, no collision among named hash inputs) is a
  hypothesis of the theorems that need it. Error values are those of the source, display texts are not
  modelled.

  The theories, in the order of the code.

  \<^item> \<open>Prelude\<close>, \<open>Stateful\<close>, \<open>Orders\<close>: results, explicit state, machine integers as bytes, byte orders, stable
    sorting and binary search of the standard library.
  \<^item> \<open>Fifo_Index\<close> (\<open>fifo_index.rs\<close>): the bounded index, the locale \<open>bounded_memo\<close> of its clients, and its
    refinement of a queue of the most recent insertions.
  \<^item> \<open>Cbor_Encode\<close>, \<open>Cbor_Decode\<close>, \<open>Cbor_Spec\<close>, \<open>Cbor_Access\<close> (\<open>cbor/\<close>): the encoder, the strict decoder with its
    limits, the shortest-form encodings as a datatype of items, maps with sorted keys, the accessors, and the locales \<open>codec\<close> and
    \<open>canonical_codec\<close> that every wire structure is an interpretation of.
  \<^item> \<open>Hash\<close>, \<open>Radix\<close>, \<open>Wire\<close>, \<open>Predicates\<close>, \<open>Certificates\<close> (\<open>crypto/\<close>, \<open>radix.rs\<close>, \<open>predicate/\<close>, \<open>api/\<close>): digests,
    the tree path fold and its uniqueness up to collisions, predicates, signatures, state ids, inclusion and
    non-inclusion certificates.
  \<^item> \<open>Shard_Id\<close>, \<open>Bft\<close>, \<open>Bft_Codec\<close> (\<open>api/bft/\<close>): shard ids as bit strings, the certificate structures, their
    hashes and codecs.
  \<^item> \<open>Seal\<close>, \<open>Quorum\<close> (\<open>verify/seal.rs\<close>, \<open>api/bft/root_trust_base.rs\<close>): quorum counting, the session with its
    memos, trust base validation.
  \<^item> \<open>Transactions\<close>, \<open>Token_Codec\<close>, \<open>Token_Wire\<close> (\<open>transaction/\<close>): mints, transfers, tokens, the interning
    decoder and its transparency, round trips.
  \<^item> \<open>Verify\<close>, \<open>Verify_Session\<close>, \<open>Verify_Token\<close>, \<open>Non_Inclusion\<close> (\<open>verify/\<close>): the verifiers, the reference checks
    without memos they are equal to, what a success means, soundness for registered verifiers.
  \<^item> \<open>Rsmst\<close>, \<open>Rsmst_Spec\<close>, \<open>Rsmst_Build\<close>, \<open>Rsmst_Wire\<close> (\<open>rsmst/\<close>): sum trees, conservation of claims under one root,
    the builder, the wire form.
  \<^item> \<open>Payment\<close>, \<open>Payment_Codec\<close>, \<open>Payment_Verify\<close>, \<open>Split\<close> (\<open>payment/\<close>): assets, manifests, justifications, the
    verifiers, provenance, conservation of value, the split builder.
  \<^item> \<open>Shard_Bits\<close>, \<open>Topology\<close> (\<open>consolidation/topology.rs\<close>): sharding schemes, their canonical order, and
    admission as a statement on keys: every key has exactly one shard.
  \<^item> \<open>Shard_Tree\<close> (\<open>consolidation/shard_tree.rs\<close>): the one-pass arena builder with its work counters, equal to the
    post-order of the binary tree of the scheme, and the climb that reads a certificate.
  \<^item> \<open>Partition_View\<close>, \<open>Assemble\<close>, \<open>View_Binding\<close> (\<open>consolidation/partition_view.rs\<close>, \<open>assemble.rs\<close>): views with their
    codec and bounds, authentication against an enclosing certificate and a session, derived certificates,
    and that the seal commits to the whole view.
  \<^item> \<open>Plan\<close>, \<open>Consolidate\<close> (\<open>consolidation/plan.rs\<close>): routing, the root-round bound, replacement proofs and
    reconstruction, and that the history of a rebuilt token is checked exactly when its served paths are. The orders on ids and bits are
    interpretations of the locale \<open>total_cmp\<close>.
  \<^item> \<open>Client_Messages\<close>, \<open>Client\<close> (\<open>api/certification_request.rs\<close>, \<open>api/proof_status.rs\<close>,
    \<open>api/inclusion_proof_response.rs\<close>, \<open>client/mod.rs\<close>): the messages with the codec of the answer, the mint and
    transfer flows over any aggregator, and that they complete when the aggregator certifies.
  \<^item> \<open>Batch\<close> (\<open>client/batch.rs\<close>): batch requests and failures, the wait that goes on the wire with its bounds, the
    negotiation with parsers that do not know it.
  \<^item> \<open>Proof_Client\<close>, \<open>Proof_Client_Sound\<close> (\<open>client/consolidate/\<close>): the consolidation service: budget, admission into
    groups per shard, the master wave, the exact-root wave, the targets, placement and the rebuilt token. An
    attempt is a state-passing function over the seal session and what the waves share; \<open>None\<close> stands for a panic
    or a climb that does not end. The lemmas follow an attempt from admission to the bundle and show that it
    returns, whatever the other parties answer.
  \<^item> \<open>Retry_After\<close>, \<open>Http\<close>, \<open>Http_Call\<close>, \<open>Http_Wait\<close> (\<open>client/http.rs\<close>, \<open>client/http/wait.rs\<close>): the JSON-RPC client. Its
    libraries (ureq, serde_json, hex, url) are the record \<open>libs\<close>, the transport, clocks, sleeping and random
    numbers the record \<open>net\<close>, both parameters. Modelled are the \<open>Retry-After\<close> header with its dates, the envelope and
    the results, typed failures and overload answers, one exchange, submission, lookups, absence and batches, the
    call plan, the deadline-based wait with long polling, one definition per kind of answer, and the attempts loop.
  \<^item> \<open>Http_Sound\<close>, \<open>Http_Race\<close>: that the batches of this client satisfy what the consolidation service asks of its
    endpoints, that no API key goes over plaintext, that plans fit, that the wait ends, and what a verified
    submission reports.
  \<^item> \<open>Sample\<close>, \<open>Sample_View\<close>, \<open>Sample_Client\<close>, \<open>Sample_Http\<close>: concrete values on which the theorems below are instantiated.

  The theorems of this theory state the properties of the program over these definitions, the most
  important first; each rests on the lemmas of the theory of its component.

  Bounds and fuel. No definition needs fuel: loops are structural recursion or terminate by a measure
  (nesting depth budget of the decoder, depth in a sum tree, remaining depth of embedded tokens, which the
  code bounds by \<open>max_embedded_token_depth\<close>). The climb over the parent links of a shard tree is a
  \<open>partial_function\<close> whose \<open>None\<close> is not returning; it returns on every tree that was built.
  The wait of the JSON-RPC client and its pause are partial functions as well; they return when the clock moves
  forward, sleeping takes its time and the deadline is at least thirty years before the last instant of the
  platform, which is what the clock of the code falls back on.

  Not modelled. Sockets, TLS and the text of JSON are those of the libraries of the HTTP client; the flows and the
  consolidation service take any transport, clock, cancellation and executor as parameters. The erasure of an API
  key from memory has no modelled behaviour. The threads of \<open>ThreadedExecutor\<close> are one executor among these; the jobs of a wave are run as
  state-passing steps, so a wave is one interleaving of its calls. The JSON form of the trust base, random key
  and salt generation, and the Display and Debug texts have no modelled behaviour. The comparison counters of the
  topology and the router, which only tests read, are left out.
\<close>

section \<open>Tokens\<close>

text \<open>C1. With an empty registry a token verifies exactly when the trust base is valid, the transfer limit
  holds, the mint carries no justification and no data that a verifier would have to check, and the whole
  history checks: the genesis is minted with the minter key of its token id, and every transaction has an
  inclusion proof that binds it, is on time, lies in its shard, ends in a certificate signed by a quorum,
  and carries the signature of the owner. This holds for every capacity of the seal memo, provided that
  the memo keys of the seals in the token do not collide.\<close>

theorem token_verified_iff:
  assumes "inj_on (seal_key sha2) (token_seals token)"
  shows "fst (verify_token_with_memo_capacity sha2 ec token tb MintJustificationRegistry_new policy capacity) = Ok () \<longleftrightarrow>
    validate tb = Ok () \<and> length (tk_transactions token) \<le> vl_max_token_transfers (vp_limits policy) \<and>
    bare_ok policy (tk_genesis token) \<and> history_ok sha2 ec tb token"
  unfolding verify_token_with_memo_capacity_bare [OF assms] by (auto simp: result_simps token_check_iff)

theorem token_verified_iff_witness:
  "inj_on (seal_key sample_sha2) (token_seals sample_token) \<and>
   fst (verify_token_with_memo_capacity sample_sha2 sample_ec sample_token sample_tb MintJustificationRegistry_new
     VerificationPolicy_default 3) = Ok ()"
proof -
  have inj: "inj_on (seal_key sample_sha2) (token_seals sample_token)" by (simp add: sample_token_eq sample_seals)
  have "bare_ok VerificationPolicy_default (tk_genesis sample_token)"
    by (simp add: bare_ok_def sample_token_eq sample_genesis_def)
  then show ?thesis
    using token_verified_iff [OF inj, of sample_ec sample_tb VerificationPolicy_default 3] inj sample_tb_valid sample_history
    by (simp add: sample_token_eq)
qed

text \<open>C2. Verification with the memo is the memo-free reference check, error values included: the first
  failing rule is the one that is reported, whatever the memo holds or evicts. This is for the empty justification
  registry, and provided that the memo keys of the seals in the token do not collide.\<close>

theorem token_verdict_reference:
  assumes "inj_on (seal_key sha2) (token_seals token)"
  shows "fst (verify_token_with_memo_capacity sha2 ec token tb MintJustificationRegistry_new policy capacity) =
    rbind (map_err VInvalidTrustBase (validate tb)) (\<lambda>_. token_check sha2 ec tb policy token)"
  by (rule verify_token_with_memo_capacity_bare [OF assms])

theorem token_verdict_reference_witness:
  "fst (verify_token_with_memo_capacity sample_sha2 sample_ec sample_coin sample_tb MintJustificationRegistry_new
     (VerificationPolicy_default\<lparr>vp_require_token_data_verifier := True\<rparr>) 0) = Err UnsupportedTokenData"
proof -
  have "inj_on (seal_key sample_sha2) (token_seals sample_coin)" by (simp add: sample_coin_eq sample_seals)
  moreover have "genesis_check sample_sha2 sample_ec sample_tb (tk_genesis sample_coin) = Ok ()"
    using sample_minted by (simp add: genesis_check_iff sample_coin_eq)
  ultimately show ?thesis
    using accepts_length [OF sample_payload_accepted]
    by (simp add: token_verdict_reference sample_tb_valid token_check_def bare_check_def VerificationPolicy_default_def
        VerificationLimits_DEFAULT_def)
qed

section \<open>Payments\<close>

text \<open>C3. Let the registry hold no justification verifier but the split verifier and no data verifiers but payment
  data verifiers, all with the decoder that the call is given, and let the memo keys of the seals in the lineage
  of the token not collide. Then a payment token that verifies is genuine: its own history checks, its mint either needs no
  justification or is an output of a split with complete evidence whose burned source is genuine in turn,
  down to issued tokens; and the returned assets are those its mint data decodes to.\<close>

theorem payment_provenance:
  assumes "payment_registry sha2 ec dec reg" "inj_on (seal_key sha2) (lineage_seals sha2 ec DEFAULT_limits token)"
    and "verify_payment_token sha2 ec token tb reg dec = Ok c"
  shows "genuine sha2 ec tb DEFAULT_limits dec reg token \<and>
    (\<exists>b. mt_data (cm_transaction (tk_genesis token)) = Some b \<and> dec b = Ok c)"
  by (rule verify_payment_token_genuine [OF assms])

theorem payment_provenance_witness:
  "genuine sample_sha2 sample_ec sample_tb DEFAULT_limits PaymentAssetCollection_from_cbor_bytes sample_registry sample_coin"
  using payment_provenance [OF sample_payment_registry sample_coin_seals sample_coin_verifies] by blast

text \<open>C4. Splits conserve value: the outputs of one burn that carry split evidence and have distinct token
  ids together receive at most the amount of each asset that the burned token held, unless the SHA-256
  inputs their proofs exhibit collide.\<close>

theorem split_value_conserved:
  assumes "sha2_lengths sha2" "decodes_wf dec"
    and "\<And>mint proofs. (mint, proofs) \<in> set outs \<Longrightarrow> split_evidence sha2 l dec mint burned proofs \<and>
      length (tid_bytes (mt_token_id mint)) = 32 \<and> list_all RsmstInclusionProof_wf proofs"
    and "distinct (map (tid_bytes \<circ> mt_token_id \<circ> fst) outs)"
    and "inj_on (sha2 Sha256) (claim_pres sha2 (split_claims sha2 dec burned outs i))"
  shows "sum_list (map (\<lambda>(mint, proofs). holding (mint_assets dec mint) i) outs) \<le>
    holding (mint_assets dec (cm_transaction (tk_genesis burned))) i"
  using split_conserves [OF assms(1,2) assms(3) assms(4,5)] by blast

theorem split_value_conserved_witness:
  "sum_list (map (\<lambda>(mint, proofs). holding (mint_assets PaymentAssetCollection_from_cbor_bytes mint) \<lparr>aid_bytes = [7]\<rparr>)
     [(sample_output_mint, [\<lparr>rp_steps = []\<rparr>])]) \<le>
   holding (mint_assets PaymentAssetCollection_from_cbor_bytes (cm_transaction (tk_genesis sample_burned))) \<lparr>aid_bytes = [7]\<rparr>"
proof (rule split_value_conserved [OF sample_sha2_lengths default_decodes_wf, where l = DEFAULT_limits])
  show "inj_on (sample_sha2 Sha256) (claim_pres sample_sha2 (split_claims sample_sha2 PaymentAssetCollection_from_cbor_bytes
      sample_burned [(sample_output_mint, [\<lparr>rp_steps = []\<rparr>])] \<lparr>aid_bytes = [7]\<rparr>))"
    using sample_output_assets
    by (simp add: claim_pres_def split_claims_def asset_claims_def alloc_pres_def claim_alloc_def)
qed (use sample_evidence in \<open>auto simp: sample_output_mint_def sample_mint_def RsmstInclusionProof_wf_def\<close>)

text \<open>C5. What the split builder makes is what the split verifier asks for: the mint that carries out an
  output of a successful build, with the proofs of that output and the token that the burn was appended
  to, is split evidence.\<close>

theorem built_split_accepted:
  assumes "sha2_lengths sha2" "decodes_wf dec" "build_split sha2 rand token src dec rqs mk ex = Ok sp"
    and "holds_assets l dec (cm_transaction (tk_genesis token)) src"
    and "st \<in> set (sp_tokens sp)" "carries_out sha2 ec st m" "burns sp token burned"
    and "length (sk_payload st) \<le> max_input_bytes l" "accepts l (the (tr_data (sb_transaction (sp_burn sp))))"
  shows "split_evidence sha2 l dec m burned (sk_proofs st)"
  by (rule build_split_accepted [OF assms])

theorem built_split_accepted_witness:
  "split_evidence sample_sha2 DEFAULT_limits PaymentAssetCollection_from_cbor_bytes sample_output_mint sample_burned
     [\<lparr>rp_steps = []\<rparr>]"
proof -
  have "holds_assets DEFAULT_limits PaymentAssetCollection_from_cbor_bytes (cm_transaction (tk_genesis sample_coin)) sample_assets"
    using sample_source by simp
  from built_split_accepted [OF sample_sha2_lengths default_decodes_wf sample_split_built this _ sample_carries_out sample_burns]
    sample_manifest_accepted accepts_length [OF sample_payload_accepted]
  show ?thesis by (simp add: sample_split_def sample_output_def sample_burn_def)
qed

section \<open>Proofs against one root\<close>

text \<open>C12. Two valid proofs of transactions that spend the same state under the same aggregation root
  certify the same transaction at the same reference time, or exhibit a SHA-256 collision.\<close>

theorem one_state_one_spend:
  assumes "sha2_lengths sha2" "InclusionCertificate_wf (ip_inclusion_certificate p)"
    "InclusionCertificate_wf (ip_inclusion_certificate p')"
    and "proof_valid sha2 ec tb tx p" "proof_valid sha2 ec' tb' tx' p'"
    and "tx_lock_script tx = tx_lock_script tx'" "tx_source_state_hash tx = tx_source_state_hash tx'"
    and "ir_hash (uc_input_record (ip_unicity_certificate p)) = ir_hash (uc_input_record (ip_unicity_certificate p'))"
  shows "tx_cbor tx = tx_cbor tx' \<and> ip_reference_time p = ip_reference_time p' \<or>
    collides sha2 (spend_preimages sha2 tx p) (spend_preimages sha2 tx' p')"
  by (rule one_spend_per_root [OF assms])

theorem one_state_one_spend_witness:
  "collides sample_sha2 (spend_preimages sample_sha2 (mint_view sample_sha2 (sample_mint None None)) sample_proof)
     (spend_preimages sample_sha2 (mint_view sample_sha2 (sample_mint (Some []) None)) sample_proof)"
proof -
  let ?a = "mint_view sample_sha2 (sample_mint None None)" and ?b = "mint_view sample_sha2 (sample_mint (Some []) None)"
  have view: "tx_lock_script (mint_view sample_sha2 (sample_mint d j)) = sample_predicate"
    "tx_source_state_hash (mint_view sample_sha2 (sample_mint d j)) = sha256 sample_sha2 []"
    "tx_expires_at (mint_view sample_sha2 (sample_mint d j)) = None" for d j
    by (simp_all add: mint_view_def sample_mint_def)
  have wf: "InclusionCertificate_wf (ip_inclusion_certificate sample_proof)"
    using sample_certificate_wf by (simp add: sample_proof_def)
  have "tx_cbor ?a \<noteq> tx_cbor ?b" using sample_mints_differ by (simp add: mint_view_def)
  then show ?thesis
    using one_state_one_spend [OF sample_sha2_lengths wf wf sample_proof_valid sample_proof_valid, of ?a ?b]
    by (simp add: view)
qed

text \<open>C13. A state cannot be proved included and absent under the same root unless the hash inputs that
  the two certificates exhibit collide.\<close>

theorem included_not_absent:
  assumes "sha2_lengths sha2" "InclusionCertificate_wf (ip_inclusion_certificate incl)"
    "NonInclusionCertificate_wf (np_certificate absent)" "StateId_wf sid"
    and "verify_inclusion_proof_for sha2 ec tb incl sid (ip_reference_time incl) = Ok ()"
    and "verify_non_inclusion_at_snapshot sha2 ec' tb' absent sid ctx = Ok (AbsentAtSnapshot sid snap)"
    and "sn_state_root snap = ir_hash (uc_input_record (ip_unicity_certificate incl))"
  shows "collides sha2
    (ic_preimages sha2 (ip_inclusion_certificate incl) sid
      (calculate_leaf_value sha2 (cd_transaction_hash (ip_certification_data incl)) (ip_reference_time incl)))
    (nic_preimages sha2 (np_certificate absent) sid)"
  by (rule inclusion_or_absence [OF assms])

theorem included_not_absent_witness:
  "collides sample_sha2
    (ic_preimages sample_sha2 (ip_inclusion_certificate sample_proof) sample_state
      (calculate_leaf_value sample_sha2 (cd_transaction_hash (ip_certification_data sample_proof)) (ip_reference_time sample_proof)))
    (nic_preimages sample_sha2 (np_certificate sample_absent) sample_state)"
  by (rule included_not_absent [OF sample_sha2_lengths _ sample_absent_wf _ sample_included sample_excluded])
    (use sample_certificate_wf in \<open>simp_all add: StateId_wf_def sample_state_def ni_snapshot_def sample_proof_def
       sample_uc_def sample_ir_def\<close>)

text \<open>C14. The stand-alone non-inclusion verifier returns an outcome exactly when the proof is for the target, the
  certificate satisfies the strict rules for the caller's context and the outcome is what the certificate says: the
  target and the terminal key start with the bits of the shard id; without a body the certified state root is null
  and the outcome is absence; with a body the path folds from the terminal to the certified root, and the outcome is
  inclusion when the terminal key is the target and absence when it is not. The snapshot is that of the certificate.\<close>

theorem non_inclusion_outcome_iff:
  assumes "ShardId_wf (stc_shard (uc_shard_tree_certificate (np_unicity_certificate proof)))"
  shows "verify_non_inclusion_at_snapshot sha2 ec tb proof target ctx = Ok outcome \<longleftrightarrow>
    np_requested_state_id proof \<in> {None, Some target} \<and>
    strict_valid sha2 ec tb ctx (np_unicity_certificate proof) \<and> ni_outcome_ok sha2 proof target outcome"
  by (rule verify_non_inclusion_iff [OF assms])

theorem non_inclusion_outcome_iff_witness:
  "ni_outcome_ok sample_sha2 sample_absent sample_state (AbsentAtSnapshot sample_state (ni_snapshot sample_uc (Some (zeros 32)))) \<and>
   verify_non_inclusion_at_snapshot sample_sha2 sample_ec sample_tb sample_absent sample_state NonInclusionContext_new \<noteq>
     Ok (IncludedAtSnapshot sample_state (ni_snapshot sample_uc (Some (zeros 32))))"
proof -
  have "ShardId_wf (stc_shard (uc_shard_tree_certificate (np_unicity_certificate sample_absent)))"
    by (simp add: sample_absent_def NonInclusionProof_new_def sample_uc_def ShardId_root_def ShardId_wf_def div_ceil_8)
  from non_inclusion_outcome_iff [OF this, of sample_sha2 sample_ec sample_tb sample_state NonInclusionContext_new] sample_excluded
  show ?thesis by auto
qed

text \<open>C15. A reported absence rests on a certificate that satisfies the strict rules for the caller's context
  (quorum, unit stakes, trust base epoch, shard, configuration and authority bound) and on a tree path to the
  root that the snapshot names.\<close>

theorem absence_sound:
  assumes "verify_non_inclusion_at_snapshot sha2 ec tb proof target ctx = Ok (AbsentAtSnapshot sid snap)"
  shows "sid = target \<and> strict_valid sha2 ec tb ctx (np_unicity_certificate proof) \<and>
    snap = ni_snapshot (np_unicity_certificate proof) (ir_hash (uc_input_record (np_unicity_certificate proof))) \<and>
    relation_to_trusted_root sha2 (np_certificate proof) target (ni_root (np_unicity_certificate proof)) = Ok Absent"
  by (rule absent_sound [OF assms])

theorem absence_sound_witness:
  "strict_valid sample_sha2 sample_ec sample_tb NonInclusionContext_new sample_uc"
  using absence_sound [OF sample_excluded] by (simp add: sample_absent_def NonInclusionProof_new_def)

section \<open>Seals and sessions\<close>

text \<open>C16. Under a valid trust base the signature loop accepts exactly when the number of distinct root nodes
  with a valid signature over the seal hash reaches the quorum threshold: early exit, duplicate ids and
  repeated keys do not change the verdict.\<close>

theorem quorum_reached_iff:
  assumes "validate tb = Ok ()"
  shows "quorum_met sha2 ec tb seal = Ok () \<longleftrightarrow> unat (tb_quorum_threshold tb) \<le>
    card (valid_signers ec tb (dh_data (UnicitySeal_calculate_hash sha2 seal)) (us_signatures seal))"
  by (rule quorum_met_iff [OF validate_ok [OF assms]])

theorem quorum_reached_iff_witness:
  "quorum_met sample_sha2 sample_ec sample_tb sample_seal = Ok ()"
  using quorum_reached_iff [OF sample_tb_valid, of sample_sha2 sample_ec sample_seal] sample_uc_valid
  by (simp add: uc_valid_def sample_uc_def)

text \<open>C17. A session keeps its invariant (every remembered seal and body passed its check) through every
  certificate verification, and the verdict is the one of the check without a memo.\<close>

theorem session_keeps_invariant:
  assumes "plain_session sha2 ec tb Q s" "inj_on (seal_key sha2) Q"
    and "uc_unicity_seal (ip_unicity_certificate proof) \<in> Q"
  shows "fst (verify_inclusion_proof_in sha2 ec s proof sid t) = inclusion_check sha2 ec tb proof sid t \<and>
    plain_session sha2 ec tb Q (snd (verify_inclusion_proof_in sha2 ec s proof sid t))"
  using verify_inclusion_proof_in_yields [OF assms] by (simp add: yields_def)

theorem session_keeps_invariant_witness:
  "fst (verify_inclusion_proof_in sample_sha2 sample_ec (SealSession_with_capacity sample_tb 1) sample_proof sample_state 5) =
     inclusion_check sample_sha2 sample_ec sample_tb sample_proof sample_state 5"
  using session_keeps_invariant [OF session_ok_new, of sample_sha2
      "{uc_unicity_seal (ip_unicity_certificate sample_proof)}" sample_proof sample_ec sample_tb 1 sample_state 5]
  by simp

text \<open>C19. The bounded index refines a queue of the last \<open>c\<close> insertions: after any sequence of insertions
  into an index of capacity \<open>c\<close> a probe hits exactly the most recent \<open>c\<close> entries, for every hash function,
  through bucket collisions, evictions and wrap-around of the sequence counter.\<close>

theorem index_holds_recent:
  assumes "0 < c" "c < 2 ^ 64"
  shows "fst (fi_contains (insert_all (FifoIndex_new c) es) h eq) \<longleftrightarrow> (\<exists>v. (h, v) \<in> set (recent c es) \<and> eq v)"
  by (rule fi_contains_recent [OF assms])

theorem index_holds_recent_witness:
  "fst (fi_contains (insert_all (FifoIndex_new 2) [(8, True), (0, True), (8, False)]) 8 (\<lambda>v. v)) = False \<and>
   fst (fi_contains (insert_all (FifoIndex_new 2) [(8, True), (0, True), (8, False)]) 8 Not) = True"
  using index_holds_recent [of 2 "[(8, True), (0, True), (8, False)]" 8]
  by (auto simp: recent_def)

section \<open>Wire formats\<close>

text \<open>C20. A token round trips: a well-formed token whose encoding is within the limits decodes, through the
  interning decoder, to itself.\<close>

theorem token_round_trip:
  assumes "Token_wf sha2 ec token" "accepts l (Token_to_cbor token)"
  shows "Token_from_cbor_with_limits sha2 ec (Token_to_cbor token) l = Ok token"
  unfolding Token_from_cbor_with_limits_eq by (rule token_decode_encode [OF assms])

theorem token_round_trip_witness:
  "\<exists>l. Token_from_cbor_with_limits sample_sha2 sample_ec (Token_to_cbor sample_token) l = Ok sample_token"
  using token_round_trip [OF sample_token_wf] sample_token_accepted by blast

text \<open>C21. Every token that decodes is well formed: its mint is the one its fields derive (token id, minter
  lock script, source state), and each transfer spends the state that the transaction before it created,
  under the recipient predicate of that transaction.\<close>

theorem decoded_token_linked:
  assumes "Token_from_cbor_with_limits sha2 ec b l = Ok token"
  shows "MintTransaction_wf sha2 ec (cm_transaction (tk_genesis token)) \<and>
    linked sha2 (mint_state_hash sha2 (cm_transaction (tk_genesis token)))
      (mt_recipient (cm_transaction (tk_genesis token))) (tk_transactions token)"
  using token_decode_wf [OF assms [unfolded Token_from_cbor_with_limits_eq]]
  by (simp add: Token_wf_def CertifiedMintTransaction_wf_def)

theorem decoded_token_linked_witness:
  "MintTransaction_wf sample_sha2 sample_ec (cm_transaction (tk_genesis sample_token))"
proof -
  obtain l where "accepts l (Token_to_cbor sample_token)" using sample_token_accepted by blast
  from token_decode_encode [OF sample_token_wf this] decoded_token_linked show ?thesis
    unfolding Token_from_cbor_with_limits_eq by blast
qed

text \<open>C22. Interning certificates does not change what a token decodes to, whatever the interner already
  holds for the same limits, and the interner keeps its invariant.\<close>

theorem interning_transparent:
  assumes "interner_ok l u"
  shows "fst (Token_from_cbor_interned sha2 ec b l u) = token_from_cbor sha2 ec (with_limits b l) \<and>
    interner_ok l (snd (Token_from_cbor_interned sha2 ec b l u))"
  using token_interner_transparent [OF assms] by (simp add: yields_def)

theorem interning_transparent_witness:
  "fst (Token_from_cbor_interned sample_sha2 sample_ec [0x80] DEFAULT_limits (UcInterner_with_capacity 2)) =
     token_from_cbor sample_sha2 sample_ec (with_limits [0x80] DEFAULT_limits)"
  using interning_transparent [OF interner_ok_new [of DEFAULT_limits 2], of sample_sha2 sample_ec "[0x80]"] by blast

text \<open>C23. A decoder accepts its input as one complete item exactly when the input is the shortest-form,
  definite-length encoding of an item within the limits. The keys of a map are looked at when the map is read, and
  then: reading it succeeds exactly when the input is such an encoding of a map whose encoded keys increase in the
  order of byte strings, so that they are sorted and distinct, and gives the entries.\<close>

theorem accepted_items:
  assumes "max_input_bytes l < 2 ^ 64"
  shows "(finish (with_limits b l) = Ok () \<longleftrightarrow> (\<exists>v. b = enc v \<and> item_fits l v)) \<and>
    (map_value (with_limits b l) = Ok kvs \<longleftrightarrow>
      (\<exists>vs. b = enc (CMap (entry_items vs)) \<and> item_fits l (CMap (entry_items vs)) \<and>
         sorted_wrt ord_class.lexordp (map (enc \<circ> fst) vs) \<and>
         kvs = map (\<lambda>(k, v). (with_limits (enc k) l, with_limits (enc v) l)) vs))"
  using accepts_iff [of l b] map_value_iff [OF assms, of b kvs] assms
  by (simp add: accepts_def increasing_lexord comp_def)

theorem accepted_items_witness:
  "finish (with_limits [0xa2, 2, 0, 1, 0] DEFAULT_limits) = Ok () \<and>
   (\<forall>kvs. map_value (with_limits [0xa2, 2, 0, 1, 0] DEFAULT_limits) \<noteq> Ok kvs)"
proof -
  let ?a = "\<lambda>n. Atom major_UINT n" and ?b = "[0xa2, 2, 0, 1, 0] :: bytes"
  have lim: "max_input_bytes DEFAULT_limits < 2 ^ 64" by (simp add: DEFAULT_limits_def)
  have enc: "?b = enc (CMap (entry_items [(?a 2, ?a 0), (?a 1, ?a 0)]))" by code_simp
  have fits: "item_fits DEFAULT_limits (CMap (entry_items [(?a 2, ?a 0), (?a 1, ?a 0)]))"
    unfolding item_fits_def enc [symmetric] by (simp add: entry_items_def DEFAULT_limits_def)
  have "\<not> sorted_wrt ord_class.lexordp (map (enc \<circ> fst) vs)" if "?b = enc (CMap (entry_items vs))"
    "item_fits DEFAULT_limits (CMap (entry_items vs))" for vs
  proof -
    have "CMap (entry_items vs) = CMap (entry_items [(?a 2, ?a 0), (?a 1, ?a 0)])"
      by (rule enc_inj) (use that fits enc in \<open>simp_all add: item_fits_def del: enc.simps\<close>)
    then have v: "vs = [(?a 2, ?a 0), (?a 1, ?a 0)]" 
      by (cases vs; cases "tl vs"; cases "tl (tl vs)") (auto simp: entry_items_def)
    have "\<not> ord_class.lexordp (enc (?a 2)) (enc (?a 1))" by code_simp
    then show ?thesis unfolding v by simp
  qed
  then show ?thesis using accepted_items [OF lim, of ?b] enc fits by blast
qed

text \<open>C24. Reading a map that the encoder wrote gives strictly increasing keys, in the order of byte strings, and
  the last value that was given for each key: looking a key up in what is read is looking it up from the end of what
  was written.\<close>

theorem map_round_trip:
  assumes "accepts l (encode_map es)" "\<And>k v. (k, v) \<in> set es \<Longrightarrow> item k \<and> item v"
  shows "\<exists>ps. map_value (with_limits (encode_map es) l) = Ok (map (\<lambda>(k, v). (with_limits k l, with_limits v l)) ps) \<and>
    sorted_wrt ord_class.lexordp (map fst ps) \<and> map_of ps = map_of (rev es)"
  using map_value_complete(1) [OF assms] increasing_canonical_entries [of es] map_of_canonical_entries [of es]
  unfolding increasing_lexord by blast

theorem map_round_trip_witness:
  "\<exists>l ps. map_value (with_limits (encode_map [(encode_uint 1, encode_null), (encode_uint 1, encode_uint 2)]) l) =
     Ok (map (\<lambda>(k, v). (with_limits k l, with_limits v l)) ps) \<and> map_of ps (encode_uint 1) = Some (encode_uint 2)"
proof -
  let ?es = "[(encode_uint 1, encode_null), (encode_uint 1, encode_uint 2)]"
  have items: "\<And>k v. (k, v) \<in> set ?es \<Longrightarrow> item k \<and> item v" by auto
  have canon: "canonical_entries ?es = [(encode_uint 1, encode_uint 2)]" by code_simp
  have "length (encode_map ?es) < 2 ^ 64"
    using length_head_le [of major_MAP 1] length_head_le [of major_UINT 1] length_head_le [of major_UINT 2] canon
    by (simp add: encode_map_canonical encode_uint_def push_head_Nil)
  then obtain l where "accepts l (encode_map ?es)" using item_accepted [OF item_encode_map [OF items]] by blast
  from map_round_trip [OF this items] show ?thesis by fastforce
qed

text \<open>An inclusion certificate decodes from exactly the bytes it encodes to.\<close>

theorem inclusion_certificate_wire:
  "InclusionCertificate_decode b = Ok c \<longleftrightarrow> InclusionCertificate_wf c \<and> b = InclusionCertificate_encode c"
  by (rule InclusionCertificate_decode_Ok_iff)

text \<open>C25. A unicity seal decodes only from its own encoding or, when it has no signatures, from the encoding
  with \<open>null\<close> in their place: the one non-canonical form that the decoder accepts.\<close>

theorem seal_wire:
  assumes "UnicitySeal_from_cbor d = Ok s"
  shows "dec_bytes d = UnicitySeal_to_cbor s \<or>
    us_signatures s = [] \<and> dec_bytes d = UnicitySeal_encode s False"
  by (rule seal_read [OF assms])

theorem seal_wire_witness:
  "\<exists>l. UnicitySeal_from_cbor (with_limits (UnicitySeal_to_cbor sample_seal) l) = Ok sample_seal \<and>
     (dec_bytes (with_limits (UnicitySeal_to_cbor sample_seal) l) = UnicitySeal_to_cbor sample_seal \<or>
      us_signatures sample_seal = [])"
proof -
  obtain l where l: "accepts l (UnicitySeal_to_cbor sample_seal)" using sample_seal_accepted by blast
  have "UnicitySeal_wf sample_seal" using sample_uc_wf by (simp add: UnicityCertificate_wf_def sample_uc_def)
  from seal.decode_encode [OF this l] seal_wire show ?thesis by blast
qed

text \<open>A shard id decodes from exactly the bit string with end marker it encodes to.\<close>

theorem shard_id_wire:
  "ShardId_decode b = Ok s \<longleftrightarrow> ShardId_wf s \<and> b = ShardId_encode s"
  using ShardId_decode_encode [of s] ShardId_encode_decode [of b s] by blast

text \<open>A well-formed shard id covers a key exactly when its bits are the first bits of the key.\<close>

theorem shard_prefix_iff:
  assumes "ShardId_wf s"
  shows "is_prefix_of s data \<longleftrightarrow>
    sh_length s \<le> 8 * length data \<and> (\<forall>i < sh_length s. bit_at (sh_bits s) i = bit_at data i)"
  by (rule is_prefix_of_bits [OF assms])

theorem shard_prefix_iff_witness:
  "is_prefix_of \<lparr>sh_bits = [0xa0], sh_length = 3\<rparr> [0xbf] \<and> \<not> is_prefix_of \<lparr>sh_bits = [0xa0], sh_length = 3\<rparr> [0x9f]"
proof -
  have wf: "ShardId_wf \<lparr>sh_bits = [0xa0], sh_length = 3\<rparr>" by (rule sample_shard_wf)
  have bits: "bit_at [0xa0] i = bit_at [0xbf] i" if "i < 3" for i
    using that by (auto simp: less_Suc_eq numeral_eq_Suc) code_simp+
  have "bit_at [0xa0] 2 \<noteq> bit_at [0x9f] 2" by code_simp
  then show ?thesis unfolding shard_prefix_iff [OF wf] using bits by (auto intro!: exI [of _ 2])
qed

section \<open>Sum trees and amounts\<close>

text \<open>C26. Under one root, verified claims with distinct keys never add up to more than the sum that the root
  commits to, unless the hash inputs they exhibit collide.\<close>

theorem claims_conserved:
  assumes "sha2_lengths sha2" "inj_on (sha2 Sha256) (claim_pres sha2 cs)"
    and "\<And>c. c \<in> set cs \<Longrightarrow> claim_wf c" "distinct (map (fst \<circ> snd) cs)"
    and "\<And>p key data v. (p, key, data, v) \<in> set cs \<Longrightarrow>
      RsmstInclusionProof_verify sha2 p key data v root = Some t"
  shows "sum_list (map (snd \<circ> snd \<circ> snd) cs) \<le> t"
  using verified_claims_conserved [OF assms(1,2) assms(3) assms(4) assms(5)] by blast

theorem claims_conserved_witness:
  "sum_list (map (snd \<circ> snd \<circ> snd) [(\<lparr>rp_steps = []\<rparr>, zeros 32, zeros 32, 5 :: nat)]) \<le> 5"
  by (rule claims_conserved [OF sample_sha2_lengths, where root = "zeros 32"])
    (auto simp: claim_pres_def alloc_pres_def claim_alloc_def claim_wf_def alloc_wf_def
      RsmstInclusionProof_verify_def sample_leaf is_valid_amount_iff)

text \<open>C27. The tree that the builder makes proves every entry that was inserted into it, and its root sum is
  the total.\<close>

theorem built_tree_proves:
  assumes "inserted sha2 es t" "Rsmst_build sha2 t = Ok b" "(key, data, v) \<in> set es"
  shows "root_sum b = sum_list (map (snd \<circ> snd) es) \<and>
    (\<exists>p. BuiltRsmst_proof b key = Some p \<and>
       RsmstInclusionProof_verify sha2 p key data v (root_hash b) = Some (root_sum b))"
  by (rule built_proofs_verify [OF assms])

theorem built_tree_proves_witness:
  "\<exists>b p. Rsmst_build sample_sha2 sample_rsmst = Ok b \<and> root_sum b = 12 \<and>
     RsmstInclusionProof_verify sample_sha2 p (zeros 32) [1] 5 (root_hash b) = Some 12"
proof -
  obtain b where b: "Rsmst_build sample_sha2 sample_rsmst = Ok b" using sample_rsmst_build by blast
  from built_tree_proves [OF sample_rsmst_inserted b, of "zeros 32" "[1]" 5] b show ?thesis by auto
qed

text \<open>C28. Building fails exactly for the empty tree and for totals of more than 256 bits.\<close>

theorem tree_builds_iff:
  assumes "inserted sha2 es t"
  shows "(\<exists>b. Rsmst_build sha2 t = Ok b) \<longleftrightarrow> es \<noteq> [] \<and> sum_list (map (snd \<circ> snd) es) < 2 ^ 256"
  by (rule build_result [OF assms])

theorem tree_builds_iff_witness:
  "\<not> (\<exists>b. Rsmst_build sample_sha2 Rsmst_new = Ok b) \<and> (\<exists>b. Rsmst_build sample_sha2 sample_rsmst = Ok b)"
  using tree_builds_iff [OF inserted_new, of sample_sha2] tree_builds_iff [OF sample_rsmst_inserted] by simp

text \<open>An amount decodes from exactly its shortest big-endian bytes, and only when it is positive and has
  at most 256 bits.\<close>

theorem amount_wire:
  "decode_positive_amount b = Ok v \<longleftrightarrow> 0 < v \<and> v < 2 ^ 256 \<and> b = encode_amount v"
  using decode_positive_amount_iff [of b v] by (simp add: is_valid_amount_iff)

text \<open>A collection is created from exactly the asset lists whose ids are distinct and within bounds and
  whose amounts are valid, and holds those assets sorted by id.\<close>

theorem collection_created_iff:
  "PaymentAssetCollection_create as = Ok c \<longleftrightarrow> PaymentAssetCollection_wf c \<and> mset (pc_assets c) = mset as"
  by (rule payment_create_iff)

text \<open>Payment data decodes to a collection from exactly the canonical bytes of that collection.\<close>

theorem payment_data_wire:
  "PaymentAssetCollection_from_cbor_bytes b = Ok c \<longleftrightarrow>
     PaymentAssetCollection_wf c \<and> b = PaymentAssetCollection_to_cbor c \<and> accepts DEFAULT_limits b"
  by (rule payment_bytes_iff)

text \<open>A split manifest decodes from exactly its canonical bytes within the limits.\<close>

theorem manifest_wire:
  assumes "max_input_bytes l < 2 ^ 64"
  shows "SplitManifest_from_cbor_bytes b l = Ok m \<longleftrightarrow> SplitManifest_wf m \<and> b = SplitManifest_to_cbor m \<and> accepts l b"
  by (rule manifest_bytes_iff [OF assms])

theorem manifest_wire_witness:
  "SplitManifest_from_cbor_bytes (SplitManifest_to_cbor sample_manifest) DEFAULT_limits = Ok sample_manifest"
  using manifest_wire [of DEFAULT_limits "SplitManifest_to_cbor sample_manifest" sample_manifest] sample_manifest_accepted
  by (simp add: accepts_def SplitManifest_wf_def sample_manifest_def MAX_PAYMENT_ASSETS_def)

text \<open>The commitment of a split output binds all its fields: different fields have different hash inputs.\<close>

theorem split_commitment_binds:
  assumes "split_output_preimage s n r sa i ty aux = split_output_preimage s' n' r' sa' i' ty' aux'"
    and "length (split_output_preimage s n r sa i ty aux) < 2 ^ 64"
  shows "s = s' \<and> n = n' \<and> r = r' \<and> sa = sa' \<and> i = i' \<and> ty = ty' \<and> aux = aux'"
  by (rule split_output_preimage_inj [OF assms])

theorem split_commitment_binds_witness:
  "split_output_preimage \<lparr>tid_bytes = []\<rparr> sample_network sample_predicate \<lparr>salt_bytes = []\<rparr> \<lparr>tid_bytes = []\<rparr> sample_type [] \<noteq>
   split_output_preimage \<lparr>tid_bytes = []\<rparr> sample_network sample_predicate \<lparr>salt_bytes = []\<rparr> \<lparr>tid_bytes = []\<rparr> sample_type [0]"
  using split_commitment_binds [of "\<lparr>tid_bytes = []\<rparr>" sample_network sample_predicate "\<lparr>salt_bytes = []\<rparr>" "\<lparr>tid_bytes = []\<rparr>"
      sample_type "[]" "\<lparr>tid_bytes = []\<rparr>" sample_network sample_predicate "\<lparr>salt_bytes = []\<rparr>" "\<lparr>tid_bytes = []\<rparr>" sample_type "[0]"]
    sample_preimage_length
  by auto



text \<open>C30. A partition view that a session authenticates yields, for every leaf in order, a unicity certificate
  of the leaf's shard and input record under the enclosing seal, and every one of them is valid under the
  session's trust base.\<close>

theorem view_certificates_valid:
  assumes "PartitionView_wf view"
    and "authenticate sha2 ec view enclosing pins (SealSession_new tb) = Some (Ok av, s)"
  shows "\<exists>cs. certificates av = Some (Ok cs) \<and>
    list_all2 (certified_by sha2 ec tb (uc_unicity_seal enclosing)) (pw_leaves view) cs"
  using authenticated_certificates [OF assms(1,2), of tb "{uc_unicity_seal enclosing}" "\<lambda>_ _. True"]
  by (simp add: SealSession_new_def session_ok_new)

theorem view_certificates_valid_witness:
  "\<exists>av s cs. authenticate sample_sha2 sample_ec sample_view sample_enclosing (Some sample_topology) (SealSession_new sample_tb) =
     Some (Ok av, s) \<and> certificates av = Some (Ok cs) \<and>
     list_all2 (certified_by sample_sha2 sample_ec sample_tb sample_seal) [sample_leaf shard_0, sample_leaf shard_1] cs"
proof -
  obtain av s where a: "authenticate sample_sha2 sample_ec sample_view sample_enclosing (Some sample_topology)
      (SealSession_new sample_tb) = Some (Ok av, s)" using sample_authenticated by blast
  from view_certificates_valid [OF sample_view_wf this] a show ?thesis
    by (auto simp: sample_view_def sample_enclosing_def sample_uc_def)
qed

text \<open>C31. The seal commits to the view: two views authenticated against one enclosing certificate, under any
  sessions and pins, have the same leaves, or SHA-256 collides on two of the byte strings hashed for them.\<close>

theorem view_commitment_binds:
  assumes "sha2_lengths sha2" "PartitionView_wf v" "PartitionView_wf w"
    and "authenticate sha2 ec v enclosing pins s = Some (Ok a, s')"
    and "authenticate sha2 ec w enclosing pins' t = Some (Ok b, t')"
  shows "pw_leaves v = pw_leaves w \<or> collides sha2 (view_inputs sha2 a) (view_inputs sha2 b)"
  using view_committed [OF assms(1) authenticate_with_ok(1) [OF assms(4) [unfolded authenticate_def] assms(2)]
      authenticate_with_ok(1) [OF assms(5) [unfolded authenticate_def] assms(3)]]
    authenticate_with_ok(2-4) [OF assms(4) [unfolded authenticate_def] assms(2)]
    authenticate_with_ok(2-4) [OF assms(5) [unfolded authenticate_def] assms(3)]
  by simp

theorem view_commitment_binds_witness:
  "\<exists>a s. authenticate sample_sha2 sample_ec sample_view sample_enclosing (Some sample_topology) (SealSession_new sample_tb) =
     Some (Ok a, s) \<and> (pw_leaves sample_view = pw_leaves sample_view \<or>
     collides sample_sha2 (view_inputs sample_sha2 a) (view_inputs sample_sha2 a))"
  using sample_authenticated view_commitment_binds [OF sample_sha2_lengths sample_view_wf sample_view_wf] by blast

text \<open>C32. Assembling the certificates of a decoded view always returns: every climb in a tree that was built
  ends, for every enclosing certificate, topology and authority.\<close>

theorem assembly_returns:
  assumes "PartitionView_wf view"
  shows "\<exists>r s'. assemble_certificates sha2 authority view enclosing topology s = Some (r, s')"
  by (rule assemble_returns [OF assms])

theorem assembly_returns_witness:
  "\<exists>r s'. assemble_certificates sample_sha2 (authenticate_seal_under sample_sha2 sample_ec) sample_view sample_enclosing
     sample_topology (SealSession_new sample_tb) = Some (r, s')"
  by (rule assembly_returns [OF sample_view_wf])

text \<open>C33. A shard tree is built from exactly the leaf lists whose ids are, in order, the leaves of a binary
  tree. It costs one hash per inner node, and the certificate of every leaf hashes to the root.\<close>

theorem shard_tree_built_iff:
  assumes "\<forall>x\<in>set ls. ShardId_wf (fst x)" "length ls < 2 ^ 31"
  shows "((\<exists>tree. fst (build_counted sha2 ls ShardTreeWork_default) = Ok tree) \<longleftrightarrow> (\<exists>t. map (shard_bits \<circ> fst) ls = paths [] t)) \<and>
    (\<forall>tree work. build_counted sha2 ls ShardTreeWork_default = (Ok tree, work) \<longrightarrow>
       tw_inner_hashes work = word_of_nat (length ls - 1) \<and>
       (\<forall>(s, h)\<in>set ls. \<exists>c root. ShardTree_certificate tree s = Some (Ok c) \<and>
          fold_shard_siblings sha2 s 0 (stc_sibling_hash_list c) \<lparr>dh_algorithm = Sha256, dh_data = h\<rparr> = Ok root \<and>
          dh_data root = ShardTree_root_hash tree))"
  using build_counted_iff [OF assms, of sha2 ShardTreeWork_default] built_tree_certifies [OF assms, of sha2] by blast

theorem shard_tree_built_iff_witness:
  "\<exists>t. map shard_bits [shard_0, shard_1] = paths [] t"
  using shard_tree_built_iff [of "[(shard_0, zeros 32), (shard_1, zeros 32)]" sample_sha2] sample_shard_tree sample_shards_wf
  by (simp add: ShardTree_build_def)

text \<open>C34. Decoding a partition view accepts exactly the encodings of views that satisfy the bounds, and
  returns the view encoded.\<close>

theorem partition_view_wire:
  "PartitionView_from_cbor data = Ok v \<longleftrightarrow> PartitionView_wf v \<and> PartitionView_to_cbor v = Ok data"
  by (rule PartitionView_from_cbor_iff)

text \<open>C35. The empty scheme is admitted as the single shard. Any other scheme is admitted exactly when it has
  between two and eight non-empty ids within the bound and every 256-bit key has exactly one of them as a prefix; its
  canonical order is the sorted scheme.\<close>

theorem topology_admitted_iff:
  assumes "\<forall>s\<in>set (pt_scheme t). ShardId_wf s"
  shows "canonical_order t = Ok ids \<longleftrightarrow>
    (if pt_scheme t = [] then ids = [ShardId_root]
     else 2 \<le> length (pt_scheme t) \<and> length (pt_scheme t) \<le> 8 \<and>
       (\<forall>s\<in>set (pt_scheme t). 0 < sh_length s \<and> sh_length s \<le> 256) \<and>
       unique_cover (map shard_bits (pt_scheme t)) \<and> ids = sort_by canonical_cmp (pt_scheme t))"
proof (cases "pt_scheme t = []")
  case True
  then show ?thesis by (simp add: canonical_order_empty)
next
  case False
  have "\<And>s. s \<in> set (pt_scheme t) \<Longrightarrow> ShardId_wf s" using assms by blast
  from canonical_order_iff [OF this False] False show ?thesis by simp
qed

theorem topology_admitted_iff_witness: "unique_cover (map shard_bits [shard_1, shard_0])"
  using topology_admitted_iff [of sample_topology "[shard_0, shard_1]"] sample_order sample_shards_wf
  by (simp add: sample_topology_def PartitionTopology_new_def)

text \<open>C36. The router sends a state to the one shard of the scheme whose id is a prefix of the state id.\<close>

theorem state_routed:
  assumes "\<forall>s\<in>set (pt_scheme topology). ShardId_wf s" "ShardRouter_new topology = Ok r" "length (sid_bytes state_id) = 32"
  shows "route r state_id \<in> set (rt_shards r) \<and>
    (\<forall>s\<in>set (rt_shards r). is_prefix_of s (sid_bytes state_id) \<longleftrightarrow> s = route r state_id)"
  using route_unique [OF assms] by blast

theorem state_routed_witness: "route \<lparr>rt_shards = [shard_0, shard_1]\<rparr> \<lparr>sid_bytes = zeros 32\<rparr> = shard_0"
proof -
  have "ShardRouter_new sample_topology = Ok \<lparr>rt_shards = [shard_0, shard_1]\<rparr>"
    using sample_order by (simp add: ShardRouter_new_def)
  moreover have "is_prefix_of shard_0 (zeros 32)" by (simp add: is_prefix_of_def shard_0_def zeros_def get_at_def)
  ultimately show ?thesis
    using state_routed [of sample_topology "\<lparr>rt_shards = [shard_0, shard_1]\<rparr>" "\<lparr>sid_bytes = zeros 32\<rparr>"] sample_shards_wf
    by (auto simp: sample_topology_def PartitionTopology_new_def)
qed

text \<open>C37. What rebuilding a token leaves to check is the served paths and nothing else. Let the proofs of a token
  with a checked history be replaced by served paths, which nothing has checked, with the certificates of an
  authenticated view for the routed shards. Then the proofs of the rebuilt token carry one seal, and its history is
  checked exactly when every path leads from the state of its proof to the certified state root and the reference
  time of the proof is not after that of the certificate.\<close>

theorem consolidated_token_valid:
  assumes "sha2_lengths sha2" "\<forall>s\<in>set (pt_scheme topology). ShardId_wf s" "ShardRouter_new topology = Ok router"
    and "PartitionView_wf view" "authenticate sha2 ec view enclosing pins (SealSession_new tb) = Some (Ok av, s)"
    and "history_ok sha2 ec tb token" "list_all2 (replaces av router) (outer_proofs sha2 token) proofs"
    and "rebuild_token token proofs = Ok token'"
  shows "distinct_seals (map op_proof (outer_proofs sha2 token')) = 1 \<and>
    (history_ok sha2 ec tb token' \<longleftrightarrow> list_all2 (path_checked sha2) (outer_proofs sha2 token) proofs)"
proof -
  have "session_ok sha2 ec tb {uc_unicity_seal enclosing} (\<lambda>_ _. True) (SealSession_new tb)"
    by (simp add: SealSession_new_def session_ok_new)
  note a = authenticated_ok [OF assms(4,5) this]
  have "av_ok sha2 av" "us_network_id (av_seal av) = tb_network_id tb" "seal_check sha2 ec tb (av_seal av) = Ok ()"
    using a by simp_all
  from consolidated_history [OF assms(3,2) this assms(1,6,7,8)] show ?thesis by simp
qed

theorem consolidated_token_valid_witness:
  "\<exists>token'. rebuild_token sample_token [sample_replacement] = Ok token' \<and>
     history_ok sample_sha2 sample_ec sample_tb token' \<and> distinct_seals (map op_proof (outer_proofs sample_sha2 token')) = 1"
proof -
  obtain s where a: "authenticate sample_sha2 sample_ec sample_view sample_enclosing (Some sample_topology)
      (SealSession_new sample_tb) = Some (Ok sample_av, s)" using sample_authenticated by blast
  obtain token' where t: "rebuild_token sample_token [sample_replacement] = Ok token'" using sample_rebuilt by blast
  from consolidated_token_valid [OF sample_sha2_lengths sample_scheme_wf sample_router sample_view_wf a _ sample_replaces t]
    sample_history sample_path_checked show ?thesis using t by (simp add: sample_token_eq)
qed

text \<open>C38. The root-round bound is the newest round of the evidence, every item of which passed the membership
  check, and names the shard of the first item with that round.\<close>

theorem root_round_newest:
  assumes "inj_on (seal_key sha2) ((\<lambda>(i, p). uc_unicity_seal (ip_unicity_certificate p)) ` set evidence)"
    and "fst (RootRoundBound_from_proofs sha2 ec router evidence (SealSession_new tb)) = Ok b"
  shows "(\<forall>(i, p)\<in>set evidence. membership_check sha2 ec tb p i (ip_reference_time p) = Ok () \<and> seal_round p \<le> rb_round b) \<and>
    (\<exists>before i p after. evidence = before @ (i, p) # after \<and> rb_round b = seal_round p \<and> rb_shard b = route router i \<and>
       (\<forall>(j, q)\<in>set before. seal_round q < rb_round b))"
proof -
  have "plain_session sha2 ec tb ((\<lambda>(i, p). uc_unicity_seal (ip_unicity_certificate p)) ` set evidence) (SealSession_new tb)"
    by (simp add: SealSession_new_def session_ok_new)
  moreover have "\<forall>(i, p)\<in>set evidence. uc_unicity_seal (ip_unicity_certificate p) \<in>
      (\<lambda>(i, p). uc_unicity_seal (ip_unicity_certificate p)) ` set evidence" by auto
  ultimately show ?thesis using from_proofs_bound [OF _ assms(1) _ assms(2)] by simp
qed

theorem root_round_newest_witness:
  "\<exists>b. fst (RootRoundBound_from_proofs sample_sha2 sample_ec \<lparr>rt_shards = [shard_0, shard_1]\<rparr>
     [(\<lparr>sid_bytes = zeros 32\<rparr>, sample_proof)] (SealSession_new sample_tb)) = Ok b \<and> rb_round b = 1 \<and>
     rb_shard b = route \<lparr>rt_shards = [shard_0, shard_1]\<rparr> \<lparr>sid_bytes = zeros 32\<rparr>"
proof -
  let ?e = "[(\<lparr>sid_bytes = zeros 32\<rparr>, sample_proof)]" and ?r = "\<lparr>rt_shards = [shard_0, shard_1]\<rparr>"
  obtain b where b: "fst (RootRoundBound_from_proofs sample_sha2 sample_ec ?r ?e (SealSession_new sample_tb)) = Ok b"
    using sample_bound by blast
  have "\<exists>before i p after. ?e = before @ (i, p) # after \<and> rb_round b = seal_round p \<and> rb_shard b = route ?r i"
    using root_round_newest [OF _ b] by force
  then have "rb_round b = seal_round sample_proof" "rb_shard b = route ?r \<lparr>sid_bytes = zeros 32\<rparr>"
    by (auto simp: Cons_eq_append_conv)
  then show ?thesis using b by (auto simp: seal_round_def sample_proof_def sample_uc_def sample_seal_def)
qed

section \<open>Clients\<close>

text \<open>C6. A consolidation attempt of a service always returns, whatever the aggregators answer, the clock shows,
  the executor does and the caller cancels, provided that the shard ids of answered views are well formed. A
  token it hands back has the transactions of the token it was given and one seal. It is the given token,
  which was verified and shared a seal already, or it was verified itself and none of its seals is older than a
  seal of the given token.\<close>

theorem consolidation_sound:
  assumes "ProofClient_new topology endpoints tb clock executor = Ok cl" "\<forall>(shard, c)\<in>set endpoints. answers_wf c"
  shows "\<exists>r w'. consolidate sha2 ec (with_verification cl registry policy) token options w = Some (r, w') \<and>
    (\<forall>token' summary. r = Ok (Consolidated token' summary) \<longrightarrow>
       cm_transaction (tk_genesis token') = cm_transaction (tk_genesis token) \<and>
       map ct_transaction (tk_transactions token') = map ct_transaction (tk_transactions token) \<and>
       distinct_seals (token_proofs token') = 1 \<and> cs_outer_seals_after summary = 1 \<and>
       (if cs_already_shared summary
        then token' = token \<and> fst (verify_token_in_session sha2 ec token (SealSession_new tb) registry policy) = Ok ()
        else verify_token_with_policy sha2 ec token' tb registry policy = Ok () \<and>
          (\<forall>p\<in>set (token_proofs token'). \<forall>q\<in>set (token_proofs token). seal_round q \<le> seal_round p)))"
proof -
  let ?cl = "with_verification cl registry policy"
  have "client_ok ?cl" using ProofClient_new_ok(1) [OF assms] by simp
  moreover have "cl_trust_base ?cl = tb" "cl_registry ?cl = registry" "cl_policy ?cl = policy"
    using ProofClient_new_ok(2) [OF assms] by (simp_all add: with_verification_def)
  ultimately show ?thesis
    using consolidate_returns [of ?cl sha2 ec token options w] unfolding returns_def consolidated_from_def
    by (auto simp del: client_ok_update)
qed

theorem consolidation_sound_witness:
  "\<exists>token' summary. consolidate sample_sha2 sample_ec sample_service sample_token sample_options () =
     Some (Ok (Consolidated token' summary), ()) \<and> cs_already_shared summary \<and> token' = sample_token \<and>
     distinct_seals (token_proofs token') = 1"
proof -
  obtain summary where c: "consolidate sample_sha2 sample_ec sample_service sample_token sample_options () =
      Some (Ok (Consolidated sample_token summary), ())" "cs_already_shared summary" using sample_consolidated by blast
  have cl: "with_verification sample_service MintJustificationRegistry_new VerificationPolicy_default = sample_service"
    by (simp add: with_verification_def sample_service_def)
  have "\<forall>(shard, c)\<in>set [(ShardId_root, sample_endpoint)]. answers_wf c" using sample_endpoint_wf by simp
  from consolidation_sound [OF sample_service_new this, of sample_sha2 sample_ec MintJustificationRegistry_new
      VerificationPolicy_default sample_token sample_options "()"]
  have "distinct_seals (token_proofs sample_token) = 1" unfolding cl c(1) by auto
  then show ?thesis using c by blast
qed

text \<open>C7. A transfer completes: the owner of a verified token below the transfer limit gets from an aggregator
  that certifies the request a verified token, which extends the token by the transfer asked for.\<close>

theorem transfer_completes:
  assumes "sha2_lengths sha2" "Token_verify sha2 ec token tb = Ok ()"
    and "length (tk_transactions token) < vl_max_token_transfers VerificationLimits_DEFAULT"
    and "SignaturePredicate_from_encoded ec (snd (latest_state sha2 token)) = Ok \<lparr>sp_public_key = key\<rparr>" "signs_for ec sign key"
    and "\<And>cd. certification_data_for sha2 (transfer_view sha2 (next_transfer sha2 token recipient state_mask data expires_at)) sign =
        Some cd \<Longrightarrow> serves sha2 ec tb (token_seals token) aggregator w cd"
  shows "\<exists>p token' w'. transfer sha2 ec aggregator tb token recipient sign state_mask data expires_at w = Some (Ok token', w') \<and>
    Token_verify sha2 ec token' tb = Ok () \<and> tk_genesis token' = tk_genesis token \<and>
    tk_transactions token' = tk_transactions token @
      [\<lparr>ct_transaction = next_transfer sha2 token recipient state_mask data expires_at, ct_inclusion_proof = p\<rparr>]"
proof -
  from transfer_served [OF assms] obtain token' w' where
    t: "transfer sha2 ec aggregator tb token recipient sign state_mask data expires_at w = Some (Ok token', w')" by blast
  then show ?thesis by (rule transfer_returns) (use t in auto)
qed

theorem transfer_completes_witness:
  "\<exists>token' w'. transfer sample_sha2 sample_ec sample_aggregator sample_tb sample_token sample_predicate sample_signer (zeros 32) None None () =
     Some (Ok token', w') \<and> Token_verify sample_sha2 sample_ec token' sample_tb = Ok () \<and> length (tk_transactions token') = 1"
proof -
  have owner: "SignaturePredicate_from_encoded sample_ec (snd (latest_state sample_sha2 sample_token)) = Ok \<lparr>sp_public_key = sample_key\<rparr>"
    by (simp add: sample_latest sample_predicate_read)
  have few: "length (tk_transactions sample_token) < vl_max_token_transfers VerificationLimits_DEFAULT"
    by (simp add: sample_token_eq VerificationLimits_DEFAULT_def)
  have "serves sample_sha2 sample_ec sample_tb (token_seals sample_token) sample_aggregator () cd"
    if "certification_data_for sample_sha2 (transfer_view sample_sha2
      (next_transfer sample_sha2 sample_token sample_predicate (zeros 32) None None)) sample_signer = Some cd" for cd
    using sample_certified(1) [OF _ _ _ that] by (simp add: transfer_view_def next_transfer_def sample_latest sample_token_seals)
  from transfer_completes [where recipient = sample_predicate and state_mask = "zeros 32" and data = None and expires_at = None,
      OF sample_sha2_lengths sample_token_verified few owner sample_signs this] show ?thesis
    by (auto simp: sample_token_eq)
qed

text \<open>C8. A mint without a justification completes: for a valid trust base and data within the limits, an
  aggregator that certifies the request of the minter of the token id gives a verified token whose genesis is the
  mint created from the arguments. A mint with a justification never returns a token, whatever the aggregator
  does, since the flow verifies with the empty registry.\<close>

theorem mint_completes:
  assumes "sha2_lengths sha2" "validate tb = Ok ()"
    and "MintTransaction_create sha2 ec (tb_network_id tb) recipient token_type salt data None expires_at = Ok m"
    and "Minter_signer sha2 ec (mt_token_id m) = Ok signer"
    and "\<And>key. Minter_public_key sha2 ec (mt_token_id m) = Ok key \<Longrightarrow> signs_for ec (signer_sign ec signer) key"
    and "\<And>d. data = Some d \<Longrightarrow> length d \<le> max_input_bytes DEFAULT_limits"
    and "\<And>cd. certification_data_for sha2 (mint_view sha2 m) (signer_sign ec signer) = Some cd \<Longrightarrow>
      serves sha2 ec tb {} aggregator w cd"
  shows "(\<exists>p token w'. mint sha2 ec aggregator tb (tb_network_id tb) recipient token_type salt data None expires_at w =
      Some (Ok token, w') \<and> Token_verify sha2 ec token tb = Ok () \<and>
      token = \<lparr>tk_genesis = \<lparr>cm_transaction = m, cm_inclusion_proof = p\<rparr>, tk_transactions = []\<rparr>) \<and>
    (\<forall>j token w'. mint sha2 ec aggregator tb (tb_network_id tb) recipient token_type salt data (Some j) expires_at w \<noteq>
      Some (Ok token, w'))"
proof -
  from mint_served [OF assms] obtain token w' where
    t: "mint sha2 ec aggregator tb (tb_network_id tb) recipient token_type salt data None expires_at w = Some (Ok token, w')" by blast
  then have "\<exists>p token w'. mint sha2 ec aggregator tb (tb_network_id tb) recipient token_type salt data None expires_at w =
      Some (Ok token, w') \<and> Token_verify sha2 ec token tb = Ok () \<and>
      token = \<lparr>tk_genesis = \<lparr>cm_transaction = m, cm_inclusion_proof = p\<rparr>, tk_transactions = []\<rparr>"
    by (rule mint_returns) (use t assms(3) in auto)
  then show ?thesis by (intro conjI allI justified_mint_fails)
qed

theorem mint_completes_witness:
  "\<exists>token w'. mint sample_sha2 sample_ec sample_aggregator sample_tb sample_network sample_predicate sample_type
     \<lparr>salt_bytes = zeros 32\<rparr> None None None () = Some (Ok token, w') \<and> Token_verify sample_sha2 sample_ec token sample_tb = Ok ()"
proof -
  obtain m where m: "MintTransaction_create sample_sha2 sample_ec (tb_network_id sample_tb) sample_predicate sample_type
      \<lparr>salt_bytes = zeros 32\<rparr> None None None = Ok m" "mt_lock_script m = sample_predicate" "mt_expires_at m = None"
      "mts_hash (mt_source_state m) = sha256 sample_sha2 []"
    by (simp add: MintTransaction_create_def Let_def sample_minter sample_predicate_def MintTransactionState_derive_def
        sha256_def finalize_def)
  have signer: "Minter_signer sample_sha2 sample_ec i = Ok \<lparr>sk_secret = zeros 32\<rparr>" for i
    by (simp add: Minter_signer_def Secp256k1Signer_from_bytes_def derive_private_key_def finalize_def) (simp add: sample_ec_def)
  have signs: "signs_for sample_ec (signer_sign sample_ec \<lparr>sk_secret = zeros 32\<rparr>) key"
    if "Minter_public_key sample_sha2 sample_ec (mt_token_id m) = Ok key" for key
    using that sample_signs by (simp add: sample_minter sample_signer_def)
  have serves: "serves sample_sha2 sample_ec sample_tb {} sample_aggregator () cd"
    if "certification_data_for sample_sha2 (mint_view sample_sha2 m) (signer_sign sample_ec \<lparr>sk_secret = zeros 32\<rparr>) = Some cd" for cd
    using sample_certified(2) [OF _ _ _ that [folded sample_signer_def]] m by (simp add: mint_view_def)
  have "tb_network_id sample_tb = sample_network" by (simp add: sample_tb_def)
  with mint_completes [OF sample_sha2_lengths sample_tb_valid m(1) signer signs _ serves] show ?thesis by auto
qed

text \<open>C18. A negotiated call repeats the request as a plain one exactly when the first one carried a wait that the
  parser of the server rejected without echoing it, and time is left. The plain request gets what the first left of
  the timeout, and its answer is the result; otherwise the first answer is. The number of requests that is reported
  is the number of calls that were made, counted on a client that counts them.\<close>

theorem negotiation_bounded:
  fixes client :: "'w BatchAggregatorClient"
  assumes "get_latest_negotiating_wait client ids options wait now_ms w = (n, w')" "now_ms w = (started, w1)"
    and "get_inclusion_proofs_with_wait client \<lparr>br_state_ids = ids, br_state_root = Latest\<rparr> options wait w1 = (first, w2)"
    and "now_ms w2 = (now, w3)"
  shows "(nb_retried_without_wait n \<longleftrightarrow>
      (\<exists>e. first = Err e \<and> wf_sent_wait_ms e \<noteq> None \<and> is_malformed_params (wf_failure e) \<and> wf_waited_ms e = None) \<and>
      unat now - unat started < unat (ro_timeout_ms options)) \<and>
    (if nb_retried_without_wait n
     then nb_requests n = 2 \<and> (\<exists>left. unat left = unat (ro_timeout_ms options) - (unat now - unat started) \<and>
       (nb_result n, w') = plain_call (get_inclusion_proofs client) \<lparr>br_state_ids = ids, br_state_root = Latest\<rparr> \<lparr>ro_timeout_ms = left\<rparr> w3)
     else nb_requests n = 1 \<and> nb_result n = first) \<and>
    get_latest_negotiating_wait (counted_client client) ids options wait (counted_clock now_ms) (w, k) =
      (n, (w', k + unat (nb_requests n)))"
proof -
  have "\<not> nb_retried_without_wait n \<Longrightarrow> nb_requests n = 1 \<and> nb_result n = first"
    by (rule negotiation [OF assms(1)]) (use assms(2,3) in auto)
  moreover have "nb_retried_without_wait n \<Longrightarrow> nb_requests n = 2 \<and>
      (\<exists>left. unat left = unat (ro_timeout_ms options) - (unat now - unat started) \<and>
       (nb_result n, w') = plain_call (get_inclusion_proofs client) \<lparr>br_state_ids = ids, br_state_root = Latest\<rparr> \<lparr>ro_timeout_ms = left\<rparr> w3)"
    by (rule negotiation [OF assms(1)]) (use assms(2-4) in auto)
  ultimately show ?thesis
    using negotiation_retried_iff [OF assms] counted_negotiation [of client ids options wait now_ms w k] assms(1) by simp
qed

theorem negotiation_bounded_witness:
  "\<exists>n w'. get_latest_negotiating_wait strict_parser [] \<lparr>ro_timeout_ms = 100\<rparr> (WaitRequest_new 50) (\<lambda>t. (t, t + 30)) 0 = (n, w') \<and>
     nb_retried_without_wait n \<and>
     get_latest_negotiating_wait (counted_client strict_parser) [] \<lparr>ro_timeout_ms = 100\<rparr> (WaitRequest_new 50)
       (counted_clock (\<lambda>t. (t, t + 30))) (0, 0) = (n, (w', 2))"
proof -
  let ?t = "\<lambda>t :: u64. (t, t + 30)" and ?e = "\<lparr>wf_failure = RpcFailure INVALID_PARAMS [] (Some ''invalid_request'')
    (Some ''malformed_params'') None [], wf_waited_ms = None, wf_sent_wait_ms = Some 50\<rparr>"
  obtain n w' where n: "get_latest_negotiating_wait strict_parser [] \<lparr>ro_timeout_ms = 100\<rparr> (WaitRequest_new 50) ?t 0 = (n, w')"
    by fastforce
  have first: "get_inclusion_proofs_with_wait strict_parser \<lparr>br_state_ids = [], br_state_root = Latest\<rparr> \<lparr>ro_timeout_ms = 100\<rparr>
      (WaitRequest_new 50) 30 = (Err ?e, 30)" by (simp add: strict_parser_def)
  have p: "?t 0 = (0, 30)" "?t 30 = (30, 60)" "is_malformed_params (wf_failure ?e)" by (simp_all add: is_malformed_params_def)
  from negotiation_bounded [OF n p(1) first p(2), of 0] p(3) n show ?thesis by auto
qed

text \<open>The answer about a state round trips, with a certified leaf and without one.\<close>

theorem response_wire:
  assumes "InclusionProofResponse_wf r" "accepts l (InclusionProofResponse_to_cbor r)"
  shows "InclusionProofResponse_from_cbor (with_limits (InclusionProofResponse_to_cbor r) l) = Ok r"
  by (rule response.decode_encode [OF assms])

theorem response_wire_witness:
  "\<exists>l. InclusionProofResponse_from_cbor (with_limits (InclusionProofResponse_to_cbor (NotCertified 5 sample_uc)) l) =
     Ok (NotCertified 5 sample_uc)"
proof -
  have wf: "InclusionProofResponse_wf (NotCertified 5 sample_uc)" using sample_uc_wf by simp
  obtain l where "accepts l (InclusionProofResponse_to_cbor (NotCertified 5 sample_uc))"
    using item_accepted [OF response.encodes_item [OF wf]] sample_response_length by blast
  from response_wire [OF wf this] show ?thesis by blast
qed

section \<open>The JSON-RPC client\<close>

text \<open>C9. A submission that is verified against a trust base hands back only a proof of the certification data
  that was submitted, and reports a lost race only when a proof of other data for the same state verifies: what
  the gateway claims is never taken for a conflict. Without long polling it returns, whatever the gateway does.\<close>

theorem submission_outcome:
  "(\<forall>p w'. submit_and_wait_verified sha2 ec L N cl data max_resubmits tb w = Some (Ok p, w') \<longrightarrow>
      ip_certification_data p = data) \<and>
   (\<forall>w'. submit_and_wait_verified sha2 ec L N cl data max_resubmits tb w = Some (Err StateCertifiedWithOtherData, w') \<longrightarrow>
      (\<exists>p. ip_certification_data p \<noteq> data \<and>
         InclusionProof_verify_for sha2 ec p (StateId_derive sha2 (cd_lock_script data) (cd_source_state_hash data))
           (ip_reference_time p) tb = Ok ())) \<and>
   (\<not> hc_long_poll cl \<longrightarrow> (\<exists>r w'. submit_and_wait_verified sha2 ec L N cl data max_resubmits tb w = Some (r, w')))"
  using race_lost_to_verified_proof [of sha2 ec L N cl data max_resubmits tb w]
    submit_and_wait_own [of sha2 L N cl data max_resubmits "\<lambda>p state_id. conflict_error sha2 ec p state_id tb" w]
    submit_and_wait_returns [of cl sha2 L N data max_resubmits "\<lambda>p state_id. conflict_error sha2 ec p state_id tb" w]
  by (auto simp: submit_and_wait_verified_def)

theorem submission_outcome_witness:
  "\<exists>r w'. submit_and_wait_verified sample_sha2 sample_ec sample_libs sample_net sample_http
     (ip_certification_data sample_proof) 2 sample_tb 0 = Some (r, w')"
  using submission_outcome [of sample_sha2 sample_ec sample_libs sample_net sample_http "ip_certification_data sample_proof" 2 sample_tb 0]
  by (simp add: sample_http_def HttpAggregatorClient_with_long_poll_def)

text \<open>C10. A wait for an inclusion proof ends, whatever the gateway answers, when the clock moves forward, sleeping
  takes its time and the deadline is not near the end of the instants of the platform. It makes at most one
  request per ten milliseconds of its budget.\<close>

theorem wait_bounded:
  assumes "clock_ok N time" "cancel_ok options time" "fst (nt_now N w) + wo_total options + YEARS_30 \<le> nt_instant_max N"
    and "wo_total options \<le> n * MIN_PAUSE" "n < 2 ^ 32"
  shows "\<exists>outcome w'. wait_for_inclusion_proof_with_stats L N cl state_id options w = Some (outcome, w') \<and>
    unat (wt_requests (ot_stats outcome)) \<le> n"
  using wait_returns [OF assms(1-4)] assms(5) by blast

theorem wait_bounded_witness:
  "\<exists>outcome w'. wait_for_inclusion_proof_with_stats sample_libs sample_net sample_http \<lparr>sid_bytes = replicate 32 0\<rparr>
     (WaitOptions_new (from_millis 30)) 5 = Some (outcome, w') \<and> unat (wt_requests (ot_stats outcome)) \<le> 3"
proof (rule wait_bounded [OF sample_clock sample_never_cancelled])
  show "fst (nt_now sample_net 5) + wo_total (WaitOptions_new (from_millis 30) :: nat WaitOptions) + YEARS_30 \<le> nt_instant_max sample_net"
    by (simp add: sample_net_def WaitOptions_new_def YEARS_30_def from_millis_def from_secs_def)
  show "wo_total (WaitOptions_new (from_millis 30) :: nat WaitOptions) \<le> 3 * MIN_PAUSE"
    by (simp add: WaitOptions_new_def MIN_PAUSE_def from_millis_def)
qed simp

text \<open>C39. A planned call fits: a wait that is sent is positive, within the preferred wait and the limit of the
  protocol, and the timeout of the call is that wait with its margin, without overflow, within the time left and
  the largest request timeout; a plain call stays within the time left, unless it keeps its own timeout.\<close>

theorem call_plan_bounds:
  assumes "1 \<le> remaining_ms"
  shows "1 \<le> pl_timeout_ms (plan_call remaining_ms options send_wait) \<and>
    (case pl_wait_ms (plan_call remaining_ms options send_wait) of
       Some wait \<Rightarrow> 0 < wait \<and> wait \<le> duration_ms (wo_preferred_wait options) \<and> wait \<le> MAX_WAIT_MS \<and>
         unat (pl_timeout_ms (plan_call remaining_ms options send_wait)) = unat wait + unat (duration_ms (wo_margin options)) \<and>
         pl_timeout_ms (plan_call remaining_ms options send_wait) \<le> min remaining_ms (duration_ms (wo_max_request_timeout options))
     | None \<Rightarrow> wo_plain_calls_keep_request_timeout options \<or>
         pl_timeout_ms (plan_call remaining_ms options send_wait) \<le> remaining_ms)"
proof (cases "pl_wait_ms (plan_call remaining_ms options send_wait)")
  case None
  then show ?thesis using plan_call_bounds(2,3) [OF refl assms, of options send_wait] by auto
next
  case (Some wait)
  then show ?thesis
    using plan_call_bounds(2) [OF refl assms, of options send_wait] plan_call_bounds(1) [OF refl assms Some]
    by (simp only: option.case min.bounded_iff simp_thms)
qed

theorem call_plan_bounds_witness:
  "pl_timeout_ms (plan_call 700 (WaitOptions_new (from_secs 1) :: unit WaitOptions) True) \<le> 700"
proof -
  have "(1 :: u64) \<le> 700" by simp
  from call_plan_bounds [OF this, of "WaitOptions_new (from_secs 1) :: unit WaitOptions" True] show ?thesis
    by (auto simp: WaitOptions_new_def simp del: One_nat_def split: option.splits)
qed

text \<open>C11. An API key is never sent over plaintext: whatever a transport does with requests that carry a key to
  an endpoint that is not HTTPS, a submission does not depend on it, since it makes no such request.\<close>

theorem api_key_never_plaintext:
  "submit_inner sha2 L (N\<lparr>nt_post := \<lambda>r w. if discloses_key L r then other r w else nt_post N r w\<rparr>) cl data w =
   submit_inner sha2 L N cl data w"
  by (rule submit_keeps_key)

text \<open>C40. The date of a \<open>Retry-After\<close> header is read as the number of seconds since the epoch, where the days are
  counted one by one in the Gregorian calendar; a date that the calendar does not have before the year 10000 is
  not read.\<close>

theorem http_date_counts_days:
  "parse_http_date date = Some s \<longleftrightarrow>
     (\<exists>day mon year clock h mi sec n.
        date_parts (filter (\<lambda>t. t \<noteq> []) (split_on (\<lambda>c. is_ascii_whitespace c \<or> c = CHR '','') date)) = Some (day, mon, year, clock) \<and>
        clock_parts clock = Some (h, mi, sec) \<and> year \<le> 9999 \<and> (next_day ^^ n) (1970, 1, 1) = (year, mon, day) \<and>
        s = n * 86400 + nat (h * 3600 + mi * 60 + sec))"
  by (rule parse_http_date_iff)

end
